(* ===== verification/Prelude.thy ===== *)
theory Prelude
  imports Main "HOL-Library.Char_ord"
begin

text \<open>
  Shared material of the development: the types every component uses (instants, row
  identifiers, the error values of the program and the result type of its fallible
  functions), the collections of simplification rules, and generic facts about lists and
  finite tables that the component theories need more than once.
\<close>

section \<open>Rule collections\<close>

named_theorems go_str \<open>defining equations of the string functions\<close>
named_theorems tbl_simps \<open>facts about tables kept as lists of rows\<close>
named_theorems errs \<open>the sentinel errors\<close>

section \<open>Basic types\<close>

text \<open>
  An instant is a number of nanoseconds since the Unix epoch (Go's \<open>time.Time\<close> in UTC), a
  duration a number of nanoseconds. A UUID is the 128-bit number it denotes; \<open>uuid.Nil\<close>
  is 0. Fresh identifiers and the current instant are inputs of the operations that draw
  them.
\<close>

type_synonym instant = int
type_synonym duration = int
type_synonym uuid = nat

text \<open>
  The error values. A sentinel error of a Go package is \<open>Sentinel\<close> of its package and
  name, so that \<open>err == pkg.ErrX\<close> is equality and \<open>fmt.Errorf("msg: %w", err)\<close> is
  \<open>Wrap msg err\<close>, which is different from \<open>err\<close> but still unwraps to it. \<open>Msg\<close> is an
  error made from a text alone. \<open>PgUnique\<close>, \<open>PgForeignKey\<close> and \<open>PgCheck\<close> are the
  constraint violations PostgreSQL reports, \<open>Fault\<close> is any other failure of an
  external service (database, disk, network), and \<open>Panic\<close> is a run-time panic.
\<close>

datatype err =
    Sentinel string string
  | Wrap string err
  | Msg string
  | PgUnique string
  | PgForeignKey string
  | PgCheck string
  | Fault
  | Panic string

type_synonym 'a result = "err + 'a"

fun err_is :: "err \<Rightarrow> err \<Rightarrow> bool" where
  "err_is (Wrap m e) t = (Wrap m e = t \<or> err_is e t)"
| "err_is e t = (e = t)"

lemma err_is_refl [simp]: "err_is e e"
  by (cases e) simp_all

section \<open>Tables\<close>

text \<open>
  A table is the list of its rows in insertion order. Updates map over the rows that a
  \<open>WHERE\<close> clause selects, deletions filter them, and both report how many rows they
  touched.
\<close>

definition rows_where :: "('r \<Rightarrow> bool) \<Rightarrow> 'r list \<Rightarrow> 'r list" where
  "rows_where P t = filter P t"

definition update_where :: "('r \<Rightarrow> bool) \<Rightarrow> ('r \<Rightarrow> 'r) \<Rightarrow> 'r list \<Rightarrow> 'r list" where
  "update_where P f t = map (\<lambda>r. if P r then f r else r) t"

definition delete_where :: "('r \<Rightarrow> bool) \<Rightarrow> 'r list \<Rightarrow> 'r list" where
  "delete_where P t = filter (\<lambda>r. \<not> P r) t"

definition affected :: "('r \<Rightarrow> bool) \<Rightarrow> 'r list \<Rightarrow> nat" where
  "affected P t = length (filter P t)"

lemma affected_0_iff [tbl_simps]: "affected P t = 0 \<longleftrightarrow> (\<forall>r\<in>set t. \<not> P r)"
  by (simp add: affected_def filter_empty_conv)

lemma set_delete_where [tbl_simps]: "set (delete_where P t) = {r \<in> set t. \<not> P r}"
  by (simp add: delete_where_def)

lemma set_update_where [tbl_simps]:
  "set (update_where P f t) = (\<lambda>r. if P r then f r else r) ` set t"
  by (simp add: update_where_def)

lemma map_update_where [simp]:
  "(\<And>r. P r \<Longrightarrow> k (f r) = k r) \<Longrightarrow> map k (update_where P f t) = map k t"
  by (auto simp: update_where_def)

lemma delete_where_nop: "\<forall>r\<in>set t. \<not> P r \<Longrightarrow> delete_where P t = t"
  by (simp add: delete_where_def)

lemma update_where_nop: "\<forall>r\<in>set t. \<not> P r \<Longrightarrow> update_where P f t = t"
  by (induction t) (simp_all add: update_where_def)

lemma distinct_map_filterI: "distinct (map k t) \<Longrightarrow> distinct (map k (filter P t))"
  by (induction t) auto

lemma distinct_map_delete_where [tbl_simps]:
  "distinct (map k t) \<Longrightarrow> distinct (map k (delete_where P t))"
  by (simp add: delete_where_def distinct_map_filterI)

lemma distinct_key_eq:
  "distinct (map k t) \<Longrightarrow> r \<in> set t \<Longrightarrow> r' \<in> set t \<Longrightarrow> k r = k r' \<Longrightarrow> r = r'"
  by (meson distinct_map inj_onD)

lemma key_partition:
  assumes "distinct (map k t)" and "v \<in> k ` set t"
  shows "v \<in> k ` {x \<in> set t. \<not> P x} \<longleftrightarrow> v \<notin> k ` {x \<in> set t. P x}"
  using assms distinct_key_eq [OF assms(1)] by auto

lemma find_key_Some:
  "distinct (map k t) \<Longrightarrow> r \<in> set t \<Longrightarrow> find (\<lambda>x. k x = k r) t = Some r"
  by (induction t) (auto simp: rev_image_eqI)

lemma find_SomeD: "find P t = Some r \<Longrightarrow> r \<in> set t \<and> P r"
  by (auto simp: find_Some_iff)

lemma find_key_Some_iff:
  assumes "distinct (map k t)"
  shows "find (\<lambda>r. k r = k0) t = Some r \<longleftrightarrow> r \<in> set t \<and> k r = k0"
  using find_SomeD [of "\<lambda>r. k r = k0" t r] find_key_Some [OF assms, of r] by blast

lemma find_key_None_iff: "find P t = None \<longleftrightarrow> (\<forall>r\<in>set t. \<not> P r)"
  by (auto simp: find_None_iff)

text \<open>Stable insertion sort, for \<open>ORDER BY\<close> and \<open>sort.Slice\<close>: the library's \<open>sort_key\<close>.\<close>

lemma sort_key_same_rows: "set (sort_key f t) = set t"
  by simp

end
