(* ===== verification/Go_Strings.thy ===== *)
theory Go_Strings
  imports Prelude
begin

text \<open>
  The functions of Go's packages \<open>strings\<close>, \<open>strconv\<close> and \<open>fmt\<close> that the program uses, on
  byte strings. A \<open>string\<close> is the list of its bytes. Case mapping and white space are
  those of ASCII: a byte above 127 has no case and is no space, so the functions agree with
  Go's on every ASCII string (and on every string whose non-ASCII runes have neither).
\<close>

section \<open>Characters\<close>

definition byte :: "char \<Rightarrow> nat" where
  "byte c = of_char c"

definition is_upper :: "char \<Rightarrow> bool" where
  "is_upper c \<longleftrightarrow> 65 \<le> byte c \<and> byte c \<le> 90"

definition is_lower :: "char \<Rightarrow> bool" where
  "is_lower c \<longleftrightarrow> 97 \<le> byte c \<and> byte c \<le> 122"

definition is_digit :: "char \<Rightarrow> bool" where
  "is_digit c \<longleftrightarrow> 48 \<le> byte c \<and> byte c \<le> 57"

definition is_space :: "char \<Rightarrow> bool" where
  "is_space c \<longleftrightarrow> byte c = 32 \<or> (9 \<le> byte c \<and> byte c \<le> 13)"

definition lower_char :: "char \<Rightarrow> char" where
  "lower_char c = (if is_upper c then char_of (byte c + 32) else c)"

definition upper_char :: "char \<Rightarrow> char" where
  "upper_char c = (if is_lower c then char_of (byte c - 32) else c)"

lemma byte_less [simp]: "byte c < 256"
  by (simp add: byte_def)

lemma byte_eq_iff [simp]: "byte c = byte d \<longleftrightarrow> c = d"
  by (simp add: byte_def)

lemma byte_char_of [simp]: "byte (char_of n) = n mod 256"
  by (simp add: byte_def)

lemma char_of_byte [simp]: "char_of (byte c) = c"
  by (simp add: byte_def)

lemma not_upper_lower_char [simp]: "\<not> is_upper (lower_char c)"
  by (auto simp: lower_char_def is_upper_def)

lemma lower_char_id: "\<not> is_upper c \<Longrightarrow> lower_char c = c"
  by (simp add: lower_char_def)

lemma lower_char_idem [simp]: "lower_char (lower_char c) = lower_char c"
  by (simp add: lower_char_id)

lemma is_space_lower_char [simp]: "is_space (lower_char c) = is_space c"
  by (auto simp: lower_char_def is_space_def is_upper_def)

lemma space_not_upper: "is_space c \<Longrightarrow> \<not> is_upper c"
  by (auto simp: is_space_def is_upper_def)

text \<open>A character that is neither a letter's image nor a letter keeps its occurrences.\<close>

lemma lower_char_eq_iff:
  "\<not> is_upper x \<Longrightarrow> \<not> is_lower x \<Longrightarrow> lower_char c = x \<longleftrightarrow> c = x"
  by (auto simp: lower_char_def is_upper_def is_lower_def)

section \<open>strings\<close>

definition to_lower :: "string \<Rightarrow> string" where
  "to_lower s = map lower_char s"

definition to_upper :: "string \<Rightarrow> string" where
  "to_upper s = map upper_char s"

definition trim_left :: "(char \<Rightarrow> bool) \<Rightarrow> string \<Rightarrow> string" where
  "trim_left P s = dropWhile P s"

definition trim_right :: "(char \<Rightarrow> bool) \<Rightarrow> string \<Rightarrow> string" where
  "trim_right P s = rev (dropWhile P (rev s))"

definition trim_space :: "string \<Rightarrow> string" where
  "trim_space s = trim_right is_space (trim_left is_space s)"

definition trim_chars :: "string \<Rightarrow> string \<Rightarrow> string" where
  "trim_chars s cutset = trim_right (\<lambda>c. c \<in> set cutset) (trim_left (\<lambda>c. c \<in> set cutset) s)"

definition trim_left_chars :: "string \<Rightarrow> string \<Rightarrow> string" where
  "trim_left_chars s cutset = trim_left (\<lambda>c. c \<in> set cutset) s"

definition has_prefix :: "string \<Rightarrow> string \<Rightarrow> bool" where
  "has_prefix s p \<longleftrightarrow> take (length p) s = p"

definition has_suffix :: "string \<Rightarrow> string \<Rightarrow> bool" where
  "has_suffix s p \<longleftrightarrow> length p \<le> length s \<and> drop (length s - length p) s = p"

definition trim_prefix :: "string \<Rightarrow> string \<Rightarrow> string" where
  "trim_prefix s p = (if has_prefix s p then drop (length p) s else s)"

definition trim_suffix :: "string \<Rightarrow> string \<Rightarrow> string" where
  "trim_suffix s p = (if has_suffix s p then take (length s - length p) s else s)"

fun contains :: "string \<Rightarrow> string \<Rightarrow> bool" where
  "contains [] sub = (sub = [])"
| "contains (c # s) sub = (has_prefix (c # s) sub \<or> contains s sub)"

definition contains_any :: "string \<Rightarrow> string \<Rightarrow> bool" where
  "contains_any s chars \<longleftrightarrow> (\<exists>c\<in>set s. c \<in> set chars)"

definition equal_fold :: "string \<Rightarrow> string \<Rightarrow> bool" where
  "equal_fold s t \<longleftrightarrow> to_lower s = to_lower t"

text \<open>\<open>strings.Split(s, sep)\<close> for a separator of one byte: always at least one part.\<close>

fun split_by :: "(char \<Rightarrow> bool) \<Rightarrow> string \<Rightarrow> string list" where
  "split_by P [] = [[]]"
| "split_by P (c # s) =
     (if P c then [] # split_by P s
      else (case split_by P s of [] \<Rightarrow> [[c]] | p # ps \<Rightarrow> (c # p) # ps))"

definition str_split :: "char \<Rightarrow> string \<Rightarrow> string list" where
  "str_split sep s = split_by (\<lambda>c. c = sep) s"

text \<open>\<open>strings.SplitN(s, sep, 2)\<close>: at most one cut, at the first separator.\<close>

definition split2 :: "char \<Rightarrow> string \<Rightarrow> string list" where
  "split2 sep s =
     (if sep \<in> set s then [takeWhile (\<lambda>c. c \<noteq> sep) s, tl (dropWhile (\<lambda>c. c \<noteq> sep) s)] else [s])"

definition fields :: "string \<Rightarrow> string list" where
  "fields s = filter (\<lambda>w. w \<noteq> []) (split_by is_space s)"

fun str_join :: "string \<Rightarrow> string list \<Rightarrow> string" where
  "str_join sep [] = []"
| "str_join sep [w] = w"
| "str_join sep (w # v # ws) = w @ sep @ str_join sep (v # ws)"

text \<open>\<open>strings.ReplaceAll\<close> for a non-empty pattern, scanning from the left.\<close>

function replace_all :: "string \<Rightarrow> string \<Rightarrow> string \<Rightarrow> string" where
  "replace_all s old new =
     (case s of [] \<Rightarrow> []
      | c # cs \<Rightarrow> (if old \<noteq> [] \<and> has_prefix s old then new @ replace_all (drop (length old) s) old new
                  else c # replace_all cs old new))"
  by pat_completeness auto
termination
  by (relation "measure (\<lambda>(s, old, new). length s)") auto

declare replace_all.simps [simp del]

definition remove_char :: "char \<Rightarrow> string \<Rightarrow> string" where
  "remove_char c s = filter (\<lambda>x. x \<noteq> c) s"

fun count_char :: "string \<Rightarrow> char \<Rightarrow> nat" where
  "count_char [] c = 0"
| "count_char (x # s) c = (if x = c then Suc (count_char s c) else count_char s c)"

text \<open>\<open>strings.Index\<close>: the first position of a substring.\<close>

fun index_of :: "string \<Rightarrow> string \<Rightarrow> nat option" where
  "index_of [] sub = (if sub = [] then Some 0 else None)"
| "index_of (c # s) sub =
     (if has_prefix (c # s) sub then Some 0 else map_option Suc (index_of s sub))"

section \<open>strconv and fmt\<close>

definition digit_char :: "nat \<Rightarrow> char" where
  "digit_char d = char_of (48 + d)"

definition digit_val :: "char \<Rightarrow> nat" where
  "digit_val c = byte c - 48"

fun nat_str :: "nat \<Rightarrow> string" where
  "nat_str n = (if n < 10 then [digit_char n] else nat_str (n div 10) @ [digit_char (n mod 10)])"

declare nat_str.simps [simp del]

definition int_str :: "int \<Rightarrow> string" where
  "int_str i = (if i < 0 then ''-'' @ nat_str (nat (- i)) else nat_str (nat i))"

definition digits_val :: "string \<Rightarrow> nat" where
  "digits_val s = foldl (\<lambda>n c. 10 * n + digit_val c) 0 s"

definition hex_digit :: "nat \<Rightarrow> char" where
  "hex_digit d = (if d < 10 then char_of (48 + d) else char_of (87 + d))"

text \<open>\<open>hex.EncodeToString\<close>: two lower-case hexadecimal digits per byte.\<close>

definition hex_encode :: "string \<Rightarrow> string" where
  "hex_encode s = concat (map (\<lambda>c. [hex_digit (byte c div 16), hex_digit (byte c mod 16)]) s)"

text \<open>\<open>strconv.Atoi\<close> on 64-bit integers: an optional sign and at least one digit.\<close>

definition atoi :: "string \<Rightarrow> int option" where
  "atoi s =
     (let neg = has_prefix s ''-'';
          ds = (if neg \<or> has_prefix s ''+'' then tl s else s)
      in if ds = [] \<or> \<not> list_all is_digit ds then None
         else let v = (if neg then - int (digits_val ds) else int (digits_val ds))
              in if - (2 ^ 63) \<le> v \<and> v < 2 ^ 63 then Some v else None)"

section \<open>Facts about case and white space\<close>

lemma to_lower_Nil [simp]: "to_lower [] = []"
  by (simp add: to_lower_def)

lemma to_lower_eq_Nil [simp]: "to_lower s = [] \<longleftrightarrow> s = []"
  by (simp add: to_lower_def)

lemma length_to_lower [simp]: "length (to_lower s) = length s"
  by (simp add: to_lower_def)

lemma to_lower_idem [simp]: "to_lower (to_lower s) = to_lower s"
  by (simp add: to_lower_def)

lemma to_lower_append [simp]: "to_lower (s @ t) = to_lower s @ to_lower t"
  by (simp add: to_lower_def)

lemma to_lower_id: "list_all (\<lambda>c. \<not> is_upper c) s \<Longrightarrow> to_lower s = s"
  by (induction s) (simp_all add: to_lower_def lower_char_id)

lemma no_upper_to_lower [simp]: "c \<in> set (to_lower s) \<Longrightarrow> \<not> is_upper c"
  by (auto simp: to_lower_def)

lemma dropWhile_space_lower:
  "dropWhile is_space (map lower_char s) = map lower_char (dropWhile is_space s)"
  by (induction s) simp_all

lemma to_lower_trim_space: "to_lower (trim_space s) = trim_space (to_lower s)"
  by (simp add: trim_space_def trim_left_def trim_right_def to_lower_def rev_map
      dropWhile_space_lower)

lemma trim_left_idem [simp]: "trim_left P (trim_left P s) = trim_left P s"
  by (simp add: trim_left_def dropWhile_idem)

lemma trim_right_idem [simp]: "trim_right P (trim_right P s) = trim_right P s"
  by (simp add: trim_right_def)

lemma trim_left_Cons_id: "s = [] \<or> \<not> P (hd s) \<Longrightarrow> trim_left P s = s"
  by (cases s) (simp_all add: trim_left_def)

lemma trim_right_id: "s = [] \<or> \<not> P (last s) \<Longrightarrow> trim_right P s = s"
  by (cases s rule: rev_cases) (simp_all add: trim_right_def)

lemma hd_trim_left: "trim_left P s \<noteq> [] \<Longrightarrow> \<not> P (hd (trim_left P s))"
  by (simp add: trim_left_def hd_dropWhile)

lemma prefix_trim_right: "\<exists>t. s = trim_right P s @ t"
proof -
  have "s = rev (takeWhile P (rev s) @ dropWhile P (rev s))" by simp
  then show ?thesis
    by (metis rev_append trim_right_def)
qed

lemma hd_trim_right: "trim_right P s \<noteq> [] \<Longrightarrow> hd (trim_right P s) = hd s"
  using prefix_trim_right [of s P] by (metis hd_append2)

lemma trim_space_idem [simp]: "trim_space (trim_space s) = trim_space s"
proof -
  have "trim_left is_space (trim_space s) = trim_space s"
    by (rule trim_left_Cons_id)
      (metis hd_trim_left hd_trim_right trim_left_def trim_space_def trim_right_def dropWhile.simps(1)
        rev.simps(1))
  then show ?thesis
    by (simp add: trim_space_def)
qed

lemma set_trim_space: "set (trim_space s) \<subseteq> set s"
  by (force simp: trim_space_def trim_left_def trim_right_def dest: set_dropWhileD)

text \<open>The normal form \<open>strings.TrimSpace(strings.ToLower(s))\<close> of addresses and names.\<close>

definition canon :: "string \<Rightarrow> string" where
  "canon s = trim_space (to_lower s)"

lemma canon_alt: "to_lower (trim_space s) = canon s"
  by (simp add: canon_def to_lower_trim_space)

lemma canon_idem [simp]: "canon (canon s) = canon s"
  by (simp add: canon_def to_lower_trim_space)

lemma no_upper_canon: "c \<in> set (canon s) \<Longrightarrow> \<not> is_upper c"
  using set_trim_space [of "to_lower s"] by (auto simp: canon_def)

lemma to_lower_canon [simp]: "to_lower (canon s) = canon s"
  by (simp add: canon_def to_lower_trim_space)

lemma trim_space_canon [simp]: "trim_space (canon s) = canon s"
  by (simp add: canon_def)

section \<open>Facts about substrings and splitting\<close>

lemma has_prefix_append [simp]: "has_prefix (p @ s) p"
  by (simp add: has_prefix_def)

lemma has_prefix_iff: "has_prefix s p \<longleftrightarrow> (\<exists>t. s = p @ t)"
  by (metis append_take_drop_id has_prefix_append has_prefix_def)

lemma has_suffix_append [simp]: "has_suffix (s @ p) p"
  by (simp add: has_suffix_def)

lemma has_suffix_iff: "has_suffix s p \<longleftrightarrow> (\<exists>t. s = t @ p)"
  by (metis append_take_drop_id has_suffix_append has_suffix_def)

lemma contains_iff: "contains s sub \<longleftrightarrow> (\<exists>u v. s = u @ sub @ v)"
proof (induction s)
  case Nil
  then show ?case by simp
next
  case (Cons c s)
  show ?case
  proof
    assume "contains (c # s) sub"
    then show "\<exists>u v. c # s = u @ sub @ v"
      by (metis (no_types) Cons.IH append_Cons append_Nil contains.simps(2) has_prefix_iff)
  next
    assume "\<exists>u v. c # s = u @ sub @ v"
    then obtain u v where uv: "c # s = u @ sub @ v" by blast
    show "contains (c # s) sub"
    proof (cases u)
      case Nil
      with uv have "has_prefix (c # s) sub" by (simp add: has_prefix_iff)
      then show ?thesis by simp
    next
      case (Cons d u')
      with uv have "s = u' @ sub @ v" by simp
      with Cons.IH show ?thesis by auto
    qed
  qed
qed

lemma contains_char: "contains s [c] \<longleftrightarrow> c \<in> set s"
  by (simp add: contains_iff) (metis in_set_conv_decomp)

lemma split_by_not_Nil [simp]: "split_by P s \<noteq> []"
  by (cases s) (simp_all split: list.splits)

lemma split_not_Nil [simp]: "str_split sep s \<noteq> []"
  by (simp add: str_split_def)

lemma split_by_no_sep: "list_all (\<lambda>c. \<not> P c) s \<Longrightarrow> split_by P s = [s]"
  by (induction s) simp_all

lemma split_no_sep: "sep \<notin> set s \<Longrightarrow> str_split sep s = [s]"
  unfolding str_split_def by (rule split_by_no_sep) (auto simp: list_all_iff)

lemma split_by_append_sep:
  "list_all (\<lambda>c. \<not> P c) s \<Longrightarrow> P c \<Longrightarrow> split_by P (s @ c # t) = s # split_by P t"
  by (induction s) simp_all

lemma split_append_sep:
  "sep \<notin> set s \<Longrightarrow> str_split sep (s @ sep # t) = s # str_split sep t"
  unfolding str_split_def by (rule split_by_append_sep) (auto simp: list_all_iff)

lemma split_by_parts: "w \<in> set (split_by P s) \<Longrightarrow> c \<in> set w \<Longrightarrow> c \<in> set s \<and> \<not> P c"
proof (induction s arbitrary: w)
  case Nil
  then show ?case by simp
next
  case (Cons x s)
  then show ?case
    by (cases "split_by P s") (fastforce split: if_splits)+
qed

lemma split_parts: "w \<in> set (str_split sep s) \<Longrightarrow> c \<in> set w \<Longrightarrow> c \<in> set s \<and> c \<noteq> sep"
  unfolding str_split_def by (erule (1) split_by_parts)

lemma join_split: "str_join [sep] (str_split sep s) = s"
proof (induction s)
  case Nil
  then show ?case by (simp add: str_split_def)
next
  case (Cons x s)
  then show ?case
    by (cases "split_by (\<lambda>c. c = sep) s"; cases "tl (split_by (\<lambda>c. c = sep) s)")
      (auto simp: str_split_def)
qed

lemma split_join:
  assumes "ws \<noteq> []" and "\<forall>w\<in>set ws. sep \<notin> set w"
  shows "str_split sep (str_join [sep] ws) = ws"
  using assms
proof (induction "[sep]" ws rule: str_join.induct)
  case 1
  then show ?case by simp
next
  case (2 w)
  then show ?case
    by (simp add: split_no_sep)
next
  case (3 w v ws)
  then show ?case
    by (simp add: split_append_sep)
qed

lemma split_pair_iff:
  "str_split sep s = [a, b] \<longleftrightarrow> s = a @ sep # b \<and> sep \<notin> set a \<and> sep \<notin> set b"
proof
  assume h: "str_split sep s = [a, b]"
  have "s = str_join [sep] [a, b]" using join_split [of sep s] h by simp
  moreover have "sep \<notin> set a" "sep \<notin> set b"
    using h split_parts [of a sep s sep] split_parts [of b sep s sep] by auto
  ultimately show "s = a @ sep # b \<and> sep \<notin> set a \<and> sep \<notin> set b" by simp
next
  assume "s = a @ sep # b \<and> sep \<notin> set a \<and> sep \<notin> set b"
  then show "str_split sep s = [a, b]"
    using split_join [of "[a, b]" sep] by simp
qed

lemma length_split: "length (str_split sep s) = Suc (count_char s sep)"
proof -
  have "length (split_by (\<lambda>c. c = sep) s) = Suc (count_char s sep)"
    by (induction s) (auto split: list.splits)
  then show ?thesis by (simp add: str_split_def)
qed

lemma count_append [simp]: "count_char (s @ t) c = count_char s c + count_char t c"
  by (induction s) simp_all

lemma count_0_iff [simp]: "count_char s c = 0 \<longleftrightarrow> c \<notin> set s"
  by (induction s) auto

section \<open>Facts about numbers\<close>

lemma is_digit_digit_char [simp]: "d < 10 \<Longrightarrow> is_digit (digit_char d)"
  by (simp add: is_digit_def digit_char_def)

lemma digit_val_digit_char [simp]: "d < 10 \<Longrightarrow> digit_val (digit_char d) = d"
  by (simp add: digit_val_def digit_char_def)

lemma nat_str_digits: "list_all is_digit (nat_str n)"
proof (induction n rule: nat_str.induct)
  case (1 n)
  then show ?case by (subst nat_str.simps) simp
qed

lemma nat_str_not_Nil [simp]: "nat_str n \<noteq> []"
  by (subst nat_str.simps) simp

lemma digits_val_append [simp]: "digits_val (s @ [c]) = 10 * digits_val s + digit_val c"
  by (simp add: digits_val_def)

lemma digits_val_nat_str [simp]: "digits_val (nat_str n) = n"
proof (induction n rule: nat_str.induct)
  case (1 n)
  show ?case
  proof (cases "n < 10")
    case True
    then show ?thesis by (subst nat_str.simps) (simp add: digits_val_def)
  next
    case False
    with 1 show ?thesis by (subst nat_str.simps) simp
  qed
qed

lemma nat_str_inject [simp]: "nat_str m = nat_str n \<longleftrightarrow> m = n"
  by (metis digits_val_nat_str)

lemma length_hex_encode [simp]: "length (hex_encode s) = 2 * length s"
  by (induction s) (simp_all add: hex_encode_def)

lemma nat_str_no_zero: "10 \<le> n \<Longrightarrow> hd (nat_str n) \<noteq> CHR ''0''"
proof (induction n rule: nat_str.induct)
  case (1 n)
  show ?case
  proof (cases "n div 10 < 10")
    case True
    have "0 < n div 10" using 1(2) by (simp add: div_greater_zero_iff)
    then have "digit_char (n div 10) \<noteq> CHR ''0''"
      using True digit_val_digit_char [of "n div 10"] by (auto simp: digit_val_def byte_def)
    with 1(2) True show ?thesis by (subst nat_str.simps, subst nat_str.simps) simp
  next
    case False
    with 1 show ?thesis by (subst nat_str.simps) (simp add: hd_append)
  qed
qed

lemma nat_str_digit: "c \<in> set (nat_str n) \<Longrightarrow> is_digit c"
  using nat_str_digits [of n] by (simp add: list_all_iff)

end
