(* ===== verification/Go_Paths.thy ===== *)
theory Go_Paths
  imports Go_Strings "HOL-Library.List_Lexorder"
begin

text \<open>
  \<open>path/filepath\<close> on absolute slash-separated paths, and the file system the program
  works on. A path is the list of its components from the root; \<open>path_join\<close> is
  \<open>filepath.Join\<close>: every element is split at its slashes and \<open>Clean\<close>ed, so an element
  \<open>..\<close> climbs out of the directory it is joined to. \<open>path_rel\<close> is \<open>filepath.Rel\<close>.
  The file system is a finite table of absolute paths.
\<close>

section \<open>Paths\<close>

type_synonym path = "string list"

definition clean_step :: "path \<Rightarrow> string \<Rightarrow> path" where
  "clean_step p w = (if w = [] \<or> w = ''.'' then p else if w = ''..'' then butlast p else p @ [w])"

definition path_join :: "path \<Rightarrow> string list \<Rightarrow> path" where
  "path_join base elems = foldl clean_step base (concat (map (str_split CHR ''/'') elems))"

definition path_dir :: "path \<Rightarrow> path" where
  "path_dir p = butlast p"

definition path_str :: "path \<Rightarrow> string" where
  "path_str p = ''/'' @ str_join ''/'' p"

fun common_len :: "path \<Rightarrow> path \<Rightarrow> nat" where
  "common_len (a # p) (b # q) = (if a = b then Suc (common_len p q) else 0)"
| "common_len p q = 0"

definition path_rel :: "path \<Rightarrow> path \<Rightarrow> string" where
  "path_rel base targ =
     (let k = common_len base targ;
          parts = replicate (length base - k) ''..'' @ drop k targ
      in if parts = [] then ''.'' else str_join ''/'' parts)"

text \<open>The strict-prefix order of directories.\<close>

definition below :: "path \<Rightarrow> path \<Rightarrow> bool" where
  "below d p \<longleftrightarrow> take (length d) p = d"

text \<open>A plain name is an element that \<open>Clean\<close> keeps as it is.\<close>

definition plain :: "string \<Rightarrow> bool" where
  "plain w \<longleftrightarrow> w \<noteq> [] \<and> w \<noteq> ''.'' \<and> w \<noteq> ''..'' \<and> CHR ''/'' \<notin> set w"

lemma path_join_Nil [simp]: "path_join base [] = base"
  by (simp add: path_join_def)

lemma path_join_plain: "list_all plain ws \<Longrightarrow> path_join base ws = base @ ws"
  by (induction ws arbitrary: base)
    (auto simp: path_join_def plain_def split_no_sep clean_step_def)

lemma below_refl [simp]: "below p p"
  by (simp add: below_def)

lemma below_append [simp]: "below d (d @ q)"
  by (simp add: below_def)

lemma below_iff: "below d p \<longleftrightarrow> (\<exists>q. p = d @ q)"
  by (metis append_take_drop_id below_append below_def)

lemma below_trans: "below a b \<Longrightarrow> below b c \<Longrightarrow> below a c"
  by (auto simp: below_iff)

lemma below_append_iff: "length p = length q \<Longrightarrow> below (d @ p) (d @ q @ r) \<longleftrightarrow> p = q"
  by (auto simp: below_iff)

lemma common_len_append [simp]: "common_len p (p @ q) = length p"
  by (induction p) simp_all

lemma path_rel_below: "q \<noteq> [] \<Longrightarrow> path_rel p (p @ q) = str_join ''/'' q"
  by (simp add: path_rel_def Let_def)

lemma str_join_has_prefix: "has_prefix (str_join sep (w # ws)) w"
  by (cases ws) (auto simp: has_prefix_iff)

section \<open>Files\<close>

text \<open>
  A node is a directory or a file with its content, with permission bits, an owner and (for
  files) a modification time. The table maps absolute paths to nodes; the newest entry of a
  path is the one in force, and removal deletes every entry.
\<close>

datatype node =
    Dir (mode_of: nat) (owner_of: "int \<times> int")
  | File (mode_of: nat) (owner_of: "int \<times> int") (bytes_of: string) (mtime_of: instant)

type_synonym fs = "(path \<times> node) list"

definition fs_stat :: "fs \<Rightarrow> path \<Rightarrow> node option" where
  "fs_stat fs p = map_of fs p"

definition is_dir :: "fs \<Rightarrow> path \<Rightarrow> bool" where
  "is_dir fs p = (case fs_stat fs p of Some (Dir m ow) \<Rightarrow> True | _ \<Rightarrow> False)"

definition is_file :: "fs \<Rightarrow> path \<Rightarrow> bool" where
  "is_file fs p = (case fs_stat fs p of Some (File m ow c t) \<Rightarrow> True | _ \<Rightarrow> False)"

definition fs_put :: "fs \<Rightarrow> path \<Rightarrow> node \<Rightarrow> fs" where
  "fs_put fs p n = (p, n) # filter (\<lambda>(q, m). q \<noteq> p) fs"

definition fs_del :: "fs \<Rightarrow> path \<Rightarrow> fs" where
  "fs_del fs p = filter (\<lambda>(q, m). q \<noteq> p) fs"

text \<open>\<open>os.RemoveAll\<close>: the path and everything below it.\<close>

definition fs_del_tree :: "fs \<Rightarrow> path \<Rightarrow> fs" where
  "fs_del_tree fs p = filter (\<lambda>(q, m). \<not> below p q) fs"

text \<open>The entries of a directory: the nodes one component below it, sorted by name.\<close>

definition fs_entries :: "fs \<Rightarrow> path \<Rightarrow> (string \<times> node) list" where
  "fs_entries fs d =
     sort_key fst (map (\<lambda>(q, n). (last q, n)) (filter (\<lambda>(q, n). q \<noteq> [] \<and> butlast q = d) fs))"

lemma fs_stat_put [simp]: "fs_stat (fs_put fs p n) q = (if q = p then Some n else fs_stat fs q)"
proof -
  have "q \<noteq> p \<Longrightarrow> map_of (filter (\<lambda>(q, m). q \<noteq> p) fs) q = map_of fs q"
    by (induction fs) auto
  then show ?thesis by (auto simp: fs_stat_def fs_put_def)
qed

lemma fs_stat_del [simp]: "fs_stat (fs_del fs p) q = (if q = p then None else fs_stat fs q)"
proof -
  have "map_of (filter (\<lambda>(q, m). q \<noteq> p) fs) q = (if q = p then None else map_of fs q)"
    by (induction fs) auto
  then show ?thesis by (simp add: fs_stat_def fs_del_def)
qed

lemma fs_stat_del_tree [simp]:
  "fs_stat (fs_del_tree fs p) q = (if below p q then None else fs_stat fs q)"
proof -
  have "map_of (filter (\<lambda>(q, m). \<not> below p q) fs) q = (if below p q then None else map_of fs q)"
    by (induction fs) auto
  then show ?thesis by (simp add: fs_stat_def fs_del_tree_def)
qed

text \<open>
  \<open>os.MkdirAll(p, mode)\<close>: every missing ancestor is created; an existing directory is
  kept; a file in the way is an error (\<open>None\<close>). The new directories belong to the
  user and group of the process.
\<close>

fun prefixes_of :: "path \<Rightarrow> path list" where
  "prefixes_of p = (if p = [] then [] else prefixes_of (butlast p) @ [p])"

declare prefixes_of.simps [simp del]

fun mk_dirs :: "nat \<Rightarrow> int \<times> int \<Rightarrow> fs \<Rightarrow> path list \<Rightarrow> fs option" where
  "mk_dirs m ow fs [] = Some fs"
| "mk_dirs m ow fs (p # ps) =
     (case fs_stat fs p of
        None \<Rightarrow> mk_dirs m ow (fs_put fs p (Dir m ow)) ps
      | Some (Dir m' ow') \<Rightarrow> mk_dirs m ow fs ps
      | Some (File m' ow' c t) \<Rightarrow> None)"

definition mkdir_all :: "nat \<Rightarrow> int \<times> int \<Rightarrow> fs \<Rightarrow> path \<Rightarrow> fs option" where
  "mkdir_all m ow fs p = mk_dirs m ow fs (prefixes_of p)"

lemma set_prefixes_of: "set (prefixes_of p) = {q. q \<noteq> [] \<and> below q p}"
proof (induction p rule: prefixes_of.induct)
  case (1 p)
  show ?case
  proof (cases "p = []")
    case True
    then show ?thesis by (subst prefixes_of.simps) (auto simp: below_iff)
  next
    case False
    then obtain u w where p: "p = u @ [w]" by (cases p rule: rev_cases) auto
    have "set (prefixes_of p) = insert p (set (prefixes_of u))"
      using p by (subst prefixes_of.simps) auto
    also have "\<dots> = {q. q \<noteq> [] \<and> below q p}"
      using 1 False p by (auto simp: below_iff append_eq_append_conv2 append_eq_Cons_conv
          Cons_eq_append_conv)
    finally show ?thesis .
  qed
qed

lemma mk_dirs_stat:
  "mk_dirs m ow fs ps = Some fs' \<Longrightarrow>
     (q \<in> set ps \<longrightarrow> is_dir fs' q) \<and>
     (fs_stat fs q \<noteq> None \<longrightarrow> fs_stat fs' q = fs_stat fs q) \<and>
     (q \<notin> set ps \<longrightarrow> fs_stat fs' q = fs_stat fs q)"
proof (induction ps arbitrary: fs)
  case Nil
  then show ?case by simp
next
  case (Cons p ps)
  show ?case
  proof (cases "fs_stat fs p")
    case None
    with Cons.prems have "mk_dirs m ow (fs_put fs p (Dir m ow)) ps = Some fs'" by simp
    note IH = Cons.IH [OF this]
    show ?thesis using IH None by (auto simp: is_dir_def)
  next
    case (Some n)
    with Cons.prems obtain m' ow' where n: "n = Dir m' ow'" and rest: "mk_dirs m ow fs ps = Some fs'"
      by (cases n) auto
    show ?thesis using Cons.IH [OF rest] Some n by (auto simp: is_dir_def)
  qed
qed

lemma mk_dirs_Some:
  "\<forall>p\<in>set ps. \<not> is_file fs p \<Longrightarrow> \<exists>fs'. mk_dirs m ow fs ps = Some fs'"
proof (induction ps arbitrary: fs)
  case Nil
  then show ?case by simp
next
  case (Cons p ps)
  then show ?case
    by (cases "fs_stat fs p") (auto simp: is_file_def split: node.splits)
qed

lemma mkdir_all_Some:
  "\<forall>q. below q p \<longrightarrow> \<not> is_file fs q \<Longrightarrow> \<exists>fs'. mkdir_all m ow fs p = Some fs'"
  unfolding mkdir_all_def by (rule mk_dirs_Some) (simp add: set_prefixes_of)

lemma mkdir_all_is_dir: "mkdir_all m ow fs p = Some fs' \<Longrightarrow> p \<noteq> [] \<Longrightarrow> is_dir fs' p"
  using mk_dirs_stat [of m ow fs "prefixes_of p" fs' p] by (auto simp: mkdir_all_def set_prefixes_of)

lemma mkdir_all_keeps:
  "mkdir_all m ow fs p = Some fs' \<Longrightarrow> fs_stat fs q \<noteq> None \<Longrightarrow> fs_stat fs' q = fs_stat fs q"
  using mk_dirs_stat [of m ow fs "prefixes_of p" fs' q] by (auto simp: mkdir_all_def)

lemma mkdir_all_frame:
  "mkdir_all m ow fs p = Some fs' \<Longrightarrow> \<not> below q p \<Longrightarrow> fs_stat fs' q = fs_stat fs q"
  using mk_dirs_stat [of m ow fs "prefixes_of p" fs' q] by (auto simp: mkdir_all_def set_prefixes_of)

lemma fs_entries_iff:
  assumes "distinct (map fst fs)"
  shows "(w, n) \<in> set (fs_entries fs d) \<longleftrightarrow> fs_stat fs (d @ [w]) = Some n"
proof -
  have "(w, n) \<in> set (fs_entries fs d) \<longleftrightarrow> (d @ [w], n) \<in> set fs"
    by (force simp: fs_entries_def snoc_eq_iff_butlast)
  also have "\<dots> \<longleftrightarrow> fs_stat fs (d @ [w]) = Some n"
    using assms by (simp add: fs_stat_def)
  finally show ?thesis .
qed

lemma distinct_fs_put [simp]: "distinct (map fst fs) \<Longrightarrow> distinct (map fst (fs_put fs p n))"
  by (auto simp: fs_put_def distinct_map_filterI)

lemma distinct_fs_del [simp]: "distinct (map fst fs) \<Longrightarrow> distinct (map fst (fs_del fs p))"
  by (simp add: fs_del_def distinct_map_filterI)

lemma distinct_fs_del_tree [simp]:
  "distinct (map fst fs) \<Longrightarrow> distinct (map fst (fs_del_tree fs p))"
  by (simp add: fs_del_tree_def distinct_map_filterI)

lemma distinct_mk_dirs: "mk_dirs m ow fs ps = Some fs' \<Longrightarrow> distinct (map fst fs) \<Longrightarrow> distinct (map fst fs')"
  by (induction m ow fs ps rule: mk_dirs.induct) (auto split: option.splits node.splits)

lemma distinct_mkdir_all: "mkdir_all m ow fs p = Some fs' \<Longrightarrow> distinct (map fst fs) \<Longrightarrow> distinct (map fst fs')"
  by (simp add: mkdir_all_def distinct_mk_dirs)

lemma distinct_map_sort_key: "distinct (map f (sort_key g xs)) = distinct (map f xs)"
  by (simp add: distinct_map)

lemma distinct_fs_entries: "distinct (map fst t) \<Longrightarrow> distinct (map fst (fs_entries t d))"
proof -
  have "distinct (map fst t) \<Longrightarrow>
      distinct (map fst (map (\<lambda>(q, n). (last q, n)) (filter (\<lambda>(q, n). q \<noteq> [] \<and> butlast q = d) t)))"
  proof (induction t)
    case (Cons x t)
    have "last q \<noteq> last (fst x)" if "(q, n) \<in> set t" "q \<noteq> []" "fst x \<noteq> []" "butlast q = butlast (fst x)" for q n
      using that Cons.prems by (metis append_butlast_last_id distinct.simps(2) fst_conv image_eqI list.map(2) list.set_map)
    with Cons show ?case by (cases x) force
  qed simp
  then show "distinct (map fst t) \<Longrightarrow> distinct (map fst (fs_entries t d))"
    by (simp only: fs_entries_def distinct_map_sort_key)
qed

end
