(* ===== verification/Disk.thy ===== *)
theory Disk
  imports Go_Paths
begin

text \<open>
  The calls of package \<open>os\<close> that the program makes, on a disk: the file tree, the user the
  process runs as, whether it may change owners, the clock that stamps written files, and a
  list of faults: each call uses up one. A faulty call fails without effect, but for the writing
  of a file, which may have opened the file and written some of the bytes before it fails:
  \<open>disk_torn\<close> says, by the number of entries that are left of the list when the write fails, how
  many bytes were written; without an entry the file was not even opened. Symbolic links are not
  modelled. Modes are numbers: \<open>0750\<close> is 488, \<open>0700\<close> is 448, \<open>0600\<close> is 384.
\<close>

record disk =
  files :: fs
  proc_owner :: "int \<times> int"
  privileged :: bool
  disk_now :: instant
  disk_faults :: "bool list"
  disk_torn :: "(nat \<times> nat) list"

definition err_not_exist :: err where
  "err_not_exist = Sentinel ''os'' ''ErrNotExist''"

lemmas [errs] = err_not_exist_def

definition dfails :: "disk \<Rightarrow> bool" where
  "dfails k \<longleftrightarrow> disk_faults k \<noteq> [] \<and> hd (disk_faults k)"

definition dtick :: "disk \<Rightarrow> disk" where
  "dtick k = k\<lparr>disk_faults := tl (disk_faults k)\<rparr>"

definition os_call :: "(disk \<Rightarrow> 'a result \<times> disk) \<Rightarrow> disk \<Rightarrow> 'a result \<times> disk" where
  "os_call q k = (if dfails k then (Inl Fault, dtick k) else q (dtick k))"

definition os_stat :: "path \<Rightarrow> disk \<Rightarrow> node result \<times> disk" where
  "os_stat p = os_call (\<lambda>k.
     (case fs_stat (files k) p of None \<Rightarrow> Inl err_not_exist | Some n \<Rightarrow> Inr n, k))"

definition os_mkdir_all :: "nat \<Rightarrow> path \<Rightarrow> disk \<Rightarrow> unit result \<times> disk" where
  "os_mkdir_all m p = os_call (\<lambda>k.
     case mkdir_all m (proc_owner k) (files k) p of
       None \<Rightarrow> (Inl (Msg ''not a directory''), k)
     | Some t \<Rightarrow> (Inr (), k\<lparr>files := t\<rparr>))"

fun set_mode :: "nat \<Rightarrow> node \<Rightarrow> node" where
  "set_mode m (Dir m0 ow) = Dir m ow"
| "set_mode m (File m0 ow c t) = File m ow c t"

fun set_owner :: "int \<times> int \<Rightarrow> node \<Rightarrow> node" where
  "set_owner ow (Dir m ow0) = Dir m ow"
| "set_owner ow (File m ow0 c t) = File m ow c t"

definition os_chmod :: "path \<Rightarrow> nat \<Rightarrow> disk \<Rightarrow> unit result \<times> disk" where
  "os_chmod p m = os_call (\<lambda>k.
     case fs_stat (files k) p of
       None \<Rightarrow> (Inl err_not_exist, k)
     | Some n \<Rightarrow> (Inr (), k\<lparr>files := fs_put (files k) p (set_mode m n)\<rparr>))"

text \<open>A uid or gid of -1 means to keep it; only a privileged process may change owners.\<close>

definition os_chown :: "path \<Rightarrow> int \<Rightarrow> int \<Rightarrow> disk \<Rightarrow> unit result \<times> disk" where
  "os_chown p uid gid = os_call (\<lambda>k.
     case fs_stat (files k) p of
       None \<Rightarrow> (Inl err_not_exist, k)
     | Some n \<Rightarrow>
         let ow = (if uid = -1 then fst (owner_of n) else uid, if gid = -1 then snd (owner_of n) else gid)
         in if \<not> privileged k \<and> ow \<noteq> owner_of n then (Inl (Msg ''operation not permitted''), k)
            else (Inr (), k\<lparr>files := fs_put (files k) p (set_owner ow n)\<rparr>))"

definition os_remove_all :: "path \<Rightarrow> disk \<Rightarrow> unit result \<times> disk" where
  "os_remove_all p = os_call (\<lambda>k. (Inr (), k\<lparr>files := fs_del_tree (files k) p\<rparr>))"

definition os_remove :: "path \<Rightarrow> disk \<Rightarrow> unit result \<times> disk" where
  "os_remove p = os_call (\<lambda>k.
     case fs_stat (files k) p of
       None \<Rightarrow> (Inl err_not_exist, k)
     | Some n \<Rightarrow>
         if is_dir (files k) p \<and> fs_entries (files k) p \<noteq> [] then (Inl (Msg ''directory not empty''), k)
         else (Inr (), k\<lparr>files := fs_del (files k) p\<rparr>))"

definition os_read_file :: "path \<Rightarrow> disk \<Rightarrow> string result \<times> disk" where
  "os_read_file p = os_call (\<lambda>k.
     (case fs_stat (files k) p of
        None \<Rightarrow> Inl err_not_exist
      | Some (Dir m ow) \<Rightarrow> Inl (Msg ''is a directory'')
      | Some (File m ow c t) \<Rightarrow> Inr c, k))"

definition os_read_dir :: "path \<Rightarrow> disk \<Rightarrow> (string \<times> node) list result \<times> disk" where
  "os_read_dir p = os_call (\<lambda>k.
     (case fs_stat (files k) p of
        None \<Rightarrow> Inl err_not_exist
      | Some (Dir m ow) \<Rightarrow> Inr (fs_entries (files k) p)
      | Some (File m ow c t) \<Rightarrow> Inl (Msg ''not a directory''), k))"

text \<open>
  Creating or truncating a file and writing it: the directory must exist, an existing file
  keeps its mode and owner. A write that fails may leave the file empty or with the beginning of
  its contents.
\<close>

definition disk_write :: "path \<Rightarrow> string \<Rightarrow> nat \<Rightarrow> disk \<Rightarrow> unit result \<times> disk" where
  "disk_write p c m k =
     (if \<not> is_dir (files k) (path_dir p) then (Inl err_not_exist, k)
      else case fs_stat (files k) p of
          Some (Dir m0 ow) \<Rightarrow> (Inl (Msg ''is a directory''), k)
        | Some (File m0 ow c0 t) \<Rightarrow> (Inr (), k\<lparr>files := fs_put (files k) p (File m0 ow c (disk_now k))\<rparr>)
        | None \<Rightarrow> (Inr (), k\<lparr>files := fs_put (files k) p (File m (proc_owner k) c (disk_now k))\<rparr>))"

definition os_write_file :: "path \<Rightarrow> string \<Rightarrow> nat \<Rightarrow> disk \<Rightarrow> unit result \<times> disk" where
  "os_write_file p c m k =
     (if dfails k
      then (Inl Fault, case map_of (disk_torn k) (length (disk_faults k)) of
                None \<Rightarrow> dtick k
              | Some j \<Rightarrow> snd (disk_write p (take j c) m (dtick k)))
      else disk_write p c m (dtick k))"

text \<open>\<open>os.Rename\<close> of a file (the program renames no directory): it replaces the target.\<close>

definition os_rename :: "path \<Rightarrow> path \<Rightarrow> disk \<Rightarrow> unit result \<times> disk" where
  "os_rename p q = os_call (\<lambda>k.
     case fs_stat (files k) p of
       Some (File m ow c t) \<Rightarrow>
         (if \<not> is_dir (files k) (path_dir q) then (Inl err_not_exist, k)
          else if is_dir (files k) q then (Inl (Msg ''file exists''), k)
          else (Inr (), k\<lparr>files := fs_put (fs_del (files k) p) q (File m ow c t)\<rparr>))
     | _ \<Rightarrow> (Inl err_not_exist, k))"

section \<open>Facts\<close>

lemma files_dtick [simp]:
  "files (dtick k) = files k" "proc_owner (dtick k) = proc_owner k"
  "privileged (dtick k) = privileged k" "disk_now (dtick k) = disk_now k" "disk_torn (dtick k) = disk_torn k"
  by (simp_all add: dtick_def)

lemma no_dfaults [simp]: "disk_faults k = [] \<Longrightarrow> \<not> dfails k" "disk_faults k = [] \<Longrightarrow> dtick k = k"
  by (simp_all add: dfails_def dtick_def)

named_theorems os_simps \<open>the calls of package os\<close>

lemmas [os_simps] = os_call_def os_stat_def os_mkdir_all_def os_chmod_def os_chown_def
  os_remove_all_def os_remove_def os_read_file_def os_read_dir_def disk_write_def os_write_file_def
  os_rename_def

lemma mode_owner_set [simp]:
  "mode_of (set_mode m n) = m" "owner_of (set_mode m n) = owner_of n"
  "mode_of (set_owner ow n) = mode_of n" "owner_of (set_owner ow n) = ow"
  by (cases n; simp)+

definition node_is_dir :: "node \<Rightarrow> bool" where
  "node_is_dir n = (case n of Dir m ow \<Rightarrow> True | File m ow c t \<Rightarrow> False)"

lemma node_is_dir_set [simp]:
  "node_is_dir (set_mode m n) = node_is_dir n" "node_is_dir (set_owner ow n) = node_is_dir n"
  by (cases n; simp add: node_is_dir_def)+

lemma is_dir_iff: "is_dir t p \<longleftrightarrow> (\<exists>n. fs_stat t p = Some n \<and> node_is_dir n)"
  by (auto simp: is_dir_def node_is_dir_def split: option.splits node.splits)

lemma is_file_not_dir: "is_file t p \<Longrightarrow> \<not> is_dir t p"
  by (auto simp: is_dir_def is_file_def split: option.splits node.splits)

text \<open>What every call keeps: the paths it is not about.\<close>

lemma os_mkdir_all_frame:
  "\<not> below q p \<Longrightarrow> fs_stat (files (snd (os_mkdir_all m p k))) q = fs_stat (files k) q"
  by (auto simp: os_simps mkdir_all_frame split: option.splits)

lemma os_mkdir_all_keeps:
  "fs_stat (files k) q \<noteq> None \<Longrightarrow> fs_stat (files (snd (os_mkdir_all m p k))) q = fs_stat (files k) q"
  by (auto simp: os_simps mkdir_all_keeps split: option.splits)

lemma os_chmod_frame:
  "q \<noteq> p \<Longrightarrow> fs_stat (files (snd (os_chmod p m k))) q = fs_stat (files k) q"
  by (simp add: os_simps split: option.splits)

lemma os_chown_frame:
  "q \<noteq> p \<Longrightarrow> fs_stat (files (snd (os_chown p u g k))) q = fs_stat (files k) q"
  by (simp add: os_simps Let_def split: option.splits)

lemma os_remove_all_frame:
  "\<not> below p q \<Longrightarrow> fs_stat (files (snd (os_remove_all p k))) q = fs_stat (files k) q"
  by (simp add: os_simps)

lemma os_remove_frame:
  "q \<noteq> p \<Longrightarrow> fs_stat (files (snd (os_remove p k))) q = fs_stat (files k) q"
  by (simp add: os_simps split: option.splits)

lemma os_write_file_frame:
  "q \<noteq> p \<Longrightarrow> fs_stat (files (snd (os_write_file p c m k))) q = fs_stat (files k) q"
  by (simp add: os_simps split: option.splits node.splits)

lemma os_rename_frame:
  "q \<noteq> p \<Longrightarrow> q \<noteq> p' \<Longrightarrow> fs_stat (files (snd (os_rename p p' k))) q = fs_stat (files k) q"
  by (simp add: os_simps split: option.splits node.splits)

lemmas os_frames = os_mkdir_all_frame os_chmod_frame os_chown_frame os_remove_all_frame
  os_remove_frame os_write_file_frame os_rename_frame

lemma snd_os_reads [simp]:
  "snd (os_stat p k) = dtick k" "snd (os_read_file p k) = dtick k" "snd (os_read_dir p k) = dtick k"
  by (simp_all add: os_simps)

text \<open>A directory stays a directory under creation, chmod and chown.\<close>

lemma is_dir_mkdir_all: "is_dir (files k) q \<Longrightarrow> is_dir (files (snd (os_mkdir_all m p k))) q"
  using os_mkdir_all_keeps [of k q m p] by (auto simp: is_dir_iff)

lemma is_dir_chmod: "is_dir (files k) q \<Longrightarrow> is_dir (files (snd (os_chmod p m k))) q"
  by (cases "q = p") (auto simp: is_dir_iff os_simps split: option.splits)

lemma is_dir_chown: "is_dir (files k) q \<Longrightarrow> is_dir (files (snd (os_chown p u g k))) q"
  by (cases "q = p") (auto simp: is_dir_iff os_simps Let_def split: option.splits)

lemma os_mkdir_all_dir:
  "fst (os_mkdir_all m p k) = Inr u \<Longrightarrow> p \<noteq> [] \<Longrightarrow> is_dir (files (snd (os_mkdir_all m p k))) p"
  by (auto simp: os_simps mkdir_all_is_dir split: option.splits if_splits)

section \<open>Temporary files\<close>

text \<open>\<open>os.CreateTemp\<close> makes a new file.\<close>

definition os_create_temp :: "path \<Rightarrow> disk \<Rightarrow> unit result \<times> disk" where
  "os_create_temp p k =
     (if fs_stat (files k) p \<noteq> None then (Inl (Msg ''file exists''), dtick k)
      else os_call (disk_write p '''' 384) k)"

lemma os_create_temp_cases:
  "os_create_temp p k = (r, k') \<Longrightarrow> k' = dtick k \<and> isl r \<or> os_write_file p '''' 384 k = (r, k')"
  by (auto simp: os_create_temp_def os_call_def os_write_file_def split: if_splits)

lemma os_write_file_content:
  "os_write_file p c m k = (Inr u, k') \<Longrightarrow> \<exists>m ow t. fs_stat (files k') p = Some (File m ow c t)"
  by (auto simp: os_simps split: if_splits option.splits node.splits)

lemma os_rename_moves:
  "os_rename p q k = (Inr u, k') \<Longrightarrow> fs_stat (files k') q = fs_stat (files k) p \<and> is_file (files k) p"
  by (auto simp: os_simps is_file_def split: if_splits option.splits node.splits)

lemma os_rename_fails: "os_rename p q k = (Inl e, k') \<Longrightarrow> files k' = files k"
  by (auto simp: os_simps split: if_splits option.splits node.splits)

lemma os_stat_Inr: "os_stat p k = (Inr n, k') \<Longrightarrow> fs_stat (files k) p = Some n"
  by (auto simp: os_simps split: if_splits option.splits)


text \<open>
  \<open>Sync\<close> and \<open>Close\<close> of a file change nothing that the model sees, but they may fail.
\<close>

definition os_flush :: "disk \<Rightarrow> unit result \<times> disk" where
  "os_flush = os_call (\<lambda>k. (Inr (), k))"

section \<open>The contents of files\<close>

text \<open>
  What the files of a disk contain, as a map: the calls act on it as updates, whatever the
  directories, modes and owners are.
\<close>

definition fbytes :: "disk \<Rightarrow> path \<Rightarrow> string option" where
  "fbytes k p = (case fs_stat (files k) p of Some (File m ow c t) \<Rightarrow> Some c | _ \<Rightarrow> None)"

named_theorems fbytes_rules \<open>the calls as updates of the contents\<close>

lemma fbytes_dtick [simp]: "fbytes (dtick k) = fbytes k"
  by (simp add: fbytes_def fun_eq_iff)

lemma fbytes_put: "fbytes (k\<lparr>files := fs_put (files k) p n\<rparr>) =
    (fbytes k)(p := (case n of File m ow c t \<Rightarrow> Some c | Dir m ow \<Rightarrow> None))"
  by (auto simp: fbytes_def fun_eq_iff split: node.splits)

lemma fbytes_del: "fbytes (k\<lparr>files := fs_del (files k) p\<rparr>) = (fbytes k)(p := None)"
  by (simp add: fbytes_def fun_eq_iff)

lemma fbytes_mkdir_all [fbytes_rules]: "os_mkdir_all m p k = (r, k') \<Longrightarrow> fbytes k' = fbytes k"
proof -
  have new: "fbytes (k\<lparr>files := t\<rparr>) = fbytes k" if "mkdir_all m ow (files k) p = Some t" for t ow k
  proof
    fix q
    show "fbytes (k\<lparr>files := t\<rparr>) q = fbytes k q"
      using mk_dirs_stat [of m ow "files k" "prefixes_of p" t q] that
      by (cases "fs_stat (files k) q")
        (auto simp: fbytes_def mkdir_all_def is_dir_def split: option.splits node.splits)
  qed
  from new [where k = "dtick k" and ow = "proc_owner k"] show "os_mkdir_all m p k = (r, k') \<Longrightarrow> fbytes k' = fbytes k"
    by (auto simp: os_mkdir_all_def os_call_def split: if_splits option.splits)
qed

lemma fbytes_chmod [fbytes_rules]: "os_chmod p m k = (r, k') \<Longrightarrow> fbytes k' = fbytes k"
  by (auto simp: os_simps fbytes_def fun_eq_iff split: if_splits option.splits node.splits)

lemma fbytes_write_file [fbytes_rules]:
  "os_write_file p c m k = (r, k') \<Longrightarrow>
     (case r of Inr u \<Rightarrow> fbytes k' = (fbytes k)(p \<mapsto> c)
      | Inl e \<Rightarrow> fbytes k' = fbytes k \<or> (\<exists>j. fbytes k' = (fbytes k)(p \<mapsto> take j c)))"
proof -
  have w: "fbytes (snd (disk_write p d m k1)) = (case fst (disk_write p d m k1) of Inr u \<Rightarrow> (fbytes k1)(p \<mapsto> d) | Inl e \<Rightarrow> fbytes k1)"
    for d k1
    by (auto simp: disk_write_def fbytes_put split: option.splits node.splits)
  assume "os_write_file p c m k = (r, k')"
  then show ?thesis
    using w [of c "dtick k"] w [of "take j c" "dtick k" for j]
    by (auto simp: os_write_file_def split: if_splits option.splits sum.splits)
qed

lemma fbytes_write_other: "os_write_file p c m k = (r, k') \<Longrightarrow> q \<noteq> p \<Longrightarrow> fbytes k' q = fbytes k q"
  using fbytes_write_file [of p c m k r k'] by (auto split: sum.splits)

lemma fbytes_create_temp [fbytes_rules]:
  "os_create_temp p k = (r, k') \<Longrightarrow>
     fbytes k' = (case r of Inr u \<Rightarrow> (fbytes k)(p \<mapsto> []) | Inl e \<Rightarrow> fbytes k) \<and>
     (\<not> isl r \<longrightarrow> fbytes k p = None)"
  by (auto simp: os_create_temp_def fbytes_def fun_eq_iff os_simps
      split: if_splits option.splits node.splits)

lemma fbytes_remove [fbytes_rules]:
  "os_remove p k = (r, k') \<Longrightarrow>
     fbytes k' = (case r of Inr u \<Rightarrow> (fbytes k)(p := None) | Inl e \<Rightarrow> fbytes k)"
  by (auto simp: os_simps fbytes_def fun_eq_iff split: if_splits option.splits node.splits)

lemma fbytes_rename [fbytes_rules]:
  "os_rename p q k = (r, k') \<Longrightarrow>
     fbytes k' = (case r of Inr u \<Rightarrow> (fbytes k)(p := None, q := fbytes k p) | Inl e \<Rightarrow> fbytes k) \<and>
     (\<not> isl r \<longrightarrow> fbytes k p \<noteq> None)"
  by (auto simp: os_simps fbytes_def fun_eq_iff split: if_splits option.splits node.splits)

lemma fbytes_flush [fbytes_rules]: "os_flush k = (r, k') \<Longrightarrow> fbytes k' = fbytes k"
  by (auto simp: os_flush_def os_call_def split: if_splits)

lemma os_read_file_fbytes:
  "os_read_file p k = (Inr c, k') \<Longrightarrow> fbytes k p = Some c"
  "disk_faults k = [] \<Longrightarrow> fbytes k p = Some c \<Longrightarrow> os_read_file p k = (Inr c, k)"
  by (auto simp: os_simps fbytes_def split: if_splits option.splits node.splits)

section \<open>Working disks\<close>

text \<open>A disk without faults stays without faults.\<close>

lemma no_faults_rules:
  "disk_faults k = [] \<Longrightarrow> os_mkdir_all m p k = (r, k') \<Longrightarrow> disk_faults k' = []"
  "disk_faults k = [] \<Longrightarrow> os_chmod p m k = (r, k') \<Longrightarrow> disk_faults k' = []"
  "disk_faults k = [] \<Longrightarrow> os_write_file p c m k = (r, k') \<Longrightarrow> disk_faults k' = []"
  "disk_faults k = [] \<Longrightarrow> os_create_temp p k = (r, k') \<Longrightarrow> disk_faults k' = []"
  "disk_faults k = [] \<Longrightarrow> os_remove p k = (r, k') \<Longrightarrow> disk_faults k' = []"
  "disk_faults k = [] \<Longrightarrow> os_rename p q k = (r, k') \<Longrightarrow> disk_faults k' = []"
  "disk_faults k = [] \<Longrightarrow> os_flush k = (r, k') \<Longrightarrow> disk_faults k' = []"
  by (auto simp: os_simps os_create_temp_def os_flush_def split: option.splits node.splits if_splits)

end
