(* ===== verification/Go_Net.thy ===== *)
theory Go_Net
  imports Go_Strings "HOL-Library.Word"
begin

text \<open>
  What the repository uses of the standard library's packages \<open>net\<close> and \<open>net/netip\<close>: an IP
  address is a list of bytes (4 or 16, or none for a nil address), \<open>ParseIP\<close>, \<open>ParseCIDR\<close>,
  \<open>Equal\<close>, \<open>Contains\<close> and \<open>String\<close>. Membership in an IPv4 network is related to the
  arithmetic on 32-bit words that the notation stands for.
\<close>

section \<open>Addresses\<close>

type_synonym ip = "nat list"

definition v4_in_v6_prefix :: ip where
  "v4_in_v6_prefix = [0, 0, 0, 0, 0, 0, 0, 0, 0, 0, 255, 255]"

definition to4 :: "ip \<Rightarrow> ip option" where
  "to4 p =
     (if length p = 4 then Some p
      else if length p = 16 \<and> take 12 p = v4_in_v6_prefix then Some (drop 12 p)
      else None)"

definition ip_equal :: "ip \<Rightarrow> ip \<Rightarrow> bool" where
  "ip_equal p q =
     (if length p = length q then p = q
      else if length p = 4 \<and> length q = 16 then take 12 q = v4_in_v6_prefix \<and> drop 12 q = p
      else if length p = 16 \<and> length q = 4 then take 12 p = v4_in_v6_prefix \<and> drop 12 p = q
      else False)"

section \<open>Parsing addresses\<close>

text \<open>One decimal field: digits, no leading zero, at most 255.\<close>

definition ipv4_field :: "string \<Rightarrow> nat option" where
  "ipv4_field s =
     (if s \<noteq> '''' \<and> list_all is_digit s \<and> (length s = 1 \<or> hd s \<noteq> CHR ''0'') \<and> digits_val s \<le> 255
      then Some (digits_val s) else None)"

definition parse_ipv4 :: "string \<Rightarrow> ip option" where
  "parse_ipv4 s =
     (case map ipv4_field (str_split CHR ''.'' s) of
        [Some a, Some b, Some c, Some d] \<Rightarrow> Some [a, b, c, d]
      | _ \<Rightarrow> None)"

definition is_hex :: "char \<Rightarrow> bool" where
  "is_hex c \<longleftrightarrow> is_digit c \<or> 97 \<le> byte c \<and> byte c \<le> 102 \<or> 65 \<le> byte c \<and> byte c \<le> 70"

definition hex_value :: "char \<Rightarrow> nat" where
  "hex_value c =
     (if is_digit c then byte c - 48 else if 97 \<le> byte c then byte c - 87 else byte c - 55)"

definition hex_number :: "string \<Rightarrow> nat" where
  "hex_number s = foldl (\<lambda>a c. 16 * a + hex_value c) 0 s"

text \<open>
  The groups of an IPv6 address: the bytes so far and the place of the ellipsis. A group has
  one to four digits; the last one may be a dotted address. The answer has the bytes and the
  ellipsis when the whole text was consumed.
\<close>

function ipv6_groups :: "string \<Rightarrow> ip \<Rightarrow> nat option \<Rightarrow> (ip \<times> nat option) option" where
  "ipv6_groups s bs el =
     (if length bs \<ge> 16 then (if s = '''' then Some (bs, el) else None)
      else let g = takeWhile is_hex s; rest = dropWhile is_hex s
      in if g = '''' \<or> length g > 4 then None
         else if has_prefix rest ''.'' then
           (if el = None \<and> length bs \<noteq> 12 \<or> length bs + 4 > 16 then None
            else case parse_ipv4 s of None \<Rightarrow> None | Some q \<Rightarrow> Some (bs @ q, el))
         else
           let bs1 = bs @ [hex_number g div 256, hex_number g mod 256]
           in if rest = '''' then Some (bs1, el)
              else if hd rest \<noteq> CHR '':'' \<or> tl rest = '''' then None
              else if hd (tl rest) = CHR '':'' then
                (if el \<noteq> None then None
                 else if tl (tl rest) = '''' then Some (bs1, Some (length bs1))
                 else ipv6_groups (tl (tl rest)) bs1 (Some (length bs1)))
              else ipv6_groups (tl rest) bs1 el)"
  by pat_completeness auto

lemma length_dropWhile_less: "takeWhile P s \<noteq> [] \<Longrightarrow> length (dropWhile P s) - Suc 0 < length s"
  using length_dropWhile_le [of P s] by (cases s) (auto simp: less_Suc_eq_le split: if_splits)

termination ipv6_groups
proof (relation "measure (\<lambda>(s, bs, el). length s)", goal_cases)
  case (2 s bs el g rest bs1)
  then have "length rest - Suc 0 < length s" by (simp add: length_dropWhile_less)
  then show ?case by simp
next
  case (3 s bs el g rest bs1)
  then show ?case by (simp add: length_dropWhile_less)
qed simp

declare ipv6_groups.simps [simp del]

definition parse_ipv6 :: "string \<Rightarrow> ip option" where
  "parse_ipv6 s =
     (case (if has_prefix s ''::'' then
              (if drop 2 s = '''' then Some ([], Some 0) else ipv6_groups (drop 2 s) [] (Some 0))
            else ipv6_groups s [] None) of
        None \<Rightarrow> None
      | Some (bs, None) \<Rightarrow> if length bs = 16 then Some bs else None
      | Some (bs, Some e) \<Rightarrow>
          if length bs < 16 then Some (take e bs @ replicate (16 - length bs) 0 @ drop e bs) else None)"

text \<open>
  \<open>netip.ParseAddr\<close> without zones (which \<open>ParseIP\<close> and \<open>ParseCIDR\<close> reject): the first dot or
  colon decides; the result of \<open>ParseIP\<close> always has 16 bytes.
\<close>

definition parse_addr :: "string \<Rightarrow> ip option" where
  "parse_addr s =
     (case dropWhile (\<lambda>c. c \<notin> set ''.:%'') s of
        [] \<Rightarrow> None
      | c # r \<Rightarrow> if c = CHR ''.'' then parse_ipv4 s else if c = CHR '':'' then parse_ipv6 s else None)"

definition as16 :: "ip \<Rightarrow> ip" where
  "as16 p = (if length p = 4 then v4_in_v6_prefix @ p else p)"

definition parse_ip :: "string \<Rightarrow> ip option" where
  "parse_ip s = map_option as16 (parse_addr s)"

section \<open>Networks\<close>

record ip_net =
  net_ip :: ip
  net_mask :: ip

text \<open>\<open>CIDRMask(ones, 8 * n)\<close>\<close>

definition cidr_mask :: "nat \<Rightarrow> nat \<Rightarrow> ip" where
  "cidr_mask ones n = map (\<lambda>i. 256 - 2 ^ (8 - min 8 (ones - 8 * i))) [0..<n]"

definition and_bytes :: "ip \<Rightarrow> ip \<Rightarrow> ip" where
  "and_bytes p q = map2 (\<lambda>a b. and a b) p q"

definition ip_masked :: "ip \<Rightarrow> ip \<Rightarrow> ip" where
  "ip_masked p m =
     (let q = (if length m = 4 \<and> length p = 16 \<and> take 12 p = v4_in_v6_prefix then drop 12 p else p)
      in and_bytes q m)"

text \<open>The length of a prefix: digits only, below \<open>0xFFFFFF\<close>.\<close>

definition dtoi :: "string \<Rightarrow> nat option" where
  "dtoi s = (if s \<noteq> '''' \<and> list_all is_digit s \<and> digits_val s < 16777215 then Some (digits_val s) else None)"

definition parse_cidr :: "string \<Rightarrow> ip_net option" where
  "parse_cidr s =
     (if CHR ''/'' \<notin> set s then None
      else case (parse_addr (takeWhile (\<lambda>c. c \<noteq> CHR ''/'') s), dtoi (tl (dropWhile (\<lambda>c. c \<noteq> CHR ''/'') s))) of
        (Some p, Some n) \<Rightarrow>
          if n > 8 * length p then None
          else let m = cidr_mask n (length p) in Some \<lparr>net_ip = ip_masked (as16 p) m, net_mask = m\<rparr>
      | _ \<Rightarrow> None)"

definition ip_net_contains :: "ip_net \<Rightarrow> ip \<Rightarrow> bool" where
  "ip_net_contains n p =
     (let base = (case to4 (net_ip n) of Some q \<Rightarrow> q | None \<Rightarrow> net_ip n);
          mask = (if length base = 4 \<and> length (net_mask n) = 16 then drop 12 (net_mask n) else net_mask n);
          q = (case to4 p of Some q \<Rightarrow> q | None \<Rightarrow> p)
      in length q = length base \<and> and_bytes q mask = and_bytes base mask)"

section \<open>Text\<close>

text \<open>\<open>IP.String\<close>: dotted bytes, or groups with the first longest run of zeros left out.\<close>

definition ipv4_string :: "ip \<Rightarrow> string" where
  "ipv4_string p = str_join ''.'' (map nat_str p)"

fun nat_hex :: "nat \<Rightarrow> string" where
  "nat_hex n = (if n < 16 then [hex_digit n] else nat_hex (n div 16) @ [hex_digit (n mod 16)])"

declare nat_hex.simps [simp del]

definition ip_groups :: "ip \<Rightarrow> nat list" where
  "ip_groups p = map (\<lambda>i. 256 * p ! (2 * i) + p ! (2 * i + 1)) [0..<8]"

definition zero_run :: "nat list \<Rightarrow> nat \<Rightarrow> nat" where
  "zero_run gs i = length (takeWhile (\<lambda>g. g = 0) (drop i gs))"

definition longest_zero_run :: "nat list \<Rightarrow> nat \<times> nat" where
  "longest_zero_run gs =
     foldl (\<lambda>(s, l) i. if 2 \<le> zero_run gs i \<and> l < zero_run gs i then (i, zero_run gs i) else (s, l))
       (0, 0) [0..<length gs]"

definition ipv6_string :: "ip \<Rightarrow> string" where
  "ipv6_string p =
     (let gs = ip_groups p; (s, l) = longest_zero_run gs; w = (\<lambda>xs. str_join '':'' (map nat_hex xs))
      in if l = 0 then w gs else w (take s gs) @ ''::'' @ w (drop (s + l) gs))"

definition ip_string :: "ip \<Rightarrow> string" where
  "ip_string p =
     (if p = [] then ''<nil>''
      else case to4 p of
          Some q \<Rightarrow> ipv4_string q
        | None \<Rightarrow>
            if length p = 16 then ipv6_string p
            else ''?'' @ concat (map (\<lambda>b. [hex_digit (b div 16), hex_digit (b mod 16)]) p))"

section \<open>Networks as prefixes of numbers\<close>

definition ip_bytes :: "ip \<Rightarrow> bool" where
  "ip_bytes p \<longleftrightarrow> (\<forall>b\<in>set p. b < 256)"

fun ip_number :: "ip \<Rightarrow> nat" where
  "ip_number [] = 0"
| "ip_number (b # bs) = b * 256 ^ length bs + ip_number bs"

lemma ip_number_less: "ip_bytes p \<Longrightarrow> ip_number p < 256 ^ length p"
proof (induction p)
  case (Cons b p)
  then have "b \<le> 255" "ip_number p < 256 ^ length p" by (auto simp: ip_bytes_def)
  then have "b * 256 ^ length p + ip_number p < 255 * 256 ^ length p + 256 ^ length p"
    by (intro add_le_less_mono mult_right_mono) simp_all
  then show ?case by simp
qed simp

lemma cidr_mask_Suc: "cidr_mask n (Suc m) = (256 - 2 ^ (8 - min 8 n)) # cidr_mask (n - 8) m"
proof -
  have "map f [0..<Suc m] = f 0 # map (\<lambda>i. f (Suc i)) [0..<m]" for f :: "nat \<Rightarrow> nat"
    by (simp add: upt_conv_Cons map_Suc_upt [symmetric] del: upt_Suc)
  from this [of "\<lambda>i. 256 - 2 ^ (8 - min 8 (n - 8 * i))"] show ?thesis
    by (simp add: cidr_mask_def diff_diff_eq)
qed

lemma cidr_mask_0 [simp]: "cidr_mask n 0 = []"
  by (simp add: cidr_mask_def)

lemma length_cidr_mask [simp]: "length (cidr_mask n m) = m"
  by (simp add: cidr_mask_def)

text \<open>One byte under a mask of \<open>k\<close> bits keeps its upper \<open>k\<close> bits.\<close>

lemma bit_small: "a < 2 ^ m \<Longrightarrow> bit (a :: nat) i \<Longrightarrow> i < m"
  by (metis bit_take_bit_iff take_bit_nat_eq_self_iff)

lemma byte_mask: "k \<le> 8 \<Longrightarrow> 256 - 2 ^ (8 - k) = push_bit (8 - k) (mask k :: nat)"
  by (simp add: push_bit_eq_mult mask_eq_exp_minus_1 algebra_simps flip: power_add)

lemma and_mask_byte:
  assumes "a < 256" and "k \<le> 8"
  shows "and a (256 - 2 ^ (8 - k)) = a div 2 ^ (8 - k) * (2 ^ (8 - k) :: nat)"
proof -
  have "and a (push_bit (8 - k) (mask k)) = push_bit (8 - k) (drop_bit (8 - k) a)"
  proof (rule bit_eqI)
    fix i
    have "bit a i \<Longrightarrow> i < 8" using bit_small [of a 8 i] assms by simp
    then have "bit a i \<Longrightarrow> 8 - k \<le> i \<Longrightarrow> i - (8 - k) < k" using assms(2) by linarith
    then show "bit (and a (push_bit (8 - k) (mask k))) i \<longleftrightarrow> bit (push_bit (8 - k) (drop_bit (8 - k) a)) i"
      by (auto simp: bit_simps)
  qed
  then show ?thesis
    by (simp add: byte_mask [OF assms(2)]) (simp add: push_bit_eq_mult drop_bit_eq_div)
qed

lemma and_mask_byte_eq:
  assumes "a < 256" and "b < 256" and "k \<le> 8"
  shows "and a (256 - 2 ^ (8 - k)) = and b (256 - 2 ^ (8 - k)) \<longleftrightarrow> a div 2 ^ (8 - k) = b div (2 ^ (8 - k) :: nat)"
  using assms by (simp add: and_mask_byte)

lemma div_shift: "(x * (M :: nat) + r) div (M * s) = x div s" if "r < M" "0 < s"
  using that by (simp add: div_mult2_eq)

lemma div_split: "e dvd (M :: nat) \<Longrightarrow> (x * M + r) div e = x * (M div e) + r div e"
  by (metis div_mult_swap div_plus_div_distrib_dvd_left dvd_mult)

lemma split_eq:
  assumes "r < (N :: nat)" and "r' < N"
  shows "x * N + r = y * N + r' \<longleftrightarrow> x = y \<and> r = r'"
proof
  assume e: "x * N + r = y * N + r'"
  have "(x * N + r) div N = x" "(y * N + r') div N = y" using assms by simp_all
  with e have "x = y" by metis
  with e show "x = y \<and> r = r'" by simp
qed simp

lemma prefix_number:
  assumes "length p = length q" and "ip_bytes p" and "ip_bytes q" and "n \<le> 8 * length p"
  shows "and_bytes p (cidr_mask n (length p)) = and_bytes q (cidr_mask n (length p)) \<longleftrightarrow>
    ip_number p div 2 ^ (8 * length p - n) = ip_number q div 2 ^ (8 * length p - n)"
  using assms
proof (induction p q arbitrary: n rule: list_induct2)
  case Nil
  then show ?case by simp
next
  case (Cons x xs y ys)
  define M :: nat where "M = 256 ^ length xs"
  have M: "M = 2 ^ (8 * length xs)" by (simp add: M_def power_mult)
  have b: "x < 256" "y < 256" "ip_bytes xs" "ip_bytes ys" using Cons.prems by (simp_all add: ip_bytes_def)
  have r: "ip_number xs < M" "ip_number ys < M"
    using ip_number_less [OF b(3)] ip_number_less [OF b(4)] Cons.hyps by (simp_all add: M_def)
  have num: "ip_number (x # xs) = x * M + ip_number xs" "ip_number (y # ys) = y * M + ip_number ys"
    using Cons.hyps by (simp_all add: M_def)
  show ?case
  proof (cases "n < 8")
    case True
    have "and_bytes xs (cidr_mask 0 (length xs)) = and_bytes ys (cidr_mask 0 (length xs))"
      using Cons.IH [of 0] b r by (simp add: M)
    moreover have "2 ^ (8 * length (x # xs) - n) = M * 2 ^ (8 - n)"
      using True by (simp add: M flip: power_add)
    ultimately show ?thesis
      using True and_mask_byte_eq [OF b(1,2), of n] r
      by (simp add: cidr_mask_Suc and_bytes_def num div_shift del: ip_number.simps)
  next
    case False
    let ?e = "2 ^ (8 * length xs - (n - 8)) :: nat"
    have e: "8 * length (x # xs) - n = 8 * length xs - (n - 8)" "n - 8 \<le> 8 * length xs"
      using False Cons.prems by simp_all
    have M': "M = ?e * 2 ^ (n - 8)" using e(2) by (simp add: M flip: power_add)
    have div: "(z * M + t) div ?e = z * 2 ^ (n - 8) + t div ?e" for z t
      using div_split [of ?e M z t] by (simp add: M')
    have "t div ?e < 2 ^ (n - 8)" if "t < M" for t
      using that by (simp add: M' div_less_iff_less_mult mult.commute)
    with r have "(x * M + ip_number xs) div ?e = (y * M + ip_number ys) div ?e \<longleftrightarrow>
        x = y \<and> ip_number xs div ?e = ip_number ys div ?e"
      unfolding div by (intro split_eq) simp_all
    moreover have "and x 255 = x" "and y 255 = y"
      using and_mask_byte [of x 8] and_mask_byte [of y 8] b by simp_all
    ultimately show ?thesis
      using Cons.IH [OF b(3,4) e(2)] False
      by (simp add: cidr_mask_Suc and_bytes_def num e(1) add.commute [of 8] del: ip_number.simps)
  qed
qed

section \<open>The written network\<close>

lemma ipv4_field_nat_str: "b < 256 \<Longrightarrow> ipv4_field (nat_str b) = Some b"
proof -
  assume b: "b < 256"
  have "length (nat_str b) = 1 \<or> hd (nat_str b) \<noteq> CHR ''0''"
    using nat_str_no_zero [of b] by (cases "b < 10") (simp_all add: nat_str.simps [of b])
  with b show ?thesis by (simp add: ipv4_field_def nat_str_digits)
qed

lemma char_notin_nat_str: "\<not> is_digit c \<Longrightarrow> c \<notin> set (nat_str n)"
  using nat_str_digit by blast

lemma punctuation_no_digit: "\<not> is_digit CHR ''.''" "\<not> is_digit CHR '':''" "\<not> is_digit CHR ''%''" "\<not> is_digit CHR ''/''"
  by code_simp+

lemma parse_ipv4_string:
  assumes "ip_bytes p" and "length p = 4"
  shows "parse_ipv4 (ipv4_string p) = Some p"
proof -
  obtain a b c d where p: "p = [a, b, c, d]"
    using assms(2) by (auto simp: numeral_eq_Suc length_Suc_conv)
  have "str_split CHR ''.'' (ipv4_string p) = map nat_str p"
    unfolding ipv4_string_def
    by (rule split_join) (use char_notin_nat_str [OF punctuation_no_digit(1)] in \<open>auto simp: p\<close>)
  with assms(1) show ?thesis
    by (simp add: parse_ipv4_def p ip_bytes_def ipv4_field_nat_str)
qed

lemma parse_addr_ipv4_string:
  assumes "ip_bytes p" and "length p = 4"
  shows "parse_addr (ipv4_string p) = Some p"
proof -
  obtain a b c d where p: "p = [a, b, c, d]"
    using assms(2) by (auto simp: numeral_eq_Suc length_Suc_conv)
  have "x \<in> set (nat_str a) \<Longrightarrow> x \<notin> set ''.:%''" for x
    using char_notin_nat_str punctuation_no_digit by auto
  then have "dropWhile (\<lambda>c. c \<notin> set ''.:%'') (ipv4_string p) =
      dropWhile (\<lambda>c. c \<notin> set ''.:%'') (''.'' @ str_join ''.'' (map nat_str [b, c, d]))"
    by (simp add: ipv4_string_def p dropWhile_append2)
  then show ?thesis
    by (simp add: parse_addr_def parse_ipv4_string [OF assms])
qed

lemma set_str_join: "c \<in> set (str_join sep ws) \<Longrightarrow> c \<in> set sep \<or> (\<exists>w\<in>set ws. c \<in> set w)"
  by (induction sep ws rule: str_join.induct) auto

lemma slash_notin_ipv4: "x \<in> set (ipv4_string p) \<Longrightarrow> x \<noteq> CHR ''/''"
  using char_notin_nat_str [OF punctuation_no_digit(4)]
  by (auto simp: ipv4_string_def dest!: set_str_join)

lemma and_bytes_idem: "and_bytes (and_bytes p m) m = and_bytes p m" if "length p = length m"
  using that by (induction p m rule: list_induct2) (simp_all add: and_bytes_def and.assoc)

lemma length_and_bytes [simp]: "length (and_bytes p m) = min (length p) (length m)"
  by (simp add: and_bytes_def)

lemma parse_cidr_v4:
  assumes "ip_bytes p" and "length p = 4" and "n \<le> 32"
  shows "parse_cidr (ipv4_string p @ ''/'' @ nat_str n) =
    Some \<lparr>net_ip = and_bytes p (cidr_mask n 4), net_mask = cidr_mask n 4\<rparr>"
proof -
  have d: "dtoi (nat_str n) = Some n"
    using assms(3) by (simp add: dtoi_def nat_str_digits)
  have s: "takeWhile (\<lambda>c. c \<noteq> CHR ''/'') (ipv4_string p @ ''/'' @ t) = ipv4_string p"
    "dropWhile (\<lambda>c. c \<noteq> CHR ''/'') (ipv4_string p @ ''/'' @ t) = ''/'' @ t" for t
    by (simp_all add: takeWhile_append2 [OF slash_notin_ipv4] dropWhile_append2 [OF slash_notin_ipv4])
  show ?thesis
    using assms(2,3) unfolding parse_cidr_def s
    by (simp add: parse_addr_ipv4_string [OF assms(1,2)] d Let_def ip_masked_def as16_def v4_in_v6_prefix_def)
qed

text \<open>
  An IPv4 network contains an IPv4 client, in either form, when their upper bits agree as
  32-bit words.
\<close>

definition ipv4_word :: "ip \<Rightarrow> 32 word" where
  "ipv4_word p = word_of_nat (ip_number p)"

lemma ipv4_word_prefix:
  assumes "ip_bytes p" and "ip_bytes q" and "length p = 4" and "length q = 4" and "n \<le> 32"
  shows "drop_bit (32 - n) (ipv4_word p) = drop_bit (32 - n) (ipv4_word q) \<longleftrightarrow>
    ip_number p div 2 ^ (32 - n) = ip_number q div 2 ^ (32 - n)"
proof -
  have small: "ip_number r < 2 ^ 32" if "ip_bytes r" "length r = 4" for r
    using ip_number_less [OF that(1)] that(2) by simp
  have "unat (drop_bit (32 - n) (ipv4_word r)) = ip_number r div 2 ^ (32 - n)"
    if "ip_bytes r" "length r = 4" for r
    using small [OF that] unfolding ipv4_word_def unat_drop_bit_eq
    by (simp add: unsigned_of_nat take_bit_nat_eq_self drop_bit_eq_div)
  with assms show ?thesis by (metis word_unat_eq_iff)
qed

lemma parse_cidr_contains:
  assumes "ip_bytes p" and "ip_bytes q" and "length p = 4" and "length q = 4" and "n \<le> 32"
    and "client \<in> {q, v4_in_v6_prefix @ q}"
  shows "\<exists>net. parse_cidr (ipv4_string p @ ''/'' @ nat_str n) = Some net \<and>
    (ip_net_contains net client \<longleftrightarrow> drop_bit (32 - n) (ipv4_word q) = drop_bit (32 - n) (ipv4_word p))"
proof -
  have c: "to4 client = Some q"
    using assms(4,6) by (auto simp: to4_def v4_in_v6_prefix_def)
  have m: "to4 (and_bytes p (cidr_mask n 4)) = Some (and_bytes p (cidr_mask n 4))"
    using assms(3) by (simp add: to4_def)
  have "ip_net_contains \<lparr>net_ip = and_bytes p (cidr_mask n 4), net_mask = cidr_mask n 4\<rparr> client \<longleftrightarrow>
      and_bytes q (cidr_mask n 4) = and_bytes p (cidr_mask n 4)"
    using assms(3,4) m by (simp add: ip_net_contains_def c and_bytes_idem Let_def)
  then show ?thesis
    using prefix_number [of q p n] assms
    unfolding parse_cidr_v4 [OF assms(1,3,5)] by (simp add: ipv4_word_prefix)
qed

end
