(* ===== verification/Go_Files.thy ===== *)
theory Go_Files
  imports Disk Go_Net
begin

text \<open>
  More of the packages \<open>path/filepath\<close>, \<open>net/url\<close> and \<open>os\<close>, for the code that is given names
  by its clients: \<open>Clean\<close> of a relative path, \<open>Base\<close>, the unescaping of URLs, and \<open>os.Rename\<close>
  of whatever is at a path. \<open>Disk.os_rename\<close> is the same call where only files are renamed.
\<close>

section \<open>Names\<close>

text \<open>\<open>filepath.Clean\<close> of a path that does not begin with a slash.\<close>

definition rel_step :: "string list \<Rightarrow> string \<Rightarrow> string list" where
  "rel_step st w =
     (if w = [] \<or> w = ''.'' then st
      else if w = ''..'' then (if st = [] \<or> last st = ''..'' then st @ [w] else butlast st)
      else st @ [w])"

definition clean_rel :: "string \<Rightarrow> string" where
  "clean_rel s =
     (let st = foldl rel_step [] (str_split CHR ''/'' s) in if st = [] then ''.'' else str_join ''/'' st)"

text \<open>\<open>filepath.Base\<close>.\<close>

definition base_name :: "string \<Rightarrow> string" where
  "base_name s =
     (if s = [] then ''.''
      else let t = trim_right (\<lambda>c. c = CHR ''/'') s
           in if t = [] then ''/'' else last (str_split CHR ''/'' t))"

definition path_base :: "path \<Rightarrow> string" where
  "path_base p = (if p = [] then ''/'' else last p)"

lemma path_base_snoc [simp]: "path_base (p @ [w]) = w"
  by (simp add: path_base_def)

text \<open>A name that is cut off at a mark, as \<open>if idx := strings.Index(s, mark); idx != -1 { s = s[:idx] }\<close>.\<close>

definition cut_at :: "string \<Rightarrow> string \<Rightarrow> string" where
  "cut_at mark s = (case index_of s mark of None \<Rightarrow> s | Some i \<Rightarrow> take i s)"

section \<open>URL escapes\<close>

text \<open>\<open>url.PathUnescape\<close> and (with the flag set) \<open>url.QueryUnescape\<close>, where a plus is a space.\<close>

fun url_unescape :: "bool \<Rightarrow> string \<Rightarrow> string option" where
  "url_unescape q [] = Some []"
| "url_unescape q (c # s) =
     (if c = CHR ''%'' then
        (case s of
           a # b # t \<Rightarrow>
             (if is_hex a \<and> is_hex b
              then map_option ((#) (char_of (16 * hex_value a + hex_value b))) (url_unescape q t)
              else None)
         | _ \<Rightarrow> None)
      else map_option ((#) (if q \<and> c = CHR ''+'' then CHR '' '' else c)) (url_unescape q s))"

section \<open>Renaming\<close>

text \<open>The table with everything at or below \<open>p\<close> moved to \<open>q\<close>.\<close>

definition fs_move_tree :: "fs \<Rightarrow> path \<Rightarrow> path \<Rightarrow> fs" where
  "fs_move_tree fs p q =
     map (\<lambda>(r, n). (q @ drop (length p) r, n)) (filter (\<lambda>(r, n). below p r) fs) @
     fs_del_tree (fs_del_tree fs p) q"

text \<open>
  \<open>os.Rename\<close>: it refuses a target that is a directory before it asks the system, which
  refuses to move a directory below itself or over a file.
\<close>

definition os_move :: "path \<Rightarrow> path \<Rightarrow> disk \<Rightarrow> unit result \<times> disk" where
  "os_move p q = os_call (\<lambda>k.
     case fs_stat (files k) p of
       None \<Rightarrow> (Inl err_not_exist, k)
     | Some n \<Rightarrow>
         (if is_dir (files k) q then (Inl (Msg ''file exists''), k)
          else if \<not> is_dir (files k) (path_dir q) then (Inl err_not_exist, k)
          else case n of
              File m ow c t \<Rightarrow> (Inr (), k\<lparr>files := fs_put (fs_del (files k) p) q (File m ow c t)\<rparr>)
            | Dir m ow \<Rightarrow>
                (if below p q then (Inl (Msg ''invalid argument''), k)
                 else if fs_stat (files k) q \<noteq> None then (Inl (Msg ''not a directory''), k)
                 else (Inr (), k\<lparr>files := fs_move_tree (files k) p q\<rparr>))))"

lemma map_of_moved:
  "map_of (map (\<lambda>(r, n). (q @ drop (length p) r, n)) (filter (\<lambda>(r, n). below p r) fs)) x =
     (if below q x then map_of fs (p @ drop (length q) x) else None)"
proof (induction fs)
  case (Cons e fs)
  obtain r n where e: "e = (r, n)" by (cases e)
  show ?case
  proof (cases "below p r")
    case True
    then obtain s where s: "r = p @ s" by (auto simp: below_iff)
    show ?thesis
      using Cons by (cases "below q x") (auto simp: e s below_iff)
  next
    case False
    have "p @ drop (length q) x \<noteq> r" using False by auto
    with False Cons show ?thesis by (simp add: e)
  qed
qed simp

lemma fs_stat_move_tree:
  "fs_stat (fs_move_tree fs p q) x =
     (if below q x then fs_stat fs (p @ drop (length q) x)
      else if below p x then None else fs_stat fs x)"
proof -
  have "map_of (fs_del_tree (fs_del_tree fs p) q) x =
      (if below q x then None else if below p x then None else map_of fs x)"
    using fs_stat_del_tree [of "fs_del_tree fs p" q x] by (simp add: fs_stat_def [symmetric])
  then show ?thesis
    by (simp add: fs_stat_def fs_move_tree_def map_of_moved map_add_def split: option.splits)
qed

text \<open>Where a file is renamed the two models of the call agree.\<close>

lemma os_move_file: "is_file (files k) p \<Longrightarrow> fst (os_move p q k) = Inr u \<Longrightarrow> os_move p q k = os_rename p q k"
  by (auto simp: os_move_def os_simps is_file_def split: option.splits node.splits if_splits)

lemma os_move_stat:
  "\<not> below p x \<Longrightarrow> \<not> below q x \<Longrightarrow> fs_stat (files (snd (os_move p q k))) x = fs_stat (files k) x"
  by (auto simp: os_move_def os_call_def fs_stat_move_tree split: option.splits node.splits)

lemma fbytes_move:
  "\<not> below p x \<Longrightarrow> \<not> below q x \<Longrightarrow> os_move p q k = (r, k') \<Longrightarrow> fbytes k' x = fbytes k x"
  using os_move_stat [of p x q k] by (simp add: fbytes_def)

lemma fbytes_move_file:
  "is_file (files k) p \<Longrightarrow> os_move p q k = (r, k') \<Longrightarrow>
     fbytes k' = (case r of Inr u \<Rightarrow> (fbytes k)(p := None, q := fbytes k p) | Inl e \<Rightarrow> fbytes k)"
  by (auto simp: os_move_def os_call_def fbytes_def is_file_def fun_eq_iff
      split: if_splits option.splits node.splits)

section \<open>File systems with plain names\<close>

text \<open>No name of a real file system is empty, a dot, two dots, or has a slash.\<close>

definition plain_names :: "fs \<Rightarrow> bool" where
  "plain_names t \<longleftrightarrow> (\<forall>(p, n)\<in>set t. list_all plain p)"

lemma plain_put: "plain_names t \<Longrightarrow> list_all plain p \<Longrightarrow> plain_names (fs_put t p n)"
  by (auto simp: plain_names_def fs_put_def)

lemma plain_filter: "plain_names t \<Longrightarrow> plain_names (filter P t)"
  by (auto simp: plain_names_def)

lemma plain_del [simp]: "plain_names t \<Longrightarrow> plain_names (fs_del t p)" "plain_names t \<Longrightarrow> plain_names (fs_del_tree t p)"
  by (simp_all add: fs_del_def fs_del_tree_def plain_filter)

lemma list_all_drop: "list_all P xs \<Longrightarrow> list_all P (drop n xs)"
  by (metis append_take_drop_id list_all_append)

lemma plain_move_tree: "plain_names t \<Longrightarrow> list_all plain q \<Longrightarrow> plain_names (fs_move_tree t p q)"
  by (auto simp: plain_names_def fs_move_tree_def fs_del_tree_def list_all_drop)

lemma plain_mk_dirs:
  "mk_dirs m ow t ps = Some t' \<Longrightarrow> plain_names t \<Longrightarrow> \<forall>p\<in>set ps. list_all plain p \<Longrightarrow> plain_names t'"
  by (induction m ow t ps rule: mk_dirs.induct) (auto simp: plain_put split: option.splits node.splits)

lemma plain_mkdir_all:
  assumes "mkdir_all m ow t p = Some t'" and "plain_names t" and "list_all plain p"
  shows "plain_names t'"
proof (rule plain_mk_dirs)
  show "mk_dirs m ow t (prefixes_of p) = Some t'" using assms(1) by (simp add: mkdir_all_def)
  show "\<forall>q\<in>set (prefixes_of p). list_all plain q"
    using assms(3) by (auto simp: set_prefixes_of below_iff)
qed fact

lemma plain_entry: "plain_names t \<Longrightarrow> (w, n) \<in> set (fs_entries t d) \<Longrightarrow> plain w"
  by (fastforce simp: plain_names_def fs_entries_def list_all_iff)

text \<open>What \<open>Join\<close> makes has only plain names, if its base has.\<close>

lemma plain_clean_step: "list_all plain p \<Longrightarrow> CHR ''/'' \<notin> set w \<Longrightarrow> list_all plain (clean_step p w)"
  by (auto simp: clean_step_def plain_def list_all_iff dest: in_set_butlastD)

lemma plain_path_join: "list_all plain p \<Longrightarrow> list_all plain (path_join p ws)"
proof -
  have "list_all plain p \<Longrightarrow> \<forall>w\<in>set vs. CHR ''/'' \<notin> set w \<Longrightarrow> list_all plain (foldl clean_step p vs)" for vs
    by (induction vs arbitrary: p) (auto simp: plain_clean_step)
  moreover have "\<forall>w\<in>set (concat (map (str_split CHR ''/'') ws)). CHR ''/'' \<notin> set w"
    using split_parts by fastforce
  ultimately show "list_all plain p \<Longrightarrow> list_all plain (path_join p ws)"
    by (simp add: path_join_def)
qed

lemma path_join_snoc: "plain w \<Longrightarrow> path_join d [w] = d @ [w]"
  by (simp add: path_join_plain)

lemma path_join_word:
  "CHR ''/'' \<notin> set w \<Longrightarrow> path_join d [w] = clean_step d w"
  by (simp add: path_join_def split_no_sep)

lemma base_name_word: "CHR ''/'' \<in> set (base_name s) \<Longrightarrow> base_name s = ''/''"
proof -
  have "CHR ''/'' \<notin> set (last (str_split CHR ''/'' t))" for t
  proof
    assume "CHR ''/'' \<in> set (last (str_split CHR ''/'' t))"
    from split_parts [OF last_in_set [OF split_not_Nil] this] show False by simp
  qed
  then show "CHR ''/'' \<in> set (base_name s) \<Longrightarrow> base_name s = ''/''"
    by (auto simp: base_name_def Let_def split: if_splits)
qed

text \<open>A cleaned name without slashes and without two dots is a plain name or the dot.\<close>

definition segment :: "string \<Rightarrow> bool" where
  "segment w \<longleftrightarrow> w \<noteq> [] \<and> w \<noteq> ''.'' \<and> CHR ''/'' \<notin> set w"

lemma rel_step_segments:
  assumes "list_all segment st" and "CHR ''/'' \<notin> set v"
  shows "list_all segment (rel_step st v)"
proof -
  have "list_all segment (butlast st)" using assms(1) by (auto simp: list_all_iff dest: in_set_butlastD)
  then show ?thesis using assms by (simp add: rel_step_def segment_def)
qed

lemma fold_rel_step_segments:
  "list_all segment st \<Longrightarrow> \<forall>v\<in>set vs. CHR ''/'' \<notin> set v \<Longrightarrow> list_all segment (foldl rel_step st vs)"
  by (induction vs arbitrary: st) (simp_all add: rel_step_segments)

lemma split_words: "\<forall>w\<in>set (str_split c s). c \<notin> set w"
  using split_parts by fastforce

lemma clean_rel_word:
  assumes "CHR ''/'' \<notin> set (clean_rel s)" and "\<not> contains (clean_rel s) ''..''"
  shows "clean_rel s = ''.'' \<or> plain (clean_rel s)"
proof -
  define st where "st = foldl rel_step [] (str_split CHR ''/'' s)"
  have words: "list_all segment st"
    unfolding st_def by (rule fold_rel_step_segments) (simp, rule split_words)
  have c: "clean_rel s = (if st = [] then ''.'' else str_join ''/'' st)"
    by (simp add: clean_rel_def Let_def st_def)
  show ?thesis
  proof (cases st)
    case Nil
    then show ?thesis by (simp add: c)
  next
    case (Cons w ws)
    have "ws = []"
    proof (rule ccontr)
      assume "ws \<noteq> []"
      then obtain x xs where "ws = x # xs" by (cases ws) auto
      then show False using assms(1) Cons by (simp add: c)
    qed
    then have w: "clean_rel s = w" using Cons by (simp add: c)
    have "w \<noteq> ''..''"
    proof
      assume "w = ''..''"
      then show False using assms(2) by (simp only: w contains_iff) (metis append_Nil append_Nil2)
    qed
    then show ?thesis using words Cons by (simp add: w plain_def segment_def)
  qed
qed

end
