(* ===== verification/Webmail_Store.thy ===== *)
theory Webmail_Store
  imports Go_Files
begin

text \<open>
  The mail folders of the webmail, \<open>internal/webmail/service.go\<close>: the Maildir of an address,
  its folders, the file of a message identifier, and the operations that mark, move and delete
  messages. Every name comes from the client. A name of a file is what Dovecot made of it, or
  what the client named.
\<close>

section \<open>Paths\<close>

record maildir_service =
  vmail_root :: path
  mta_host :: string
  mta_port :: int

definition new_maildir_service :: "string \<Rightarrow> string \<Rightarrow> int \<Rightarrow> maildir_service" where
  "new_maildir_service root host port =
     \<lparr>vmail_root = path_join [] [if root = '''' then ''/var/vmail'' else root],
      mta_host = (if host = '''' then ''127.0.0.1'' else host),
      mta_port = (if port = 0 then 25 else port)\<rparr>"

text \<open>The characters that separate paths: the slash and the backslash.\<close>

definition separators :: string where
  "separators = [CHR ''/'', CHR 0x5C]"

definition get_maildir_path :: "maildir_service \<Rightarrow> string \<Rightarrow> path result" where
  "get_maildir_path s email =
     (case str_split CHR ''@'' (trim_space (to_lower email)) of
        [l, d] \<Rightarrow>
          (if l = [] \<or> d = [] then Inl (Msg ''invalid email format'')
           else if contains l ''..'' \<or> contains d ''..'' \<or> contains_any l separators \<or> contains_any d separators
           then Inl (Msg ''invalid mailbox path'')
           else Inr (path_join (vmail_root s) [d, l, ''Maildir'']))
      | _ \<Rightarrow> Inl (Msg ''invalid email format''))"

definition standard_names :: "(string \<times> string) list" where
  "standard_names =
     [(''sent'', ''.Sent''), (''.sent'', ''.Sent''),
      (''drafts'', ''.Drafts''), (''draft'', ''.Drafts''), (''.drafts'', ''.Drafts''), (''.draft'', ''.Drafts''),
      (''trash'', ''.Trash''), (''.trash'', ''.Trash''),
      (''junk'', ''.Junk''), (''spam'', ''.Junk''), (''.junk'', ''.Junk''), (''.spam'', ''.Junk''),
      (''archive'', ''.Archive''), (''.archive'', ''.Archive'')]"

text \<open>A folder that is not a standard one: an existing directory of that name, in any case, wins.\<close>

definition lookup_folder :: "path \<Rightarrow> string \<Rightarrow> disk \<Rightarrow> path result \<times> disk" where
  "lookup_folder md name k =
     (let (r, k1) = os_read_dir md k;
          hit = (case r of
                   Inr es \<Rightarrow> find (\<lambda>e. node_is_dir (snd e) \<and> equal_fold (fst e) name) es
                 | Inl e \<Rightarrow> None)
      in case hit of
           Some e \<Rightarrow> (Inr (path_join md [fst e]), k1)
         | None \<Rightarrow>
             (let c = clean_rel name in
              if contains c ''..'' \<or> contains_any c separators then (Inl (Msg ''invalid folder name''), k1)
              else (Inr (path_join md [c]), k1)))"

definition get_folder_dir :: "path \<Rightarrow> string \<Rightarrow> disk \<Rightarrow> path result \<times> disk" where
  "get_folder_dir md folder k =
     (let f = trim_space folder in
      if f = [] \<or> equal_fold f ''inbox'' then (Inr md, k)
      else case map_of standard_names (to_lower f) of
          Some d \<Rightarrow> (Inr (path_join md [d]), k)
        | None \<Rightarrow> lookup_folder md (if has_prefix f ''.'' then f else ''.'' @ f) k)"

section \<open>Folders\<close>

text \<open>Creating the standard folders ignores every error.\<close>

definition maildir_subs :: "string list" where
  "maildir_subs = [''cur'', ''new'', ''tmp'']"

definition standard_folders :: "string list" where
  "standard_folders = ['''', ''.Sent'', ''.Drafts'', ''.Trash'', ''.Junk'', ''.Archive'']"

definition make_dirs :: "path list \<Rightarrow> disk \<Rightarrow> disk" where
  "make_dirs ps k = foldl (\<lambda>k p. snd (os_mkdir_all 488 p k)) k ps"

definition ensure_folders :: "path \<Rightarrow> disk \<Rightarrow> disk" where
  "ensure_folders md =
     make_dirs (concat (map (\<lambda>f. map (\<lambda>w. path_join md [f, w]) maildir_subs) standard_folders))"

text \<open>What a listing counts: no directories and no hidden files.\<close>

definition listed :: "string \<times> node \<Rightarrow> bool" where
  "listed e \<longleftrightarrow> \<not> node_is_dir (snd e) \<and> \<not> has_prefix (fst e) ''.''"

text \<open>A name counts as read when it has flags and an S anywhere.\<close>

definition name_is_read :: "string \<Rightarrow> string \<Rightarrow> bool" where
  "name_is_read w n \<longleftrightarrow> w = ''cur'' \<and> contains n '':2,'' \<and> contains n ''S''"

fun count_subs :: "path \<Rightarrow> string list \<Rightarrow> nat \<times> nat \<Rightarrow> disk \<Rightarrow> (nat \<times> nat) \<times> disk" where
  "count_subs d [] c k = (c, k)"
| "count_subs d (w # ws) c k =
     (let (r, k1) = os_read_dir (path_join d [w]) k
      in count_subs d ws
           (case r of
              Inl e \<Rightarrow> c
            | Inr es \<Rightarrow>
                (fst c + length (filter listed es),
                 snd c + length (filter (\<lambda>e. listed e \<and> \<not> (w \<noteq> ''new'' \<and> contains (fst e) '':2,'' \<and> contains (fst e) ''S'')) es))) k1)"

definition count_maildir :: "path \<Rightarrow> disk \<Rightarrow> (nat \<times> nat) \<times> disk" where
  "count_maildir d = count_subs d [''new'', ''cur''] (0, 0)"

record mail_folder =
  fold_id :: string
  fold_name :: string
  fold_display :: string
  fold_total :: nat
  fold_unread :: nat
  fold_icon :: string

text \<open>Identifier, name, displayed name, directory and icon of the folders that are listed.\<close>

definition standard_defs :: "(string \<times> string \<times> string \<times> string \<times> string) list" where
  "standard_defs =
     [(''inbox'', ''INBOX'', ''Inbox'', '''', ''inbox''),
      (''sent'', ''Sent'', ''Sent Mail'', ''.Sent'', ''send''),
      (''drafts'', ''Drafts'', ''Drafts'', ''.Drafts'', ''file-text''),
      (''archive'', ''Archive'', ''Archive'', ''.Archive'', ''archive''),
      (''junk'', ''Junk'', ''Junk / Spam'', ''.Junk'', ''alert-octagon''),
      (''trash'', ''Trash'', ''Trash'', ''.Trash'', ''trash-2'')]"

fun count_folders :: "path \<Rightarrow> (string \<times> string \<times> string \<times> string \<times> string) list \<Rightarrow> disk \<Rightarrow> mail_folder list \<times> disk" where
  "count_folders md [] k = ([], k)"
| "count_folders md ((i, n, dn, d, ic) # defs) k =
     (let ((t, u), k1) = count_maildir (path_join md [d]) k;
          (fs, k2) = count_folders md defs k1
      in (\<lparr>fold_id = i, fold_name = n, fold_display = dn, fold_total = t, fold_unread = u, fold_icon = ic\<rparr> # fs, k2))"

definition list_folders :: "maildir_service \<Rightarrow> string \<Rightarrow> disk \<Rightarrow> mail_folder list result \<times> disk" where
  "list_folders s email k =
     (case get_maildir_path s email of
        Inl e \<Rightarrow> (Inl e, k)
      | Inr md \<Rightarrow> (let (fs, k1) = count_folders md standard_defs (ensure_folders md k) in (Inr fs, k1)))"

section \<open>Messages\<close>

text \<open>
  The file of a message identifier: the identifier is unescaped twice and cut to its base
  name; a file of that very name wins, then the first whose name begins with the identifier
  without its flags and sizes.
\<close>

definition unescape_id :: "string \<Rightarrow> string" where
  "unescape_id i =
     (let i1 = (case url_unescape False i of Some u \<Rightarrow> u | None \<Rightarrow> i)
      in case url_unescape True i1 of Some u \<Rightarrow> u | None \<Rightarrow> i1)"

definition base_key :: "string \<Rightarrow> string" where
  "base_key c = cut_at '':'' (cut_at '',U='' (cut_at '':2,'' c))"

definition name_matches :: "string \<Rightarrow> string \<Rightarrow> bool" where
  "name_matches c n \<longleftrightarrow> n = c \<or> n = base_key c \<or> has_prefix n (base_key c)"

fun find_in_subs :: "path \<Rightarrow> string \<Rightarrow> string list \<Rightarrow> disk \<Rightarrow> (path \<times> string) result \<times> disk" where
  "find_in_subs d c [] k = (Inl (Msg ''message not found''), k)"
| "find_in_subs d c (w # ws) k =
     (let sub = path_join d [w];
          p = path_join sub [c]
      in case os_stat p k of
          (Inr nd, k1) \<Rightarrow> (Inr (p, w), k1)
        | (Inl e, k1) \<Rightarrow>
            (case os_read_dir sub k1 of
               (Inl e', k2) \<Rightarrow> find_in_subs d c ws k2
             | (Inr es, k2) \<Rightarrow>
                 (case find (\<lambda>e. name_matches c (fst e)) es of
                    Some e \<Rightarrow> (Inr (path_join sub [fst e], w), k2)
                  | None \<Rightarrow> find_in_subs d c ws k2)))"

definition find_message_file :: "path \<Rightarrow> string \<Rightarrow> disk \<Rightarrow> (path \<times> string) result \<times> disk" where
  "find_message_file d i = find_in_subs d (base_name (unescape_id i)) [''cur'', ''new'']"

text \<open>The directory of a folder and the file of a message in it, as every operation begins.\<close>

definition locate :: "path \<Rightarrow> string \<Rightarrow> string \<Rightarrow> disk \<Rightarrow> (path \<times> path \<times> string) result \<times> disk" where
  "locate md folder i k =
     (case get_folder_dir md folder k of
        (Inl e, k1) \<Rightarrow> (Inl e, k1)
      | (Inr d, k1) \<Rightarrow>
          (case find_message_file d i k1 of
             (Inl e, k2) \<Rightarrow> (Inl e, k2)
           | (Inr (p, w), k2) \<Rightarrow> (Inr (d, p, w), k2)))"

definition mark_message_read ::
    "maildir_service \<Rightarrow> string \<Rightarrow> string \<Rightarrow> string \<Rightarrow> bool \<Rightarrow> disk \<Rightarrow> unit result \<times> disk" where
  "mark_message_read s email folder i rd k =
     (case get_maildir_path s email of
        Inl e \<Rightarrow> (Inl e, k)
      | Inr md \<Rightarrow>
          (case locate md folder i k of
             (Inl e, k1) \<Rightarrow> (Inl e, k1)
           | (Inr (d, p, w), k1) \<Rightarrow>
               (let q = path_join (path_join d [''cur'']) [cut_at '':2,'' (path_base p) @ (if rd then '':2,S'' else '':2,'')]
                in (Inr (), if p \<noteq> q then snd (os_move p q k1) else k1))))"

definition move_message ::
    "maildir_service \<Rightarrow> string \<Rightarrow> string \<Rightarrow> string \<Rightarrow> string \<Rightarrow> disk \<Rightarrow> unit result \<times> disk" where
  "move_message s email src dst i k =
     (case get_maildir_path s email of
        Inl e \<Rightarrow> (Inl e, k)
      | Inr md \<Rightarrow>
          (case get_folder_dir md src k of
             (Inl e, k1) \<Rightarrow> (Inl e, k1)
           | (Inr sd, k1) \<Rightarrow>
               (case get_folder_dir md dst k1 of
                  (Inl e, k2) \<Rightarrow> (Inl e, k2)
                | (Inr dd, k2) \<Rightarrow>
                    (case find_message_file sd i k2 of
                       (Inl e, k3) \<Rightarrow> (Inl e, k3)
                     | (Inr (p, w), k3) \<Rightarrow>
                         (let cur = path_join dd [''cur'']; k4 = snd (os_mkdir_all 488 cur k3)
                          in os_move p (path_join cur [path_base p]) k4)))))"

definition delete_message ::
    "maildir_service \<Rightarrow> string \<Rightarrow> string \<Rightarrow> string \<Rightarrow> disk \<Rightarrow> unit result \<times> disk" where
  "delete_message s email folder i k =
     (case get_maildir_path s email of
        Inl e \<Rightarrow> (Inl e, k)
      | Inr md \<Rightarrow>
          (if equal_fold folder ''trash'' \<or> equal_fold folder ''.trash'' then
             (case locate md folder i k of
                (Inl e, k1) \<Rightarrow> (Inl e, k1)
              | (Inr (d, p, w), k1) \<Rightarrow> os_remove p k1)
           else move_message s email folder ''trash'' i k))"

end
