(* ===== verification/Webmail_Confined.thy ===== *)
theory Webmail_Confined
  imports Webmail_Store
begin

text \<open>
  The operations of the webmail stay in the Maildir of their address: whatever the names of
  folders and messages are, no file outside it changes.
\<close>

section \<open>Where the paths lead\<close>

lemma separators_iff: "\<not> contains_any w separators \<Longrightarrow> CHR ''/'' \<notin> set w"
  by (simp add: contains_any_def separators_def list_ex_iff) blast

lemma no_dots: "\<not> contains w ''..'' \<Longrightarrow> w \<noteq> ''..''"
  using contains_iff [of w "''..''"] by (metis append_Nil append_Nil2)

lemma maildir_parts:
  assumes "get_maildir_path s email = Inr md"
  obtains l d where
    "str_split CHR ''@'' (trim_space (to_lower email)) = [l, d]" "l \<noteq> []" "d \<noteq> []"
    "CHR ''/'' \<notin> set l" "CHR ''/'' \<notin> set d" "l \<noteq> ''..''" "d \<noteq> ''..''"
    "md = path_join (vmail_root s) [d, l, ''Maildir'']"
proof -
  obtain l d where sp: "str_split CHR ''@'' (trim_space (to_lower email)) = [l, d]"
    using assms by (auto simp: get_maildir_path_def split: list.splits)
  have g: "l \<noteq> []" "d \<noteq> []" "\<not> contains l ''..''" "\<not> contains d ''..''"
      "\<not> contains_any l separators" "\<not> contains_any d separators"
      "md = path_join (vmail_root s) [d, l, ''Maildir'']"
    using assms by (simp_all add: get_maildir_path_def sp split: if_splits)
  show ?thesis
    by (rule that [OF sp g(1) g(2) separators_iff [OF g(5)] separators_iff [OF g(6)]
        no_dots [OF g(3)] no_dots [OF g(4)] g(7)])
qed

text \<open>A Maildir is the root, names without a capital letter, and \<open>Maildir\<close>.\<close>

lemma to_lower_maildir: "\<forall>c\<in>set w. \<not> is_upper c \<Longrightarrow> w \<noteq> ''Maildir''"
  by (auto simp: is_upper_def byte_def)

lemma maildir_shape:
  assumes "get_maildir_path s email = Inr md"
  obtains xs where "md = vmail_root s @ xs @ [''Maildir'']" "''Maildir'' \<notin> set xs"
proof -
  obtain l d where
    p: "str_split CHR ''@'' (trim_space (to_lower email)) = [l, d]" "l \<noteq> []" "d \<noteq> []"
    "CHR ''/'' \<notin> set l" "CHR ''/'' \<notin> set d" "l \<noteq> ''..''" "d \<noteq> ''..''"
    "md = path_join (vmail_root s) [d, l, ''Maildir'']"
    by (rule maildir_parts [OF assms])
  have low: "\<forall>c\<in>set w. \<not> is_upper c" if "w \<in> set [l, d]" for w
  proof
    fix c assume "c \<in> set w"
    with that p(1) split_parts [of w "CHR ''@''" "trim_space (to_lower email)" c]
    have "c \<in> set (trim_space (to_lower email))" by auto
    then have "c \<in> set (to_lower email)" using set_trim_space by blast
    then show "\<not> is_upper c" by simp
  qed
  have l: "l \<noteq> ''Maildir''" by (rule to_lower_maildir [OF low]) simp
  have d: "d \<noteq> ''Maildir''" by (rule to_lower_maildir [OF low]) simp
  define xs where "xs = filter (\<lambda>w. w \<noteq> ''.'') [d, l]"
  have sp: "str_split CHR ''/'' d = [d]" "str_split CHR ''/'' l = [l]" "str_split CHR ''/'' ''Maildir'' = [''Maildir'']"
    using p(4,5) by (simp_all add: split_no_sep)
  have "md = vmail_root s @ xs @ [''Maildir'']"
    unfolding p(8) path_join_def xs_def using p(2,3,6,7)
    by (simp add: sp clean_step_def)
  moreover have "''Maildir'' \<notin> set xs"
    using l d unfolding xs_def by auto
  ultimately show ?thesis by (rule that)
qed

lemma before_first_unique: "xs @ m # u = ys @ m # v \<Longrightarrow> m \<notin> set xs \<Longrightarrow> m \<notin> set ys \<Longrightarrow> xs = ys"
proof (induction xs arbitrary: ys)
  case Nil
  then show ?case by (cases ys) auto
next
  case (Cons x xs)
  then show ?case by (cases ys) auto
qed

text \<open>Two Maildirs are the same or disjoint.\<close>

lemma maildirs_disjoint:
  assumes "get_maildir_path s a = Inr p" and "get_maildir_path s b = Inr q" and "p \<noteq> q" and "below q x"
  shows "\<not> below p x"
proof
  assume "below p x"
  obtain xs where xs: "p = vmail_root s @ xs @ [''Maildir'']" "''Maildir'' \<notin> set xs"
    by (rule maildir_shape [OF assms(1)])
  obtain ys where ys: "q = vmail_root s @ ys @ [''Maildir'']" "''Maildir'' \<notin> set ys"
    by (rule maildir_shape [OF assms(2)])
  obtain u where "x = p @ u" using \<open>below p x\<close> unfolding below_iff by blast
  moreover obtain v where "x = q @ v" using assms(4) unfolding below_iff by blast
  ultimately
  have "xs @ ''Maildir'' # u = ys @ ''Maildir'' # v" by (simp add: xs ys)
  then have "xs = ys" using xs(2) ys(2) by (rule before_first_unique)
  then show False using assms(3) by (simp add: xs ys)
qed

lemma maildir_plain:
  "get_maildir_path s email = Inr md \<Longrightarrow> list_all plain (vmail_root s) \<Longrightarrow> list_all plain md"
  by (erule maildir_parts) (simp add: plain_path_join)

lemma standard_names_plain: "map_of standard_names f = Some d \<Longrightarrow> plain d"
proof -
  have "list_all (\<lambda>(f, d). plain d) standard_names"
    unfolding standard_names_def plain_def by simp
  then show "map_of standard_names f = Some d \<Longrightarrow> plain d"
    using map_of_SomeD by (fastforce simp: list_all_iff)
qed

text \<open>The directory of a folder is the Maildir or just below it.\<close>

lemma lookup_folder_below:
  assumes "lookup_folder md name k = (r, k')" and "plain_names (files k)"
  shows "files k' = files k \<and> (\<forall>d. r = Inr d \<longrightarrow> d = md \<or> (\<exists>w. plain w \<and> d = md @ [w]))"
proof -
  obtain r0 k0 where rd: "os_read_dir md k = (r0, k0)" by (cases "os_read_dir md k")
  have fk: "files k0 = files k" using rd by (metis files_dtick(1) snd_conv snd_os_reads(3))
  define hit where "hit = (case r0 of Inr es \<Rightarrow> find (\<lambda>e. node_is_dir (snd e) \<and> equal_fold (fst e) name) es | Inl e \<Rightarrow> None)"
  have res: "(r, k') = (case hit of Some e \<Rightarrow> (Inr (path_join md [fst e]), k0)
      | None \<Rightarrow> (if contains (clean_rel name) ''..'' \<or> contains_any (clean_rel name) separators
                 then (Inl (Msg ''invalid folder name''), k0) else (Inr (path_join md [clean_rel name]), k0)))"
    using assms(1) by (simp only: lookup_folder_def Let_def rd hit_def prod.case)
  show ?thesis
  proof (cases hit)
    case None
    have "path_join md [clean_rel name] = md \<or> (\<exists>w. plain w \<and> path_join md [clean_rel name] = md @ [w])"
      if "\<not> contains (clean_rel name) ''..''" "\<not> contains_any (clean_rel name) separators"
      using clean_rel_word [OF separators_iff [OF that(2)] that(1)]
    proof
      assume "clean_rel name = ''.''"
      then show ?thesis by (simp add: path_join_word clean_step_def)
    next
      assume "plain (clean_rel name)"
      then show ?thesis using path_join_snoc by blast
    qed
    then show ?thesis using res None fk by (auto split: if_splits)
  next
    case (Some e)
    obtain es where es: "r0 = Inr es" "e \<in> set es"
      using Some by (auto simp: hit_def split: sum.splits dest: find_SomeD)
    have "es = fs_entries (files k) md"
      using rd es(1) by (auto simp: os_simps split: if_splits option.splits node.splits)
    then have "plain (fst e)" using es(2) plain_entry [of "files k" "fst e" "snd e"] assms(2) by simp
    then show ?thesis using res Some fk path_join_snoc [of "fst e" md] by auto
  qed
qed

lemma folder_dir_below:
  assumes "get_folder_dir md folder k = (r, k')" and "plain_names (files k)"
  shows "files k' = files k \<and> (\<forall>d. r = Inr d \<longrightarrow> d = md \<or> (\<exists>w. plain w \<and> d = md @ [w]))"
proof (cases "trim_space folder = [] \<or> equal_fold (trim_space folder) ''inbox''")
  case True
  then show ?thesis using assms(1) by (auto simp: get_folder_dir_def Let_def)
next
  case inbox: False
  show ?thesis
  proof (cases "map_of standard_names (to_lower (trim_space folder))")
    case (Some d)
    then show ?thesis
      using assms(1) inbox standard_names_plain [OF Some] path_join_snoc [of d md]
      by (auto simp: get_folder_dir_def Let_def)
  next
    case None
    then have "lookup_folder md (if has_prefix (trim_space folder) ''.'' then trim_space folder
        else ''.'' @ trim_space folder) k = (r, k')"
      using assms(1) inbox by (simp only: get_folder_dir_def Let_def option.case if_False)
    then show ?thesis by (rule lookup_folder_below [OF _ assms(2)])
  qed
qed

text \<open>The file of a message is in the folder.\<close>

lemma join_id_below:
  assumes "CHR ''/'' \<in> set c \<longrightarrow> c = ''/''"
  shows "below d (path_join (d @ [w]) [c])"
proof (cases "c = ''/''")
  case True
  have "str_split CHR ''/'' ''/'' = [[], []]" by (simp add: str_split_def)
  then show ?thesis using True by (simp add: path_join_def clean_step_def)
next
  case False
  then have "CHR ''/'' \<notin> set c" using assms by blast
  then show ?thesis by (simp add: path_join_word clean_step_def)
qed

lemma find_in_subs_below:
  assumes "find_in_subs d c ws k = (r, k')" and "plain_names (files k)" and "list_all plain ws"
    and "CHR ''/'' \<in> set c \<longrightarrow> c = ''/''"
  shows "files k' = files k \<and> (\<forall>p w. r = Inr (p, w) \<longrightarrow> below d p \<and> (list_all plain d \<longrightarrow> list_all plain p))"
  using assms(1-3)
proof (induction ws arbitrary: k)
  case Nil
  then show ?case by auto
next
  case (Cons w ws)
  have sub: "path_join d [w] = d @ [w]" using Cons.prems(3) by (simp add: path_join_snoc)
  obtain r1 k1 where st: "os_stat (path_join (d @ [w]) [c]) k = (r1, k1)"
    by (cases "os_stat (path_join (d @ [w]) [c]) k")
  have f1: "files k1 = files k" using st by (metis files_dtick(1) snd_conv snd_os_reads(1))
  show ?case
  proof (cases r1)
    case (Inr nd)
    then show ?thesis using Cons.prems(1) st f1 join_id_below [OF assms(4), of d w] Cons.prems(3)
      by (auto simp: sub plain_path_join)
  next
    case (Inl e)
    obtain r2 k2 where rd: "os_read_dir (d @ [w]) k1 = (r2, k2)" by (cases "os_read_dir (d @ [w]) k1")
    have f2: "files k2 = files k" using rd f1 by (metis files_dtick(1) snd_conv snd_os_reads(3))
    have next': "find_in_subs d c ws k2 = (r, k') \<Longrightarrow> ?thesis"
      using Cons.IH [of k2] Cons.prems(2,3) f2 by simp
    show ?thesis
    proof (cases r2)
      case (Inl e')
      then show ?thesis using Cons.prems(1) st \<open>r1 = Inl e\<close> rd next' by (simp add: sub)
    next
      case (Inr es)
      show ?thesis
      proof (cases "find (\<lambda>e. name_matches c (fst e)) es")
        case None
        then show ?thesis using Cons.prems(1) st \<open>r1 = Inl e\<close> rd Inr next' by (simp add: sub)
      next
        case (Some h)
        have "es = fs_entries (files k1) (d @ [w])"
          using rd Inr by (auto simp: os_simps split: if_splits option.splits node.splits)
        then have "plain (fst h)"
          using Some plain_entry [of "files k1" "fst h" "snd h"] Cons.prems(2) f1 by (auto dest: find_SomeD)
        then have "below d (path_join (d @ [w]) [fst h])" by (simp add: path_join_snoc below_iff)
        then show ?thesis using Cons.prems st \<open>r1 = Inl e\<close> rd Inr Some f2 by (auto simp: sub plain_path_join)
      qed
    qed
  qed
qed

lemma find_message_below:
  assumes "find_message_file d i k = (r, k')" and "plain_names (files k)"
  shows "files k' = files k \<and> (\<forall>p w. r = Inr (p, w) \<longrightarrow> below d p \<and> (list_all plain d \<longrightarrow> list_all plain p))"
proof -
  have ws: "list_all plain [''cur'', ''new'']" by (simp add: plain_def)
  have "CHR ''/'' \<in> set (base_name (unescape_id i)) \<longrightarrow> base_name (unescape_id i) = ''/''"
    using base_name_word by blast
  from find_in_subs_below [OF assms(1) [unfolded find_message_file_def] assms(2) ws this]
  show ?thesis .
qed

section \<open>What the operations change\<close>

text \<open>
  From one disk to another no file outside the directory changed, and the names stayed plain.
\<close>

definition keeps_outside :: "path \<Rightarrow> disk \<Rightarrow> disk \<Rightarrow> bool" where
  "keeps_outside md k k' \<longleftrightarrow>
     (\<forall>x. \<not> below md x \<longrightarrow> fbytes k' x = fbytes k x) \<and>
     (plain_names (files k) \<longrightarrow> plain_names (files k'))"

lemma keeps_outside_refl [simp]: "keeps_outside md k k"
  by (simp add: keeps_outside_def)

lemma keeps_outside_trans: "keeps_outside md a b \<Longrightarrow> keeps_outside md b c \<Longrightarrow> keeps_outside md a c"
  by (simp add: keeps_outside_def)

lemma keeps_outside_same: "files k' = files k \<Longrightarrow> keeps_outside md k k'"
  by (simp add: keeps_outside_def fbytes_def)

lemma below_outside: "below md p \<Longrightarrow> \<not> below md x \<Longrightarrow> \<not> below p x"
  using below_trans by blast

lemma keeps_outside_mkdir:
  assumes "list_all plain p"
  shows "keeps_outside md k (snd (os_mkdir_all m p k))"
proof -
  have "plain_names (files k) \<Longrightarrow> plain_names (files (snd (os_mkdir_all m p k)))"
    using assms by (auto simp: os_simps plain_mkdir_all split: option.splits)
  moreover have "fbytes (snd (os_mkdir_all m p k)) = fbytes k"
    by (rule fbytes_mkdir_all [of m p k "fst (os_mkdir_all m p k)"]) simp
  ultimately show ?thesis by (simp add: keeps_outside_def)
qed

lemma keeps_outside_move:
  assumes "below md p" and "below md q" and "list_all plain q"
  shows "keeps_outside md k (snd (os_move p q k))"
  unfolding keeps_outside_def
proof (intro conjI allI impI)
  fix x assume x: "\<not> below md x"
  show "fbytes (snd (os_move p q k)) x = fbytes k x"
    by (rule fbytes_move [OF below_outside [OF assms(1) x] below_outside [OF assms(2) x], of k "fst (os_move p q k)"]) simp
next
  assume "plain_names (files k)"
  then show "plain_names (files (snd (os_move p q k)))"
    using assms(3) by (auto simp: os_move_def os_call_def plain_put plain_move_tree
        split: option.splits node.splits)
qed

lemma keeps_outside_remove:
  assumes "below md p"
  shows "keeps_outside md k (snd (os_remove p k))"
  unfolding keeps_outside_def
proof (intro conjI allI impI)
  fix x assume "\<not> below md x"
  then have "x \<noteq> p" using assms by blast
  then show "fbytes (snd (os_remove p k)) x = fbytes k x" by (simp add: fbytes_def os_remove_frame)
next
  assume "plain_names (files k)"
  then show "plain_names (files (snd (os_remove p k)))" by (auto simp: os_simps split: option.splits)
qed

lemma keeps_outside_write:
  assumes "below md p" and "list_all plain p"
  shows "keeps_outside md k (snd (os_write_file p c m k))"
  unfolding keeps_outside_def
proof (intro conjI allI impI)
  fix x assume "\<not> below md x"
  then have "x \<noteq> p" using assms by blast
  then show "fbytes (snd (os_write_file p c m k)) x = fbytes k x" by (simp add: fbytes_def os_write_file_frame)
next
  assume "plain_names (files k)"
  then show "plain_names (files (snd (os_write_file p c m k)))"
    using assms(2) by (auto simp: os_simps plain_put split: option.splits node.splits)
qed

lemma keeps_outside_make_dirs: "\<forall>p\<in>set ps. list_all plain p \<Longrightarrow> keeps_outside md k (make_dirs ps k)"
  unfolding make_dirs_def
proof (induction ps arbitrary: k)
  case (Cons p ps)
  have "keeps_outside md k (snd (os_mkdir_all 488 p k))" by (rule keeps_outside_mkdir) (simp add: Cons.prems)
  moreover have "keeps_outside md (snd (os_mkdir_all 488 p k))
      (foldl (\<lambda>k p. snd (os_mkdir_all 488 p k)) (snd (os_mkdir_all 488 p k)) ps)"
    by (rule Cons.IH) (simp add: Cons.prems)
  ultimately show ?case unfolding foldl_Cons by (rule keeps_outside_trans)
qed simp

lemma keeps_outside_ensure: "list_all plain md \<Longrightarrow> keeps_outside md k (ensure_folders md k)"
  unfolding ensure_folders_def by (rule keeps_outside_make_dirs) (auto simp: plain_path_join)

lemma files_count_subs: "files (snd (count_subs d ws c k)) = files k"
proof (induction ws arbitrary: c k)
  case (Cons w ws)
  obtain r k1 where rd: "os_read_dir (path_join d [w]) k = (r, k1)" by (cases "os_read_dir (path_join d [w]) k")
  have "files k1 = files k" using rd by (metis files_dtick(1) snd_conv snd_os_reads(3))
  with Cons.IH show ?case by (simp only: count_subs.simps rd Let_def prod.case)
qed simp

lemma files_count_folders: "files (snd (count_folders md defs k)) = files k"
proof (induction defs arbitrary: k)
  case (Cons x defs)
  obtain i n dn d ic where x: "x = (i, n, dn, d, ic)" by (cases x)
  obtain t u k1 where c: "count_maildir (path_join md [d]) k = ((t, u), k1)"
    by (metis surj_pair)
  obtain fs k2 where f: "count_folders md defs k1 = (fs, k2)" by (cases "count_folders md defs k1")
  have "files k1 = files k" using files_count_subs c by (metis count_maildir_def snd_conv)
  moreover have "files k2 = files k1" using Cons.IH [of k1] f by simp
  ultimately show ?case by (simp add: x c f)
qed simp

text \<open>One lemma per operation.\<close>

lemma list_folders_outside:
  assumes "get_maildir_path s email = Inr md" and "list_all plain (vmail_root s)"
  shows "keeps_outside md k (snd (list_folders s email k))"
proof -
  have "snd (list_folders s email k) = snd (count_folders md standard_defs (ensure_folders md k))"
    using assms(1) by (simp add: list_folders_def split: prod.splits)
  moreover have "keeps_outside md (ensure_folders md k) (snd (count_folders md standard_defs (ensure_folders md k)))"
    by (rule keeps_outside_same) (rule files_count_folders)
  ultimately show ?thesis
    using keeps_outside_trans [OF keeps_outside_ensure [OF maildir_plain [OF assms]]] by simp
qed

lemma folder_dir_in:
  assumes "get_folder_dir md folder k = (r, k')" and "plain_names (files k)" and "list_all plain md"
  shows "files k' = files k \<and> (\<forall>d. r = Inr d \<longrightarrow> below md d \<and> list_all plain d)"
  using folder_dir_below [OF assms(1,2)] assms(3) by (auto simp: below_iff)

lemma locate_below:
  assumes "locate md folder i k = (r, k')" and "plain_names (files k)" and "list_all plain md"
  shows "files k' = files k \<and>
    (\<forall>d p w. r = Inr (d, p, w) \<longrightarrow> below md d \<and> below md p \<and> list_all plain d \<and> list_all plain p)"
proof -
  obtain r1 k1 where gf: "get_folder_dir md folder k = (r1, k1)" by (cases "get_folder_dir md folder k")
  note g = folder_dir_in [OF gf assms(2,3)]
  show ?thesis
  proof (cases r1)
    case (Inl e)
    then show ?thesis using assms(1) g by (auto simp: locate_def gf)
  next
    case (Inr d)
    obtain r2 k2 where fm: "find_message_file d i k1 = (r2, k2)" by (cases "find_message_file d i k1")
    have "plain_names (files k1)" using g assms(2) by simp
    note f = find_message_below [OF fm this]
    have d: "below md d" "list_all plain d" using g Inr by auto
    have res: "(r, k') = (case r2 of Inl e \<Rightarrow> (Inl e, k2) | Inr (p, w) \<Rightarrow> (Inr (d, p, w), k2))"
      using assms(1) by (auto simp: locate_def gf Inr fm split: sum.splits)
    show ?thesis
      using res f g d below_trans [of md d] by (cases r2) auto
  qed
qed

text \<open>The names that files are given are plain: the one they had, without or with flags.\<close>

lemma plain_base: "list_all plain p \<Longrightarrow> p \<noteq> [] \<Longrightarrow> plain (path_base p)"
  by (cases p rule: rev_cases) auto

lemma maildir_not_root: "get_maildir_path s email = Inr md \<Longrightarrow> below md p \<Longrightarrow> p \<noteq> []"
  by (erule maildir_shape) (auto simp: below_iff)

lemma set_cut_at: "set (cut_at m s) \<subseteq> set s"
  by (auto simp: cut_at_def dest: in_set_takeD split: option.splits)

lemma flagged_plain:
  assumes "plain w" and "fl = '':2,S'' \<or> fl = '':2,''"
  shows "plain (cut_at '':2,'' w @ fl)"
proof -
  have "CHR ''/'' \<notin> set (cut_at '':2,'' w)" using assms set_cut_at by (auto simp: plain_def)
  moreover have colon: "CHR '':'' \<in> set (cut_at '':2,'' w @ fl)" using assms(2) by auto
  have "cut_at '':2,'' w @ fl \<noteq> ''.''" using colon by (intro notI) simp
  moreover have "cut_at '':2,'' w @ fl \<noteq> ''..''" using colon by (intro notI) simp
  ultimately show ?thesis using assms(2) by (auto simp: plain_def)
qed

lemma mark_message_outside:
  assumes "get_maildir_path s email = Inr md" and "list_all plain (vmail_root s)" and "plain_names (files k)"
  shows "keeps_outside md k (snd (mark_message_read s email folder i rd k))"
proof -
  note md = maildir_plain [OF assms(1,2)]
  obtain r1 k1 where lo: "locate md folder i k = (r1, k1)" by (cases "locate md folder i k")
  note l = locate_below [OF lo assms(3) md]
  have k1: "keeps_outside md k k1" using l by (simp add: keeps_outside_same)
  show ?thesis
  proof (cases r1)
    case (Inl e)
    then show ?thesis using k1 by (simp add: mark_message_read_def assms(1) lo)
  next
    case (Inr v)
    obtain d p w where v: "v = (d, p, w)" by (cases v)
    have d: "below md d" "below md p" "list_all plain d" "list_all plain p" using l Inr v by auto
    define fl where "fl = (if rd then '':2,S'' else '':2,'')"
    have "plain (path_base p)" using d(2,4) maildir_not_root [OF assms(1)] plain_base by blast
    then have "plain (cut_at '':2,'' (path_base p) @ fl)"
      by (rule flagged_plain) (simp add: fl_def)
    moreover have "plain ''cur''" by (simp add: plain_def)
    ultimately have q: "path_join (path_join d [''cur'']) [cut_at '':2,'' (path_base p) @ fl] =
        d @ [''cur'', cut_at '':2,'' (path_base p) @ fl]"
      and pq: "list_all plain (d @ [''cur'', cut_at '':2,'' (path_base p) @ fl])"
      using d(3) by (simp_all add: path_join_snoc)
    have "below md (d @ [''cur'', cut_at '':2,'' (path_base p) @ fl])"
      using d(1) by (auto simp: below_iff)
    from keeps_outside_trans [OF k1 keeps_outside_move [OF d(2) this pq]] k1
    show ?thesis unfolding mark_message_read_def
      by (simp add: assms(1) lo Inr v Let_def q flip: fl_def)
  qed
qed

lemma move_message_outside:
  assumes "get_maildir_path s email = Inr md" and "list_all plain (vmail_root s)" and "plain_names (files k)"
  shows "keeps_outside md k (snd (move_message s email src dst i k))"
proof -
  note md = maildir_plain [OF assms(1,2)]
  obtain r1 k1 where g1: "get_folder_dir md src k = (r1, k1)" by (cases "get_folder_dir md src k")
  note a = folder_dir_in [OF g1 assms(3) md]
  have p1: "plain_names (files k1)" using a assms(3) by simp
  obtain r2 k2 where g2: "get_folder_dir md dst k1 = (r2, k2)" by (cases "get_folder_dir md dst k1")
  note b = folder_dir_in [OF g2 p1 md]
  have p2: "plain_names (files k2)" using b p1 by simp
  have k2: "keeps_outside md k k1" "keeps_outside md k k2" using a b by (simp_all add: keeps_outside_same)
  show ?thesis
  proof (cases "\<exists>sd dd. r1 = Inr sd \<and> r2 = Inr dd")
    case False
    then show ?thesis using k2 by (cases r1; cases r2) (auto simp: move_message_def assms(1) g1 g2)
  next
    case True
    then obtain sd dd where r: "r1 = Inr sd" "r2 = Inr dd" by blast
    obtain r3 k3 where fm: "find_message_file sd i k2 = (r3, k3)" by (cases "find_message_file sd i k2")
    note c = find_message_below [OF fm p2]
    have k3: "keeps_outside md k k3" using keeps_outside_trans [OF k2(2)] c by (simp add: keeps_outside_same)
    show ?thesis
    proof (cases r3)
      case (Inl e)
      then show ?thesis using k3 by (simp add: move_message_def assms(1) g1 g2 r fm)
    next
      case (Inr v)
      obtain p w where v: "v = (p, w)" by (cases v)
      have p: "below md p" "list_all plain p" using c Inr v r a below_trans by auto
      have d: "below md dd" "list_all plain dd" using r b by auto
      have cur: "path_join dd [''cur''] = dd @ [''cur'']" by (simp add: path_join_snoc plain_def)
      have pc: "list_all plain (dd @ [''cur''])" using d by (simp add: plain_def)
      have base: "plain (path_base p)" using p maildir_not_root [OF assms(1)] plain_base by blast
      have q: "path_join (dd @ [''cur'']) [path_base p] = (dd @ [''cur'']) @ [path_base p]"
        by (rule path_join_snoc [OF base])
      have "below md ((dd @ [''cur'']) @ [path_base p])" "list_all plain ((dd @ [''cur'']) @ [path_base p])"
        using d pc base by (auto simp: below_iff)
      from keeps_outside_trans [OF k3 keeps_outside_trans [OF keeps_outside_mkdir [OF pc]
          keeps_outside_move [OF p(1) this]]]
      show ?thesis by (simp only: move_message_def assms(1) g1 g2 r fm Inr v cur q Let_def sum.case prod.case)
    qed
  qed
qed

lemma delete_message_outside:
  assumes "get_maildir_path s email = Inr md" and "list_all plain (vmail_root s)" and "plain_names (files k)"
  shows "keeps_outside md k (snd (delete_message s email folder i k))"
proof (cases "equal_fold folder ''trash'' \<or> equal_fold folder ''.trash''")
  case False
  then show ?thesis using move_message_outside [OF assms] by (simp add: delete_message_def assms(1))
next
  case True
  obtain r1 k1 where lo: "locate md folder i k = (r1, k1)" by (cases "locate md folder i k")
  note l = locate_below [OF lo assms(3) maildir_plain [OF assms(1,2)]]
  have k1: "keeps_outside md k k1" using l by (simp add: keeps_outside_same)
  have D: "delete_message s email folder i k =
      (case r1 of Inl e \<Rightarrow> (Inl e, k1) | Inr (d, p, w) \<Rightarrow> os_remove p k1)"
    using True by (auto simp: delete_message_def assms(1) lo split: sum.splits)
  show ?thesis
  proof (cases r1)
    case (Inl e)
    then show ?thesis using k1 D by simp
  next
    case (Inr v)
    obtain d p w where v: "v = (d, p, w)" by (cases v)
    have "below md p" using l Inr v by auto
    from keeps_outside_trans [OF k1 keeps_outside_remove [OF this]] show ?thesis
      by (simp add: D Inr v)
  qed
qed

end
