(* ===== verification/Go_Base64.thy ===== *)
theory Go_Base64
  imports Go_Strings
begin

text \<open>
  \<open>encoding/base64\<close> without padding (\<open>RawStdEncoding\<close>): the encoder, the decoder as Go has
  it (carriage returns and newlines are skipped, the unused low bits of the last digit are
  not checked, a single left-over digit is an error), and the round trip.
\<close>

definition b64_alphabet :: string where
  "b64_alphabet = ''ABCDEFGHIJKLMNOPQRSTUVWXYZabcdefghijklmnopqrstuvwxyz0123456789+/''"

definition b64_char :: "nat \<Rightarrow> char" where
  "b64_char n = b64_alphabet ! n"

fun find_index :: "char \<Rightarrow> string \<Rightarrow> nat option" where
  "find_index c [] = None"
| "find_index c (x # xs) = (if x = c then Some 0 else map_option Suc (find_index c xs))"

definition b64_val :: "char \<Rightarrow> nat option" where
  "b64_val c = find_index c b64_alphabet"

fun b64_digits :: "nat list \<Rightarrow> nat list" where
  "b64_digits [] = []"
| "b64_digits [a] = [a div 4, a mod 4 * 16]"
| "b64_digits [a, b] = [a div 4, a mod 4 * 16 + b div 16, b mod 16 * 4]"
| "b64_digits (a # b # c # r) =
     [a div 4, a mod 4 * 16 + b div 16, b mod 16 * 4 + c div 64, c mod 64] @ b64_digits r"

fun b64_bytes :: "nat list \<Rightarrow> nat list option" where
  "b64_bytes [] = Some []"
| "b64_bytes [p] = None"
| "b64_bytes [p, q] = Some [p * 4 + q div 16]"
| "b64_bytes [p, q, r] = Some [p * 4 + q div 16, q mod 16 * 16 + r div 4]"
| "b64_bytes (p # q # r # t # ds) =
     map_option (\<lambda>bs. [p * 4 + q div 16, q mod 16 * 16 + r div 4, r mod 4 * 64 + t] @ bs)
       (b64_bytes ds)"

fun all_some :: "'a option list \<Rightarrow> 'a list option" where
  "all_some [] = Some []"
| "all_some (x # xs) =
     (case x of None \<Rightarrow> None | Some v \<Rightarrow> map_option (\<lambda>vs. v # vs) (all_some xs))"

definition b64_encode :: "string \<Rightarrow> string" where
  "b64_encode s = map b64_char (b64_digits (map byte s))"

definition b64_decode :: "string \<Rightarrow> string option" where
  "b64_decode s =
     (case all_some (map b64_val (filter (\<lambda>c. byte c \<noteq> 10 \<and> byte c \<noteq> 13) s)) of
        None \<Rightarrow> None
      | Some ds \<Rightarrow> map_option (map char_of) (b64_bytes ds))"

lemma length_b64_alphabet [simp]: "length b64_alphabet = 64"
  by (simp add: b64_alphabet_def)

lemma find_index_nth:
  "distinct s \<Longrightarrow> i < length s \<Longrightarrow> find_index (s ! i) s = Some i"
  by (induction s arbitrary: i) (auto simp: nth_Cons split: nat.splits)

lemma distinct_b64_alphabet: "distinct b64_alphabet"
  by (simp add: b64_alphabet_def)

lemma b64_val_char [simp]: "n < 64 \<Longrightarrow> b64_val (b64_char n) = Some n"
  by (simp add: b64_val_def b64_char_def find_index_nth distinct_b64_alphabet)

lemma b64_char_in_alphabet: "n < 64 \<Longrightarrow> b64_char n \<in> set b64_alphabet"
  by (simp add: b64_char_def)

lemma b64_digits_bound: "list_all (\<lambda>b. b < 256) bs \<Longrightarrow> list_all (\<lambda>d. d < 64) (b64_digits bs)"
  by (induction bs rule: b64_digits.induct) (simp_all, arith+)

lemma b64_bytes_digits: "list_all (\<lambda>b. b < 256) bs \<Longrightarrow> b64_bytes (b64_digits bs) = Some bs"
proof (induction bs rule: b64_digits.induct)
  case 1
  then show ?case by simp
next
  case (2 a)
  then show ?case by simp
next
  case (3 a b)
  then have "b < 256" by simp
  then show ?case by simp
next
  case (4 a b c r)
  then have b: "b < 256" "c < 256" by simp_all
  have "a div 4 * 4 + (a mod 4 * 16 + b div 16) div 16 = a" using b by simp
  moreover have "(a mod 4 * 16 + b div 16) mod 16 * 16 + (b mod 16 * 4 + c div 64) div 4 = b"
    using b by simp
  moreover have "(b mod 16 * 4 + c div 64) mod 4 * 64 + c mod 64 = c" using b by simp
  ultimately show ?case using 4 by simp
qed

lemma all_some_map: "list_all (\<lambda>x. f x = Some (g x)) xs \<Longrightarrow> all_some (map f xs) = Some (map g xs)"
  by (induction xs) auto

lemma b64_alphabet_no_newline: "c \<in> set b64_alphabet \<Longrightarrow> byte c \<noteq> 10 \<and> byte c \<noteq> 13 \<and> c \<noteq> CHR ''$''"
  by (auto simp: b64_alphabet_def byte_def)

lemma set_b64_encode: "set (b64_encode s) \<subseteq> set b64_alphabet"
proof -
  have "list_all (\<lambda>b. b < 256) (map byte s)" by (simp add: list_all_iff)
  from b64_digits_bound [OF this] show ?thesis
    by (auto simp: b64_encode_def list_all_iff intro: b64_char_in_alphabet)
qed

lemma b64_roundtrip [simp]: "b64_decode (b64_encode s) = Some s"
proof -
  have bytes: "list_all (\<lambda>b. b < 256) (map byte s)" by (simp add: list_all_iff)
  note bound = b64_digits_bound [OF this]
  have "filter (\<lambda>c. byte c \<noteq> 10 \<and> byte c \<noteq> 13) (b64_encode s) = b64_encode s"
    using set_b64_encode b64_alphabet_no_newline by (auto simp: filter_id_conv)
  moreover have "all_some (map b64_val (b64_encode s)) = Some (b64_digits (map byte s))"
    using bound all_some_map [of "b64_val \<circ> b64_char" id "b64_digits (map byte s)"]
    by (simp add: b64_encode_def list_all_iff)
  ultimately show ?thesis
    by (simp add: b64_decode_def b64_bytes_digits [OF bytes] comp_def)
qed

lemma dollar_notin_b64 [simp]: "CHR ''$'' \<notin> set (b64_encode s)"
  using set_b64_encode b64_alphabet_no_newline by blast

section \<open>With padding\<close>

text \<open>
  \<open>StdEncoding\<close>: the encoder fills the last group with \<open>=\<close>, the decoder asks for complete
  groups with at most two of them, at the end.
\<close>

definition b64std_encode :: "string \<Rightarrow> string" where
  "b64std_encode s = (let d = b64_encode s in d @ replicate ((4 - length d mod 4) mod 4) (CHR ''=''))"

definition b64std_decode :: "string \<Rightarrow> string option" where
  "b64std_decode s =
     (let t = filter (\<lambda>c. byte c \<noteq> 10 \<and> byte c \<noteq> 13) s;
          body = trim_right (\<lambda>c. c = CHR ''='') t
      in if length t mod 4 \<noteq> 0 \<or> 2 < length t - length body then None else b64_decode body)"

lemma length_b64_digits: "length (b64_digits bs) mod 4 \<noteq> 1"
  by (induction bs rule: b64_digits.induct) simp_all

lemma b64std_chars: "c \<in> set (b64std_encode s) \<Longrightarrow> c \<in> set b64_alphabet \<or> c = CHR ''=''"
  using set_b64_encode by (auto simp: b64std_encode_def Let_def)

lemma trim_right_replicate:
  "(s = [] \<or> \<not> P (last s)) \<Longrightarrow> P c \<Longrightarrow> trim_right P (s @ replicate n c) = s"
proof -
  assume a: "s = [] \<or> \<not> P (last s)" "P c"
  have "dropWhile P (replicate n c @ t) = dropWhile P t" for t
    using a(2) by (induction n) simp_all
  then have "trim_right P (s @ replicate n c) = trim_right P s"
    by (simp add: trim_right_def)
  with trim_right_id [of s P] a(1) show ?thesis by simp
qed

lemma b64std_roundtrip [simp]: "b64std_decode (b64std_encode s) = Some s"
proof -
  let ?d = "b64_encode s"
  let ?n = "(4 - length ?d mod 4) mod 4"
  have "length ?d mod 4 \<noteq> 1"
    using length_b64_digits by (simp add: b64_encode_def)
  moreover have "length ?d mod 4 < 4" by simp
  ultimately consider "length ?d mod 4 = 0" | "length ?d mod 4 = 2" | "length ?d mod 4 = 3"
    by linarith
  then have n: "?n \<le> 2" and "(length ?d mod 4 + ?n) mod 4 = 0" by (cases; simp)+
  then have m: "(length ?d + ?n) mod 4 = 0" by (simp only: mod_add_left_eq)
  have eq: "CHR ''='' \<notin> set ?d"
  proof
    assume "CHR ''='' \<in> set ?d"
    then have "CHR ''='' \<in> set b64_alphabet" using set_b64_encode by blast
    then show False by (simp add: b64_alphabet_def)
  qed
  have f: "filter (\<lambda>c. byte c \<noteq> 10 \<and> byte c \<noteq> 13) (b64std_encode s) = b64std_encode s"
    using b64std_chars b64_alphabet_no_newline by (fastforce simp: filter_id_conv byte_def)
  have "trim_right (\<lambda>c. c = CHR ''='') (b64std_encode s) = ?d"
    unfolding b64std_encode_def Let_def
    using eq last_in_set [of ?d] by (intro trim_right_replicate) fastforce+
  then show ?thesis
    unfolding b64std_decode_def f Let_def using n m by (simp add: b64std_encode_def Let_def)
qed

end
