(* ===== verification/Go_Numbers.thy ===== *)
theory Go_Numbers
  imports Complex_Main "HOL-Library.Log_Nat"
begin

text \<open>
  Machine arithmetic: the wrap-around of \<open>int64\<close> and the \<open>float64\<close> operations the
  program uses, that is conversion of an \<open>int64\<close>, multiplication and
  division. A value is the rational number it denotes; every operation is the exact one
  followed by \<open>fl\<close>, rounding to the nearest number with 53 significant bits, ties to even.
  All values of the program lie far inside the exponent range, so that no operation
  overflows or becomes subnormal. \<open>fl\<close> is monotone and keeps the numbers it can represent,
  which is what the components use.
\<close>

section \<open>Two's complement\<close>

definition wrap64 :: "int \<Rightarrow> int" where
  "wrap64 x = (x + 2 ^ 63) mod 2 ^ 64 - 2 ^ 63"

lemma wrap64_id: "- (2 ^ 63) \<le> x \<Longrightarrow> x < 2 ^ 63 \<Longrightarrow> wrap64 x = x"
  by (simp add: wrap64_def)

lemma wrap64_over: "2 ^ 63 \<le> x \<Longrightarrow> x < 2 ^ 64 \<Longrightarrow> wrap64 x = x - 2 ^ 64"
proof -
  assume a: "2 ^ 63 \<le> x" "x < 2 ^ 64"
  have "(x + 2 ^ 63) mod 2 ^ 64 = (x + 2 ^ 63 - 2 ^ 64) mod 2 ^ 64"
    by (rule minus_mod_self2 [symmetric])
  also have "\<dots> = x + 2 ^ 63 - 2 ^ 64" by (rule mod_pos_pos_trivial) (use a in simp_all)
  finally show ?thesis by (simp add: wrap64_def)
qed

section \<open>Rounding\<close>

definition pow2 :: "int \<Rightarrow> rat" where
  "pow2 e = (if 0 \<le> e then 2 ^ nat e else 1 / 2 ^ nat (- e))"

definition round_even :: "rat \<Rightarrow> int" where
  "round_even x =
     (let n = floor x; r = x - of_int n
      in if r < 1 / 2 \<or> (r = 1 / 2 \<and> even n) then n else n + 1)"

text \<open>The exponent of a positive number: \<open>2 ^ e \<le> x < 2 ^ (e + 1)\<close>.\<close>

definition binexp :: "rat \<Rightarrow> int" where
  "binexp x =
     (let (a, b) = quotient_of x; e = bitlen a - bitlen b
      in if pow2 e \<le> x then e else e - 1)"

definition fl_pos :: "rat \<Rightarrow> rat" where
  "fl_pos x = (let u = pow2 (binexp x - 52) in of_int (round_even (x / u)) * u)"

definition fl :: "rat \<Rightarrow> rat" where
  "fl x = (if x = 0 then 0 else if x < 0 then - fl_pos (- x) else fl_pos x)"

definition float_of_int :: "int \<Rightarrow> rat" where
  "float_of_int n = fl (of_int n)"

definition float_div :: "rat \<Rightarrow> rat \<Rightarrow> rat" where
  "float_div x y = fl (x / y)"

definition float_mul :: "rat \<Rightarrow> rat \<Rightarrow> rat" where
  "float_mul x y = fl (x * y)"

definition float_add :: "rat \<Rightarrow> rat \<Rightarrow> rat" where
  "float_add x y = fl (x + y)"

section \<open>Powers of two\<close>

lemma pow2_pos [simp]: "0 < pow2 e"
  by (simp add: pow2_def)

lemma pow2_powr: "real_of_rat (pow2 e) = 2 powr (real_of_int e)"
proof (cases "0 \<le> e")
  case True
  then show ?thesis
    by (simp add: pow2_def of_rat_power powr_realpow [symmetric])
next
  case False
  then have "real_of_rat (pow2 e) = 1 / 2 ^ nat (- e)"
    by (simp add: pow2_def of_rat_divide of_rat_power)
  also have "\<dots> = 2 powr (real_of_int e)"
    using False by (simp add: powr_realpow [symmetric] powr_minus_divide)
  finally show ?thesis .
qed

lemma pow2_add: "pow2 (a + b) = pow2 a * pow2 b"
proof -
  have "real_of_rat (pow2 (a + b)) = real_of_rat (pow2 a * pow2 b)"
    by (simp add: pow2_powr of_rat_mult powr_add)
  then show ?thesis by (simp only: of_rat_eq_iff)
qed

lemma pow2_le: "a \<le> b \<Longrightarrow> pow2 a \<le> pow2 b"
proof -
  assume "a \<le> b"
  then have "real_of_rat (pow2 a) \<le> real_of_rat (pow2 b)" by (simp add: pow2_powr)
  then show ?thesis by (simp only: of_rat_less_eq)
qed

lemma pow2_less_cancel: "pow2 a < pow2 b \<Longrightarrow> a < b"
  using pow2_le [of b a] by (meson leD leI)

lemma pow2_1 [simp]: "pow2 1 = 2" "pow2 0 = 1" "pow2 52 = 4503599627370496" "pow2 53 = 9007199254740992"
  by (simp_all add: pow2_def)

section \<open>The exponent\<close>

lemma bitlen_pos_bounds:
  assumes "0 < n"
  shows "pow2 (bitlen n - 1) \<le> of_int n" and "of_int n < pow2 (bitlen n)" and "1 \<le> bitlen n"
proof -
  from assms show one: "1 \<le> bitlen n" by (simp add: bitlen_alt_def)
  from bitlen_bounds [OF assms] have "2 ^ nat (bitlen n - 1) \<le> n" and "n < 2 ^ nat (bitlen n)" by auto
  then have "(of_int (2 ^ nat (bitlen n - 1)) :: rat) \<le> of_int n"
    and "(of_int n :: rat) < of_int (2 ^ nat (bitlen n))"
    by (simp_all only: of_int_le_iff of_int_less_iff)
  then show "pow2 (bitlen n - 1) \<le> of_int n" and "of_int n < pow2 (bitlen n)"
    using one by (simp_all add: pow2_def)
qed

lemma binexp_bounds:
  assumes "0 < x"
  shows "pow2 (binexp x) \<le> x" and "x < pow2 (binexp x + 1)"
proof -
  obtain a b where q: "quotient_of x = (a, b)" by (cases "quotient_of x")
  have b: "0 < b" by (rule quotient_of_denom_pos [OF q])
  have x: "x = of_int a / of_int b" by (rule quotient_of_div [OF q])
  with assms b have a: "0 < a"
    by (simp add: zero_less_divide_iff)
  note A = bitlen_pos_bounds [OF a] and B = bitlen_pos_bounds [OF b]
  let ?e = "bitlen a - bitlen b"
  have bp: "(0::rat) < of_int b" using b by simp
  have "pow2 (bitlen a - 1) = pow2 (?e - 1) * pow2 (bitlen b)"
    by (simp add: pow2_add [symmetric])
  then have "pow2 (?e - 1) * of_int b \<le> of_int a"
    using A(1) B(2) mult_left_mono [of "of_int b" "pow2 (bitlen b)" "pow2 (?e - 1)"]
      pow2_pos [of "?e - 1"] by linarith
  then have lo: "pow2 (?e - 1) \<le> x" using bp by (simp add: x pos_le_divide_eq)
  have "pow2 (bitlen a) = pow2 (?e + 1) * pow2 (bitlen b - 1)"
    by (simp add: pow2_add [symmetric])
  also have "\<dots> \<le> pow2 (?e + 1) * of_int b"
    using B(1) by (simp add: mult_left_mono less_imp_le)
  finally have "of_int a < pow2 (?e + 1) * of_int b" using A(2) by linarith
  then have hi: "x < pow2 (?e + 1)" using bp by (simp add: x pos_divide_less_eq)
  from lo hi show "pow2 (binexp x) \<le> x" and "x < pow2 (binexp x + 1)"
    by (auto simp: binexp_def q Let_def not_le add.commute)
qed

lemma binexp_mono: "0 < x \<Longrightarrow> x \<le> y \<Longrightarrow> binexp x \<le> binexp y"
  using pow2_less_cancel [of "binexp x" "binexp y + 1"] binexp_bounds [of x] binexp_bounds [of y]
  by linarith

section \<open>Rounding is monotone and keeps integers\<close>

lemma round_even_of_int [simp]: "round_even (of_int n) = n"
  by (simp add: round_even_def)

lemma round_even_mono:
  assumes "x \<le> y" shows "round_even x \<le> round_even y"
proof (cases "floor x = floor y")
  case True
  with assms show ?thesis by (auto simp: round_even_def Let_def)
next
  case False
  with assms have "floor x + 1 \<le> floor y"
    using floor_mono [of x y] by linarith
  moreover have "round_even x \<le> floor x + 1" "floor y \<le> round_even y"
    by (auto simp: round_even_def Let_def)
  ultimately show ?thesis by linarith
qed

lemma round_even_between:
  "of_int m \<le> x \<Longrightarrow> m \<le> round_even x" "x \<le> of_int m \<Longrightarrow> round_even x \<le> m"
  using round_even_mono [of "of_int m" x] round_even_mono [of x "of_int m"] by auto

lemma fl_pos_bounds:
  assumes "0 < x"
  shows "pow2 (binexp x) \<le> fl_pos x" and "fl_pos x \<le> pow2 (binexp x + 1)"
proof -
  let ?u = "pow2 (binexp x - 52)"
  have e: "pow2 (binexp x) = 2 ^ 52 * ?u" "pow2 (binexp x + 1) = 2 ^ 53 * ?u"
    using pow2_add [of 52 "binexp x - 52"] pow2_add [of 53 "binexp x - 52"]
    by (simp_all add: add.commute)
  have x: "of_int (2 ^ 52) \<le> x / ?u" "x / ?u \<le> of_int (2 ^ 53)"
    using binexp_bounds [OF assms] by (simp_all add: e pos_le_divide_eq pos_divide_le_eq)
  note r = round_even_between(1) [OF x(1)] round_even_between(2) [OF x(2)]
  have "(of_int (2 ^ 52) :: rat) \<le> of_int (round_even (x / ?u))"
    "(of_int (round_even (x / ?u)) :: rat) \<le> of_int (2 ^ 53)"
    using r by (simp_all only: of_int_le_iff)
  then show "pow2 (binexp x) \<le> fl_pos x" and "fl_pos x \<le> pow2 (binexp x + 1)"
    by (simp_all add: fl_pos_def Let_def e)
qed

lemma fl_pos_mono:
  assumes "0 < x" and "x \<le> y" shows "fl_pos x \<le> fl_pos y"
proof (cases "binexp x = binexp y")
  case True
  have "round_even (x / pow2 (binexp y - 52)) \<le> round_even (y / pow2 (binexp y - 52))"
    by (intro round_even_mono divide_right_mono assms(2)) (simp add: less_imp_le)
  then show ?thesis using True by (simp add: fl_pos_def Let_def)
next
  case False
  with binexp_mono [OF assms] have "pow2 (binexp x + 1) \<le> pow2 (binexp y)"
    by (intro pow2_le) simp
  with fl_pos_bounds [of x] fl_pos_bounds [of y] assms show ?thesis by linarith
qed

lemma fl_pos_pos: "0 < x \<Longrightarrow> 0 < fl_pos x"
  using fl_pos_bounds(1) [of x] pow2_pos [of "binexp x"] by linarith

lemma fl_mono:
  assumes "x \<le> y" shows "fl x \<le> fl y"
  using assms fl_pos_mono [of x y] fl_pos_mono [of "- y" "- x"] fl_pos_pos [of "- x"] fl_pos_pos [of y]
  by (auto simp: fl_def)

lemma fl_0 [simp]: "fl 0 = 0"
  by (simp add: fl_def)

lemma fl_nonneg: "0 \<le> x \<Longrightarrow> 0 \<le> fl x"
  using fl_mono [of 0 x] by simp

lemma fl_pos_int:
  assumes "0 < n" and "n \<le> 2 ^ 53" shows "fl_pos (of_int n) = of_int n"
proof -
  have n: "(0::rat) < of_int n" using assms by simp
  define e where "e = binexp (of_int n)"
  note B = binexp_bounds [OF n, folded e_def]
  have "(of_int n :: rat) \<le> of_int (2 ^ 53)" using assms(2) by (simp only: of_int_le_iff)
  then have "pow2 e < pow2 54" using B(1) by (simp add: pow2_def)
  then have e53: "e \<le> 53" using pow2_less_cancel [of e 54] by simp
  have "\<exists>m. of_int n / pow2 (e - 52) = (of_int m :: rat)"
  proof (cases "e \<le> 52")
    case True
    then have "of_int n / pow2 (e - 52) = (of_int (n * 2 ^ nat (52 - e)) :: rat)"
      by (cases "e = 52") (simp_all add: pow2_def)
    then show ?thesis ..
  next
    case False
    with e53 have e: "e = 53" by simp
    with B(1) have "(of_int (2 ^ 53) :: rat) \<le> of_int n" by simp
    then have "2 ^ 53 \<le> n" by (simp only: of_int_le_iff)
    with assms(2) have "n = 2 ^ 53" by simp
    then have "of_int n / pow2 (e - 52) = (of_int (2 ^ 52) :: rat)" by (simp add: e)
    then show ?thesis ..
  qed
  then obtain m where m: "of_int n / pow2 (e - 52) = (of_int m :: rat)" ..
  have "fl_pos (of_int n) = of_int m * pow2 (e - 52)"
    by (simp add: fl_pos_def Let_def e_def [symmetric] m)
  also have "\<dots> = of_int n"
    using pow2_pos [of "e - 52"] by (simp add: m [symmetric] less_imp_neq [THEN not_sym])
  finally show ?thesis .
qed

lemma fl_int: "\<bar>n\<bar> \<le> 2 ^ 53 \<Longrightarrow> fl (of_int n) = of_int n"
  using fl_pos_int [of n] fl_pos_int [of "- n"] by (auto simp: fl_def)

lemma float_of_int_mono: "m \<le> n \<Longrightarrow> float_of_int m \<le> float_of_int n"
  by (simp add: float_of_int_def fl_mono)

lemma float_of_int_exact: "\<bar>n\<bar> \<le> 2 ^ 53 \<Longrightarrow> float_of_int n = of_int n"
  by (simp add: float_of_int_def fl_int)

end
