(* ===== verification/Webmail_Mime.thy ===== *)
theory Webmail_Mime
  imports Webmail_Store Go_Base64 Go_Numbers
begin

text \<open>
  Reading mail in the webmail, \<open>internal/webmail/service.go\<close>: the parts of a message, the
  listing of a folder, one message and one attachment. The format parsers of Go (\<open>net/mail\<close>,
  \<open>mime\<close>, \<open>mime/multipart\<close>, \<open>mime/quotedprintable\<close>) are parameters, as is the order that
  \<open>sort.Slice\<close>, which is not stable, gives to files of one time.
\<close>

section \<open>The parsers\<close>

record rfc_message =
  rfc_header :: "(string \<times> string list) list"
  rfc_body :: string

record mime_part =
  part_header :: "(string \<times> string list) list"
  part_file :: string
  part_body :: string

record mime_lib =
  lib_read_message :: "string \<Rightarrow> rfc_message option"
  lib_date :: "string \<Rightarrow> instant option"
  lib_media_type :: "string \<Rightarrow> string \<times> (string \<times> string) list \<times> bool"
  lib_parts :: "string \<Rightarrow> string \<Rightarrow> mime_part list"
  lib_words :: "string \<Rightarrow> string option"
  lib_qp_decode :: "string \<Rightarrow> string option"
  lib_addresses :: "string \<Rightarrow> string list option"

text \<open>
  \<open>ParseMediaType\<close> answers a type, its parameters and whether there was no error; the type may
  come with an error. \<open>lib_date\<close> answers nothing for the zero time. \<open>lib_parts\<close> are the parts that
  \<open>NextPart\<close> yields for a body and a boundary until its first error, each with its header, its
  file name and its content as it reads it.
\<close>

text \<open>The first value of a header field, by its canonical name.\<close>

definition header_get :: "(string \<times> string list) list \<Rightarrow> string \<Rightarrow> string" where
  "header_get h f = (case map_of h f of Some (v # vs) \<Rightarrow> v | _ \<Rightarrow> '''')"

definition media_param :: "(string \<times> string) list \<Rightarrow> string \<Rightarrow> string" where
  "media_param ps p = (case map_of ps p of Some v \<Rightarrow> v | None \<Rightarrow> '''')"

section \<open>Texts\<close>

definition clean_snippet :: "string \<Rightarrow> string" where
  "clean_snippet s =
     (let j = str_join '' '' (Go_Strings.fields
                (replace_all (replace_all (replace_all s [CHR 0x0D, CHR 0x0A] '' '') [CHR 0x0A] '' '') [CHR 0x09] '' ''))
      in if 160 < length j then take 160 j @ ''...'' else j)"

fun strip_html :: "bool \<Rightarrow> string \<Rightarrow> string" where
  "strip_html t [] = []"
| "strip_html t (c # s) =
     (if c = CHR ''<'' then strip_html True s
      else if c = CHR ''>'' then CHR '' '' # strip_html False s
      else if t then strip_html t s else c # strip_html t s)"

definition create_snippet :: "string \<Rightarrow> string \<Rightarrow> string" where
  "create_snippet text html =
     (if text \<noteq> [] then clean_snippet text
      else if html \<noteq> [] then clean_snippet (strip_html False html) else '''')"

definition decode_rfc2047 :: "mime_lib \<Rightarrow> string \<Rightarrow> string" where
  "decode_rfc2047 L s = (case lib_words L s of Some d \<Rightarrow> d | None \<Rightarrow> s)"

definition split_addresses :: "mime_lib \<Rightarrow> string \<Rightarrow> string list" where
  "split_addresses L h =
     (if h = [] then []
      else case lib_addresses L h of
          Some as \<Rightarrow> as
        | None \<Rightarrow> filter (\<lambda>t. t \<noteq> []) (map trim_space (str_split CHR '','' h)))"

definition decode_content :: "mime_lib \<Rightarrow> string \<Rightarrow> string \<Rightarrow> string" where
  "decode_content L data enc =
     (if enc = ''base64'' then
        (case b64std_decode (filter (\<lambda>c. c \<in> set b64_alphabet \<or> c = CHR ''='') data) of
           Some d \<Rightarrow> d | None \<Rightarrow> data)
      else if enc = ''quoted-printable'' then (case lib_qp_decode L data of Some d \<Rightarrow> d | None \<Rightarrow> data)
      else data)"

section \<open>Parts\<close>

record attachment =
  att_id :: string
  att_file :: string
  att_type :: string
  att_size :: nat
  att_content_id :: string

type_synonym body = "string \<times> string \<times> attachment list"

text \<open>
  The parts of a multipart body: a nested multipart is descended into, a part with a file name
  or the disposition \<open>attachment\<close> is an attachment, a text part replaces the text so far. The
  recursion is over a counter; \<open>multipart\<close> gives it one more than the length of the body.
\<close>

fun fold_parts :: "mime_lib \<Rightarrow> (string \<Rightarrow> string \<Rightarrow> body option) \<Rightarrow> nat \<Rightarrow> mime_part list \<Rightarrow> body \<Rightarrow> body option" where
  "fold_parts L nested i [] acc = Some acc"
| "fold_parts L nested i (p # ps) (text, html, atts) =
     (let (mt0, params, ok) = lib_media_type L (header_get (part_header p) ''Content-Type'');
          mt = (if ok then mt0 else ''application/octet-stream'')
      in if has_prefix mt ''multipart/'' then
           (case nested (part_body p) (media_param params ''boundary'') of
              None \<Rightarrow> None
            | Some (st, sh, sa) \<Rightarrow>
                fold_parts L nested (Suc i) ps
                  (if text = [] then st else text, if html = [] then sh else html, atts @ sa))
         else
           (let file = part_file p;
                disp = fst (lib_media_type L (header_get (part_header p) ''Content-Disposition''));
                decoded = decode_content L (part_body p)
                  (to_lower (header_get (part_header p) ''Content-Transfer-Encoding''));
                aid = ''att-'' @ nat_str i
            in if file \<noteq> [] \<or> disp = ''attachment'' then
                 fold_parts L nested (Suc i) ps (text, html, atts @
                   [\<lparr>att_id = aid,
                     att_file = decode_rfc2047 L (if file = [] then ''attachment-'' @ nat_str i else file),
                     att_type = mt, att_size = length decoded,
                     att_content_id = header_get (part_header p) ''Content-Id''\<rparr>])
               else if has_prefix mt ''text/html'' then fold_parts L nested (Suc i) ps (text, decoded, atts)
               else if has_prefix mt ''text/plain'' then fold_parts L nested (Suc i) ps (decoded, html, atts)
               else fold_parts L nested (Suc i) ps (text, html, atts @
                   [\<lparr>att_id = aid, att_file = ''part-'' @ nat_str i, att_type = mt, att_size = length decoded,
                     att_content_id = ''''\<rparr>])))"

fun parse_multipart :: "mime_lib \<Rightarrow> nat \<Rightarrow> string \<Rightarrow> string \<Rightarrow> body option" where
  "parse_multipart L 0 r b = None"
| "parse_multipart L (Suc n) r b =
     fold_parts L (parse_multipart L n) 1 (lib_parts L r b) ('''', '''', [])"

definition multipart :: "mime_lib \<Rightarrow> string \<Rightarrow> string \<Rightarrow> body" where
  "multipart L r b = (case parse_multipart L (Suc (length r)) r b of Some v \<Rightarrow> v | None \<Rightarrow> ('''', '''', []))"

definition parse_mime_body :: "mime_lib \<Rightarrow> rfc_message \<Rightarrow> body" where
  "parse_mime_body L m =
     (let ct = header_get (rfc_header m) ''Content-Type''
      in case lib_media_type L (if ct = [] then ''text/plain'' else ct) of (mt, params, ok) \<Rightarrow>
             (if \<not> ok then (rfc_body m, '''', [])
              else if has_prefix mt ''multipart/'' then multipart L (rfc_body m) (media_param params ''boundary'')
              else let decoded = decode_content L (rfc_body m)
                         (to_lower (header_get (rfc_header m) ''Content-Transfer-Encoding''))
                   in if has_prefix mt ''text/html'' then ('''', decoded, []) else (decoded, '''', [])))"

definition extract_snippet :: "mime_lib \<Rightarrow> rfc_message \<Rightarrow> string \<times> bool" where
  "extract_snippet L m =
     (let ct = header_get (rfc_header m) ''Content-Type'';
          b = take 512 (rfc_body m)
      in if ct = [] then (clean_snippet b, False)
         else case lib_media_type L ct of (mt, params, ok) \<Rightarrow>
               (if \<not> ok then (clean_snippet b, False)
                else if has_prefix mt ''multipart/'' then
                  (let (text, html, atts) = multipart L (rfc_body m) (media_param params ''boundary'')
                   in (create_snippet text html, atts \<noteq> []))
                else (clean_snippet (decode_content L b
                        (to_lower (header_get (rfc_header m) ''Content-Transfer-Encoding''))), False)))"

section \<open>Listing a folder\<close>

record file_meta =
  fm_name :: string
  fm_sub :: string
  fm_time :: instant
  fm_size :: nat
  fm_read :: bool

record msg_summary =
  sm_id :: string
  sm_folder :: string
  sm_message_id :: string
  sm_from :: string
  sm_to :: "string list"
  sm_subject :: string
  sm_date :: instant
  sm_read :: bool
  sm_starred :: bool
  sm_has_attachments :: bool
  sm_size :: nat
  sm_snippet :: string

text \<open>\<open>Info\<close> of an entry asks the system again, and may fail.\<close>

definition node_meta :: "string \<Rightarrow> string \<Rightarrow> node \<Rightarrow> file_meta" where
  "node_meta w n nd =
     \<lparr>fm_name = n, fm_sub = w,
      fm_time = (case nd of File m ow c t \<Rightarrow> t | Dir m ow \<Rightarrow> 0),
      fm_size = (case nd of File m ow c t \<Rightarrow> length c | Dir m ow \<Rightarrow> 0),
      fm_read = name_is_read w n\<rparr>"

fun entry_metas :: "path \<Rightarrow> string \<Rightarrow> (string \<times> node) list \<Rightarrow> disk \<Rightarrow> file_meta list \<times> disk" where
  "entry_metas d w [] k = ([], k)"
| "entry_metas d w (e # es) k =
     (if \<not> listed e then entry_metas d w es k
      else let (r, k1) = os_stat (path_join d [w, fst e]) k;
               (ms, k2) = entry_metas d w es k1
           in (case r of Inl err \<Rightarrow> ms | Inr nd \<Rightarrow> node_meta w (fst e) nd # ms, k2))"

fun collect_metas :: "path \<Rightarrow> string list \<Rightarrow> disk \<Rightarrow> file_meta list \<times> disk" where
  "collect_metas d [] k = ([], k)"
| "collect_metas d (w # ws) k =
     (let (r, k1) = os_read_dir (path_join d [w]) k;
          (ms, k2) = (case r of Inl e \<Rightarrow> ([], k1) | Inr es \<Rightarrow> entry_metas d w es k1);
          (ms', k3) = collect_metas d ws k2
      in (ms @ ms', k3))"

definition corrupted_summary :: "string \<Rightarrow> file_meta \<Rightarrow> msg_summary" where
  "corrupted_summary folder f =
     \<lparr>sm_id = fm_name f, sm_folder = folder, sm_message_id = fm_name f, sm_from = ''Unknown Sender'',
      sm_to = [], sm_subject = ''(Corrupted message)'', sm_date = fm_time f, sm_read = fm_read f,
      sm_starred = False, sm_has_attachments = False, sm_size = fm_size f, sm_snippet = ''''\<rparr>"

definition summary_of :: "mime_lib \<Rightarrow> string \<Rightarrow> file_meta \<Rightarrow> rfc_message \<Rightarrow> msg_summary" where
  "summary_of L folder f m =
     (let h = header_get (rfc_header m);
          subject = decode_rfc2047 L (h ''Subject'');
          to = decode_rfc2047 L (h ''To'');
          (snippet, has) = extract_snippet L m
      in \<lparr>sm_id = fm_name f, sm_folder = folder, sm_message_id = h ''Message-Id'',
          sm_from = decode_rfc2047 L (h ''From''), sm_to = (if to = [] then [] else [to]),
          sm_subject = (if subject = [] then ''(No Subject)'' else subject),
          sm_date = (case lib_date L (h ''Date'') of Some t \<Rightarrow> t | None \<Rightarrow> fm_time f),
          sm_read = fm_read f, sm_starred = False, sm_has_attachments = has, sm_size = fm_size f,
          sm_snippet = snippet\<rparr>)"

definition parse_summary :: "mime_lib \<Rightarrow> path \<Rightarrow> string \<Rightarrow> file_meta \<Rightarrow> disk \<Rightarrow> msg_summary result \<times> disk" where
  "parse_summary L p folder f k =
     (case os_read_file p k of
        (Inl e, k1) \<Rightarrow> (Inl e, k1)
      | (Inr c, k1) \<Rightarrow>
          (Inr (case lib_read_message L c of
                  None \<Rightarrow> corrupted_summary folder f
                | Some m \<Rightarrow> summary_of L folder f m), k1))"

definition search_hit :: "string \<Rightarrow> msg_summary \<Rightarrow> bool" where
  "search_hit q m \<longleftrightarrow>
     q = [] \<or> contains (to_lower (sm_subject m)) q \<or> contains (to_lower (sm_from m)) q \<or>
     contains (to_lower (sm_snippet m)) q"

fun summaries :: "mime_lib \<Rightarrow> path \<Rightarrow> string \<Rightarrow> string \<Rightarrow> file_meta list \<Rightarrow> disk \<Rightarrow> msg_summary list \<times> disk" where
  "summaries L d folder q [] k = ([], k)"
| "summaries L d folder q (f # fs) k =
     (let (r, k1) = parse_summary L (path_join d [fm_sub f, fm_name f]) folder f k;
          (ms, k2) = summaries L d folder q fs k1
      in (case r of Inl e \<Rightarrow> ms | Inr m \<Rightarrow> if search_hit q m then m # ms else ms, k2))"

text \<open>
  One page of a list, \<open>(page - 1) * limit\<close> computed in \<open>int\<close>: a negative start of the slice
  is a panic.
\<close>

definition slice_panic :: err where
  "slice_panic = Sentinel ''runtime'' ''slice bounds out of range''"

definition page_of :: "int \<Rightarrow> int \<Rightarrow> 'a list \<Rightarrow> 'a list result" where
  "page_of page limit xs =
     (let total = int (length xs);
          start = wrap64 ((page - 1) * limit)
      in if total < start then Inr []
         else if start < 0 then Inl slice_panic
         else let stop = min (start + limit) total
              in Inr (take (nat (stop - start)) (drop (nat start) xs)))"

definition list_messages ::
    "mime_lib \<Rightarrow> (file_meta list \<Rightarrow> file_meta list) \<Rightarrow> maildir_service \<Rightarrow> string \<Rightarrow> string \<Rightarrow> int \<Rightarrow> int \<Rightarrow> string \<Rightarrow> disk \<Rightarrow>
     (msg_summary list \<times> nat) result \<times> disk" where
  "list_messages L srt s email folder page limit search k =
     (case get_maildir_path s email of
        Inl e \<Rightarrow> (Inl e, k)
      | Inr md \<Rightarrow>
          (case get_folder_dir md folder (ensure_folders md k) of
             (Inl e, k1) \<Rightarrow> (Inl e, k1)
           | (Inr d, k1) \<Rightarrow>
               (let page = (if page < 1 then 1 else page);
                    limit = (if limit < 1 \<or> 100 < limit then 25 else limit);
                    (fs, k2) = collect_metas d [''new'', ''cur''] k1;
                    (ms, k3) = summaries L d folder (to_lower (trim_space search)) (srt fs) k2
                in (case page_of page limit ms of Inl e \<Rightarrow> Inl e | Inr xs \<Rightarrow> Inr (xs, length ms), k3))))"

section \<open>One message\<close>

record msg_detail =
  det_summary :: msg_summary
  det_cc :: "string list"
  det_bcc :: "string list"
  det_reply_to :: string
  det_text :: string
  det_html :: string
  det_attachments :: "attachment list"
  det_headers :: "(string \<times> string list) list"

definition detail_of ::
    "mime_lib \<Rightarrow> instant \<Rightarrow> string \<Rightarrow> string \<Rightarrow> string \<Rightarrow> node option \<Rightarrow> rfc_message \<Rightarrow> msg_detail" where
  "detail_of L now folder w n info m =
     (let h = header_get (rfc_header m);
          dec = (\<lambda>f. decode_rfc2047 L (h f));
          mtime = (case info of Some (File md ow c t) \<Rightarrow> t | _ \<Rightarrow> now);
          size = (case info of Some (File md ow c t) \<Rightarrow> length c | _ \<Rightarrow> 0);
          (text, html, atts) = parse_mime_body L m
      in \<lparr>det_summary =
            \<lparr>sm_id = n, sm_folder = folder, sm_message_id = h ''Message-Id'', sm_from = dec ''From'',
             sm_to = split_addresses L (dec ''To''), sm_subject = dec ''Subject'',
             sm_date = (case lib_date L (h ''Date'') of Some t \<Rightarrow> t | None \<Rightarrow> mtime),
             sm_read = name_is_read w n, sm_starred = False, sm_has_attachments = atts \<noteq> [],
             sm_size = size, sm_snippet = create_snippet text html\<rparr>,
          det_cc = split_addresses L (dec ''Cc''), det_bcc = split_addresses L (dec ''Bcc''),
          det_reply_to = dec ''Reply-To'', det_text = text, det_html = html, det_attachments = atts,
          det_headers = rfc_header m\<rparr>)"

definition get_message ::
    "mime_lib \<Rightarrow> instant \<Rightarrow> maildir_service \<Rightarrow> string \<Rightarrow> string \<Rightarrow> string \<Rightarrow> disk \<Rightarrow> msg_detail result \<times> disk" where
  "get_message L now s email folder i k =
     (case get_maildir_path s email of
        Inl e \<Rightarrow> (Inl e, k)
      | Inr md \<Rightarrow>
          (case locate md folder i k of
             (Inl e, k1) \<Rightarrow> (Inl e, k1)
           | (Inr (d, p, w), k1) \<Rightarrow>
               (case os_read_file p k1 of
                  (Inl e, k2) \<Rightarrow> (Inl (Wrap ''read message'' e), k2)
                | (Inr c, k2) \<Rightarrow>
                    (case lib_read_message L c of
                       None \<Rightarrow> (Inl (Msg ''parse message''), k2)
                     | Some m \<Rightarrow>
                         (let (r, k3) = os_stat p k2;
                              det = detail_of L now folder w (path_base p)
                                      (case r of Inr nd \<Rightarrow> Some nd | Inl e \<Rightarrow> None) m
                          in (Inr det,
                              if name_is_read w (path_base p) then k3
                              else snd (mark_message_read s email folder (path_base p) True k3)))))))"

text \<open>
  An attachment by its identifier or its name: the first top-level part of that number or
  name, in the bytes of its transfer encoding.
\<close>

fun find_part :: "nat \<Rightarrow> string \<Rightarrow> mime_part list \<Rightarrow> (string \<times> string \<times> string) option" where
  "find_part i a [] = None"
| "find_part i a (p # ps) =
     (let file = (if part_file p = [] then ''attachment-'' @ nat_str i else part_file p)
      in if ''att-'' @ nat_str i = a \<or> file = a
         then Some (file, header_get (part_header p) ''Content-Type'', part_body p)
         else find_part (Suc i) a ps)"

definition attachment_of :: "mime_lib \<Rightarrow> string \<Rightarrow> rfc_message \<Rightarrow> attachment list \<Rightarrow> (string \<times> string \<times> string) result" where
  "attachment_of L a m atts =
     (let (mt, params, ok) = lib_media_type L (header_get (rfc_header m) ''Content-Type'')
      in case (if ok \<and> has_prefix mt ''multipart/''
               then find_part 1 a (lib_parts L (rfc_body m) (media_param params ''boundary'')) else None) of
           Some v \<Rightarrow> Inr v
         | None \<Rightarrow>
             (case find (\<lambda>x. att_id x = a) atts of
                Some x \<Rightarrow> Inr (att_file x, att_type x, '''')
              | None \<Rightarrow> Inl (Msg ''attachment not found'')))"

definition get_attachment ::
    "mime_lib \<Rightarrow> instant \<Rightarrow> maildir_service \<Rightarrow> string \<Rightarrow> string \<Rightarrow> string \<Rightarrow> string \<Rightarrow> disk \<Rightarrow>
     (string \<times> string \<times> string) result \<times> disk" where
  "get_attachment L now s email folder i a k =
     (case get_message L now s email folder i k of
        (Inl e, k1) \<Rightarrow> (Inl e, k1)
      | (Inr det, k1) \<Rightarrow>
          (case get_maildir_path s email of
             Inl e \<Rightarrow> (Inl e, k1)
           | Inr md \<Rightarrow>
               (case locate md folder i k1 of
                  (Inl e, k2) \<Rightarrow> (Inl e, k2)
                | (Inr (d, p, w), k2) \<Rightarrow>
                    (case os_read_file p k2 of
                       (Inl e, k3) \<Rightarrow> (Inl e, k3)
                     | (Inr c, k3) \<Rightarrow>
                         (case lib_read_message L c of
                            None \<Rightarrow> (Inl (Msg ''malformed message''), k3)
                          | Some m \<Rightarrow> (attachment_of L a m (det_attachments det), k3))))))"

end
