(* ===== verification/Webmail_Send.thy ===== *)
theory Webmail_Send
  imports Webmail_Mime
begin

text \<open>
  Sending mail from the webmail, \<open>internal/webmail/service.go\<close>: the message that is composed,
  its submission to the first mail server that takes it, and the copy in the folder of sent
  mail. The SMTP client, the encoders of \<open>mime\<close> and \<open>mime/quotedprintable\<close>, the parser of
  addresses and the order in which Go runs through a map are parameters; the clock and the
  random bytes are inputs.
\<close>

section \<open>Addresses\<close>

record compose_lib =
  lib_address :: "string \<Rightarrow> string option"
  lib_b_encode :: "string \<Rightarrow> string"
  lib_qp_encode :: "string \<Rightarrow> string"
  lib_map_order :: "(string \<times> string) list \<Rightarrow> (string \<times> string) list"

definition clean_email_address :: "compose_lib \<Rightarrow> string \<Rightarrow> string" where
  "clean_email_address C raw =
     (let r = trim_space raw in
      if r = [] then ''''
      else case lib_address C r of
          Some a \<Rightarrow> if a \<noteq> [] then a else trim_space (trim_suffix (trim_prefix r ''<'') ''>'')
        | None \<Rightarrow> trim_space (trim_suffix (trim_prefix r ''<'') ''>''))"

definition domain_from_email :: "string \<Rightarrow> string" where
  "domain_from_email e = (case str_split CHR ''@'' e of [l, d] \<Rightarrow> d | _ \<Rightarrow> ''localhost'')"

definition rand_string :: "nat \<Rightarrow> string \<Rightarrow> string" where
  "rand_string n b = take n (hex_encode b)"

definition is_ascii :: "string \<Rightarrow> bool" where
  "is_ascii s \<longleftrightarrow> list_all (\<lambda>c. byte c \<le> 127) s"

definition encode_rfc2047 :: "compose_lib \<Rightarrow> string \<Rightarrow> string" where
  "encode_rfc2047 C s = (if is_ascii s then s else lib_b_encode C s)"

section \<open>The message\<close>

record incoming_att =
  ia_file :: string
  ia_type :: string
  ia_data :: string

record send_request =
  sr_to :: "string list"
  sr_cc :: "string list"
  sr_bcc :: "string list"
  sr_subject :: string
  sr_text :: string
  sr_html :: string
  sr_in_reply_to :: string
  sr_references :: string
  sr_attachments :: "incoming_att list"

text \<open>What the clock and the random source give to one request.\<close>

record send_draws =
  dr_nano :: int
  dr_rand8 :: string
  dr_id_nano :: int
  dr_rand12 :: string
  dr_date :: string
  dr_alt_nano :: int
  dr_rand6 :: string
  dr_unix :: int
  dr_rand10 :: string
  dr_now :: instant

definition crlf :: string where
  "crlf = [CHR 0x0D, CHR 0x0A]"

definition quote_str :: "string \<Rightarrow> string" where
  "quote_str s = [CHR 0x22] @ s @ [CHR 0x22]"

definition header_line :: "string \<times> string \<Rightarrow> string" where
  "header_line h = fst h @ '': '' @ snd h @ crlf"

text \<open>\<open>multipart.Writer\<close>: every part with its header in the order of the names, then the end.\<close>

type_synonym mime_piece = "(string \<times> string) list \<times> string"

fun write_parts :: "string \<Rightarrow> bool \<Rightarrow> mime_piece list \<Rightarrow> string" where
  "write_parts b first [] = crlf @ ''--'' @ b @ ''--'' @ crlf"
| "write_parts b first ((hs, c) # ps) =
     (if first then ''--'' else crlf @ ''--'') @ b @ crlf @ concat (map header_line hs) @ crlf @ c @
     write_parts b False ps"

definition write_multipart :: "string \<Rightarrow> mime_piece list \<Rightarrow> string" where
  "write_multipart b = write_parts b True"

definition text_piece :: "compose_lib \<Rightarrow> string \<Rightarrow> string \<Rightarrow> mime_piece" where
  "text_piece C ty s =
     ([(''Content-Transfer-Encoding'', ''quoted-printable''), (''Content-Type'', ty @ ''; charset=UTF-8'')],
      lib_qp_encode C s)"

definition att_piece :: "incoming_att \<Rightarrow> mime_piece" where
  "att_piece a =
     (let ty = (if ia_type a = [] then ''application/octet-stream'' else ia_type a)
      in ([(''Content-Disposition'', ''attachment; filename='' @ quote_str (ia_file a)),
           (''Content-Transfer-Encoding'', ''base64''),
           (''Content-Type'', ty @ ''; name='' @ quote_str (ia_file a))],
          case b64std_decode (ia_data a) of Some d \<Rightarrow> b64std_encode d | None \<Rightarrow> ''''))"

definition boundary_of :: "send_draws \<Rightarrow> string" where
  "boundary_of dr = ''=_OpenMail_'' @ int_str (dr_nano dr) @ ''_'' @ rand_string 8 (dr_rand8 dr)"

definition message_id_of :: "send_draws \<Rightarrow> string \<Rightarrow> string" where
  "message_id_of dr from =
     ''<'' @ int_str (dr_id_nano dr) @ ''.'' @ rand_string 12 (dr_rand12 dr) @ ''@'' @ domain_from_email from @ ''>''"

definition mail_headers :: "compose_lib \<Rightarrow> send_draws \<Rightarrow> string \<Rightarrow> send_request \<Rightarrow> (string \<times> string) list" where
  "mail_headers C dr from req =
     [(''From'', from), (''To'', str_join '', '' (sr_to req))] @
     (if sr_cc req \<noteq> [] then [(''Cc'', str_join '', '' (sr_cc req))] else []) @
     [(''Subject'', encode_rfc2047 C (sr_subject req)), (''Date'', dr_date dr),
      (''Message-ID'', message_id_of dr from), (''MIME-Version'', ''1.0''),
      (''User-Agent'', ''OpenMail-Webmail/1.0'')] @
     (if sr_in_reply_to req \<noteq> [] then [(''In-Reply-To'', sr_in_reply_to req)] else []) @
     (if sr_references req \<noteq> [] then [(''References'', sr_references req)] else []) @
     (if sr_attachments req \<noteq> [] then
        [(''Content-Type'', ''multipart/mixed; boundary='' @ quote_str (boundary_of dr))]
      else if sr_html req \<noteq> [] \<and> sr_text req \<noteq> [] then
        [(''Content-Type'', ''multipart/alternative; boundary='' @ quote_str (boundary_of dr))]
      else [(''Content-Type'', (if sr_html req \<noteq> [] then ''text/html'' else ''text/plain'') @ ''; charset=UTF-8''),
            (''Content-Transfer-Encoding'', ''quoted-printable'')])"

definition mail_body :: "compose_lib \<Rightarrow> send_draws \<Rightarrow> send_request \<Rightarrow> string" where
  "mail_body C dr req =
     (if sr_attachments req \<noteq> [] then
        (let alt = ''=_OpenMail_Alt_'' @ int_str (dr_alt_nano dr) @ ''_'' @ rand_string 6 (dr_rand6 dr);
             texts = (if sr_text req \<noteq> [] then [text_piece C ''text/plain'' (sr_text req)] else []) @
                     (if sr_html req \<noteq> [] then [text_piece C ''text/html'' (sr_html req)] else [])
         in write_multipart (boundary_of dr)
              (([(''Content-Type'', ''multipart/alternative; boundary='' @ quote_str alt)],
                write_multipart alt texts) # map att_piece (sr_attachments req)))
      else if sr_html req \<noteq> [] \<and> sr_text req \<noteq> [] then
        write_multipart (boundary_of dr)
          [text_piece C ''text/plain'' (sr_text req), text_piece C ''text/html'' (sr_html req)]
      else lib_qp_encode C (if sr_text req = [] then sr_html req else sr_text req))"

definition compose :: "compose_lib \<Rightarrow> send_draws \<Rightarrow> string \<Rightarrow> send_request \<Rightarrow> string" where
  "compose C dr from req =
     concat (map header_line (lib_map_order C (mail_headers C dr from req))) @ crlf @ mail_body C dr req"

section \<open>Submission\<close>

record 'n smtp_net =
  smtp_dial :: "string \<Rightarrow> 'n \<Rightarrow> unit result \<times> 'n"
  smtp_client :: "string \<Rightarrow> 'n \<Rightarrow> unit result \<times> 'n"
  smtp_hello :: "string \<Rightarrow> 'n \<Rightarrow> unit result \<times> 'n"
  smtp_extension :: "string \<Rightarrow> 'n \<Rightarrow> bool \<times> 'n"
  smtp_starttls :: "string \<Rightarrow> 'n \<Rightarrow> unit result \<times> 'n"
  smtp_mail :: "string \<Rightarrow> 'n \<Rightarrow> unit result \<times> 'n"
  smtp_rcpt :: "string \<Rightarrow> 'n \<Rightarrow> unit result \<times> 'n"
  smtp_data :: "'n \<Rightarrow> unit result \<times> 'n"
  smtp_write :: "string \<Rightarrow> 'n \<Rightarrow> unit result \<times> 'n"
  smtp_end_data :: "'n \<Rightarrow> unit result \<times> 'n"
  smtp_quit :: "'n \<Rightarrow> unit result \<times> 'n"
  smtp_close :: "'n \<Rightarrow> 'n"

text \<open>Calls in a row, each with the message its error is wrapped in; the first error ends them.\<close>

fun smtp_calls :: "(string \<times> ('n \<Rightarrow> unit result \<times> 'n)) list \<Rightarrow> 'n \<Rightarrow> unit result \<times> 'n" where
  "smtp_calls [] n = (Inr (), n)"
| "smtp_calls ((m, c) # cs) n =
     (case c n of
        (Inl e, n1) \<Rightarrow> (Inl (if m = [] then e else Wrap m e), n1)
      | (Inr u, n1) \<Rightarrow> smtp_calls cs n1)"

definition split_host :: "string \<Rightarrow> string" where
  "split_host addr = (case str_split CHR '':'' addr of [h, p] \<Rightarrow> if h = [] then ''localhost'' else h | _ \<Rightarrow> ''localhost'')"

definition send_raw_smtp ::
    "'n smtp_net \<Rightarrow> string \<Rightarrow> string \<Rightarrow> string list \<Rightarrow> string \<Rightarrow> 'n \<Rightarrow> unit result \<times> 'n" where
  "send_raw_smtp S addr from rcpts raw n =
     (let host = split_host addr in
      case smtp_dial S addr n of
        (Inl e, n1) \<Rightarrow> (Inl (Wrap ''dial'' e), n1)
      | (Inr u, n1) \<Rightarrow>
          (case smtp_client S host n1 of
             (Inl e, n2) \<Rightarrow> (Inl (Wrap ''smtp client init'' e), smtp_close S n2)
           | (Inr u, n2) \<Rightarrow>
               (let n3 = snd (smtp_hello S ''mailopen.local'' n2);
                    (tls, n4) = smtp_extension S ''STARTTLS'' n3;
                    n5 = (if tls then snd (smtp_starttls S host n4) else n4);
                    (r, n6) = smtp_calls
                      ((''MAIL FROM <'' @ from @ ''>'', smtp_mail S from) #
                       map (\<lambda>t. (''RCPT TO <'' @ t @ ''>'', smtp_rcpt S t)) rcpts @
                       [(''DATA'', smtp_data S), (''write DATA'', smtp_write S raw),
                        (''close DATA'', smtp_end_data S), ('''', smtp_quit S)]) n5
                in (r, smtp_close S n6))))"

definition smtp_targets :: "string list" where
  "smtp_targets = [''postfix:587'', ''postfix:25'', ''127.0.0.1:587'', ''127.0.0.1:25'', ''localhost:587'', ''localhost:25'']"

fun submit_any ::
    "'n smtp_net \<Rightarrow> string list \<Rightarrow> string \<Rightarrow> string list \<Rightarrow> string \<Rightarrow> 'n \<Rightarrow> bool \<times> 'n" where
  "submit_any S [] from rcpts raw n = (False, n)"
| "submit_any S (t # ts) from rcpts raw n =
     (case send_raw_smtp S t from rcpts raw n of
        (Inr u, n1) \<Rightarrow> (True, n1)
      | (Inl e, n1) \<Rightarrow> submit_any S ts from rcpts raw n1)"

section \<open>The operation\<close>

definition recipients_of :: "compose_lib \<Rightarrow> send_request \<Rightarrow> string list" where
  "recipients_of C req =
     filter (\<lambda>a. a \<noteq> []) (map (clean_email_address C) (sr_to req @ sr_cc req @ sr_bcc req))"

definition sent_file_name :: "send_draws \<Rightarrow> string" where
  "sent_file_name dr = int_str (dr_unix dr) @ ''.'' @ rand_string 10 (dr_rand10 dr) @ ''_openmail:2,S''"

text \<open>The copy of a sent message: mode \<open>0640\<close> is 416; no error of it is reported.\<close>

definition save_sent :: "maildir_service \<Rightarrow> send_draws \<Rightarrow> string \<Rightarrow> string \<Rightarrow> disk \<Rightarrow> disk" where
  "save_sent s dr from raw k =
     (case get_maildir_path s from of
        Inl e \<Rightarrow> k
      | Inr md \<Rightarrow>
          (let cur = path_join md [''.Sent'', ''cur''];
               k1 = snd (os_mkdir_all 488 cur k)
           in snd (os_write_file (path_join cur [sent_file_name dr]) raw 416 k1)))"

definition sent_summary :: "send_draws \<Rightarrow> string \<Rightarrow> send_request \<Rightarrow> string \<Rightarrow> msg_summary" where
  "sent_summary dr from req raw =
     \<lparr>sm_id = message_id_of dr from, sm_folder = ''sent'', sm_message_id = message_id_of dr from,
      sm_from = from, sm_to = sr_to req, sm_subject = sr_subject req, sm_date = dr_now dr, sm_read = True,
      sm_starred = False, sm_has_attachments = False, sm_size = length raw,
      sm_snippet = create_snippet (sr_text req) (sr_html req)\<rparr>"

definition send_message ::
    "compose_lib \<Rightarrow> 'n smtp_net \<Rightarrow> send_draws \<Rightarrow> maildir_service \<Rightarrow> string \<Rightarrow> send_request \<Rightarrow> disk \<Rightarrow> 'n \<Rightarrow>
     msg_summary result \<times> disk \<times> 'n" where
  "send_message C S dr s from_email req k n =
     (let from = clean_email_address C from_email; rcpts = recipients_of C req in
      if from = [] then (Inl (Msg ''sender email address is invalid or empty''), k, n)
      else if rcpts = [] then (Inl (Msg ''at least one valid recipient is required''), k, n)
      else let raw = compose C dr from req;
               (ok, n1) = submit_any S smtp_targets from rcpts raw n
           in if \<not> ok then (Inl (Msg ''failed to submit email to Postfix MTA''), k, n1)
              else (Inr (sent_summary dr from req raw), save_sent s dr from raw k, n1))"

end
