(* ===== verification/Webmail_Props.thy ===== *)
theory Webmail_Props
  imports Webmail_Confined Webmail_Send
begin

text \<open>
  What the webmail guarantees: any sequence of its requests stays in the Maildirs of the
  addresses that act, reading a message always ends, the pages of a listing are the listing,
  and what a submission does.
\<close>

section \<open>Reading does not write outside\<close>

lemma files_entry_metas: "files (snd (entry_metas d w es k)) = files k"
proof (induction es arbitrary: k)
  case (Cons e es)
  obtain r k1 where st: "os_stat (path_join d [w, fst e]) k = (r, k1)"
    by (cases "os_stat (path_join d [w, fst e]) k")
  have "files k1 = files k" using st by (metis files_dtick(1) snd_conv snd_os_reads(1))
  with Cons.IH [of k] Cons.IH [of k1] show ?case by (auto simp: st Let_def split: prod.splits)
qed simp

lemma files_collect_metas: "files (snd (collect_metas d ws k)) = files k"
proof (induction ws arbitrary: k)
  case (Cons w ws)
  obtain r k1 where rd: "os_read_dir (path_join d [w]) k = (r, k1)"
    by (cases "os_read_dir (path_join d [w]) k")
  have f1: "files k1 = files k" using rd by (metis files_dtick(1) snd_conv snd_os_reads(3))
  obtain ms k2 where m: "(case r of Inl e \<Rightarrow> ([], k1) | Inr es \<Rightarrow> entry_metas d w es k1) = (ms, k2)"
    by (cases "case r of Inl e \<Rightarrow> ([], k1) | Inr es \<Rightarrow> entry_metas d w es k1")
  have "files k2 = files k1"
    using m files_entry_metas by (cases r) (auto simp: prod_eq_iff)
  with Cons.IH [of k2] f1 show ?case by (auto simp: rd m Let_def split: prod.splits)
qed simp

lemma files_parse_summary: "files (snd (parse_summary L p folder f k)) = files k"
proof -
  obtain r k1 where rd: "os_read_file p k = (r, k1)" by (cases "os_read_file p k")
  have "files k1 = files k" using rd by (metis files_dtick(1) snd_conv snd_os_reads(2))
  then show ?thesis by (cases r) (simp_all add: parse_summary_def rd)
qed

lemma files_summaries: "files (snd (summaries L d folder q fs k)) = files k"
proof (induction fs arbitrary: k)
  case (Cons f fs)
  obtain r k1 where ps: "parse_summary L (path_join d [fm_sub f, fm_name f]) folder f k = (r, k1)"
    by (cases "parse_summary L (path_join d [fm_sub f, fm_name f]) folder f k")
  have "files k1 = files k" using files_parse_summary ps by (metis snd_conv)
  with Cons.IH [of k1] show ?case by (auto simp: ps Let_def split: prod.splits)
qed simp

lemma list_messages_outside:
  assumes "get_maildir_path s email = Inr md" and "list_all plain (vmail_root s)" and "plain_names (files k)"
  shows "keeps_outside md k (snd (list_messages L srt s email folder page limit q k))"
proof -
  note md = maildir_plain [OF assms(1,2)]
  note en = keeps_outside_ensure [OF md, of k]
  have p: "plain_names (files (ensure_folders md k))" using en assms(3) by (simp add: keeps_outside_def)
  obtain r k1 where g: "get_folder_dir md folder (ensure_folders md k) = (r, k1)"
    by (cases "get_folder_dir md folder (ensure_folders md k)")
  have f1: "files k1 = files (ensure_folders md k)" using folder_dir_in [OF g p md] by blast
  have "files (snd (list_messages L srt s email folder page limit q k)) = files k1"
  proof (cases r)
    case (Inl e)
    then show ?thesis by (simp add: list_messages_def assms(1) g)
  next
    case (Inr d)
    obtain fs k2 where c: "collect_metas d [''new'', ''cur''] k1 = (fs, k2)"
      by (cases "collect_metas d [''new'', ''cur''] k1")
    have f2: "files k2 = files k1" using files_collect_metas c by (metis snd_conv)
    have "snd (list_messages L srt s email folder page limit q k) =
        snd (summaries L d folder (to_lower (trim_space q)) (srt fs) k2)"
      unfolding list_messages_def by (simp only: assms(1) g Inr c Let_def sum.case prod.case)
        (simp add: split_beta)
    then show ?thesis using files_summaries f2 by simp
  qed
  then show ?thesis using keeps_outside_trans [OF en keeps_outside_same] f1 by simp
qed

lemma get_message_outside:
  assumes "get_maildir_path s email = Inr md" and "list_all plain (vmail_root s)" and "plain_names (files k)"
  shows "keeps_outside md k (snd (get_message L now s email folder i k))"
proof -
  obtain r1 k1 where lo: "locate md folder i k = (r1, k1)" by (cases "locate md folder i k")
  have f1: "files k1 = files k" using locate_below [OF lo assms(3) maildir_plain [OF assms(1,2)]] by blast
  show ?thesis
  proof (cases r1)
    case (Inl e)
    then show ?thesis using f1 by (simp add: get_message_def assms(1) lo keeps_outside_same)
  next
    case (Inr v)
    obtain d p w where v: "v = (d, p, w)" by (cases v)
    obtain r2 k2 where rd: "os_read_file p k1 = (r2, k2)" by (cases "os_read_file p k1")
    have f2: "files k2 = files k" using rd f1 by (metis files_dtick(1) snd_conv snd_os_reads(2))
    obtain r3 k3 where st: "os_stat p k2 = (r3, k3)" by (cases "os_stat p k2")
    have f3: "files k3 = files k" using st f2 by (metis files_dtick(1) snd_conv snd_os_reads(1))
    have "plain_names (files k3)" using assms(3) f3 by simp
    from mark_message_outside [OF assms(1,2) this, of folder "path_base p" True]
    have m: "keeps_outside md k (snd (mark_message_read s email folder (path_base p) True k3))"
      using keeps_outside_trans [OF keeps_outside_same [OF f3]] by blast
    have "keeps_outside md k k2" "keeps_outside md k k3" using f2 f3 by (simp_all add: keeps_outside_same)
    then show ?thesis
      using m unfolding get_message_def
      by (simp add: assms(1) lo Inr v rd st Let_def split: sum.splits option.splits)
  qed
qed

lemma get_attachment_outside:
  assumes "get_maildir_path s email = Inr md" and "list_all plain (vmail_root s)" and "plain_names (files k)"
  shows "keeps_outside md k (snd (get_attachment L now s email folder i a k))"
proof -
  obtain r0 k1 where g: "get_message L now s email folder i k = (r0, k1)"
    by (cases "get_message L now s email folder i k")
  have k1: "keeps_outside md k k1" using get_message_outside [OF assms, of L now folder i] g by simp
  then have p1: "plain_names (files k1)" using assms(3) by (simp add: keeps_outside_def)
  obtain r2 k2 where lo: "locate md folder i k1 = (r2, k2)" by (cases "locate md folder i k1")
  have f2: "files k2 = files k1" using locate_below [OF lo p1 maildir_plain [OF assms(1,2)]] by blast
  have k2: "keeps_outside md k k2" using keeps_outside_trans [OF k1 keeps_outside_same [OF f2]] .
  have rd: "keeps_outside md k (snd (os_read_file p k2))" for p
    by (rule keeps_outside_trans [OF k2 keeps_outside_same]) simp
  show ?thesis
  proof (cases r2)
    case (Inl e)
    then show ?thesis using k1 k2 by (simp add: get_attachment_def g assms(1) lo split: sum.splits)
  next
    case (Inr v)
    obtain d p w where v: "v = (d, p, w)" by (cases v)
    obtain r3 k3 where r: "os_read_file p k2 = (r3, k3)" by (cases "os_read_file p k2")
    have "keeps_outside md k k3" using rd [of p] by (simp add: r)
    then show ?thesis using k1
      by (simp add: get_attachment_def g assms(1) lo Inr v r split: sum.splits option.splits)
  qed
qed

text \<open>The name of a sent message is plain.\<close>

lemma hex_digit_no_slash: "d < 16 \<Longrightarrow> hex_digit d \<noteq> CHR ''/''"
proof
  assume "d < 16" "hex_digit d = CHR ''/''"
  then have "byte (hex_digit d) = 47" by (simp add: byte_def)
  with \<open>d < 16\<close> show False by (simp add: hex_digit_def split: if_splits)
qed

lemma rand_string_no_slash: "CHR ''/'' \<notin> set (rand_string n b)"
proof
  have d: "byte y div 16 < 16" for y by (rule less_mult_imp_div_less) simp
  have h: "hex_digit (byte y div 16) \<noteq> CHR ''/''" "hex_digit (byte y mod 16) \<noteq> CHR ''/''" for y
    by (rule hex_digit_no_slash, simp add: d)+
  assume "CHR ''/'' \<in> set (rand_string n b)"
  then have "CHR ''/'' \<in> set (hex_encode b)" by (auto simp: rand_string_def dest: in_set_takeD)
  then obtain y where "CHR ''/'' = hex_digit (byte y div 16) \<or> CHR ''/'' = hex_digit (byte y mod 16)"
    by (auto simp: hex_encode_def)
  with h [of y] show False by auto
qed

lemma int_str_no_slash: "CHR ''/'' \<notin> set (int_str i)"
proof -
  have "\<not> is_digit (CHR ''/'')" by (simp add: is_digit_def byte_def)
  then show ?thesis by (auto simp: int_str_def dest: nat_str_digit)
qed

lemma sent_file_plain: "plain (sent_file_name dr)"
proof -
  define t where "t = ''_openmail:2,S''"
  have u: "CHR ''_'' \<in> set (sent_file_name dr)" by (simp add: sent_file_name_def)
  have t: "CHR ''/'' \<notin> set t" by (simp add: t_def)
  have "CHR ''/'' \<notin> set (sent_file_name dr)"
    unfolding sent_file_name_def t_def [symmetric] using int_str_no_slash rand_string_no_slash t by simp
  moreover have "sent_file_name dr \<noteq> ''.''" using u by (intro notI) simp
  moreover have "sent_file_name dr \<noteq> ''..''" using u by (intro notI) simp
  ultimately show ?thesis using u by (auto simp: plain_def)
qed

lemma save_sent_outside:
  assumes "get_maildir_path s from = Inr md" and "list_all plain (vmail_root s)"
  shows "keeps_outside md k (save_sent s dr from raw k)"
proof -
  have md: "list_all plain (md @ [''.Sent'', ''cur''])" using maildir_plain [OF assms] by (simp add: plain_def)
  have j: "path_join md [''.Sent'', ''cur''] = md @ [''.Sent'', ''cur'']"
    by (rule path_join_plain) (simp add: plain_def)
  have q: "path_join (md @ [''.Sent'', ''cur'']) [sent_file_name dr] = (md @ [''.Sent'', ''cur'']) @ [sent_file_name dr]"
    by (rule path_join_snoc [OF sent_file_plain])
  have "below md ((md @ [''.Sent'', ''cur'']) @ [sent_file_name dr])" unfolding below_iff by simp
  moreover have "list_all plain ((md @ [''.Sent'', ''cur'']) @ [sent_file_name dr])"
    using md sent_file_plain by simp
  ultimately show ?thesis
    unfolding save_sent_def assms(1) sum.case j q Let_def
    by (rule keeps_outside_trans [OF keeps_outside_mkdir [OF md] keeps_outside_write])
qed

text \<open>A submission leaves the disk alone or saves the copy of what it sent.\<close>

lemma send_message_disk:
  "fst (snd (send_message C S dr s e req k n)) = k \<or>
   (\<exists>raw. fst (snd (send_message C S dr s e req k n)) = save_sent s dr (clean_email_address C e) raw k)"
  by (auto simp: send_message_def Let_def split: prod.splits)

section \<open>Sequences of requests\<close>

text \<open>
  One request of the webmail, for an address: the rules are the operations, with any arguments.
  The last rule is what a submission does to the disk.
\<close>

inductive webmail_step :: "maildir_service \<Rightarrow> string \<Rightarrow> disk \<Rightarrow> disk \<Rightarrow> bool" for s where
  folders: "webmail_step s a k (snd (list_folders s a k))"
| messages: "webmail_step s a k (snd (list_messages L srt s a folder page limit q k))"
| message: "webmail_step s a k (snd (get_message L now s a folder i k))"
| attachment: "webmail_step s a k (snd (get_attachment L now s a folder i att k))"
| mark: "webmail_step s a k (snd (mark_message_read s a folder i rd k))"
| move: "webmail_step s a k (snd (move_message s a src dst i k))"
| delete: "webmail_step s a k (snd (delete_message s a folder i k))"
| sent: "webmail_step s a k (save_sent s dr a raw k)"

lemma webmail_step_outside:
  assumes "webmail_step s a k k'" and "list_all plain (vmail_root s)" and "plain_names (files k)"
    and "get_maildir_path s a = Inr md"
  shows "keeps_outside md k k'"
  using assms(1) assms(3)
proof cases
  case folders
  then show ?thesis using list_folders_outside [OF assms(4,2)] by simp
next
  case messages
  then show ?thesis using list_messages_outside [OF assms(4,2,3)] by simp
next
  case message
  then show ?thesis using get_message_outside [OF assms(4,2,3)] by simp
next
  case attachment
  then show ?thesis using get_attachment_outside [OF assms(4,2,3)] by simp
next
  case mark
  then show ?thesis using mark_message_outside [OF assms(4,2,3)] by simp
next
  case move
  then show ?thesis using move_message_outside [OF assms(4,2,3)] by simp
next
  case delete
  then show ?thesis using delete_message_outside [OF assms(4,2,3)] by simp
next
  case sent
  then show ?thesis using save_sent_outside [OF assms(4,2)] by simp
qed

text \<open>Without a valid address nothing happens.\<close>

lemma webmail_step_invalid:
  "webmail_step s a k k' \<Longrightarrow> get_maildir_path s a = Inl e \<Longrightarrow> k' = k"
  by (induction rule: webmail_step.induct)
    (simp_all add: list_folders_def list_messages_def get_message_def get_attachment_def
      mark_message_read_def move_message_def delete_message_def save_sent_def)

definition acts :: "maildir_service \<Rightarrow> string set \<Rightarrow> disk \<Rightarrow> disk \<Rightarrow> bool" where
  "acts s A k k' \<longleftrightarrow> (\<exists>a\<in>A. webmail_step s a k k')"

definition reach_of :: "maildir_service \<Rightarrow> string set \<Rightarrow> path \<Rightarrow> bool" where
  "reach_of s A x \<longleftrightarrow> (\<exists>a\<in>A. \<exists>md. get_maildir_path s a = Inr md \<and> below md x)"

lemma acts_outside:
  assumes "(acts s A)\<^sup>*\<^sup>* k k'" and "list_all plain (vmail_root s)" and "plain_names (files k)"
  shows "plain_names (files k') \<and> (\<forall>x. \<not> reach_of s A x \<longrightarrow> fbytes k' x = fbytes k x)"
  using assms(1)
proof (induction rule: rtranclp_induct)
  case base
  then show ?case using assms(3) by simp
next
  case (step k1 k2)
  obtain a where a: "a \<in> A" "webmail_step s a k1 k2" using step.hyps(2) by (auto simp: acts_def)
  show ?case
  proof (cases "get_maildir_path s a")
    case (Inl e)
    then have "k2 = k1" by (rule webmail_step_invalid [OF a(2)])
    then show ?thesis using step.IH by simp
  next
    case (Inr md)
    have "keeps_outside md k1 k2"
      using step.IH by (intro webmail_step_outside [OF a(2) assms(2) _ Inr]) simp
    moreover have "\<not> reach_of s A x \<Longrightarrow> \<not> below md x" for x using a(1) Inr by (auto simp: reach_of_def)
    ultimately show ?thesis using step.IH by (simp add: keeps_outside_def)
  qed
qed


definition example_webmail :: maildir_service where
  "example_webmail = new_maildir_service '''' '''' 0"

definition example_mail_disk :: disk where
  "example_mail_disk =
     \<lparr>files =
        [([''var''], Dir 493 (0, 0)), ([''var'', ''vmail''], Dir 493 (0, 0)),
         ([''var'', ''vmail'', ''x.org'', ''bob'', ''Maildir'', ''cur'', ''m1''], File 416 (0, 0) ''hi'' 5),
         ([''var'', ''vmail'', ''x.org'', ''al'', ''Maildir'', ''cur''], Dir 493 (0, 0)),
         ([''var'', ''vmail'', ''x.org'', ''al'', ''Maildir'', ''cur'', ''m2''], File 416 (0, 0) ''yo'' 6)],
      proc_owner = (0, 0), privileged = True, disk_now = 9, disk_faults = [], disk_torn = []\<rparr>"

lemma example_webmail_paths:
  "vmail_root example_webmail = [''var'', ''vmail'']"
  "get_maildir_path example_webmail ''al@x.org'' = Inr [''var'', ''vmail'', ''x.org'', ''al'', ''Maildir'']"
  "get_maildir_path example_webmail ''bob@x.org'' = Inr [''var'', ''vmail'', ''x.org'', ''bob'', ''Maildir'']"
  by code_simp+

lemma example_mail_plain: "plain_names (files example_mail_disk)" "list_all plain (vmail_root example_webmail)"
  by (simp_all add: plain_names_def example_mail_disk_def plain_def example_webmail_paths)


section \<open>Nested parts\<close>

text \<open>A part is a piece of the body between two boundaries.\<close>

definition parts_shorter :: "mime_lib \<Rightarrow> bool" where
  "parts_shorter L \<longleftrightarrow> (\<forall>r b. \<forall>p\<in>set (lib_parts L r b). length (part_body p) < length r)"

lemma fold_parts_cong:
  "\<forall>p\<in>set ps. \<forall>b. f (part_body p) b = g (part_body p) b \<Longrightarrow>
     fold_parts L f i ps acc = fold_parts L g i ps acc"
proof (induction ps arbitrary: i acc)
  case Nil
  show ?case by simp
next
  case (Cons p ps)
  obtain tx hx atts where acc: "acc = (tx, hx, atts)" by (cases acc)
  have now: "f (part_body p) b = g (part_body p) b" for b using Cons.prems by simp
  have later: "fold_parts L f i ps acc = fold_parts L g i ps acc" for i acc
    by (rule Cons.IH) (use Cons.prems in simp)
  show ?case unfolding acc fold_parts.simps now later ..
qed

lemma fold_parts_Some:
  "\<forall>p\<in>set ps. \<forall>b. f (part_body p) b \<noteq> None \<Longrightarrow> fold_parts L f i ps acc \<noteq> None"
proof (induction ps arbitrary: i acc)
  case Nil
  show ?case by simp
next
  case (Cons p ps)
  obtain tx hx atts where acc: "acc = (tx, hx, atts)" by (cases acc)
  have now: "f (part_body p) b \<noteq> None" for b using Cons.prems by simp
  have later: "fold_parts L f i ps acc \<noteq> None" for i acc
    by (rule Cons.IH) (use Cons.prems in simp)
  have "f (part_body p) b = None \<Longrightarrow> False" for b using now by simp
  then show ?case unfolding acc using later
    by (simp add: Let_def del: not_None_eq not_Some_eq split: prod.split option.split) blast
qed

lemma parse_multipart_enough:
  assumes "parts_shorter L"
  shows "length r < n \<Longrightarrow> length r < m \<Longrightarrow> parse_multipart L n r b = parse_multipart L m r b"
proof (induction n arbitrary: r m b)
  case (Suc n)
  then obtain m' where m: "m = Suc m'" by (cases m) auto
  have "parse_multipart L n (part_body p) c = parse_multipart L m' (part_body p) c"
    if "p \<in> set (lib_parts L r b)" for p c
  proof (rule Suc.IH)
    have "length (part_body p) < length r" using that assms by (simp add: parts_shorter_def)
    then show "length (part_body p) < n" "length (part_body p) < m'" using Suc.prems m by simp_all
  qed
  then show ?case unfolding m parse_multipart.simps by (intro fold_parts_cong) blast
qed simp

lemma parse_multipart_not_None:
  assumes "parts_shorter L"
  shows "length r < n \<Longrightarrow> parse_multipart L n r b \<noteq> None"
proof (induction n arbitrary: r b)
  case (Suc n)
  have "parse_multipart L n (part_body p) c \<noteq> None" if "p \<in> set (lib_parts L r b)" for p c
    using that assms Suc.prems by (intro Suc.IH) (force simp: parts_shorter_def)
  then show ?case unfolding parse_multipart.simps by (intro fold_parts_Some) blast
qed simp

text \<open>
  C39. Descending into the parts of a message ends: as every part is shorter than the body it
  is in, a recursion as deep as the body is long is enough, and it yields what any deeper one
  yields. So reading a body always gives its text, its HTML and its attachments.
\<close>

theorem parse_multipart_terminates:
  assumes "parts_shorter L" and "length r < n"
  shows "parse_multipart L n r b = Some (multipart L r b)"
proof -
  have "parse_multipart L n r b = parse_multipart L (Suc (length r)) r b"
    using parse_multipart_enough [OF assms(1), of r n "Suc (length r)" b] assms(2) by simp
  moreover obtain v where "parse_multipart L (Suc (length r)) r b = Some v"
    using parse_multipart_not_None [OF assms(1), of r "Suc (length r)" b] by auto
  ultimately show ?thesis by (simp add: multipart_def)
qed

text \<open>An example: a body in parentheses is one nested part, anything else one text part.\<close>

definition example_mime :: mime_lib where
  "example_mime =
     \<lparr>lib_read_message = (\<lambda>c. Some \<lparr>rfc_header = [(''Content-Type'', [''multipart/mixed''])], rfc_body = c\<rparr>),
      lib_date = (\<lambda>s. None), lib_media_type = (\<lambda>s. (s, [], True)),
      lib_parts = (\<lambda>r b. case r of [] \<Rightarrow> []
                     | c # t \<Rightarrow> [\<lparr>part_header = [(''Content-Type'',
                                     [if c = CHR ''('' then ''multipart/mixed'' else ''text/plain''])],
                                  part_file = '''', part_body = t\<rparr>]),
      lib_words = Some, lib_qp_decode = Some, lib_addresses = (\<lambda>s. None)\<rparr>"

lemma example_mime_shorter: "parts_shorter example_mime"
  by (auto simp: parts_shorter_def example_mime_def split: list.splits if_splits)

theorem parse_multipart_terminates_witness:
  "parse_multipart example_mime 9 ''((>mail'' '''' = Some (multipart example_mime ''((>mail'' '''') \<and>
   parse_multipart example_mime 9 ''((>mail'' '''' = Some (''mail'', '''', [])"
proof
  show "parse_multipart example_mime 9 ''((>mail'' '''' = Some (multipart example_mime ''((>mail'' '''')"
    by (rule parse_multipart_terminates [OF example_mime_shorter]) simp
  show "parse_multipart example_mime 9 ''((>mail'' '''' = Some (''mail'', '''', [])"
    by code_simp
qed

section \<open>Pages\<close>

lemma page_of_plain:
  assumes "1 \<le> page" and "page < 2 ^ 50" and "1 \<le> limit" and "limit \<le> 100"
  shows "page_of page limit xs = Inr (take (nat limit) (drop (nat ((page - 1) * limit)) xs))"
proof -
  have "0 \<le> (page - 1) * limit" using assms by simp
  moreover have "(page - 1) * limit \<le> (2 ^ 50) * 100" using assms by (intro mult_mono) simp_all
  ultimately have w: "wrap64 ((page - 1) * limit) = (page - 1) * limit" by (intro wrap64_id) simp_all
  define st where "st = (page - 1) * limit"
  have w': "wrap64 st = st" using w by (simp only: st_def)
  have st: "0 \<le> st" using \<open>0 \<le> (page - 1) * limit\<close> by (simp add: st_def)
  show ?thesis
  proof (cases "int (length xs) < st")
    case True
    then have "drop (nat st) xs = []" by simp
    with True show ?thesis by (simp add: page_of_def w' Let_def flip: st_def)
  next
    case False
    have "take (nat (min (st + limit) (int (length xs)) - st)) (drop (nat st) xs) = take (nat limit) (drop (nat st) xs)"
    proof (cases "st + limit \<le> int (length xs)")
      case True
      then show ?thesis by (simp add: min_def)
    next
      case short: False
      then have "length (drop (nat st) xs) \<le> nat (int (length xs) - st)" "length (drop (nat st) xs) \<le> nat limit"
        using st False assms(3) by simp_all
      then show ?thesis using short by (simp add: min_def)
    qed
    then show ?thesis using False st by (simp add: page_of_def w' Let_def flip: st_def)
  qed
qed

lemma concat_pages: "concat (map (\<lambda>i. take m (drop (i * m) xs)) [0..<n]) = take (n * m) xs"
proof (induction n)
  case (Suc n)
  have "take (n * m) xs @ take m (drop (n * m) xs) = take (n * m + m) xs" by (simp add: take_add)
  then show ?case using Suc by (simp add: add.commute)
qed simp

text \<open>Page after page, a listing shows every message once and in order.\<close>

lemma pages_partition:
  assumes "1 \<le> limit" and "limit \<le> 100" and "length xs \<le> n * nat limit" and "n < 2 ^ 50"
  shows "concat (map (\<lambda>i. case page_of (int i + 1) limit xs of Inr ys \<Rightarrow> ys | Inl e \<Rightarrow> []) [0..<n]) = xs"
proof -
  have "(case page_of (int i + 1) limit xs of Inr ys \<Rightarrow> ys | Inl e \<Rightarrow> []) = take (nat limit) (drop (i * nat limit) xs)"
    if "i \<in> set [0..<n]" for i
  proof -
    have "int i + 1 < 2 ^ 50" using that assms(4) by simp
    then have "page_of (int i + 1) limit xs = Inr (take (nat limit) (drop (nat ((int i + 1 - 1) * limit)) xs))"
      using assms(1,2) by (intro page_of_plain) simp_all
    then show ?thesis using assms(1) by (simp add: nat_mult_distrib)
  qed
  then have "concat (map (\<lambda>i. case page_of (int i + 1) limit xs of Inr ys \<Rightarrow> ys | Inl e \<Rightarrow> []) [0..<n]) =
      concat (map (\<lambda>i. take (nat limit) (drop (i * nat limit) xs)) [0..<n])"
    by (intro arg_cong [where f = concat] map_cong) auto
  also have "\<dots> = xs" using assms(3) by (simp add: concat_pages)
  finally show ?thesis .
qed

text \<open>The product of the largest page and an even limit wraps to a negative start.\<close>

lemma huge_page_panics: "page_of 9223372036854775807 50 [m] = Inl slice_panic"
  by (simp add: page_of_def wrap64_def Let_def)

section \<open>Attachments\<close>

text \<open>
  The identifier \<open>att-1\<close> of a listing has the decoded size; the download of it is the text of
  the transfer encoding.
\<close>

definition encoded_part :: mime_part where
  "encoded_part =
     \<lparr>part_header = [(''Content-Type'', [''text/plain'']), (''Content-Transfer-Encoding'', [''base64''])],
      part_file = ''a'', part_body = ''aGk=''\<rparr>"

lemma download_is_encoded:
  assumes "lib_media_type L ''text/plain'' = (''text/plain'', [], True)" and "lib_words L = Some"
  shows "(case fold_parts L f 1 [encoded_part] ('''', '''', []) of
            Some (tx, hx, [a]) \<Rightarrow> att_id a = ''att-1'' \<and> att_size a = 2 | _ \<Rightarrow> False) \<and>
    find_part 1 ''att-1'' [encoded_part] = Some (''a'', ''text/plain'', ''aGk='')"
proof
  have d: "decode_content L ''aGk='' ''base64'' = ''hi''" by code_simp
  have p: "\<not> has_prefix ''text/plain'' ''multipart/''" "to_lower ''base64'' = ''base64''" "nat_str 1 = ''1''" by code_simp+
  show "case fold_parts L f 1 [encoded_part] ('''', '''', []) of
            Some (tx, hx, [a]) \<Rightarrow> att_id a = ''att-1'' \<and> att_size a = 2 | _ \<Rightarrow> False"
    using d p by (simp add: encoded_part_def header_get_def assms decode_rfc2047_def Let_def)
  show "find_part 1 ''att-1'' [encoded_part] = Some (''a'', ''text/plain'', ''aGk='')"
    using p(3) by (simp add: encoded_part_def header_get_def Let_def)
qed

section \<open>Submissions\<close>

lemma smtp_calls_append:
  "smtp_calls (as @ bs) n = (case smtp_calls as n of (Inl e, n1) \<Rightarrow> (Inl e, n1) | (Inr u, n1) \<Rightarrow> smtp_calls bs n1)"
  by (induction as arbitrary: n) (auto split: prod.splits sum.splits)

text \<open>
  A server whose \<open>QUIT\<close> fails has already taken the message: every target takes a copy, and the
  submission is reported as failed. The state of the example is the list of what was taken.
\<close>

definition quit_fails :: "string list smtp_net" where
  "quit_fails =
     \<lparr>smtp_dial = (\<lambda>a n. (Inr (), n)), smtp_client = (\<lambda>a n. (Inr (), n)), smtp_hello = (\<lambda>a n. (Inr (), n)),
      smtp_extension = (\<lambda>a n. (False, n)), smtp_starttls = (\<lambda>a n. (Inr (), n)), smtp_mail = (\<lambda>a n. (Inr (), n)),
      smtp_rcpt = (\<lambda>a n. (Inr (), n)), smtp_data = (\<lambda>n. (Inr (), n)), smtp_write = (\<lambda>c n. (Inr (), c # n)),
      smtp_end_data = (\<lambda>n. (Inr (), n)), smtp_quit = (\<lambda>n. (Inl (Msg ''EOF''), n)), smtp_close = (\<lambda>n. n)\<rparr>"

lemma smtp_rcpts_ok: "smtp_calls (map (\<lambda>t. (m t, smtp_rcpt quit_fails t)) rs @ cs) n = smtp_calls cs n"
  by (induction rs) (simp_all add: quit_fails_def)

lemma quit_fails_takes: "\<exists>e. send_raw_smtp quit_fails t from rcpts raw n = (Inl e, raw # n)"
proof -
  have c: "smtp_calls ((''MAIL FROM <'' @ from @ ''>'', smtp_mail quit_fails from) #
      map (\<lambda>t. (''RCPT TO <'' @ t @ ''>'', smtp_rcpt quit_fails t)) rcpts @
      [(''DATA'', smtp_data quit_fails), (''write DATA'', smtp_write quit_fails raw),
       (''close DATA'', smtp_end_data quit_fails), ('''', smtp_quit quit_fails)]) n = (Inl (Msg ''EOF''), raw # n)"
    unfolding smtp_calls.simps(2)
    by (subst (2) quit_fails_def) (simp add: smtp_rcpts_ok, simp add: quit_fails_def)
  show ?thesis
    unfolding send_raw_smtp_def Let_def
    by (rule exI [of _ "Msg ''EOF''"]) (use c in \<open>simp add: quit_fails_def\<close>)
qed

lemma failed_quit_duplicates: "submit_any quit_fails ts from rcpts raw n = (False, replicate (length ts) raw @ n)"
proof (induction ts arbitrary: n)
  case (Cons t ts)
  obtain e where "send_raw_smtp quit_fails t from rcpts raw n = (Inl e, raw # n)"
    using quit_fails_takes by blast
  with Cons.IH show ?case by (simp add: replicate_app_Cons_same)
qed simp

text \<open>A submission that is reported as done was taken by the first target that took it.\<close>

lemma submit_any_True:
  "submit_any S ts from rcpts raw n = (True, n') \<Longrightarrow>
     \<exists>us t vs m. ts = us @ t # vs \<and> submit_any S us from rcpts raw n = (False, m) \<and>
       send_raw_smtp S t from rcpts raw m = (Inr (), n')"
proof (induction ts arbitrary: n)
  case (Cons t ts)
  obtain r n1 where s: "send_raw_smtp S t from rcpts raw n = (r, n1)" by (cases "send_raw_smtp S t from rcpts raw n")
  show ?case
  proof (cases r)
    case (Inr u)
    then have "ts = ts \<and> submit_any S [] from rcpts raw n = (False, n) \<and> send_raw_smtp S t from rcpts raw n = (Inr (), n')"
      using Cons.prems s by simp
    then show ?thesis by (metis append_Nil)
  next
    case (Inl e)
    then have "submit_any S ts from rcpts raw n1 = (True, n')" using Cons.prems s by simp
    from Cons.IH [OF this] obtain us t' vs m where
      i: "ts = us @ t' # vs" "submit_any S us from rcpts raw n1 = (False, m)"
      "send_raw_smtp S t' from rcpts raw m = (Inr (), n')" by blast
    have "submit_any S (t # us) from rcpts raw n = (False, m)" using s Inl i(2) by simp
    with i(1,3) show ?thesis by (metis append_Cons)
  qed
qed simp

section \<open>Moving messages\<close>

text \<open>
  On a working disk a move keeps the bytes of the message, takes it from its folder, and changes
  no other file but one of the same name in the target folder, which it replaces.
\<close>

lemma move_message_effect:
  assumes "disk_faults k = []" and "get_maildir_path s email = Inr md"
    and "get_folder_dir md src k = (Inr sd, k)" and "get_folder_dir md dst k = (Inr dd, k)"
    and "find_message_file sd i k = (Inr (p, w), k)" and "is_file (files k) p" and "plain (path_base p)"
    and "is_dir (files k) (dd @ [''cur''])" and "\<not> is_dir (files k) (dd @ [''cur'', path_base p])"
    and "mkdir_all 488 (proc_owner k) (files k) (dd @ [''cur'']) = Some t"
  shows "\<exists>k'. move_message s email src dst i k = (Inr (), k') \<and>
    fbytes k' = (fbytes k)(p := None, dd @ [''cur'', path_base p] := fbytes k p)"
proof -
  have j: "path_join dd [''cur''] = dd @ [''cur'']" by (simp add: path_join_snoc plain_def)
  have q: "path_join (dd @ [''cur'']) [path_base p] = dd @ [''cur'', path_base p]"
    using path_join_snoc [OF assms(7), of "dd @ [''cur'']"] by simp
  define k4 where "k4 = snd (os_mkdir_all 488 (dd @ [''cur'']) k)"
  have same: "fs_stat (files k4) x = fs_stat (files k) x" if "fs_stat (files k) x \<noteq> None \<or> x = dd @ [''cur'', path_base p]" for x
    using that
  proof
    assume "fs_stat (files k) x \<noteq> None"
    then show ?thesis unfolding k4_def by (rule os_mkdir_all_keeps)
  next
    assume "x = dd @ [''cur'', path_base p]"
    then have "\<not> below x (dd @ [''cur''])" by (simp add: below_def)
    then show ?thesis unfolding k4_def by (rule os_mkdir_all_frame)
  qed
  have f4: "disk_faults k4 = []" using assms(1,10) unfolding k4_def by (simp add: os_simps)
  have b4: "fbytes k4 = fbytes k"
    unfolding k4_def by (rule fbytes_mkdir_all [of 488 "dd @ [''cur'']" k "fst (os_mkdir_all 488 (dd @ [''cur'']) k)"]) simp
  have p4: "is_file (files k4) p" using assms(6) same [of p] by (auto simp: is_file_def split: option.splits)
  have d4: "is_dir (files k4) (dd @ [''cur''])"
    using assms(8) same [of "dd @ [''cur'']"] by (auto simp: is_dir_iff)
  have n4: "\<not> is_dir (files k4) (dd @ [''cur'', path_base p])"
    using assms(9) same [of "dd @ [''cur'', path_base p]"] by (auto simp: is_dir_iff)
  have "\<exists>k'. os_move p (dd @ [''cur'', path_base p]) k4 = (Inr (), k')"
    using f4 p4 d4 n4 by (auto simp: os_move_def os_call_def is_file_def path_dir_def butlast_append
        split: option.splits node.splits)
  then obtain k' where mv: "os_move p (dd @ [''cur'', path_base p]) k4 = (Inr (), k')" by blast
  have "move_message s email src dst i k = (Inr (), k')"
    using mv by (simp add: move_message_def assms(2-5) j q Let_def flip: k4_def)
  moreover have "fbytes k' = (fbytes k)(p := None, dd @ [''cur'', path_base p] := fbytes k p)"
    using fbytes_move_file [OF p4 mv] by (simp add: b4)
  ultimately show ?thesis by blast
qed

text \<open>
  Three mailboxes that show what the names allow: flags other than \<open>S\<close> are lost when a message
  is marked, an S anywhere in a name with flags counts as read, and the identifier of two dots
  moves a whole folder.
\<close>

definition odd_disk :: disk where
  "odd_disk =
     (let md = [''var'', ''vmail'', ''x.org'', ''al'', ''Maildir'']; dr = Dir 493 (0, 0) in
      \<lparr>files = [(md, dr), (md @ [''cur''], dr), (md @ [''cur'', ''m1,S=9:2,''], File 416 (0, 0) ''a'' 1),
                (md @ [''cur'', ''m2:2,FR''], File 416 (0, 0) ''b'' 2),
                (md @ [''.Trash''], dr), (md @ [''.Trash'', ''cur''], dr),
                (md @ [''.Sent''], dr), (md @ [''.Sent'', ''cur''], dr),
                (md @ [''.Sent'', ''cur'', ''m3:2,S''], File 416 (0, 0) ''c'' 3)],
       proc_owner = (0, 0), privileged = True, disk_now = 9, disk_faults = [], disk_torn = []\<rparr>)"

definition al_dir :: path where
  "al_dir = [''var'', ''vmail'', ''x.org'', ''al'', ''Maildir'']"

lemma size_counts_as_read: "name_is_read ''cur'' ''m1,S=9:2,''"
  by code_simp

lemma mark_drops_flags:
  "map fst (fs_entries (files (snd (mark_message_read example_webmail ''al@x.org'' ''inbox'' ''m2'' True odd_disk)))
     (al_dir @ [''cur''])) = [''m1,S=9:2,'', ''m2:2,S'']"
  by code_simp

lemma dots_move_folder:
  "fbytes (snd (delete_message example_webmail ''al@x.org'' ''sent'' ''%2e%2e'' odd_disk))
     (al_dir @ [''.Trash'', ''cur'', ''.Sent'', ''cur'', ''m3:2,S'']) = Some ''c''"
  by code_simp

end
