(* ===== verification/Database.thy ===== *)
theory Database
  imports Complex_Main Go_Strings
begin

text \<open>
  The data model: the Go structs of the packages under \<open>internal/\<close> that are rows of the
  PostgreSQL tables, the tables of \<open>migrations/\<close> with their constraints (primary keys,
  unique indexes, checks, foreign keys with \<open>ON DELETE CASCADE\<close>), and the statements of
  \<open>database/sql\<close> over them. Every statement consumes one element of \<open>faults\<close>: if it
  is \<open>True\<close> the statement fails without effect, so the theorems hold for every pattern of
  database failures. The names of the constraints are those of the migrations. A struct
  pointer that may be \<open>nil\<close> is an option; \<open>int64\<close> columns are integers; the order of rows
  with equal sort keys is that of insertion.
\<close>

section \<open>Rows\<close>

record domain =
  dom_id :: uuid
  dom_name :: string
  dom_status :: string
  dom_created_at :: instant
  dom_updated_at :: instant

text \<open>\<open>mb_domain_name\<close> is the helper field that the joins fill; it is no column.\<close>

record mailbox =
  mb_id :: uuid
  mb_domain_id :: uuid
  mb_email :: string
  mb_password_hash :: string
  mb_quota_bytes :: int
  mb_used_bytes :: int
  mb_status :: string
  mb_provisioning_status :: string
  mb_identity_provider :: string
  mb_created_at :: instant
  mb_updated_at :: instant
  mb_domain_name :: string

record mail_alias =
  al_id :: uuid
  al_domain_id :: uuid
  al_source :: string
  al_destination :: string
  al_created_at :: instant

record message =
  msg_id :: uuid
  msg_mailbox_id :: uuid
  msg_message_id :: string
  msg_blob_id :: string
  msg_sender :: string
  msg_subject :: string
  msg_size_bytes :: int
  msg_received_at :: instant
  msg_created_at :: instant

record dkim_key =
  dk_id :: uuid
  dk_domain_id :: uuid
  dk_domain :: string
  dk_selector :: string
  dk_algorithm :: string
  dk_key_bits :: int
  dk_status :: string
  dk_created_at :: instant
  dk_activated_at :: "instant option"
  dk_revoked_at :: "instant option"

record mail_policy =
  pol_domain_id :: uuid
  pol_domain :: string
  pol_spf :: string
  pol_dmarc :: string
  pol_spam_threshold :: rat
  pol_reject_threshold :: rat
  pol_quarantine_enabled :: bool
  pol_max_message_size :: int
  pol_rbl :: string
  pol_rdns :: string
  pol_created_at :: instant
  pol_updated_at :: instant

record mailbox_limits =
  lim_mailbox_id :: uuid
  lim_messages_per_minute :: int
  lim_messages_per_hour :: int
  lim_recipients_per_day :: int
  lim_enabled :: bool
  lim_created_at :: instant
  lim_updated_at :: instant

record api_token =
  tok_id :: uuid
  tok_user_id :: "uuid option"
  tok_email :: string
  tok_role :: string
  tok_hash :: string
  tok_type :: string
  tok_expires_at :: instant
  tok_revoked_at :: "instant option"
  tok_created_at :: instant
  tok_last_used_at :: "instant option"

text \<open>A row of \<open>smtp_credentials\<close>: the metadata of \<open>smtpkey.Key\<close> and the hash of the secret.\<close>

record smtp_key =
  sk_id :: uuid
  sk_domain_id :: uuid
  sk_domain :: string
  sk_name :: string
  sk_username :: string
  sk_status :: string
  sk_created_at :: instant
  sk_last_used_at :: "instant option"
  sk_revoked_at :: "instant option"
  sk_secret_hash :: string

record message_event =
  ev_id :: uuid
  ev_message_id :: "uuid option"
  ev_queue_id :: "string option"
  ev_event_type :: string
  ev_status :: string
  ev_detail :: string
  ev_created_at :: instant

record audit_log =
  au_id :: uuid
  au_actor_type :: string
  au_actor_id :: "uuid option"
  au_action :: string
  au_resource_type :: string
  au_resource_id :: "uuid option"
  au_metadata :: "string option"
  au_ip_address :: "string option"
  au_created_at :: instant

record db =
  domains :: "domain list"
  mailboxes :: "mailbox list"
  aliases :: "mail_alias list"
  messages :: "message list"
  domain_dkim :: "dkim_key list"
  domain_mail_policy :: "mail_policy list"
  mailbox_limits :: "mailbox_limits list"
  api_tokens :: "api_token list"
  smtp_credentials :: "smtp_key list"
  message_events :: "message_event list"
  audit_logs :: "audit_log list"
  faults :: "bool list"

definition empty_db :: db where
  "empty_db =
     \<lparr>domains = [], mailboxes = [], aliases = [], messages = [], domain_dkim = [],
      domain_mail_policy = [], mailbox_limits = [], api_tokens = [], smtp_credentials = [],
      message_events = [], audit_logs = [], faults = []\<rparr>"

section \<open>Statements\<close>

definition err_no_rows :: err where
  "err_no_rows = Sentinel ''sql'' ''ErrNoRows''"

text \<open>
  \<open>db_call\<close> runs one statement, or fails when the next fault says so; either way the fault
  is used up.
\<close>

definition fails :: "db \<Rightarrow> bool" where
  "fails db \<longleftrightarrow> faults db \<noteq> [] \<and> hd (faults db)"

definition tick :: "db \<Rightarrow> db" where
  "tick db = db\<lparr>faults := tl (faults db)\<rparr>"

definition db_call :: "(db \<Rightarrow> 'a result \<times> db) \<Rightarrow> db \<Rightarrow> 'a result \<times> db" where
  "db_call q db = (if fails db then (Inl Fault, tick db) else q (tick db))"

definition sql_query_row :: "(db \<Rightarrow> 'r option) \<Rightarrow> db \<Rightarrow> 'r result \<times> db" where
  "sql_query_row f = db_call (\<lambda>db. (case f db of None \<Rightarrow> Inl err_no_rows | Some r \<Rightarrow> Inr r, db))"

definition sql_query :: "(db \<Rightarrow> 'r list) \<Rightarrow> db \<Rightarrow> 'r list result \<times> db" where
  "sql_query f = db_call (\<lambda>db. (Inr (f db), db))"

definition sql_exec :: "(db \<Rightarrow> nat result \<times> db) \<Rightarrow> db \<Rightarrow> nat result \<times> db" where
  "sql_exec f = db_call f"

text \<open>A row is inserted unless one of the constraints, in order, is violated.\<close>

fun first_violation :: "(bool \<times> err) list \<Rightarrow> err option" where
  "first_violation [] = None"
| "first_violation ((bad, e) # cs) = (if bad then Some e else first_violation cs)"

definition sql_insert :: "(db \<Rightarrow> (bool \<times> err) list) \<Rightarrow> (db \<Rightarrow> db) \<Rightarrow> db \<Rightarrow> nat result \<times> db" where
  "sql_insert constraints ins = sql_exec (\<lambda>db.
     case first_violation (constraints db) of
       Some e \<Rightarrow> (Inl e, db)
     | None \<Rightarrow> (Inr 1, ins db))"

definition clashes :: "('r \<Rightarrow> 'k) \<Rightarrow> 'r \<Rightarrow> 'r list \<Rightarrow> bool" where
  "clashes k r t \<longleftrightarrow> list_ex (\<lambda>x. k x = k r) t"

definition has_key :: "('r \<Rightarrow> 'k) \<Rightarrow> 'k \<Rightarrow> 'r list \<Rightarrow> bool" where
  "has_key k v t \<longleftrightarrow> list_ex (\<lambda>x. k x = v) t"

section \<open>Cascading deletions\<close>

definition del_mailboxes :: "(mailbox \<Rightarrow> bool) \<Rightarrow> db \<Rightarrow> db" where
  "del_mailboxes P db =
     (let gone = map mb_id (rows_where P (mailboxes db))
      in db\<lparr>mailboxes := delete_where P (mailboxes db),
            messages := delete_where (\<lambda>m. msg_mailbox_id m \<in> set gone) (messages db),
            mailbox_limits := delete_where (\<lambda>l. lim_mailbox_id l \<in> set gone) (mailbox_limits db)\<rparr>)"

definition del_domains :: "(domain \<Rightarrow> bool) \<Rightarrow> db \<Rightarrow> db" where
  "del_domains P db =
     (let gone = map dom_id (rows_where P (domains db));
          db1 = del_mailboxes (\<lambda>m. mb_domain_id m \<in> set gone) db
      in db1\<lparr>domains := delete_where P (domains db1),
             aliases := delete_where (\<lambda>a. al_domain_id a \<in> set gone) (aliases db1),
             domain_dkim := delete_where (\<lambda>k. dk_domain_id k \<in> set gone) (domain_dkim db1),
             domain_mail_policy :=
               delete_where (\<lambda>p. pol_domain_id p \<in> set gone) (domain_mail_policy db1),
             smtp_credentials :=
               delete_where (\<lambda>k. sk_domain_id k \<in> set gone) (smtp_credentials db1)\<rparr>)"

section \<open>Well-formed databases\<close>

text \<open>
  What the constraints of the migrations promise of every state: keys are unique and every
  foreign key has its row.
\<close>

definition ref :: "('r \<Rightarrow> 'k) \<Rightarrow> 'r list \<Rightarrow> ('s \<Rightarrow> 'k) \<Rightarrow> 's list \<Rightarrow> bool" where
  "ref fk t k s \<longleftrightarrow> fk ` set t \<subseteq> k ` set s"

definition wf_domains :: "db \<Rightarrow> bool" where
  "wf_domains db \<longleftrightarrow> distinct (map dom_id (domains db)) \<and>
     distinct (map (\<lambda>d. to_lower (dom_name d)) (domains db))"

definition wf_mailboxes :: "db \<Rightarrow> bool" where
  "wf_mailboxes db \<longleftrightarrow> distinct (map mb_id (mailboxes db)) \<and>
     distinct (map (\<lambda>m. to_lower (mb_email m)) (mailboxes db)) \<and>
     ref mb_domain_id (mailboxes db) dom_id (domains db)"

definition wf_aliases :: "db \<Rightarrow> bool" where
  "wf_aliases db \<longleftrightarrow> distinct (map al_id (aliases db)) \<and>
     distinct (map (\<lambda>a. (al_domain_id a, al_source a, al_destination a)) (aliases db)) \<and>
     ref al_domain_id (aliases db) dom_id (domains db)"

definition wf_messages :: "db \<Rightarrow> bool" where
  "wf_messages db \<longleftrightarrow> distinct (map msg_id (messages db)) \<and>
     ref msg_mailbox_id (messages db) mb_id (mailboxes db)"

definition wf_dkim :: "db \<Rightarrow> bool" where
  "wf_dkim db \<longleftrightarrow> distinct (map dk_id (domain_dkim db)) \<and>
     distinct (map (\<lambda>k. (dk_domain_id k, dk_selector k)) (domain_dkim db)) \<and>
     (\<forall>k\<in>set (domain_dkim db). dk_status k \<in> {''pending'', ''active'', ''revoked''} \<and>
        dk_algorithm k = ''rsa-sha256'' \<and> dk_key_bits k = 2048) \<and>
     ref dk_domain_id (domain_dkim db) dom_id (domains db)"

definition wf_policy :: "db \<Rightarrow> bool" where
  "wf_policy db \<longleftrightarrow> distinct (map pol_domain_id (domain_mail_policy db)) \<and>
     ref pol_domain_id (domain_mail_policy db) dom_id (domains db)"

definition wf_limits :: "db \<Rightarrow> bool" where
  "wf_limits db \<longleftrightarrow> distinct (map lim_mailbox_id (mailbox_limits db)) \<and>
     ref lim_mailbox_id (mailbox_limits db) mb_id (mailboxes db)"

definition wf_tokens :: "db \<Rightarrow> bool" where
  "wf_tokens db \<longleftrightarrow> distinct (map tok_id (api_tokens db)) \<and>
     distinct (map tok_hash (api_tokens db))"

definition wf_smtp_keys :: "db \<Rightarrow> bool" where
  "wf_smtp_keys db \<longleftrightarrow> distinct (map sk_id (smtp_credentials db)) \<and>
     distinct (map sk_username (smtp_credentials db)) \<and>
     distinct (map (\<lambda>k. (sk_domain_id k, to_lower (sk_name k)))
       (filter (\<lambda>k. sk_status k = ''active'') (smtp_credentials db))) \<and>
     (\<forall>k\<in>set (smtp_credentials db). sk_status k \<in> {''active'', ''revoked''}) \<and>
     ref sk_domain_id (smtp_credentials db) dom_id (domains db)"

definition wf_logs :: "db \<Rightarrow> bool" where
  "wf_logs db \<longleftrightarrow> distinct (map ev_id (message_events db)) \<and> distinct (map au_id (audit_logs db))"

named_theorems wf_defs \<open>the well-formedness conditions of the tables\<close>

lemmas [wf_defs] = wf_domains_def wf_mailboxes_def wf_aliases_def wf_messages_def wf_dkim_def
  wf_policy_def wf_limits_def wf_tokens_def wf_smtp_keys_def wf_logs_def

definition wf_db :: "db \<Rightarrow> bool" where
  "wf_db db \<longleftrightarrow> wf_domains db \<and> wf_mailboxes db \<and> wf_aliases db \<and> wf_messages db \<and>
     wf_dkim db \<and> wf_policy db \<and> wf_limits db \<and> wf_tokens db \<and> wf_smtp_keys db \<and> wf_logs db"

section \<open>Facts about statements\<close>

named_theorems sql_simps \<open>how the SQL statements act\<close>

lemma tables_tick [simp]:
  "domains (tick db) = domains db" "mailboxes (tick db) = mailboxes db"
  "aliases (tick db) = aliases db" "messages (tick db) = messages db"
  "domain_dkim (tick db) = domain_dkim db" "domain_mail_policy (tick db) = domain_mail_policy db"
  "mailbox_limits (tick db) = mailbox_limits db" "api_tokens (tick db) = api_tokens db"
  "smtp_credentials (tick db) = smtp_credentials db"
  "message_events (tick db) = message_events db" "audit_logs (tick db) = audit_logs db"
  by (simp_all add: tick_def)

lemma no_faults [simp]: "faults db = [] \<Longrightarrow> \<not> fails db" "faults db = [] \<Longrightarrow> tick db = db"
  by (simp_all add: fails_def tick_def)

lemma sql_query_row_eq [sql_simps]:
  "sql_query_row f db =
     (if fails db then (Inl Fault, tick db)
      else (case f (tick db) of None \<Rightarrow> Inl err_no_rows | Some r \<Rightarrow> Inr r, tick db))"
  by (simp add: sql_query_row_def db_call_def)

lemma sql_query_eq [sql_simps]:
  "sql_query f db = (if fails db then (Inl Fault, tick db) else (Inr (f (tick db)), tick db))"
  by (simp add: sql_query_def db_call_def)

lemma sql_exec_eq [sql_simps]:
  "sql_exec f db = (if fails db then (Inl Fault, tick db) else f (tick db))"
  by (simp add: sql_exec_def db_call_def)

lemma sql_insert_eq [sql_simps]:
  "sql_insert cs ins db =
     (if fails db then (Inl Fault, tick db)
      else case first_violation (cs (tick db)) of
             Some e \<Rightarrow> (Inl e, tick db)
           | None \<Rightarrow> (Inr 1, ins (tick db)))"
  by (simp add: sql_insert_def sql_exec_eq)

text \<open>
  An invariant of a statement needs to be shown of its effect only: using up a fault does
  not touch a table.
\<close>

definition db_inv :: "(db \<Rightarrow> bool) \<Rightarrow> bool" where
  "db_inv I \<longleftrightarrow> (\<forall>db. I (tick db) = I db)"

lemma db_inv_ticks: "db_inv I \<Longrightarrow> I ((tick ^^ n) db) = I db"
  by (induction n) (simp_all add: db_inv_def)

lemma snd_sql_query_row [simp]: "snd (sql_query_row f db) = tick db"
  by (simp add: sql_query_row_eq)

lemma snd_sql_query [simp]: "snd (sql_query f db) = tick db"
  by (simp add: sql_query_eq)

lemma sql_exec_inv:
  "db_inv I \<Longrightarrow> I db \<Longrightarrow> (\<And>db. I db \<Longrightarrow> I (snd (f db))) \<Longrightarrow> I (snd (sql_exec f db))"
  by (auto simp: sql_exec_eq db_inv_def)

lemma sql_insert_inv:
  assumes "db_inv I" and "I db"
    and "\<And>db. I db \<Longrightarrow> first_violation (cs db) = None \<Longrightarrow> I (ins db)"
  shows "I (snd (sql_insert cs ins db))"
  unfolding sql_insert_def
  by (rule sql_exec_inv [OF assms(1,2)]) (auto simp: assms(3) split: option.splits)

lemma first_violation_None: "first_violation cs = None \<longleftrightarrow> (\<forall>(b, e)\<in>set cs. \<not> b)"
  by (induction cs rule: first_violation.induct) auto

lemma clashes_iff [sql_simps]: "clashes k r t \<longleftrightarrow> (\<exists>x\<in>set t. k x = k r)"
  by (simp add: clashes_def list_ex_iff)

lemma has_key_iff [sql_simps]: "has_key k v t \<longleftrightarrow> (\<exists>x\<in>set t. k x = v)"
  by (simp add: has_key_def list_ex_iff)

lemma wf_db_tick [simp]: "wf_db (tick db) = wf_db db"
  by (simp add: wf_db_def wf_defs)

lemma wf_db_inv [simp]: "db_inv wf_db"
  by (simp add: db_inv_def)

lemma wf_empty_db [simp]: "wf_db empty_db"
  by (simp add: wf_db_def wf_defs empty_db_def ref_def)

section \<open>Foreign keys and cascades\<close>

lemma ref_mono: "ref fk t k s \<Longrightarrow> set t' \<subseteq> set t \<Longrightarrow> ref fk t' k s"
  by (auto simp: ref_def)

lemma ref_append: "ref fk t k s \<Longrightarrow> ref fk t k (s @ s')"
  by (auto simp: ref_def)

lemma ref_delete_where: "ref fk t k s \<Longrightarrow> ref fk (delete_where P t) k s"
  by (auto simp: ref_def tbl_simps)

text \<open>Deleting the rows that refer to the deleted ones keeps the foreign key.\<close>

lemma ref_cascade:
  "ref fk t k s \<Longrightarrow>
     ref fk (delete_where (\<lambda>r. fk r \<in> k ` {x \<in> set s. P x}) t) k (delete_where P s)"
  by (fastforce simp: ref_def tbl_simps)

lemma set_rows_where [simp]: "set (rows_where P t) = {r \<in> set t. P r}"
  by (simp add: rows_where_def)

lemma ref_cascade_list:
  "ref fk t k s \<Longrightarrow>
     ref fk (delete_where (\<lambda>r. fk r \<in> set (map k (rows_where P s))) t) k (delete_where P s)"
  using ref_cascade [of fk t k s P] by simp

lemma distinct_active_delete:
  "distinct (map k (filter A t)) \<Longrightarrow> distinct (map k (filter A (delete_where P t)))"
  by (induction t) (auto simp: delete_where_def)

lemma wf_del_mailboxes:
  assumes "wf_db db" shows "wf_db (del_mailboxes P db)"
  using assms
  by (simp add: wf_db_def wf_defs del_mailboxes_def Let_def distinct_map_delete_where
      ref_delete_where ref_cascade_list [simplified])

lemma wf_del_domains:
  assumes "wf_db db" shows "wf_db (del_domains P db)"
proof -
  let ?Q = "\<lambda>m. mb_domain_id m \<in> dom_id ` {d \<in> set (domains db). P d}"
  have "wf_db (del_mailboxes ?Q db)" by (rule wf_del_mailboxes [OF assms])
  moreover have "ref mb_domain_id (delete_where ?Q (mailboxes db)) dom_id (delete_where P (domains db))"
    using assms ref_cascade [of mb_domain_id "mailboxes db" dom_id "domains db" P]
    by (simp add: wf_db_def wf_defs)
  ultimately show ?thesis
    by (simp add: wf_db_def wf_defs del_domains_def del_mailboxes_def Let_def
        distinct_map_delete_where distinct_active_delete ref_cascade ball_conj_distrib
        tbl_simps)
qed

text \<open>Replacing one table that no other refers to is a matter of that table alone.\<close>

lemma wf_db_replace [sql_simps]:
  "wf_db db \<Longrightarrow> wf_db (db\<lparr>aliases := t1\<rparr>) = wf_aliases (db\<lparr>aliases := t1\<rparr>)"
  "wf_db db \<Longrightarrow> wf_db (db\<lparr>messages := t2\<rparr>) = wf_messages (db\<lparr>messages := t2\<rparr>)"
  "wf_db db \<Longrightarrow> wf_db (db\<lparr>domain_dkim := t3\<rparr>) = wf_dkim (db\<lparr>domain_dkim := t3\<rparr>)"
  "wf_db db \<Longrightarrow> wf_db (db\<lparr>domain_mail_policy := t4\<rparr>) = wf_policy (db\<lparr>domain_mail_policy := t4\<rparr>)"
  "wf_db db \<Longrightarrow> wf_db (db\<lparr>mailbox_limits := t5\<rparr>) = wf_limits (db\<lparr>mailbox_limits := t5\<rparr>)"
  "wf_db db \<Longrightarrow> wf_db (db\<lparr>api_tokens := t6\<rparr>) = wf_tokens (db\<lparr>api_tokens := t6\<rparr>)"
  "wf_db db \<Longrightarrow> wf_db (db\<lparr>smtp_credentials := t7\<rparr>) = wf_smtp_keys (db\<lparr>smtp_credentials := t7\<rparr>)"
  "wf_db db \<Longrightarrow> wf_db (db\<lparr>message_events := t8\<rparr>) = wf_logs (db\<lparr>message_events := t8\<rparr>)"
  "wf_db db \<Longrightarrow> wf_db (db\<lparr>audit_logs := t9\<rparr>) = wf_logs (db\<lparr>audit_logs := t9\<rparr>)"
  by (simp_all add: wf_db_def wf_defs)

lemma wf_dbD:
  assumes "wf_db db"
  shows "wf_domains db" and "wf_mailboxes db" and "wf_aliases db" and "wf_messages db"
    and "wf_dkim db" and "wf_policy db" and "wf_limits db" and "wf_tokens db"
    and "wf_smtp_keys db" and "wf_logs db"
  using assms by (simp_all add: wf_db_def)

end
