(* ===== verification/Go_Regexp.thy ===== *)
theory Go_Regexp
  imports Go_Strings
begin

text \<open>
  The subset of Go's package \<open>regexp\<close> that the program's patterns use: classes given by
  ranges of characters, concatenation, \<open>*\<close>, \<open>+\<close>, \<open>?\<close> and \<open>{0,n}\<close>. Every pattern of the
  program but the two of the bounce classifier is anchored by \<open>^\<close> and \<open>$\<close>, so matching is
  membership of the whole string in the language. A pattern is data; \<open>rx_match\<close> decides it
  by derivatives and \<open>rx_match_iff\<close> proves that it decides the language. The patterns are
  thereby transcribed from the source, and the facts about the strings they accept are
  facts about languages.
\<close>

section \<open>Patterns and their languages\<close>

datatype rx =
    Never
  | Empty
  | Cls "(char \<times> char) list"
  | Seq rx rx
  | Star rx
  | UpTo nat rx

definition in_cls :: "(char \<times> char) list \<Rightarrow> char \<Rightarrow> bool" where
  "in_cls rs c \<longleftrightarrow> (\<exists>(lo, hi)\<in>set rs. byte lo \<le> byte c \<and> byte c \<le> byte hi)"

abbreviation one :: "char \<Rightarrow> rx" where
  "one c \<equiv> Cls [(c, c)]"

abbreviation opt :: "rx \<Rightarrow> rx" where
  "opt r \<equiv> UpTo 1 r"

abbreviation plus_rx :: "rx \<Rightarrow> rx" where
  "plus_rx r \<equiv> Seq r (Star r)"

inductive matches :: "rx \<Rightarrow> string \<Rightarrow> bool" where
  empty: "matches Empty []"
| cls: "in_cls rs c \<Longrightarrow> matches (Cls rs) [c]"
| seq: "matches r u \<Longrightarrow> matches s v \<Longrightarrow> matches (Seq r s) (u @ v)"
| star_Nil: "matches (Star r) []"
| star_step: "matches r u \<Longrightarrow> matches (Star r) v \<Longrightarrow> matches (Star r) (u @ v)"
| upto_Nil: "matches (UpTo n r) []"
| upto_step: "matches r u \<Longrightarrow> matches (UpTo n r) v \<Longrightarrow> matches (UpTo (Suc n) r) (u @ v)"

inductive_simps matches_Never [simp]: "matches Never s"
inductive_simps matches_Empty [simp]: "matches Empty s"
inductive_simps matches_Cls: "matches (Cls rs) s"
inductive_simps matches_Seq: "matches (Seq r1 r2) s"
inductive_cases matches_StarE: "matches (Star r) s"
inductive_cases matches_UpToE: "matches (UpTo n r) s"

section \<open>The matcher\<close>

fun nullable :: "rx \<Rightarrow> bool" where
  "nullable Never = False"
| "nullable Empty = True"
| "nullable (Cls rs) = False"
| "nullable (Seq r s) = (nullable r \<and> nullable s)"
| "nullable (Star r) = True"
| "nullable (UpTo n r) = True"

fun mk_seq :: "rx \<Rightarrow> rx \<Rightarrow> rx" where
  "mk_seq Never s = Never"
| "mk_seq Empty s = s"
| "mk_seq r s = Seq r s"

text \<open>A derivative is a list of alternatives, since the patterns have no \<open>|\<close>.\<close>

fun deriv :: "char \<Rightarrow> rx \<Rightarrow> rx list" where
  "deriv c Never = []"
| "deriv c Empty = []"
| "deriv c (Cls rs) = (if in_cls rs c then [Empty] else [])"
| "deriv c (Seq r s) =
     map (\<lambda>d. mk_seq d s) (deriv c r) @ (if nullable r then deriv c s else [])"
| "deriv c (Star r) = map (\<lambda>d. mk_seq d (Star r)) (deriv c r)"
| "deriv c (UpTo n r) =
     (case n of 0 \<Rightarrow> [] | Suc m \<Rightarrow> map (\<lambda>d. mk_seq d (UpTo m r)) (deriv c r))"

fun match_alts :: "rx list \<Rightarrow> string \<Rightarrow> bool" where
  "match_alts rs [] = list_ex nullable rs"
| "match_alts rs (c # s) = match_alts (remdups (concat (map (deriv c) rs))) s"

definition rx_match :: "rx \<Rightarrow> string \<Rightarrow> bool" where
  "rx_match r s = match_alts [r] s"

lemma nullable_iff: "nullable r \<longleftrightarrow> matches r []"
  by (induction r) (auto simp: matches_Cls matches_Seq intro: matches.intros)

lemma matches_mk_seq: "matches (mk_seq r s) w \<longleftrightarrow> matches (Seq r s) w"
  by (cases r) (auto simp: matches_Seq)

lemma star_Cons:
  "matches (Star r) (c # s) \<longleftrightarrow> (\<exists>u v. s = u @ v \<and> matches r (c # u) \<and> matches (Star r) v)"
proof
  have "matches q w \<Longrightarrow> q = Star r \<Longrightarrow> w = c # s \<Longrightarrow>
      \<exists>u v. s = u @ v \<and> matches r (c # u) \<and> matches (Star r) v" for q w
    by (induction rule: matches.induct) (auto simp: append_eq_Cons_conv)
  then show "matches (Star r) (c # s) \<Longrightarrow> \<exists>u v. s = u @ v \<and> matches r (c # u) \<and> matches (Star r) v"
    by blast
next
  assume "\<exists>u v. s = u @ v \<and> matches r (c # u) \<and> matches (Star r) v"
  then show "matches (Star r) (c # s)"
    using matches.star_step by fastforce
qed

lemma upto_mono: "matches (UpTo n r) s \<Longrightarrow> matches (UpTo (Suc n) r) s"
proof -
  have "matches q s \<Longrightarrow> q = UpTo n r \<Longrightarrow> matches (UpTo (Suc n) r) s" for q
    by (induction arbitrary: n rule: matches.induct) (auto intro: matches.intros)
  then show "matches (UpTo n r) s \<Longrightarrow> matches (UpTo (Suc n) r) s" by blast
qed

lemma upto_Cons:
  "matches (UpTo n r) (c # s) \<longleftrightarrow>
     (\<exists>m u v. n = Suc m \<and> s = u @ v \<and> matches r (c # u) \<and> matches (UpTo m r) v)"
proof
  have "matches q w \<Longrightarrow> q = UpTo n r \<Longrightarrow> w = c # s \<Longrightarrow>
      \<exists>m u v. n = Suc m \<and> s = u @ v \<and> matches r (c # u) \<and> matches (UpTo m r) v" for q w
    by (induction arbitrary: n rule: matches.induct)
      (auto simp: append_eq_Cons_conv dest: upto_mono)
  then show "matches (UpTo n r) (c # s) \<Longrightarrow>
      \<exists>m u v. n = Suc m \<and> s = u @ v \<and> matches r (c # u) \<and> matches (UpTo m r) v"
    by blast
next
  assume "\<exists>m u v. n = Suc m \<and> s = u @ v \<and> matches r (c # u) \<and> matches (UpTo m r) v"
  then show "matches (UpTo n r) (c # s)"
    using matches.upto_step by fastforce
qed

lemma deriv_iff: "(\<exists>d\<in>set (deriv c r). matches d s) \<longleftrightarrow> matches r (c # s)"
proof (induction r arbitrary: s)
  case (Seq r1 r2)
  have "(\<exists>d\<in>set (map (\<lambda>d. mk_seq d r2) (deriv c r1)). matches d s) \<longleftrightarrow>
      (\<exists>u v. s = u @ v \<and> matches r1 (c # u) \<and> matches r2 v)"
    by (auto simp: matches_mk_seq matches_Seq) (metis Seq.IH(1))+
  moreover have "matches (Seq r1 r2) (c # s) \<longleftrightarrow>
      (\<exists>u v. s = u @ v \<and> matches r1 (c # u) \<and> matches r2 v) \<or> matches r1 [] \<and> matches r2 (c # s)"
    by (auto simp: matches_Seq Cons_eq_append_conv)
  moreover have "(\<exists>d\<in>set (deriv c (Seq r1 r2)). matches d s) \<longleftrightarrow>
      (\<exists>d\<in>set (map (\<lambda>d. mk_seq d r2) (deriv c r1)). matches d s) \<or>
      nullable r1 \<and> (\<exists>d\<in>set (deriv c r2). matches d s)"
    by auto
  ultimately show ?case
    by (simp only: Seq.IH(2) nullable_iff)
next
  case (Star r)
  show ?case
    by (auto simp: matches_mk_seq matches_Seq star_Cons) (metis Star.IH)+
next
  case (UpTo n r)
  show ?case
    by (cases n) (auto simp: matches_mk_seq matches_Seq upto_Cons, (metis UpTo.IH)+)
qed (auto simp: matches_Cls)

lemma match_alts_iff: "match_alts rs s \<longleftrightarrow> (\<exists>r\<in>set rs. matches r s)"
proof (induction s arbitrary: rs)
  case Nil
  then show ?case by (auto simp: list_ex_iff nullable_iff)
next
  case (Cons c s)
  then show ?case by (auto simp flip: deriv_iff)
qed

lemma rx_match_iff: "rx_match r s \<longleftrightarrow> matches r s"
  by (simp add: rx_match_def match_alts_iff)

section \<open>The characters of a match\<close>

fun rx_chars :: "rx \<Rightarrow> (char \<times> char) list" where
  "rx_chars Never = []"
| "rx_chars Empty = []"
| "rx_chars (Cls rs) = rs"
| "rx_chars (Seq r s) = rx_chars r @ rx_chars s"
| "rx_chars (Star r) = rx_chars r"
| "rx_chars (UpTo n r) = rx_chars r"

lemma in_cls_append [simp]: "in_cls (rs @ qs) c \<longleftrightarrow> in_cls rs c \<or> in_cls qs c"
  by (auto simp: in_cls_def)

lemma matches_chars: "matches r s \<Longrightarrow> c \<in> set s \<Longrightarrow> in_cls (rx_chars r) c"
  by (induction arbitrary: c rule: matches.induct) auto

lemma rx_match_chars: "rx_match r s \<Longrightarrow> c \<in> set s \<Longrightarrow> in_cls (rx_chars r) c"
  unfolding rx_match_iff by (rule matches_chars)

lemma rx_match_not_char:
  "rx_match r s \<Longrightarrow> \<not> in_cls (rx_chars r) c \<Longrightarrow> c \<notin> set s"
  using rx_match_chars by blast

text \<open>A pattern that starts with a class accepts only strings that start in it.\<close>

lemma matches_Seq_Cls:
  "matches (Seq (Cls rs) r) s \<Longrightarrow> s \<noteq> [] \<and> in_cls rs (hd s)"
  by (auto simp: matches_Seq matches_Cls)

section \<open>Character classes shared by the patterns\<close>

abbreviation az09 :: "(char \<times> char) list" where
  "az09 \<equiv> [(CHR ''a'', CHR ''z''), (CHR ''0'', CHR ''9'')]"

abbreviation alnum :: "(char \<times> char) list" where
  "alnum \<equiv> [(CHR ''A'', CHR ''Z''), (CHR ''a'', CHR ''z''), (CHR ''0'', CHR ''9'')]"

text \<open>\<open>[a-z0-9]([a-z0-9-]{0,61}[a-z0-9])?\<close>, one DNS label, over a class of letters.\<close>

definition label_rx :: "(char \<times> char) list \<Rightarrow> rx" where
  "label_rx cls =
     Seq (Cls cls) (opt (Seq (UpTo 61 (Cls (cls @ [(CHR ''-'', CHR ''-'')]))) (Cls cls)))"

text \<open>\<open>label(\.label)+\<close>\<close>

definition domain_rx :: "(char \<times> char) list \<Rightarrow> rx" where
  "domain_rx cls = Seq (label_rx cls) (plus_rx (Seq (one (CHR ''.'')) (label_rx cls)))"

lemma rx_chars_domain:
  "in_cls (rx_chars (domain_rx cls)) c \<longleftrightarrow> in_cls cls c \<or> c = CHR ''-'' \<or> c = CHR ''.''"
  by (auto simp: domain_rx_def label_rx_def in_cls_def simp flip: byte_eq_iff)

lemma domain_rx_not_Nil: "rx_match (domain_rx cls) s \<Longrightarrow> s \<noteq> [] \<and> in_cls cls (hd s)"
  by (auto simp: rx_match_iff domain_rx_def label_rx_def matches_Seq matches_Cls)

section \<open>Counted repetition\<close>

fun rx_rep :: "nat \<Rightarrow> rx \<Rightarrow> rx" where
  "rx_rep 0 r = Empty"
| "rx_rep (Suc n) r = Seq r (rx_rep n r)"

lemma matches_rx_rep_Cls:
  "matches (rx_rep n (Cls rs)) s \<longleftrightarrow> length s = n \<and> (\<forall>c\<in>set s. in_cls rs c)"
proof (induction n arbitrary: s)
  case 0
  show ?case by auto
next
  case (Suc n)
  have "matches (Seq (Cls rs) r) (c # t) \<longleftrightarrow> in_cls rs c \<and> matches r t" for r c t
    using matches.seq [OF matches.cls, of rs c r t]
    by (auto simp: matches_Seq matches_Cls Cons_eq_append_conv)
  moreover have "\<not> matches (Seq (Cls rs) r) []" for r
    by (simp add: matches_Seq matches_Cls)
  ultimately show ?case
    by (cases s) (auto simp: Suc)
qed

lemma matches_UpTo_Cls:
  "matches (UpTo n (Cls rs)) s \<longleftrightarrow> length s \<le> n \<and> (\<forall>c\<in>set s. in_cls rs c)"
proof (induction n arbitrary: s)
  case 0
  show ?case by (cases s) (auto simp: upto_Cons intro: matches.intros)
next
  case (Suc n)
  show ?case by (cases s) (auto simp: upto_Cons Suc matches_Cls intro: matches.intros)
qed

end
