(* ===== verification/Domains.thy ===== *)
theory Domains
  imports Database Go_Regexp
begin

text \<open>
  The package \<open>internal/domain\<close>: the repository over the table \<open>domains\<close> and the service
  that normalises and validates names. The facts: the result of every operation on every
  branch, the invariant that stored names are normalised valid names, uniqueness, and the
  cascade of a deletion.
\<close>

section \<open>Errors\<close>

definition err_domain_not_found :: err where
  "err_domain_not_found = Sentinel ''domain'' ''ErrDomainNotFound''"

definition err_domain_exists :: err where
  "err_domain_exists = Sentinel ''domain'' ''ErrDomainExists''"

definition err_invalid_domain :: err where
  "err_invalid_domain = Sentinel ''domain'' ''ErrInvalidDomain''"

lemmas [errs] = err_no_rows_def err_domain_not_found_def err_domain_exists_def
  err_invalid_domain_def

section \<open>Repository\<close>

definition domain_constraints :: "domain \<Rightarrow> db \<Rightarrow> (bool \<times> err) list" where
  "domain_constraints d db =
     [(clashes dom_id d (domains db), PgUnique ''domains_pkey''),
      (clashes (\<lambda>x. to_lower (dom_name x)) d (domains db), PgUnique ''idx_domains_name_lower'')]"

definition domain_repo_create :: "domain \<Rightarrow> db \<Rightarrow> unit result \<times> db" where
  "domain_repo_create d db =
     (case sql_insert (domain_constraints d) (\<lambda>db. db\<lparr>domains := domains db @ [d]\<rparr>) db of
        (Inl err, db1) \<Rightarrow> (Inl (Wrap ''repository create domain'' err), db1)
      | (Inr n, db1) \<Rightarrow> (Inr (), db1))"

definition domain_get_by_name :: "string \<Rightarrow> db \<Rightarrow> domain result \<times> db" where
  "domain_get_by_name name db =
     (case sql_query_row (\<lambda>db. find (\<lambda>d. dom_name d = name) (domains db)) db of
        (Inl err, db1) \<Rightarrow>
          (if err_is err err_no_rows then (Inl err_domain_not_found, db1)
           else (Inl (Wrap ''repository get domain by name'' err), db1))
      | (Inr d, db1) \<Rightarrow> (Inr d, db1))"

definition domain_get_by_id :: "uuid \<Rightarrow> db \<Rightarrow> domain result \<times> db" where
  "domain_get_by_id i db =
     (case sql_query_row (\<lambda>db. find (\<lambda>d. dom_id d = i) (domains db)) db of
        (Inl err, db1) \<Rightarrow>
          (if err_is err err_no_rows then (Inl err_domain_not_found, db1)
           else (Inl (Wrap ''repository get domain by id'' err), db1))
      | (Inr d, db1) \<Rightarrow> (Inr d, db1))"

definition domain_repo_list :: "db \<Rightarrow> domain list result \<times> db" where
  "domain_repo_list db =
     (case sql_query (\<lambda>db. sort_key (\<lambda>d. - dom_created_at d) (domains db)) db of
        (Inl err, db1) \<Rightarrow> (Inl (Wrap ''repository list domains'' err), db1)
      | (Inr ds, db1) \<Rightarrow> (Inr ds, db1))"

definition domain_repo_delete :: "string \<Rightarrow> db \<Rightarrow> unit result \<times> db" where
  "domain_repo_delete name db =
     (case sql_exec (\<lambda>db. (Inr (affected (\<lambda>d. dom_name d = name) (domains db)),
                          del_domains (\<lambda>d. dom_name d = name) db)) db of
        (Inl err, db1) \<Rightarrow> (Inl (Wrap ''repository delete domain'' err), db1)
      | (Inr n, db1) \<Rightarrow> (if n = 0 then (Inl err_domain_not_found, db1) else (Inr (), db1)))"

section \<open>Service\<close>

text \<open>
  The pattern is matched case-insensitively, but the service lowers the name first, so over
  ASCII the lower-case class is enough for every caller.
\<close>

definition is_valid_domain_name :: "string \<Rightarrow> bool" where
  "is_valid_domain_name name \<longleftrightarrow>
     0 < length name \<and> length name \<le> 253 \<and> rx_match (domain_rx alnum) name"

text \<open>\<open>newid\<close> is the identifier \<open>uuid.New\<close> draws, \<open>now\<close> the clock.\<close>

definition domain_create :: "uuid \<Rightarrow> instant \<Rightarrow> string \<Rightarrow> db \<Rightarrow> domain result \<times> db" where
  "domain_create newid now nm db =
     (let name = trim_space (to_lower nm)
      in if \<not> is_valid_domain_name name then (Inl err_invalid_domain, db)
         else (case domain_get_by_name name db of
             (Inr existing, db1) \<Rightarrow> (Inl err_domain_exists, db1)
           | (Inl err, db1) \<Rightarrow>
               if \<not> err_is err err_domain_not_found then (Inl err, db1)
               else let d = \<lparr>dom_id = newid, dom_name = name, dom_status = ''active'',
                             dom_created_at = now, dom_updated_at = now\<rparr>
                    in (case domain_repo_create d db1 of
                          (Inl err, db2) \<Rightarrow> (Inl err, db2)
                        | (Inr u, db2) \<Rightarrow> (Inr d, db2))))"

definition domain_svc_get_by_name :: "string \<Rightarrow> db \<Rightarrow> domain result \<times> db" where
  "domain_svc_get_by_name nm db =
     (let name = trim_space (to_lower nm)
      in if name = [] then (Inl err_invalid_domain, db) else domain_get_by_name name db)"

definition domain_list :: "db \<Rightarrow> domain list result \<times> db" where
  "domain_list db = domain_repo_list db"

definition domain_delete :: "string \<Rightarrow> db \<Rightarrow> unit result \<times> db" where
  "domain_delete nm db =
     (let name = trim_space (to_lower nm)
      in if name = [] then (Inl err_invalid_domain, db) else domain_repo_delete name db)"

section \<open>Facts about the repository\<close>

lemma domain_get_by_name_eq [sql_simps]:
  "domain_get_by_name name db =
     (if fails db then Inl (Wrap ''repository get domain by name'' Fault)
      else case find (\<lambda>d. dom_name d = name) (domains db) of
             None \<Rightarrow> Inl err_domain_not_found | Some d \<Rightarrow> Inr d, tick db)"
  by (simp add: domain_get_by_name_def sql_simps errs split: option.splits)

lemma domain_get_by_id_eq [sql_simps]:
  "domain_get_by_id i db =
     (if fails db then Inl (Wrap ''repository get domain by id'' Fault)
      else case find (\<lambda>d. dom_id d = i) (domains db) of
             None \<Rightarrow> Inl err_domain_not_found | Some d \<Rightarrow> Inr d, tick db)"
  by (simp add: domain_get_by_id_def sql_simps errs split: option.splits)

lemma wf_domain_insert:
  assumes "wf_db db" and "first_violation (domain_constraints d db) = None"
  shows "wf_db (db\<lparr>domains := domains db @ [d]\<rparr>)"
  using assms
  by (auto simp: wf_db_def wf_defs domain_constraints_def ref_append sql_simps split: if_splits)

lemma wf_domain_repo_create: "wf_db db \<Longrightarrow> wf_db (snd (domain_repo_create d db))"
  using wf_domain_insert [of "tick db" d]
  by (auto simp: domain_repo_create_def sql_simps split: option.splits)

lemma wf_domain_repo_delete: "wf_db db \<Longrightarrow> wf_db (snd (domain_repo_delete name db))"
  by (simp add: domain_repo_delete_def sql_simps wf_del_domains)

named_theorems wf_ops \<open>the operations keep the database well-formed\<close>

lemma wf_domain_create [wf_ops]: "wf_db db \<Longrightarrow> wf_db (snd (domain_create newid now nm db))"
  using wf_domain_repo_create
  by (auto simp: domain_create_def sql_simps Let_def split: option.splits prod.splits sum.splits)
    (metis (no_types, lifting) snd_conv wf_db_tick)+

lemma wf_domain_delete [wf_ops]: "wf_db db \<Longrightarrow> wf_db (snd (domain_delete nm db))"
  by (simp add: domain_delete_def wf_domain_repo_delete Let_def)

section \<open>Facts about names\<close>

lemma valid_domain_name_chars:
  "is_valid_domain_name s \<Longrightarrow> c \<in> set s \<Longrightarrow> in_cls alnum c \<or> c = CHR ''-'' \<or> c = CHR ''.''"
  using rx_match_chars [of "domain_rx alnum" s c] by (simp add: is_valid_domain_name_def rx_chars_domain)

lemma valid_domain_no_slash: "is_valid_domain_name s \<Longrightarrow> CHR ''/'' \<notin> set s"
  using valid_domain_name_chars [of s "CHR ''/''"] by (auto simp: in_cls_def byte_def)


text \<open>The normal form of stored names.\<close>

definition domains_canon :: "db \<Rightarrow> bool" where
  "domains_canon db \<longleftrightarrow>
     (\<forall>d\<in>set (domains db). is_valid_domain_name (dom_name d) \<and> canon (dom_name d) = dom_name d)"

lemma domains_canon_lower: "domains_canon db \<Longrightarrow> d \<in> set (domains db) \<Longrightarrow> to_lower (dom_name d) = dom_name d"
  unfolding domains_canon_def by (metis to_lower_canon)

lemma find_name_fresh:
  assumes "wf_db db" and "domains_canon db" and "find (\<lambda>d. dom_name d = n) (domains db) = None"
    and "to_lower n = n"
  shows "\<not> clashes (\<lambda>x. to_lower (dom_name x)) (d\<lparr>dom_name := n\<rparr>) (domains db)"
  using assms by (auto simp: sql_simps find_key_None_iff domains_canon_lower)

lemma canon_def': "trim_space (to_lower s) = canon s"
  by (simp add: canon_def)

lemma domains_canon_tick [simp]: "domains_canon (tick db) = domains_canon db"
  by (simp add: domains_canon_def)

lemma domain_create_keeps_canon:
  assumes "domains_canon db"
  shows "domains_canon (snd (domain_create newid now nm db))"
  using assms
  by (auto simp: domain_create_def domain_repo_create_def sql_simps Let_def canon_def'
      domains_canon_def split: option.splits)

lemma domains_canon_subset:
  "domains_canon db \<Longrightarrow> set (domains db') \<subseteq> set (domains db) \<Longrightarrow> domains_canon db'"
  by (auto simp: domains_canon_def)

lemma domain_delete_domains: "set (domains (snd (domain_delete nm db))) \<subseteq> set (domains db)"
  by (auto simp: domain_delete_def domain_repo_delete_def sql_simps Let_def del_domains_def
      del_mailboxes_def tbl_simps)

section \<open>Properties\<close>

text \<open>
  Creating a domain: the name is normalised; an invalid name and a name that exists (in
  any spelling) are refused without effect; otherwise exactly one active row with the
  normalised name is added.
\<close>

theorem domain_create_outcome:
  assumes "wf_db db" and "domains_canon db" and "faults db = []"
    and "newid \<notin> dom_id ` set (domains db)"
  shows "domain_create newid now nm db =
    (if \<not> is_valid_domain_name (canon nm) then (Inl err_invalid_domain, db)
     else if canon nm \<in> dom_name ` set (domains db) then (Inl err_domain_exists, db)
     else let d = \<lparr>dom_id = newid, dom_name = canon nm, dom_status = ''active'',
                   dom_created_at = now, dom_updated_at = now\<rparr>
          in (Inr d, db\<lparr>domains := domains db @ [d]\<rparr>))"
proof (cases "find (\<lambda>d. dom_name d = canon nm) (domains db)")
  case None
  then have new: "canon nm \<notin> dom_name ` set (domains db)"
    by (auto simp: find_key_None_iff)
  have "\<forall>x\<in>set (domains db). to_lower (dom_name x) \<noteq> canon nm"
    using new domains_canon_lower [OF assms(2)] by force
  with None new assms show ?thesis
    by (auto simp: domain_create_def canon_def' Let_def sql_simps errs domain_repo_create_def
        domain_constraints_def)
next
  case (Some d)
  from find_SomeD [OF this] have "canon nm \<in> dom_name ` set (domains db)"
    by (metis imageI)
  with Some assms show ?thesis
    by (simp add: domain_create_def canon_def' Let_def sql_simps)
qed

theorem domain_create_outcome_witness:
  "fst (domain_create 7 0 '' Example.ORG '' empty_db) =
     Inr \<lparr>dom_id = 7, dom_name = ''example.org'', dom_status = ''active'',
          dom_created_at = 0, dom_updated_at = 0\<rparr>"
proof -
  have h: "wf_db empty_db" "domains_canon empty_db" "faults empty_db = []"
    "7 \<notin> dom_id ` set (domains empty_db)"
    by (simp_all add: domains_canon_def empty_db_def wf_empty_db [unfolded empty_db_def])
  have "canon '' Example.ORG '' = ''example.org''" by code_simp
  moreover have "is_valid_domain_name ''example.org''" by code_simp
  ultimately show ?thesis
    using domain_create_outcome [OF h, of 0 "'' Example.ORG ''"]
    by (simp add: empty_db_def Let_def)
qed

text \<open>
  C9. A deleted domain takes with it exactly the rows that depend on it: its mailboxes with
  their messages and limits, its aliases, DKIM keys, mail policy and SMTP credentials; the
  rows of every other domain stay, and so do all tokens, message events and entries of the
  audit log, which refer to no domain.
\<close>

theorem domain_delete_cascade:
  assumes "wf_db db" and "domains_canon db"
    and "domain_delete nm db = (Inr (), db')"
  shows "\<exists>d\<in>set (domains db). dom_name d = canon nm \<and>
    set (domains db') = set (domains db) - {d} \<and>
    mailboxes db' = filter (\<lambda>m. mb_domain_id m \<noteq> dom_id d) (mailboxes db) \<and>
    messages db' = filter (\<lambda>m. msg_mailbox_id m \<in> mb_id ` set (mailboxes db')) (messages db) \<and>
    mailbox_limits db' = filter (\<lambda>l. lim_mailbox_id l \<in> mb_id ` set (mailboxes db')) (mailbox_limits db) \<and>
    aliases db' = filter (\<lambda>a. al_domain_id a \<noteq> dom_id d) (aliases db) \<and>
    domain_dkim db' = filter (\<lambda>k. dk_domain_id k \<noteq> dom_id d) (domain_dkim db) \<and>
    domain_mail_policy db' = filter (\<lambda>p. pol_domain_id p \<noteq> dom_id d) (domain_mail_policy db) \<and>
    smtp_credentials db' = filter (\<lambda>k. sk_domain_id k \<noteq> dom_id d) (smtp_credentials db) \<and>
    api_tokens db' = api_tokens db \<and> message_events db' = message_events db \<and> audit_logs db' = audit_logs db"
proof -
  from assms(3) have db': "db' = del_domains (\<lambda>d. dom_name d = canon nm) (tick db)"
    and n: "affected (\<lambda>d. dom_name d = canon nm) (domains db) \<noteq> 0"
    by (auto simp: domain_delete_def domain_repo_delete_def sql_simps Let_def canon_def'
        split: if_splits)
  then obtain d where d: "d \<in> set (domains db)" "dom_name d = canon nm"
    by (auto simp: tbl_simps)
  have uniq: "x = d" if "x \<in> set (domains db)" "dom_name x = canon nm" for x
    using assms(1) that d distinct_key_eq [of "\<lambda>d. to_lower (dom_name d)" "domains db" x d]
    by (simp add: wf_db_def wf_defs)
  then have gone: "{x \<in> set (domains db). dom_name x = canon nm} = {d}"
    using d by blast
  have msgs: "(msg_mailbox_id m \<in> mb_id ` {x \<in> set (mailboxes db). mb_domain_id x \<noteq> dom_id d}) \<longleftrightarrow>
      msg_mailbox_id m \<notin> mb_id ` {x \<in> set (mailboxes db). mb_domain_id x = dom_id d}"
    if "m \<in> set (messages db)" for m
    using assms(1) that by (intro key_partition) (auto simp: wf_db_def wf_defs ref_def)
  have lims: "(lim_mailbox_id l \<in> mb_id ` {x \<in> set (mailboxes db). mb_domain_id x \<noteq> dom_id d}) \<longleftrightarrow>
      lim_mailbox_id l \<notin> mb_id ` {x \<in> set (mailboxes db). mb_domain_id x = dom_id d}"
    if "l \<in> set (mailbox_limits db)" for l
    using assms(1) that by (intro key_partition) (auto simp: wf_db_def wf_defs ref_def)
  have tabs: "domains db' = filter (\<lambda>x. dom_name x \<noteq> canon nm) (domains db)"
    "mailboxes db' = filter (\<lambda>m. mb_domain_id m \<noteq> dom_id d) (mailboxes db)"
    "messages db' = filter (\<lambda>m. msg_mailbox_id m \<notin>
       mb_id ` {x \<in> set (mailboxes db). mb_domain_id x = dom_id d}) (messages db)"
    "mailbox_limits db' = filter (\<lambda>l. lim_mailbox_id l \<notin>
       mb_id ` {x \<in> set (mailboxes db). mb_domain_id x = dom_id d}) (mailbox_limits db)"
    by (simp_all add: db' del_domains_def del_mailboxes_def Let_def gone delete_where_def)
  show ?thesis
  proof (intro bexI [of _ d] conjI)
    show "set (domains db') = set (domains db) - {d}"
      unfolding tabs set_filter using gone by blast
    show "messages db' = filter (\<lambda>m. msg_mailbox_id m \<in> mb_id ` set (mailboxes db')) (messages db)"
      unfolding tabs set_filter by (rule filter_cong [OF refl]) (rule msgs [symmetric])
    show "mailbox_limits db' = filter (\<lambda>l. lim_mailbox_id l \<in> mb_id ` set (mailboxes db')) (mailbox_limits db)"
      unfolding tabs set_filter by (rule filter_cong [OF refl]) (rule lims [symmetric])
  qed (simp_all add: d tabs, simp_all add: db' del_domains_def del_mailboxes_def Let_def gone
      delete_where_def)
qed

text \<open>Two domains, each with a mailbox that has limits; the first domain is deleted.\<close>

definition example_domain_of :: "uuid \<Rightarrow> string \<Rightarrow> domain" where
  "example_domain_of i nm = \<lparr>dom_id = i, dom_name = nm, dom_status = ''active'', dom_created_at = 0, dom_updated_at = 0\<rparr>"

definition example_mailbox_of :: "uuid \<Rightarrow> uuid \<Rightarrow> string \<Rightarrow> mailbox" where
  "example_mailbox_of i d em =
     \<lparr>mb_id = i, mb_domain_id = d, mb_email = em, mb_password_hash = ''x'', mb_quota_bytes = 1, mb_used_bytes = 0,
      mb_status = ''active'', mb_provisioning_status = ''ready'', mb_identity_provider = ''local'',
      mb_created_at = 0, mb_updated_at = 0, mb_domain_name = ''''\<rparr>"

definition example_limits_of :: "uuid \<Rightarrow> mailbox_limits" where
  "example_limits_of i =
     \<lparr>lim_mailbox_id = i, lim_messages_per_minute = 30, lim_messages_per_hour = 300, lim_recipients_per_day = 1000,
      lim_enabled = True, lim_created_at = 0, lim_updated_at = 0\<rparr>"

definition example_two_domains :: db where
  "example_two_domains = empty_db\<lparr>
     domains := [example_domain_of 7 ''example.org'', example_domain_of 8 ''example.net''],
     mailboxes := [example_mailbox_of 1 7 ''ann@example.org'', example_mailbox_of 2 8 ''bob@example.net''],
     mailbox_limits := [example_limits_of 1, example_limits_of 2]\<rparr>"

theorem domain_delete_cascade_witness:
  "\<exists>db'. domain_delete '' Example.ORG'' example_two_domains = (Inr (), db') \<and>
     domains db' = [example_domain_of 8 ''example.net''] \<and>
     mailboxes db' = [example_mailbox_of 2 8 ''bob@example.net''] \<and>
     mailbox_limits db' = [example_limits_of 2]"
proof -
  have name: "canon '' Example.ORG'' = ''example.org''" "canon ''example.org'' = ''example.org''"
    "canon ''example.net'' = ''example.net''" "to_lower ''example.org'' = ''example.org''"
    "to_lower ''example.net'' = ''example.net''" "to_lower ''ann@example.org'' = ''ann@example.org''"
    "to_lower ''bob@example.net'' = ''bob@example.net''" "is_valid_domain_name ''example.org''"
    "is_valid_domain_name ''example.net''"
    by code_simp+
  note ex = example_two_domains_def example_domain_of_def example_mailbox_of_def example_limits_of_def
  have "wf_db example_two_domains" "domains_canon example_two_domains"
    by (simp_all add: ex empty_db_def wf_db_def wf_defs ref_def domains_canon_def name)
  moreover have del: "fst (domain_delete '' Example.ORG'' example_two_domains) = Inr ()" by code_simp
  moreover have doms: "domains (snd (domain_delete '' Example.ORG'' example_two_domains)) = [example_domain_of 8 ''example.net'']"
    by code_simp
  ultimately have
    "mailboxes (snd (domain_delete '' Example.ORG'' example_two_domains)) = [example_mailbox_of 2 8 ''bob@example.net''] \<and>
     mailbox_limits (snd (domain_delete '' Example.ORG'' example_two_domains)) = [example_limits_of 2]"
    using domain_delete_cascade [of example_two_domains "'' Example.ORG''" "snd (domain_delete '' Example.ORG'' example_two_domains)"]
    by (auto simp: ex name prod_eq_iff)
  with del doms show ?thesis by (metis prod.collapse)
qed

end
