(* ===== verification/Provisioning.thy ===== *)
theory Provisioning
  imports Disk Go_Regexp
begin

text \<open>
  The package \<open>internal/provisioning\<close>: the path of a mailbox below the Maildir root, the
  filesystem provisioner that creates, removes and inspects it, and the interface
  \<open>Provisioner\<close>, as a record of operations on a state and as a locale of the laws its
  clients rely on. The filesystem provisioner satisfies the laws.
\<close>

section \<open>The interface\<close>

record prov_mailbox =
  pm_id :: uuid
  pm_email :: string
  pm_domain :: string
  pm_quota_bytes :: int

record check_result =
  passed :: bool
  check_message :: string

definition no_result :: check_result where
  "no_result = \<lparr>passed = False, check_message = ''''\<rparr>"

record doctor_report =
  rep_email :: string
  rep_status :: string
  rep_provision_status :: string
  rep_root :: path
  rep_maildir_exists :: check_result
  rep_cur_exists :: check_result
  rep_new_exists :: check_result
  rep_tmp_exists :: check_result
  rep_ownership :: check_result
  rep_permission :: check_result
  rep_healthy :: bool

record 'k provisioner =
  provision :: "prov_mailbox \<Rightarrow> 'k \<Rightarrow> unit result \<times> 'k"
  deprovision :: "prov_mailbox \<Rightarrow> 'k \<Rightarrow> unit result \<times> 'k"
  inspect :: "prov_mailbox \<Rightarrow> 'k \<Rightarrow> doctor_report result \<times> 'k"

definition err_invalid_mailbox :: err where
  "err_invalid_mailbox = Sentinel ''provisioning'' ''ErrInvalidMailbox''"

definition err_path_traversal :: err where
  "err_path_traversal = Sentinel ''provisioning'' ''ErrPathTraversal''"

lemmas [errs] = err_invalid_mailbox_def err_path_traversal_def

section \<open>The filesystem provisioner\<close>

record fs_provisioner =
  prov_root :: path
  prov_uid :: int
  prov_gid :: int

text \<open>\<open>^[a-z0-9]([a-z0-9_.+-]*[a-z0-9])?$\<close> and the domain pattern without \<open>(?i)\<close>.\<close>

definition localpart_rx :: rx where
  "localpart_rx =
     Seq (Cls az09)
       (opt (Seq (Star (Cls (az09 @ [(CHR ''_'', CHR ''_''), (CHR ''.'', CHR ''.''),
                                     (CHR ''+'', CHR ''+''), (CHR ''-'', CHR ''-'')])))
                 (Cls az09)))"

definition prov_domain_rx :: rx where
  "prov_domain_rx = domain_rx az09"

definition calculate_path :: "path \<Rightarrow> string \<Rightarrow> path result" where
  "calculate_path root em =
     (let email = trim_space (to_lower em);
          parts = str_split CHR ''@'' email
      in if length parts \<noteq> 2 \<or> parts ! 0 = [] \<or> parts ! 1 = [] then Inl err_invalid_mailbox
         else let localpart = parts ! 0; domain = parts ! 1
              in if contains localpart ''..'' \<or> contains domain ''..'' \<or>
                    contains_any localpart [CHR ''/'', CHR 0x5C] \<or>
                    contains_any domain [CHR ''/'', CHR 0x5C] then Inl err_path_traversal
                 else if \<not> rx_match localpart_rx localpart \<or> \<not> rx_match prov_domain_rx domain
                 then Inl err_invalid_mailbox
                 else let target = path_join root [domain, localpart, ''Maildir'']
                      in if has_prefix (path_rel root target) ''..'' then Inl err_path_traversal
                         else Inr target)"

fun prov_dirs :: "fs_provisioner \<Rightarrow> path list \<Rightarrow> disk \<Rightarrow> unit result \<times> disk" where
  "prov_dirs p [] k = (Inr (), k)"
| "prov_dirs p (dir # dirs) k =
     (case os_mkdir_all 488 dir k of
        (Inl err, k1) \<Rightarrow> (Inl (Wrap ''failed to create directory'' err), k1)
      | (Inr u, k1) \<Rightarrow>
          (case os_chmod dir 488 k1 of
             (Inl err, k2) \<Rightarrow> (Inl (Wrap ''failed to set permissions'' err), k2)
           | (Inr u, k2) \<Rightarrow>
               prov_dirs p dirs
                 (if 0 < prov_uid p \<or> 0 < prov_gid p
                  then snd (os_chown dir (prov_uid p) (prov_gid p) k2) else k2)))"

definition fs_provision :: "fs_provisioner \<Rightarrow> prov_mailbox \<Rightarrow> disk \<Rightarrow> unit result \<times> disk" where
  "fs_provision p mb k =
     (case calculate_path (prov_root p) (pm_email mb) of
        Inl err \<Rightarrow> (Inl err, k)
      | Inr maildir \<Rightarrow>
          prov_dirs p [maildir, path_join maildir [''cur''], path_join maildir [''new''],
                       path_join maildir [''tmp'']] k)"

definition fs_deprovision :: "fs_provisioner \<Rightarrow> prov_mailbox \<Rightarrow> disk \<Rightarrow> unit result \<times> disk" where
  "fs_deprovision p mb k =
     (case calculate_path (prov_root p) (pm_email mb) of
        Inl err \<Rightarrow> (Inl err, k)
      | Inr maildir \<Rightarrow>
          (case os_remove_all (path_dir maildir) k of
             (Inl err, k1) \<Rightarrow>
               if err_is err err_not_exist then (Inr (), k1)
               else (Inl (Wrap ''failed to remove mailbox directory'' err), k1)
           | (Inr u, k1) \<Rightarrow> (Inr (), k1)))"

definition check_permissions :: "node \<Rightarrow> check_result" where
  "check_permissions info =
     (if mode_of info = 488 then \<lparr>passed = True, check_message = ''0750''\<rparr>
      else \<lparr>passed = False, check_message = ''Expected 0750''\<rparr>)"

definition check_ownership :: "fs_provisioner \<Rightarrow> node \<Rightarrow> check_result" where
  "check_ownership p info =
     (if (prov_uid p = 0 \<and> prov_gid p = 0) \<or> owner_of info = (prov_uid p, prov_gid p)
      then \<lparr>passed = True,
            check_message = ''uid='' @ int_str (fst (owner_of info)) @ '', gid=''
              @ int_str (snd (owner_of info))\<rparr>
      else \<lparr>passed = False,
            check_message = ''Expected '' @ int_str (prov_uid p) @ '':'' @ int_str (prov_gid p)
              @ '', got '' @ int_str (fst (owner_of info)) @ '':'' @ int_str (snd (owner_of info))\<rparr>)"

definition dir_check :: "string \<Rightarrow> node result \<Rightarrow> check_result" where
  "dir_check what st =
     (case st of
        Inr (Dir m ow) \<Rightarrow> \<lparr>passed = True, check_message = what @ '' directory exists''\<rparr>
      | _ \<Rightarrow> \<lparr>passed = False, check_message = what @ '' directory missing''\<rparr>)"

definition fs_inspect :: "fs_provisioner \<Rightarrow> prov_mailbox \<Rightarrow> disk \<Rightarrow> doctor_report result \<times> disk" where
  "fs_inspect p mb k =
     (case calculate_path (prov_root p) (pm_email mb) of
        Inl err \<Rightarrow> (Inl err, k)
      | Inr maildir \<Rightarrow>
          let (st, k1) = os_stat maildir k;
              (cur, k2) = os_stat (path_join maildir [''cur'']) k1;
              (new, k3) = os_stat (path_join maildir [''new'']) k2;
              (tmp, k4) = os_stat (path_join maildir [''tmp'']) k3;
              perm = (case st of Inr (Dir m ow) \<Rightarrow> check_permissions (Dir m ow) | _ \<Rightarrow> no_result);
              own = (case st of Inr (Dir m ow) \<Rightarrow> check_ownership p (Dir m ow) | _ \<Rightarrow> no_result)
          in (Inr \<lparr>rep_email = pm_email mb, rep_status = '''', rep_provision_status = ''ready'',
                   rep_root = prov_root p,
                   rep_maildir_exists = dir_check ''Maildir'' st,
                   rep_cur_exists = dir_check ''cur'' cur, rep_new_exists = dir_check ''new'' new,
                   rep_tmp_exists = dir_check ''tmp'' tmp,
                   rep_ownership = own, rep_permission = perm,
                   rep_healthy = (passed (dir_check ''Maildir'' st) \<and> passed (dir_check ''cur'' cur) \<and>
                     passed (dir_check ''new'' new) \<and> passed (dir_check ''tmp'' tmp) \<and>
                     passed perm \<and> passed own)\<rparr>, k4))"

definition fs_provisioner_ops :: "fs_provisioner \<Rightarrow> disk provisioner" where
  "fs_provisioner_ops p =
     \<lparr>provision = fs_provision p, deprovision = fs_deprovision p, inspect = fs_inspect p\<rparr>"

section \<open>Paths\<close>

lemma localpart_chars:
  "rx_match localpart_rx s \<Longrightarrow> c \<in> set s \<Longrightarrow>
     in_cls az09 c \<or> c \<in> {CHR ''_'', CHR ''.'', CHR ''+'', CHR ''-''}"
  using rx_match_chars [of localpart_rx s c] by (auto simp: localpart_rx_def in_cls_def simp flip: byte_eq_iff)

lemma localpart_plain: "rx_match localpart_rx s \<Longrightarrow> plain s"
proof -
  assume m: "rx_match localpart_rx s"
  then have "s \<noteq> [] \<and> in_cls az09 (hd s)"
    unfolding rx_match_iff localpart_rx_def by (rule matches_Seq_Cls)
  moreover have "CHR ''/'' \<notin> set s"
    using localpart_chars [OF m, of "CHR ''/''"] by (auto simp: in_cls_def byte_def)
  ultimately show ?thesis
    by (auto simp: plain_def in_cls_def byte_def)
qed

lemma prov_domain_plain: "rx_match prov_domain_rx s \<Longrightarrow> plain s"
proof -
  assume m: "rx_match prov_domain_rx s"
  then have "s \<noteq> [] \<and> in_cls az09 (hd s)"
    unfolding prov_domain_rx_def by (rule domain_rx_not_Nil)
  moreover have "\<not> in_cls (rx_chars prov_domain_rx) (CHR ''/'')"
    by (simp add: prov_domain_rx_def rx_chars_domain) (simp add: in_cls_def byte_def)
  then have "CHR ''/'' \<notin> set s"
    by (rule rx_match_not_char [OF m])
  ultimately show ?thesis
    by (auto simp: plain_def in_cls_def byte_def)
qed

text \<open>The path of an address, when there is one, is the root with three plain components.\<close>

lemma calculate_path_Inr:
  assumes "calculate_path root em = Inr q"
  obtains l d where "canon em = l @ CHR ''@'' # d" and "CHR ''@'' \<notin> set l" and "CHR ''@'' \<notin> set d"
    and "plain l" and "plain d" and "q = root @ [d, l, ''Maildir'']"
proof -
  let ?parts = "str_split CHR ''@'' (canon em)"
  from assms have len: "length ?parts = 2"
    by (auto simp: calculate_path_def Let_def canon_def split: if_splits)
  then obtain l d where parts: "?parts = [l, d]"
    by (auto simp: length_Suc_conv numeral_2_eq_2)
  from assms parts have m: "rx_match localpart_rx l" "rx_match prov_domain_rx d"
    and q: "q = path_join root [d, l, ''Maildir'']"
    by (auto simp: calculate_path_def Let_def canon_def split: if_splits)
  have "plain ''Maildir''" by (simp add: plain_def)
  with m q have "q = root @ [d, l, ''Maildir'']"
    by (simp add: path_join_plain localpart_plain prov_domain_plain)
  with m parts that show thesis
    by (auto simp: split_pair_iff localpart_plain prov_domain_plain)
qed

text \<open>The directory of a mailbox, which \<open>Deprovision\<close> removes.\<close>

definition user_dir :: "path \<Rightarrow> string \<Rightarrow> path option" where
  "user_dir root em =
     (case calculate_path root em of Inl e \<Rightarrow> None | Inr q \<Rightarrow> Some (path_dir q))"

lemma user_dir_Some:
  assumes "user_dir root em = Some u"
  obtains l d where "canon em = l @ CHR ''@'' # d" and "plain l" and "plain d"
    and "u = root @ [d, l]" and "calculate_path root em = Inr (u @ [''Maildir''])"
proof -
  from assms obtain q where q: "calculate_path root em = Inr q" and u: "u = path_dir q"
    by (auto simp: user_dir_def split: sum.splits)
  from q obtain l d where e: "canon em = l @ CHR ''@'' # d" "plain l" "plain d"
      "q = root @ [d, l, ''Maildir'']"
    by (rule calculate_path_Inr)
  from e(4) u have "u = root @ [d, l]" "q = u @ [''Maildir'']"
    by (simp_all add: path_dir_def butlast_append)
  with e(1-3) q show thesis by (intro that) simp_all
qed

text \<open>Directories of different addresses are disjoint trees.\<close>

lemma user_dir_disjoint:
  assumes "user_dir root e1 = Some u1" and "user_dir root e2 = Some u2" and "canon e1 \<noteq> canon e2"
  shows "\<not> below u1 u2" and "\<not> below u1 (u2 @ q)" and "\<not> below (u1 @ q) u2"
proof -
  obtain l1 d1 where a: "canon e1 = l1 @ CHR ''@'' # d1" "u1 = root @ [d1, l1]"
    using user_dir_Some [OF assms(1)] by metis
  obtain l2 d2 where b: "canon e2 = l2 @ CHR ''@'' # d2" "u2 = root @ [d2, l2]"
    using user_dir_Some [OF assms(2)] by metis
  from a b assms(3) have "(d1, l1) \<noteq> (d2, l2)" by auto
  then show "\<not> below u1 u2" "\<not> below u1 (u2 @ q)" "\<not> below (u1 @ q) u2"
    by (auto simp: a b below_iff)
qed

lemma user_dir_cong: "canon e1 = canon e2 \<Longrightarrow> user_dir root e1 = user_dir root e2"
  by (simp add: user_dir_def calculate_path_def canon_def)

section \<open>What provisioning does to the disk\<close>

lemma prov_dirs_frame:
  "\<forall>d\<in>set dirs. \<not> below q d \<Longrightarrow> fs_stat (files (snd (prov_dirs p dirs k))) q = fs_stat (files k) q"
proof (induction p dirs k rule: prov_dirs.induct)
  case (1 p k)
  then show ?case by simp
next
  case (2 p dir dirs k)
  obtain r1 k1 where 1: "os_mkdir_all 488 dir k = (r1, k1)" by fastforce
  obtain r2 k2 where 2: "os_chmod dir 488 k1 = (r2, k2)" by fastforce
  from 2 have q: "\<not> below q dir" "q \<noteq> dir" using "2.prems" by auto
  have "fs_stat (files k1) q = fs_stat (files k) q"
    using os_mkdir_all_frame [OF q(1), of 488 k] 1 by simp
  moreover have "fs_stat (files k2) q = fs_stat (files k1) q"
    using os_chmod_frame [OF q(2), of 488 k1] 2 by simp
  moreover have "fs_stat (files (snd (os_chown dir u g k2))) q = fs_stat (files k2) q" for u g
    using os_chown_frame [OF q(2)] by simp
  ultimately show ?case
    using "2.IH" "2.prems" 1 2 by (auto split: sum.splits)
qed

lemma prov_dirs_keeps_dir:
  "is_dir (files k) q \<Longrightarrow> is_dir (files (snd (prov_dirs p dirs k))) q"
proof (induction p dirs k rule: prov_dirs.induct)
  case (2 p dir dirs k)
  then show ?case
    using is_dir_mkdir_all [of k q 488 dir] is_dir_chmod [of _ q dir 488] is_dir_chown [of _ q dir]
    by (auto split: sum.splits prod.splits) (metis snd_conv)+
qed simp

lemma prov_dirs_creates:
  "fst (prov_dirs p dirs k) = Inr () \<Longrightarrow> [] \<notin> set dirs \<Longrightarrow> d \<in> set dirs \<Longrightarrow>
     is_dir (files (snd (prov_dirs p dirs k))) d"
proof (induction p dirs k rule: prov_dirs.induct)
  case (2 p dir dirs k)
  obtain r1 k1 where 1: "os_mkdir_all 488 dir k = (r1, k1)" by fastforce
  obtain r2 k2 where 2: "os_chmod dir 488 k1 = (r2, k2)" by fastforce
  from "2.prems"(1) 1 2 obtain u v where r: "r1 = Inr u" "r2 = Inr v"
    by (auto split: sum.splits)
  let ?k3 = "if 0 < prov_uid p \<or> 0 < prov_gid p
     then snd (os_chown dir (prov_uid p) (prov_gid p) k2) else k2"
  have eq: "prov_dirs p (dir # dirs) k = prov_dirs p dirs ?k3"
    using 1 2 r by simp
  have "is_dir (files ?k3) dir"
    using os_mkdir_all_dir [of 488 dir k] is_dir_chmod [of k1 dir dir 488]
      is_dir_chown [of k2 dir dir] 1 2 r "2.prems"(2) by auto
  then have "is_dir (files (snd (prov_dirs p dirs ?k3))) dir"
    by (rule prov_dirs_keeps_dir)
  moreover have "d \<in> set dirs \<Longrightarrow> is_dir (files (snd (prov_dirs p dirs ?k3))) d"
    using "2.IH" [OF 1 [symmetric]] "2.prems" 1 2 r eq by (auto simp del: prov_dirs.simps)
  ultimately show ?case
    using "2.prems"(3) eq by auto
qed simp

definition maildir_dirs :: "path \<Rightarrow> path list" where
  "maildir_dirs u =
     [u @ [''Maildir''], u @ [''Maildir'', ''cur''], u @ [''Maildir'', ''new''], u @ [''Maildir'', ''tmp'']]"

lemma fs_provision_eq:
  "fs_provision p mb k =
     (case user_dir (prov_root p) (pm_email mb) of
        None \<Rightarrow> (Inl (projl (calculate_path (prov_root p) (pm_email mb))), k)
      | Some u \<Rightarrow> prov_dirs p (maildir_dirs u) k)"
proof (cases "user_dir (prov_root p) (pm_email mb)")
  case None
  then show ?thesis
    by (auto simp: fs_provision_def user_dir_def split: sum.splits)
next
  case (Some u)
  then obtain l d where "calculate_path (prov_root p) (pm_email mb) = Inr (u @ [''Maildir''])"
    by (rule user_dir_Some)
  moreover have "plain ''cur''" "plain ''new''" "plain ''tmp''" by (simp_all add: plain_def)
  ultimately show ?thesis using Some
    by (simp add: fs_provision_def maildir_dirs_def path_join_plain)
qed

lemma fs_deprovision_eq:
  "fs_deprovision p mb k =
     (case user_dir (prov_root p) (pm_email mb) of
        None \<Rightarrow> (Inl (projl (calculate_path (prov_root p) (pm_email mb))), k)
      | Some u \<Rightarrow>
          if dfails k then (Inl (Wrap ''failed to remove mailbox directory'' Fault), dtick k)
          else (Inr (), (dtick k)\<lparr>files := fs_del_tree (files k) u\<rparr>))"
  by (auto simp: fs_deprovision_def user_dir_def os_simps errs split: sum.splits)

lemma not_below_maildir_dirs:
  "\<not> below q u \<Longrightarrow> \<not> below u q \<Longrightarrow> d \<in> set (maildir_dirs u) \<Longrightarrow> \<not> below q d"
  by (auto simp: maildir_dirs_def below_iff append_eq_append_conv2)

text \<open>The four directories of a provisioned mailbox.\<close>

definition fs_ready :: "fs_provisioner \<Rightarrow> disk \<Rightarrow> string \<Rightarrow> bool" where
  "fs_ready p k em =
     (case user_dir (prov_root p) em of
        None \<Rightarrow> False
      | Some u \<Rightarrow> list_all (is_dir (files k)) (maildir_dirs u))"

lemma snd_fs_inspect [simp]: "files (snd (fs_inspect p mb k)) = files k"
  by (simp add: fs_inspect_def os_simps Let_def split: sum.splits)

section \<open>The laws of the interface\<close>

text \<open>
  What the mailbox service relies on: a successful provisioning makes the mailbox ready;
  provisioning never takes readiness away; removing one mailbox does not touch another; an
  inspection changes nothing and calls a mailbox healthy only when it is ready.
\<close>

locale provisioner_laws =
  fixes ops :: "'k provisioner"
    and ready :: "'k \<Rightarrow> string \<Rightarrow> bool"
  assumes ready_canon: "canon e1 = canon e2 \<Longrightarrow> ready k e1 = ready k e2"
    and provision_ready: "provision ops mb k = (Inr (), k') \<Longrightarrow> ready k' (pm_email mb)"
    and provision_keeps: "ready k e \<Longrightarrow> ready (snd (provision ops mb k)) e"
    and deprovision_other:
      "canon e \<noteq> canon (pm_email mb) \<Longrightarrow> ready (snd (deprovision ops mb k)) e = ready k e"
    and inspect_reads: "ready (snd (inspect ops mb k)) e = ready k e"
    and inspect_sound: "fst (inspect ops mb k) = Inr r \<Longrightarrow> rep_healthy r \<Longrightarrow> ready k (pm_email mb)"
begin

lemma provision_pair_keeps:
  "provision ops mb k = (r, k') \<Longrightarrow> ready k e \<Longrightarrow> ready k' e"
  using provision_keeps [of k e mb] by simp

lemma deprovision_pair_other:
  "deprovision ops mb k = (r, k') \<Longrightarrow> canon e \<noteq> canon (pm_email mb) \<Longrightarrow> ready k' e = ready k e"
  using deprovision_other [of e mb k] by simp

end

lemma fs_provision_ready:
  assumes "fs_provision p mb k = (Inr (), k')" shows "fs_ready p k' (pm_email mb)"
proof -
  from assms obtain u where u: "user_dir (prov_root p) (pm_email mb) = Some u"
    and run: "prov_dirs p (maildir_dirs u) k = (Inr (), k')"
    by (auto simp: fs_provision_eq split: option.splits)
  have "[] \<notin> set (maildir_dirs u)" by (simp add: maildir_dirs_def)
  with prov_dirs_creates [of p "maildir_dirs u" k] run show ?thesis
    by (auto simp: fs_ready_def u list_all_iff)
qed

lemma fs_provision_keeps: "fs_ready p k e \<Longrightarrow> fs_ready p (snd (fs_provision p mb k)) e"
  by (auto simp: fs_ready_def fs_provision_eq list_all_iff prov_dirs_keeps_dir split: option.splits)

lemma fs_deprovision_other:
  assumes "canon e \<noteq> canon (pm_email mb)"
  shows "fs_ready p (snd (fs_deprovision p mb k)) e = fs_ready p k e"
proof (cases "user_dir (prov_root p) e")
  case None
  then show ?thesis by (simp add: fs_ready_def)
next
  case (Some u)
  show ?thesis
  proof (cases "user_dir (prov_root p) (pm_email mb)")
    case None
    then show ?thesis by (simp add: fs_deprovision_eq fs_ready_def Some)
  next
    case (Some v)
    have "\<not> below v (u @ q)" for q
      using user_dir_disjoint(2) [OF Some \<open>user_dir (prov_root p) e = Some u\<close>] assms by simp
    then show ?thesis
      using \<open>user_dir (prov_root p) e = Some u\<close> Some
      by (simp add: fs_deprovision_eq fs_ready_def list_all_iff is_dir_iff maildir_dirs_def)
  qed
qed

lemma dir_check_passed: "passed (dir_check w st) \<longleftrightarrow> (\<exists>m ow. st = Inr (Dir m ow))"
  by (auto simp: dir_check_def split: sum.splits node.splits)

lemma fst_os_stat_dir: "fst (os_stat p k) = Inr (Dir m ow) \<Longrightarrow> is_dir (files k) p"
  by (auto simp: os_simps is_dir_def split: if_splits option.splits)

lemma fs_inspect_sound:
  assumes "fst (fs_inspect p mb k) = Inr r" and "rep_healthy r"
  shows "fs_ready p k (pm_email mb)"
proof -
  from assms obtain q where q: "calculate_path (prov_root p) (pm_email mb) = Inr q"
    by (auto simp: fs_inspect_def split: sum.splits)
  then obtain u where u: "user_dir (prov_root p) (pm_email mb) = Some u"
    by (simp add: user_dir_def)
  then have qu: "q = u @ [''Maildir'']"
    using q by (metis Inr_inject user_dir_Some)
  have pl: "plain ''cur''" "plain ''new''" "plain ''tmp''" by (simp_all add: plain_def)
  have "is_dir (files k) d" if "d \<in> set (maildir_dirs u)" for d
    using assms that pl
    by (auto simp: fs_inspect_def q qu Let_def dir_check_passed path_join_plain maildir_dirs_def
        split: prod.splits dest!: fst_os_stat_dir [OF fst_eqD])
      (metis files_dtick(1) fst_conv fst_os_stat_dir snd_conv snd_os_reads(1))+
  then show ?thesis
    by (simp add: fs_ready_def u list_all_iff)
qed

lemma fs_ready_canon: "canon e1 = canon e2 \<Longrightarrow> fs_ready p k e1 = fs_ready p k e2"
  using user_dir_cong [of e1 e2 "prov_root p"] by (simp add: fs_ready_def)

lemma fs_ready_inspect: "fs_ready p (snd (fs_inspect p mb k)) e = fs_ready p k e"
  by (cases "user_dir (prov_root p) e") (simp_all add: fs_ready_def)

interpretation fsprov: provisioner_laws "fs_provisioner_ops p" "fs_ready p" for p
  by (unfold_locales, unfold fs_provisioner_ops_def provisioner.simps)
    (rule fs_ready_canon fs_provision_ready fs_provision_keeps fs_deprovision_other
      fs_ready_inspect fs_inspect_sound; assumption)+

section \<open>Provisioning succeeds\<close>

lemma prov_dirs_other:
  "q \<notin> set dirs \<Longrightarrow> fs_stat (files k) q \<noteq> None \<Longrightarrow>
     fs_stat (files (snd (prov_dirs p dirs k))) q = fs_stat (files k) q"
proof (induction p dirs k rule: prov_dirs.induct)
  case (2 p dir dirs k)
  obtain r1 k1 where 1: "os_mkdir_all 488 dir k = (r1, k1)" by fastforce
  obtain r2 k2 where 2: "os_chmod dir 488 k1 = (r2, k2)" by fastforce
  from "2.prems" have q: "q \<noteq> dir" by simp
  have "fs_stat (files k1) q = fs_stat (files k) q"
    using os_mkdir_all_keeps [of k q 488 dir] 1 "2.prems" by simp
  moreover have "fs_stat (files k2) q = fs_stat (files k1) q"
    using os_chmod_frame [OF q, of 488 k1] 2 by simp
  moreover have "fs_stat (files (snd (os_chown dir u g k2))) q = fs_stat (files k2) q" for u g
    using os_chown_frame [OF q] by simp
  ultimately show ?case
    using "2.IH" "2.prems" 1 2 by (auto split: sum.splits)
qed simp

text \<open>One round of the loop on a disk without faults.\<close>

lemma prov_round:
  assumes "disk_faults k = []" and "dir \<noteq> []" and "\<forall>q. below q dir \<longrightarrow> \<not> is_file (files k) q"
    and "privileged k" and "0 \<le> prov_uid p" and "0 \<le> prov_gid p"
  obtains k' m ow where "prov_dirs p (dir # dirs) k = prov_dirs p dirs k'"
    and "disk_faults k' = []" and "privileged k'"
    and "fs_stat (files k') dir = Some (Dir 488 ow)"
    and "(prov_uid p, prov_gid p) = (0, 0) \<or> ow = (prov_uid p, prov_gid p)"
    and "\<forall>q. is_file (files k') q = is_file (files k) q"
proof -
  obtain t where t: "mkdir_all 488 (proc_owner k) (files k) dir = Some t"
    using mkdir_all_Some [OF assms(3)] by blast
  let ?k1 = "k\<lparr>files := t\<rparr>"
  have mk: "os_mkdir_all 488 dir k = (Inr (), ?k1)"
    using assms(1) t by (simp add: os_simps)
  have "is_dir t dir" using mkdir_all_is_dir [OF t assms(2)] .
  then obtain m ow where d: "fs_stat t dir = Some (Dir m ow)"
    by (auto simp: is_dir_def split: option.splits node.splits)
  have same: "is_file t q = is_file (files k) q" for q
    using mk_dirs_stat [OF t [unfolded mkdir_all_def], of q]
    by (cases "fs_stat (files k) q")
      (auto simp: is_file_def is_dir_def split: option.splits node.splits)
  let ?k2 = "?k1\<lparr>files := fs_put t dir (Dir 488 ow)\<rparr>"
  have ch: "os_chmod dir 488 ?k1 = (Inr (), ?k2)"
    using assms(1) d by (simp add: os_simps)
  let ?ow = "if 0 < prov_uid p \<or> 0 < prov_gid p then (prov_uid p, prov_gid p) else ow"
  let ?k3 = "?k1\<lparr>files := if 0 < prov_uid p \<or> 0 < prov_gid p
       then fs_put (fs_put t dir (Dir 488 ow)) dir (Dir 488 ?ow) else fs_put t dir (Dir 488 ow)\<rparr>"
  have "prov_dirs p (dir # dirs) k = prov_dirs p dirs ?k3"
    using assms mk ch by (auto simp: os_simps)
  then show thesis
    using assms same d by (intro that [of ?k3 ?ow]) (auto simp: is_file_def)
qed

lemma fs_provision_succeeds:
  assumes "user_dir (prov_root p) (pm_email mb) = Some u" and "disk_faults k = []"
    and "privileged k" and "0 \<le> prov_uid p" and "0 \<le> prov_gid p"
    and "\<forall>d\<in>set (maildir_dirs u). \<forall>q. below q d \<longrightarrow> \<not> is_file (files k) q"
  shows "\<exists>k' ow. fs_provision p mb k = (Inr (), k') \<and> disk_faults k' = [] \<and>
     fs_stat (files k') (u @ [''Maildir'']) = Some (Dir 488 ow) \<and>
     ((prov_uid p, prov_gid p) = (0, 0) \<or> ow = (prov_uid p, prov_gid p))"
proof -
  let ?md = "u @ [''Maildir'']"
  let ?rest = "[?md @ [''cur''], ?md @ [''new''], ?md @ [''tmp'']]"
  have dirs: "maildir_dirs u = ?md # ?rest" by (simp add: maildir_dirs_def)
  have free: "\<forall>q. below q ?md \<longrightarrow> \<not> is_file (files k) q" using assms(6) by (simp add: dirs)
  obtain k1 ow where k1: "prov_dirs p (maildir_dirs u) k = prov_dirs p ?rest k1"
    "disk_faults k1 = []" "privileged k1" "fs_stat (files k1) ?md = Some (Dir 488 ow)"
    "(prov_uid p, prov_gid p) = (0, 0) \<or> ow = (prov_uid p, prov_gid p)"
    "\<forall>q. is_file (files k1) q = is_file (files k) q"
    unfolding dirs
    by (rule prov_round [OF assms(2) _ free assms(3-5), of ?rest]) auto
  have "\<forall>d\<in>set ds. d \<noteq> [] \<and> (\<forall>q. below q d \<longrightarrow> \<not> is_file (files k0) q) \<Longrightarrow> disk_faults k0 = [] \<Longrightarrow>
      privileged k0 \<Longrightarrow> \<exists>k'. prov_dirs p ds k0 = (Inr (), k') \<and> disk_faults k' = []" for ds k0
  proof (induction ds arbitrary: k0)
    case Nil
    then show ?case by simp
  next
    case (Cons d ds)
    then have free: "d \<noteq> []" "\<forall>q. below q d \<longrightarrow> \<not> is_file (files k0) q" by simp_all
    show ?case
      by (rule prov_round [OF Cons.prems(2) free Cons.prems(3) assms(4,5), of ds])
        (use Cons in auto)
  qed
  from this [of ?rest k1] k1 assms(6)
  obtain k' where k': "prov_dirs p ?rest k1 = (Inr (), k')" "disk_faults k' = []"
    by (auto simp: dirs)
  have "fs_stat (files k') ?md = fs_stat (files k1) ?md"
    using prov_dirs_other [of ?md ?rest k1 p] k'(1) k1(4) by simp
  with k1 k' assms(1) show ?thesis
    by (auto simp: fs_provision_eq)
qed

section \<open>Properties\<close>

lemma user_dir_iff:
  "user_dir root em = Some u \<longleftrightarrow> calculate_path root em = Inr (u @ [''Maildir''])"
  by (auto simp: user_dir_def path_dir_def butlast_append split: sum.splits
      elim!: calculate_path_Inr)

definition example_prov :: fs_provisioner where
  "example_prov = \<lparr>prov_root = [''srv'', ''mail''], prov_uid = 5000, prov_gid = 5000\<rparr>"

definition example_disk :: disk where
  "example_disk =
     \<lparr>files = [], proc_owner = (0, 0), privileged = True, disk_now = 0, disk_faults = [], disk_torn = []\<rparr>"

definition example_pm :: "string \<Rightarrow> prov_mailbox" where
  "example_pm em = \<lparr>pm_id = 1, pm_email = em, pm_domain = ''example.org'', pm_quota_bytes = 0\<rparr>"

lemma example_path:
  "calculate_path [''srv'', ''mail''] ''Ann@Example.org '' =
     Inr [''srv'', ''mail'', ''example.org'', ''ann'', ''Maildir'']"
  "calculate_path [''srv'', ''mail''] ''bob@example.org'' =
     Inr [''srv'', ''mail'', ''example.org'', ''bob'', ''Maildir'']"
  by code_simp+

lemma example_user_dir:
  "user_dir [''srv'', ''mail''] ''Ann@Example.org '' = Some [''srv'', ''mail'', ''example.org'', ''ann'']"
  "user_dir [''srv'', ''mail''] ''bob@example.org'' = Some [''srv'', ''mail'', ''example.org'', ''bob'']"
  by (simp_all add: user_dir_def example_path path_dir_def)

text \<open>
  C5. No address, whatever it contains, leads out of the Maildir root: an accepted address
  is \<open>local@domain\<close> in normal form and its path is exactly three ordinary path components
  below the root (no separator, no \<open>..\<close>).
\<close>

theorem mailbox_path_confined:
  assumes "calculate_path root em = Inr q"
  shows "\<exists>l d. canon em = l @ ''@'' @ d \<and> list_all plain [d, l] \<and> q = root @ [d, l, ''Maildir'']"
  using assms by (rule calculate_path_Inr) auto

theorem mailbox_path_confined_witness:
  "\<exists>l d. canon ''Ann@Example.org '' = l @ ''@'' @ d \<and> list_all plain [d, l] \<and>
     [''srv'', ''mail'', ''example.org'', ''ann'', ''Maildir''] = [''srv'', ''mail''] @ [d, l, ''Maildir'']"
  by (rule mailbox_path_confined [OF example_path(1)])

text \<open>
  C6. Provisioning or removing a mailbox leaves every file and directory of every other
  mailbox as it was, with or without disk failures; only addresses that differ in case or
  surrounding blanks share a directory.
\<close>

theorem mailbox_isolation:
  assumes "user_dir (prov_root p) other = Some u" and "canon other \<noteq> canon (pm_email mb)"
  shows "fs_stat (files (snd (fs_provision p mb k))) (u @ q) = fs_stat (files k) (u @ q) \<and>
     fs_stat (files (snd (fs_deprovision p mb k))) (u @ q) = fs_stat (files k) (u @ q)"
proof
  show "fs_stat (files (snd (fs_provision p mb k))) (u @ q) = fs_stat (files k) (u @ q)"
  proof (cases "user_dir (prov_root p) (pm_email mb)")
    case (Some v)
    have "\<forall>d\<in>set (maildir_dirs v). \<not> below (u @ q) d"
      using user_dir_disjoint [OF assms(1) Some assms(2)] 
        user_dir_disjoint(2) [OF Some assms(1), of q] assms(2) not_below_maildir_dirs by metis
    then show ?thesis
      by (simp add: fs_provision_eq Some prov_dirs_frame)
  qed (simp add: fs_provision_eq)
  show "fs_stat (files (snd (fs_deprovision p mb k))) (u @ q) = fs_stat (files k) (u @ q)"
  proof (cases "user_dir (prov_root p) (pm_email mb)")
    case (Some v)
    then show ?thesis
      using user_dir_disjoint(2) [OF Some assms(1), of q] assms(2)
      by (simp add: fs_deprovision_eq)
  qed (simp add: fs_deprovision_eq)
qed

theorem mailbox_isolation_witness:
  "fs_stat (files (snd (fs_deprovision example_prov (example_pm ''bob@example.org'') example_disk)))
     ([''srv'', ''mail'', ''example.org'', ''ann''] @ [''Maildir'']) = None"
proof -
  have "canon ''Ann@Example.org '' \<noteq> canon ''bob@example.org''" by code_simp
  then show ?thesis
    using mailbox_isolation [of example_prov "''Ann@Example.org ''"
        "[''srv'', ''mail'', ''example.org'', ''ann'']" "example_pm ''bob@example.org''" example_disk "[''Maildir'']"]
    by (simp add: example_prov_def example_pm_def example_user_dir example_disk_def fs_stat_def)
qed

text \<open>
  C7. On a working disk with nothing but directories in the way, a privileged process
  provisions every accepted address, and the inspection that follows finds the four
  directories with mode 0750 and the configured owner: the report is healthy.
\<close>

theorem provision_then_healthy:
  assumes "user_dir (prov_root p) (pm_email mb) = Some u" and "disk_faults k = []"
    and "privileged k" and "0 \<le> prov_uid p" and "0 \<le> prov_gid p"
    and "\<forall>d\<in>set (maildir_dirs u). \<forall>q. below q d \<longrightarrow> \<not> is_file (files k) q"
  shows "\<exists>k' r. fs_provision p mb k = (Inr (), k') \<and> fst (fs_inspect p mb k') = Inr r \<and> rep_healthy r"
proof -
  obtain k' ow where k': "fs_provision p mb k = (Inr (), k')" "disk_faults k' = []"
    and md: "fs_stat (files k') (u @ [''Maildir'']) = Some (Dir 488 ow)"
    and own: "(prov_uid p, prov_gid p) = (0, 0) \<or> ow = (prov_uid p, prov_gid p)"
    using fs_provision_succeeds [OF assms] by blast
  have "fs_ready p k' (pm_email mb)" by (rule fs_provision_ready [OF k'(1)])
  then have dirs: "d \<in> set (maildir_dirs u) \<Longrightarrow> is_dir (files k') d" for d
    by (simp add: fs_ready_def assms(1) list_all_iff)
  have q: "calculate_path (prov_root p) (pm_email mb) = Inr (u @ [''Maildir''])"
    using assms(1) by (simp add: user_dir_iff)
  have pl: "plain ''cur''" "plain ''new''" "plain ''tmp''" by (simp_all add: plain_def)
  have st: "d \<in> set (maildir_dirs u) \<Longrightarrow> \<exists>m ow. fs_stat (files k') d = Some (Dir m ow)" for d
    using dirs [of d] by (auto simp: is_dir_def split: option.splits node.splits)
  have "check_ownership p (Dir 488 ow) = r \<Longrightarrow> passed r" for r
    using own by (auto simp: check_ownership_def)
  then show ?thesis
    using k' md st [of "u @ [''Maildir'', ''cur'']"] st [of "u @ [''Maildir'', ''new'']"]
      st [of "u @ [''Maildir'', ''tmp'']"]
    by (auto simp: fs_inspect_def q os_simps pl path_join_plain dir_check_def
        check_permissions_def Let_def maildir_dirs_def)
qed

theorem provision_then_healthy_witness:
  "\<exists>k' r. fs_provision example_prov (example_pm ''bob@example.org'') example_disk = (Inr (), k') \<and>
     fst (fs_inspect example_prov (example_pm ''bob@example.org'') k') = Inr r \<and> rep_healthy r"
  by (rule provision_then_healthy [where u = "[''srv'', ''mail'', ''example.org'', ''bob'']"])
    (simp_all add: example_prov_def example_pm_def example_disk_def example_user_dir is_file_def
      fs_stat_def)

end
