(* ===== verification/Passwords.thy ===== *)
theory Passwords
  imports Go_Base64 "HOL-Library.Word"
begin

text \<open>
  Password hashing of \<open>internal/mailbox/service.go\<close>: the Argon2id parameters, the encoded
  form \<open>$argon2id$v=19$m=..,t=..,p=..$salt$hash\<close> and its verification. The key derivation
  \<open>argon2.IDKey\<close> is a parameter (a function of password, salt, time, memory, threads and
  key length, at the widths of the Go signature); it may panic, which is a value here.
  \<open>fmt.Sscanf\<close> with the verb \<open>%d\<close> is modelled as the standard library reads: leading
  blanks are skipped (a newline is an error), the token is the longest run of digits and
  underscores, an underscore or an overflow of the operand's width is an error, and the
  input left over after the last verb is ignored.
\<close>

section \<open>Scanning numbers\<close>

fun scan_skip :: "string \<Rightarrow> string option" where
  "scan_skip [] = Some []"
| "scan_skip (c # s) =
     (if byte c = 10 then None else if is_space c then scan_skip s else Some (c # s))"

definition scan_lit :: "string \<Rightarrow> string \<Rightarrow> string option" where
  "scan_lit lit s = (if has_prefix s lit then Some (drop (length lit) s) else None)"

definition scan_tok :: "char \<Rightarrow> bool" where
  "scan_tok c \<longleftrightarrow> is_digit c \<or> c = CHR ''_''"

definition scan_uint :: "nat \<Rightarrow> string \<Rightarrow> (nat \<times> string) option" where
  "scan_uint bits s =
     (case scan_skip s of
        None \<Rightarrow> None
      | Some s1 \<Rightarrow>
          let tok = takeWhile scan_tok s1
          in if tok = [] \<or> CHR ''_'' \<in> set tok \<or> 2 ^ bits \<le> digits_val tok then None
             else Some (digits_val tok, dropWhile scan_tok s1))"

text \<open>For a signed operand a sign may stand before the digits.\<close>

definition scan_int :: "nat \<Rightarrow> string \<Rightarrow> (int \<times> string) option" where
  "scan_int bits s =
     (case scan_skip s of
        None \<Rightarrow> None
      | Some s1 \<Rightarrow>
          let neg = has_prefix s1 ''-'';
              s2 = (if neg \<or> has_prefix s1 ''+'' then tl s1 else s1);
              tok = takeWhile scan_tok s2;
              v = (if neg then - int (digits_val tok) else int (digits_val tok))
          in if tok = [] \<or> CHR ''_'' \<in> set tok \<or> v < - (2 ^ (bits - 1)) \<or> 2 ^ (bits - 1) \<le> v then None
             else Some (v, dropWhile scan_tok s2))"

definition sscanf_version :: "string \<Rightarrow> int option" where
  "sscanf_version s =
     (case scan_lit ''v='' s of None \<Rightarrow> None
      | Some s1 \<Rightarrow> map_option fst (scan_int 64 s1))"

definition sscanf_params :: "string \<Rightarrow> (32 word \<times> 32 word \<times> 8 word) option" where
  "sscanf_params s =
     (case scan_lit ''m='' s of None \<Rightarrow> None | Some s1 \<Rightarrow>
      (case scan_uint 32 s1 of None \<Rightarrow> None | Some (m, s2) \<Rightarrow>
      (case scan_lit '',t='' s2 of None \<Rightarrow> None | Some s3 \<Rightarrow>
      (case scan_uint 32 s3 of None \<Rightarrow> None | Some (t, s4) \<Rightarrow>
      (case scan_lit '',p='' s4 of None \<Rightarrow> None | Some s5 \<Rightarrow>
      (case scan_uint 8 s5 of None \<Rightarrow> None | Some (p, s6) \<Rightarrow>
         Some (word_of_nat m, word_of_nat t, word_of_nat p)))))))"

section \<open>Hashing and verification\<close>

record argon2_params =
  memory :: "32 word"
  iterations :: "32 word"
  parallelism :: "8 word"
  salt_length :: "32 word"
  key_length :: "32 word"

definition default_argon2_params :: argon2_params where
  "default_argon2_params =
     \<lparr>memory = 64 * 1024, iterations = 1, parallelism = 4, salt_length = 16, key_length = 32\<rparr>"

text \<open>\<open>argon2.IDKey(password, salt, time, memory, threads, keyLen)\<close> and \<open>argon2.Version\<close>.\<close>

type_synonym kdf =
  "string \<Rightarrow> string \<Rightarrow> 32 word \<Rightarrow> 32 word \<Rightarrow> 8 word \<Rightarrow> 32 word \<Rightarrow> string result"

definition argon2_version :: nat where
  "argon2_version = 19"

definition encode_hash :: "argon2_params \<Rightarrow> string \<Rightarrow> string \<Rightarrow> string" where
  "encode_hash p salt h =
     ''$argon2id$v='' @ nat_str argon2_version @ ''$m='' @ nat_str (unat (memory p))
     @ '',t='' @ nat_str (unat (iterations p)) @ '',p='' @ nat_str (unat (parallelism p))
     @ ''$'' @ b64_encode salt @ ''$'' @ b64_encode h"

text \<open>\<open>rnd\<close> is what \<open>rand.Read\<close> put into the salt buffer, or its error.\<close>

definition hash_password :: "kdf \<Rightarrow> string result \<Rightarrow> string \<Rightarrow> argon2_params \<Rightarrow> string result" where
  "hash_password id_key rnd password p =
     (case rnd of
        Inl e \<Rightarrow> Inl e
      | Inr salt \<Rightarrow>
          (case id_key password salt (iterations p) (memory p) (parallelism p) (key_length p) of
             Inl e \<Rightarrow> Inl e
           | Inr h \<Rightarrow> Inr (encode_hash p salt h)))"

definition verify_password :: "kdf \<Rightarrow> string \<Rightarrow> string \<Rightarrow> bool result" where
  "verify_password id_key password encoded =
     (let parts = str_split CHR ''$'' encoded
      in if length parts \<noteq> 6 then Inl (Msg ''invalid encoded hash format'')
         else if parts ! 1 \<noteq> ''argon2id'' then Inl (Msg ''incompatible hash algorithm'')
         else (case sscanf_version (parts ! 2) of
             None \<Rightarrow> Inl (Msg ''Sscanf'')
           | Some version \<Rightarrow>
               if version \<noteq> int argon2_version then Inl (Msg ''incompatible argon2 version'')
               else (case sscanf_params (parts ! 3) of
                   None \<Rightarrow> Inl (Msg ''Sscanf'')
                 | Some (m, t, p) \<Rightarrow>
                     (case b64_decode (parts ! 4) of
                        None \<Rightarrow> Inl (Msg ''CorruptInputError'')
                      | Some salt \<Rightarrow>
                          (case b64_decode (parts ! 5) of
                             None \<Rightarrow> Inl (Msg ''CorruptInputError'')
                           | Some h \<Rightarrow>
                               (case id_key password salt t m p (word_of_nat (length h)) of
                                  Inl e \<Rightarrow> Inl e
                                | Inr other \<Rightarrow> Inr (h = other)))))))"

text \<open>
  What the documentation of \<open>argon2.IDKey\<close> promises: for at least one pass and one thread
  it returns a key of the length asked for.
\<close>

definition kdf_law :: "kdf \<Rightarrow> bool" where
  "kdf_law id_key \<longleftrightarrow>
     (\<forall>pw salt t m p n. 0 < t \<longrightarrow> 0 < p \<longrightarrow> 0 < n \<longrightarrow>
        (\<exists>k. id_key pw salt t m p n = Inr k \<and> length k = unat n))"

section \<open>Facts\<close>

lemma not_space_digit: "is_digit c \<Longrightarrow> \<not> is_space c \<and> byte c \<noteq> 10 \<and> c \<noteq> CHR ''_'' \<and> c \<noteq> CHR ''-'' \<and> c \<noteq> CHR ''+''"
  by (auto simp: is_digit_def is_space_def byte_def)

lemma scan_skip_digits:
  "ds \<noteq> [] \<Longrightarrow> list_all is_digit ds \<Longrightarrow> scan_skip (ds @ r) = Some (ds @ r)"
  by (cases ds) (auto dest: not_space_digit)

lemma take_scan_tok:
  assumes "list_all is_digit ds" and "r = [] \<or> \<not> scan_tok (hd r)"
  shows "takeWhile scan_tok (ds @ r) = ds" and "dropWhile scan_tok (ds @ r) = r"
  using assms by (induction ds) (cases r; auto simp: scan_tok_def)+

lemma scan_uint_nat_str:
  assumes "n < 2 ^ bits" and "r = [] \<or> \<not> scan_tok (hd r)"
  shows "scan_uint bits (nat_str n @ r) = Some (n, r)"
proof -
  note ds = nat_str_digits [of n]
  have "CHR ''_'' \<notin> set (nat_str n)"
    using ds by (auto simp: list_all_iff dest: not_space_digit)
  with assms show ?thesis
    by (simp add: scan_uint_def scan_skip_digits [OF _ ds] take_scan_tok [OF ds assms(2)])
qed

lemma scan_uint_word:
  fixes w :: "'a::len word"
  assumes "bits = LENGTH('a)" and "r = [] \<or> \<not> scan_tok (hd r)"
  shows "scan_uint bits (nat_str (unat w) @ r) = Some (unat w, r)"
  using assms by (intro scan_uint_nat_str) simp_all

lemma scan_lit_append [simp]: "scan_lit l (l @ s) = Some s"
  by (simp add: scan_lit_def)

lemma sscanf_version_encoded: "sscanf_version (''v='' @ nat_str argon2_version) = Some 19"
  by code_simp

lemma sscanf_params_encoded:
  "sscanf_params (''m='' @ nat_str (unat m) @ '',t='' @ nat_str (unat t) @ '',p='' @ nat_str (unat p))
     = Some (m, t, p)"
proof -
  have sep: "\<not> scan_tok (CHR '','')" by (simp add: scan_tok_def is_digit_def byte_def)
  have "scan_uint 32 (nat_str (unat m) @ '',t='' @ nat_str (unat t) @ '',p='' @ nat_str (unat p))
      = Some (unat m, '',t='' @ nat_str (unat t) @ '',p='' @ nat_str (unat p))"
    by (rule scan_uint_word) (simp_all add: sep)
  moreover have "scan_uint 32 (nat_str (unat t) @ '',p='' @ nat_str (unat p))
      = Some (unat t, '',p='' @ nat_str (unat p))"
    by (rule scan_uint_word) (simp_all add: sep)
  moreover have "scan_uint 8 (nat_str (unat p) @ []) = Some (unat p, [])"
    by (rule scan_uint_word) simp_all
  ultimately show ?thesis
    by (simp only: sscanf_params_def scan_lit_append option.case prod.case append_Nil2) simp
qed

lemma dollar_notin_nat_str [simp]: "CHR ''$'' \<notin> set (nat_str n)"
  using nat_str_digits [of n] by (auto simp: list_all_iff is_digit_def byte_def)

lemma split_encode_hash:
  "str_split CHR ''$'' (encode_hash p salt h) =
     [[], ''argon2id'', ''v='' @ nat_str argon2_version,
      ''m='' @ nat_str (unat (memory p)) @ '',t='' @ nat_str (unat (iterations p))
        @ '',p='' @ nat_str (unat (parallelism p)),
      b64_encode salt, b64_encode h]"
  (is "_ = ?ws")
proof -
  have "encode_hash p salt h = str_join [CHR ''$''] ?ws"
    by (simp add: encode_hash_def)
  moreover have "\<forall>w\<in>set ?ws. CHR ''$'' \<notin> set w"
    by simp
  ultimately show ?thesis
    using split_join [of ?ws "CHR ''$''"] by simp
qed

lemma verify_parts:
  assumes "str_split CHR ''$'' e = [a0, ''argon2id'', a2, a3, a4, a5]"
    and "sscanf_version a2 = Some 19" and "sscanf_params a3 = Some (m, t, p)"
    and "b64_decode a4 = Some salt" and "b64_decode a5 = Some h"
  shows "verify_password id_key pw e =
     (case id_key pw salt t m p (word_of_nat (length h)) of
        Inl er \<Rightarrow> Inl er | Inr other \<Rightarrow> Inr (h = other))"
  using assms(2-) by (simp add: verify_password_def assms(1) argon2_version_def)

lemma verify_encode_hash:
  "verify_password id_key pw (encode_hash p salt h) =
     (case id_key pw salt (iterations p) (memory p) (parallelism p) (word_of_nat (length h)) of
        Inl e \<Rightarrow> Inl e | Inr other \<Rightarrow> Inr (h = other))"
  by (rule verify_parts [OF split_encode_hash sscanf_version_encoded sscanf_params_encoded
        b64_roundtrip b64_roundtrip])

lemma hash_password_Inr:
  assumes "hash_password id_key rnd pw p = Inr encoded"
  obtains salt h where "rnd = Inr salt"
    and "id_key pw salt (iterations p) (memory p) (parallelism p) (key_length p) = Inr h"
    and "encoded = encode_hash p salt h"
  using assms by (auto simp: hash_password_def split: sum.splits)

end
