(* ===== verification/Mailboxes.thy ===== *)
theory Mailboxes
  imports Domains Provisioning Passwords
begin

text \<open>
  The package \<open>internal/mailbox\<close>: the repository over the table \<open>mailboxes\<close> (every query
  joins the domain), the aliases, and the service. The service is written against any
  provisioner, which may be absent; \<open>net/mail.ParseAddress\<close> and the key derivation enter as
  functions. Fresh identifiers, the salt and the clock are inputs; one call reads the clock
  once.
\<close>

section \<open>Errors and constants\<close>

definition err_mailbox_not_found :: err where
  "err_mailbox_not_found = Sentinel ''mailbox'' ''ErrMailboxNotFound''"

definition err_mailbox_exists :: err where
  "err_mailbox_exists = Sentinel ''mailbox'' ''ErrMailboxExists''"

definition err_invalid_email :: err where
  "err_invalid_email = Sentinel ''mailbox'' ''ErrInvalidEmail''"

definition err_invalid_password :: err where
  "err_invalid_password = Sentinel ''mailbox'' ''ErrInvalidPassword''"

definition err_mb_domain_not_found :: err where
  "err_mb_domain_not_found = Sentinel ''mailbox'' ''ErrDomainNotFound''"

definition err_authentication_failed :: err where
  "err_authentication_failed = Sentinel ''mailbox'' ''ErrAuthenticationFailed''"

definition err_alias_not_found :: err where
  "err_alias_not_found = Sentinel ''mailbox'' ''ErrAliasNotFound''"

definition err_alias_exists :: err where
  "err_alias_exists = Sentinel ''mailbox'' ''ErrAliasAlreadyExists''"

lemmas [errs] = err_mailbox_not_found_def err_mailbox_exists_def err_invalid_email_def
  err_invalid_password_def err_mb_domain_not_found_def err_authentication_failed_def
  err_alias_not_found_def err_alias_exists_def

text \<open>The zero value of \<open>time.Time\<close>, 1 January of the year 1.\<close>

definition zero_time :: instant where
  "zero_time = - 62135596800000000000"

definition prov_pending :: string where "prov_pending = ''pending''"
definition prov_in_progress :: string where "prov_in_progress = ''provisioning''"
definition prov_ready :: string where "prov_ready = ''ready''"
definition prov_failed :: string where "prov_failed = ''failed''"
definition prov_deprovisioning :: string where "prov_deprovisioning = ''deprovisioning''"

lemmas prov_consts = prov_pending_def prov_in_progress_def prov_ready_def prov_failed_def
  prov_deprovisioning_def

section \<open>Repository\<close>

definition mailbox_constraints :: "mailbox \<Rightarrow> db \<Rightarrow> (bool \<times> err) list" where
  "mailbox_constraints m db =
     [(clashes mb_id m (mailboxes db), PgUnique ''mailboxes_pkey''),
      (clashes (\<lambda>x. to_lower (mb_email x)) m (mailboxes db), PgUnique ''idx_mailboxes_email_lower''),
      (\<not> has_key dom_id (mb_domain_id m) (domains db), PgForeignKey ''mailboxes_domain_id_fkey'')]"

text \<open>The defaults \<open>Create\<close> fills in; the struct is returned because the caller keeps using it.\<close>

definition mailbox_defaults :: "uuid \<Rightarrow> instant \<Rightarrow> mailbox \<Rightarrow> mailbox" where
  "mailbox_defaults newid now m =
     m\<lparr>mb_id := (if mb_id m = 0 then newid else mb_id m),
       mb_created_at := (if mb_created_at m = zero_time then now else mb_created_at m),
       mb_updated_at := (if mb_updated_at m = zero_time then now else mb_updated_at m),
       mb_status := (if mb_status m = '''' then ''active'' else mb_status m),
       mb_provisioning_status :=
         (if mb_provisioning_status m = '''' then prov_pending else mb_provisioning_status m),
       mb_identity_provider :=
         (if mb_identity_provider m = '''' then ''local'' else mb_identity_provider m)\<rparr>"

definition mailbox_repo_create :: "uuid \<Rightarrow> instant \<Rightarrow> mailbox \<Rightarrow> db \<Rightarrow> mailbox result \<times> db" where
  "mailbox_repo_create newid now m0 db =
     (let m = mailbox_defaults newid now m0
      in case sql_insert (mailbox_constraints m)
                (\<lambda>db. db\<lparr>mailboxes := mailboxes db @ [m\<lparr>mb_domain_name := ''''\<rparr>]\<rparr>) db of
           (Inl err, db1) \<Rightarrow> (Inl (Wrap ''repository create mailbox'' err), db1)
         | (Inr n, db1) \<Rightarrow> (Inr m, db1))"

definition join_domain :: "db \<Rightarrow> mailbox \<Rightarrow> mailbox option" where
  "join_domain db m =
     map_option (\<lambda>d. m\<lparr>mb_domain_name := dom_name d\<rparr>)
       (find (\<lambda>d. dom_id d = mb_domain_id m) (domains db))"

definition mailbox_rows :: "db \<Rightarrow> mailbox list" where
  "mailbox_rows db = List.map_filter (join_domain db) (mailboxes db)"

definition mailbox_get_by_email :: "string \<Rightarrow> db \<Rightarrow> mailbox result \<times> db" where
  "mailbox_get_by_email email db =
     (case sql_query_row (\<lambda>db. find (\<lambda>m. mb_email m = email) (mailbox_rows db)) db of
        (Inl err, db1) \<Rightarrow>
          (if err_is err err_no_rows then (Inl err_mailbox_not_found, db1)
           else (Inl (Wrap ''repository get mailbox by email'' err), db1))
      | (Inr m, db1) \<Rightarrow> (Inr m, db1))"

definition mailbox_get_by_id :: "uuid \<Rightarrow> db \<Rightarrow> mailbox result \<times> db" where
  "mailbox_get_by_id i db =
     (case sql_query_row (\<lambda>db. find (\<lambda>m. mb_id m = i) (mailbox_rows db)) db of
        (Inl err, db1) \<Rightarrow>
          (if err_is err err_no_rows then (Inl err_mailbox_not_found, db1)
           else (Inl (Wrap ''repository get mailbox by id'' err), db1))
      | (Inr m, db1) \<Rightarrow> (Inr m, db1))"

definition mailbox_repo_list :: "db \<Rightarrow> mailbox list result \<times> db" where
  "mailbox_repo_list db =
     (case sql_query (\<lambda>db. sort_key (\<lambda>m. - mb_created_at m) (mailbox_rows db)) db of
        (Inl err, db1) \<Rightarrow> (Inl (Wrap ''repository list mailboxes'' err), db1)
      | (Inr ms, db1) \<Rightarrow> (Inr ms, db1))"

text \<open>\<open>UPDATE mailboxes SET .., updated_at = now WHERE id = i\<close>, common to the six updates.\<close>

definition mailbox_update :: "string \<Rightarrow> (mailbox \<Rightarrow> mailbox) \<Rightarrow> instant \<Rightarrow> uuid \<Rightarrow> db \<Rightarrow> unit result \<times> db" where
  "mailbox_update msg f now i db =
     (case sql_exec (\<lambda>db. (Inr (affected (\<lambda>m. mb_id m = i) (mailboxes db)),
             db\<lparr>mailboxes := update_where (\<lambda>m. mb_id m = i) (\<lambda>m. (f m)\<lparr>mb_updated_at := now\<rparr>)
                               (mailboxes db)\<rparr>)) db of
        (Inl err, db1) \<Rightarrow> (Inl (Wrap msg err), db1)
      | (Inr n, db1) \<Rightarrow> (if n = 0 then (Inl err_mailbox_not_found, db1) else (Inr (), db1)))"

definition update_provisioning_status :: "instant \<Rightarrow> uuid \<Rightarrow> string \<Rightarrow> db \<Rightarrow> unit result \<times> db" where
  "update_provisioning_status now i st =
     mailbox_update ''repository update provisioning status'' (\<lambda>m. m\<lparr>mb_provisioning_status := st\<rparr>) now i"

definition update_status :: "instant \<Rightarrow> uuid \<Rightarrow> string \<Rightarrow> db \<Rightarrow> unit result \<times> db" where
  "update_status now i st =
     mailbox_update ''repository update status'' (\<lambda>m. m\<lparr>mb_status := st\<rparr>) now i"

definition update_identity_provider :: "instant \<Rightarrow> uuid \<Rightarrow> string \<Rightarrow> db \<Rightarrow> unit result \<times> db" where
  "update_identity_provider now i prov =
     mailbox_update ''repository update identity provider'' (\<lambda>m. m\<lparr>mb_identity_provider := prov\<rparr>) now i"

definition update_password_hash :: "instant \<Rightarrow> uuid \<Rightarrow> string \<Rightarrow> db \<Rightarrow> unit result \<times> db" where
  "update_password_hash now i h =
     mailbox_update ''repository update password hash'' (\<lambda>m. m\<lparr>mb_password_hash := h\<rparr>) now i"

definition update_used_bytes :: "instant \<Rightarrow> uuid \<Rightarrow> int \<Rightarrow> db \<Rightarrow> unit result \<times> db" where
  "update_used_bytes now i n =
     mailbox_update ''repository update used bytes'' (\<lambda>m. m\<lparr>mb_used_bytes := n\<rparr>) now i"

definition update_quota_bytes :: "instant \<Rightarrow> uuid \<Rightarrow> int \<Rightarrow> db \<Rightarrow> unit result \<times> db" where
  "update_quota_bytes now i n =
     mailbox_update ''repository update quota bytes'' (\<lambda>m. m\<lparr>mb_quota_bytes := n\<rparr>) now i"

definition mailbox_repo_delete :: "string \<Rightarrow> db \<Rightarrow> unit result \<times> db" where
  "mailbox_repo_delete email db =
     (case sql_exec (\<lambda>db. (Inr (affected (\<lambda>m. mb_email m = email) (mailboxes db)),
                          del_mailboxes (\<lambda>m. mb_email m = email) db)) db of
        (Inl err, db1) \<Rightarrow> (Inl (Wrap ''repository delete mailbox'' err), db1)
      | (Inr n, db1) \<Rightarrow> (if n = 0 then (Inl err_mailbox_not_found, db1) else (Inr (), db1)))"

section \<open>Aliases\<close>

definition alias_constraints :: "mail_alias \<Rightarrow> db \<Rightarrow> (bool \<times> err) list" where
  "alias_constraints a db =
     [(clashes al_id a (aliases db), PgUnique ''aliases_pkey''),
      (clashes (\<lambda>x. (al_domain_id x, al_source x, al_destination x)) a (aliases db),
         PgUnique ''aliases_domain_id_source_destination_key''),
      (\<not> has_key dom_id (al_domain_id a) (domains db), PgForeignKey ''aliases_domain_id_fkey'')]"

fun is_unique_violation :: "err \<Rightarrow> bool" where
  "is_unique_violation (PgUnique c) = True"
| "is_unique_violation e = False"

definition create_alias :: "uuid \<Rightarrow> instant \<Rightarrow> mail_alias \<Rightarrow> db \<Rightarrow> unit result \<times> db" where
  "create_alias newid now a0 db =
     (let a = a0\<lparr>al_id := (if al_id a0 = 0 then newid else al_id a0),
                 al_created_at := (if al_created_at a0 = zero_time then now else al_created_at a0),
                 al_source := to_lower (al_source a0),
                 al_destination := to_lower (al_destination a0)\<rparr>
      in case sql_insert (alias_constraints a) (\<lambda>db. db\<lparr>aliases := aliases db @ [a]\<rparr>) db of
           (Inl err, db1) \<Rightarrow>
             (if is_unique_violation err then (Inl err_alias_exists, db1)
              else (Inl (Wrap ''create alias failed'' err), db1))
         | (Inr n, db1) \<Rightarrow> (Inr (), db1))"

definition get_alias :: "string \<Rightarrow> string \<Rightarrow> db \<Rightarrow> mail_alias result \<times> db" where
  "get_alias source dest db =
     (case sql_query_row (\<lambda>db. find (\<lambda>a. al_source a = to_lower source \<and>
             al_destination a = to_lower dest) (aliases db)) db of
        (Inl err, db1) \<Rightarrow>
          (if err_is err err_no_rows then (Inl err_alias_not_found, db1) else (Inl err, db1))
      | (Inr a, db1) \<Rightarrow> (Inr a, db1))"

definition delete_alias :: "string \<Rightarrow> string \<Rightarrow> db \<Rightarrow> unit result \<times> db" where
  "delete_alias source dest db =
     (let P = (\<lambda>a. al_source a = to_lower source \<and> al_destination a = to_lower dest)
      in case sql_exec (\<lambda>db. (Inr (affected P (aliases db)),
                             db\<lparr>aliases := delete_where P (aliases db)\<rparr>)) db of
           (Inl err, db1) \<Rightarrow> (Inl err, db1)
         | (Inr n, db1) \<Rightarrow> (if n = 0 then (Inl err_alias_not_found, db1) else (Inr (), db1)))"

section \<open>Service\<close>

record mail_env =
  env_kdf :: kdf
  env_parse_address :: "string \<Rightarrow> bool"

definition is_valid_email :: "mail_env \<Rightarrow> string \<Rightarrow> bool" where
  "is_valid_email env email =
     (if length email = 0 \<or> 254 < length email then False
      else if \<not> env_parse_address env email then False
      else let parts = str_split CHR ''@'' email
           in \<not> (length parts \<noteq> 2 \<or> parts ! 0 = [] \<or> parts ! 1 = []))"

definition prov_args :: "mailbox \<Rightarrow> string \<Rightarrow> prov_mailbox" where
  "prov_args m dname =
     \<lparr>pm_id = mb_id m, pm_email = mb_email m, pm_domain = dname, pm_quota_bytes = mb_quota_bytes m\<rparr>"

text \<open>Steps 8 of \<open>Create\<close>: the row exists, the provisioner may be absent.\<close>

definition create_provision ::
    "'k provisioner option \<Rightarrow> instant \<Rightarrow> mailbox \<Rightarrow> string \<Rightarrow> db \<Rightarrow> 'k \<Rightarrow> mailbox result \<times> db \<times> 'k" where
  "create_provision prov now m dname db k =
     (case prov of
        None \<Rightarrow> (Inr m, db, k)
      | Some p \<Rightarrow>
          let db1 = snd (update_provisioning_status now (mb_id m) prov_in_progress db)
          in (case provision p (prov_args m dname) k of
                (Inl err, k1) \<Rightarrow>
                  (Inl (Wrap ''mailbox provisioning failed'' err),
                   snd (update_provisioning_status now (mb_id m) prov_failed db1), k1)
              | (Inr u, k1) \<Rightarrow>
                  (Inr (m\<lparr>mb_provisioning_status := prov_ready\<rparr>),
                   snd (update_provisioning_status now (mb_id m) prov_ready db1), k1)))"

definition mailbox_create ::
    "mail_env \<Rightarrow> 'k provisioner option \<Rightarrow> uuid \<Rightarrow> instant \<Rightarrow> string result \<Rightarrow> string \<Rightarrow> string \<Rightarrow> int \<Rightarrow>
       db \<Rightarrow> 'k \<Rightarrow> mailbox result \<times> db \<times> 'k" where
  "mailbox_create env prov newid now rnd em password quota db k =
     (let email = trim_space (to_lower em)
      in if \<not> is_valid_email env email then (Inl err_invalid_email, db, k)
         else if length password < 8 then (Inl err_invalid_password, db, k)
         else let parts = str_split CHR ''@'' email
         in if length parts \<noteq> 2 then (Inl err_invalid_email, db, k)
         else (case domain_get_by_name (parts ! 1) db of
             (Inl err, db1) \<Rightarrow>
               (if err_is err err_domain_not_found then (Inl err_mb_domain_not_found, db1, k)
                else (Inl (Wrap ''error resolving domain'' err), db1, k))
           | (Inr dm, db1) \<Rightarrow>
               (case mailbox_get_by_email email db1 of
                  (Inr existing, db2) \<Rightarrow> (Inl err_mailbox_exists, db2, k)
                | (Inl err, db2) \<Rightarrow>
                    if \<not> err_is err err_mailbox_not_found then (Inl err, db2, k)
                    else (case hash_password (env_kdf env) rnd password default_argon2_params of
                        Inl (Panic s) \<Rightarrow> (Inl (Panic s), db2, k)
                      | Inl err \<Rightarrow> (Inl (Wrap ''failed to hash password'' err), db2, k)
                      | Inr hashed \<Rightarrow>
                          let m = \<lparr>mb_id = newid, mb_domain_id = dom_id dm, mb_email = email,
                                   mb_password_hash = hashed,
                                   mb_quota_bytes = (if quota \<le> 0 then 1073741824 else quota),
                                   mb_used_bytes = 0, mb_status = ''active'',
                                   mb_provisioning_status = prov_pending,
                                   mb_identity_provider = '''', mb_created_at = now,
                                   mb_updated_at = now, mb_domain_name = dom_name dm\<rparr>
                          in (case mailbox_repo_create newid now m db2 of
                                (Inl err, db3) \<Rightarrow> (Inl err, db3, k)
                              | (Inr m1, db3) \<Rightarrow>
                                  create_provision prov now m1 (dom_name dm) db3 k)))))"

text \<open>The boolean says that the mailbox was provisioned already.\<close>

definition mailbox_provision ::
    "'k provisioner option \<Rightarrow> instant \<Rightarrow> string \<Rightarrow> db \<Rightarrow> 'k \<Rightarrow> (mailbox \<times> bool) result \<times> db \<times> 'k" where
  "mailbox_provision prov now em db k =
     (let email = trim_space (to_lower em)
      in case mailbox_get_by_email email db of
           (Inl err, db1) \<Rightarrow> (Inl err, db1, k)
         | (Inr mb, db1) \<Rightarrow>
             if mb_provisioning_status mb = prov_ready then (Inr (mb, True), db1, k)
             else (case prov of
                 None \<Rightarrow> (Inl (Msg ''provisioner not configured''), db1, k)
               | Some p \<Rightarrow>
                   let db2 = snd (update_provisioning_status now (mb_id mb) prov_in_progress db1)
                   in (case provision p (prov_args mb (mb_domain_name mb)) k of
                         (Inl err, k1) \<Rightarrow>
                           (Inl (Wrap ''failed to provision mailbox'' err),
                            snd (update_provisioning_status now (mb_id mb) prov_failed db2), k1)
                       | (Inr u, k1) \<Rightarrow>
                           (Inr (mb\<lparr>mb_provisioning_status := prov_ready\<rparr>, False),
                            snd (update_provisioning_status now (mb_id mb) prov_ready db2), k1))))"

definition mailbox_doctor ::
    "'k provisioner option \<Rightarrow> string \<Rightarrow> db \<Rightarrow> 'k \<Rightarrow> doctor_report result \<times> db \<times> 'k" where
  "mailbox_doctor prov em db k =
     (let email = trim_space (to_lower em)
      in case mailbox_get_by_email email db of
           (Inl err, db1) \<Rightarrow> (Inl err, db1, k)
         | (Inr mb, db1) \<Rightarrow>
             (case prov of
                None \<Rightarrow> (Inl (Msg ''provisioner not configured''), db1, k)
              | Some p \<Rightarrow>
                  (case inspect p (prov_args mb (mb_domain_name mb)) k of
                     (Inl err, k1) \<Rightarrow> (Inl err, db1, k1)
                   | (Inr r, k1) \<Rightarrow>
                       (Inr (r\<lparr>rep_status := mb_status mb,
                               rep_provision_status := mb_provisioning_status mb,
                               rep_healthy := (if mb_provisioning_status mb \<noteq> prov_ready \<or>
                                  mb_status mb \<noteq> ''active'' then False else rep_healthy r)\<rparr>), db1, k1))))"

definition mailbox_svc_get :: "string \<Rightarrow> db \<Rightarrow> mailbox result \<times> db" where
  "mailbox_svc_get em db =
     (let email = trim_space (to_lower em)
      in if email = [] then (Inl err_invalid_email, db) else mailbox_get_by_email email db)"

definition mailbox_set_password ::
    "mail_env \<Rightarrow> instant \<Rightarrow> string result \<Rightarrow> string \<Rightarrow> string \<Rightarrow> db \<Rightarrow> unit result \<times> db" where
  "mailbox_set_password env now rnd em password db =
     (let email = trim_space (to_lower em)
      in if \<not> is_valid_email env email then (Inl err_invalid_email, db)
         else if length password < 8 then (Inl err_invalid_password, db)
         else (case mailbox_get_by_email email db of
             (Inl err, db1) \<Rightarrow> (Inl err, db1)
           | (Inr mb, db1) \<Rightarrow>
               (case hash_password (env_kdf env) rnd password default_argon2_params of
                  Inl (Panic s) \<Rightarrow> (Inl (Panic s), db1)
                | Inl err \<Rightarrow> (Inl (Wrap ''failed to hash new password'' err), db1)
                | Inr hashed \<Rightarrow> update_password_hash now (mb_id mb) hashed db1)))"

definition mailbox_delete ::
    "'k provisioner option \<Rightarrow> instant \<Rightarrow> string \<Rightarrow> db \<Rightarrow> 'k \<Rightarrow> unit result \<times> db \<times> 'k" where
  "mailbox_delete prov now em db k =
     (let email = trim_space (to_lower em)
      in if email = [] then (Inl err_invalid_email, db, k)
         else (case mailbox_get_by_email email db of
             (Inl err, db1) \<Rightarrow> (Inl err, db1, k)
           | (Inr mb, db1) \<Rightarrow>
               let db2 = snd (update_status now (mb_id mb) ''deleting'' db1);
                   db3 = snd (update_provisioning_status now (mb_id mb) prov_deprovisioning db2);
                   k1 = (case prov of
                           None \<Rightarrow> k
                         | Some p \<Rightarrow>
                             snd (deprovision p
                               ((prov_args mb (mb_domain_name mb))\<lparr>pm_quota_bytes := 0\<rparr>) k));
                   (r, db4) = mailbox_repo_delete email db3
               in (r, db4, k1)))"

text \<open>
  A panic of the key derivation is not an error value of \<open>VerifyPassword\<close>: it unwinds.
\<close>

definition mailbox_authenticate :: "mail_env \<Rightarrow> string \<Rightarrow> string \<Rightarrow> db \<Rightarrow> mailbox result \<times> db" where
  "mailbox_authenticate env em password db =
     (let email = trim_space (to_lower em)
      in if email = [] \<or> \<not> is_valid_email env email then (Inl err_invalid_email, db)
         else (case mailbox_get_by_email email db of
             (Inl err, db1) \<Rightarrow> (Inl err, db1)
           | (Inr mb, db1) \<Rightarrow>
               if mb_status mb \<noteq> ''active'' then (Inl err_authentication_failed, db1)
               else (case verify_password (env_kdf env) password (mb_password_hash mb) of
                   Inl (Panic s) \<Rightarrow> (Inl (Panic s), db1)
                 | Inl err \<Rightarrow> (Inl err_authentication_failed, db1)
                 | Inr valid \<Rightarrow>
                     if \<not> valid then (Inl err_authentication_failed, db1) else (Inr mb, db1))))"

definition mailbox_suspend :: "instant \<Rightarrow> uuid \<Rightarrow> db \<Rightarrow> unit result \<times> db" where
  "mailbox_suspend now i db = update_status now i ''suspended'' db"

definition mailbox_resume :: "instant \<Rightarrow> uuid \<Rightarrow> db \<Rightarrow> unit result \<times> db" where
  "mailbox_resume now i db = update_status now i ''active'' db"

end
