(* ===== verification/Mailbox_Props.thy ===== *)
theory Mailbox_Props
  imports Mailbox_Laws
begin

text \<open>
  The properties of the mailbox service that involve the provisioner and the passwords: the
  readiness invariant, proved in the locale of the provisioner's laws; the addresses in
  normal form; authentication after creation and after a change of password; deletion.
\<close>

section \<open>Addresses\<close>

text \<open>Every stored address is in normal form and ends in the name of its domain.\<close>

definition address_ok :: "db \<Rightarrow> mailbox \<Rightarrow> bool" where
  "address_ok db m \<longleftrightarrow> canon (mb_email m) = mb_email m \<and>
     (\<exists>d\<in>set (domains db). dom_id d = mb_domain_id m \<and>
        (\<exists>l. l \<noteq> [] \<and> CHR ''@'' \<notin> set l \<and> mb_email m = l @ CHR ''@'' # dom_name d))"

definition mailboxes_canon :: "db \<Rightarrow> bool" where
  "mailboxes_canon db \<longleftrightarrow> (\<forall>m\<in>set (mailboxes db). address_ok db m)"

lemma address_ok_cong:
  "mb_email m' = mb_email m \<Longrightarrow> mb_domain_id m' = mb_domain_id m \<Longrightarrow>
     domains db' = domains db \<Longrightarrow> address_ok db' m' = address_ok db m"
  by (simp add: address_ok_def)

lemma mailboxes_canon_tick [simp]: "mailboxes_canon (tick db) = mailboxes_canon db"
  by (simp add: mailboxes_canon_def address_ok_def)

lemma domains_mailbox_update [simp]:
  "domains (snd (mailbox_update msg f now i db)) = domains db"
  by (simp add: mailbox_update_db)

lemma mailboxes_canon_update:
  "keeps_keys f \<Longrightarrow> mailboxes_canon db \<Longrightarrow> mailboxes_canon (snd (mailbox_update msg f now i db))"
  by (auto simp: mailboxes_canon_def address_ok_def keeps_keys_def mailbox_update_db tbl_simps)

lemma keeps_keys_updates [simp]:
  "keeps_keys (\<lambda>m. m\<lparr>mb_provisioning_status := st\<rparr>)" "keeps_keys (\<lambda>m. m\<lparr>mb_status := st\<rparr>)"
  "keeps_keys (\<lambda>m. m\<lparr>mb_identity_provider := st\<rparr>)" "keeps_keys (\<lambda>m. m\<lparr>mb_password_hash := st\<rparr>)"
  "keeps_keys (\<lambda>m. m\<lparr>mb_used_bytes := n\<rparr>)" "keeps_keys (\<lambda>m. m\<lparr>mb_quota_bytes := n\<rparr>)"
  by (simp_all add: keeps_keys_def)

lemma is_valid_email_split:
  assumes "is_valid_email env e"
  obtains l d where "str_split CHR ''@'' e = [l, d]" and "e = l @ CHR ''@'' # d" and "CHR ''@'' \<notin> set l"
    and "CHR ''@'' \<notin> set d" and "l \<noteq> []" and "d \<noteq> []"
proof -
  from assms have "length (str_split CHR ''@'' e) = 2"
    and ne: "str_split CHR ''@'' e ! 0 \<noteq> []" "str_split CHR ''@'' e ! 1 \<noteq> []"
    by (auto simp: is_valid_email_def Let_def split: if_splits)
  then obtain l d where "str_split CHR ''@'' e = [l, d]"
    by (auto simp: length_Suc_conv numeral_2_eq_2)
  with ne that show thesis by (auto simp: split_pair_iff)
qed

lemma created_row:
  assumes "is_valid_email env (canon em)"
    and "find (\<lambda>d. dom_name d = str_split CHR ''@'' (canon em) ! 1) (domains db) = Some dm"
    and "mb_email m = canon em" and "mb_domain_id m = dom_id dm" and "domains db' = domains db"
  shows "address_ok db' m"
proof -
  obtain l d where e: "str_split CHR ''@'' (canon em) = [l, d]" "canon em = l @ CHR ''@'' # d"
    "CHR ''@'' \<notin> set l" "l \<noteq> []"
    using is_valid_email_split [OF assms(1)] by metis
  with assms(2) have "dm \<in> set (domains db)" "dom_name dm = d"
    using find_SomeD [of _ "domains db" dm] by auto
  with e assms show ?thesis by (auto simp: address_ok_def) (metis canon_idem)
qed

lemma create_provision_db:
  assumes "create_provision prov now m dname db k = (r, db', k')"
  obtains (none) "db' = db" "k' = k" "prov = None" "r = Inr m"
  | (failed) p err where "prov = Some p"
      and "provision p (prov_args m dname) k = (Inl err, k')"
      and "db' = snd (update_provisioning_status now (mb_id m) prov_failed
             (snd (update_provisioning_status now (mb_id m) prov_in_progress db)))"
      and "r = Inl (Wrap ''mailbox provisioning failed'' err)"
  | (ready) p where "prov = Some p"
      and "provision p (prov_args m dname) k = (Inr (), k')"
      and "db' = snd (update_provisioning_status now (mb_id m) prov_ready
             (snd (update_provisioning_status now (mb_id m) prov_in_progress db)))"
      and "r = Inr (m\<lparr>mb_provisioning_status := prov_ready\<rparr>)"
proof (cases prov)
  case None
  with assms none show thesis by (simp add: create_provision_def)
next
  case (Some p)
  obtain s k1 where "provision p (prov_args m dname) k = (s, k1)" by fastforce
  with Some assms failed ready show thesis
    by (cases s) (auto simp: create_provision_def Let_def)
qed

lemma mailboxes_canon_inv [simp]: "db_inv mailboxes_canon"
  by (simp add: db_inv_def)

lemma mailboxes_canon_create:
  assumes "mailboxes_canon db"
    and "mailbox_create env prov newid now rnd em password quota db k = (r, db', k')"
  shows "mailboxes_canon db'"
  using assms(2)
proof (cases rule: mailbox_create_cases)
  case refused
  with assms(1) show ?thesis by (simp add: db_inv_ticks)
next
  case (created dm h m db3)
  note row = mailbox_repo_create_Inr [OF created(6)]
  have "address_ok db3 (m\<lparr>mb_domain_name := ''''\<rparr>)"
    by (rule created_row [OF created(1,3)]) (simp_all add: row mailbox_defaults_def)
  moreover have "address_ok db3 x = address_ok db x" for x
    by (simp add: address_ok_def row(2))
  ultimately have canon3: "mailboxes_canon db3"
    using assms(1) by (auto simp: mailboxes_canon_def row(2))
  show ?thesis
    using created(7)
    by (cases rule: create_provision_db)
      (simp_all add: canon3 mailboxes_canon_update update_provisioning_status_def)
qed

lemma mailboxes_canon_provision:
  "mailboxes_canon db \<Longrightarrow> mailbox_provision prov now em db k = (r, db', k') \<Longrightarrow> mailboxes_canon db'"
  by (auto simp: mailbox_provision_def Let_def sql_simps mailboxes_canon_update
      update_provisioning_status_def split: option.splits prod.splits sum.splits if_splits)

lemma mailboxes_canon_del_mailboxes:
  "mailboxes_canon db \<Longrightarrow> mailboxes_canon (del_mailboxes P db)"
  by (auto simp: mailboxes_canon_def address_ok_def del_mailboxes_def Let_def tbl_simps)

lemma mailboxes_canon_delete:
  "mailboxes_canon db \<Longrightarrow> mailbox_delete prov now em db k = (r, db', k') \<Longrightarrow> mailboxes_canon db'"
  by (auto simp: mailbox_delete_def mailbox_repo_delete_def Let_def sql_simps mailboxes_canon_update
      mailboxes_canon_del_mailboxes update_provisioning_status_def update_status_def
      split: option.splits prod.splits sum.splits if_splits)

lemma mailboxes_canon_set_password:
  "mailboxes_canon db \<Longrightarrow> mailboxes_canon (snd (mailbox_set_password env now rnd em password db))"
  by (auto simp: mailbox_set_password_def Let_def sql_simps mailboxes_canon_update
      update_password_hash_def split: option.splits prod.splits sum.splits if_splits err.splits)

section \<open>Deletion\<close>

lemma mailbox_update_rows:
  assumes "keeps_keys f" and "m \<in> set (mailboxes (snd (mailbox_update msg f now i db)))"
  shows "if mb_id m = i then \<exists>m0\<in>set (mailboxes db). mb_id m0 = i \<and> mb_email m0 = mb_email m
         else m \<in> set (mailboxes db)"
  using assms by (auto simp: mailbox_update_db keeps_keys_def tbl_simps split: if_splits)

lemma two_updates:
  assumes "keeps_keys f" and "keeps_keys g"
    and "m \<in> set (mailboxes (snd (mailbox_update msg f now i (snd (mailbox_update msg' g now i (tick db))))))"
  shows "if mb_id m = i then \<exists>m0\<in>set (mailboxes db). mb_id m0 = i \<and> mb_email m0 = mb_email m
         else m \<in> set (mailboxes db)"
proof (cases "mb_id m = i")
  case True
  with mailbox_update_rows [OF assms(1,3)]
  obtain m1 where "m1 \<in> set (mailboxes (snd (mailbox_update msg' g now i (tick db))))"
    "mb_id m1 = i" "mb_email m1 = mb_email m" by auto
  with mailbox_update_rows [OF assms(2) this(1)] True show ?thesis by auto
next
  case False
  with mailbox_update_rows [OF assms(1,3)]
  have "m \<in> set (mailboxes (snd (mailbox_update msg' g now i (tick db))))" by simp
  from mailbox_update_rows [OF assms(2) this] False show ?thesis by simp
qed

lemma mailbox_repo_delete_Inr:
  "mailbox_repo_delete email db = (Inr u, db') \<Longrightarrow> db' = del_mailboxes (\<lambda>m. mb_email m = email) (tick db)"
  by (auto simp: mailbox_repo_delete_def sql_simps split: if_splits)

lemma mailbox_delete_Inr:
  assumes "mailbox_delete prov now em db k = (Inr u, db', k')"
  obtains mb db3 where "find (\<lambda>m. mb_email m = canon em) (mailbox_rows db) = Some mb"
    and "db3 = snd (update_provisioning_status now (mb_id mb) prov_deprovisioning
                 (snd (update_status now (mb_id mb) ''deleting'' (tick db))))"
    and "db' = del_mailboxes (\<lambda>m. mb_email m = canon em) (tick db3)"
    and "k' = (case prov of None \<Rightarrow> k
               | Some p \<Rightarrow> snd (deprovision p ((prov_args mb (mb_domain_name mb))\<lparr>pm_quota_bytes := 0\<rparr>) k))"
proof -
  have ne: "\<not> fails db" "canon em \<noteq> []"
    using assms by (auto simp: mailbox_delete_def Let_def sql_simps canon_def' split: if_splits)
  show thesis
  proof (cases "find (\<lambda>m. mb_email m = canon em) (mailbox_rows db)")
    case None
    with assms ne show thesis by (simp add: mailbox_delete_def Let_def sql_simps canon_def')
  next
    case (Some mb)
    let ?db3 = "snd (update_provisioning_status now (mb_id mb) prov_deprovisioning
                 (snd (update_status now (mb_id mb) ''deleting'' (tick db))))"
    obtain r4 db4 where d4: "mailbox_repo_delete (canon em) ?db3 = (r4, db4)" by fastforce
    with assms ne Some have "r4 = Inr u" "db' = db4"
      and k': "k' = (case prov of None \<Rightarrow> k
        | Some p \<Rightarrow> snd (deprovision p ((prov_args mb (mb_domain_name mb))\<lparr>pm_quota_bytes := 0\<rparr>) k))"
      by (simp_all add: mailbox_delete_def Let_def sql_simps canon_def')
    with d4 show thesis
      by (intro that [OF Some refl _ k']) (auto dest: mailbox_repo_delete_Inr)
  qed
qed

lemma mailbox_delete_rows:
  assumes "wf_db db" and "mailbox_delete prov now em db k = (Inr u, db', k')"
    and "m \<in> set (mailboxes db')"
  shows "m \<in> set (mailboxes db)" and "mb_email m \<noteq> canon em"
proof -
  obtain mb db3 where mb: "find (\<lambda>m. mb_email m = canon em) (mailbox_rows db) = Some mb"
    and db3: "db3 = snd (update_provisioning_status now (mb_id mb) prov_deprovisioning
                 (snd (update_status now (mb_id mb) ''deleting'' (tick db))))"
    and db': "db' = del_mailboxes (\<lambda>m. mb_email m = canon em) (tick db3)"
    using assms(2) by (rule mailbox_delete_Inr) blast
  obtain m0 and d :: domain where m0: "m0 \<in> set (mailboxes db)" "mb = m0\<lparr>mb_domain_name := dom_name d\<rparr>"
    "mb_email mb = canon em"
    by (rule find_mailbox_rows [OF mb]) blast
  from assms(3) show ne: "mb_email m \<noteq> canon em"
    by (auto simp: db' del_mailboxes_def Let_def tbl_simps)
  from assms(3) have "m \<in> set (mailboxes db3)"
    by (auto simp: db' del_mailboxes_def Let_def tbl_simps)
  then have "if mb_id m = mb_id mb then \<exists>x\<in>set (mailboxes db). mb_id x = mb_id mb \<and> mb_email x = mb_email m
      else m \<in> set (mailboxes db)"
    unfolding db3 update_provisioning_status_def update_status_def
    by (rule two_updates [OF keeps_keys_updates(1) keeps_keys_updates(2)])
  moreover have "mb_email x = canon em" if "x \<in> set (mailboxes db)" "mb_id x = mb_id mb" for x
  proof -
    have "x = m0" using distinct_key_eq [of mb_id "mailboxes db" x m0] assms(1) that m0
      by (simp add: wf_db_def wf_defs)
    with m0 show ?thesis by simp
  qed
  ultimately show "m \<in> set (mailboxes db)"
    using ne by (auto split: if_splits)
qed

section \<open>Readiness\<close>

context provisioner_laws
begin

definition ready_inv :: "db \<Rightarrow> 'k \<Rightarrow> bool" where
  "ready_inv db k \<longleftrightarrow>
     (\<forall>m\<in>set (mailboxes db). mb_provisioning_status m = prov_ready \<longrightarrow> ready k (mb_email m))"

lemma ready_inv_tick: "db_inv (\<lambda>db. ready_inv db k)"
  by (simp add: db_inv_def ready_inv_def)

lemma ready_inv_keeps:
  "ready_inv db k \<Longrightarrow> provision ops mb k = (r, k') \<Longrightarrow> ready_inv db k'"
  using provision_pair_keeps by (auto simp: ready_inv_def)

lemma ready_inv_status:
  assumes "ready_inv db k"
    and "st = prov_ready \<Longrightarrow> \<forall>m\<in>set (mailboxes db). mb_id m = i \<longrightarrow> ready k (mb_email m)"
  shows "ready_inv (snd (update_provisioning_status now i st db)) k"
  using assms by (auto simp: ready_inv_def update_provisioning_status_def mailbox_update_db tbl_simps)

lemma prov_consts_distinct:
  "prov_in_progress \<noteq> prov_ready" "prov_failed \<noteq> prov_ready" "prov_pending \<noteq> prov_ready"
  "prov_deprovisioning \<noteq> prov_ready"
  by (simp_all add: prov_consts)

lemma emails_of_update:
  "m \<in> set (mailboxes (snd (update_provisioning_status now i st db))) \<Longrightarrow>
     \<exists>m0\<in>set (mailboxes db). mb_id m0 = mb_id m \<and> mb_email m0 = mb_email m"
  by (fastforce simp: update_provisioning_status_def mailbox_update_db tbl_simps split: if_splits)

text \<open>Provisioning a row, as creation and the later retry do it.\<close>

lemma ready_inv_provisioned:
  assumes "ready_inv db k" and "\<forall>m\<in>set (mailboxes db). mb_id m = i \<longrightarrow> mb_email m = pm_email mb"
    and "provision ops mb k = (Inr (), k')"
  shows "ready_inv (snd (update_provisioning_status now i prov_ready
           (snd (update_provisioning_status now i prov_in_progress db)))) k'"
proof (rule ready_inv_status)
  show "ready_inv (snd (update_provisioning_status now i prov_in_progress db)) k'"
    by (rule ready_inv_keeps [OF ready_inv_status [OF assms(1)] assms(3)])
      (simp add: prov_consts_distinct)
  show "\<forall>m\<in>set (mailboxes (snd (update_provisioning_status now i prov_in_progress db))).
      mb_id m = i \<longrightarrow> ready k' (mb_email m)"
    using emails_of_update assms(2) provision_ready [OF assms(3)] by metis
qed

lemma ready_inv_failed:
  assumes "ready_inv db k" and "provision ops mb k = (r, k')"
  shows "ready_inv (snd (update_provisioning_status now i prov_failed
           (snd (update_provisioning_status now i prov_in_progress db)))) k'"
  using assms(1) ready_inv_status ready_inv_keeps [OF _ assms(2)] prov_consts_distinct by metis

lemma ready_inv_create:
  assumes "wf_db db" and "ready_inv db k"
    and "mailbox_create env (Some ops) newid now rnd em password quota db k = (r, db', k')"
  shows "ready_inv db' k'"
  using assms(3)
proof (cases rule: mailbox_create_cases)
  case refused
  with assms(2) show ?thesis by (simp add: db_inv_ticks [OF ready_inv_tick])
next
  case (created dm h m db3)
  note row = mailbox_repo_create_Inr [OF created(6)]
  have wf3: "wf_db db3"
    using wf_mailbox_repo_create [of "tick (tick db)"] assms(1) created(6) by (metis snd_conv wf_db_tick)
  have inv3: "ready_inv db3 k"
    using assms(2) prov_consts_distinct
    by (auto simp: ready_inv_def row mailbox_defaults_def prov_consts)
  have ids: "\<forall>x\<in>set (mailboxes db3). mb_id x = mb_id m \<longrightarrow> mb_email x = mb_email m"
  proof (intro ballI impI)
    fix x assume "x \<in> set (mailboxes db3)" "mb_id x = mb_id m"
    moreover have "distinct (map mb_id (mailboxes db3))"
      using wf3 by (simp add: wf_db_def wf_defs)
    ultimately have "x = m\<lparr>mb_domain_name := ''''\<rparr>"
      using distinct_key_eq [of mb_id "mailboxes db3" x "m\<lparr>mb_domain_name := ''''\<rparr>"]
      by (simp add: row(2))
    then show "mb_email x = mb_email m" by simp
  qed
  from created(7) show ?thesis
  proof (cases rule: create_provision_db)
    case none
    then show ?thesis by simp
  next
    case failed
    then show ?thesis using ready_inv_failed [OF inv3] by simp
  next
    case (ready p)
    then show ?thesis
      using ready_inv_provisioned [OF inv3, of "mb_id m" "prov_args m (dom_name dm)"] ids
      by (simp add: prov_args_def)
  qed
qed

lemma ready_inv_provision:
  assumes "wf_db db" and "ready_inv db k"
    and "mailbox_provision (Some ops) now em db k = (r, db', k')"
  shows "ready_inv db' k'"
proof (cases "fails db")
  case True
  with assms show ?thesis
    by (auto simp: mailbox_provision_def Let_def sql_simps ready_inv_def)
next
  case False
  show ?thesis
  proof (cases "find (\<lambda>m. mb_email m = canon em) (mailbox_rows db)")
    case None
    with assms False show ?thesis
      by (auto simp: mailbox_provision_def Let_def sql_simps ready_inv_def canon_def')
  next
    case (Some mb)
    then obtain m0 and d :: domain where m0: "m0 \<in> set (mailboxes db)" "mb = m0\<lparr>mb_domain_name := dom_name d\<rparr>"
      by (rule find_mailbox_rows)
    have ids: "\<forall>x\<in>set (mailboxes (tick db)). mb_id x = mb_id mb \<longrightarrow>
        mb_email x = pm_email (prov_args mb (mb_domain_name mb))"
      using assms(1) m0 distinct_key_eq [of mb_id "mailboxes db" _ m0]
      by (auto simp: wf_db_def wf_defs prov_args_def)
    have inv: "ready_inv (tick db) k" using assms(2) by (simp add: ready_inv_def)
    show ?thesis
    proof (cases "provision ops (prov_args mb (mb_domain_name mb)) k")
      case (Pair s k1)
      with assms(3) False Some inv show ?thesis
        using ready_inv_provisioned [OF inv ids] ready_inv_failed [OF inv]
        by (auto simp: mailbox_provision_def Let_def sql_simps canon_def'
            split: if_splits sum.splits)
    qed
  qed
qed

text \<open>
  A deletion that reports success has removed the row, so the removed directories are
  missed by nobody; without database failures it always reports the outcome of the removal.
\<close>

lemma ready_inv_delete:
  assumes "wf_db db" and "mailboxes_canon db" and "ready_inv db k"
    and "mailbox_delete (Some ops) now em db k = (Inr u, db', k')"
  shows "ready_inv db' k'"
proof -
  obtain mb where mb: "find (\<lambda>m. mb_email m = canon em) (mailbox_rows db) = Some mb"
    and k': "k' = snd (deprovision ops ((prov_args mb (mb_domain_name mb))\<lparr>pm_quota_bytes := 0\<rparr>) k)"
    using assms(4) by (rule mailbox_delete_Inr) auto
  have em: "mb_email mb = canon em"
    by (rule find_mailbox_rows [OF mb]) blast
  show ?thesis
    unfolding ready_inv_def
  proof (intro ballI impI)
    fix m assume m: "m \<in> set (mailboxes db')" and st: "mb_provisioning_status m = prov_ready"
    note row = mailbox_delete_rows [OF assms(1,4) m]
    from row assms(2) em have "canon (mb_email m) \<noteq> canon (mb_email mb)"
      by (auto simp: mailboxes_canon_def address_ok_def)
    moreover have "ready k (mb_email m)"
      using row st assms(3) by (simp add: ready_inv_def)
    ultimately show "ready k' (mb_email m)"
      using deprovision_other by (simp add: k' prov_args_def)
  qed
qed

lemma ready_inv_domain_delete:
  "ready_inv db k \<Longrightarrow> ready_inv (snd (domain_delete nm db)) k"
  by (auto simp: ready_inv_def domain_delete_def domain_repo_delete_def sql_simps Let_def
      del_domains_def del_mailboxes_def tbl_simps)

end

section \<open>Passwords\<close>

lemma find_row:
  assumes "wf_db db" and "m0 \<in> set (mailboxes db)"
  obtains d where "d \<in> set (domains db)" and "dom_id d = mb_domain_id m0"
    and "find (\<lambda>m. mb_email m = mb_email m0) (mailbox_rows db) = Some (m0\<lparr>mb_domain_name := dom_name d\<rparr>)"
proof -
  obtain d where d: "d \<in> set (domains db)" "dom_id d = mb_domain_id m0"
    "join_domain db m0 = Some (m0\<lparr>mb_domain_name := dom_name d\<rparr>)"
    by (rule join_domain_total [OF assms])
  obtain mb where mb: "find (\<lambda>m. mb_email m = mb_email m0) (mailbox_rows db) = Some mb"
    using mailbox_rows_empty_iff [OF assms(1), of "mb_email m0"] assms(2) by auto
  from find_SomeD [OF this] obtain m1 where m1: "m1 \<in> set (mailboxes db)" "join_domain db m1 = Some mb"
    "mb_email mb = mb_email m0"
    by (auto simp: set_mailbox_rows)
  then have "mb_email m1 = mb_email m0" by (auto simp: join_domain_Some)
  then have "m1 = m0"
    using distinct_key_eq [of "\<lambda>m. to_lower (mb_email m)" "mailboxes db" m1 m0] assms m1
    by (simp add: wf_db_def wf_defs)
  with m1 d mb that show thesis by auto
qed

text \<open>Authentication against a stored row, on a working database.\<close>

lemma authenticate_row:
  assumes "wf_db db" and "faults db = []" and "m0 \<in> set (mailboxes db)" and "mb_email m0 = canon em"
    and "is_valid_email env (canon em)"
    and "verify_password (env_kdf env) pw (mb_password_hash m0) = Inr valid"
  shows "\<exists>n. mailbox_authenticate env em pw db =
     ((if mb_status m0 = ''active'' \<and> valid then Inr (m0\<lparr>mb_domain_name := n\<rparr>)
       else Inl err_authentication_failed), db)"
proof -
  obtain d :: domain where
    "find (\<lambda>m. mb_email m = mb_email m0) (mailbox_rows db) = Some (m0\<lparr>mb_domain_name := dom_name d\<rparr>)"
    by (rule find_row [OF assms(1,3)]) blast
  then have f: "find (\<lambda>m. mb_email m = canon em) (mailbox_rows db)
      = Some (m0\<lparr>mb_domain_name := dom_name d\<rparr>)"
    unfolding assms(4) .
  have ne: "canon em \<noteq> []" using assms(5) by (auto simp: is_valid_email_def)
  have get: "mailbox_get_by_email (canon em) db = (Inr (m0\<lparr>mb_domain_name := dom_name d\<rparr>), db)"
    by (simp add: sql_simps f assms(2))
  show ?thesis
    by (rule exI [of _ "dom_name d"])
      (simp add: mailbox_authenticate_def canon_def' get ne assms(5,6))
qed

lemma default_params_positive:
  "0 < iterations default_argon2_params" "0 < parallelism default_argon2_params"
  "0 < key_length default_argon2_params" "unat (key_length default_argon2_params) = 32"
  by (simp_all add: default_argon2_params_def)

lemma derived_key:
  assumes "kdf_law id_key"
  obtains k where "id_key pw salt (iterations default_argon2_params) (memory default_argon2_params)
      (parallelism default_argon2_params) (key_length default_argon2_params) = Inr k" and "length k = 32"
  using assms default_params_positive unfolding kdf_law_def by metis

text \<open>A stored password accepts exactly the passwords with the same derived key.\<close>

definition same_key :: "kdf \<Rightarrow> string \<Rightarrow> string \<Rightarrow> string \<Rightarrow> bool" where
  "same_key id_key salt pw pw' \<longleftrightarrow>
     id_key pw' salt 1 65536 4 32 = id_key pw salt 1 65536 4 32"

lemma verify_hashed:
  assumes "kdf_law id_key" and "hash_password id_key (Inr salt) pw default_argon2_params = Inr h"
  shows "verify_password id_key pw' h = Inr (same_key id_key salt pw pw')"
proof -
  let ?p = default_argon2_params
  obtain k where k: "id_key pw salt (iterations ?p) (memory ?p) (parallelism ?p) (key_length ?p) = Inr k"
    "length k = 32"
    by (rule derived_key [OF assms(1)])
  obtain k' where k': "id_key pw' salt (iterations ?p) (memory ?p) (parallelism ?p) (key_length ?p) = Inr k'"
    by (rule derived_key [OF assms(1)])
  from assms(2) k have "h = encode_hash ?p salt k" by (simp add: hash_password_def)
  with k k' show ?thesis
    by (auto simp: verify_encode_hash same_key_def default_argon2_params_def)
qed

lemma faults_tick [simp]: "faults db = [] \<Longrightarrow> faults (tick db) = []"
  by simp

lemma faults_mailbox_update: "faults db = [] \<Longrightarrow> faults (snd (mailbox_update msg f now i db)) = []"
  by (simp add: mailbox_update_db)

lemma mailbox_update_image:
  "x \<in> set (mailboxes db) \<Longrightarrow>
     (if \<not> fails db \<and> mb_id x = i then (f x)\<lparr>mb_updated_at := now\<rparr> else x)
       \<in> set (mailboxes (snd (mailbox_update msg f now i db)))"
  by (force simp: mailbox_update_db set_update_where)

text \<open>What a mailbox creation leaves in the table.\<close>

lemma mailbox_create_row:
  assumes "wf_db db" and "faults db = []"
    and "mailbox_create env prov newid now (Inr salt) em pw quota db k = (Inr m, db', k')"
  obtains m0 h where "m0 \<in> set (mailboxes db')" and "mb_email m0 = canon em" and "mb_status m0 = ''active''"
    and "mb_id m0 = newid" and "mb_password_hash m0 = h"
    and "hash_password (env_kdf env) (Inr salt) pw default_argon2_params = Inr h"
    and "is_valid_email env (canon em)" and "faults db' = []"
  using assms(3)
proof (cases rule: mailbox_create_cases)
  case refused
  then show ?thesis by simp
next
  case (created dm h m1 db3)
  note row = mailbox_repo_create_Inr [OF created(6)]
  let ?m = "m1\<lparr>mb_domain_name := ''''\<rparr>"
  have m: "?m \<in> set (mailboxes db3)" "mb_id ?m = newid" "mb_email ?m = canon em"
    "mb_status ?m = ''active''" "mb_password_hash ?m = h" "faults db3 = []"
    using assms(2) by (simp_all add: row mailbox_defaults_def tick_def)
  then have ex: "\<exists>x\<in>set (mailboxes db3). mb_id x = newid \<and> mb_email x = canon em \<and>
      mb_status x = ''active'' \<and> mb_password_hash x = h"
    by blast
  have upd: "\<exists>x\<in>set (mailboxes (snd (update_provisioning_status now i st d))).
      mb_id x = newid \<and> mb_email x = canon em \<and> mb_status x = ''active'' \<and> mb_password_hash x = h"
    if "\<exists>x\<in>set (mailboxes d). mb_id x = newid \<and> mb_email x = canon em \<and> mb_status x = ''active''
        \<and> mb_password_hash x = h" for d i st
  proof -
    from that obtain x where "x \<in> set (mailboxes d)" "mb_id x = newid" "mb_email x = canon em"
      "mb_status x = ''active''" "mb_password_hash x = h" by blast
    then show ?thesis
      unfolding update_provisioning_status_def
      by (intro bexI [OF _ mailbox_update_image]) auto
  qed
  have "(\<exists>x\<in>set (mailboxes db'). mb_id x = newid \<and> mb_email x = canon em \<and> mb_status x = ''active''
        \<and> mb_password_hash x = h) \<and> faults db' = []"
    using created(7)
  proof (cases rule: create_provision_db)
    case none
    with ex m(6) show ?thesis by simp
  next
    case failed
    then show ?thesis by simp
  next
    case ready
    show ?thesis
      unfolding ready(3) using upd [OF upd [OF ex]] m(6)
      by (simp add: update_provisioning_status_def faults_mailbox_update)
  qed
  then show thesis
    using created(1,4) that by blast
qed

lemma set_password_Inr:
  assumes "wf_db db" and "faults db = []"
    and "mailbox_set_password env now (Inr salt) em pw db = (Inr u, db')"
  obtains m0 h where "m0 \<in> set (mailboxes db)" and "mb_email m0 = canon em"
    and "hash_password (env_kdf env) (Inr salt) pw default_argon2_params = Inr h"
    and "is_valid_email env (canon em)" and "faults db' = []" and "wf_db db'"
    and "m0\<lparr>mb_password_hash := h, mb_updated_at := now\<rparr> \<in> set (mailboxes db')"
    and "\<forall>m\<in>set (mailboxes db). mb_email m \<noteq> canon em \<longrightarrow> m \<in> set (mailboxes db')"
proof -
  from assms have v: "is_valid_email env (canon em)" "8 \<le> length pw"
    by (auto simp: mailbox_set_password_def Let_def canon_def' split: if_splits)
  obtain mb where mb: "find (\<lambda>m. mb_email m = canon em) (mailbox_rows db) = Some mb"
    using assms v
    by (cases "find (\<lambda>m. mb_email m = canon em) (mailbox_rows db)")
      (auto simp: mailbox_set_password_def Let_def canon_def' sql_simps)
  obtain m0 and d :: domain where m0: "m0 \<in> set (mailboxes db)" "mb = m0\<lparr>mb_domain_name := dom_name d\<rparr>"
    "mb_email mb = canon em"
    by (rule find_mailbox_rows [OF mb]) blast
  obtain h where h: "hash_password (env_kdf env) (Inr salt) pw default_argon2_params = Inr h"
    and upd: "update_password_hash now (mb_id mb) h db = (Inr u, db')"
    using assms v mb
    by (auto simp: mailbox_set_password_def Let_def canon_def' sql_simps split: sum.splits err.splits)
  have db': "db' = snd (update_password_hash now (mb_id m0) h db)"
    using upd m0 by simp
  have uniq: "x = m0" if "x \<in> set (mailboxes db)" "mb_id x = mb_id m0" for x
    using distinct_key_eq [of mb_id "mailboxes db" x m0] assms(1) that m0(1)
    by (simp add: wf_db_def wf_defs)
  have "m0\<lparr>mb_password_hash := h, mb_updated_at := now\<rparr> \<in> set (mailboxes db')"
    using m0(1) assms(2) by (force simp: db' update_password_hash_def mailbox_update_db tbl_simps)
  moreover have "\<forall>m\<in>set (mailboxes db). mb_email m \<noteq> canon em \<longrightarrow> m \<in> set (mailboxes db')"
  proof (intro ballI impI)
    fix x assume x: "x \<in> set (mailboxes db)" "mb_email x \<noteq> canon em"
    with m0 uniq [of x] have "mb_id x \<noteq> mb_id m0" by auto
    with x assms(2) show "x \<in> set (mailboxes db')"
      by (force simp: db' update_password_hash_def mailbox_update_db tbl_simps)
  qed
  moreover have "wf_db db'" unfolding db' by (rule wf_mailbox_updates(4) [OF assms(1)])
  moreover have "faults db' = []" using assms(2)
    by (simp add: db' update_password_hash_def faults_mailbox_update)
  ultimately show thesis using m0 h v that by simp
qed

lemma update_keeps_row:
  assumes "keeps_keys f" and "\<exists>x\<in>set (mailboxes db). mb_id x = i \<and> mb_email x = e"
  shows "\<exists>x\<in>set (mailboxes (snd (mailbox_update msg f now j db))). mb_id x = i \<and> mb_email x = e"
proof -
  obtain x where "x \<in> set (mailboxes db)" "mb_id x = i" "mb_email x = e" using assms(2) by blast
  then show ?thesis
    using assms(1) by (intro bexI [OF _ mailbox_update_image]) (auto simp: keeps_keys_def)
qed

text \<open>On a working database the deletion of an existing mailbox always succeeds.\<close>

lemma mailbox_delete_succeeds:
  assumes "wf_db db" and "faults db = []" and "m0 \<in> set (mailboxes db)" and "mb_email m0 = canon em"
    and "canon em \<noteq> []"
  shows "\<exists>db' k'. mailbox_delete prov now em db k = (Inr (), db', k')"
proof -
  obtain d :: domain where
    "find (\<lambda>m. mb_email m = mb_email m0) (mailbox_rows db) = Some (m0\<lparr>mb_domain_name := dom_name d\<rparr>)"
    by (rule find_row [OF assms(1,3)]) blast
  then have g: "mailbox_get_by_email (canon em) db = (Inr (m0\<lparr>mb_domain_name := dom_name d\<rparr>), db)"
    unfolding assms(4) by (simp add: sql_simps assms(2))
  let ?db3 = "snd (update_provisioning_status now (mb_id m0) prov_deprovisioning
                 (snd (update_status now (mb_id m0) ''deleting'' db)))"
  have "\<exists>x\<in>set (mailboxes ?db3). mb_id x = mb_id m0 \<and> mb_email x = canon em"
    unfolding update_status_def update_provisioning_status_def
    by (intro update_keeps_row) (use assms(3,4) in auto)
  then have "affected (\<lambda>m. mb_email m = canon em) (mailboxes ?db3) \<noteq> 0"
    by (auto simp: tbl_simps)
  moreover have "faults ?db3 = []"
    using assms(2) by (simp add: update_status_def update_provisioning_status_def faults_mailbox_update)
  ultimately have "\<exists>db'. mailbox_repo_delete (canon em) ?db3 = (Inr (), db')"
    by (simp add: mailbox_repo_delete_def sql_simps)
  then show ?thesis
    using assms(5) by (auto simp: mailbox_delete_def canon_def' Let_def g)
qed

section \<open>A concrete mail host\<close>

text \<open>An instance of the parameters, for the examples: a padded key "derivation".\<close>

definition example_kdf :: kdf where
  "example_kdf pw salt t m p n =
     (if t = 0 \<or> p = 0 then Inl (Panic ''argon2'')
      else Inr (take (unat n) (pw @ replicate (unat n) (CHR ''.''))))"

definition example_env :: mail_env where
  "example_env = \<lparr>env_kdf = example_kdf, env_parse_address = (\<lambda>s. True)\<rparr>"

definition example_domain :: domain where
  "example_domain =
     \<lparr>dom_id = 1, dom_name = ''example.org'', dom_status = ''active'', dom_created_at = 0,
      dom_updated_at = 0\<rparr>"

definition example_db :: db where
  "example_db = empty_db\<lparr>domains := [example_domain]\<rparr>"

lemma example_kdf_law: "kdf_law example_kdf"
  by (auto simp: kdf_law_def example_kdf_def)

lemma wf_example_db: "wf_db example_db" "faults example_db = []" "mailboxes example_db = []"
  by (simp_all add: example_db_def empty_db_def wf_db_def wf_defs ref_def)

text \<open>Creation without a provisioner, when nothing is in the way.\<close>

lemma mailbox_create_succeeds:
  assumes "wf_db db" and "faults db = []" and "is_valid_email env (canon em)" and "8 \<le> length pw"
    and "str_split CHR ''@'' (canon em) = [l, dom_name dm]"
    and "find (\<lambda>d. dom_name d = dom_name dm) (domains db) = Some dm"
    and "\<forall>m\<in>set (mailboxes db). to_lower (mb_email m) \<noteq> canon em \<and> mb_id m \<noteq> newid"
    and "hash_password (env_kdf env) rnd pw default_argon2_params = Inr h"
  shows "\<exists>m. mailbox_create env None newid now rnd em pw quota db k =
     (Inr m, db\<lparr>mailboxes := mailboxes db @ [m\<lparr>mb_domain_name := ''''\<rparr>]\<rparr>, k) \<and>
     mb_id m = newid \<and> mb_email m = canon em \<and> mb_domain_id m = dom_id dm \<and> mb_password_hash m = h"
proof -
  have sel: "mb_id (mailbox_defaults newid now m) = (if mb_id m = 0 then newid else mb_id m)"
    "mb_email (mailbox_defaults newid now m) = mb_email m"
    "mb_domain_id (mailbox_defaults newid now m) = mb_domain_id m"
    "mb_password_hash (mailbox_defaults newid now m) = mb_password_hash m" for m
    by (simp_all add: mailbox_defaults_def)
  have none: "find (\<lambda>m. mb_email m = canon em) (mailbox_rows db) = None"
    using assms(7) by (auto simp: mailbox_rows_empty_iff [OF assms(1)])
  have dm: "dm \<in> set (domains db)" using find_SomeD [OF assms(6)] by simp
  have ok: "first_violation (mailbox_constraints (mailbox_defaults newid now m) db) = None"
    if "mb_id m = newid" "mb_email m = canon em" "mb_domain_id m = dom_id dm" for m
    using assms(7) dm that by (auto simp: mailbox_constraints_def mailbox_defaults_def sql_simps)
  show ?thesis
    by (rule exI [of _ "mailbox_defaults newid now
          \<lparr>mb_id = newid, mb_domain_id = dom_id dm, mb_email = canon em,
           mb_password_hash = h, mb_quota_bytes = (if quota \<le> 0 then 1073741824 else quota),
           mb_used_bytes = 0, mb_status = ''active'', mb_provisioning_status = prov_pending,
           mb_identity_provider = '''', mb_created_at = now, mb_updated_at = now,
           mb_domain_name = dom_name dm\<rparr>"])
      (use assms(2-6,8) none ok in \<open>simp add: mailbox_create_def canon_def' Let_def sql_simps errs
        mailbox_repo_create_def create_provision_def sel\<close>)
qed

lemma example_account:
  obtains m db' where "mailbox_create example_env None 5 0 (Inr ''salt'') ''Ann@Example.org''
      ''correct horse'' 0 example_db () = (Inr m, db', ())"
    and "wf_db db'" and "faults db' = []" and "mailboxes db' = [m\<lparr>mb_domain_name := ''''\<rparr>]"
    and "mb_email m = ''ann@example.org''" and "mb_id m = 5"
proof -
  have "is_valid_email example_env (canon ''Ann@Example.org'')" by code_simp
  moreover have "8 \<le> length ''correct horse''" by simp
  moreover have "str_split CHR ''@'' (canon ''Ann@Example.org'') = [''ann'', dom_name example_domain]"
    by code_simp
  moreover have "find (\<lambda>d. dom_name d = dom_name example_domain) (domains example_db) = Some example_domain"
    by (simp add: example_db_def)
  moreover obtain h where "hash_password (env_kdf example_env) (Inr ''salt'') ''correct horse''
      default_argon2_params = Inr h"
    by (simp add: hash_password_def example_env_def example_kdf_def default_argon2_params_def)
  ultimately obtain m where run: "mailbox_create example_env None 5 0 (Inr ''salt'') ''Ann@Example.org''
      ''correct horse'' 0 example_db () =
        (Inr m, example_db\<lparr>mailboxes := mailboxes example_db @ [m\<lparr>mb_domain_name := ''''\<rparr>]\<rparr>, ())"
    and m: "mb_id m = 5" "mb_email m = canon ''Ann@Example.org''"
    using mailbox_create_succeeds [OF wf_example_db(1,2), of example_env "''Ann@Example.org''"
        "''correct horse''" "''ann''" example_domain 5 "Inr ''salt''"] wf_example_db(3)
    by fastforce
  have "canon ''Ann@Example.org'' = ''ann@example.org''" by code_simp
  with m have "mb_email m = ''ann@example.org''" by simp
  with run m wf_mailbox_create [OF wf_example_db(1) run] show thesis
    by (intro that [OF run]) (simp_all add: example_db_def empty_db_def)
qed

section \<open>Properties\<close>

text \<open>
  C1. A mailbox that was created authenticates with its password, under any spelling of the
  address, and with no password whose derived key differs.
\<close>

theorem create_then_authenticate:
  assumes "wf_db db" and "faults db = []" and "kdf_law (env_kdf env)"
    and "mailbox_create env prov newid now (Inr salt) em pw quota db k = (Inr m, db', k')"
    and "canon em' = canon em"
  shows "(\<exists>m'. mailbox_authenticate env em' pw db' = (Inr m', db') \<and> mb_id m' = newid \<and>
        mb_email m' = canon em) \<and>
    (\<forall>pw'. \<not> same_key (env_kdf env) salt pw pw' \<longrightarrow>
        mailbox_authenticate env em' pw' db' = (Inl err_authentication_failed, db'))"
proof -
  obtain m0 h where m0: "m0 \<in> set (mailboxes db')" "mb_email m0 = canon em'" "mb_status m0 = ''active''"
    "mb_id m0 = newid" "mb_password_hash m0 = h"
    and h: "hash_password (env_kdf env) (Inr salt) pw default_argon2_params = Inr h"
    and v: "is_valid_email env (canon em')" and f: "faults db' = []"
    using mailbox_create_row [OF assms(1,2,4)] assms(5) by metis
  have wf: "wf_db db'" by (rule wf_mailbox_create [OF assms(1,4)])
  have auth: "\<exists>n. mailbox_authenticate env em' pw' db' =
      ((if same_key (env_kdf env) salt pw pw' then Inr (m0\<lparr>mb_domain_name := n\<rparr>)
        else Inl err_authentication_failed), db')" for pw'
    using authenticate_row [OF wf f m0(1,2) v, unfolded m0(5), OF verify_hashed [OF assms(3) h]]
    by (simp add: m0(3))
  show ?thesis
  proof (intro conjI allI impI)
    obtain n where "mailbox_authenticate env em' pw db' = (Inr (m0\<lparr>mb_domain_name := n\<rparr>), db')"
      using auth [of pw] by (auto simp: same_key_def)
    then show "\<exists>m'. mailbox_authenticate env em' pw db' = (Inr m', db') \<and> mb_id m' = newid \<and>
        mb_email m' = canon em"
      using m0 assms(5) by simp
  next
    fix pw' assume "\<not> same_key (env_kdf env) salt pw pw'"
    then show "mailbox_authenticate env em' pw' db' = (Inl err_authentication_failed, db')"
      using auth [of pw'] by simp
  qed
qed

theorem create_then_authenticate_witness:
  "\<exists>m db'. mailbox_create example_env None 5 0 (Inr ''salt'') ''Ann@Example.org'' ''correct horse'' 0
       example_db () = (Inr m, db', ()) \<and>
     fst (mailbox_authenticate example_env '' ANN@example.org'' ''wrong horse'' db')
       = Inl err_authentication_failed"
proof -
  obtain m db' where run: "mailbox_create example_env None 5 0 (Inr ''salt'') ''Ann@Example.org''
      ''correct horse'' 0 example_db () = (Inr m, db', ())"
    by (rule example_account)
  have law: "kdf_law (env_kdf example_env)" by (simp add: example_env_def example_kdf_law)
  have "canon '' ANN@example.org'' = canon ''Ann@Example.org''" by code_simp
  moreover have "\<not> same_key (env_kdf example_env) ''salt'' ''correct horse'' ''wrong horse''"
    by code_simp
  ultimately show ?thesis
    using create_then_authenticate [OF wf_example_db(1,2) law run] run by fastforce
qed

text \<open>
  C2. A login succeeds only for a stored, active mailbox of that (normalised) address whose
  password hash verifies; a suspended or half-deleted mailbox never logs in, and a failed
  login changes nothing but the connection.
\<close>

theorem authenticate_sound:
  assumes "mailbox_authenticate env em pw db = (r, db')"
  shows "db' \<in> {db, tick db} \<and>
    (\<forall>m. r = Inr m \<longrightarrow>
      (\<exists>m0\<in>set (mailboxes db). mb_email m0 = canon em \<and> mb_status m0 = ''active'' \<and>
         verify_password (env_kdf env) pw (mb_password_hash m0) = Inr True \<and>
         m = m0\<lparr>mb_domain_name := mb_domain_name m\<rparr>))"
proof (cases "canon em = [] \<or> \<not> is_valid_email env (canon em) \<or> fails db \<or>
    find (\<lambda>m. mb_email m = canon em) (mailbox_rows db) = None")
  case True
  with assms show ?thesis
    by (auto simp: mailbox_authenticate_def canon_def' Let_def sql_simps split: if_splits)
next
  case False
  then obtain mb where mb: "find (\<lambda>m. mb_email m = canon em) (mailbox_rows db) = Some mb" by auto
  obtain m0 and d :: domain where m0: "m0 \<in> set (mailboxes db)"
    "mb = m0\<lparr>mb_domain_name := dom_name d\<rparr>" "mb_email mb = canon em"
    by (rule find_mailbox_rows [OF mb]) blast
  show ?thesis
  proof (cases "verify_password (env_kdf env) pw (mb_password_hash m0)")
    case (Inl e)
    with assms False mb m0 show ?thesis
      by (cases e) (auto simp: mailbox_authenticate_def canon_def' Let_def sql_simps split: if_splits)
  next
    case (Inr v)
    with assms False mb m0 show ?thesis
      by (auto simp: mailbox_authenticate_def canon_def' Let_def sql_simps split: if_splits
          intro!: bexI [of _ m0])
  qed
qed

theorem authenticate_sound_witness:
  "\<exists>db m m0. mailbox_authenticate example_env '' ANN@example.org'' ''correct horse'' db = (Inr m, db) \<and>
     m0 \<in> set (mailboxes db) \<and> mb_email m0 = ''ann@example.org'' \<and> mb_status m0 = ''active'' \<and>
     verify_password example_kdf ''correct horse'' (mb_password_hash m0) = Inr True \<and>
     mb_id m = mb_id m0"
proof -
  obtain m db where run: "mailbox_create example_env None 5 0 (Inr ''salt'') ''Ann@Example.org''
      ''correct horse'' 0 example_db () = (Inr m, db, ())"
    and wf: "wf_db db"
    by (rule example_account)
  have law: "kdf_law (env_kdf example_env)" by (simp add: example_env_def example_kdf_law)
  have name: "canon '' ANN@example.org'' = canon ''Ann@Example.org''"
    "canon '' ANN@example.org'' = ''ann@example.org''"
    by code_simp+
  obtain x h where x: "x \<in> set (mailboxes db)" "mb_email x = canon ''Ann@Example.org''" "mb_status x = ''active''"
    "mb_password_hash x = h"
    and h: "hash_password (env_kdf example_env) (Inr ''salt'') ''correct horse'' default_argon2_params = Inr h"
    and v: "is_valid_email example_env (canon ''Ann@Example.org'')" and f: "faults db = []"
    by (rule mailbox_create_row [OF wf_example_db(1,2) run])
  have "same_key (env_kdf example_env) ''salt'' ''correct horse'' ''correct horse''" by (simp add: same_key_def)
  then have "verify_password (env_kdf example_env) ''correct horse'' (mb_password_hash x) = Inr True"
    using verify_hashed [OF law h] x(4) by simp
  then obtain m' where login:
      "mailbox_authenticate example_env '' ANN@example.org'' ''correct horse'' db = (Inr m', db)"
    using authenticate_row [OF wf f x(1), of "'' ANN@example.org''" example_env "''correct horse''" True] x v name
    by auto
  from authenticate_sound [OF login] obtain m0 where m0: "m0 \<in> set (mailboxes db)" "mb_email m0 = ''ann@example.org''"
    "mb_status m0 = ''active''" "verify_password (env_kdf example_env) ''correct horse'' (mb_password_hash m0) = Inr True"
    "m' = m0\<lparr>mb_domain_name := mb_domain_name m'\<rparr>"
    unfolding name(2) by blast
  have "mb_id m' = mb_id m0" by (subst m0(5)) simp
  moreover have "env_kdf example_env = example_kdf" by (simp add: example_env_def)
  ultimately show ?thesis using login m0(1-4) by auto
qed

text \<open>
  C3. Changing a password: the new one logs in (while the mailbox is active), every password
  with another derived key, such as the old one, stops working, and the logins of all other
  addresses are what they were.
\<close>

theorem set_password_effect:
  assumes "wf_db db" and "faults db = []" and "kdf_law (env_kdf env)"
    and "mailbox_set_password env now (Inr salt) em pw db = (Inr (), db')"
  shows "(\<exists>m0\<in>set (mailboxes db). mb_email m0 = canon em \<and>
      (\<forall>pw'. \<exists>m. mailbox_authenticate env em pw' db' =
         ((if mb_status m0 = ''active'' \<and> same_key (env_kdf env) salt pw pw'
           then Inr m else Inl err_authentication_failed), db'))) \<and>
    (\<forall>m\<in>set (mailboxes db). mb_email m \<noteq> canon em \<longrightarrow> m \<in> set (mailboxes db'))"
proof -
  obtain m0 h where m0: "m0 \<in> set (mailboxes db)" "mb_email m0 = canon em"
    and h: "hash_password (env_kdf env) (Inr salt) pw default_argon2_params = Inr h"
    and v: "is_valid_email env (canon em)" and f: "faults db' = []" and wf: "wf_db db'"
    and row: "m0\<lparr>mb_password_hash := h, mb_updated_at := now\<rparr> \<in> set (mailboxes db')"
    and rest: "\<forall>m\<in>set (mailboxes db). mb_email m \<noteq> canon em \<longrightarrow> m \<in> set (mailboxes db')"
    by (rule set_password_Inr [OF assms(1,2,4)])
  let ?m1 = "m0\<lparr>mb_password_hash := h, mb_updated_at := now\<rparr>"
  have "\<exists>m. mailbox_authenticate env em pw' db' =
      ((if mb_status m0 = ''active'' \<and> same_key (env_kdf env) salt pw pw'
        then Inr m else Inl err_authentication_failed), db')" for pw'
    using authenticate_row [OF wf f row _ v, of pw' "same_key (env_kdf env) salt pw pw'"]
      verify_hashed [OF assms(3) h, of pw'] m0 by auto
  with m0 rest show ?thesis by blast
qed

theorem set_password_effect_witness:
  "\<exists>db1 db2. mailbox_set_password example_env 9 (Inr ''salt'') ''ann@example.org'' ''battery staple'' db1
       = (Inr (), db2) \<and>
     fst (mailbox_authenticate example_env ''ann@example.org'' ''correct horse'' db2)
       = Inl err_authentication_failed"
proof -
  obtain m db1 where run: "mailbox_create example_env None 5 0 (Inr ''salt'') ''Ann@Example.org''
      ''correct horse'' 0 example_db () = (Inr m, db1, ())"
    and wf: "wf_db db1" and f: "faults db1 = []" and tab: "mailboxes db1 = [m\<lparr>mb_domain_name := ''''\<rparr>]"
    and m: "mb_email m = ''ann@example.org''" "mb_id m = 5"
    by (rule example_account)
  have c: "canon ''ann@example.org'' = ''ann@example.org''" by code_simp
  have v: "is_valid_email example_env ''ann@example.org''" by code_simp
  obtain d :: domain where "find (\<lambda>x. mb_email x = mb_email (m\<lparr>mb_domain_name := ''''\<rparr>)) (mailbox_rows db1) =
      Some ((m\<lparr>mb_domain_name := ''''\<rparr>)\<lparr>mb_domain_name := dom_name d\<rparr>)"
    by (rule find_row [OF wf, of "m\<lparr>mb_domain_name := ''''\<rparr>"]) (simp add: tab, blast)
  then have g: "mailbox_get_by_email ''ann@example.org'' db1 = (Inr (m\<lparr>mb_domain_name := dom_name d\<rparr>), db1)"
    by (simp add: sql_simps f m)
  have law: "kdf_law (env_kdf example_env)" by (simp add: example_env_def example_kdf_law)
  obtain h where h: "hash_password (env_kdf example_env) (Inr ''salt'') ''battery staple''
      default_argon2_params = Inr h"
    by (simp add: hash_password_def example_env_def example_kdf_def default_argon2_params_def)
  have "mailbox_set_password example_env 9 (Inr ''salt'') ''ann@example.org'' ''battery staple'' db1
      = update_password_hash 9 5 h db1"
    by (simp add: mailbox_set_password_def canon_def' c v g h m)
  moreover obtain db2 where "update_password_hash 9 5 h db1 = (Inr (), db2)"
    by (simp add: update_password_hash_def mailbox_update_def sql_simps f tab m affected_def)
  ultimately have set: "mailbox_set_password example_env 9 (Inr ''salt'') ''ann@example.org''
      ''battery staple'' db1 = (Inr (), db2)"
    by simp
  have key: "\<not> same_key (env_kdf example_env) ''salt'' ''battery staple'' ''correct horse''"
    by code_simp
  have "\<exists>b m. mailbox_authenticate example_env ''ann@example.org'' ''correct horse'' db2 =
      ((if b \<and> same_key (env_kdf example_env) ''salt'' ''battery staple'' ''correct horse''
        then Inr m else Inl err_authentication_failed), db2)"
    using set_password_effect [OF wf f law set] by blast
  with key have "fst (mailbox_authenticate example_env ''ann@example.org'' ''correct horse'' db2)
      = Inl err_authentication_failed"
    by auto
  with set show ?thesis by blast
qed

text \<open>
  C4. A successful deletion removes exactly the mailbox of the address with its messages and
  limits; on a working disk its directory tree is gone, whatever was in it.
\<close>

theorem mailbox_delete_effect:
  assumes "wf_db db"
    and "mailbox_delete (Some (fs_provisioner_ops p)) now em db k = (Inr (), db', k')"
  shows "\<exists>m0\<in>set (mailboxes db). mb_email m0 = canon em \<and>
    set (mailboxes db') = set (mailboxes db) - {m0} \<and>
    messages db' = filter (\<lambda>x. msg_mailbox_id x \<noteq> mb_id m0) (messages db) \<and>
    mailbox_limits db' = filter (\<lambda>x. lim_mailbox_id x \<noteq> mb_id m0) (mailbox_limits db) \<and>
    (disk_faults k = [] \<longrightarrow> user_dir (prov_root p) em = Some u \<longrightarrow> fs_stat (files k') (u @ q) = None)"
proof -
  obtain mb db3 where mb: "find (\<lambda>m. mb_email m = canon em) (mailbox_rows db) = Some mb"
    and db3: "db3 = snd (update_provisioning_status now (mb_id mb) prov_deprovisioning
                 (snd (update_status now (mb_id mb) ''deleting'' (tick db))))"
    and db': "db' = del_mailboxes (\<lambda>m. mb_email m = canon em) (tick db3)"
    and k': "k' = snd (fs_deprovision p ((prov_args mb (mb_domain_name mb))\<lparr>pm_quota_bytes := 0\<rparr>) k)"
    using assms(2) by (rule mailbox_delete_Inr) (auto simp: fs_provisioner_ops_def)
  obtain m0 and d :: domain where m0: "m0 \<in> set (mailboxes db)" "mb = m0\<lparr>mb_domain_name := dom_name d\<rparr>"
    "mb_email mb = canon em"
    by (rule find_mailbox_rows [OF mb]) blast
  then have e0: "mb_email m0 = canon em" by simp
  have keys: "distinct (map mb_id (mailboxes db))" "distinct (map (\<lambda>m. to_lower (mb_email m)) (mailboxes db))"
    using assms(1) by (simp_all add: wf_db_def wf_defs)
  have uniq: "x = m0" if "x \<in> set (mailboxes db)" "mb_email x = canon em" for x
    using distinct_key_eq [OF keys(2) that(1) m0(1)] that(2) e0 by simp
  let ?upd = "\<lambda>t f. update_where (\<lambda>m. mb_id m = mb_id m0) f t"
  have stay: "x \<in> set (mailboxes db')" if x: "x \<in> set (mailboxes db)" "x \<noteq> m0" for x
  proof -
    have "mb_id x \<noteq> mb_id m0" using distinct_key_eq [OF keys(1) x(1) m0(1)] x(2) by blast
    moreover have "mb_email x \<noteq> canon em" using uniq x by blast
    ultimately show ?thesis
      using x(1) m0(2) by (force simp: db' db3 del_mailboxes_def Let_def tbl_simps mailbox_update_db
          update_status_def update_provisioning_status_def)
  qed
  have same: "messages db3 = messages db" "mailbox_limits db3 = mailbox_limits db"
    by (simp_all add: db3 update_status_def update_provisioning_status_def mailbox_update_db)
  have gone: "mb_id ` {m \<in> set (mailboxes db3). mb_email m = canon em} = {mb_id m0}"
  proof (intro subset_antisym subsetI)
    fix i assume "i \<in> mb_id ` {m \<in> set (mailboxes db3). mb_email m = canon em}"
    then obtain x where x: "x \<in> set (mailboxes db3)" "mb_email x = canon em" "i = mb_id x" by blast
    have "if mb_id x = mb_id mb then \<exists>y\<in>set (mailboxes db). mb_id y = mb_id mb \<and> mb_email y = mb_email x
        else x \<in> set (mailboxes db)"
      using x(1) unfolding db3 update_status_def update_provisioning_status_def
      by (rule two_updates [OF keeps_keys_updates(1,2)])
    then show "i \<in> {mb_id m0}"
      using m0(2) x(2,3) uniq [of x] by (auto split: if_splits)
  next
    fix i assume "i \<in> {mb_id m0}"
    moreover have "\<exists>x\<in>set (mailboxes db3). mb_id x = mb_id m0 \<and> mb_email x = canon em"
      unfolding db3 update_status_def update_provisioning_status_def
      by (intro update_keeps_row) (use m0(1) e0 in auto)
    ultimately show "i \<in> mb_id ` {m \<in> set (mailboxes db3). mb_email m = canon em}"
      by (auto intro: rev_image_eqI)
  qed
  show ?thesis
  proof (intro bexI [of _ m0] conjI impI)
    show "set (mailboxes db') = set (mailboxes db) - {m0}"
      using mailbox_delete_rows [OF assms] stay e0 by blast
    show "messages db' = filter (\<lambda>x. msg_mailbox_id x \<noteq> mb_id m0) (messages db)"
      "mailbox_limits db' = filter (\<lambda>x. lim_mailbox_id x \<noteq> mb_id m0) (mailbox_limits db)"
      by (simp_all add: db' del_mailboxes_def Let_def gone same delete_where_def)
    assume "disk_faults k = []" and u: "user_dir (prov_root p) em = Some u"
    moreover have "user_dir (prov_root p) (canon em) = Some u"
      using u user_dir_cong [of "canon em" em] by simp
    ultimately show "fs_stat (files k') (u @ q) = None"
      by (simp add: k' fs_deprovision_eq prov_args_def m0(3))
  qed (use m0 e0 in simp_all)
qed

theorem mailbox_delete_effect_witness:
  "\<exists>db1 db' k'. mailbox_delete (Some (fs_provisioner_ops example_prov)) 9 ''ann@example.org'' db1 example_disk
       = (Inr (), db', k') \<and> mailboxes db1 \<noteq> [] \<and> mailboxes db' = []"
proof -
  obtain m db1 where wf: "wf_db db1" and f: "faults db1 = []"
    and tab: "mailboxes db1 = [m\<lparr>mb_domain_name := ''''\<rparr>]"
    and m: "mb_email m = ''ann@example.org''"
    by (rule example_account)
  have c: "canon ''ann@example.org'' = ''ann@example.org''" by code_simp
  obtain db' k' where run: "mailbox_delete (Some (fs_provisioner_ops example_prov)) 9 ''ann@example.org''
      db1 example_disk = (Inr (), db', k')"
    using mailbox_delete_succeeds [OF wf f, of "m\<lparr>mb_domain_name := ''''\<rparr>" "''ann@example.org''"
        "Some (fs_provisioner_ops example_prov)" 9 example_disk]
    by (auto simp: tab m c)
  have "set (mailboxes db') = {}"
    using mailbox_delete_effect [OF wf run] by (auto simp: tab)
  with run tab show ?thesis by fastforce
qed

end
