(* ===== verification/Blob_Store.thy ===== *)
theory Blob_Store
  imports Database Disk Go_Regexp
begin

text \<open>
  The package \<open>internal/storage\<close>: the interface \<open>BlobStore\<close> as a record of operations and a
  locale of laws over an abstract map from identifiers to contents, the filesystem store
  (content-addressed, sharded by the first two digits of the identifier) that satisfies the
  laws, and the garbage collector, whose safety is proved from the laws. SHA-256 is a
  function from byte strings to byte strings; the random number in a temporary file's name
  is an input.
\<close>

section \<open>The interface\<close>

record blob =
  blob_id :: string
  blob_size_bytes :: int
  blob_sha256 :: string
  blob_created_at :: instant

record 'k blob_store =
  bs_put :: "nat \<Rightarrow> instant \<Rightarrow> string option \<Rightarrow> 'k \<Rightarrow> blob result \<times> 'k"
  bs_get :: "string \<Rightarrow> 'k \<Rightarrow> string result \<times> 'k"
  bs_delete :: "string \<Rightarrow> 'k \<Rightarrow> unit result \<times> 'k"
  bs_exists :: "string \<Rightarrow> 'k \<Rightarrow> bool result \<times> 'k"
  bs_list_ids :: "'k \<Rightarrow> string list result \<times> 'k"

definition err_blob_not_found :: err where
  "err_blob_not_found = Sentinel ''storage'' ''ErrBlobNotFound''"

definition err_invalid_id :: err where
  "err_invalid_id = Sentinel ''storage'' ''ErrInvalidID''"

definition err_empty_payload :: err where
  "err_empty_payload = Sentinel ''storage'' ''ErrEmptyPayload''"

lemmas [errs] = err_blob_not_found_def err_invalid_id_def err_empty_payload_def

section \<open>The filesystem store\<close>

text \<open>\<open>^[a-f0-9]{32,64}$\<close>\<close>

abbreviation hex_cls :: "(char \<times> char) list" where
  "hex_cls \<equiv> [(CHR ''a'', CHR ''f''), (CHR ''0'', CHR ''9'')]"

definition id_rx :: rx where
  "id_rx = Seq (rx_rep 32 (Cls hex_cls)) (UpTo 32 (Cls hex_cls))"

record fs_blob_store =
  base_dir :: path
  sha256 :: "string \<Rightarrow> string"

definition tmp_dir :: "fs_blob_store \<Rightarrow> path" where
  "tmp_dir st = path_join (base_dir st) [''tmp'']"

definition new_fs_blob_store :: "(string \<Rightarrow> string) \<Rightarrow> path \<Rightarrow> disk \<Rightarrow> fs_blob_store result \<times> disk" where
  "new_fs_blob_store sha base k =
     (let st = \<lparr>base_dir = base, sha256 = sha\<rparr>
      in case os_mkdir_all 488 (tmp_dir st) k of
           (Inl err, k1) \<Rightarrow> (Inl (Wrap ''failed to create storage directories'' err), k1)
         | (Inr u, k1) \<Rightarrow> (Inr st, k1))"

definition resolve_blob_path :: "fs_blob_store \<Rightarrow> string \<Rightarrow> path result" where
  "resolve_blob_path st i =
     (if length i < 2 \<or> \<not> rx_match id_rx i then Inl err_invalid_id
      else let target = path_join (base_dir st) [take 2 i, i];
               rel = path_rel (base_dir st) target
           in if rel \<noteq> [] \<and> hd rel = CHR ''.'' then Inl err_invalid_id else Inr target)"

text \<open>The deferred removal of the temporary file.\<close>

definition cleanup_temp :: "path \<Rightarrow> disk \<Rightarrow> disk" where
  "cleanup_temp tmp k =
     (case os_stat tmp k of
        (Inr n, k1) \<Rightarrow> snd (os_remove tmp k1)
      | (Inl err, k1) \<Rightarrow> k1)"

definition put_payload ::
    "fs_blob_store \<Rightarrow> path \<Rightarrow> instant \<Rightarrow> string \<Rightarrow> disk \<Rightarrow> blob result \<times> disk" where
  "put_payload st tmp now c k =
     (case os_write_file tmp c 384 k of
        (Inl err, k1) \<Rightarrow> (Inl (Wrap ''failed to write payload'' err), k1)
      | (Inr u, k1) \<Rightarrow>
          if length c = 0 then (Inl err_empty_payload, k1)
          else let hash = hex_encode (sha256 st c);
                   dest_dir = path_join (base_dir st) [take 2 hash];
                   ok = Inr \<lparr>blob_id = hash, blob_size_bytes = int (length c), blob_sha256 = hash,
                              blob_created_at = now\<rparr>
               in (case os_mkdir_all 488 dest_dir k1 of
                     (Inl err, k2) \<Rightarrow> (Inl (Wrap ''failed to create sharded directory'' err), k2)
                   | (Inr u, k2) \<Rightarrow>
                       let dest = path_join dest_dir [hash]
                       in (case os_rename tmp dest k2 of
                             (Inr u, k3) \<Rightarrow> (ok, k3)
                           | (Inl err, k3) \<Rightarrow>
                               (case os_stat dest k3 of
                                  (Inr n, k4) \<Rightarrow> (ok, snd (os_remove tmp k4))
                                | (Inl e, k4) \<Rightarrow> (Inl (Wrap ''failed to store blob'' err), k4)))))"

definition fs_put_blob ::
    "fs_blob_store \<Rightarrow> nat \<Rightarrow> instant \<Rightarrow> string option \<Rightarrow> disk \<Rightarrow> blob result \<times> disk" where
  "fs_put_blob st rnd now payload k =
     (case payload of
        None \<Rightarrow> (Inl err_empty_payload, k)
      | Some c \<Rightarrow>
          let tmp = path_join (tmp_dir st) [''upload-'' @ nat_str rnd]
          in (case os_create_temp tmp k of
                (Inl err, k1) \<Rightarrow> (Inl (Wrap ''failed to create temporary file'' err), k1)
              | (Inr u, k1) \<Rightarrow>
                  let (r, k2) = put_payload st tmp now c k1 in (r, cleanup_temp tmp k2)))"

definition fs_get_blob :: "fs_blob_store \<Rightarrow> string \<Rightarrow> disk \<Rightarrow> string result \<times> disk" where
  "fs_get_blob st i k =
     (case resolve_blob_path st i of
        Inl err \<Rightarrow> (Inl err, k)
      | Inr p \<Rightarrow>
          (case os_read_file p k of
             (Inl err, k1) \<Rightarrow>
               if err_is err err_not_exist then (Inl err_blob_not_found, k1)
               else (Inl (Wrap ''failed to read blob'' err), k1)
           | (Inr c, k1) \<Rightarrow> (Inr c, k1)))"

definition fs_delete_blob :: "fs_blob_store \<Rightarrow> string \<Rightarrow> disk \<Rightarrow> unit result \<times> disk" where
  "fs_delete_blob st i k =
     (case resolve_blob_path st i of
        Inl err \<Rightarrow> (Inl err, k)
      | Inr p \<Rightarrow>
          (case os_remove p k of
             (Inl err, k1) \<Rightarrow>
               if err_is err err_not_exist then (Inl err_blob_not_found, k1)
               else (Inl (Wrap ''failed to delete blob'' err), k1)
           | (Inr u, k1) \<Rightarrow> (Inr (), k1)))"

definition fs_blob_exists :: "fs_blob_store \<Rightarrow> string \<Rightarrow> disk \<Rightarrow> bool result \<times> disk" where
  "fs_blob_exists st i k =
     (case resolve_blob_path st i of
        Inl err \<Rightarrow> (Inl err, k)
      | Inr p \<Rightarrow>
          (case os_stat p k of
             (Inl err, k1) \<Rightarrow> if err_is err err_not_exist then (Inr False, k1) else (Inl err, k1)
           | (Inr n, k1) \<Rightarrow> (Inr True, k1)))"

text \<open>The names of the blobs in one shard, and the walk over the shards.\<close>

definition shard_ids :: "(string \<times> node) list \<Rightarrow> string list" where
  "shard_ids fs = map fst (filter (\<lambda>(w, n). \<not> node_is_dir n \<and> rx_match id_rx w) fs)"

fun walk_shards :: "path \<Rightarrow> (string \<times> node) list \<Rightarrow> disk \<Rightarrow> string list \<times> disk" where
  "walk_shards base [] k = ([], k)"
| "walk_shards base ((w, n) # es) k =
     (if \<not> node_is_dir n \<or> w = ''tmp'' then walk_shards base es k
      else (case os_read_dir (path_join base [w]) k of
          (Inl err, k1) \<Rightarrow> walk_shards base es k1
        | (Inr fs, k1) \<Rightarrow>
            let (ids, k2) = walk_shards base es k1 in (shard_ids fs @ ids, k2)))"

definition fs_list_ids :: "fs_blob_store \<Rightarrow> disk \<Rightarrow> string list result \<times> disk" where
  "fs_list_ids st k =
     (case os_read_dir (base_dir st) k of
        (Inl err, k1) \<Rightarrow> (Inl (Wrap ''failed to read storage base dir'' err), k1)
      | (Inr es, k1) \<Rightarrow> (let (ids, k2) = walk_shards (base_dir st) es k1 in (Inr ids, k2)))"

definition fs_blob_ops :: "fs_blob_store \<Rightarrow> disk blob_store" where
  "fs_blob_ops st =
     \<lparr>bs_put = fs_put_blob st, bs_get = fs_get_blob st, bs_delete = fs_delete_blob st,
      bs_exists = fs_blob_exists st, bs_list_ids = fs_list_ids st\<rparr>"

section \<open>Garbage collection\<close>

record gc_stats =
  total_blobs :: nat
  referenced_blobs :: nat
  orphan_blobs :: nat
  deleted_blobs :: nat

fun gc_loop :: "'k blob_store \<Rightarrow> (string \<Rightarrow> bool) \<Rightarrow> bool \<Rightarrow> string list \<Rightarrow> gc_stats \<Rightarrow> 'k \<Rightarrow> gc_stats \<times> 'k" where
  "gc_loop bs referenced dry [] st k = (st, k)"
| "gc_loop bs referenced dry (i # ids) st k =
     (if referenced i then gc_loop bs referenced dry ids st k
      else let st1 = st\<lparr>orphan_blobs := orphan_blobs st + 1\<rparr>
           in if dry then gc_loop bs referenced dry ids st1 k
              else (case bs_delete bs i k of
                  (Inr u, k1) \<Rightarrow>
                    gc_loop bs referenced dry ids (st1\<lparr>deleted_blobs := deleted_blobs st1 + 1\<rparr>) k1
                | (Inl err, k1) \<Rightarrow> gc_loop bs referenced dry ids st1 k1))"

text \<open>
  \<open>refs\<close> is the reference provider's \<open>GetAllBlobIDs\<close>: the set of referenced identifiers, as
  the list of the map's keys.
\<close>

definition garbage_collect ::
    "'k blob_store \<Rightarrow> ('d \<Rightarrow> string list result \<times> 'd) \<Rightarrow> bool \<Rightarrow> 'd \<Rightarrow> 'k \<Rightarrow>
       gc_stats result \<times> 'd \<times> 'k" where
  "garbage_collect bs refs dry db k =
     (case refs db of
        (Inl err, db1) \<Rightarrow>
          (Inl (Wrap ''failed to retrieve referenced blob ids from database'' err), db1, k)
      | (Inr referenced, db1) \<Rightarrow>
          (case bs_list_ids bs k of
             (Inl err, k1) \<Rightarrow> (Inl (Wrap ''failed to list blob ids in storage'' err), db1, k1)
           | (Inr all, k1) \<Rightarrow>
               let (st, k2) = gc_loop bs (\<lambda>i. i \<in> set referenced) dry all
                     \<lparr>total_blobs = length all, referenced_blobs = length referenced,
                      orphan_blobs = 0, deleted_blobs = 0\<rparr> k1
               in (Inr st, db1, k2)))"

section \<open>Identifiers\<close>

lemma id_rx_iff: "rx_match id_rx s \<longleftrightarrow> 32 \<le> length s \<and> length s \<le> 64 \<and> (\<forall>c\<in>set s. in_cls hex_cls c)"
proof
  assume "rx_match id_rx s"
  then show "32 \<le> length s \<and> length s \<le> 64 \<and> (\<forall>c\<in>set s. in_cls hex_cls c)"
    by (auto simp: rx_match_iff id_rx_def matches_Seq matches_rx_rep_Cls matches_UpTo_Cls)
next
  assume h: "32 \<le> length s \<and> length s \<le> 64 \<and> (\<forall>c\<in>set s. in_cls hex_cls c)"
  have "s = take 32 s @ drop 32 s" by simp
  moreover have "matches (rx_rep 32 (Cls hex_cls)) (take 32 s)"
    using h by (auto simp: matches_rx_rep_Cls dest: in_set_takeD)
  moreover have "matches (UpTo 32 (Cls hex_cls)) (drop 32 s)"
    using h by (auto simp: matches_UpTo_Cls dest: in_set_dropD)
  ultimately show "rx_match id_rx s"
    unfolding rx_match_iff id_rx_def matches_Seq by blast
qed

lemma hex_digit_cls: "d < 16 \<Longrightarrow> in_cls hex_cls (hex_digit d)"
  by (auto simp: in_cls_def hex_digit_def byte_def)

lemma hex_encode_chars: "c \<in> set (hex_encode h) \<Longrightarrow> in_cls hex_cls c"
proof -
  have "byte y div 16 < 16" for y by (rule less_mult_imp_div_less) simp
  then show "c \<in> set (hex_encode h) \<Longrightarrow> in_cls hex_cls c"
    by (auto simp: hex_encode_def intro!: hex_digit_cls)
qed

lemma hex_encode_valid: "length h = 32 \<Longrightarrow> rx_match id_rx (hex_encode h)"
  by (simp add: id_rx_iff hex_encode_chars)

lemma hex_plain: "s \<noteq> [] \<Longrightarrow> \<forall>c\<in>set s. in_cls hex_cls c \<Longrightarrow> plain s"
proof -
  have "\<not> in_cls hex_cls (CHR ''.'')" "\<not> in_cls hex_cls (CHR ''/'')"
    by (simp_all add: in_cls_def byte_def)
  then show "s \<noteq> [] \<Longrightarrow> \<forall>c\<in>set s. in_cls hex_cls c \<Longrightarrow> plain s"
    by (auto simp: plain_def)
qed

lemma id_plain:
  assumes "rx_match id_rx i" shows "plain i" and "plain (take 2 i)" and "i \<noteq> []"
    and "hd (take 2 i) \<noteq> CHR ''.''"
proof -
  from assms show "i \<noteq> []" by (auto simp: id_rx_iff)
  with assms show "plain i" by (intro hex_plain) (simp_all add: id_rx_iff)
  show "plain (take 2 i)" using assms \<open>i \<noteq> []\<close>
    by (intro hex_plain) (auto simp: id_rx_iff dest: in_set_takeD)
  have "hd i \<in> set i" using \<open>i \<noteq> []\<close> by simp
  then have "in_cls hex_cls (hd i)" using assms by (simp add: id_rx_iff)
  then show "hd (take 2 i) \<noteq> CHR ''.''" using \<open>i \<noteq> []\<close>
    by (auto simp: in_cls_def byte_def)
qed

text \<open>The path of a blob: the check on the relative path never fires.\<close>

lemma resolve_blob_path_eq:
  "resolve_blob_path st i =
     (if rx_match id_rx i then Inr (base_dir st @ [take 2 i, i]) else Inl err_invalid_id)"
proof (cases "rx_match id_rx i")
  case True
  note p = id_plain [OF True]
  have "path_rel (base_dir st) (base_dir st @ [take 2 i, i]) = take 2 i @ ''/'' @ i"
    by (simp add: path_rel_below)
  moreover have "hd (take 2 i @ ''/'' @ i) = hd (take 2 i)" using p(3) by (cases i) auto
  ultimately show ?thesis
    using True p by (auto simp: resolve_blob_path_def path_join_plain id_rx_iff)
next
  case False
  then show ?thesis by (simp add: resolve_blob_path_def)
qed

section \<open>The laws of the interface\<close>

text \<open>
  A store holds a finite map from identifiers to contents, addressed by their hash. Storing
  adds one entry (or finds one of the same hash), removing deletes one, nothing else
  changes the map, and a failing call does not change it. A reliable store (no faults) lists
  exactly what it holds and serves and removes what it lists.
\<close>

locale blob_store_laws =
  fixes bs :: "'k blob_store"
    and inv :: "'k \<Rightarrow> bool"
    and reliable :: "'k \<Rightarrow> bool"
    and content :: "'k \<Rightarrow> string \<Rightarrow> string option"
    and hash :: "string \<Rightarrow> string"
  assumes addressed: "inv k \<Longrightarrow> content k i = Some c \<Longrightarrow> hash c = i"
    and put_ok: "inv k \<Longrightarrow> bs_put bs rnd now p k = (Inr b, k') \<Longrightarrow>
      inv k' \<and> (\<exists>c c'. p = Some c \<and> c \<noteq> [] \<and> blob_id b = hash c \<and> blob_size_bytes b = int (length c) \<and>
        hash c' = hash c \<and> content k' = (content k)(hash c \<mapsto> c'))"
    and put_err: "inv k \<Longrightarrow> bs_put bs rnd now p k = (Inl e, k') \<Longrightarrow> inv k' \<and> content k' = content k"
    and get_reads: "inv k \<Longrightarrow> bs_get bs i k = (r, k') \<Longrightarrow>
      inv k' \<and> content k' = content k \<and> (\<forall>c. r = Inr c \<longrightarrow> content k i = Some c)"
    and delete_ok: "inv k \<Longrightarrow> bs_delete bs i k = (Inr u, k') \<Longrightarrow>
      inv k' \<and> content k' = (content k)(i := None)"
    and delete_err: "inv k \<Longrightarrow> bs_delete bs i k = (Inl e, k') \<Longrightarrow> inv k' \<and> content k' = content k"
    and list_reads: "inv k \<Longrightarrow> bs_list_ids bs k = (rl, k') \<Longrightarrow>
      inv k' \<and> content k' = content k \<and>
      (\<forall>ids. rl = Inr ids \<longrightarrow> distinct ids \<and> set ids \<subseteq> dom (content k))"
    and reliable_get: "inv k \<Longrightarrow> reliable k \<Longrightarrow> \<exists>rg. bs_get bs i k = (rg, k) \<and>
      (\<forall>c. content k i = Some c \<longrightarrow> rg = Inr c)"
    and reliable_delete: "inv k \<Longrightarrow> reliable k \<Longrightarrow> content k i \<noteq> None \<Longrightarrow>
      \<exists>k'. bs_delete bs i k = (Inr (), k') \<and> reliable k'"
    and reliable_list: "inv k \<Longrightarrow> reliable k \<Longrightarrow>
      \<exists>ids. bs_list_ids bs k = (Inr ids, k) \<and> set ids = dom (content k)"
begin

text \<open>The collector's loop deletes at most the listed blobs that are not referenced.\<close>

lemma gc_loop_safe:
  assumes "inv k" and "gc_loop bs rf dry ids st k = (st', k')"
  shows "inv k' \<and> (\<forall>i. content k' i \<in> {None, content k i}) \<and>
    (\<forall>i. rf i \<or> dry \<or> i \<notin> set ids \<longrightarrow> content k' i = content k i)"
  using assms
proof (induction ids arbitrary: st k)
  case Nil
  then show ?case by simp
next
  case (Cons i ids)
  show ?case
  proof (cases "rf i \<or> dry")
    case True
    with Cons.prems obtain st1 where "gc_loop bs rf dry ids st1 k = (st', k')"
      by (auto simp: Let_def split: if_splits)
    from Cons.IH [OF Cons.prems(1) this] show ?thesis by auto
  next
    case False
    obtain r k1 where d: "bs_delete bs i k = (r, k1)" by fastforce
    with Cons.prems False obtain st1 where run: "gc_loop bs rf dry ids st1 k1 = (st', k')"
      by (auto simp: Let_def split: sum.splits)
    have k1: "inv k1 \<and> (content k1 = (content k)(i := None) \<or> content k1 = content k)"
      using d delete_ok [OF Cons.prems(1)] delete_err [OF Cons.prems(1)] by (cases r) auto
    from Cons.IH [OF _ run] k1 False show ?thesis
      by (auto split: if_splits)
  qed
qed

lemma gc_loop_reliable:
  assumes "inv k" and "reliable k" and "distinct ids" and "set ids \<subseteq> dom (content k)"
    and "gc_loop bs rf False ids st k = (st', k')"
  shows "content k' = (\<lambda>i. if i \<in> set ids \<and> \<not> rf i then None else content k i) \<and>
    orphan_blobs st' = orphan_blobs st + length (filter (\<lambda>i. \<not> rf i) ids) \<and>
    deleted_blobs st' = deleted_blobs st + length (filter (\<lambda>i. \<not> rf i) ids) \<and>
    total_blobs st' = total_blobs st \<and> referenced_blobs st' = referenced_blobs st"
  using assms
proof (induction ids arbitrary: st k)
  case Nil
  then show ?case by simp
next
  case (Cons i ids)
  show ?case
  proof (cases "rf i")
    case True
    with Cons.prems(5) have "gc_loop bs rf False ids st k = (st', k')" by simp
    from Cons.IH [OF Cons.prems(1,2) _ _ this] Cons.prems(3,4) True show ?thesis by auto
  next
    case False
    obtain k1 where d: "bs_delete bs i k = (Inr (), k1)" and rel: "reliable k1"
      using reliable_delete [OF Cons.prems(1,2), of i] Cons.prems(4) by auto
    from delete_ok [OF Cons.prems(1) d] have k1: "inv k1" "content k1 = (content k)(i := None)" by auto
    let ?st = "st\<lparr>orphan_blobs := orphan_blobs st + 1, deleted_blobs := deleted_blobs st + 1\<rparr>"
    from Cons.prems(5) False d have run: "gc_loop bs rf False ids ?st k1 = (st', k')"
      by (simp add: Let_def)
    have "set ids \<subseteq> dom (content k1)" using Cons.prems(3,4) k1 by auto
    from Cons.IH [OF k1(1) rel _ this run] Cons.prems(3) False k1 show ?thesis
      by (auto simp: fun_eq_iff)
  qed
qed

text \<open>Referenced blobs survive a collection, whatever fails; a dry run removes nothing.\<close>

lemma gc_safe:
  assumes "inv k" and "garbage_collect bs refs dry db k = (r, db', k')"
  shows "inv k' \<and> (\<forall>i. content k' i \<in> {None, content k i}) \<and> (dry \<longrightarrow> content k' = content k) \<and>
    (\<forall>ids db1. refs db = (Inr ids, db1) \<longrightarrow> (\<forall>i\<in>set ids. content k' i = content k i)) \<and>
    (\<forall>e db1. refs db = (Inl e, db1) \<longrightarrow> content k' = content k)"
proof (cases "refs db")
  case (Pair a db1)
  show ?thesis
  proof (cases a)
    case (Inl e)
    with Pair assms show ?thesis by (simp add: garbage_collect_def)
  next
    case (Inr ids)
    obtain b k1 where l: "bs_list_ids bs k = (b, k1)" by fastforce
    note k1 = list_reads [OF assms(1) l]
    show ?thesis
    proof (cases b)
      case (Inl e)
      with Pair Inr l k1 assms show ?thesis by (simp add: garbage_collect_def)
    next
      case (Inr all)
      with Pair \<open>a = Inr ids\<close> l assms(2) obtain st0 st' where
        run: "gc_loop bs (\<lambda>i. i \<in> set ids) dry all st0 k1 = (st', k')"
        by (auto simp: garbage_collect_def split: prod.splits)
      from gc_loop_safe [OF _ run] k1 Pair \<open>a = Inr ids\<close> show ?thesis
        by (auto simp: fun_eq_iff)
    qed
  qed
qed

text \<open>Without faults a collection removes every unreferenced blob and counts them.\<close>

lemma gc_complete:
  assumes "inv k" and "reliable k" and "refs db = (Inr ids, db1)"
    and "garbage_collect bs refs False db k = (r, db', k')"
  shows "content k' = (\<lambda>i. if i \<in> set ids then content k i else None) \<and>
    (\<exists>st. r = Inr st \<and> total_blobs st = card (dom (content k)) \<and>
       orphan_blobs st = card (dom (content k) - set ids) \<and> deleted_blobs st = orphan_blobs st)"
proof -
  obtain all where l: "bs_list_ids bs k = (Inr all, k)" and all: "set all = dom (content k)"
    using reliable_list [OF assms(1,2)] by blast
  have dist: "distinct all" using list_reads [OF assms(1) l] by simp
  let ?st0 = "\<lparr>total_blobs = length all, referenced_blobs = length ids, orphan_blobs = 0, deleted_blobs = 0\<rparr>"
  obtain st' k2 where run: "gc_loop bs (\<lambda>i. i \<in> set ids) False all ?st0 k = (st', k2)" by fastforce
  with assms(3,4) l have r: "r = Inr st'" "k' = k2" by (simp_all add: garbage_collect_def)
  have "length (filter (\<lambda>i. i \<notin> set ids) all) = card (set (filter (\<lambda>i. i \<notin> set ids) all))"
    by (rule distinct_card [OF distinct_filter [OF dist], symmetric])
  moreover have "set (filter (\<lambda>i. i \<notin> set ids) all) = dom (content k) - set ids"
    using all by auto
  moreover have "length all = card (dom (content k))"
    using dist all by (metis distinct_card)
  moreover have "i \<notin> dom (content k) \<Longrightarrow> content k i = None" for i by auto
  ultimately show ?thesis
    using gc_loop_reliable [OF assms(1,2) dist _ run] all r by (auto simp: fun_eq_iff)
qed

end

section \<open>The filesystem store satisfies the laws\<close>

definition fs_content :: "fs_blob_store \<Rightarrow> disk \<Rightarrow> string \<Rightarrow> string option" where
  "fs_content st k i =
     (if rx_match id_rx i then
        case fs_stat (files k) (base_dir st @ [take 2 i, i]) of
          Some (File m ow c t) \<Rightarrow> Some c
        | _ \<Rightarrow> None
      else None)"

definition blob_hash :: "fs_blob_store \<Rightarrow> string \<Rightarrow> string" where
  "blob_hash st c = hex_encode (sha256 st c)"

text \<open>
  Every file that looks like a blob is in the shard of its name, which is a directory, and has
  the content its name is the hash of; no directory stands in a blob's place; the names in
  the base directory are ordinary.
\<close>

definition fs_store_inv :: "fs_blob_store \<Rightarrow> disk \<Rightarrow> bool" where
  "fs_store_inv st k \<longleftrightarrow> distinct (map fst (files k)) \<and> is_dir (files k) (base_dir st) \<and>
     (\<forall>c. length (sha256 st c) = 32) \<and>
     (\<forall>d i. rx_match id_rx i \<longrightarrow> is_file (files k) (base_dir st @ [d, i]) \<longrightarrow> d \<noteq> ''tmp'' \<longrightarrow> d = take 2 i) \<and>
     (\<forall>i. rx_match id_rx i \<longrightarrow> \<not> is_dir (files k) (base_dir st @ [take 2 i, i])) \<and>
     (\<forall>d i. rx_match id_rx i \<longrightarrow> d \<noteq> ''tmp'' \<longrightarrow> is_file (files k) (base_dir st @ [d, i]) \<longrightarrow>
        is_dir (files k) (base_dir st @ [d])) \<and>
     (\<forall>w. fs_stat (files k) (base_dir st @ [w]) \<noteq> None \<longrightarrow> plain w) \<and>
     (\<forall>i c. fs_content st k i = Some c \<longrightarrow> blob_hash st c = i)"

definition fs_reliable :: "disk \<Rightarrow> bool" where
  "fs_reliable k \<longleftrightarrow> disk_faults k = []"

lemma fs_content_dtick [simp]: "fs_content st (dtick k) = fs_content st k"
  by (simp add: fs_content_def fun_eq_iff)

lemma fs_store_inv_dtick [simp]: "fs_store_inv st (dtick k) = fs_store_inv st k"
  by (simp add: fs_store_inv_def)

lemma take_not_tmp: "take 2 (i :: string) \<noteq> ''tmp''"
proof
  assume "take 2 i = ''tmp''"
  then have "length (take 2 i) = 3" by simp
  then show False by simp
qed

text \<open>The invariant and the contents depend on the paths two below the base only.\<close>

lemma fs_store_same:
  assumes "\<And>d i. rx_match id_rx i \<Longrightarrow> d \<noteq> ''tmp'' \<Longrightarrow>
      fs_stat (files k') (base_dir st @ [d, i]) = fs_stat (files k) (base_dir st @ [d, i])"
    and "is_dir (files k) (base_dir st) \<Longrightarrow> is_dir (files k') (base_dir st)"
    and "\<And>d. is_dir (files k) (base_dir st @ [d]) \<Longrightarrow> is_dir (files k') (base_dir st @ [d])"
    and "\<And>w. fs_stat (files k') (base_dir st @ [w]) \<noteq> None \<Longrightarrow>
      fs_stat (files k) (base_dir st @ [w]) \<noteq> None \<or> plain w"
    and "distinct (map fst (files k)) \<Longrightarrow> distinct (map fst (files k'))"
  shows "fs_content st k' = fs_content st k" and "fs_store_inv st k \<Longrightarrow> fs_store_inv st k'"
proof -
  note two = take_not_tmp
  show c: "fs_content st k' = fs_content st k"
    using assms(1) two by (auto simp: fs_content_def fun_eq_iff)
  have same: "is_file (files k') (base_dir st @ [d, i]) = is_file (files k) (base_dir st @ [d, i])"
    "is_dir (files k') (base_dir st @ [d, i]) = is_dir (files k) (base_dir st @ [d, i])"
    if "rx_match id_rx i" "d \<noteq> ''tmp''" for d i
    using assms(1) [OF that] by (simp_all add: is_file_def is_dir_def)
  show "fs_store_inv st k \<Longrightarrow> fs_store_inv st k'"
    unfolding fs_store_inv_def c
  proof (elim conjE, intro conjI allI impI)
    fix w assume "fs_stat (files k') (base_dir st @ [w]) \<noteq> None"
      and "\<forall>w. fs_stat (files k) (base_dir st @ [w]) \<noteq> None \<longrightarrow> plain w"
    then show "plain w" using assms(4) by blast
  qed (use assms(2,3,5) same two in simp_all)
qed

lemma fs_get_law:
  assumes "fs_store_inv st k" and "fs_get_blob st i k = (r, k')"
  shows "fs_store_inv st k' \<and> fs_content st k' = fs_content st k \<and>
    (\<forall>c. r = Inr c \<longrightarrow> fs_content st k i = Some c)"
  using assms
  by (auto simp: fs_get_blob_def resolve_blob_path_eq os_simps fs_content_def errs
      split: if_splits option.splits node.splits)

lemma fs_delete_law:
  assumes "fs_store_inv st k" and "fs_delete_blob st i k = (r, k')"
  shows "fs_store_inv st k' \<and>
    fs_content st k' = (if isl r then fs_content st k else (fs_content st k)(i := None))"
proof (cases "isl r")
  case True
  with assms have "k' = k \<or> k' = dtick k"
    by (auto simp: fs_delete_blob_def resolve_blob_path_eq os_simps errs
        split: if_splits option.splits)
  with True assms(1) show ?thesis by auto
next
  case False
  with assms have i: "rx_match id_rx i" and k': "k' = (dtick k)\<lparr>files := fs_del (files k) (base_dir st @ [take 2 i, i])\<rparr>"
    by (auto simp: fs_delete_blob_def resolve_blob_path_eq os_simps split: if_splits option.splits)
  have c: "fs_content st k' = (fs_content st k)(i := None)"
    by (auto simp: fs_content_def k' fun_eq_iff)
  have base: "base_dir st \<noteq> base_dir st @ [take 2 i, i]" by simp
  have "fs_store_inv st k'"
    using assms(1) base unfolding fs_store_inv_def c
    by (auto simp: k' is_file_def is_dir_def split: if_splits)
  with c False show ?thesis by simp
qed

lemma os_read_pairs:
  "os_stat p k = (rs, k') \<Longrightarrow> k' = dtick k"
  "os_read_file p k = (rf, k') \<Longrightarrow> k' = dtick k"
  "os_read_dir p k = (rd, k') \<Longrightarrow> k' = dtick k"
  using snd_os_reads [of p k] by (metis snd_conv)+

lemma cleanup_temp_frame:
  "q \<noteq> tmp \<Longrightarrow> fs_stat (files (cleanup_temp tmp k)) q = fs_stat (files k) q"
  using os_remove_frame [of q tmp]
  by (auto simp: cleanup_temp_def split: prod.splits sum.splits dest: os_read_pairs)

lemma distinct_os_ops:
  "distinct (map fst (files k)) \<Longrightarrow> distinct (map fst (files (snd (os_write_file p c m k))))"
  "distinct (map fst (files k)) \<Longrightarrow> distinct (map fst (files (snd (os_mkdir_all m p k))))"
  "distinct (map fst (files k)) \<Longrightarrow> distinct (map fst (files (snd (os_rename p q k))))"
  "distinct (map fst (files k)) \<Longrightarrow> distinct (map fst (files (snd (os_remove p k))))"
  by (auto simp: os_simps distinct_mkdir_all split: option.splits node.splits)

lemma distinct_cleanup_temp:
  "distinct (map fst (files k)) \<Longrightarrow> distinct (map fst (files (cleanup_temp tmp k)))"
  using distinct_os_ops(4) [of "dtick k" tmp]
  by (auto simp: cleanup_temp_def split: prod.splits sum.splits dest: os_read_pairs)

text \<open>
  A step of \<open>Put\<close> is harmless when it touches only the temporary file and directories above
  the blob; then neither the contents nor the invariant notice it.
\<close>

definition quiet :: "fs_blob_store \<Rightarrow> disk \<Rightarrow> disk \<Rightarrow> bool" where
  "quiet st k k' \<longleftrightarrow>
     (\<forall>d i. rx_match id_rx i \<longrightarrow> d \<noteq> ''tmp'' \<longrightarrow>
        fs_stat (files k') (base_dir st @ [d, i]) = fs_stat (files k) (base_dir st @ [d, i])) \<and>
     (is_dir (files k) (base_dir st) \<longrightarrow> is_dir (files k') (base_dir st)) \<and>
     (\<forall>d. is_dir (files k) (base_dir st @ [d]) \<longrightarrow> is_dir (files k') (base_dir st @ [d])) \<and>
     (\<forall>w. fs_stat (files k') (base_dir st @ [w]) \<noteq> None \<longrightarrow>
        fs_stat (files k) (base_dir st @ [w]) \<noteq> None \<or> plain w) \<and>
     (distinct (map fst (files k)) \<longrightarrow> distinct (map fst (files k')))"

lemma quiet_refl [simp]: "quiet st k k" "quiet st k (dtick k)"
  by (simp_all add: quiet_def)

lemma quiet_trans [trans]: "quiet st a b \<Longrightarrow> quiet st b c \<Longrightarrow> quiet st a c"
  unfolding quiet_def by (simp del: not_None_eq) blast

lemma quiet_keeps:
  assumes "quiet st k k'"
  shows "fs_content st k' = fs_content st k" and "fs_store_inv st k \<Longrightarrow> fs_store_inv st k'"
  using fs_store_same [where st = st and k = k and k' = k'] assms by (auto simp: quiet_def)

lemma quiet_write_temp:
  assumes "tmp = base_dir st @ [''tmp'', u]"
  shows "quiet st k (snd (os_write_file tmp c m k))"
proof -
  have "base_dir st @ [d, i] \<noteq> tmp" if "d \<noteq> ''tmp''" for d i using that assms by simp
  moreover have "base_dir st \<noteq> tmp" "base_dir st @ [w] \<noteq> tmp" for w using assms by simp_all
  ultimately show ?thesis
    by (simp add: quiet_def os_write_file_frame distinct_os_ops is_dir_iff)
qed

lemma quiet_cleanup_temp:
  assumes "tmp = base_dir st @ [''tmp'', u]"
  shows "quiet st k (cleanup_temp tmp k)" and "quiet st k (snd (os_remove tmp k))"
proof -
  have "base_dir st @ [d, i] \<noteq> tmp" if "d \<noteq> ''tmp''" for d i using that assms by simp
  moreover have "base_dir st \<noteq> tmp" "base_dir st @ [w] \<noteq> tmp" for w using assms by simp_all
  ultimately show "quiet st k (cleanup_temp tmp k)" "quiet st k (snd (os_remove tmp k))"
    by (simp_all add: quiet_def cleanup_temp_frame distinct_cleanup_temp is_dir_iff os_remove_frame
        distinct_os_ops)
qed

lemma quiet_mkdir_shard:
  assumes "plain w" shows "quiet st k (snd (os_mkdir_all 488 (base_dir st @ [w]) k))"
proof -
  have "\<not> below (base_dir st @ [v]) (base_dir st @ [w])" if "v \<noteq> w" for v
    using that by (auto simp: below_iff)
  with assms have "fs_stat (files (snd (os_mkdir_all 488 (base_dir st @ [w]) k))) (base_dir st @ [v]) \<noteq> None
      \<Longrightarrow> fs_stat (files k) (base_dir st @ [v]) \<noteq> None \<or> plain v" for v
    by (cases "v = w") (simp_all add: os_mkdir_all_frame)
  moreover have "\<not> below (base_dir st @ [d, i]) (base_dir st @ [w])" for d i
    by (auto simp: below_iff)
  ultimately show ?thesis
    by (simp add: quiet_def os_mkdir_all_frame distinct_os_ops is_dir_mkdir_all)
qed

text \<open>Moving the payload into place changes one entry.\<close>

lemma rename_into_place:
  assumes "fs_store_inv st k" and "tmp = base_dir st @ [''tmp'', u]"
    and "fs_stat (files k) tmp = Some (File m ow c t)"
    and "os_rename tmp (base_dir st @ [take 2 (blob_hash st c), blob_hash st c]) k = (Inr v, k')"
  shows "fs_store_inv st k' \<and> fs_content st k' = (fs_content st k)(blob_hash st c \<mapsto> c)"
proof -
  let ?h = "blob_hash st c"
  let ?dest = "base_dir st @ [take 2 ?h, ?h]"
  from assms(1) have h: "rx_match id_rx ?h"
    unfolding blob_hash_def by (intro hex_encode_valid) (simp add: fs_store_inv_def)
  have k': "k' = snd (os_rename tmp ?dest k)" using assms(4) by simp
  have dest: "fs_stat (files k') ?dest = Some (File m ow c t)"
    using os_rename_moves [OF assms(4)] assms(3) by simp
  have other: "fs_stat (files k') (base_dir st @ [d, i]) = fs_stat (files k) (base_dir st @ [d, i])"
    if "d \<noteq> ''tmp''" "(d, i) \<noteq> (take 2 ?h, ?h)" for d i
    unfolding k' using that assms(2) by (intro os_rename_frame) auto
  have base: "is_dir (files k') (base_dir st) = is_dir (files k) (base_dir st)"
    unfolding k' is_dir_iff using assms(2) by (subst os_rename_frame) auto
  have one: "fs_stat (files k') (base_dir st @ [w]) = fs_stat (files k) (base_dir st @ [w])" for w
    unfolding k' using assms(2) by (subst os_rename_frame) auto
  have shard: "is_dir (files k) (base_dir st @ [take 2 ?h])"
    using assms(4) by (auto simp: os_simps path_dir_def butlast_append split: if_splits option.splits node.splits)
  have dist: "distinct (map fst (files k'))"
    unfolding k' using assms(1) by (intro distinct_os_ops) (simp add: fs_store_inv_def)
  have c: "fs_content st k' = (fs_content st k)(?h \<mapsto> c)"
    using h dest other take_not_tmp by (auto simp: fs_content_def fun_eq_iff)
  have files: "is_file (files k') (base_dir st @ [d, i]) \<Longrightarrow> d \<noteq> ''tmp'' \<Longrightarrow>
      (d, i) = (take 2 ?h, ?h) \<or> is_file (files k) (base_dir st @ [d, i])"
    and dirs: "is_dir (files k') (base_dir st @ [d, i]) \<Longrightarrow> d \<noteq> ''tmp'' \<Longrightarrow>
      is_dir (files k) (base_dir st @ [d, i])" for d i
    using other [of d i] dest
    by (cases "(d, i) = (take 2 ?h, ?h)"; simp add: is_file_def is_dir_def)+
  have oned: "is_dir (files k') (base_dir st @ [w]) = is_dir (files k) (base_dir st @ [w])" for w
    by (simp add: is_dir_iff one)
  have "fs_store_inv st k'"
    unfolding fs_store_inv_def
  proof (intro conjI allI impI)
    show "distinct (map fst (files k'))" by (rule dist)
    show "is_dir (files k') (base_dir st)" using assms(1) base by (simp add: fs_store_inv_def)
    show "length (sha256 st x) = 32" for x using assms(1) by (simp add: fs_store_inv_def)
    fix d i assume i: "rx_match id_rx i"
    show "\<not> is_dir (files k') (base_dir st @ [take 2 i, i])"
      using dirs [of "take 2 i" i] take_not_tmp assms(1) i by (auto simp: fs_store_inv_def)
    assume f: "is_file (files k') (base_dir st @ [d, i])" and d: "d \<noteq> ''tmp''"
    show "d = take 2 i" using files [OF f d] assms(1) i d by (auto simp: fs_store_inv_def)
    show "is_dir (files k') (base_dir st @ [d])"
      using files [OF f d] assms(1) i d shard by (auto simp: fs_store_inv_def oned)
  next
    show "plain w" if "fs_stat (files k') (base_dir st @ [w]) \<noteq> None" for w
      using that assms(1) by (simp add: one fs_store_inv_def)
    show "blob_hash st x = i" if "fs_content st k' i = Some x" for i x
      using that assms(1) by (auto simp: c fs_store_inv_def split: if_splits)
  qed
  with c show ?thesis by simp
qed

definition put_outcome :: "fs_blob_store \<Rightarrow> string \<Rightarrow> disk \<Rightarrow> blob result \<Rightarrow> disk \<Rightarrow> bool" where
  "put_outcome st c k r k' \<longleftrightarrow> fs_store_inv st k' \<and>
     (case r of
        Inl e \<Rightarrow> fs_content st k' = fs_content st k
      | Inr b \<Rightarrow> c \<noteq> [] \<and> blob_id b = blob_hash st c \<and> blob_size_bytes b = int (length c) \<and>
          (\<exists>c'. blob_hash st c' = blob_hash st c \<and>
             fs_content st k' = (fs_content st k)(blob_hash st c \<mapsto> c')))"

lemma put_outcome_quiet_before:
  "quiet st k k1 \<Longrightarrow> put_outcome st c k1 r k' \<Longrightarrow> put_outcome st c k r k'"
  using quiet_keeps(1) [of st k k1] by (simp add: put_outcome_def split: sum.splits)

lemma put_outcome_quiet_after:
  "quiet st k1 k' \<Longrightarrow> put_outcome st c k r k1 \<Longrightarrow> put_outcome st c k r k'"
  using quiet_keeps [of st k1 k'] by (simp add: put_outcome_def split: sum.splits)

lemma put_outcome_Inl: "fs_store_inv st k \<Longrightarrow> put_outcome st c k (Inl e) k"
  by (simp add: put_outcome_def)

lemma put_payload_outcome:
  assumes inv: "fs_store_inv st k" and tmp: "tmp = base_dir st @ [''tmp'', u]"
    and run: "put_payload st tmp now c k = (r, k')"
  shows "put_outcome st c k r k'"
proof -
  let ?h = "blob_hash st c"
  have h: "rx_match id_rx ?h" "plain (take 2 ?h)" "plain ?h"
    using inv id_plain(1,2) hex_encode_valid unfolding blob_hash_def fs_store_inv_def by metis+
  obtain r1 k1 where w: "os_write_file tmp c 384 k = (r1, k1)" by fastforce
  have q1: "quiet st k k1" using quiet_write_temp [OF tmp, of k c 384] w by simp
  have inv1: "fs_store_inv st k1" by (rule quiet_keeps(2) [OF q1 inv])
  have "put_outcome st c k1 r k'"
  proof (cases r1)
    case (Inl e)
    with run w put_outcome_Inl [OF inv1] show ?thesis
      by (auto simp: put_payload_def)
  next
    case (Inr v1)
    obtain m ow t where content: "fs_stat (files k1) tmp = Some (File m ow c t)"
      using os_write_file_content [OF w [unfolded Inr]] by blast
    show ?thesis
    proof (cases "c = []")
      case True
      with run w Inr put_outcome_Inl [OF inv1] show ?thesis
        by (auto simp: put_payload_def)
    next
      case False
      obtain r2 k2 where mk: "os_mkdir_all 488 (base_dir st @ [take 2 ?h]) k1 = (r2, k2)" by fastforce
      have q2: "quiet st k1 k2" using quiet_mkdir_shard [OF h(2), of st k1] mk by simp
      have inv2: "fs_store_inv st k2" by (rule quiet_keeps(2) [OF q2 inv1])
      have content2: "fs_stat (files k2) tmp = Some (File m ow c t)"
        using os_mkdir_all_keeps [of k1 tmp 488 "base_dir st @ [take 2 ?h]"] content mk by simp
      have "put_outcome st c k2 r k'"
      proof (cases r2)
        case (Inl e)
        with run w Inr False mk h put_outcome_Inl [OF inv2] show ?thesis
          by (auto simp: put_payload_def Let_def path_join_plain simp flip: blob_hash_def)
      next
        case (Inr v2)
        let ?dest = "base_dir st @ [take 2 ?h, ?h]"
        let ?ok = "Inr \<lparr>blob_id = ?h, blob_size_bytes = int (length c), blob_sha256 = ?h, blob_created_at = now\<rparr>"
        obtain r3 k3 where mv: "os_rename tmp ?dest k2 = (r3, k3)" by fastforce
        note run' = run [unfolded put_payload_def Let_def w \<open>r1 = Inr v1\<close> prod.case sum.case,
            folded blob_hash_def]
        show ?thesis
        proof (cases r3)
          case v3: (Inr v3)
          with run' False mk h mv Inr have "r = ?ok" "k' = k3"
            by (auto simp: path_join_plain)
          with rename_into_place [OF inv2 tmp content2 mv [unfolded v3]] False show ?thesis
            by (auto simp: put_outcome_def)
        next
          case e3: (Inl e)
          have same: "files k3 = files k2" by (rule os_rename_fails [OF mv [unfolded e3]])
          have q3: "quiet st k2 k3" by (simp add: quiet_def same is_dir_iff)
          have inv3: "fs_store_inv st k3" by (rule quiet_keeps(2) [OF q3 inv2])
          obtain r4 k4 where s: "os_stat ?dest k3 = (r4, k4)" by fastforce
          have k4: "k4 = dtick k3" by (rule os_read_pairs(1) [OF s])
          have "put_outcome st c k3 r k'"
          proof (cases r4)
            case (Inl e4)
            with run' False mk h mv \<open>r2 = Inr v2\<close> e3 s have "isl r" "k' = k4"
              by (auto simp: path_join_plain)
            with inv3 k4 show ?thesis by (auto simp: put_outcome_def split: sum.splits)
          next
            case (Inr n)
            with run' False mk h mv \<open>r2 = Inr v2\<close> e3 s
            have r: "r = ?ok" and k': "k' = snd (os_remove tmp k4)"
              by (auto simp: path_join_plain)
            have "fs_stat (files k3) ?dest = Some n" by (rule os_stat_Inr [OF s [unfolded Inr]])
            moreover have "\<not> is_dir (files k3) ?dest" using inv3 h(1) by (simp add: fs_store_inv_def)
            ultimately obtain c' where c': "fs_content st k3 ?h = Some c'"
              using h(1) by (cases n) (auto simp: fs_content_def is_dir_def)
            with inv3 have "blob_hash st c' = ?h" by (simp add: fs_store_inv_def)
            with c' inv3 False have "put_outcome st c k3 r k3"
              by (auto simp: put_outcome_def r fun_upd_idem)
            moreover have "quiet st k3 k'"
              using quiet_cleanup_temp(2) [OF tmp, of k4] k4 by (simp add: k' quiet_def)
            ultimately show ?thesis by (rule put_outcome_quiet_after [rotated])
          qed
          then show ?thesis by (rule put_outcome_quiet_before [OF q3])
        qed
      qed
      then show ?thesis by (rule put_outcome_quiet_before [OF q2])
    qed
  qed
  then show ?thesis by (rule put_outcome_quiet_before [OF q1])
qed

lemma fs_put_outcome:
  assumes "fs_store_inv st k" and "fs_put_blob st rnd now (Some c) k = (r, k')"
  shows "put_outcome st c k r k'"
proof -
  let ?u = "''upload-'' @ nat_str rnd"
  have "CHR ''/'' \<notin> set (nat_str rnd)"
    using nat_str_digits [of rnd] by (auto simp: list_all_iff is_digit_def byte_def)
  then have "plain ''tmp''" "plain ?u" by (simp_all add: plain_def)
  then have tmp: "path_join (tmp_dir st) [?u] = base_dir st @ [''tmp'', ?u]"
    by (simp add: tmp_dir_def path_join_plain)
  obtain r1 k1 where ct: "os_create_temp (base_dir st @ [''tmp'', ?u]) k = (r1, k1)" by fastforce
  have q1: "quiet st k k1"
    using os_create_temp_cases [OF ct] quiet_write_temp [OF refl, where st = st and u = ?u and k = k and c = "''''" and m = 384] by auto
  have inv1: "fs_store_inv st k1" by (rule quiet_keeps(2) [OF q1 assms(1)])
  have "put_outcome st c k1 r k'"
  proof (cases r1)
    case (Inl e)
    with assms(2) ct put_outcome_Inl [OF inv1] show ?thesis
      by (auto simp: fs_put_blob_def tmp simp del: append_Cons)
  next
    case (Inr v)
    obtain r2 k2 where pp: "put_payload st (base_dir st @ [''tmp'', ?u]) now c k1 = (r2, k2)" by fastforce
    with Inr ct assms(2) have "r = r2" "k' = cleanup_temp (base_dir st @ [''tmp'', ?u]) k2"
      by (simp_all add: fs_put_blob_def tmp del: append_Cons)
    with put_payload_outcome [OF inv1 refl pp] show ?thesis
      using put_outcome_quiet_after [OF quiet_cleanup_temp(1) [OF refl]] by metis
  qed
  then show ?thesis by (rule put_outcome_quiet_before [OF q1])
qed

section \<open>Listing\<close>

lemma shard_ids_iff:
  assumes "distinct (map fst t)"
  shows "i \<in> set (shard_ids (fs_entries t d)) \<longleftrightarrow> rx_match id_rx i \<and> is_file t (d @ [i])"
proof -
  have "i \<in> set (shard_ids (fs_entries t d)) \<longleftrightarrow>
      (\<exists>n. (i, n) \<in> set (fs_entries t d) \<and> \<not> node_is_dir n \<and> rx_match id_rx i)"
    by (force simp: shard_ids_def)
  also have "\<dots> \<longleftrightarrow> rx_match id_rx i \<and> is_file t (d @ [i])"
    using assms by (auto simp: fs_entries_iff is_file_def node_is_dir_def split: option.splits node.splits)
  finally show ?thesis .
qed

lemma distinct_shard_ids: "distinct (map fst es) \<Longrightarrow> distinct (shard_ids es)"
  by (simp add: shard_ids_def distinct_map_filterI)

lemma dom_fs_content:
  "i \<in> dom (fs_content st k) \<longleftrightarrow> rx_match id_rx i \<and> is_file (files k) (base_dir st @ [take 2 i, i])"
  by (cases "rx_match id_rx i")
    (auto simp: fs_content_def is_file_def split: option.splits node.splits)

lemma fs_files_cong:
  assumes "files k' = files k"
  shows "fs_content st k' = fs_content st k" and "fs_store_inv st k' = fs_store_inv st k"
proof -
  show c: "fs_content st k' = fs_content st k" using assms by (simp add: fs_content_def fun_eq_iff)
  show "fs_store_inv st k' = fs_store_inv st k" using assms by (simp add: fs_store_inv_def c)
qed

lemma shard_of:
  "fs_store_inv st k \<Longrightarrow> rx_match id_rx i \<Longrightarrow> is_file (files k) (base_dir st @ [w, i]) \<Longrightarrow> w \<noteq> ''tmp'' \<Longrightarrow>
     w = take 2 i"
  unfolding fs_store_inv_def by blast

lemma shard_dir:
  "fs_store_inv st k \<Longrightarrow> rx_match id_rx i \<Longrightarrow> is_file (files k) (base_dir st @ [w, i]) \<Longrightarrow> w \<noteq> ''tmp'' \<Longrightarrow>
     is_dir (files k) (base_dir st @ [w])"
  unfolding fs_store_inv_def by blast

lemma walk_shards_spec:
  assumes "fs_store_inv st k" and "distinct (map fst es)" and "\<forall>(w, n)\<in>set es. plain w"
    and "walk_shards (base_dir st) es k = (ids, k')"
  shows "files k' = files k \<and> (disk_faults k = [] \<longrightarrow> k' = k) \<and> distinct ids \<and>
    (\<forall>i\<in>set ids. i \<in> dom (fs_content st k) \<and> take 2 i \<in> fst ` set es) \<and>
    (disk_faults k = [] \<longrightarrow> (\<forall>(w, n)\<in>set es. fs_stat (files k) (base_dir st @ [w]) = Some n) \<longrightarrow>
       (\<forall>i\<in>dom (fs_content st k). \<forall>n. (take 2 i, n) \<in> set es \<longrightarrow> node_is_dir n \<longrightarrow> i \<in> set ids))"
  using assms
proof (induction "base_dir st" es k arbitrary: ids k' rule: walk_shards.induct)
  case (1 k)
  then show ?case by simp
next
  case (2 w n es k)
  note inv = "2.prems"(1)
  have pw: "plain w" using "2.prems"(3) by simp
  have rest: "distinct (map fst es)" "\<forall>(w, n)\<in>set es. plain w" using "2.prems"(2,3) by simp_all
  show ?case
  proof (cases "\<not> node_is_dir n \<or> w = ''tmp''")
    case True
    with "2.prems" have run: "walk_shards (base_dir st) es k = (ids, k')" by simp
    have "(take 2 i, m) = (w, n) \<Longrightarrow> \<not> node_is_dir m" for i m
      using True take_not_tmp by auto
    then show ?thesis
      using "2.hyps"(1) [OF True inv rest run] by simp
  next
    case False
    obtain r1 k1 where rd: "os_read_dir (base_dir st @ [w]) k = (r1, k1)" by fastforce
    have k1: "k1 = dtick k" by (rule os_read_pairs(3) [OF rd])
    then have inv1: "fs_store_inv st k1" and c1: "fs_content st k1 = fs_content st k" using inv by simp_all
    show ?thesis
    proof (cases r1)
      case (Inl e)
      with False rd pw "2.prems"(4) have run: "walk_shards (base_dir st) es k1 = (ids, k')"
        by (simp add: path_join_plain)
      have bad: "\<not> (disk_faults k = [] \<and> fs_stat (files k) (base_dir st @ [w]) = Some n)"
        using rd Inl False by (auto simp: os_simps node_is_dir_def split: node.splits)
      have "os_read_dir (path_join (base_dir st) [w]) k = (Inl e, k1)"
        using rd Inl pw by (simp add: path_join_plain)
      from "2.hyps"(2) [OF False this [symmetric] refl inv1 rest run] bad show ?thesis
        by (auto simp: k1)
    next
      case (Inr fs)
      then have fs: "fs = fs_entries (files k) (base_dir st @ [w])"
        using rd by (auto simp: os_simps split: if_splits option.splits node.splits)
      obtain ids2 where run: "walk_shards (base_dir st) es k1 = (ids2, k')" and ids: "ids = shard_ids fs @ ids2"
        using False rd Inr pw "2.prems"(4) by (auto simp: path_join_plain split: prod.splits)
      have dist: "distinct (map fst (files k))" using inv by (simp add: fs_store_inv_def)
      have shard: "i \<in> set (shard_ids fs) \<longleftrightarrow> i \<in> dom (fs_content st k) \<and> take 2 i = w" for i
        using shard_of [OF inv, of i w] False shard_ids_iff [OF dist, of i "base_dir st @ [w]"]
        by (auto simp: fs dom_fs_content)
      have "os_read_dir (path_join (base_dir st) [w]) k = (Inr fs, k1)"
        using rd Inr pw by (simp add: path_join_plain)
      note IH = "2.hyps"(3) [OF False this [symmetric] refl inv1 rest run]
      have "distinct (shard_ids fs)"
        unfolding fs by (intro distinct_shard_ids distinct_fs_entries dist)
      moreover have "set (shard_ids fs) \<inter> set ids2 = {}"
        using IH shard "2.prems"(2) by (auto simp: k1)
      ultimately have "distinct ids" using IH by (simp add: ids)
      then show ?thesis using IH shard by (auto simp: ids k1)
    qed
  qed
qed

lemma fs_list_law:
  assumes "fs_store_inv st k" and "fs_list_ids st k = (r, k')"
  shows "fs_store_inv st k' \<and> fs_content st k' = fs_content st k \<and>
    (\<forall>ids. r = Inr ids \<longrightarrow> distinct ids \<and> set ids \<subseteq> dom (fs_content st k)) \<and>
    (disk_faults k = [] \<longrightarrow> k' = k \<and> (\<exists>ids. r = Inr ids \<and> set ids = dom (fs_content st k)))"
proof -
  obtain r1 k1 where rd: "os_read_dir (base_dir st) k = (r1, k1)" by fastforce
  have k1: "k1 = dtick k" by (rule os_read_pairs(3) [OF rd])
  have inv1: "fs_store_inv st k1" and c1: "fs_content st k1 = fs_content st k"
    using assms(1) by (simp_all add: k1)
  have dist: "distinct (map fst (files k))" using assms(1) by (simp add: fs_store_inv_def)
  have base: "is_dir (files k) (base_dir st)" using assms(1) by (simp add: fs_store_inv_def)
  show ?thesis
  proof (cases r1)
    case (Inl e)
    moreover have "disk_faults k \<noteq> []"
      using rd Inl base by (auto simp: os_simps is_dir_def split: option.splits node.splits if_splits)
    ultimately show ?thesis
      using assms(2) rd inv1 c1 by (auto simp: fs_list_ids_def)
  next
    case (Inr es)
    then have es: "es = fs_entries (files k) (base_dir st)"
      using rd by (auto simp: os_simps split: if_splits option.splits node.splits)
    obtain ids where run: "walk_shards (base_dir st) es k1 = (ids, k')" and r: "r = Inr ids"
      using assms(2) rd Inr by (auto simp: fs_list_ids_def split: prod.splits)
    have plain: "\<forall>(w, n)\<in>set es. plain w"
      using assms(1) by (auto simp: es fs_entries_iff [OF dist] fs_store_inv_def)
    have "distinct (map fst es)" unfolding es by (rule distinct_fs_entries [OF dist])
    note w = walk_shards_spec [OF inv1 this plain run]
    have "fs_store_inv st k'" "fs_content st k' = fs_content st k"
      using w fs_files_cong [of k' k1 st] inv1 c1 by simp_all
    moreover have "disk_faults k = [] \<longrightarrow> k' = k" using w by (simp add: k1)
    moreover have "i \<in> set ids" if nf: "disk_faults k = []" and i: "i \<in> dom (fs_content st k)" for i
    proof -
      have v: "rx_match id_rx i" and f: "is_file (files k) (base_dir st @ [take 2 i, i])"
        using i unfolding dom_fs_content by simp_all
      then have "is_dir (files k) (base_dir st @ [take 2 i])"
        using shard_dir [OF assms(1) v f take_not_tmp] by simp
      then obtain n where n: "fs_stat (files k) (base_dir st @ [take 2 i]) = Some n" "node_is_dir n"
        by (auto simp: is_dir_iff)
      then have "(take 2 i, n) \<in> set es" by (simp add: es fs_entries_iff [OF dist])
      moreover have "\<forall>(w, n)\<in>set es. fs_stat (files k1) (base_dir st @ [w]) = Some n"
        by (auto simp: es fs_entries_iff [OF dist] k1)
      ultimately show ?thesis using w n(2) nf i c1 by (simp add: k1)
    qed
    ultimately show ?thesis using w r c1 by auto
  qed
qed

lemma fs_get_reliable:
  assumes "fs_store_inv st k" and "disk_faults k = []"
  shows "\<exists>r. fs_get_blob st i k = (r, k) \<and> (\<forall>c. fs_content st k i = Some c \<longrightarrow> r = Inr c)"
  using assms
  by (auto simp: fs_get_blob_def resolve_blob_path_eq fs_content_def os_simps errs
      split: option.splits node.splits if_splits)

lemma fs_delete_reliable:
  assumes "fs_store_inv st k" and "disk_faults k = []" and "fs_content st k i \<noteq> None"
  shows "\<exists>k'. fs_delete_blob st i k = (Inr (), k') \<and> disk_faults k' = []"
proof -
  from assms(3) have v: "rx_match id_rx i" and f: "is_file (files k) (base_dir st @ [take 2 i, i])"
    by (auto simp: fs_content_def is_file_def split: if_splits option.splits node.splits)
  then have "\<not> is_dir (files k) (base_dir st @ [take 2 i, i])" by (simp add: is_file_not_dir)
  with v f assms(2) show ?thesis
    by (auto simp: fs_delete_blob_def resolve_blob_path_eq os_simps is_file_def split: option.splits)
qed

interpretation fsblob: blob_store_laws "fs_blob_ops st" "fs_store_inv st" fs_reliable "fs_content st"
  "blob_hash st" for st
proof (unfold_locales, goal_cases)
  case (1 k i c)
  then show ?case by (simp add: fs_store_inv_def)
next
  case (2 k rnd now p b k')
  then show ?case
    using fs_put_outcome [of st k rnd now _ "Inr b" k']
    by (cases p) (auto simp: fs_blob_ops_def fs_put_blob_def put_outcome_def)
next
  case (3 k rnd now p e k')
  then show ?case
    using fs_put_outcome [of st k rnd now _ "Inl e" k']
    by (cases p) (auto simp: fs_blob_ops_def fs_put_blob_def put_outcome_def)
next
  case (4 k i r k')
  then show ?case by (simp add: fs_blob_ops_def fs_get_law)
next
  case (5 k i u k')
  then show ?case using fs_delete_law [of st k i "Inr u" k'] by (simp add: fs_blob_ops_def)
next
  case (6 k i e k')
  then show ?case using fs_delete_law [of st k i "Inl e" k'] by (simp add: fs_blob_ops_def)
next
  case (7 k rl k')
  then have "fs_list_ids st k = (rl, k')" by (simp add: fs_blob_ops_def)
  from fs_list_law [OF 7(1) this] show ?case by blast
next
  case (8 k i)
  then show ?case by (simp add: fs_blob_ops_def fs_reliable_def fs_get_reliable)
next
  case (9 k i)
  then show ?case by (simp add: fs_blob_ops_def fs_reliable_def fs_delete_reliable)
next
  case (10 k)
  then show ?case
    using fs_list_law [OF 10(1), of "fst (fs_list_ids st k)" "snd (fs_list_ids st k)"]
    by (simp add: fs_blob_ops_def fs_reliable_def) (metis prod.collapse)
qed

section \<open>Storing on a working disk\<close>

lemma no_faults_left:
  assumes "disk_faults k = []"
  shows "disk_faults (snd (os_write_file p c m k)) = []" "disk_faults (snd (os_mkdir_all m p k)) = []"
    "disk_faults (snd (os_rename p q k)) = []" "disk_faults (snd (os_remove p k)) = []"
    "disk_faults (cleanup_temp p k) = []"
  using assms by (auto simp: os_simps cleanup_temp_def split: option.splits node.splits)

lemma put_payload_no_faults:
  assumes inv: "fs_store_inv st k" and nf: "disk_faults k = []" and tmp: "tmp = base_dir st @ [''tmp'', u]"
    and run: "put_payload st tmp now c k = (Inr b, k')"
  shows "blob_id b = blob_hash st c \<and> disk_faults k' = [] \<and> fs_store_inv st k' \<and>
    fs_content st k' = (fs_content st k)(blob_hash st c \<mapsto> c)"
proof -
  let ?h = "blob_hash st c"
  have h: "rx_match id_rx ?h" "plain (take 2 ?h)" "plain ?h"
    using inv id_plain(1,2) hex_encode_valid unfolding blob_hash_def fs_store_inv_def by metis+
  obtain v k1 where w: "os_write_file tmp c 384 k = (Inr v, k1)"
    using run by (cases "os_write_file tmp c 384 k"; cases "fst (os_write_file tmp c 384 k)")
      (auto simp: put_payload_def)
  have q1: "quiet st k k1" using quiet_write_temp [OF tmp, of k c 384] w by simp
  have inv1: "fs_store_inv st k1" by (rule quiet_keeps(2) [OF q1 inv])
  have nf1: "disk_faults k1 = []" using no_faults_left(1) [OF nf, of tmp c 384] w by simp
  obtain m ow t where content: "fs_stat (files k1) tmp = Some (File m ow c t)"
    using os_write_file_content [OF w] by blast
  have ne: "c \<noteq> []" using run w by (auto simp: put_payload_def)
  note run' = run [unfolded put_payload_def Let_def w prod.case sum.case, folded blob_hash_def]
  obtain v2 k2 where mk: "os_mkdir_all 488 (base_dir st @ [take 2 ?h]) k1 = (Inr v2, k2)"
    using run' ne h by (cases "os_mkdir_all 488 (base_dir st @ [take 2 ?h]) k1";
        cases "fst (os_mkdir_all 488 (base_dir st @ [take 2 ?h]) k1)") (auto simp: path_join_plain)
  have q2: "quiet st k1 k2" using quiet_mkdir_shard [OF h(2), of st k1] mk by simp
  have inv2: "fs_store_inv st k2" by (rule quiet_keeps(2) [OF q2 inv1])
  have nf2: "disk_faults k2 = []" using no_faults_left(2) [OF nf1, of 488] mk by (metis snd_conv)
  have content2: "fs_stat (files k2) tmp = Some (File m ow c t)"
    using os_mkdir_all_keeps [of k1 tmp 488 "base_dir st @ [take 2 ?h]"] content mk by simp
  have dir: "is_dir (files k2) (base_dir st @ [take 2 ?h])"
    using os_mkdir_all_dir [of 488 "base_dir st @ [take 2 ?h]" k1] mk by simp
  let ?dest = "base_dir st @ [take 2 ?h, ?h]"
  have "\<not> is_dir (files k2) ?dest" using inv2 h(1) by (simp add: fs_store_inv_def)
  then obtain k3 where mv: "os_rename tmp ?dest k2 = (Inr (), k3)"
    using nf2 content2 dir by (simp add: os_simps path_dir_def butlast_append)
  have "b = \<lparr>blob_id = ?h, blob_size_bytes = int (length c), blob_sha256 = ?h, blob_created_at = now\<rparr>"
    "k' = k3"
    using run' ne mk mv h by (auto simp: path_join_plain)
  moreover have "disk_faults k3 = []" using no_faults_left(3) [OF nf2, of tmp ?dest] mv by simp
  ultimately show ?thesis
    using rename_into_place [OF inv2 tmp content2 mv] quiet_keeps(1) [OF q1] quiet_keeps(1) [OF q2]
    by simp
qed

lemma fs_put_no_faults:
  assumes inv: "fs_store_inv st k" and nf: "disk_faults k = []"
    and run: "fs_put_blob st rnd now (Some c) k = (Inr b, k')"
  shows "blob_id b = blob_hash st c \<and> disk_faults k' = [] \<and> fs_store_inv st k' \<and>
    fs_content st k' = (fs_content st k)(blob_hash st c \<mapsto> c)"
proof -
  let ?u = "''upload-'' @ nat_str rnd"
  let ?tmp = "base_dir st @ [''tmp'', ?u]"
  have "CHR ''/'' \<notin> set (nat_str rnd)"
    using nat_str_digits [of rnd] by (auto simp: list_all_iff is_digit_def byte_def)
  then have "plain ''tmp''" "plain ?u" by (simp_all add: plain_def)
  then have tmp: "path_join (tmp_dir st) [?u] = ?tmp"
    by (simp add: tmp_dir_def path_join_plain)
  obtain r1 k1 where ct: "os_create_temp ?tmp k = (r1, k1)" by fastforce
  obtain v where r1: "r1 = Inr v"
    using run ct by (cases r1) (auto simp: fs_put_blob_def tmp simp del: append_Cons)
  have w: "os_write_file ?tmp '''' 384 k = (r1, k1)"
    using os_create_temp_cases [OF ct] r1 by auto
  have q1: "quiet st k k1"
    using quiet_write_temp [OF refl, where st = st and u = ?u and k = k and c = "''''" and m = 384] w
    by simp
  have inv1: "fs_store_inv st k1" by (rule quiet_keeps(2) [OF q1 inv])
  have nf1: "disk_faults k1 = []" using no_faults_left(1) [OF nf, of ?tmp "''''" 384] w by simp
  obtain k2 where pp: "put_payload st ?tmp now c k1 = (Inr b, k2)" and k': "k' = cleanup_temp ?tmp k2"
    using run ct r1 by (auto simp: fs_put_blob_def tmp Let_def simp del: append_Cons split: prod.splits)
  note p = put_payload_no_faults [OF inv1 nf1 refl pp]
  have q: "quiet st k2 k'" unfolding k' by (rule quiet_cleanup_temp(1) [OF refl])
  have "disk_faults k' = []" unfolding k' using p by (simp add: no_faults_left)
  with p quiet_keeps [OF q] quiet_keeps(1) [OF q1] show ?thesis by simp
qed

section \<open>Properties\<close>

definition example_store :: fs_blob_store where
  "example_store = \<lparr>base_dir = [''blobs''], sha256 = (\<lambda>c. take 32 (c @ replicate 32 (CHR 0x01)))\<rparr>"

definition example_blob_disk :: disk where
  "example_blob_disk =
     \<lparr>files = [([''blobs''], Dir 488 (0, 0)), ([''blobs'', ''tmp''], Dir 488 (0, 0))],
      proc_owner = (0, 0), privileged = True, disk_now = 0, disk_faults = [], disk_torn = []\<rparr>"

lemma example_store_inv: "fs_store_inv example_store example_blob_disk"
proof -
  have "\<not> is_file (files example_blob_disk) p" "fs_content example_store example_blob_disk i = None"
    "\<not> is_dir (files example_blob_disk) [''blobs'', take 2 j, j]" for p i j
    by (auto simp: is_file_def is_dir_def fs_content_def example_store_def example_blob_disk_def fs_stat_def)
  then show ?thesis
    by (auto simp: fs_store_inv_def example_store_def)
      (auto simp: example_blob_disk_def fs_stat_def is_dir_def plain_def split: if_splits)
qed

text \<open>
  C10. A payload that was stored is read back byte for byte under the identifier that
  \<open>Put\<close> returned (its hash), storing it again changes nothing, and every other blob is as it
  was.
\<close>

theorem blob_put_get:
  assumes "fs_store_inv st k" and "disk_faults k = []"
    and "fs_put_blob st rnd now (Some c) k = (Inr b, k')"
  shows "fs_get_blob st (blob_id b) k' = (Inr c, k') \<and> blob_id b = hex_encode (sha256 st c) \<and>
    (\<forall>i. i \<noteq> blob_id b \<longrightarrow> fs_content st k' i = fs_content st k i) \<and>
    (fs_content st k (blob_id b) = Some c \<longrightarrow> fs_content st k' = fs_content st k)"
proof -
  note p = fs_put_no_faults [OF assms]
  then obtain r where "fs_get_blob st (blob_id b) k' = (r, k') \<and>
      (\<forall>c. fs_content st k' (blob_id b) = Some c \<longrightarrow> r = Inr c)"
    using fs_get_reliable [of st k' "blob_id b"] by blast
  with p show ?thesis by (auto simp: blob_hash_def fun_upd_idem)
qed

theorem blob_put_get_witness:
  "\<exists>b k'. fs_put_blob example_store 7 0 (Some ''mail'') example_blob_disk = (Inr b, k') \<and>
     fs_get_blob example_store (blob_id b) k' = (Inr ''mail'', k')"
proof -
  obtain b k' where run: "fs_put_blob example_store 7 0 (Some ''mail'') example_blob_disk = (Inr b, k')"
  proof -
    have "\<not> isl (fst (fs_put_blob example_store 7 0 (Some ''mail'') example_blob_disk))"
      by code_simp
    then show thesis using that
      by (cases "fs_put_blob example_store 7 0 (Some ''mail'') example_blob_disk";
          cases "fst (fs_put_blob example_store 7 0 (Some ''mail'') example_blob_disk)") auto
  qed
  have "disk_faults example_blob_disk = []" by (simp add: example_blob_disk_def)
  from blob_put_get [OF example_store_inv this run] run show ?thesis by blast
qed

end
