(* ===== verification/Messages.thy ===== *)
theory Messages
  imports Mailbox_Props Blob_Store
begin

text \<open>
  The package \<open>internal/message\<close>: the repository over the table \<open>messages\<close> and the service
  that keeps the metadata in the database and the content in a blob store (any store with
  the operations of the interface). \<open>net/mail\<close> enters as two functions: \<open>ReadMessage\<close>, which
  gives the header lookup \<open>Header.Get\<close> of a parsable message, and \<open>ParseDate\<close>. The facts:
  what is stored is read back; the database stays well-formed; every stored message has its
  blob, as long as no blob is shared; and what happens when one is.
\<close>

section \<open>Repository\<close>

definition err_message_not_found :: err where
  "err_message_not_found = Sentinel ''message'' ''ErrMessageNotFound''"

definition err_msg_mailbox_not_found :: err where
  "err_msg_mailbox_not_found = Sentinel ''message'' ''ErrMailboxNotFound''"

lemmas [errs] = err_message_not_found_def err_msg_mailbox_not_found_def

definition message_constraints :: "message \<Rightarrow> db \<Rightarrow> (bool \<times> err) list" where
  "message_constraints m db =
     [(clashes msg_id m (messages db), PgUnique ''messages_pkey''),
      (\<not> has_key mb_id (msg_mailbox_id m) (mailboxes db), PgForeignKey ''messages_mailbox_id_fkey'')]"

definition message_repo_create :: "message \<Rightarrow> db \<Rightarrow> unit result \<times> db" where
  "message_repo_create m db =
     (case sql_insert (message_constraints m) (\<lambda>db. db\<lparr>messages := messages db @ [m]\<rparr>) db of
        (Inl err, db1) \<Rightarrow> (Inl (Wrap ''repository create message'' err), db1)
      | (Inr n, db1) \<Rightarrow> (Inr (), db1))"

definition message_get_by_id :: "uuid \<Rightarrow> db \<Rightarrow> message result \<times> db" where
  "message_get_by_id i db =
     (case sql_query_row (\<lambda>db. find (\<lambda>m. msg_id m = i) (messages db)) db of
        (Inl err, db1) \<Rightarrow>
          (if err_is err err_no_rows then (Inl err_message_not_found, db1)
           else (Inl (Wrap ''repository get message by id'' err), db1))
      | (Inr m, db1) \<Rightarrow> (Inr m, db1))"

definition message_repo_list :: "uuid \<Rightarrow> db \<Rightarrow> message list result \<times> db" where
  "message_repo_list mailbox db =
     (case sql_query (\<lambda>db. sort_key (\<lambda>m. - msg_received_at m)
             (rows_where (\<lambda>m. msg_mailbox_id m = mailbox) (messages db))) db of
        (Inl err, db1) \<Rightarrow> (Inl (Wrap ''repository list messages'' err), db1)
      | (Inr ms, db1) \<Rightarrow> (Inr ms, db1))"

definition get_all_blob_ids :: "db \<Rightarrow> string list result \<times> db" where
  "get_all_blob_ids db =
     (case sql_query (\<lambda>db. remdups (map msg_blob_id (messages db))) db of
        (Inl err, db1) \<Rightarrow> (Inl (Wrap ''repository get all blob ids'' err), db1)
      | (Inr ids, db1) \<Rightarrow> (Inr ids, db1))"

definition message_repo_delete :: "uuid \<Rightarrow> db \<Rightarrow> unit result \<times> db" where
  "message_repo_delete i db =
     (case sql_exec (\<lambda>db. (Inr (affected (\<lambda>m. msg_id m = i) (messages db)),
             db\<lparr>messages := delete_where (\<lambda>m. msg_id m = i) (messages db)\<rparr>)) db of
        (Inl err, db1) \<Rightarrow> (Inl (Wrap ''repository delete message'' err), db1)
      | (Inr n, db1) \<Rightarrow> (if n = 0 then (Inl err_message_not_found, db1) else (Inr (), db1)))"

section \<open>Service\<close>

record mail_parser =
  read_message :: "string \<Rightarrow> (string \<Rightarrow> string) option"
  parse_date :: "string \<Rightarrow> instant option"

definition parse_email_headers :: "mail_parser \<Rightarrow> string \<Rightarrow> string \<times> string \<times> string \<times> instant" where
  "parse_email_headers mp raw =
     (case read_message mp raw of
        None \<Rightarrow> ('''', '''', '''', zero_time)
      | Some get \<Rightarrow>
          let mid = get ''Message-ID'';
              message_id = (if mid = '''' then get ''Message-Id'' else mid);
              from = get ''From'';
              sender = (if from = '''' then get ''Sender'' else from);
              subject = get ''Subject'';
              date_str = get ''Date'';
              date = (if date_str \<noteq> '''' then
                        (case parse_date mp date_str of Some d \<Rightarrow> d | None \<Rightarrow> zero_time)
                      else zero_time)
          in (message_id, sender, subject, date))"

text \<open>
  \<open>raw\<close> is what the reader yields: \<open>None\<close> for a nil reader, else its bytes or the error that
  \<open>io.Copy\<close> meets.
\<close>

definition message_store ::
    "mail_parser \<Rightarrow> 'k blob_store \<Rightarrow> uuid \<Rightarrow> nat \<Rightarrow> instant \<Rightarrow> string \<Rightarrow> string result option \<Rightarrow>
       db \<Rightarrow> 'k \<Rightarrow> message result \<times> db \<times> 'k" where
  "message_store mp bs newid rnd now em raw db k =
     (case raw of
        None \<Rightarrow> (Inl err_empty_payload, db, k)
      | Some stream \<Rightarrow>
          (case mailbox_get_by_email (trim_space (to_lower em)) db of
             (Inl err, db1) \<Rightarrow>
               (if err_is err err_mailbox_not_found then (Inl err_msg_mailbox_not_found, db1, k)
                else (Inl (Wrap ''resolving mailbox'' err), db1, k))
           | (Inr mb, db1) \<Rightarrow>
               (case stream of
                  Inl err \<Rightarrow> (Inl (Wrap ''reading raw email stream'' err), db1, k)
                | Inr bytes \<Rightarrow>
                    if length bytes = 0 then (Inl err_empty_payload, db1, k)
                    else let (mid, sender, subject, received) = parse_email_headers mp bytes
                    in (case bs_put bs rnd now (Some bytes) k of
                          (Inl err, k1) \<Rightarrow> (Inl (Wrap ''storing payload in blobstore'' err), db1, k1)
                        | (Inr b, k1) \<Rightarrow>
                            let msg = \<lparr>msg_id = newid, msg_mailbox_id = mb_id mb, msg_message_id = mid,
                                       msg_blob_id = blob_id b, msg_sender = sender,
                                       msg_subject = subject, msg_size_bytes = blob_size_bytes b,
                                       msg_received_at = (if received = zero_time then now else received),
                                       msg_created_at = now\<rparr>
                            in (case message_repo_create msg db1 of
                                  (Inl err, db2) \<Rightarrow>
                                    (Inl (Wrap ''saving message metadata'' err), db2,
                                     snd (bs_delete bs (blob_id b) k1))
                                | (Inr u, db2) \<Rightarrow> (Inr msg, db2, k1))))))"

definition message_get_content :: "'k blob_store \<Rightarrow> uuid \<Rightarrow> db \<Rightarrow> 'k \<Rightarrow> (message \<times> string) result \<times> db \<times> 'k" where
  "message_get_content bs i db k =
     (case message_get_by_id i db of
        (Inl err, db1) \<Rightarrow> (Inl err, db1, k)
      | (Inr msg, db1) \<Rightarrow>
          (case bs_get bs (msg_blob_id msg) k of
             (Inl err, k1) \<Rightarrow> (Inl (Wrap ''reading payload from blobstore'' err), db1, k1)
           | (Inr c, k1) \<Rightarrow> (Inr (msg, c), db1, k1)))"

definition message_list :: "string \<Rightarrow> db \<Rightarrow> message list result \<times> db" where
  "message_list em db =
     (case mailbox_get_by_email (trim_space (to_lower em)) db of
        (Inl err, db1) \<Rightarrow>
          (if err_is err err_mailbox_not_found then (Inl err_msg_mailbox_not_found, db1)
           else (Inl (Wrap ''resolving mailbox'' err), db1))
      | (Inr mb, db1) \<Rightarrow> message_repo_list (mb_id mb) db1)"

definition message_delete :: "'k blob_store \<Rightarrow> uuid \<Rightarrow> db \<Rightarrow> 'k \<Rightarrow> unit result \<times> db \<times> 'k" where
  "message_delete bs i db k =
     (case message_get_by_id i db of
        (Inl err, db1) \<Rightarrow> (Inl err, db1, k)
      | (Inr msg, db1) \<Rightarrow>
          (case message_repo_delete i db1 of
             (Inl err, db2) \<Rightarrow> (Inl err, db2, k)
           | (Inr u, db2) \<Rightarrow> (Inr (), db2, snd (bs_delete bs (msg_blob_id msg) k))))"

section \<open>Facts about the repository\<close>

lemma message_get_by_id_eq [sql_simps]:
  "message_get_by_id i db =
     (if fails db then Inl (Wrap ''repository get message by id'' Fault)
      else case find (\<lambda>m. msg_id m = i) (messages db) of
             None \<Rightarrow> Inl err_message_not_found | Some m \<Rightarrow> Inr m, tick db)"
  by (simp add: message_get_by_id_def sql_simps errs split: option.splits)

lemma wf_message_repo_create: "wf_db db \<Longrightarrow> wf_db (snd (message_repo_create m db))"
  using wf_dbD(4) [of "tick db"]
  by (auto simp: message_repo_create_def message_constraints_def sql_simps wf_messages_def ref_def
      split: option.splits if_splits intro: rev_image_eqI)

lemma wf_message_repo_delete: "wf_db db \<Longrightarrow> wf_db (snd (message_repo_delete i db))"
  using wf_dbD(4) [of "tick db"]
  by (simp add: message_repo_delete_def sql_simps wf_messages_def ref_delete_where
      distinct_map_delete_where)

lemma message_repo_create_Inr:
  "message_repo_create m db = (Inr u, db') \<Longrightarrow>
     \<not> fails db \<and> db' = (tick db)\<lparr>messages := messages db @ [m]\<rparr> \<and>
     msg_id m \<notin> msg_id ` set (messages db)"
  by (auto simp: message_repo_create_def message_constraints_def sql_simps split: option.splits if_splits)

lemma message_repo_create_Inl:
  "message_repo_create m db = (Inl e, db') \<Longrightarrow> db' = tick db"
  by (auto simp: message_repo_create_def message_constraints_def sql_simps split: option.splits if_splits)

lemma message_repo_delete_Inr:
  "message_repo_delete i db = (Inr u, db') \<Longrightarrow>
     db' = (tick db)\<lparr>messages := delete_where (\<lambda>m. msg_id m = i) (messages db)\<rparr>"
  by (auto simp: message_repo_delete_def sql_simps split: if_splits)

lemma message_repo_delete_Inl:
  "wf_db db \<Longrightarrow> message_repo_delete i db = (Inl e, db') \<Longrightarrow> messages db' = messages db"
  by (auto simp: message_repo_delete_def sql_simps tbl_simps delete_where_nop split: if_splits)

lemma wf_message_store:
  assumes "wf_db db" and "message_store mp bs newid rnd now em raw db k = (r, db', k')"
  shows "wf_db db'"
  using assms wf_message_repo_create [of "tick db"]
  by (auto simp: message_store_def sql_simps Let_def split: option.splits if_splits prod.splits sum.splits)
    (metis snd_conv wf_db_tick)+

lemma wf_message_delete:
  assumes "wf_db db" and "message_delete bs i db k = (r, db', k')"
  shows "wf_db db'"
  using assms wf_message_repo_delete [of "tick db"]
  by (auto simp: message_delete_def sql_simps split: option.splits if_splits prod.splits sum.splits)
    (metis snd_conv wf_db_tick)+

section \<open>The cases of the service\<close>

lemma message_store_cases:
  assumes "message_store mp bs newid rnd now em raw db k = (r, db', k')"
  obtains (refused) e n where "r = Inl e" and "db' = (tick ^^ n) db" and "k' = k"
  | (put_failed) e e' bytes where "r = Inl e" and "db' = tick db" and "raw = Some (Inr bytes)"
      and "bs_put bs rnd now (Some bytes) k = (Inl e', k')"
  | (rolled_back) e bytes b k1 where "r = Inl e" and "db' = tick (tick db)" and "raw = Some (Inr bytes)"
      and "bs_put bs rnd now (Some bytes) k = (Inr b, k1)" and "k' = snd (bs_delete bs (blob_id b) k1)"
  | (stored) bytes mb b m where "raw = Some (Inr bytes)" and "bytes \<noteq> []"
      and "find (\<lambda>m. mb_email m = canon em) (mailbox_rows db) = Some mb"
      and "bs_put bs rnd now (Some bytes) k = (Inr b, k')" and "r = Inr m"
      and "message_repo_create m (tick db) = (Inr (), db')"
      and "msg_id m = newid" and "msg_mailbox_id m = mb_id mb" and "msg_blob_id m = blob_id b"
      and "msg_size_bytes m = blob_size_bytes b"
proof -
  let ?mb = "find (\<lambda>m. mb_email m = canon em) (mailbox_rows db)"
  show thesis
  proof (cases "\<exists>bytes mb. raw = Some (Inr bytes) \<and> bytes \<noteq> [] \<and> \<not> fails db \<and> ?mb = Some mb")
    case False
    have "\<exists>e. r = Inl e \<and> k' = k \<and> (db' = db \<or> db' = tick db)"
    proof (cases raw)
      case None
      with assms show ?thesis by (auto simp: message_store_def)
    next
      case (Some stream)
      show ?thesis
      proof (cases "fails db \<or> ?mb = None")
        case True
        with assms Some show ?thesis
          by (auto simp: message_store_def sql_simps canon_def' errs split: if_splits)
      next
        case ok: False
        with False Some have "stream = Inr [] \<or> (\<exists>e. stream = Inl e)" by (cases stream) auto
        with assms Some ok show ?thesis
          by (auto simp: message_store_def sql_simps canon_def' errs)
      qed
    qed
    then show thesis using refused [of _ 0] refused [of _ 1] by auto
  next
    case True
    then obtain bytes mb where ok: "raw = Some (Inr bytes)" "bytes \<noteq> []" "\<not> fails db" "?mb = Some mb"
      by blast
    obtain mid sender subject received where hd: "parse_email_headers mp bytes = (mid, sender, subject, received)"
      by (cases "parse_email_headers mp bytes") auto
    obtain p k1 where put: "bs_put bs rnd now (Some bytes) k = (p, k1)" by fastforce
    show thesis
    proof (cases p)
      case (Inl e)
      with assms ok hd put show thesis
        by (intro put_failed [of "projl r" bytes e]) (auto simp: message_store_def sql_simps canon_def')
    next
      case (Inr b)
      let ?m = "\<lparr>msg_id = newid, msg_mailbox_id = mb_id mb, msg_message_id = mid,
         msg_blob_id = blob_id b, msg_sender = sender, msg_subject = subject,
         msg_size_bytes = blob_size_bytes b,
         msg_received_at = (if received = zero_time then now else received), msg_created_at = now\<rparr>"
      obtain q db2 where cr: "message_repo_create ?m (tick db) = (q, db2)" by fastforce
      show thesis
      proof (cases q)
        case e: (Inl e)
        with assms ok hd put Inr cr message_repo_create_Inl [OF cr [unfolded e]] show thesis
          by (intro rolled_back [of "projl r" bytes b k1])
            (auto simp: message_store_def sql_simps canon_def')
      next
        case u: (Inr u)
        with assms ok hd put Inr cr show thesis
          by (intro stored [of bytes mb b ?m]) (auto simp: message_store_def sql_simps canon_def')
      qed
    qed
  qed
qed

lemma message_delete_cases:
  assumes "message_delete bs i db k = (r, db', k')"
  obtains (refused) e where "r = Inl e" and "k' = k" and "snd (message_repo_delete i (tick db)) = db' \<or> db' = tick db"
  | (deleted) msg where "r = Inr ()" and "find (\<lambda>m. msg_id m = i) (messages db) = Some msg"
      and "messages db' = delete_where (\<lambda>m. msg_id m = i) (messages db)"
      and "k' = snd (bs_delete bs (msg_blob_id msg) k)"
proof (cases "fails db \<or> find (\<lambda>m. msg_id m = i) (messages db) = None")
  case True
  with assms show thesis
    by (intro refused [of "projl r"]) (auto simp: message_delete_def sql_simps split: if_splits)
next
  case False
  then obtain msg where msg: "\<not> fails db" "find (\<lambda>m. msg_id m = i) (messages db) = Some msg" by auto
  obtain q db2 where d: "message_repo_delete i (tick db) = (q, db2)" by fastforce
  show thesis
  proof (cases q)
    case (Inl e)
    with assms msg d show thesis
      by (intro refused [of e]) (auto simp: message_delete_def sql_simps)
  next
    case (Inr u)
    with assms msg d message_repo_delete_Inr [OF d [unfolded Inr]] show thesis
      by (intro deleted [of msg]) (auto simp: message_delete_def sql_simps)
  qed
qed

section \<open>Messages and blobs\<close>

context blob_store_laws
begin

text \<open>Every message of the database has its content in the store.\<close>

definition blobs_present :: "db \<Rightarrow> 'k \<Rightarrow> bool" where
  "blobs_present db k \<longleftrightarrow> (\<forall>m\<in>set (messages db). content k (msg_blob_id m) \<noteq> None)"

definition unshared :: "db \<Rightarrow> bool" where
  "unshared db \<longleftrightarrow> distinct (map msg_blob_id (messages db))"

lemma blobs_present_tick: "db_inv (\<lambda>db. blobs_present db k)"
  by (simp add: db_inv_def blobs_present_def)

lemma store_keeps_blobs:
  assumes "inv k" and "blobs_present db k"
    and "message_store mp bs newid rnd now em raw db k = (r, db', k')"
    and "\<not> isl r \<or> (\<forall>bytes. raw = Some (Inr bytes) \<longrightarrow> hash bytes \<notin> msg_blob_id ` set (messages db))"
  shows "inv k' \<and> blobs_present db' k'"
  using assms(3)
proof (cases rule: message_store_cases)
  case refused
  with assms(1,2) show ?thesis by (simp add: db_inv_ticks [OF blobs_present_tick])
next
  case put_failed
  with assms(1,2) put_err show ?thesis by (auto simp: blobs_present_def)
next
  case (rolled_back e bytes b k1)
  from put_ok [OF assms(1) rolled_back(4)]
  have k1: "inv k1" "blob_id b = hash bytes" "\<forall>i. i \<noteq> hash bytes \<longrightarrow> content k1 i = content k i" by auto
  obtain s k2 where d: "bs_delete bs (blob_id b) k1 = (s, k2)" by fastforce
  then have "inv k2 \<and> (content k2 = content k1 \<or> content k2 = (content k1)(blob_id b := None))"
    using delete_ok [OF k1(1)] delete_err [OF k1(1)] by (cases s) auto
  moreover have "content k1 (msg_blob_id m) \<noteq> None \<and> msg_blob_id m \<noteq> blob_id b"
    if "m \<in> set (messages db)" for m
  proof -
    have "hash bytes \<notin> msg_blob_id ` set (messages db)" using assms(4) rolled_back(1,3) by simp
    then have "msg_blob_id m \<noteq> hash bytes" using that by (metis imageI)
    with that k1 assms(2) show ?thesis by (simp add: blobs_present_def)
  qed
  ultimately show ?thesis
    using rolled_back(2,5) d by (auto simp: blobs_present_def)
next
  case (stored bytes mb b m)
  from put_ok [OF assms(1) stored(4)] message_repo_create_Inr [OF stored(6)] stored(9) assms(2)
  show ?thesis by (auto simp: blobs_present_def)
qed

lemma delete_keeps_blobs:
  assumes "inv k" and "wf_db db" and "blobs_present db k" and "unshared db"
    and "message_delete bs i db k = (r, db', k')"
  shows "inv k' \<and> blobs_present db' k'"
  using assms(5)
proof (cases rule: message_delete_cases)
  case refused
  have "set (messages (snd (message_repo_delete i (tick db)))) \<subseteq> set (messages db)"
    by (auto simp: message_repo_delete_def sql_simps tbl_simps)
  with refused assms show ?thesis by (auto simp: blobs_present_def)
next
  case (deleted msg)
  obtain s k2 where d: "bs_delete bs (msg_blob_id msg) k = (s, k2)" by fastforce
  then have k2: "inv k2 \<and> (content k2 = content k \<or> content k2 = (content k)(msg_blob_id msg := None))"
    using delete_ok [OF assms(1)] delete_err [OF assms(1)] by (cases s) auto
  have "msg_blob_id x \<noteq> msg_blob_id msg" if "x \<in> set (messages db')" for x
    using that deleted find_SomeD [OF deleted(2)] assms(4)
      distinct_key_eq [of msg_blob_id "messages db" x msg]
    by (auto simp: unshared_def tbl_simps)
  with k2 d deleted assms(3) show ?thesis by (auto simp: blobs_present_def tbl_simps)
qed

lemma get_absent:
  assumes "inv k" and "reliable k" and "content k i = None"
  shows "\<exists>e. bs_get bs i k = (Inl e, k)"
  using reliable_get [OF assms(1,2), of i] get_reads [OF assms(1)] assms(3)
  by (metis option.distinct(1) old.sum.exhaust)

text \<open>When two messages have the same content, deleting one loses the other's.\<close>

lemma delete_shared:
  assumes "inv k" and "reliable k" and "wf_db db" and "faults db = []"
    and "m1 \<in> set (messages db)" and "m2 \<in> set (messages db)" and "m1 \<noteq> m2"
    and "msg_blob_id m1 = msg_blob_id m2" and "content k (msg_blob_id m1) \<noteq> None"
  shows "\<exists>db' k' e. message_delete bs (msg_id m1) db k = (Inr (), db', k') \<and> m2 \<in> set (messages db') \<and>
    message_get_content bs (msg_id m2) db' k' = (Inl e, db', k')"
proof -
  have keys: "distinct (map msg_id (messages db))" using assms(3) by (simp add: wf_db_def wf_defs)
  obtain k' where d: "bs_delete bs (msg_blob_id m1) k = (Inr (), k')" and rel: "reliable k'"
    using reliable_delete [OF assms(1,2,9)] by blast
  from delete_ok [OF assms(1) d] have k': "inv k'" "content k' (msg_blob_id m2) = None"
    using assms(8) by auto
  let ?db = "db\<lparr>messages := delete_where (\<lambda>m. msg_id m = msg_id m1) (messages db)\<rparr>"
  have m1: "find (\<lambda>m. msg_id m = msg_id m1) (messages db) = Some m1"
    by (rule find_key_Some [OF keys assms(5)])
  have "affected (\<lambda>m. msg_id m = msg_id m1) (messages db) \<noteq> 0"
    using assms(5) by (auto simp: tbl_simps)
  then have del: "message_repo_delete (msg_id m1) db = (Inr (), ?db)"
    using assms(4) by (simp add: message_repo_delete_def sql_simps)
  have m2: "m2 \<in> set (messages ?db)"
    using assms(5-7) distinct_key_eq [OF keys] by (auto simp: tbl_simps)
  have "distinct (map msg_id (messages ?db))" by (simp add: distinct_map_delete_where [OF keys])
  then have "find (\<lambda>m. msg_id m = msg_id m2) (messages ?db) = Some m2"
    by (rule find_key_Some [OF _ m2])
  moreover obtain e where "bs_get bs (msg_blob_id m2) k' = (Inl e, k')"
    using get_absent [OF k'(1) rel k'(2)] by blast
  ultimately show ?thesis
    using m1 del d m2 assms(4) by (auto simp: message_delete_def message_get_content_def sql_simps)
qed

lemma get_all_blob_ids_eq:
  "get_all_blob_ids db =
     (if fails db then Inl (Wrap ''repository get all blob ids'' Fault)
      else Inr (remdups (map msg_blob_id (messages db))), tick db)"
  by (simp add: get_all_blob_ids_def sql_simps)

text \<open>A collection keeps the content of every message that was in the database.\<close>

lemma gc_keeps_messages:
  assumes "inv k" and "garbage_collect bs get_all_blob_ids dry db k = (r, db', k')"
  shows "inv k' \<and> messages db' = messages db \<and>
    (\<forall>m\<in>set (messages db). content k' (msg_blob_id m) = content k (msg_blob_id m))"
proof -
  have "messages db' = messages db"
    using assms(2) by (auto simp: garbage_collect_def get_all_blob_ids_eq split: prod.splits sum.splits if_splits)
  with gc_safe [OF assms] show ?thesis
    by (auto simp: get_all_blob_ids_eq split: if_splits)
qed

text \<open>
  A collection that runs between the two writes of \<open>Store\<close> deletes the new blob: the blob is
  in the store, its row is not yet in the database.
\<close>

lemma gc_race:
  assumes "inv k" and "bs_put bs rnd now (Some bytes) k = (Inr b, k1)" and "reliable k1"
    and "faults db = []" and "blob_id b \<notin> msg_blob_id ` set (messages db)"
    and "garbage_collect bs get_all_blob_ids False db k1 = (r, db1, k2)"
  shows "content k1 (blob_id b) \<noteq> None \<and> content k2 (blob_id b) = None"
proof -
  from put_ok [OF assms(1,2)] have k1: "inv k1" "content k1 (blob_id b) \<noteq> None" by auto
  have "get_all_blob_ids db = (Inr (remdups (map msg_blob_id (messages db))), db)"
    using assms(4) by (simp add: get_all_blob_ids_eq)
  from gc_complete [OF k1(1) assms(3) this assms(6)] assms(5) k1 show ?thesis by auto
qed

end

section \<open>Properties\<close>

text \<open>
  C11. A message that was stored is read back: its row belongs to the mailbox of the
  (normalised) address and the content is the exact bytes that arrived.
\<close>

theorem message_store_get:
  assumes "wf_db db" and "faults db = []" and "fs_store_inv st k" and "disk_faults k = []"
    and "message_store mp (fs_blob_ops st) newid rnd now em (Some (Inr bytes)) db k = (Inr m, db', k')"
  shows "message_get_content (fs_blob_ops st) newid db' k' = (Inr (m, bytes), db', k') \<and>
    msg_size_bytes m = int (length bytes) \<and>
    (\<exists>mb\<in>set (mailboxes db). mb_email mb = canon em \<and> msg_mailbox_id m = mb_id mb)"
  using assms(5)
proof (cases rule: message_store_cases)
  case (stored bytes' mb b m')
  have run: "fs_put_blob st rnd now (Some bytes) k = (Inr b, k')"
    using stored(1,4) by (simp add: fs_blob_ops_def)
  have size: "blob_size_bytes b = int (length bytes)"
    using fs_put_outcome [OF assms(3) run] by (simp add: put_outcome_def)
  have get: "fs_get_blob st (blob_id b) k' = (Inr bytes, k')"
    using fs_put_no_faults [OF assms(3,4) run] fs_get_reliable [of st k' "blob_id b"] by auto
  note row = message_repo_create_Inr [OF stored(6)]
  have "wf_db db'" by (rule wf_message_store [OF assms(1,5)])
  then have "find (\<lambda>x. msg_id x = msg_id m') (messages db') = Some m'"
    by (intro find_key_Some) (simp_all add: wf_db_def wf_defs row)
  then have "find (\<lambda>x. msg_id x = newid) (messages db @ [m']) = Some m'"
    using row stored(7) by simp
  moreover have "faults db' = []" using row assms(2) by (simp add: tick_def)
  ultimately have "message_get_content (fs_blob_ops st) newid db' k' = (Inr (m', bytes), db', k')"
    using row get stored(9) by (simp add: message_get_content_def sql_simps fs_blob_ops_def)
  moreover obtain m0 and d :: domain where "m0 \<in> set (mailboxes db)" "mb = m0\<lparr>mb_domain_name := dom_name d\<rparr>"
    "mb_email mb = canon em"
    by (rule find_mailbox_rows [OF stored(3)]) blast
  ultimately show ?thesis
    using stored(5,8,10) size by auto
qed auto

definition example_parser :: mail_parser where
  "example_parser = \<lparr>read_message = (\<lambda>s. None), parse_date = (\<lambda>s. None)\<rparr>"

definition example_message :: "uuid \<Rightarrow> uuid \<Rightarrow> string \<Rightarrow> message" where
  "example_message i mb bid =
     \<lparr>msg_id = i, msg_mailbox_id = mb, msg_message_id = '''', msg_blob_id = bid, msg_sender = '''',
      msg_subject = '''', msg_size_bytes = 4, msg_received_at = 0, msg_created_at = 0\<rparr>"

lemma example_put:
  obtains b k' where "fs_put_blob example_store 7 0 (Some ''mail'') example_blob_disk = (Inr b, k')"
    and "fs_store_inv example_store k'" and "disk_faults k' = []"
    and "fs_content example_store k' (blob_id b) = Some ''mail''"
proof -
  have nf: "disk_faults example_blob_disk = []" by (simp add: example_blob_disk_def)
  have "\<not> isl (fst (fs_put_blob example_store 7 0 (Some ''mail'') example_blob_disk))"
    by code_simp
  then obtain b k' where run: "fs_put_blob example_store 7 0 (Some ''mail'') example_blob_disk = (Inr b, k')"
    by (cases "fs_put_blob example_store 7 0 (Some ''mail'') example_blob_disk";
        cases "fst (fs_put_blob example_store 7 0 (Some ''mail'') example_blob_disk)") auto
  from fs_put_no_faults [OF example_store_inv nf run] run that show thesis by simp
qed

theorem message_store_get_witness:
  "\<exists>db m db' k'. message_store example_parser (fs_blob_ops example_store) 3 7 0 ''ann@example.org''
       (Some (Inr ''mail'')) db example_blob_disk = (Inr m, db', k') \<and>
     message_get_content (fs_blob_ops example_store) 3 db' k' = (Inr (m, ''mail''), db', k')"
proof -
  obtain a db1 where wf: "wf_db db1" and f: "faults db1 = []"
    and tab: "mailboxes db1 = [a\<lparr>mb_domain_name := ''''\<rparr>]" and a: "mb_email a = ''ann@example.org''"
    and run1: "mailbox_create example_env None 5 0 (Inr ''salt'') ''Ann@Example.org''
      ''correct horse'' 0 example_db () = (Inr a, db1, ())"
    by (rule example_account)
  let ?db = "db1\<lparr>messages := []\<rparr>"
  have wf': "wf_db ?db" using wf by (simp add: sql_simps wf_messages_def ref_def)
  have c: "canon ''ann@example.org'' = ''ann@example.org''" by code_simp
  obtain b k' where put: "fs_put_blob example_store 7 0 (Some ''mail'') example_blob_disk = (Inr b, k')"
    by (rule example_put)
  obtain d :: domain where "find (\<lambda>x. mb_email x = mb_email (a\<lparr>mb_domain_name := ''''\<rparr>)) (mailbox_rows ?db) =
      Some ((a\<lparr>mb_domain_name := ''''\<rparr>)\<lparr>mb_domain_name := dom_name d\<rparr>)"
    by (rule find_row [OF wf', of "a\<lparr>mb_domain_name := ''''\<rparr>"]) (simp add: tab, blast)
  then have g: "mailbox_get_by_email ''ann@example.org'' ?db = (Inr (a\<lparr>mb_domain_name := dom_name d\<rparr>), ?db)"
    by (simp add: sql_simps f a)
  have ph: "parse_email_headers example_parser ''mail'' = ('''', '''', '''', zero_time)"
    by (simp add: parse_email_headers_def example_parser_def)
  have bp: "bs_put (fs_blob_ops example_store) = fs_put_blob example_store"
    by (simp add: fs_blob_ops_def)
  let ?m = "\<lparr>msg_id = 3, msg_mailbox_id = mb_id a, msg_message_id = '''', msg_blob_id = blob_id b,
     msg_sender = '''', msg_subject = '''', msg_size_bytes = blob_size_bytes b, msg_received_at = 0,
     msg_created_at = 0\<rparr>"
  obtain db' where "message_repo_create ?m ?db = (Inr (), db')"
    using f tab by (simp add: message_repo_create_def message_constraints_def sql_simps)
  then have run: "message_store example_parser (fs_blob_ops example_store) 3 7 0 ''ann@example.org''
       (Some (Inr ''mail'')) ?db example_blob_disk = (Inr ?m, db', k')"
    by (simp add: message_store_def canon_def' c g ph bp put)
  have nf: "disk_faults example_blob_disk = []" by (simp add: example_blob_disk_def)
  have "faults ?db = []" using f by simp
  from message_store_get [OF wf' this example_store_inv nf run] run show ?thesis by blast
qed

text \<open>
  C12. Contents are shared between messages with the same bytes, but a deletion removes the
  blob without looking for other messages: deleting one of two such messages succeeds and
  leaves the other without content.
\<close>

theorem shared_blob_lost:
  assumes "fs_store_inv st k" and "disk_faults k = []" and "wf_db db" and "faults db = []"
    and "m1 \<in> set (messages db)" and "m2 \<in> set (messages db)" and "m1 \<noteq> m2"
    and "msg_blob_id m1 = msg_blob_id m2" and "fs_content st k (msg_blob_id m1) \<noteq> None"
  shows "\<exists>db' k' e. message_delete (fs_blob_ops st) (msg_id m1) db k = (Inr (), db', k') \<and>
    m2 \<in> set (messages db') \<and> message_get_content (fs_blob_ops st) (msg_id m2) db' k' = (Inl e, db', k')"
  by (rule fsblob.delete_shared [OF assms(1) _ assms(3-9)]) (simp add: fs_reliable_def assms(2))

text \<open>A database with two messages of the same content, and its blob.\<close>

lemma example_shared:
  obtains db k and b :: blob where "wf_db db" and "faults db = []" and "fs_store_inv example_store k"
    and "disk_faults k = []" and "fs_content example_store k (blob_id b) = Some ''mail''"
    and "messages db = [example_message 1 5 (blob_id b), example_message 2 5 (blob_id b)]"
proof -
  obtain a db1 where wf: "wf_db db1" and f: "faults db1 = []"
    and tab: "mailboxes db1 = [a\<lparr>mb_domain_name := ''''\<rparr>]" and a: "mb_id a = 5"
    by (rule example_account)
  obtain b :: blob and k where k: "fs_store_inv example_store k" "disk_faults k = []"
    "fs_content example_store k (blob_id b) = Some ''mail''"
    by (rule example_put)
  let ?db = "db1\<lparr>messages := [example_message 1 5 (blob_id b), example_message 2 5 (blob_id b)]\<rparr>"
  have "wf_db ?db"
    using wf tab a by (simp add: sql_simps wf_messages_def ref_def example_message_def)
  with k f show thesis by (intro that [of ?db k b]) simp_all
qed

theorem shared_blob_lost_witness:
  "\<exists>db k db' k' e. message_delete (fs_blob_ops example_store) 1 db k = (Inr (), db', k') \<and>
     message_get_content (fs_blob_ops example_store) 2 db' k' = (Inl e, db', k')"
proof -
  obtain db k and b :: blob where h: "wf_db db" "faults db = []" "fs_store_inv example_store k" "disk_faults k = []"
    and c: "fs_content example_store k (blob_id b) = Some ''mail''"
    and m: "messages db = [example_message 1 5 (blob_id b), example_message 2 5 (blob_id b)]"
    by (rule example_shared)
  have "\<exists>db' k' e. message_delete (fs_blob_ops example_store) (msg_id (example_message 1 5 (blob_id b))) db k
      = (Inr (), db', k') \<and> example_message 2 5 (blob_id b) \<in> set (messages db') \<and>
      message_get_content (fs_blob_ops example_store) (msg_id (example_message 2 5 (blob_id b))) db' k'
        = (Inl e, db', k')"
    by (rule shared_blob_lost [OF h(3,4,1,2)]) (simp_all add: m c example_message_def)
  then have "\<exists>db' k' e. message_delete (fs_blob_ops example_store) 1 db k = (Inr (), db', k') \<and>
      message_get_content (fs_blob_ops example_store) 2 db' k' = (Inl e, db', k')"
    unfolding example_message_def by auto
  then show ?thesis by blast
qed

text \<open>
  C13. A garbage collection never removes the content of a message that is in the database,
  whatever calls fail on the way, and a dry run removes nothing.
\<close>

theorem gc_keeps_message_content:
  assumes "fs_store_inv st k"
    and "garbage_collect (fs_blob_ops st) get_all_blob_ids dry db k = (r, db', k')"
  shows "fs_store_inv st k' \<and> messages db' = messages db \<and>
    (\<forall>m\<in>set (messages db). fs_content st k' (msg_blob_id m) = fs_content st k (msg_blob_id m)) \<and>
    (dry \<longrightarrow> fs_content st k' = fs_content st k)"
  using fsblob.gc_keeps_messages [OF assms] fsblob.gc_safe [OF assms] by blast

theorem gc_keeps_message_content_witness:
  "\<exists>db k m. messages db = [m, m\<lparr>msg_id := 2\<rparr>] \<and>
     fs_content example_store (snd (snd (garbage_collect (fs_blob_ops example_store) get_all_blob_ids
        False db k))) (msg_blob_id m) = Some ''mail''"
proof -
  obtain db :: db and k and b :: blob where k: "fs_store_inv example_store k"
    and c: "fs_content example_store k (blob_id b) = Some ''mail''"
    and m: "messages db = [example_message 1 5 (blob_id b), example_message 2 5 (blob_id b)]"
    by (rule example_shared)
  obtain r db' k' where run: "garbage_collect (fs_blob_ops example_store) get_all_blob_ids False db k
      = (r, db', k')"
    by (metis prod_cases3)
  have "fs_content example_store k' (blob_id b) = Some ''mail''"
    using gc_keeps_message_content [OF k run] c m by (simp add: example_message_def)
  then show ?thesis
    using run m by (intro exI [of _ db] exI [of _ k] exI [of _ "example_message 1 5 (blob_id b)"])
      (simp add: example_message_def)
qed

text \<open>
  On a working database and disk a garbage collection removes exactly the blobs that no
  message refers to, and its statistics count them.
\<close>

theorem gc_removes_orphans:
  assumes "fs_store_inv st k" and "disk_faults k = []" and "faults db = []"
    and "garbage_collect (fs_blob_ops st) get_all_blob_ids False db k = (r, db', k')"
  shows "fs_content st k' =
      (\<lambda>i. if i \<in> msg_blob_id ` set (messages db) then fs_content st k i else None) \<and>
    (\<exists>s. r = Inr s \<and> total_blobs s = card (dom (fs_content st k)) \<and>
       orphan_blobs s = card (dom (fs_content st k) - msg_blob_id ` set (messages db)) \<and>
       deleted_blobs s = orphan_blobs s)"
proof -
  have "get_all_blob_ids db = (Inr (remdups (map msg_blob_id (messages db))), db)"
    using assms(3) by (simp add: fsblob.get_all_blob_ids_eq)
  from fsblob.gc_complete [OF assms(1) _ this assms(4)] show ?thesis
    by (simp add: fs_reliable_def assms(2))
qed

theorem gc_removes_orphans_witness:
  "\<exists>(b :: blob) k s db' k'. fs_content example_store k (blob_id b) = Some ''mail'' \<and>
     garbage_collect (fs_blob_ops example_store) get_all_blob_ids False empty_db k = (Inr s, db', k') \<and>
     fs_content example_store k' (blob_id b) = None"
proof -
  obtain b :: blob and k where k: "fs_store_inv example_store k" "disk_faults k = []"
    "fs_content example_store k (blob_id b) = Some ''mail''"
    by (rule example_put)
  obtain r db' k' where run: "garbage_collect (fs_blob_ops example_store) get_all_blob_ids False empty_db k
      = (r, db', k')"
    by (metis prod_cases3)
  have f: "faults empty_db = []" by (simp add: empty_db_def)
  have m: "messages empty_db = []" by (simp add: empty_db_def)
  obtain s where "r = Inr s" using gc_removes_orphans [OF k(1,2) f run] by blast
  moreover have "fs_content example_store k' (blob_id b) = None"
    using gc_removes_orphans [OF k(1,2) f run] by (simp add: m)
  ultimately show ?thesis using k(3) run by blast
qed

text \<open>
  C15. The two writes of \<open>Store\<close> are not atomic: a collection that runs after the blob is
  written and before its row is inserted deletes the blob, and the message is left without
  content although both calls succeed.
\<close>

theorem gc_store_race:
  assumes "fs_store_inv st k" and "disk_faults k = []" and "faults db = []" and "wf_db db"
    and "fs_put_blob st rnd now (Some bytes) k = (Inr b, k1)"
    and "blob_id b \<notin> msg_blob_id ` set (messages db)"
    and "garbage_collect (fs_blob_ops st) get_all_blob_ids False db k1 = (r, db1, k2)"
    and "msg_blob_id m = blob_id b" and "message_repo_create m db1 = (Inr (), db2)"
  shows "\<exists>e. fst (message_get_content (fs_blob_ops st) (msg_id m) db2 k2) = Inl e"
proof -
  have put: "bs_put (fs_blob_ops st) rnd now (Some bytes) k = (Inr b, k1)"
    using assms(5) by (simp add: fs_blob_ops_def)
  have k1: "fs_store_inv st k1" "disk_faults k1 = []"
    using fs_put_no_faults [OF assms(1,2,5)] by simp_all
  have gone: "fs_content st k2 (blob_id b) = None"
    using fsblob.gc_race [OF assms(1) put _ assms(3,6,7)] k1(2) by (simp add: fs_reliable_def)
  have inv2: "fs_store_inv st k2" using fsblob.gc_safe [OF k1(1) assms(7)] by simp
  have "db1 = db"
    using assms(3,7) by (auto simp: garbage_collect_def fsblob.get_all_blob_ids_eq
        split: prod.splits sum.splits)
  then have "wf_db db2"
    using wf_message_repo_create [OF assms(4), of m] assms(9) by simp
  then have f: "find (\<lambda>x. msg_id x = msg_id m) (messages db2) = Some m"
    using message_repo_create_Inr [OF assms(9)] by (intro find_key_Some) (simp_all add: wf_db_def wf_defs)
  obtain rg k3 where g: "fs_get_blob st (blob_id b) k2 = (rg, k3)" by fastforce
  have "isl rg" using fs_get_law [OF inv2 g] gone by (cases rg) auto
  then show ?thesis
    using f g assms(8)
    by (auto simp: message_get_content_def sql_simps fs_blob_ops_def split: sum.splits)
qed

theorem gc_store_race_witness:
  "\<exists>db b k1 k2 m db2. fst (message_repo_create m db) = Inr () \<and>
     fs_put_blob example_store 7 0 (Some ''mail'') example_blob_disk = (Inr b, k1) \<and>
     msg_blob_id m = blob_id b \<and>
     (\<exists>e. fst (message_get_content (fs_blob_ops example_store) (msg_id m) db2 k2) = Inl e)"
proof -
  obtain a db1 where wf: "wf_db db1" and f: "faults db1 = []"
    and tab: "mailboxes db1 = [a\<lparr>mb_domain_name := ''''\<rparr>]" and a: "mb_id a = 5"
    by (rule example_account)
  let ?db = "db1\<lparr>messages := []\<rparr>"
  have wf': "wf_db ?db" using wf by (simp add: sql_simps wf_messages_def ref_def)
  obtain b k where put: "fs_put_blob example_store 7 0 (Some ''mail'') example_blob_disk = (Inr b, k)"
    by (rule example_put)
  obtain r db2 k2 where gc: "garbage_collect (fs_blob_ops example_store) get_all_blob_ids False ?db k
      = (r, db2, k2)"
    by (metis prod_cases3)
  let ?m = "example_message 1 5 (blob_id b)"
  have "db2 = ?db"
    using f gc by (auto simp: garbage_collect_def fsblob.get_all_blob_ids_eq split: prod.splits sum.splits)
  moreover obtain db3 where cr: "message_repo_create ?m ?db = (Inr (), db3)"
    using f tab a by (simp add: message_repo_create_def message_constraints_def sql_simps example_message_def)
  moreover have nf: "disk_faults example_blob_disk = []" by (simp add: example_blob_disk_def)
  ultimately have "\<exists>e. fst (message_get_content (fs_blob_ops example_store) (msg_id ?m) db3 k2) = Inl e"
    using gc_store_race [OF example_store_inv nf _ wf' put _ gc, of ?m db3] f by (simp add: example_message_def)
  with put cr show ?thesis
    by (intro exI [of _ ?db] exI [of _ b] exI [of _ k] exI [of _ k2] exI [of _ ?m] exI [of _ db3])
      (simp add: example_message_def)
qed

end
