(* ===== verification/Quota.thy ===== *)
theory Quota
  imports Mailbox_Props Go_Numbers
begin

text \<open>
  The package \<open>internal/quota\<close>: the walk that adds up the sizes of the messages of a Maildir,
  the classification of the usage (in \<open>float64\<close>, as the code computes it), and the service
  that reads, checks, reconciles and changes the quota of a mailbox. The service asks whether
  its provisioner is the filesystem one; \<open>None\<close> stands for any other.
\<close>

section \<open>Data\<close>

definition err_quota_exceeded :: err where
  "err_quota_exceeded = Sentinel ''quota'' ''ErrQuotaExceeded''"

lemmas [errs] = err_quota_exceeded_def

definition status_ok :: string where "status_ok = ''OK''"
definition status_warning :: string where "status_warning = ''WARNING''"
definition status_critical :: string where "status_critical = ''CRITICAL''"
definition status_full :: string where "status_full = ''FULL''"

record mailbox_quota =
  mq_mailbox_id :: uuid
  mq_email :: string
  mq_used_bytes :: int
  mq_quota_bytes :: int
  mq_usage_percent :: rat
  mq_status :: string
  mq_is_exceeded :: bool
  mq_message_count :: int

record storage_scan =
  total_bytes :: int
  message_count :: int

section \<open>Scanning a Maildir\<close>

text \<open>
  \<open>filepath.Walk\<close> reads a directory, then looks at each entry in order of its name; an entry
  or a directory that cannot be read is skipped, because the callback returns \<open>nil\<close> for it.
  The counter of \<open>scan_node\<close> bounds the depth; the walk starts with one more than the length
  of the longest path, so that it is never used up.
\<close>

definition counted :: "string \<Rightarrow> bool" where
  "counted name \<longleftrightarrow> \<not> has_prefix name ''dovecot'' \<and> \<not> has_prefix name ''maildirsize'' \<and>
     \<not> has_prefix name ''.''"

definition visit :: "string \<Rightarrow> string \<Rightarrow> storage_scan \<Rightarrow> storage_scan" where
  "visit name content acc =
     (if counted name
      then acc\<lparr>total_bytes := total_bytes acc + int (length content),
               message_count := message_count acc + 1\<rparr>
      else acc)"

fun scan_node :: "nat \<Rightarrow> path \<Rightarrow> node \<Rightarrow> disk \<Rightarrow> storage_scan \<Rightarrow> storage_scan \<times> disk"
  and scan_list :: "nat \<Rightarrow> path \<Rightarrow> string list \<Rightarrow> disk \<Rightarrow> storage_scan \<Rightarrow> storage_scan \<times> disk" where
  "scan_node n p (File m ow c t) k acc = (visit (last p) c acc, k)"
| "scan_node 0 p (Dir m ow) k acc = (acc, k)"
| "scan_node (Suc n) p (Dir m ow) k acc =
     (case os_read_dir p k of
        (Inl err, k1) \<Rightarrow> (acc, k1)
      | (Inr entries, k1) \<Rightarrow> scan_list n p (map fst entries) k1 acc)"
| "scan_list n p [] k acc = (acc, k)"
| "scan_list n p (w # ws) k acc =
     (case os_stat (p @ [w]) k of
        (Inl err, k1) \<Rightarrow> scan_list n p ws k1 acc
      | (Inr nd, k1) \<Rightarrow>
          (case scan_node n (p @ [w]) nd k1 acc of
             (acc1, k2) \<Rightarrow> scan_list n p ws k2 acc1))"

definition walk_depth :: "disk \<Rightarrow> nat" where
  "walk_depth k = Suc (Max (insert 0 ((\<lambda>(q, n). length q) ` set (files k))))"

text \<open>The first \<open>os.Stat\<close> decides about errors, \<open>Walk\<close> then looks at the root itself.\<close>

definition calculate_maildir_usage :: "path \<Rightarrow> disk \<Rightarrow> storage_scan result \<times> disk" where
  "calculate_maildir_usage p k =
     (let zero = \<lparr>total_bytes = 0, message_count = 0\<rparr>
      in case os_stat p k of
           (Inl err, k1) \<Rightarrow> (if err = err_not_exist then (Inr zero, k1) else (Inl err, k1))
         | (Inr nd, k1) \<Rightarrow>
             (case os_stat p k1 of
                (Inl err, k2) \<Rightarrow> (Inr zero, k2)
              | (Inr nd', k2) \<Rightarrow>
                  (case scan_node (walk_depth k2) p nd' k2 zero of
                     (acc, k3) \<Rightarrow> (Inr acc, k3))))"

section \<open>Classification\<close>

definition compute_status :: "int \<Rightarrow> int \<Rightarrow> string \<times> rat \<times> bool" where
  "compute_status used quota =
     (if quota \<le> 0 then (status_ok, 0, False)
      else let pct = float_mul (float_div (float_of_int used) (float_of_int quota)) 100
           in if 100 \<le> pct then (status_full, pct, True)
              else if 90 \<le> pct then (status_critical, pct, False)
              else if 80 \<le> pct then (status_warning, pct, False)
              else (status_ok, pct, False))"

section \<open>Service\<close>

definition quota_view :: "mailbox \<Rightarrow> int \<Rightarrow> int \<Rightarrow> mailbox_quota" where
  "quota_view mb used count =
     (case compute_status used (mb_quota_bytes mb) of (st, pct, exceeded) \<Rightarrow>
        \<lparr>mq_mailbox_id = mb_id mb, mq_email = mb_email mb, mq_used_bytes = used,
         mq_quota_bytes = mb_quota_bytes mb, mq_usage_percent = pct, mq_status = st,
         mq_is_exceeded = exceeded, mq_message_count = count\<rparr>)"

definition get_quota :: "string \<Rightarrow> db \<Rightarrow> mailbox_quota result \<times> db" where
  "get_quota em db =
     (let email = to_lower (trim_space em)
      in case mailbox_get_by_email email db of
           (Inl err, db1) \<Rightarrow> (Inl err, db1)
         | (Inr mb, db1) \<Rightarrow> (Inr (quota_view mb (mb_used_bytes mb) 0), db1))"

definition check_can_accept :: "string \<Rightarrow> int \<Rightarrow> db \<Rightarrow> bool result \<times> db" where
  "check_can_accept em incoming db =
     (case get_quota em db of
        (Inl err, db1) \<Rightarrow> (Inl err, db1)
      | (Inr q, db1) \<Rightarrow>
          (if 0 < mq_quota_bytes q \<and> mq_quota_bytes q < wrap64 (mq_used_bytes q + incoming)
           then (Inl err_quota_exceeded, db1) else (Inr True, db1)))"

text \<open>The scan of \<open>Reconcile\<close>: its errors, and a missing provisioner, leave the zero result.\<close>

definition reconcile_scan :: "fs_provisioner option \<Rightarrow> string \<Rightarrow> disk \<Rightarrow> storage_scan \<times> disk" where
  "reconcile_scan prov email k =
     (let zero = \<lparr>total_bytes = 0, message_count = 0\<rparr>
      in case prov of
           None \<Rightarrow> (zero, k)
         | Some p \<Rightarrow>
             (case calculate_path (prov_root p) email of
                Inl err \<Rightarrow> (zero, k)
              | Inr maildir \<Rightarrow>
                  (case calculate_maildir_usage maildir k of
                     (Inl err, k1) \<Rightarrow> (zero, k1)
                   | (Inr scan, k1) \<Rightarrow> (scan, k1))))"

definition reconcile ::
    "fs_provisioner option \<Rightarrow> instant \<Rightarrow> string \<Rightarrow> db \<Rightarrow> disk \<Rightarrow> mailbox_quota result \<times> db \<times> disk" where
  "reconcile prov now em db k =
     (let email = to_lower (trim_space em)
      in case mailbox_get_by_email email db of
           (Inl err, db1) \<Rightarrow> (Inl err, db1, k)
         | (Inr mb, db1) \<Rightarrow>
             (case reconcile_scan prov email k of (scan, k1) \<Rightarrow>
                (Inr (quota_view mb (total_bytes scan) (message_count scan)),
                 snd (update_used_bytes now (mb_id mb) (total_bytes scan) db1), k1)))"

definition update_quota :: "instant \<Rightarrow> string \<Rightarrow> int \<Rightarrow> db \<Rightarrow> mailbox_quota result \<times> db" where
  "update_quota now em quota db =
     (let email = to_lower (trim_space em)
      in case mailbox_get_by_email email db of
           (Inl err, db1) \<Rightarrow> (Inl err, db1)
         | (Inr mb, db1) \<Rightarrow>
             (case update_quota_bytes now (mb_id mb) (if quota \<le> 0 then 1073741824 else quota) db1 of
                (Inl err, db2) \<Rightarrow> (Inl err, db2)
              | (Inr u, db2) \<Rightarrow> get_quota email db2))"

section \<open>The classification is exact for real sizes\<close>

lemma thresholds:
  "float_mul (fl (4 / 5)) 100 = 80" "float_mul (fl (9 / 10)) 100 = 90" "float_mul (fl 1) 100 = 100"
  "float_mul (fl (4 / 5 - 1 / (5 * 2 ^ 40))) 100 < 80"
  "float_mul (fl (9 / 10 - 1 / (10 * 2 ^ 40))) 100 < 90"
  "float_mul (fl (1 - 1 / (2 ^ 40))) 100 < 100"
  by code_simp+

lemma percent_mono: "x \<le> y \<Longrightarrow> float_mul (fl x) 100 \<le> float_mul (fl y) 100"
  by (simp add: float_mul_def fl_mono)

lemma usage_at_least:
  assumes "0 < q" and "q \<le> 2 ^ 40" and "0 \<le> u" and "a * q \<le> b * u" and "0 < a" and "a \<le> b"
  shows "float_mul (fl (of_int a / of_int b)) 100 \<le>
    float_mul (float_div (float_of_int u) (float_of_int q)) 100"
proof -
  define v where "v = min u (2 ^ 53)"
  have v: "\<bar>v\<bar> \<le> 2 ^ 53" "v \<le> u" using assms(3) by (auto simp: v_def)
  have "a * q \<le> b * v"
  proof (cases "u \<le> 2 ^ 53")
    case True
    then show ?thesis using assms(4) by (simp add: v_def)
  next
    case False
    have "a * q \<le> b * 2 ^ 53"
      using assms by (intro mult_mono) auto
    then show ?thesis using False by (simp add: v_def)
  qed
  then have "(of_int (a * q) :: rat) \<le> of_int (b * v)" by (simp only: of_int_le_iff)
  then have "(of_int a / of_int b :: rat) \<le> of_int v / of_int q"
    using assms by (simp add: field_simps)
  moreover have "(of_int v :: rat) \<le> float_of_int u"
    using float_of_int_mono [OF v(2)] float_of_int_exact [OF v(1)] by simp
  moreover have "float_of_int q = of_int q" by (rule float_of_int_exact) (use assms in simp)
  ultimately have "(of_int a / of_int b :: rat) \<le> float_of_int u / float_of_int q"
    using assms(1) divide_right_mono [of "of_int v" "float_of_int u" "of_int q :: rat"]
    by (simp add: order_trans)
  then show ?thesis unfolding float_div_def by (rule percent_mono)
qed

lemma usage_below:
  assumes "0 < q" and "q \<le> 2 ^ 40" and "0 \<le> u" and "b * u < a * q" and "0 < a" and "a \<le> b"
  shows "float_mul (float_div (float_of_int u) (float_of_int q)) 100 \<le>
    float_mul (fl (of_int a / of_int b - 1 / (of_int b * 2 ^ 40))) 100"
proof -
  have "b * u < b * q" using assms by (intro less_le_trans [OF assms(4)] mult_right_mono) auto
  then have uq: "u < q" using assms by simp
  have f: "float_of_int u = of_int u" "float_of_int q = of_int q"
    by (rule float_of_int_exact; use assms uq in simp)+
  have q: "(0::rat) < of_int q" "(of_int q :: rat) \<le> 2 ^ 40" and b: "(0::rat) < of_int b"
    using assms of_int_le_iff [of q "2 ^ 40", where 'a = rat] by auto
  have "b * u + 1 \<le> a * q" using assms(4) by simp
  then have "(of_int (b * u + 1) :: rat) \<le> of_int (a * q)" by (simp only: of_int_le_iff)
  then have "(of_int u / of_int q :: rat) \<le> of_int a / of_int b - 1 / (of_int b * of_int q)"
    using q b by (simp add: field_simps)
  also have "\<dots> \<le> of_int a / of_int b - 1 / (of_int b * 2 ^ 40)"
    using q b by (intro diff_left_mono divide_left_mono mult_left_mono) auto
  finally show ?thesis unfolding float_div_def f by (rule percent_mono)
qed

section \<open>The walk adds up the messages of the Maildir\<close>

text \<open>
  What the walk should count: the files below a path whose name is not that of a control
  file. A tree is a table without duplicates in which the parent of every path is a
  directory.
\<close>

definition mail_files :: "fs \<Rightarrow> path \<Rightarrow> path set" where
  "mail_files t p = {q \<in> fst ` set t. below p q \<and> is_file t q \<and> counted (last q)}"

definition file_size :: "fs \<Rightarrow> path \<Rightarrow> int" where
  "file_size t q = (case fs_stat t q of Some (File m ow c tm) \<Rightarrow> int (length c) | _ \<Rightarrow> 0)"

definition fs_tree :: "fs \<Rightarrow> bool" where
  "fs_tree t \<longleftrightarrow> distinct (map fst t) \<and>
     (\<forall>q. fs_stat t q \<noteq> None \<longrightarrow> butlast q \<noteq> [] \<longrightarrow> is_dir t (butlast q))"

definition add_files :: "fs \<Rightarrow> path set \<Rightarrow> storage_scan \<Rightarrow> storage_scan" where
  "add_files t A acc =
     acc\<lparr>total_bytes := total_bytes acc + sum (file_size t) A,
         message_count := message_count acc + int (card A)\<rparr>"

lemma finite_mail_files [simp]: "finite (mail_files t p)"
  by (simp add: mail_files_def)

lemma stat_in_table: "fs_stat t q \<noteq> None \<longleftrightarrow> q \<in> fst ` set t"
  unfolding fs_stat_def by (metis map_of_eq_None_iff)

lemma tree_prefix:
  assumes "fs_tree t" and "p \<noteq> []"
  shows "r \<noteq> [] \<Longrightarrow> fs_stat t (p @ r) \<noteq> None \<Longrightarrow> is_dir t p"
proof (induction r rule: rev_induct)
  case (snoc w r)
  then have "is_dir t (p @ r)"
    using assms unfolding fs_tree_def by (metis append_is_Nil_conv butlast_snoc append_assoc)
  then show ?case
    using snoc.IH by (cases "r = []") (auto simp: is_dir_def split: option.splits)
qed simp

lemma add_files_simps [simp]:
  "add_files t {} acc = acc"
  "add_files t {q} acc =
     acc\<lparr>total_bytes := total_bytes acc + file_size t q, message_count := message_count acc + 1\<rparr>"
  by (simp_all add: add_files_def)

lemma add_files_Un:
  "finite A \<Longrightarrow> finite B \<Longrightarrow> A \<inter> B = {} \<Longrightarrow> add_files t B (add_files t A acc) = add_files t (A \<union> B) acc"
  by (simp add: add_files_def sum.union_disjoint card_Un_disjoint add.assoc)

lemma mail_filesD: "q \<in> mail_files t p \<Longrightarrow> \<exists>r. q = p @ r \<and> fs_stat t (p @ r) \<noteq> None"
  by (force simp: mail_files_def below_iff is_file_def split: option.splits)

lemma mail_files_file:
  assumes "fs_tree t" and "p \<noteq> []" and "fs_stat t p = Some (File m ow c tm)"
  shows "mail_files t p = (if counted (last p) then {p} else {})"
proof -
  have "q = p" if "q \<in> mail_files t p" for q
  proof -
    from that obtain r where r: "q = p @ r" "fs_stat t (p @ r) \<noteq> None"
      using mail_filesD by blast
    show ?thesis
    proof (cases "r = []")
      case False
      from tree_prefix [OF assms(1,2) this r(2)] assms(3) show ?thesis by (simp add: is_dir_def)
    qed (use r in simp)
  qed
  moreover have "p \<in> mail_files t p \<longleftrightarrow> counted (last p)"
    using assms(3) stat_in_table [of t p] by (simp add: mail_files_def is_file_def)
  ultimately show ?thesis by auto
qed

lemma mail_files_dir:
  assumes "fs_tree t" and "fs_stat t p = Some (Dir m ow)"
  shows "mail_files t p = (\<Union>w\<in>fst ` set (fs_entries t p). mail_files t (p @ [w]))"
proof (intro set_eqI iffI)
  fix q assume "q \<in> mail_files t p"
  then have q: "q \<in> fst ` set t" "is_file t q" "counted (last q)" and "below p q"
    by (auto simp: mail_files_def)
  then obtain r0 where r0: "q = p @ r0" by (auto simp: below_iff)
  have "r0 \<noteq> []" using q(2) assms(2) r0 by (auto simp: is_file_def)
  with r0 obtain w r where r: "q = p @ w # r" by (cases r0) auto
  have "fs_stat t (p @ [w]) \<noteq> None"
  proof (cases "r = []")
    case True
    then show ?thesis using q(1) r stat_in_table [of t q] by simp
  next
    case False
    have "fs_stat t ((p @ [w]) @ r) \<noteq> None" using q(1) r stat_in_table [of t q] by simp
    from tree_prefix [OF assms(1) _ False this] show ?thesis
      by (auto simp: is_dir_def split: option.splits)
  qed
  then obtain n where "(w, n) \<in> set (fs_entries t p)"
    using assms(1) by (auto simp: fs_tree_def fs_entries_iff)
  moreover have "q \<in> mail_files t (p @ [w])"
    using q r by (auto simp: mail_files_def below_iff)
  ultimately show "q \<in> (\<Union>w\<in>fst ` set (fs_entries t p). mail_files t (p @ [w]))" by force
next
  fix q assume "q \<in> (\<Union>w\<in>fst ` set (fs_entries t p). mail_files t (p @ [w]))"
  then show "q \<in> mail_files t p" by (auto simp: mail_files_def below_iff)
qed

lemma mail_files_disjoint: "w \<notin> W \<Longrightarrow> mail_files t (p @ [w]) \<inter> (\<Union>v\<in>W. mail_files t (p @ [v])) = {}"
  by (auto simp: mail_files_def below_iff)

lemma scan_spec:
  "fs_tree (files k) \<Longrightarrow> disk_faults k = [] \<Longrightarrow> p \<noteq> [] \<Longrightarrow> fs_stat (files k) p = Some nd \<Longrightarrow>
     \<forall>q\<in>fst ` set (files k). length q < length p + n \<Longrightarrow>
     scan_node n p nd k acc = (add_files (files k) (mail_files (files k) p) acc, k)"
  "fs_tree (files k) \<Longrightarrow> disk_faults k = [] \<Longrightarrow> distinct ws \<Longrightarrow>
     \<forall>w\<in>set ws. fs_stat (files k) (p @ [w]) \<noteq> None \<Longrightarrow>
     \<forall>q\<in>fst ` set (files k). length q < length p + 1 + n \<Longrightarrow>
     scan_list n p ws k acc =
       (add_files (files k) (\<Union>w\<in>set ws. mail_files (files k) (p @ [w])) acc, k)"
proof (induction n p nd k acc and n p ws k acc rule: scan_node_scan_list.induct)
  case (1 n p m ow c t k acc)
  then show ?case by (simp add: visit_def mail_files_file file_size_def)
next
  case (2 p m ow k acc)
  then have "p \<in> fst ` set (files k)" using stat_in_table [of "files k" p] by simp
  with 2 show ?case by auto
next
  case (3 n p m ow k acc)
  have es: "os_read_dir p k = (Inr (fs_entries (files k) p), k)"
    using 3 by (simp add: os_simps)
  have "distinct (map fst (fs_entries (files k) p))"
    using 3 distinct_fs_entries [of "files k" p] by (simp add: fs_tree_def)
  moreover have "\<forall>w\<in>set (map fst (fs_entries (files k) p)). fs_stat (files k) (p @ [w]) \<noteq> None"
    using 3 by (auto simp: fs_tree_def fs_entries_iff)
  ultimately show ?case
    using 3 es mail_files_dir [of "files k" p m ow] by simp
next
  case (4 n p k acc)
  then show ?case by simp
next
  case (5 n p w ws k acc)
  then obtain nd where nd: "fs_stat (files k) (p @ [w]) = Some nd" by auto
  have st: "os_stat (p @ [w]) k = (Inr nd, k)" using 5 nd by (simp add: os_simps)
  have d: "w \<notin> set ws" using 5 by simp
  show ?case
    using 5 st nd add_files_Un [OF _ _ mail_files_disjoint [OF d]] by simp
qed

lemma walk_depth_enough: "\<forall>q\<in>fst ` set (files k). length q < length p + walk_depth k"
proof
  fix q assume "q \<in> fst ` set (files k)"
  then have "length q \<in> (\<lambda>(q, n). length q) ` set (files k)" by force
  then have "length q \<le> Max (insert 0 ((\<lambda>(q, n). length q) ` set (files k)))"
    by (intro Max_ge) simp_all
  then show "length q < length p + walk_depth k" unfolding walk_depth_def by linarith
qed

text \<open>On a working disk the usage is that of exactly the messages below the Maildir.\<close>

lemma maildir_usage:
  assumes "fs_tree (files k)" and "disk_faults k = []" and "p \<noteq> []"
  shows "calculate_maildir_usage p k =
    (Inr \<lparr>total_bytes = sum (file_size (files k)) (mail_files (files k) p),
          message_count = int (card (mail_files (files k) p))\<rparr>, k)"
proof (cases "fs_stat (files k) p")
  case None
  have "mail_files (files k) p = {}"
  proof -
    have False if q: "q \<in> mail_files (files k) p" for q
    proof -
      from q obtain r where r: "q = p @ r" "fs_stat (files k) (p @ r) \<noteq> None"
        using mail_filesD by blast
      with None have "r \<noteq> []" by auto
      from tree_prefix [OF assms(1,3) this r(2)] None show False by (simp add: is_dir_def)
    qed
    then show ?thesis by blast
  qed
  with None assms(2) show ?thesis
    by (simp add: calculate_maildir_usage_def os_simps errs)
next
  case (Some nd)
  note b = walk_depth_enough [of k p]
  have st: "os_stat p k = (Inr nd, k)" using Some assms(2) by (simp add: os_simps)
  show ?thesis
    using scan_spec(1) [OF assms(1-3) Some b]
    by (simp add: calculate_maildir_usage_def st add_files_def)
qed

section \<open>Facts about the service\<close>

lemma get_quota_row:
  assumes "wf_db db" and "faults db = []" and "m0 \<in> set (mailboxes db)" and "mb_email m0 = canon em"
  shows "get_quota em db = (Inr (quota_view m0 (mb_used_bytes m0) 0), db)"
proof -
  obtain d :: domain where
    "find (\<lambda>m. mb_email m = mb_email m0) (mailbox_rows db) = Some (m0\<lparr>mb_domain_name := dom_name d\<rparr>)"
    by (rule find_row [OF assms(1,3)]) blast
  then show ?thesis
    by (simp add: get_quota_def canon_alt assms(2,4) sql_simps quota_view_def)
qed

lemma quota_view_simps [simp]:
  "mq_used_bytes (quota_view m u c) = u" "mq_quota_bytes (quota_view m u c) = mb_quota_bytes m"
  "mq_message_count (quota_view m u c) = c" "mq_mailbox_id (quota_view m u c) = mb_id m"
  by (simp_all add: quota_view_def split: prod.splits)

lemma quota_view_cong:
  "mb_id m = mb_id m' \<Longrightarrow> mb_email m = mb_email m' \<Longrightarrow> mb_quota_bytes m = mb_quota_bytes m' \<Longrightarrow>
     quota_view m = quota_view m'"
  by (simp add: quota_view_def fun_eq_iff)

text \<open>An update of one mailbox changes that row and no other.\<close>

lemma mailbox_update_row:
  assumes "wf_db db" and "faults db = []" and "m0 \<in> set (mailboxes db)"
  shows "mailbox_update msg f now (mb_id m0) db =
    (Inr (), db\<lparr>mailboxes := map (\<lambda>m. if m = m0 then (f m)\<lparr>mb_updated_at := now\<rparr> else m) (mailboxes db)\<rparr>)"
proof -
  have "m = m0" if "m \<in> set (mailboxes db)" "mb_id m = mb_id m0" for m
    using assms(1,3) that distinct_key_eq [of mb_id "mailboxes db" m m0] by (simp add: wf_db_def wf_defs)
  then have "update_where (\<lambda>m. mb_id m = mb_id m0) g (mailboxes db) =
      map (\<lambda>m. if m = m0 then g m else m) (mailboxes db)" for g
    unfolding update_where_def by (intro map_cong refl) auto
  moreover have "affected (\<lambda>m. mb_id m = mb_id m0) (mailboxes db) \<noteq> 0"
    using assms(3) by (auto simp: tbl_simps)
  ultimately show ?thesis
    by (simp add: mailbox_update_def sql_simps assms(2))
qed

lemma wf_update_used [wf_ops]:
  "wf_db db \<Longrightarrow> reconcile prov now em db k = (r, db', k') \<Longrightarrow> wf_db db'"
  by (auto simp: reconcile_def Let_def sql_simps wf_mailbox_updates
      split: option.splits if_splits prod.splits)

section \<open>Properties\<close>

text \<open>
  C16. Up to a quota of one tebibyte the rounding of \<open>float64\<close> never shows: the status is what
  exact arithmetic says of the thresholds 80, 90 and 100 percent, and the mailbox counts as
  exceeded exactly when the quota is used up.
\<close>

theorem quota_status_exact:
  assumes "0 < q" and "q \<le> 2 ^ 40" and "0 \<le> u"
  shows "fst (compute_status u q) =
      (if q \<le> u then status_full else if 9 * q \<le> 10 * u then status_critical
       else if 4 * q \<le> 5 * u then status_warning else status_ok) \<and>
    (snd (snd (compute_status u q)) \<longleftrightarrow> q \<le> u)"
proof -
  let ?p = "float_mul (float_div (float_of_int u) (float_of_int q)) 100"
  note T = thresholds
  have "100 \<le> ?p \<longleftrightarrow> q \<le> u"
    using usage_at_least [OF assms, of 1 1] usage_below [OF assms, of 1 1] T(3,6) by fastforce
  moreover have "90 \<le> ?p \<longleftrightarrow> 9 * q \<le> 10 * u"
    using usage_at_least [OF assms, of 9 10] usage_below [OF assms, of 10 9] T(2,5) by fastforce
  moreover have "80 \<le> ?p \<longleftrightarrow> 4 * q \<le> 5 * u"
    using usage_at_least [OF assms, of 4 5] usage_below [OF assms, of 5 4] T(1,4) by fastforce
  ultimately show ?thesis
    using assms(1) by (simp add: compute_status_def Let_def)
qed

theorem quota_status_exact_witness:
  "fst (compute_status 966367642 1073741824) = status_critical \<and>
   fst (compute_status 966367641 1073741824) = status_warning"
  using quota_status_exact [of 1073741824 966367642] quota_status_exact [of 1073741824 966367641]
  by simp

text \<open>
  C17. What \<open>CheckCanAccept\<close> decides for an existing mailbox: it refuses exactly the messages
  that do not fit, except those for which the sum wraps around in \<open>int64\<close>, which it accepts.
\<close>

theorem quota_check_decides:
  assumes "wf_db db" and "faults db = []" and "m0 \<in> set (mailboxes db)" and "mb_email m0 = canon em"
    and "0 \<le> mb_used_bytes m0" and "mb_used_bytes m0 < 2 ^ 63" and "0 \<le> n" and "n < 2 ^ 63"
  shows "check_can_accept em n db =
    ((if 0 < mb_quota_bytes m0 \<and> mb_quota_bytes m0 < mb_used_bytes m0 + n \<and>
         mb_used_bytes m0 + n < 2 ^ 63
      then Inl err_quota_exceeded else Inr True), db)"
proof (cases "mb_used_bytes m0 + n < 2 ^ 63")
  case True
  then show ?thesis
    using wrap64_id [of "mb_used_bytes m0 + n"] assms(5,7)
    by (simp add: check_can_accept_def get_quota_row [OF assms(1-4)])
next
  case False
  then have "wrap64 (mb_used_bytes m0 + n) < 0"
    using wrap64_over [of "mb_used_bytes m0 + n"] assms(6,8) by simp
  with False show ?thesis
    by (simp add: check_can_accept_def get_quota_row [OF assms(1-4)])
qed

definition example_mailbox :: mailbox where
  "example_mailbox =
     \<lparr>mb_id = 5, mb_domain_id = 1, mb_email = ''ann@example.org'', mb_password_hash = '''',
      mb_quota_bytes = 1000, mb_used_bytes = 900, mb_status = ''active'',
      mb_provisioning_status = ''ready'', mb_identity_provider = ''local'', mb_created_at = 0,
      mb_updated_at = 0, mb_domain_name = ''''\<rparr>"

definition example_mail_db :: db where
  "example_mail_db = example_db\<lparr>mailboxes := [example_mailbox]\<rparr>"

lemma example_mail_db:
  "wf_db example_mail_db" "faults example_mail_db = []" "example_mailbox \<in> set (mailboxes example_mail_db)"
  "mb_email example_mailbox = canon ''Ann@Example.org''"
proof -
  show "mb_email example_mailbox = canon ''Ann@Example.org''" by code_simp
qed (simp_all add: example_mail_db_def example_mailbox_def example_db_def example_domain_def
    empty_db_def wf_db_def wf_defs ref_def)

theorem quota_check_decides_witness:
  "fst (check_can_accept ''Ann@Example.org'' 101 example_mail_db) = Inl err_quota_exceeded \<and>
   fst (check_can_accept ''Ann@Example.org'' (2 ^ 63 - 1) example_mail_db) = Inr True"
  using quota_check_decides [OF example_mail_db, of 101]
    quota_check_decides [OF example_mail_db, of "2 ^ 63 - 1"]
  by (simp add: example_mailbox_def)

text \<open>
  C18. Reconciliation on a working disk and database stores the sizes of exactly the messages
  below the mailbox's Maildir in its row and in no other, and the quota read afterwards agrees
  with the one returned, but for the number of messages.
\<close>

theorem reconcile_effect:
  assumes "wf_db db" and "faults db = []" and "m0 \<in> set (mailboxes db)" and "mb_email m0 = canon em"
    and "fs_tree (files k)" and "disk_faults k = []"
    and "calculate_path (prov_root p) (canon em) = Inr mdir"
  shows "\<exists>q db'. reconcile (Some p) now em db k = (Inr q, db', k) \<and>
    mq_used_bytes q = sum (file_size (files k)) (mail_files (files k) mdir) \<and>
    mailboxes db' = map (\<lambda>m. if m = m0
        then m\<lparr>mb_used_bytes := mq_used_bytes q, mb_updated_at := now\<rparr> else m) (mailboxes db) \<and>
    get_quota em db' = (Inr (q\<lparr>mq_message_count := 0\<rparr>), db')"
proof -
  have "mdir \<noteq> []" using assms(7) by (elim calculate_path_Inr) auto
  note use = maildir_usage [OF assms(5,6) this]
  let ?n = "sum (file_size (files k)) (mail_files (files k) mdir)"
  let ?c = "int (card (mail_files (files k) mdir))"
  let ?f = "\<lambda>m. if m = m0 then m\<lparr>mb_used_bytes := ?n, mb_updated_at := now\<rparr> else m"
  define db' where "db' = snd (update_used_bytes now (mb_id m0) ?n db)"
  obtain d :: domain where row:
    "find (\<lambda>m. mb_email m = mb_email m0) (mailbox_rows db) = Some (m0\<lparr>mb_domain_name := dom_name d\<rparr>)"
    by (rule find_row [OF assms(1,3)]) blast
  have run: "reconcile (Some p) now em db k = (Inr (quota_view m0 ?n ?c), db', k)"
    using row assms(2,4) quota_view_cong [of "m0\<lparr>mb_domain_name := dom_name d\<rparr>" m0]
    by (simp add: reconcile_def canon_alt sql_simps reconcile_scan_def assms(7) use db'_def)
  have db': "db' = db\<lparr>mailboxes := map ?f (mailboxes db)\<rparr>"
    unfolding db'_def update_used_bytes_def
    by (simp add: mailbox_update_row [OF assms(1-3)])
  have wf': "wf_db db'" unfolding db'_def by (rule wf_mailbox_updates(5) [OF assms(1)])
  have "?f m0 \<in> set (mailboxes db')" using assms(3) by (simp only: db') force
  from get_quota_row [OF wf' _ this, of em] assms(2,4) have
    "get_quota em db' = (Inr ((quota_view m0 ?n ?c)\<lparr>mq_message_count := 0\<rparr>), db')"
    by (simp add: db' quota_view_def split: prod.splits)
  with run show ?thesis by (intro exI conjI) (simp_all add: db')
qed

definition example_maildir_disk :: disk where
  "example_maildir_disk =
     \<lparr>files = [([''mail''], Dir 488 (0, 0)), ([''mail'', ''example.org''], Dir 488 (0, 0)),
        ([''mail'', ''example.org'', ''ann''], Dir 488 (0, 0)),
        ([''mail'', ''example.org'', ''ann'', ''Maildir''], Dir 488 (0, 0)),
        ([''mail'', ''example.org'', ''ann'', ''Maildir'', ''cur''], Dir 488 (0, 0)),
        ([''mail'', ''example.org'', ''ann'', ''Maildir'', ''cur'', ''1.m''], File 384 (0, 0) ''hello'' 0),
        ([''mail'', ''example.org'', ''ann'', ''Maildir'', ''dovecot.index''], File 384 (0, 0) ''xx'' 0)],
      proc_owner = (0, 0), privileged = True, disk_now = 0, disk_faults = [], disk_torn = []\<rparr>"

definition example_prov :: fs_provisioner where
  "example_prov = \<lparr>prov_root = [''mail''], prov_uid = 5000, prov_gid = 5000\<rparr>"

theorem reconcile_effect_witness:
  "\<exists>q db'. reconcile (Some example_prov) 9 ''Ann@Example.org'' example_mail_db example_maildir_disk =
     (Inr q, db', example_maildir_disk) \<and> mq_used_bytes q = 5"
proof -
  let ?m = "[''mail'', ''example.org'', ''ann'', ''Maildir'']"
  have "fs_tree (files example_maildir_disk)"
    by (auto simp: fs_tree_def example_maildir_disk_def fs_stat_def is_dir_def split: if_splits)
  moreover have "disk_faults example_maildir_disk = []" by (simp add: example_maildir_disk_def)
  moreover have "calculate_path (prov_root example_prov) (canon ''Ann@Example.org'') = Inr ?m"
    by code_simp
  moreover have "mail_files (files example_maildir_disk) ?m = {?m @ [''cur'', ''1.m'']}"
    by (auto simp: mail_files_def example_maildir_disk_def below_def is_file_def fs_stat_def
        counted_def has_prefix_def)
  moreover have "file_size (files example_maildir_disk) (?m @ [''cur'', ''1.m'']) = 5"
    by (simp add: file_size_def example_maildir_disk_def fs_stat_def)
  ultimately show ?thesis
    using reconcile_effect [OF example_mail_db, of example_maildir_disk example_prov ?m 9] by auto
qed

end
