(* ===== verification/Dkim.thy ===== *)
theory Dkim
  imports Domains Disk Go_Base64 Go_Numbers
begin

text \<open>
  The package \<open>internal/dkim\<close>, definitions: selectors, the key formats and the TXT record,
  the keystore on disk, the repository over \<open>domain_dkim\<close> and \<open>domain_mail_policy\<close>, the
  service, the doctor and the OpenDKIM configuration. RSA key generation and the PEM and DER
  codecs of the standard library are parameters (\<open>rsa_codec\<close>), as is the text of an error.
  The service is written against any keystore.
\<close>

section \<open>Errors and data\<close>

definition err_dkim_key_not_found :: err where
  "err_dkim_key_not_found = Sentinel ''dkim'' ''ErrDKIMKeyNotFound''"

definition err_dkim_key_exists :: err where
  "err_dkim_key_exists = Sentinel ''dkim'' ''ErrDKIMKeyExists''"

definition err_invalid_selector :: err where
  "err_invalid_selector = Sentinel ''dkim'' ''ErrInvalidSelector''"

definition err_invalid_key_bits :: err where
  "err_invalid_key_bits = Sentinel ''dkim'' ''ErrInvalidKeyBits''"

definition err_private_key_not_found :: err where
  "err_private_key_not_found = Sentinel ''dkim'' ''ErrPrivateKeyNotFound''"

definition err_key_mismatch :: err where
  "err_key_mismatch = Sentinel ''dkim'' ''ErrKeyMismatch''"

definition err_policy_not_found :: err where
  "err_policy_not_found = Sentinel ''dkim'' ''ErrPolicyNotFound''"

lemmas [errs] = err_dkim_key_not_found_def err_dkim_key_exists_def err_invalid_selector_def
  err_invalid_key_bits_def err_private_key_not_found_def err_key_mismatch_def
  err_policy_not_found_def

text \<open>
  Keys of \<open>crypto/rsa\<close>: the source reads the modulus and the exponent; \<open>rsa_secret\<close> stands for
  the private exponent and the primes.
\<close>

record rsa_public =
  rsa_n :: nat
  rsa_e :: nat

record rsa_private =
  rsa_pub :: rsa_public
  rsa_secret :: nat

record rsa_codec =
  pem_encode :: "string \<Rightarrow> string \<Rightarrow> string"
  pem_decode :: "string \<Rightarrow> string option"
  marshal_pkcs1 :: "rsa_private \<Rightarrow> string"
  parse_pkcs1 :: "string \<Rightarrow> rsa_private option"
  parse_pkcs8_rsa :: "string \<Rightarrow> rsa_private option"
  marshal_pkix :: "rsa_public \<Rightarrow> string result"
  parse_pkix :: "string \<Rightarrow> rsa_public option result"
  err_text :: "err \<Rightarrow> string"

record keypair =
  private_key_pem :: string
  public_key_pem :: string
  public_key_dns :: string

record dns_record =
  rr_name :: string
  rr_type :: string
  rr_value :: string

record verification_result =
  vr_domain :: string
  vr_selector :: string
  vr_dns_record_found :: bool
  vr_dns_value :: string
  vr_public_key_valid :: bool
  vr_key_matches :: bool
  vr_status :: string
  vr_message :: string

section \<open>Selectors\<close>

definition selector_rx :: rx where
  "selector_rx = Seq (Cls az09) (UpTo 62 (Cls (az09 @ [(CHR ''.'', CHR ''.''), (CHR ''_'', CHR ''_''),
     (CHR ''-'', CHR ''-'')])))"

definition validate_selector :: "string \<Rightarrow> unit result" where
  "validate_selector sel =
     (let selector = trim_space (to_lower sel)
      in if selector = [] then Inl err_invalid_selector
         else if contains selector ''/'' \<or> contains selector [CHR 0x5C] \<or> contains selector ''..''
         then Inl err_invalid_selector
         else if \<not> rx_match selector_rx selector then Inl err_invalid_selector
         else Inr ())"

definition build_dns_name :: "string \<Rightarrow> string \<Rightarrow> string" where
  "build_dns_name domain selector =
     to_lower (trim_space selector) @ ''._domainkey.'' @ to_lower (trim_space domain)"

definition build_dns_txt_value :: "string \<Rightarrow> string" where
  "build_dns_txt_value pub = ''v=DKIM1; k=rsa; p='' @ pub"

section \<open>Keys and the TXT record\<close>

text \<open>\<open>rnd\<close> is the outcome of \<open>rsa.GenerateKey(rand.Reader, bits)\<close>.\<close>

definition generate_rsa_keypair :: "rsa_codec \<Rightarrow> rsa_private result \<Rightarrow> nat \<Rightarrow> keypair result" where
  "generate_rsa_keypair cod rnd bits =
     (if bits \<noteq> 2048 then Inl err_invalid_key_bits
      else (case rnd of
          Inl err \<Rightarrow> Inl (Wrap ''failed to generate rsa key'' err)
        | Inr priv \<Rightarrow>
            let priv_pem = pem_encode cod ''RSA PRIVATE KEY'' (marshal_pkcs1 cod priv)
            in (case marshal_pkix cod (rsa_pub priv) of
                  Inl err \<Rightarrow> Inl (Wrap ''failed to marshal public key'' err)
                | Inr pub_der \<Rightarrow>
                    Inr \<lparr>private_key_pem = priv_pem,
                         public_key_pem = pem_encode cod ''PUBLIC KEY'' pub_der,
                         public_key_dns = b64std_encode pub_der\<rparr>)))"

definition parse_rsa_private_key :: "rsa_codec \<Rightarrow> string \<Rightarrow> rsa_private result" where
  "parse_rsa_private_key cod pem =
     (case pem_decode cod pem of
        None \<Rightarrow> Inl (Msg ''invalid PEM data'')
      | Some block \<Rightarrow>
          (case parse_pkcs1 cod block of
             Some key \<Rightarrow> Inr key
           | None \<Rightarrow>
               (case parse_pkcs8_rsa cod block of
                  Some key \<Rightarrow> Inr key
                | None \<Rightarrow> Inl (Msg ''data is not a valid RSA private key''))))"

definition parse_rsa_public_key_from_dns :: "rsa_codec \<Rightarrow> string \<Rightarrow> rsa_public result" where
  "parse_rsa_public_key_from_dns cod s =
     (case b64std_decode s of
        None \<Rightarrow> Inl (Wrap ''invalid base64 encoding'' (Msg ''CorruptInputError''))
      | Some der \<Rightarrow>
          (case parse_pkix cod der of
             Inl err \<Rightarrow> Inl (Wrap ''failed to parse PKIX public key'' err)
           | Inr None \<Rightarrow> Inl (Msg ''public key is not RSA'')
           | Inr (Some pub) \<Rightarrow> Inr pub))"

definition validate_private_key :: "rsa_codec \<Rightarrow> string \<Rightarrow> rsa_private result" where
  "validate_private_key cod pem =
     (case parse_rsa_private_key cod pem of
        Inl err \<Rightarrow> Inl (Wrap ''invalid private key'' err)
      | Inr priv \<Rightarrow>
          (if bitlen (int (rsa_n (rsa_pub priv))) \<noteq> 2048 then Inl err_invalid_key_bits else Inr priv))"

definition validate_public_key_match :: "rsa_private option \<Rightarrow> rsa_public option \<Rightarrow> bool" where
  "validate_public_key_match priv pub =
     (case (priv, pub) of
        (Some p, Some q) \<Rightarrow> rsa_n (rsa_pub p) = rsa_n q \<and> rsa_e (rsa_pub p) = rsa_e q
      | _ \<Rightarrow> False)"

text \<open>The tags of a record as a list of pairs, the last one first, so that a later tag wins.\<close>

fun dkim_tags :: "string list \<Rightarrow> (string \<times> string) list \<Rightarrow> (string \<times> string) list" where
  "dkim_tags [] tags = tags"
| "dkim_tags (part # parts) tags =
     (let p = trim_space part
      in if p = [] then dkim_tags parts tags
         else let kv = split2 (CHR ''='') p
              in if length kv = 2
                 then dkim_tags parts ((trim_space (to_lower (kv ! 0)), trim_space (kv ! 1)) # tags)
                 else dkim_tags parts tags)"

definition parse_dns_txt_record :: "string \<Rightarrow> (string \<times> string) list \<times> string result" where
  "parse_dns_txt_record txt0 =
     (let txt = trim_chars (trim_space txt0) [CHR 0x22];
          tags = dkim_tags (str_split (CHR '';'') txt) []
      in (tags,
          case map_of tags ''v'' of
            None \<Rightarrow> Inl (Msg ''missing or invalid v tag (expected DKIM1)'')
          | Some v \<Rightarrow>
              if to_upper v \<noteq> ''DKIM1'' then Inl (Msg ''missing or invalid v tag (expected DKIM1)'')
              else (case map_of tags ''p'' of
                  None \<Rightarrow> Inl (Msg ''missing or empty p (public key) tag'')
                | Some p \<Rightarrow>
                    if p = [] then Inl (Msg ''missing or empty p (public key) tag'')
                    else Inr (remove_char (CHR 0x0D) (remove_char (CHR 0x0A)
                           (remove_char (CHR 0x09) (remove_char (CHR '' '') p)))))))"

section \<open>Keystore\<close>

record 'k keystore =
  ks_store :: "string \<Rightarrow> string \<Rightarrow> nat \<Rightarrow> string \<Rightarrow> 'k \<Rightarrow> path result \<times> 'k"
  ks_get :: "string \<Rightarrow> string \<Rightarrow> 'k \<Rightarrow> string result \<times> 'k"
  ks_path :: "string \<Rightarrow> string \<Rightarrow> path"
  ks_has :: "string \<Rightarrow> string \<Rightarrow> 'k \<Rightarrow> bool \<times> 'k"
  ks_delete :: "string \<Rightarrow> string \<Rightarrow> 'k \<Rightarrow> unit result \<times> 'k"

definition fs_key_path :: "path \<Rightarrow> string \<Rightarrow> string \<Rightarrow> path" where
  "fs_key_path base domain selector =
     path_join base [to_lower (trim_space domain), to_lower (trim_space selector), ''private.key'']"

definition fs_has_key :: "path \<Rightarrow> string \<Rightarrow> string \<Rightarrow> disk \<Rightarrow> bool \<times> disk" where
  "fs_has_key base domain selector k =
     (case os_stat (fs_key_path base domain selector) k of
        (Inl err, k1) \<Rightarrow> (False, k1)
      | (Inr info, k1) \<Rightarrow> (\<not> node_is_dir info, k1))"

definition fs_get_key :: "path \<Rightarrow> string \<Rightarrow> string \<Rightarrow> disk \<Rightarrow> string result \<times> disk" where
  "fs_get_key base domain selector k =
     (case validate_selector selector of
        Inl err \<Rightarrow> (Inl err, k)
      | Inr u \<Rightarrow>
          let p = fs_key_path base domain selector
          in (case os_read_file p k of
                (Inl err, k1) \<Rightarrow>
                  (Inl (Wrap (''read private key '' @ path_str p) err_private_key_not_found), k1)
              | (Inr data, k1) \<Rightarrow> (Inr data, k1)))"

text \<open>The steps on the temporary file; its deferred removal follows in \<open>fs_store_key\<close>.\<close>

definition write_key_file :: "path \<Rightarrow> path \<Rightarrow> string \<Rightarrow> disk \<Rightarrow> path result \<times> disk" where
  "write_key_file tmp target pem k =
     (case os_write_file tmp pem 384 k of
        (Inl err, k1) \<Rightarrow> (Inl (Wrap ''write key bytes'' err), k1)
      | (Inr u, k1) \<Rightarrow>
     (case os_flush k1 of
        (Inl err, k2) \<Rightarrow> (Inl (Wrap ''fsync key'' err), k2)
      | (Inr u, k2) \<Rightarrow>
     (case os_chmod tmp 384 k2 of
        (Inl err, k3) \<Rightarrow> (Inl (Wrap ''chmod 0600 key'' err), k3)
      | (Inr u, k3) \<Rightarrow>
     (case os_flush k3 of
        (Inl err, k4) \<Rightarrow> (Inl (Wrap ''close temp key'' err), k4)
      | (Inr u, k4) \<Rightarrow>
     (case os_rename tmp target k4 of
        (Inl err, k5) \<Rightarrow> (Inl (Wrap ''rename key'' err), k5)
      | (Inr u, k5) \<Rightarrow> (Inr target, k5))))))"

definition fs_store_key :: "path \<Rightarrow> string \<Rightarrow> string \<Rightarrow> nat \<Rightarrow> string \<Rightarrow> disk \<Rightarrow> path result \<times> disk" where
  "fs_store_key base domain selector rnd pem k =
     (case validate_selector selector of
        Inl err \<Rightarrow> (Inl err, k)
      | Inr u \<Rightarrow>
          if length pem = 0 then (Inl (Msg ''empty private key data''), k)
          else let target = fs_key_path base domain selector; dir = path_dir target
          in (case os_mkdir_all 488 dir k of
                (Inl err, k1) \<Rightarrow> (Inl (Wrap (''create directory '' @ path_str dir) err), k1)
              | (Inr u, k1) \<Rightarrow>
                  let tmp = dir @ [''private.key.tmp-'' @ nat_str rnd]
                  in (case os_create_temp tmp k1 of
                        (Inl err, k2) \<Rightarrow> (Inl (Wrap ''create temp key file'' err), k2)
                      | (Inr u, k2) \<Rightarrow>
                          let (r, k3) = write_key_file tmp target pem k2
                          in (r, snd (os_remove tmp k3)))))"

definition fs_delete_key :: "path \<Rightarrow> string \<Rightarrow> string \<Rightarrow> disk \<Rightarrow> unit result \<times> disk" where
  "fs_delete_key base domain selector k =
     (case validate_selector selector of
        Inl err \<Rightarrow> (Inl err, k)
      | Inr u \<Rightarrow>
          let target = fs_key_path base domain selector
          in (case os_remove target k of
                (Inl err, k1) \<Rightarrow>
                  (if err = err_not_exist then (Inr (), snd (os_remove (path_dir target) k1))
                   else (Inl (Wrap (''delete key '' @ path_str target) err), k1))
              | (Inr u, k1) \<Rightarrow> (Inr (), snd (os_remove (path_dir target) k1))))"

definition fs_keystore :: "path \<Rightarrow> disk keystore" where
  "fs_keystore base =
     \<lparr>ks_store = fs_store_key base, ks_get = fs_get_key base, ks_path = fs_key_path base,
      ks_has = fs_has_key base, ks_delete = fs_delete_key base\<rparr>"

section \<open>Repository\<close>

text \<open>The check constraints come first, then the unique indexes and the foreign key.\<close>

definition dkim_constraints :: "dkim_key \<Rightarrow> db \<Rightarrow> (bool \<times> err) list" where
  "dkim_constraints key db =
     [(dk_status key \<notin> {''pending'', ''active'', ''revoked''}, PgCheck ''domain_dkim_status_check''),
      (dk_algorithm key \<noteq> ''rsa-sha256'', PgCheck ''domain_dkim_algorithm_check''),
      (dk_key_bits key \<noteq> 2048, PgCheck ''domain_dkim_key_bits_check''),
      (clashes dk_id key (domain_dkim db), PgUnique ''domain_dkim_pkey''),
      (clashes (\<lambda>x. (dk_domain_id x, dk_selector x)) key (domain_dkim db),
         PgUnique ''domain_dkim_selector_unique''),
      (\<not> has_key dom_id (dk_domain_id key) (domains db), PgForeignKey ''domain_dkim_domain_id_fkey'')]"

fun is_duplicate_key :: "err \<Rightarrow> bool" where
  "is_duplicate_key (PgUnique c) = True"
| "is_duplicate_key e = False"

definition create_dkim_key :: "dkim_key \<Rightarrow> db \<Rightarrow> unit result \<times> db" where
  "create_dkim_key key db =
     (let row = key\<lparr>dk_selector := to_lower (dk_selector key), dk_domain := ''''\<rparr>
      in case sql_insert (dkim_constraints row)
                (\<lambda>db. db\<lparr>domain_dkim := domain_dkim db @ [row]\<rparr>) db of
           (Inl err, db1) \<Rightarrow>
             (if is_duplicate_key err then (Inl err_dkim_key_exists, db1)
              else (Inl (Wrap ''create dkim key'' err), db1))
         | (Inr n, db1) \<Rightarrow> (Inr (), db1))"

definition join_key :: "db \<Rightarrow> dkim_key \<Rightarrow> dkim_key option" where
  "join_key db key =
     map_option (\<lambda>d. key\<lparr>dk_domain := dom_name d\<rparr>)
       (find (\<lambda>d. dom_id d = dk_domain_id key) (domains db))"

definition dkim_rows :: "db \<Rightarrow> dkim_key list" where
  "dkim_rows db = List.map_filter (join_key db) (domain_dkim db)"

definition dkim_query :: "string \<Rightarrow> (dkim_key list \<Rightarrow> dkim_key option) \<Rightarrow> db \<Rightarrow> dkim_key result \<times> db" where
  "dkim_query msg f db =
     (case sql_query_row (\<lambda>db. f (dkim_rows db)) db of
        (Inl err, db1) \<Rightarrow>
          (if err_is err err_no_rows then (Inl err_dkim_key_not_found, db1)
           else (Inl (Wrap msg err), db1))
      | (Inr key, db1) \<Rightarrow> (Inr key, db1))"

definition get_dkim_key_by_id :: "uuid \<Rightarrow> db \<Rightarrow> dkim_key result \<times> db" where
  "get_dkim_key_by_id i = dkim_query ''get dkim key by id'' (find (\<lambda>key. dk_id key = i))"

definition get_dkim_key_by_selector :: "uuid \<Rightarrow> string \<Rightarrow> db \<Rightarrow> dkim_key result \<times> db" where
  "get_dkim_key_by_selector dm selector =
     dkim_query ''get dkim key by selector''
       (find (\<lambda>key. dk_domain_id key = dm \<and> to_lower (dk_selector key) = to_lower selector))"

text \<open>\<open>ORDER BY activated_at DESC NULLS LAST\<close>\<close>

definition latest_first :: "dkim_key list \<Rightarrow> dkim_key list" where
  "latest_first ks =
     sort_key (\<lambda>key. - the (dk_activated_at key)) (filter (\<lambda>key. dk_activated_at key \<noteq> None) ks) @
     filter (\<lambda>key. dk_activated_at key = None) ks"

definition get_active_dkim_key :: "uuid \<Rightarrow> db \<Rightarrow> dkim_key result \<times> db" where
  "get_active_dkim_key dm =
     dkim_query ''get active dkim key''
       (\<lambda>ks. find (\<lambda>key. True)
          (latest_first (filter (\<lambda>key. dk_domain_id key = dm \<and> dk_status key = ''active'') ks)))"

definition list_dkim_keys_by_domain :: "uuid \<Rightarrow> db \<Rightarrow> dkim_key list result \<times> db" where
  "list_dkim_keys_by_domain dm db =
     (case sql_query (\<lambda>db. sort_key (\<lambda>key. - dk_created_at key)
             (filter (\<lambda>key. dk_domain_id key = dm) (dkim_rows db))) db of
        (Inl err, db1) \<Rightarrow> (Inl (Wrap ''list dkim keys'' err), db1)
      | (Inr ks, db1) \<Rightarrow> (Inr ks, db1))"

definition dkim_update :: "string \<Rightarrow> (dkim_key \<Rightarrow> dkim_key) \<Rightarrow> uuid \<Rightarrow> db \<Rightarrow> unit result \<times> db" where
  "dkim_update msg f i db =
     (case sql_exec (\<lambda>db. (Inr (affected (\<lambda>key. dk_id key = i) (domain_dkim db)),
             db\<lparr>domain_dkim := update_where (\<lambda>key. dk_id key = i) f (domain_dkim db)\<rparr>)) db of
        (Inl err, db1) \<Rightarrow> (Inl (Wrap msg err), db1)
      | (Inr n, db1) \<Rightarrow> (if n = 0 then (Inl err_dkim_key_not_found, db1) else (Inr (), db1)))"

definition activate_dkim_key :: "instant \<Rightarrow> uuid \<Rightarrow> db \<Rightarrow> unit result \<times> db" where
  "activate_dkim_key now =
     dkim_update ''activate dkim key'' (\<lambda>key. key\<lparr>dk_status := ''active'', dk_activated_at := Some now\<rparr>)"

definition revoke_dkim_key :: "instant \<Rightarrow> uuid \<Rightarrow> db \<Rightarrow> unit result \<times> db" where
  "revoke_dkim_key now =
     dkim_update ''revoke dkim key'' (\<lambda>key. key\<lparr>dk_status := ''revoked'', dk_revoked_at := Some now\<rparr>)"

definition policy_row :: "uuid \<Rightarrow> db \<Rightarrow> mail_policy option" where
  "policy_row dm db =
     (case find (\<lambda>p. pol_domain_id p = dm) (domain_mail_policy db) of
        None \<Rightarrow> None
      | Some p \<Rightarrow> map_option (\<lambda>d. p\<lparr>pol_domain := dom_name d\<rparr>)
                    (find (\<lambda>d. dom_id d = pol_domain_id p) (domains db)))"

definition repo_get_policy :: "uuid \<Rightarrow> db \<Rightarrow> mail_policy result \<times> db" where
  "repo_get_policy dm db =
     (case sql_query_row (policy_row dm) db of
        (Inl err, db1) \<Rightarrow>
          (if err_is err err_no_rows then (Inl err_policy_not_found, db1)
           else (Inl (Wrap ''get domain mail policy'' err), db1))
      | (Inr p, db1) \<Rightarrow> (Inr p, db1))"

definition set_policy_columns :: "instant \<Rightarrow> mail_policy \<Rightarrow> mail_policy \<Rightarrow> mail_policy" where
  "set_policy_columns now new old =
     old\<lparr>pol_spf := pol_spf new, pol_dmarc := pol_dmarc new,
         pol_spam_threshold := pol_spam_threshold new,
         pol_reject_threshold := pol_reject_threshold new,
         pol_quarantine_enabled := pol_quarantine_enabled new,
         pol_max_message_size := pol_max_message_size new, pol_rbl := pol_rbl new,
         pol_rdns := pol_rdns new, pol_updated_at := now\<rparr>"

definition upsert_policy :: "instant \<Rightarrow> mail_policy \<Rightarrow> db \<Rightarrow> unit result \<times> db" where
  "upsert_policy now p db =
     (case sql_exec (\<lambda>db.
             if has_key pol_domain_id (pol_domain_id p) (domain_mail_policy db)
             then (Inr 1, db\<lparr>domain_mail_policy :=
                     update_where (\<lambda>r. pol_domain_id r = pol_domain_id p) (set_policy_columns now p)
                       (domain_mail_policy db)\<rparr>)
             else if \<not> has_key dom_id (pol_domain_id p) (domains db)
             then (Inl (PgForeignKey ''domain_mail_policy_domain_id_fkey''), db)
             else (Inr 1, db\<lparr>domain_mail_policy := domain_mail_policy db @
                     [p\<lparr>pol_domain := '''', pol_created_at := now, pol_updated_at := now\<rparr>]\<rparr>)) db of
        (Inl err, db1) \<Rightarrow> (Inl (Wrap ''upsert domain mail policy'' err), db1)
      | (Inr n, db1) \<Rightarrow> (Inr (), db1))"

section \<open>Service\<close>

definition dkim_generate_key ::
    "rsa_codec \<Rightarrow> 'k keystore \<Rightarrow> uuid \<Rightarrow> instant \<Rightarrow> rsa_private result \<Rightarrow> nat \<Rightarrow> string \<Rightarrow> string \<Rightarrow>
       db \<Rightarrow> 'k \<Rightarrow> (dkim_key \<times> keypair) result \<times> db \<times> 'k" where
  "dkim_generate_key cod ks newid now rnd tmp dn sel db k =
     (let domain_name = to_lower (trim_space dn);
          sel1 = to_lower (trim_space sel);
          selector = (if sel1 = [] then ''mailopen2026'' else sel1)
      in case validate_selector selector of
           Inl err \<Rightarrow> (Inl err, db, k)
         | Inr u \<Rightarrow>
      (case domain_get_by_name domain_name db of
         (Inl err, db1) \<Rightarrow> (Inl (Wrap (''domain '' @ domain_name @ '' not found'') err), db1, k)
       | (Inr dm, db1) \<Rightarrow>
      (case generate_rsa_keypair cod rnd 2048 of
         Inl err \<Rightarrow> (Inl (Wrap ''generate keypair'' err), db1, k)
       | Inr pair \<Rightarrow>
      (case validate_private_key cod (private_key_pem pair) of
         Inl err \<Rightarrow> (Inl (Wrap ''validate key'' err), db1, k)
       | Inr priv \<Rightarrow>
      (case ks_store ks domain_name selector tmp (private_key_pem pair) k of
         (Inl err, k1) \<Rightarrow> (Inl (Wrap ''store private key'' err), db1, k1)
       | (Inr p, k1) \<Rightarrow>
           let key = \<lparr>dk_id = newid, dk_domain_id = dom_id dm, dk_domain = domain_name,
                      dk_selector = selector, dk_algorithm = ''rsa-sha256'', dk_key_bits = 2048,
                      dk_status = ''pending'', dk_created_at = now, dk_activated_at = None,
                      dk_revoked_at = None\<rparr>
           in (case create_dkim_key key db1 of
                 (Inl err, db2) \<Rightarrow> (Inl err, db2, snd (ks_delete ks domain_name selector k1))
               | (Inr u, db2) \<Rightarrow> (Inr (key, pair), db2, k1)))))))"

definition dkim_get_active_key :: "string \<Rightarrow> db \<Rightarrow> dkim_key result \<times> db" where
  "dkim_get_active_key dn db =
     (case domain_get_by_name dn db of
        (Inl err, db1) \<Rightarrow> (Inl err, db1)
      | (Inr dm, db1) \<Rightarrow> get_active_dkim_key (dom_id dm) db1)"

definition dkim_list_keys :: "string \<Rightarrow> db \<Rightarrow> dkim_key list result \<times> db" where
  "dkim_list_keys dn db =
     (case domain_get_by_name dn db of
        (Inl err, db1) \<Rightarrow> (Inl err, db1)
      | (Inr dm, db1) \<Rightarrow> list_dkim_keys_by_domain (dom_id dm) db1)"

definition dkim_activate_key ::
    "'k keystore \<Rightarrow> instant \<Rightarrow> string \<Rightarrow> string \<Rightarrow> db \<Rightarrow> 'k \<Rightarrow> unit result \<times> db \<times> 'k" where
  "dkim_activate_key ks now dn sel db k =
     (case domain_get_by_name dn db of
        (Inl err, db1) \<Rightarrow> (Inl err, db1, k)
      | (Inr dm, db1) \<Rightarrow>
          (case get_dkim_key_by_selector (dom_id dm) sel db1 of
             (Inl err, db2) \<Rightarrow> (Inl err, db2, k)
           | (Inr key, db2) \<Rightarrow>
               (case ks_has ks dn sel k of
                  (has, k1) \<Rightarrow>
                    if \<not> has then (Inl err_private_key_not_found, db2, k1)
                    else (case activate_dkim_key now (dk_id key) db2 of (r, db3) \<Rightarrow> (r, db3, k1)))))"

definition dkim_revoke_key :: "instant \<Rightarrow> string \<Rightarrow> string \<Rightarrow> db \<Rightarrow> unit result \<times> db" where
  "dkim_revoke_key now dn sel db =
     (case domain_get_by_name dn db of
        (Inl err, db1) \<Rightarrow> (Inl err, db1)
      | (Inr dm, db1) \<Rightarrow>
          (case get_dkim_key_by_selector (dom_id dm) sel db1 of
             (Inl err, db2) \<Rightarrow> (Inl err, db2)
           | (Inr key, db2) \<Rightarrow> revoke_dkim_key now (dk_id key) db2))"

definition dkim_get_dns_record ::
    "rsa_codec \<Rightarrow> 'k keystore \<Rightarrow> string \<Rightarrow> string \<Rightarrow> 'k \<Rightarrow> dns_record result \<times> 'k" where
  "dkim_get_dns_record cod ks dn sel k =
     (case ks_get ks dn sel k of
        (Inl err, k1) \<Rightarrow> (Inl err, k1)
      | (Inr pem, k1) \<Rightarrow>
          (case parse_rsa_private_key cod pem of
             Inl err \<Rightarrow> (Inl err, k1)
           | Inr priv \<Rightarrow>
               (case marshal_pkix cod (rsa_pub priv) of
                  Inl err \<Rightarrow> (Inl (Wrap ''marshal public key'' err), k1)
                | Inr der \<Rightarrow>
                    (Inr \<lparr>rr_name = build_dns_name dn sel, rr_type = ''TXT'',
                          rr_value = build_dns_txt_value (b64std_encode der)\<rparr>, k1))))"

text \<open>
  \<open>lookup\<close> is the custom lookup if there is one, else \<open>net.LookupTXT\<close>. The function returns a
  result and an error at the same time.
\<close>

definition dkim_verify_dns ::
    "rsa_codec \<Rightarrow> 'k keystore \<Rightarrow> string \<Rightarrow> string \<Rightarrow> (string \<Rightarrow> string list result) \<Rightarrow> 'k \<Rightarrow>
       (verification_result \<times> err option) \<times> 'k" where
  "dkim_verify_dns cod ks dn sel lookup k =
     (let domain_name = to_lower (trim_space dn);
          selector = to_lower (trim_space sel);
          result = \<lparr>vr_domain = domain_name, vr_selector = selector, vr_dns_record_found = False,
                    vr_dns_value = '''', vr_public_key_valid = False, vr_key_matches = False,
                    vr_status = ''NOT READY'', vr_message = ''''\<rparr>
      in case ks_get ks domain_name selector k of
           (Inl err, k1) \<Rightarrow>
             ((result\<lparr>vr_message := ''Local private key missing: '' @ err_text cod err\<rparr>,
               Some err_private_key_not_found), k1)
         | (Inr pem, k1) \<Rightarrow>
      (case parse_rsa_private_key cod pem of
         Inl err \<Rightarrow>
           ((result\<lparr>vr_message := ''Local private key corrupt: '' @ err_text cod err\<rparr>, Some err), k1)
       | Inr priv \<Rightarrow>
           let dns_name = build_dns_name domain_name selector;
               records = (case lookup dns_name of Inl err \<Rightarrow> [] | Inr rs \<Rightarrow> rs)
           in if records = []
              then ((result\<lparr>vr_message := ''DNS TXT record '' @ dns_name @ '' not found''\<rparr>, None), k1)
              else let txt = str_join '''' records;
                       found = result\<lparr>vr_dns_record_found := True, vr_dns_value := txt\<rparr>
              in (case snd (parse_dns_txt_record txt) of
                    Inl err \<Rightarrow>
                      ((found\<lparr>vr_message := ''Invalid DKIM DNS record format: '' @ err_text cod err\<rparr>,
                        None), k1)
                  | Inr pub_str \<Rightarrow>
              (case parse_rsa_public_key_from_dns cod pub_str of
                 Inl err \<Rightarrow>
                   ((found\<lparr>vr_message := ''Invalid RSA public key in DNS: '' @ err_text cod err\<rparr>,
                     None), k1)
               | Inr pub \<Rightarrow>
                   let valid = found\<lparr>vr_public_key_valid := True\<rparr>
                   in if \<not> validate_public_key_match (Some priv) (Some pub)
                      then ((valid\<lparr>vr_key_matches := False, vr_status := ''MISMATCH'',
                               vr_message := ''DNS public key does not match local private key''\<rparr>,
                             Some err_key_mismatch), k1)
                      else ((valid\<lparr>vr_key_matches := True, vr_status := ''VERIFIED'',
                               vr_message := ''DKIM DNS record is published and matches local key''\<rparr>,
                             None), k1)))))"

definition empty_policy :: "uuid \<Rightarrow> mail_policy" where
  "empty_policy dm =
     \<lparr>pol_domain_id = dm, pol_domain = '''', pol_spf = '''', pol_dmarc = '''',
      pol_spam_threshold = 0, pol_reject_threshold = 0, pol_quarantine_enabled = False,
      pol_max_message_size = 0, pol_rbl = '''', pol_rdns = '''',
      pol_created_at = - 62135596800000000000, pol_updated_at = - 62135596800000000000\<rparr>"

definition dkim_get_policy :: "(string \<Rightarrow> string) \<Rightarrow> string \<Rightarrow> db \<Rightarrow> mail_policy result \<times> db" where
  "dkim_get_policy getenv dn db =
     (case domain_get_by_name dn db of
        (Inl err, db1) \<Rightarrow> (Inl err, db1)
      | (Inr dm, db1) \<Rightarrow>
          (case repo_get_policy (dom_id dm) db1 of
             (Inl err, db2) \<Rightarrow>
               (if err_is err err_policy_not_found
                then let ip0 = getenv ''SERVER_IP'';
                         server_ip = (if ip0 = '''' then getenv ''MAIL_SERVER_IP'' else ip0);
                         spf = (if server_ip \<noteq> '''' then ''v=spf1 a mx ip4:'' @ server_ip @ '' ~all''
                                else ''v=spf1 a mx ~all'')
                     in (Inr ((empty_policy (dom_id dm))\<lparr>pol_domain := dn, pol_spf := spf,
                           pol_dmarc := ''v=DMARC1; p=quarantine; rua=mailto:dmarc-reports@'' @ dn\<rparr>), db2)
                else (Inl err, db2))
           | (Inr p, db2) \<Rightarrow> (Inr p, db2)))"

definition dkim_set_spf_policy ::
    "(string \<Rightarrow> string) \<Rightarrow> instant \<Rightarrow> string \<Rightarrow> string \<Rightarrow> db \<Rightarrow> unit result \<times> db" where
  "dkim_set_spf_policy getenv now dn spf db =
     (case domain_get_by_name dn db of
        (Inl err, db1) \<Rightarrow> (Inl err, db1)
      | (Inr dm, db1) \<Rightarrow>
          (case dkim_get_policy getenv dn db1 of
             (r, db2) \<Rightarrow>
               let current = (case r of
                     Inl err \<Rightarrow> (empty_policy (dom_id dm))\<lparr>pol_dmarc := ''v=DMARC1; p=none''\<rparr>
                   | Inr p \<Rightarrow> p)
               in upsert_policy now (current\<lparr>pol_spf := spf\<rparr>) db2))"

definition dkim_set_dmarc_policy ::
    "(string \<Rightarrow> string) \<Rightarrow> instant \<Rightarrow> string \<Rightarrow> string \<Rightarrow> db \<Rightarrow> unit result \<times> db" where
  "dkim_set_dmarc_policy getenv now dn dmarc db =
     (case domain_get_by_name dn db of
        (Inl err, db1) \<Rightarrow> (Inl err, db1)
      | (Inr dm, db1) \<Rightarrow>
          (case dkim_get_policy getenv dn db1 of
             (r, db2) \<Rightarrow>
               let current = (case r of
                     Inl err \<Rightarrow> (empty_policy (dom_id dm))\<lparr>pol_spf := ''v=spf1 mx ~all''\<rparr>
                   | Inr p \<Rightarrow> p)
               in upsert_policy now (current\<lparr>pol_dmarc := dmarc\<rparr>) db2))"

end
