(* ===== verification/Dkim_Props.thy ===== *)
theory Dkim_Props
  imports Dkim Mailbox_Props "HOL-Library.Countable"
begin

text \<open>
  What holds of the DKIM component: selectors and valid domains are plain path components;
  the TXT record is read back; the laws of a keystore, proved of the one on disk; and, from
  these laws, the key generation, its verification in the DNS and the loss of a key when its
  selector is generated again. The policies and the choice of the signing key follow.
\<close>

section \<open>Names as path components\<close>

lemma validate_selector_Inr:
  "validate_selector s = Inr u \<longleftrightarrow>
     rx_match selector_rx (canon s) \<and> \<not> contains (canon s) ''..'' \<and> canon s \<noteq> [] \<and>
     \<not> contains (canon s) ''/'' \<and> \<not> contains (canon s) [CHR 0x5C]"
  by (auto simp: validate_selector_def Let_def canon_def' split: if_splits)

lemma validate_selector_canon [simp]: "validate_selector (canon s) = validate_selector s"
  by (simp add: validate_selector_def canon_def' Let_def)

lemma valid_selector_plain:
  assumes "validate_selector s = Inr u" shows "plain (canon s)"
proof -
  from assms have "rx_match selector_rx (canon s)" and dd: "\<not> contains (canon s) ''..''"
    and sl: "\<not> contains (canon s) ''/''"
    by (simp_all add: validate_selector_Inr)
  then have "canon s \<noteq> []" "in_cls az09 (hd (canon s))"
    using matches_Seq_Cls unfolding selector_rx_def rx_match_iff by blast+
  moreover have "\<not> in_cls az09 (CHR ''.'')" by (simp add: in_cls_def byte_def)
  ultimately show ?thesis
    using sl contains_char [of "canon s" "CHR ''/''"] by (auto simp: plain_def)
qed

lemma valid_domain_plain:
  assumes "is_valid_domain_name s" shows "plain s"
proof -
  from assms have "s \<noteq> []" "in_cls alnum (hd s)"
    using domain_rx_not_Nil by (auto simp: is_valid_domain_name_def)
  moreover have "\<not> in_cls alnum (CHR ''.'')" by (simp add: in_cls_def byte_def)
  ultimately show ?thesis
    using valid_domain_no_slash [OF assms] by (auto simp: plain_def)
qed

lemma found_domain:
  assumes "domains_canon db" and "find (\<lambda>d. dom_name d = n) (domains db) = Some dm"
  shows "plain n" and "canon n = n" and "dm \<in> set (domains db)" and "dom_name dm = n"
  using assms find_SomeD [OF assms(2)] valid_domain_plain [of "dom_name dm"]
  by (auto simp: domains_canon_def)

section \<open>The TXT record\<close>

lemma b64std_not_Nil: "s \<noteq> [] \<Longrightarrow> b64std_encode s \<noteq> []"
proof
  assume "s \<noteq> []" and "b64std_encode s = []"
  then have "b64std_decode [] = Some s" using b64std_roundtrip [of s] by simp
  moreover have "b64std_decode [] = Some []" by code_simp
  ultimately show False using \<open>s \<noteq> []\<close> by simp
qed

definition b64std_text :: "string \<Rightarrow> bool" where
  "b64std_text p \<longleftrightarrow> p \<noteq> [] \<and> (\<forall>c\<in>set p. c \<in> set b64_alphabet \<or> c = CHR ''='')"

lemma b64std_text_chars:
  assumes "b64std_text p" and "c \<in> set p"
  shows "\<not> is_space c" and "c \<noteq> CHR '';''" and "c \<noteq> CHR 0x22" and "c \<noteq> CHR '' ''"
    and "c \<noteq> CHR 0x09" and "c \<noteq> CHR 0x0A" and "c \<noteq> CHR 0x0D"
proof -
  have "list_all (\<lambda>c. \<not> is_space c \<and> c \<noteq> CHR '';'' \<and> c \<noteq> CHR 0x22 \<and> c \<noteq> CHR '' '' \<and> c \<noteq> CHR 0x09 \<and>
      c \<noteq> CHR 0x0A \<and> c \<noteq> CHR 0x0D) (CHR ''='' # b64_alphabet)"
    by code_simp
  moreover have "c \<in> set (CHR ''='' # b64_alphabet)" using assms by (auto simp: b64std_text_def)
  ultimately have "\<not> is_space c \<and> c \<noteq> CHR '';'' \<and> c \<noteq> CHR 0x22 \<and> c \<noteq> CHR '' '' \<and> c \<noteq> CHR 0x09 \<and>
      c \<noteq> CHR 0x0A \<and> c \<noteq> CHR 0x0D"
    by (simp only: list_all_iff) blast
  then show "\<not> is_space c" and "c \<noteq> CHR '';''" and "c \<noteq> CHR 0x22" and "c \<noteq> CHR '' ''"
    and "c \<noteq> CHR 0x09" and "c \<noteq> CHR 0x0A" and "c \<noteq> CHR 0x0D"
    by blast+
qed

lemma remove_char_id: "c \<notin> set p \<Longrightarrow> remove_char c p = p"
  by (auto simp: remove_char_def filter_id_conv)

text \<open>What \<open>BuildDNSTXTValue\<close> writes is read back.\<close>

lemma parse_built_record:
  assumes "b64std_text p"
  shows "snd (parse_dns_txt_record (build_dns_txt_value p)) = Inr p"
proof -
  note ch = b64std_text_chars [OF assms]
  let ?t = "''v=DKIM1; k=rsa; p='' @ p"
  have pne: "p \<noteq> []" and lp: "last p \<in> set p" using assms by (simp_all add: b64std_text_def)
  have sp: "trim_space ?t = ?t"
  proof -
    have "trim_left is_space ?t = ?t"
      by (rule trim_left_Cons_id) (simp add: is_space_def byte_def)
    moreover have "trim_right is_space ?t = ?t"
      by (rule trim_right_id) (use pne ch(1) [OF lp] in simp)
    ultimately show ?thesis by (simp only: trim_space_def)
  qed
  have qu: "trim_chars ?t [CHR 0x22] = ?t"
  proof -
    have "trim_left (\<lambda>c. c \<in> set [CHR 0x22]) ?t = ?t"
      by (rule trim_left_Cons_id) simp
    moreover have "trim_right (\<lambda>c. c \<in> set [CHR 0x22]) ?t = ?t"
      by (rule trim_right_id) (use pne ch(3) [OF lp] in simp)
    ultimately show ?thesis by (simp only: trim_chars_def)
  qed
  have "CHR '';'' \<notin> set ('' p='' @ p)" using ch(2) by auto
  then have "str_split (CHR '';'') ?t = [''v=DKIM1'', '' k=rsa'', '' p='' @ p]"
    using split_append_sep [of "CHR '';''" "''v=DKIM1''" "'' k=rsa; p='' @ p"]
      split_append_sep [of "CHR '';''" "'' k=rsa''" "'' p='' @ p"]
      split_no_sep [of "CHR '';''" "'' p='' @ p"]
    by simp
  moreover have "trim_space ('' p='' @ p) = ''p='' @ p"
  proof -
    have "trim_left is_space ('' p='' @ p) = ''p='' @ p"
      by (simp add: trim_left_def is_space_def byte_def)
    moreover have "trim_right is_space (''p='' @ p) = ''p='' @ p"
      by (rule trim_right_id) (use pne ch(1) [OF lp] in simp)
    ultimately show ?thesis by (simp only: trim_space_def)
  qed
  moreover have "trim_space p = p"
  proof -
    have "trim_left is_space p = p" by (rule trim_left_Cons_id) (use ch(1) pne in simp)
    moreover have "trim_right is_space p = p" by (rule trim_right_id) (use ch(1) [OF lp] in simp)
    ultimately show ?thesis by (simp only: trim_space_def)
  qed
  moreover have "split2 (CHR ''='') (''p='' @ p) = [''p'', p]"
    by (simp add: split2_def)
  moreover have "trim_space ''v=DKIM1'' = ''v=DKIM1''" "trim_space '' k=rsa'' = ''k=rsa''"
    "split2 (CHR ''='') ''v=DKIM1'' = [''v'', ''DKIM1'']" "split2 (CHR ''='') ''k=rsa'' = [''k'', ''rsa'']"
    "trim_space (to_lower ''v'') = ''v''" "trim_space (to_lower ''k'') = ''k''"
    "trim_space (to_lower ''p'') = ''p''" "trim_space ''DKIM1'' = ''DKIM1''" "trim_space ''rsa'' = ''rsa''"
    "to_upper ''DKIM1'' = ''DKIM1''"
    by code_simp+
  ultimately have "dkim_tags (str_split (CHR '';'') ?t) [] = [(''p'', p), (''k'', ''rsa''), (''v'', ''DKIM1'')]"
    by simp
  moreover have "remove_char c p = p" if "c \<in> {CHR '' '', CHR 0x09, CHR 0x0A, CHR 0x0D}" for c
    using that ch(4) ch(5) ch(6) ch(7) by (intro remove_char_id) blast
  moreover have "build_dns_txt_value p = ?t" by (simp only: build_dns_txt_value_def)
  ultimately show ?thesis
    using pne \<open>to_upper ''DKIM1'' = ''DKIM1''\<close>
    by (simp only: parse_dns_txt_record_def Let_def sp qu) simp
qed

section \<open>The laws of a keystore\<close>

text \<open>
  The keys by domain and selector, both in normal form. The laws hold for domains that are
  plain path components, which every stored domain is.
\<close>

locale keystore_laws =
  fixes ks :: "'k keystore"
    and reliable :: "'k \<Rightarrow> bool"
    and content :: "'k \<Rightarrow> string \<times> string \<Rightarrow> string option"
  assumes store: "plain (canon d) \<Longrightarrow> ks_store ks d s n pem k = (r, k') \<Longrightarrow>
      content k' = (case r of Inr p \<Rightarrow> (content k)((canon d, canon s) \<mapsto> pem) | Inl e \<Rightarrow> content k) \<and>
      (\<not> isl r \<longrightarrow> validate_selector s = Inr ())"
    and delete: "plain (canon d) \<Longrightarrow> ks_delete ks d s k = (q, k') \<Longrightarrow>
      content k' = (case q of Inr u \<Rightarrow> (content k)((canon d, canon s) := None) | Inl e \<Rightarrow> content k)"
    and get: "plain (canon d) \<Longrightarrow> ks_get ks d s k = (x, k') \<Longrightarrow>
      content k' = content k \<and> (\<forall>c. x = Inr c \<longrightarrow> content k (canon d, canon s) = Some c)"
    and has: "plain (canon d) \<Longrightarrow> validate_selector s = Inr () \<Longrightarrow> ks_has ks d s k = (b, k') \<Longrightarrow>
      content k' = content k \<and> (b \<longrightarrow> content k (canon d, canon s) \<noteq> None)"
    and get_reliable: "plain (canon d) \<Longrightarrow> reliable k \<Longrightarrow> content k (canon d, canon s) = Some c \<Longrightarrow>
      validate_selector s = Inr () \<Longrightarrow> ks_get ks d s k = (Inr c, k)"
    and delete_reliable: "plain (canon d) \<Longrightarrow> reliable k \<Longrightarrow> content k (canon d, canon s) = Some c \<Longrightarrow>
      validate_selector s = Inr () \<Longrightarrow> \<not> isl (fst (ks_delete ks d s k))"
    and store_reliable: "reliable k \<Longrightarrow> ks_store ks d s n pem k = (r, k') \<Longrightarrow> reliable k'"

section \<open>The keystore on disk\<close>

definition fs_keys :: "path \<Rightarrow> disk \<Rightarrow> string \<times> string \<Rightarrow> string option" where
  "fs_keys base k ds =
     (if plain (fst ds) \<and> plain (snd ds) then fbytes k (base @ [fst ds, snd ds, ''private.key'']) else None)"

lemma plain_private_key [simp]: "plain ''private.key''"
  by (simp add: plain_def)

lemma fs_key_path_plain:
  "plain (canon d) \<Longrightarrow> plain (canon s) \<Longrightarrow> fs_key_path base d s = base @ [canon d, canon s, ''private.key'']"
  by (simp add: fs_key_path_def canon_alt path_join_plain)

lemma fs_keys_update:
  assumes "plain d" and "plain s"
    and "fbytes k' = (fbytes k)(base @ [d, s, ''private.key''] := v)"
  shows "fs_keys base k' = (fs_keys base k)((d, s) := v)"
  using assms by (auto simp: fs_keys_def fun_eq_iff)

lemma fs_keys_cong: "fbytes k' = fbytes k \<Longrightarrow> fs_keys base k' = fs_keys base k"
  by (simp add: fs_keys_def fun_eq_iff)

lemma fs_keys_other:
  assumes "fbytes k' = (fbytes k)(dir @ [w] := v)" and "w \<noteq> ''private.key''"
  shows "fs_keys base k' = fs_keys base k"
proof
  fix ds :: "string \<times> string"
  have "base @ [fst ds, snd ds, ''private.key''] \<noteq> dir @ [w]"
    using assms(2) by (metis append_butlast_last_id butlast_snoc last.simps last_appendR last_snoc
        list.distinct(1))
  then have "fbytes k' (base @ [fst ds, snd ds, ''private.key'']) =
      fbytes k (base @ [fst ds, snd ds, ''private.key''])"
    unfolding assms(1) by (rule fun_upd_other)
  then show "fs_keys base k' ds = fs_keys base k ds" by (simp only: fs_keys_def)
qed

text \<open>The target changes only when the last step succeeds.\<close>

lemma write_key_file_bytes:
  assumes "write_key_file tmp target pem k = (r, k')" and "tmp \<noteq> target"
  shows "case r of
      Inr p \<Rightarrow> fbytes k' = (fbytes k)(tmp := None, target \<mapsto> pem)
    | Inl e \<Rightarrow> \<exists>v. fbytes k' = (fbytes k)(tmp := v)"
  using assms
  by (auto simp: write_key_file_def split: prod.splits sum.splits dest!: fbytes_rules)
    (metis fun_upd_triv)+

lemma fs_store_key_bytes:
  assumes "plain (canon d)" and "fs_store_key base d s n pem k = (r, k')"
  shows "fs_keys base k' = (case r of
      Inr p \<Rightarrow> (fs_keys base k)((canon d, canon s) \<mapsto> pem) | Inl e \<Rightarrow> fs_keys base k) \<and>
    (\<not> isl r \<longrightarrow> validate_selector s = Inr ())"
proof (cases "validate_selector s = Inr () \<and> pem \<noteq> []")
  case False
  with assms(2) show ?thesis
    by (cases "validate_selector s") (auto simp: fs_store_key_def)
next
  case True
  then have sel: "validate_selector s = Inr ()" and s: "plain (canon s)"
    using valid_selector_plain by auto
  let ?dir = "base @ [canon d, canon s]"
  let ?target = "base @ [canon d, canon s, ''private.key'']"
  let ?w = "''private.key.tmp-'' @ nat_str n"
  have w: "?w \<noteq> ''private.key''" by simp
  have target: "fs_key_path base d s = ?target" "path_dir ?target = ?dir"
    by (simp_all add: fs_key_path_plain assms(1) s path_dir_def butlast_append)
  obtain r1 k1 where 1: "os_mkdir_all 488 ?dir k = (r1, k1)" by fastforce
  note b1 = fbytes_mkdir_all [OF 1]
  obtain r2 k2 where 2: "os_create_temp (?dir @ [?w]) k1 = (r2, k2)" by fastforce
  note b2 = fbytes_create_temp [OF 2]
  obtain r3 k3 where 3: "write_key_file (?dir @ [?w]) ?target pem k2 = (r3, k3)" by fastforce
  note b3 = write_key_file_bytes [OF 3]
  obtain r4 k4 where 4: "os_remove (?dir @ [?w]) k3 = (r4, k4)" by fastforce
  note b4 = fbytes_remove [OF 4]
  note run = assms(2) [unfolded fs_store_key_def sel target Let_def]
  have keys1: "fs_keys base k1 = fs_keys base k" by (rule fs_keys_cong [OF b1])
  show ?thesis
  proof (cases r1)
    case (Inl e)
    with run 1 True have "r = Inl (Wrap (''create directory '' @ path_str ?dir) e)" "k' = k1" by simp_all
    then show ?thesis by (simp add: keys1)
  next
    case r1: (Inr u)
    show ?thesis
    proof (cases r2)
      case (Inl e)
      with run 1 2 r1 True have "r = Inl (Wrap ''create temp key file'' e)" "k' = k2" by simp_all
      moreover have "fs_keys base k2 = fs_keys base k1" using b2 Inl by (intro fs_keys_cong) simp
      ultimately show ?thesis by (simp add: keys1)
    next
      case r2: (Inr u)
      from run 1 2 3 4 r1 r2 True have r: "r = r3" "k' = k4" by simp_all
      have keys2: "fs_keys base k2 = fs_keys base k"
        using fs_keys_other [of k2 k1 ?dir ?w "Some []" base] b2 r2 w keys1 by simp
      have keys4: "fs_keys base k4 = fs_keys base k3"
        using fs_keys_other [of k4 k3 ?dir ?w None base] b4 w fs_keys_cong [of k4 k3 base]
        by (cases r4) simp_all
      have tt: "?dir @ [?w] \<noteq> ?target" using w by simp
      show ?thesis
      proof (cases r3)
        case (Inl e)
        with b3 [OF tt] obtain v where "fbytes k3 = (fbytes k2)(?dir @ [?w] := v)" by auto
        from fs_keys_other [OF this w] show ?thesis using r keys2 keys4 Inl sel by simp
      next
        case (Inr q)
        with b3 [OF tt] have f: "fbytes k3 = (fbytes k2)(?dir @ [?w] := None, ?target \<mapsto> pem)" by simp
        let ?k = "fs_keys base"
        have "fs_keys base k3 = (fs_keys base k2)((canon d, canon s) \<mapsto> pem)"
        proof
          fix ds :: "string \<times> string"
          have "base @ [fst ds, snd ds, ''private.key''] \<noteq> ?dir @ [?w]" using w by auto
          then show "fs_keys base k3 ds = ((fs_keys base k2)((canon d, canon s) \<mapsto> pem)) ds"
            using f assms(1) s by (cases ds) (auto simp: fs_keys_def)
        qed
        then show ?thesis using r keys2 keys4 Inr sel by simp
      qed
    qed
  qed
qed

lemma os_remove_missing: "os_remove p k = (Inl err_not_exist, k') \<Longrightarrow> fbytes k p = None \<and> fbytes k' = fbytes k"
  by (auto simp: os_simps fbytes_def errs split: if_splits option.splits)

lemma fs_delete_key_bytes:
  assumes "plain (canon d)" and "fs_delete_key base d s k = (r, k')"
  shows "fs_keys base k' = (case r of
      Inr u \<Rightarrow> (fs_keys base k)((canon d, canon s) := None) | Inl e \<Rightarrow> fs_keys base k)"
proof (cases "validate_selector s")
  case (Inl e)
  with assms(2) have "r = Inl e" "k' = k" by (simp_all add: fs_delete_key_def)
  then show ?thesis by simp
next
  case sel: (Inr u)
  then have s: "plain (canon s)" using valid_selector_plain by auto
  let ?target = "base @ [canon d, canon s, ''private.key'']"
  have target: "fs_key_path base d s = ?target" "path_dir ?target = base @ [canon d, canon s]"
    by (simp_all add: fs_key_path_plain assms(1) s path_dir_def butlast_append)
  note run = assms(2) [unfolded fs_delete_key_def sel target Let_def]
  obtain r1 k1 where 1: "os_remove ?target k = (r1, k1)" by fastforce
  obtain r2 k2 where 2: "os_remove (base @ [canon d, canon s]) k1 = (r2, k2)" by fastforce
  have keys2: "fs_keys base k2 = fs_keys base k1"
    using fbytes_remove [OF 2] by (cases r2) (auto simp: fs_keys_def fun_eq_iff)
  have gone: "fs_keys base k' = (fs_keys base k)((canon d, canon s) := None)"
    if "fbytes k1 = (fbytes k)(?target := None)" "k' = k2"
    using fs_keys_update [OF assms(1) s that(1)] keys2 that(2) by simp
  show ?thesis
  proof (cases r1)
    case (Inr u1)
    with run 1 2 have "r = Inr ()" "k' = k2" by (simp_all add: target(2))
    with gone fbytes_remove [OF 1] Inr show ?thesis by simp
  next
    case (Inl e)
    show ?thesis
    proof (cases "e = err_not_exist")
      case True
      with run 1 2 Inl have "r = Inr ()" "k' = k2" by (simp_all add: target(2))
      moreover have "fbytes k1 = (fbytes k)(?target := None)"
        using os_remove_missing [of ?target k k1] 1 Inl True by (simp add: fun_upd_idem)
      ultimately show ?thesis using gone by simp
    next
      case False
      with run 1 Inl have "r = Inl (Wrap (''delete key '' @ path_str ?target) e)" "k' = k1"
        by (simp_all add: target(2))
      then show ?thesis using fbytes_remove [OF 1] Inl by (simp add: fs_keys_def fun_eq_iff)
    qed
  qed
qed

lemma fs_keys_Some:
  "fs_keys base k (d, s) = Some c \<Longrightarrow> \<exists>m ow t.
     fs_stat (files k) (base @ [d, s, ''private.key'']) = Some (File m ow c t)"
  by (auto simp: fs_keys_def fbytes_def split: if_splits option.splits node.splits)

lemma fs_keys_dtick [simp]: "fs_keys base (dtick k) = fs_keys base k"
  by (simp add: fs_keys_def fun_eq_iff)

lemma fs_get_key_bytes:
  assumes "plain (canon d)" and "fs_get_key base d s k = (r, k')"
  shows "fs_keys base k' = fs_keys base k \<and> (\<forall>c. r = Inr c \<longrightarrow> fs_keys base k (canon d, canon s) = Some c)"
proof (cases "validate_selector s")
  case (Inl e)
  with assms(2) show ?thesis by (auto simp: fs_get_key_def)
next
  case sel: (Inr u)
  then have s: "plain (canon s)" using valid_selector_plain by auto
  obtain r1 k1 where 1: "os_read_file (fs_key_path base d s) k = (r1, k1)" by fastforce
  then have "k1 = dtick k" using snd_os_reads(2) by (metis snd_conv)
  with 1 assms sel show ?thesis
    using os_read_file_fbytes(1) [of "fs_key_path base d s" k]
    by (cases r1) (auto simp: fs_get_key_def Let_def fs_keys_def fs_key_path_plain s)
qed

lemma fs_has_key_bytes:
  assumes "plain (canon d)" and "validate_selector s = Inr ()" and "fs_has_key base d s k = (b, k')"
  shows "fs_keys base k' = fs_keys base k \<and> (b \<longrightarrow> fs_keys base k (canon d, canon s) \<noteq> None)"
proof -
  have s: "plain (canon s)" using valid_selector_plain assms(2) by blast
  obtain r1 k1 where 1: "os_stat (fs_key_path base d s) k = (r1, k1)" by fastforce
  then have "k1 = dtick k" using snd_os_reads(1) by (metis snd_conv)
  with 1 assms show ?thesis
    by (cases r1)
      (auto simp: fs_has_key_def fs_keys_def fbytes_def s fs_key_path_plain node_is_dir_def os_simps
        split: node.splits if_splits option.splits)
qed

lemma write_key_file_faults:
  "disk_faults k = [] \<Longrightarrow> write_key_file tmp target pem k = (r, k') \<Longrightarrow> disk_faults k' = []"
  by (auto simp: write_key_file_def split: prod.splits sum.splits
      dest!: no_faults_rules [rotated])

lemma no_faults_after:
  assumes "disk_faults k = []" and "fs_store_key base d s n pem k = (r, k')"
  shows "disk_faults k' = []"
proof -
  have rm: "disk_faults (snd (os_remove p k)) = []" if "disk_faults k = []" for p k
    using that no_faults_rules(5) [of k p] by (metis prod.collapse)
  show ?thesis
    using assms
    by (auto simp: fs_store_key_def Let_def rm split: prod.splits sum.splits if_splits
        dest: no_faults_rules write_key_file_faults intro!: rm)
qed

interpretation fskeys: keystore_laws "fs_keystore base" "\<lambda>k. disk_faults k = []" "fs_keys base"
proof (unfold_locales, goal_cases)
  case (1 d s n pem k r k')
  then show ?case using fs_store_key_bytes [of d base s n pem k r k'] by (simp add: fs_keystore_def)
next
  case (2 d s k q k')
  then show ?case using fs_delete_key_bytes [of d base s k q k'] by (simp add: fs_keystore_def)
next
  case (3 d s k x k')
  then show ?case using fs_get_key_bytes [of d base s k x k'] by (simp add: fs_keystore_def)
next
  case (4 d s k b k')
  then show ?case using fs_has_key_bytes [of d s base k b k'] by (simp add: fs_keystore_def)
next
  case (5 d k s c)
  then have s: "plain (canon s)" using valid_selector_plain by blast
  from 5 s show ?case
    using os_read_file_fbytes(2) [of k "base @ [canon d, canon s, ''private.key'']" c]
    by (simp add: fs_keystore_def fs_get_key_def fs_keys_def fs_key_path_plain Let_def)
next
  case (6 d k s c)
  then have s: "plain (canon s)" using valid_selector_plain by blast
  from fs_keys_Some [OF 6(3)] obtain m ow t where
    "fs_stat (files k) (base @ [canon d, canon s, ''private.key'']) = Some (File m ow c t)" by blast
  with 6 s show ?case
    by (simp add: fs_keystore_def fs_delete_key_def fs_key_path_plain Let_def os_simps is_dir_def)
next
  case (7 k d s n pem r k')
  then show ?case using no_faults_after [of k base d s n pem r k'] by (simp add: fs_keystore_def)
qed

section \<open>Generating and verifying, from the laws\<close>

text \<open>
  What the documentation of the codecs promises: what is marshalled is parsed back, and the
  DER form is never empty.
\<close>

definition codec_law :: "rsa_codec \<Rightarrow> bool" where
  "codec_law cod \<longleftrightarrow>
     (\<forall>t b. pem_decode cod (pem_encode cod t b) = Some b) \<and>
     (\<forall>p. parse_pkcs1 cod (marshal_pkcs1 cod p) = Some p) \<and>
     (\<forall>p der. marshal_pkix cod p = Inr der \<longrightarrow> der \<noteq> [] \<and> parse_pkix cod der = Inr (Some p))"

definition chosen_selector :: "string \<Rightarrow> string" where
  "chosen_selector sel = (if canon sel = [] then ''mailopen2026'' else canon sel)"

lemma canon_chosen [simp]: "canon (chosen_selector sel) = chosen_selector sel"
proof -
  have "canon ''mailopen2026'' = ''mailopen2026''" by code_simp
  then show ?thesis by (simp add: chosen_selector_def)
qed

definition new_key :: "uuid \<Rightarrow> instant \<Rightarrow> uuid \<Rightarrow> string \<Rightarrow> string \<Rightarrow> dkim_key" where
  "new_key newid now dm domain_name selector =
     \<lparr>dk_id = newid, dk_domain_id = dm, dk_domain = domain_name, dk_selector = selector,
      dk_algorithm = ''rsa-sha256'', dk_key_bits = 2048, dk_status = ''pending'',
      dk_created_at = now, dk_activated_at = None, dk_revoked_at = None\<rparr>"

text \<open>The three ways a generation can end once the key has been stored, and before.\<close>

lemma generate_key_cases:
  assumes "dkim_generate_key cod ks newid now rnd tmp dn sel db k = (r, db', k')"
  obtains (refused) e where "r = Inl e" and "k' = k" and "e \<noteq> err_dkim_key_exists"
  | (unstored) e dm and pair :: keypair where "r = Inl (Wrap ''store private key'' e)" and "\<not> fails db"
      and "find (\<lambda>d. dom_name d = canon dn) (domains db) = Some dm"
      and "ks_store ks (canon dn) (chosen_selector sel) tmp (private_key_pem pair) k = (Inl e, k')"
  | (stored) dm pair p k1 r2 where "\<not> fails db"
      and "find (\<lambda>d. dom_name d = canon dn) (domains db) = Some dm"
      and "generate_rsa_keypair cod rnd 2048 = Inr pair"
      and "ks_store ks (canon dn) (chosen_selector sel) tmp (private_key_pem pair) k = (Inr p, k1)"
      and "create_dkim_key (new_key newid now (dom_id dm) (canon dn) (chosen_selector sel)) (tick db) = (r2, db')"
      and "case r2 of
             Inr u \<Rightarrow> r = Inr (new_key newid now (dom_id dm) (canon dn) (chosen_selector sel), pair) \<and> k' = k1
           | Inl e \<Rightarrow> r = Inl e \<and> k' = snd (ks_delete ks (canon dn) (chosen_selector sel) k1)"
proof -
  let ?s = "chosen_selector sel"
  note run = assms [unfolded dkim_generate_key_def canon_alt Let_def, folded chosen_selector_def]
  show thesis
  proof (cases "validate_selector ?s")
    case (Inl e)
    with run have "r = Inl e" "k' = k" by simp_all
    moreover have "e \<noteq> err_dkim_key_exists"
      using Inl by (auto simp: validate_selector_def Let_def errs split: if_splits)
    ultimately show thesis by (rule refused)
  next
    case sel: (Inr u)
    show thesis
    proof (cases "fails db \<or> find (\<lambda>d. dom_name d = canon dn) (domains db) = None")
      case True
      with run sel show thesis
        by (intro refused [of "projl r"]) (auto simp: sql_simps errs split: if_splits option.splits)
    next
      case False
      then obtain dm where dm: "find (\<lambda>d. dom_name d = canon dn) (domains db) = Some dm" by auto
      show thesis
      proof (cases "generate_rsa_keypair cod rnd 2048")
        case (Inl e)
        with run False sel dm show thesis
          by (intro refused [of "projl r"]) (auto simp: sql_simps errs)
      next
        case pair: (Inr pair)
        show thesis
        proof (cases "validate_private_key cod (private_key_pem pair)")
          case (Inl e)
          with run False sel dm pair show thesis
            by (intro refused [of "projl r"]) (auto simp: sql_simps errs)
        next
          case priv: (Inr priv)
          obtain rs k1 where st: "ks_store ks (canon dn) ?s tmp (private_key_pem pair) k = (rs, k1)"
            by fastforce
          show thesis
          proof (cases rs)
            case (Inl e)
            with run False sel dm pair priv st have "r = Inl (Wrap ''store private key'' e)" "k' = k1"
              by (simp_all add: sql_simps)
            with st Inl False dm show thesis by (intro unstored [of e dm pair]) simp_all
          next
            case (Inr p)
            obtain r2 db2 where cr: "create_dkim_key (new_key newid now (dom_id dm) (canon dn) ?s)
                (tick db) = (r2, db2)" by fastforce
            from run False sel dm pair priv st Inr cr have
              "(case r2 of
                  Inr u \<Rightarrow> r = Inr (new_key newid now (dom_id dm) (canon dn) ?s, pair) \<and> k' = k1
                | Inl e \<Rightarrow> r = Inl e \<and> k' = snd (ks_delete ks (canon dn) ?s k1)) \<and> db' = db2"
              by (cases r2) (auto simp: sql_simps new_key_def)
            with st Inr False dm pair cr show thesis by (intro stored [of dm pair p k1 r2]) simp_all
          qed
        qed
      qed
    qed
  qed
qed

lemma create_dkim_key_db:
  assumes "create_dkim_key key db = (r, db')"
  shows "case r of
      Inr u \<Rightarrow> db' = (tick db)\<lparr>domain_dkim := domain_dkim db @
        [key\<lparr>dk_selector := to_lower (dk_selector key), dk_domain := ''''\<rparr>]\<rparr>
    | Inl e \<Rightarrow> db' = tick db"
  using assms
  by (auto simp: create_dkim_key_def sql_simps Let_def split: if_splits option.splits)

lemma wf_create_dkim_key [wf_ops]:
  assumes "wf_db db" shows "wf_db (snd (create_dkim_key key db))"
  using assms wf_dbD(5) [of "tick db"]
  by (auto simp: create_dkim_key_def dkim_constraints_def sql_simps Let_def wf_dkim_def ref_def
      split: option.splits if_splits intro: rev_image_eqI)

lemma new_key_simps [simp]:
  "dk_selector (new_key i n dm d s) = s" "dk_domain_id (new_key i n dm d s) = dm"
  "dk_id (new_key i n dm d s) = i" "dk_status (new_key i n dm d s) = ''pending''"
  by (simp_all add: new_key_def)

lemma join_empty: "str_join '''' ws = concat ws"
  by (induction "''''::string" ws rule: str_join.induct) simp_all

lemma parse_generated:
  assumes "codec_law cod" and "generate_rsa_keypair cod rnd 2048 = Inr pair"
  obtains priv der where "parse_rsa_private_key cod (private_key_pem pair) = Inr priv"
    and "marshal_pkix cod (rsa_pub priv) = Inr der" and "public_key_dns pair = b64std_encode der"
    and "parse_rsa_public_key_from_dns cod (b64std_encode der) = Inr (rsa_pub priv)"
    and "b64std_text (b64std_encode der)"
proof -
  from assms(2) obtain priv der where p: "rnd = Inr priv" "marshal_pkix cod (rsa_pub priv) = Inr der"
    "private_key_pem pair = pem_encode cod ''RSA PRIVATE KEY'' (marshal_pkcs1 cod priv)"
    "public_key_dns pair = b64std_encode der"
    by (auto simp: generate_rsa_keypair_def Let_def split: sum.splits)
  moreover from assms(1) p(2) have "der \<noteq> []" "parse_pkix cod der = Inr (Some (rsa_pub priv))"
    by (auto simp: codec_law_def)
  moreover have "parse_rsa_private_key cod (private_key_pem pair) = Inr priv"
    using assms(1) p(3) by (simp add: parse_rsa_private_key_def codec_law_def)
  ultimately show thesis
    using that [of priv der] b64std_not_Nil [of der] b64std_chars [of _ der]
    by (simp add: parse_rsa_public_key_from_dns_def b64std_text_def)
qed

lemma build_dns_name_canon [simp]:
  "build_dns_name (canon d) s = build_dns_name d s" "build_dns_name d (canon s) = build_dns_name d s"
  by (simp_all add: build_dns_name_def canon_alt)

context keystore_laws
begin

lemma generate_then_verify:
  assumes "codec_law cod" and "domains_canon db" and "reliable k"
    and "dkim_generate_key cod ks newid now rnd tmp dn sel db k = (Inr (key, pair), db', k')"
  shows "\<exists>rec. dkim_get_dns_record cod ks dn (dk_selector key) k' = (Inr rec, k') \<and>
    rr_value rec = build_dns_txt_value (public_key_dns pair) \<and>
    (\<forall>lookup recs. lookup (rr_name rec) = Inr recs \<longrightarrow> concat recs = rr_value rec \<longrightarrow>
       (\<exists>v. dkim_verify_dns cod ks dn (dk_selector key) lookup k' = ((v, None), k') \<and>
            vr_status v = ''VERIFIED''))"
  using assms(4)
proof (cases rule: generate_key_cases)
  case (stored dm pr p k1 r2)
  let ?s = "chosen_selector sel"
  from stored(6) have key: "dk_selector key = ?s" and pr: "pr = pair" and k': "k' = k1"
    by (auto split: sum.splits)
  have plain: "plain (canon (canon dn))" "plain (canon dn)"
    using found_domain [OF assms(2) stored(2)] by simp_all
  have c: "content k' (canon dn, ?s) = Some (private_key_pem pair)" and v: "validate_selector ?s = Inr ()"
    using store [OF plain(1) stored(4)] pr k' by simp_all
  have rel: "reliable k'" using store_reliable [OF assms(3) stored(4)] k' by simp
  have g: "ks_get ks d ?s k' = (Inr (private_key_pem pair), k')" if "canon d = canon dn" for d
    using get_reliable [of d k' ?s] that plain rel c v by simp
  obtain priv der where priv: "parse_rsa_private_key cod (private_key_pem pair) = Inr priv"
    "marshal_pkix cod (rsa_pub priv) = Inr der" "public_key_dns pair = b64std_encode der"
    "parse_rsa_public_key_from_dns cod (b64std_encode der) = Inr (rsa_pub priv)"
    "b64std_text (b64std_encode der)"
    using parse_generated [OF assms(1) stored(3) [unfolded pr]] by metis
  let ?rec = "\<lparr>rr_name = build_dns_name dn ?s, rr_type = ''TXT'',
    rr_value = build_dns_txt_value (b64std_encode der)\<rparr>"
  have rec: "dkim_get_dns_record cod ks dn ?s k' = (Inr ?rec, k')"
    by (simp add: dkim_get_dns_record_def g priv)
  have "\<exists>v. dkim_verify_dns cod ks dn ?s lookup k' = ((v, None), k') \<and> vr_status v = ''VERIFIED''"
    if "lookup (rr_name ?rec) = Inr recs" "concat recs = rr_value ?rec" for lookup recs
  proof -
    have "recs \<noteq> []" using that(2) by (auto simp: build_dns_txt_value_def)
    then show ?thesis
      using that parse_built_record [OF priv(5)]
      by (simp add: dkim_verify_dns_def canon_alt Let_def g priv join_empty
          validate_public_key_match_def)
  qed
  with rec show ?thesis unfolding key by (intro exI [of _ ?rec]) (simp add: priv(3))
qed simp_all

text \<open>
  Generating a selector that already has a row: the new key file has replaced the old one
  when the database refuses the row, and the compensation deletes it.
\<close>

lemma generate_existing:
  assumes "domains_canon db" and "reliable k"
    and "dkim_generate_key cod ks newid now rnd tmp dn sel db k = (Inl err_dkim_key_exists, db', k')"
  shows "domain_dkim db' = domain_dkim db \<and>
    content k' = (content k)((canon dn, chosen_selector sel) := None) \<and>
    (\<exists>e. fst (dkim_get_dns_record cod ks dn (chosen_selector sel) k') = Inl e)"
  using assms(3)
proof (cases rule: generate_key_cases)
  case (stored dm pr p k1 r2)
  let ?s = "chosen_selector sel"
  from stored(6) have r2: "isl r2" and k': "k' = snd (ks_delete ks (canon dn) ?s k1)"
    by (auto split: sum.splits)
  have plain: "plain (canon (canon dn))" "plain (canon dn)"
    using found_domain [OF assms(1) stored(2)] by simp_all
  have c: "content k1 = (content k)((canon dn, ?s) \<mapsto> private_key_pem pr)"
    and v: "validate_selector ?s = Inr ()"
    using store [OF plain(1) stored(4)] by simp_all
  have "reliable k1" by (rule store_reliable [OF assms(2) stored(4)])
  from delete_reliable [OF plain(1) this _ v] c obtain u where
    d: "ks_delete ks (canon dn) ?s k1 = (Inr u, k')"
    unfolding k' by (cases "ks_delete ks (canon dn) ?s k1"; cases "fst (ks_delete ks (canon dn) ?s k1)") auto
  have c': "content k' = (content k)((canon dn, ?s) := None)"
    using delete [OF plain(1) d] c by simp
  moreover obtain gr gk where gk: "ks_get ks dn ?s k' = (gr, gk)" by fastforce
  have "\<exists>e. fst (ks_get ks dn ?s k') = Inl e"
    using get [OF plain(2) gk] c' gk by (cases gr) simp_all
  then have "\<exists>e. fst (dkim_get_dns_record cod ks dn ?s k') = Inl e"
    by (auto simp: dkim_get_dns_record_def split: prod.splits sum.splits)
  moreover have "domain_dkim db' = domain_dkim db"
    using create_dkim_key_db [OF stored(5)] r2 by (cases r2) simp_all
  ultimately show ?thesis by blast
qed (auto simp: errs)

end

section \<open>The signing key\<close>

lemma find_True: "find (\<lambda>x. True) xs = (case xs of [] \<Rightarrow> None | x # ys \<Rightarrow> Some x)"
  by (cases xs) simp_all

text \<open>The latest activation comes first.\<close>

lemma latest_first_max:
  assumes "key \<in> set ks" and "dk_activated_at key = Some t"
    and "\<And>x t'. x \<in> set ks \<Longrightarrow> x \<noteq> key \<Longrightarrow> dk_activated_at x = Some t' \<Longrightarrow> t' < t"
  shows "find (\<lambda>x. True) (latest_first ks) = Some key"
proof -
  let ?act = "filter (\<lambda>key. dk_activated_at key \<noteq> None) ks"
  let ?s = "sort_key (\<lambda>key. - the (dk_activated_at key)) ?act"
  have "key \<in> set ?s" using assms(1,2) by simp
  then have "?s \<noteq> []" by (metis empty_iff list.set(1))
  then obtain x xs where s: "?s = x # xs" by (metis neq_Nil_conv)
  have "sorted (map (\<lambda>key. - the (dk_activated_at key)) ?s)" by (rule sorted_sort_key)
  with \<open>key \<in> set ?s\<close> have le: "the (dk_activated_at key) \<le> the (dk_activated_at x)"
    unfolding s by auto
  have "x \<in> set ?s" unfolding s by simp
  then obtain t' where x: "x \<in> set ks" "dk_activated_at x = Some t'" by auto
  have "x = key"
  proof (rule ccontr)
    assume "x \<noteq> key"
    from assms(3) [OF x(1) this x(2)] le assms(2) x(2) show False by simp
  qed
  then show ?thesis by (simp only: latest_first_def s append_Cons find.simps if_True)
qed

lemma set_dkim_rows: "x \<in> set (dkim_rows db) \<longleftrightarrow> (\<exists>y\<in>set (domain_dkim db). join_key db y = Some x)"
  by (force simp: dkim_rows_def List.map_filter_def image_iff)

lemma join_key_Some:
  "join_key db y = Some x \<longleftrightarrow>
     (\<exists>d. find (\<lambda>d. dom_id d = dk_domain_id y) (domains db) = Some d \<and> x = y\<lparr>dk_domain := dom_name d\<rparr>)"
  by (auto simp: join_key_def)

lemma join_key_total:
  assumes "wf_db db" and "y \<in> set (domain_dkim db)"
  obtains d where "join_key db y = Some (y\<lparr>dk_domain := dom_name d\<rparr>)"
    and "find (\<lambda>d. dom_id d = dk_domain_id y) (domains db) = Some d"
proof -
  from assms have "dk_domain_id y \<in> dom_id ` set (domains db)"
    by (auto simp: wf_db_def wf_defs ref_def)
  then have "find (\<lambda>d. dom_id d = dk_domain_id y) (domains db) \<noteq> None"
    by (auto simp: find_key_None_iff)
  with that show thesis by (auto simp: join_key_Some)
qed

lemma dkim_rows_id_unique:
  assumes "wf_db db" and "x \<in> set (dkim_rows db)" and "x' \<in> set (dkim_rows db)" and "dk_id x = dk_id x'"
  shows "x = x'"
proof -
  from assms(2,3) obtain y y' where y: "y \<in> set (domain_dkim db)" "join_key db y = Some x"
    "y' \<in> set (domain_dkim db)" "join_key db y' = Some x'" by (auto simp: set_dkim_rows)
  with assms(4) have "dk_id y = dk_id y'" by (auto simp: join_key_Some)
  with y assms(1) have "y = y'"
    using distinct_key_eq [of dk_id "domain_dkim db" y y'] by (simp add: wf_db_def wf_defs)
  with y show ?thesis by simp
qed

lemma dkim_query_eq:
  "dkim_query msg f db =
     (if fails db then (Inl (Wrap msg Fault), tick db)
      else (case f (dkim_rows (tick db)) of
              None \<Rightarrow> Inl err_dkim_key_not_found | Some key \<Rightarrow> Inr key, tick db))"
  by (simp add: dkim_query_def sql_simps errs split: option.splits)

definition keeps_dkim_keys :: "(dkim_key \<Rightarrow> dkim_key) \<Rightarrow> bool" where
  "keeps_dkim_keys f \<longleftrightarrow> (\<forall>y. dk_id (f y) = dk_id y \<and> dk_domain_id (f y) = dk_domain_id y \<and>
     dk_selector (f y) = dk_selector y \<and> dk_algorithm (f y) = dk_algorithm y \<and>
     dk_key_bits (f y) = dk_key_bits y \<and> dk_status (f y) \<in> {''pending'', ''active'', ''revoked''})"

lemma wf_dkim_update:
  assumes "wf_db db" and "keeps_dkim_keys f"
  shows "wf_db (db\<lparr>domain_dkim := update_where P f (domain_dkim db)\<rparr>)"
proof -
  have m: "map dk_id (update_where P f (domain_dkim db)) = map dk_id (domain_dkim db)"
    "map (\<lambda>k. (dk_domain_id k, dk_selector k)) (update_where P f (domain_dkim db)) =
       map (\<lambda>k. (dk_domain_id k, dk_selector k)) (domain_dkim db)"
    "map dk_domain_id (update_where P f (domain_dkim db)) = map dk_domain_id (domain_dkim db)"
    using assms(2) by (auto simp: keeps_dkim_keys_def)
  have st: "\<forall>k\<in>set (update_where P f (domain_dkim db)). dk_status k \<in> {''pending'', ''active'', ''revoked''} \<and>
      dk_algorithm k = ''rsa-sha256'' \<and> dk_key_bits k = 2048"
    using assms by (auto simp: tbl_simps keeps_dkim_keys_def wf_db_def wf_dkim_def)
  show ?thesis
    using assms(1) st unfolding wf_db_replace(3) [OF assms(1)]
    by (simp add: wf_dkim_def m ref_map [OF m(3)] wf_dbD(5) [OF assms(1), unfolded wf_dkim_def])
qed

lemma keeps_dkim_updates [simp]:
  "keeps_dkim_keys (\<lambda>y. y\<lparr>dk_status := ''active'', dk_activated_at := t\<rparr>)"
  "keeps_dkim_keys (\<lambda>y. y\<lparr>dk_status := ''revoked'', dk_revoked_at := t\<rparr>)"
  by (simp_all add: keeps_dkim_keys_def)

lemma dkim_update_Inr:
  assumes "dkim_update msg f i db = (Inr (), db')"
  shows "db' = (tick db)\<lparr>domain_dkim := update_where (\<lambda>y. dk_id y = i) f (domain_dkim db)\<rparr>"
    and "\<exists>y\<in>set (domain_dkim db). dk_id y = i"
  using assms by (auto simp: dkim_update_def sql_simps affected_0_iff split: if_splits)

text \<open>A row of the table after an update: the one with the identifier is changed, the others are as before.\<close>

lemma dkim_rows_update:
  assumes "wf_db db" and "keeps_dkim_keys f" and "x \<in> set (dkim_rows db)"
    and "db' = db\<lparr>domain_dkim := update_where (\<lambda>y. dk_id y = i) f (domain_dkim db)\<rparr>"
    and "\<And>y n. f (y\<lparr>dk_domain := n\<rparr>) = (f y)\<lparr>dk_domain := n\<rparr>"
  shows "(if dk_id x = i then f x else x) \<in> set (dkim_rows db')"
    and "\<And>z. z \<in> set (dkim_rows db') \<Longrightarrow> dk_id z \<noteq> i \<Longrightarrow> z \<in> set (dkim_rows db)"
proof -
  from assms(3) obtain y d where y: "y \<in> set (domain_dkim db)"
    "find (\<lambda>d. dom_id d = dk_domain_id y) (domains db) = Some d" "x = y\<lparr>dk_domain := dom_name d\<rparr>"
    by (auto simp: set_dkim_rows join_key_Some)
  have "(if dk_id y = i then f y else y) \<in> set (domain_dkim db')"
    using y(1) by (auto simp: assms(4) tbl_simps)
  moreover have "join_key db' (if dk_id y = i then f y else y) = Some (if dk_id x = i then f x else x)"
    using y assms(2,5) by (simp add: assms(4) join_key_Some keeps_dkim_keys_def)
  ultimately show "(if dk_id x = i then f x else x) \<in> set (dkim_rows db')"
    by (auto simp: set_dkim_rows)
  fix z assume z: "z \<in> set (dkim_rows db')" "dk_id z \<noteq> i"
  then obtain w where w: "w \<in> set (domain_dkim db')" "join_key db' w = Some z"
    by (auto simp: set_dkim_rows)
  then have "dk_id w \<noteq> i" using z by (auto simp: join_key_Some)
  with w assms(2) have "w \<in> set (domain_dkim db)"
    by (auto simp: assms(4) tbl_simps keeps_dkim_keys_def)
  moreover have "join_key db w = Some z" using w(2) by (simp add: assms(4) join_key_def)
  ultimately show "z \<in> set (dkim_rows db)" by (auto simp: set_dkim_rows)
qed

lemma dkim_activate_Inr:
  assumes "wf_db db" and "faults db = []"
    and "dkim_activate_key ks now dn sel db k = (Inr (), db', k')"
  obtains dm key where "find (\<lambda>d. dom_name d = dn) (domains db) = Some dm"
    and "key \<in> set (dkim_rows db)" and "dk_domain_id key = dom_id dm"
    and "to_lower (dk_selector key) = to_lower sel" and "ks_has ks dn sel k = (True, k')"
    and "db' = db\<lparr>domain_dkim := update_where (\<lambda>y. dk_id y = dk_id key)
           (\<lambda>y. y\<lparr>dk_status := ''active'', dk_activated_at := Some now\<rparr>) (domain_dkim db)\<rparr>"
proof -
  note run = assms(3) [unfolded dkim_activate_key_def]
  from run assms(2) obtain dm where dm: "find (\<lambda>d. dom_name d = dn) (domains db) = Some dm"
    by (auto simp: sql_simps split: option.splits)
  let ?P = "\<lambda>key. dk_domain_id key = dom_id dm \<and> to_lower (dk_selector key) = to_lower sel"
  from run assms(2) dm obtain key where key: "find ?P (dkim_rows db) = Some key"
    by (auto simp: sql_simps get_dkim_key_by_selector_def dkim_query_eq split: option.splits)
  obtain b k1 where b: "ks_has ks dn sel k = (b, k1)" by fastforce
  from run assms(2) dm key b have "b" "k1 = k'" "activate_dkim_key now (dk_id key) db = (Inr (), db')"
    by (auto simp: sql_simps get_dkim_key_by_selector_def dkim_query_eq split: if_splits prod.splits)
  with b dm find_SomeD [OF key] dkim_update_Inr(1) [OF this(3) [unfolded activate_dkim_key_def]] assms(2)
  show thesis by (intro that [of dm key]) simp_all
qed

lemma find_append_None: "find P xs = None \<Longrightarrow> find P (xs @ ys) = find P ys"
  by (induction xs) (auto split: if_splits)

text \<open>The policy of a domain after it has been written.\<close>

lemma upsert_policy_Inr:
  assumes "upsert_policy now p db = (Inr (), db')" and "wf_db db"
    and "find (\<lambda>d. dom_id d = pol_domain_id p) (domains db) = Some d"
  shows "policy_row (pol_domain_id p) db' = Some ((case policy_row (pol_domain_id p) db of
      Some old \<Rightarrow> set_policy_columns now p old
    | None \<Rightarrow> p\<lparr>pol_created_at := now, pol_updated_at := now\<rparr>)\<lparr>pol_domain := dom_name d\<rparr>)"
    and "domains db' = domains db"
proof -
  let ?i = "pol_domain_id p" and ?t = "domain_mail_policy db"
  have dist: "distinct (map pol_domain_id ?t)" using assms(2) by (simp add: wf_db_def wf_defs)
  have "policy_row ?i db' = Some ((case policy_row ?i db of
      Some old \<Rightarrow> set_policy_columns now p old
    | None \<Rightarrow> p\<lparr>pol_created_at := now, pol_updated_at := now\<rparr>)\<lparr>pol_domain := dom_name d\<rparr>) \<and>
    domains db' = domains db"
  proof (cases "find (\<lambda>r. pol_domain_id r = ?i) ?t")
    case None
    then have "\<not> has_key pol_domain_id ?i ?t" by (auto simp: sql_simps find_key_None_iff)
    with assms(1,3) have "db' = (tick db)\<lparr>domain_mail_policy := ?t @
        [p\<lparr>pol_domain := '''', pol_created_at := now, pol_updated_at := now\<rparr>]\<rparr>"
      by (auto simp: upsert_policy_def sql_simps split: if_splits)
    then show ?thesis using None assms(3)
      by (simp add: policy_row_def find_append_None)
  next
    case (Some r)
    then have r: "r \<in> set ?t" "pol_domain_id r = ?i" using find_SomeD by fastforce+
    then have "has_key pol_domain_id ?i ?t" by (auto simp: sql_simps)
    with assms(1) have db': "db' = (tick db)\<lparr>domain_mail_policy :=
        update_where (\<lambda>r. pol_domain_id r = ?i) (set_policy_columns now p) ?t\<rparr>"
      by (auto simp: upsert_policy_def sql_simps split: if_splits)
    have keys: "map pol_domain_id (domain_mail_policy db') = map pol_domain_id ?t"
      by (simp add: db' set_policy_columns_def)
    have "set_policy_columns now p r \<in> set (domain_mail_policy db')"
      using r by (auto simp: db' tbl_simps)
    then have "find (\<lambda>r. pol_domain_id r = ?i) (domain_mail_policy db') = Some (set_policy_columns now p r)"
      using r dist keys by (simp add: find_key_Some_iff set_policy_columns_def)
    then show ?thesis using Some r assms(3)
      by (simp add: policy_row_def db' set_policy_columns_def)
  qed
  then show "policy_row ?i db' = Some ((case policy_row ?i db of
      Some old \<Rightarrow> set_policy_columns now p old
    | None \<Rightarrow> p\<lparr>pol_created_at := now, pol_updated_at := now\<rparr>)\<lparr>pol_domain := dom_name d\<rparr>)"
    and "domains db' = domains db" by blast+
qed

lemma policy_row_simps:
  "policy_row i db = Some p \<Longrightarrow> pol_domain_id p = i"
  "policy_row i (tick db) = policy_row i db"
  by (auto simp: policy_row_def split: option.splits dest: find_SomeD)

lemma dkim_get_policy_eq:
  assumes "faults db = []" and "find (\<lambda>d. dom_name d = dn) (domains db) = Some dm"
  shows "\<exists>p. dkim_get_policy getenv dn db = (Inr p, db) \<and>
    (case policy_row (dom_id dm) db of
       Some old \<Rightarrow> p = old
     | None \<Rightarrow> \<exists>s d. p = (empty_policy (dom_id dm))\<lparr>pol_domain := dn, pol_spf := s, pol_dmarc := d\<rparr>)"
  using assms
  by (auto simp: dkim_get_policy_def repo_get_policy_def sql_simps errs Let_def empty_policy_def
      split: option.splits)

section \<open>A concrete keystore\<close>

text \<open>An instance of the codecs that satisfies their laws, and a disk with one key.\<close>

definition example_codec :: rsa_codec where
  "example_codec =
     \<lparr>pem_encode = (\<lambda>t b. CHR ''-'' # b),
      pem_decode = (\<lambda>s. case s of [] \<Rightarrow> None | c # b \<Rightarrow> Some b),
      marshal_pkcs1 = (\<lambda>p. nat_str (prod_encode (prod_encode (rsa_n (rsa_pub p), rsa_e (rsa_pub p)), rsa_secret p))),
      parse_pkcs1 = (\<lambda>b. let (x, s) = prod_decode (digits_val b); (n, e) = prod_decode x
                         in Some \<lparr>rsa_pub = \<lparr>rsa_n = n, rsa_e = e\<rparr>, rsa_secret = s\<rparr>),
      parse_pkcs8_rsa = (\<lambda>b. None),
      marshal_pkix = (\<lambda>p. Inr (nat_str (prod_encode (rsa_n p, rsa_e p)))),
      parse_pkix = (\<lambda>b. let (n, e) = prod_decode (digits_val b) in Inr (Some \<lparr>rsa_n = n, rsa_e = e\<rparr>)),
      err_text = (\<lambda>e. '''')\<rparr>"

lemma example_codec_law: "codec_law example_codec"
  by (simp add: codec_law_def example_codec_def)

definition example_rsa :: rsa_private where
  "example_rsa = \<lparr>rsa_pub = \<lparr>rsa_n = 2 ^ 2047, rsa_e = 65537\<rparr>, rsa_secret = 1\<rparr>"

lemma example_generate:
  assumes "bitlen (int (rsa_n (rsa_pub priv))) = 2048"
  obtains pair where "generate_rsa_keypair example_codec (Inr priv) 2048 = Inr pair"
    and "validate_private_key example_codec (private_key_pem pair) = Inr priv"
    and "private_key_pem pair \<noteq> []"
proof -
  obtain der where der: "marshal_pkix example_codec (rsa_pub priv) = Inr der"
    by (simp add: example_codec_def)
  have pem: "pem_encode example_codec t b \<noteq> []" for t b by (simp add: example_codec_def)
  define pair where "pair = \<lparr>private_key_pem =
      pem_encode example_codec ''RSA PRIVATE KEY'' (marshal_pkcs1 example_codec priv),
    public_key_pem = pem_encode example_codec ''PUBLIC KEY'' der, public_key_dns = b64std_encode der\<rparr>"
  show thesis
  proof (rule that [of pair])
    show "generate_rsa_keypair example_codec (Inr priv) 2048 = Inr pair"
      by (simp add: generate_rsa_keypair_def der pair_def)
    show "validate_private_key example_codec (private_key_pem pair) = Inr priv"
      using example_codec_law assms
      by (simp add: validate_private_key_def parse_rsa_private_key_def pair_def codec_law_def)
    show "private_key_pem pair \<noteq> []" by (simp add: pair_def pem)
  qed
qed

lemma example_rsa_bits: "bitlen (int (rsa_n (rsa_pub example_rsa))) = 2048"
proof -
  have "bitlen (1 * 2 ^ 2047) = bitlen 1 + int 2047" by (rule bitlen_pow2) simp
  moreover have "bitlen 1 = 1" by (simp add: bitlen_alt_def)
  ultimately show ?thesis unfolding example_rsa_def by (simp only: rsa_private.simps rsa_public.simps
        of_nat_power of_nat_numeral mult_1)
qed

text \<open>On a working disk with nothing in the way a key is stored.\<close>

lemma fs_store_succeeds:
  assumes "disk_faults k = []" and "validate_selector s = Inr ()" and "plain (canon d)" and "pem \<noteq> []"
    and "mkdir_all 488 (proc_owner k) (files k) (base @ [canon d, canon s]) = Some t"
    and "fs_stat t (base @ [canon d, canon s, ''private.key.tmp-'' @ nat_str n]) = None"
    and "\<not> is_dir t (base @ [canon d, canon s, ''private.key''])"
  shows "\<exists>p k'. fs_store_key base d s n pem k = (Inr p, k')"
proof -
  have s: "plain (canon s)" using valid_selector_plain assms(2) by blast
  have "is_dir t (base @ [canon d, canon s])" by (rule mkdir_all_is_dir [OF assms(5)]) simp
  then show ?thesis
    using assms s
    by (simp add: fs_store_key_def fs_key_path_plain path_dir_def butlast_append Let_def os_simps
        os_create_temp_def write_key_file_def os_flush_def is_dir_def split: option.splits node.splits)
qed

section \<open>Properties\<close>

text \<open>
  C19. A generated key can be published and verified: the DNS record offered for it carries the
  public key that was returned, and once a lookup of its name yields that value, in one string
  or split into several, the verification reports \<open>VERIFIED\<close>.
\<close>

theorem dkim_generate_then_verify:
  assumes "codec_law cod" and "domains_canon db" and "disk_faults k = []"
    and "dkim_generate_key cod (fs_keystore base) newid now rnd tmp dn sel db k = (Inr (key, pair), db', k')"
  shows "\<exists>rec. dkim_get_dns_record cod (fs_keystore base) dn (dk_selector key) k' = (Inr rec, k') \<and>
    rr_value rec = build_dns_txt_value (public_key_dns pair) \<and>
    (\<forall>lookup recs. lookup (rr_name rec) = Inr recs \<longrightarrow> concat recs = rr_value rec \<longrightarrow>
       (\<exists>v. dkim_verify_dns cod (fs_keystore base) dn (dk_selector key) lookup k' = ((v, None), k') \<and>
            vr_status v = ''VERIFIED''))"
  by (rule fskeys.generate_then_verify [OF assms])

definition example_key_disk :: disk where
  "example_key_disk =
     \<lparr>files = [], proc_owner = (0, 0), privileged = True, disk_now = 0, disk_faults = [], disk_torn = []\<rparr>"

lemma example_names:
  "canon ''Example.org'' = ''example.org''" "canon ''S1'' = ''s1''" "canon ''s1'' = ''s1''"
  "canon ''example.org'' = ''example.org''"
  "validate_selector ''s1'' = Inr ()" "chosen_selector ''S1'' = ''s1''" "plain ''example.org''"
  by code_simp+

lemma domains_canon_example: "domains_canon example_db"
proof -
  have "is_valid_domain_name ''example.org''" by code_simp
  then show ?thesis
    by (simp add: domains_canon_def example_db_def example_domain_def example_names)
qed

lemma example_dkim_store:
  assumes "pem \<noteq> []"
  shows "\<exists>p k'. fs_store_key [''dkim''] ''example.org'' ''s1'' 1 pem example_key_disk = (Inr p, k')"
proof -
  define t where "t = [([''dkim'', ''example.org'', ''s1''], Dir 488 (0, 0)),
    ([''dkim'', ''example.org''], Dir 488 (0, 0)), ([''dkim''], Dir 488 (0, 0))]"
  have t: "mkdir_all 488 (0, 0) [] [''dkim'', ''example.org'', ''s1''] = Some t"
    unfolding t_def by code_simp
  show ?thesis
    by (rule fs_store_succeeds [of _ _ _ _ _ t])
      (use assms t in \<open>simp_all add: example_key_disk_def example_names\<close>,
       simp_all add: t_def fs_stat_def is_dir_def)
qed

lemma example_generate_key:
  "\<exists>key pair db' k'. dkim_generate_key example_codec (fs_keystore [''dkim'']) 9 0 (Inr example_rsa) 1
     ''Example.org'' ''S1'' example_db example_key_disk = (Inr (key, pair), db', k')"
proof -
  obtain pair where pair: "generate_rsa_keypair example_codec (Inr example_rsa) 2048 = Inr pair"
    "validate_private_key example_codec (private_key_pem pair) = Inr example_rsa"
    "private_key_pem pair \<noteq> []"
    by (rule example_generate [OF example_rsa_bits])
  obtain p k' where "fs_store_key [''dkim''] ''example.org'' ''s1'' 1 (private_key_pem pair)
      example_key_disk = (Inr p, k')"
    using example_dkim_store [OF pair(3)] by blast
  moreover have "\<exists>db'. create_dkim_key (new_key 9 0 1 ''example.org'' ''s1'') example_db = (Inr (), db')"
    by (simp add: create_dkim_key_def sql_simps example_db_def empty_db_def dkim_constraints_def
        new_key_def example_domain_def Let_def)
  ultimately show ?thesis
    using pair(1,2) example_names wf_example_db
    by (auto simp: dkim_generate_key_def canon_alt Let_def chosen_selector_def [symmetric] fs_keystore_def
        sql_simps example_domain_def new_key_def simp flip: example_db_def)
      (auto simp: example_db_def example_domain_def)
qed

theorem dkim_generate_then_verify_witness:
  "\<exists>rec key k'. dkim_get_dns_record example_codec (fs_keystore [''dkim'']) ''Example.org''
       (dk_selector (key :: dkim_key)) k' = (Inr rec, k') \<and>
     vr_status (fst (fst (dkim_verify_dns example_codec (fs_keystore [''dkim'']) ''Example.org''
       (dk_selector key) (\<lambda>name. Inr [take 9 (rr_value rec), drop 9 (rr_value rec)]) k'))) = ''VERIFIED''"
proof -
  obtain key pair db' k' where run: "dkim_generate_key example_codec (fs_keystore [''dkim'']) 9 0
      (Inr example_rsa) 1 ''Example.org'' ''S1'' example_db example_key_disk = (Inr (key, pair), db', k')"
    using example_generate_key by blast
  have nf: "disk_faults example_key_disk = []" by (simp add: example_key_disk_def)
  from dkim_generate_then_verify [OF example_codec_law domains_canon_example nf run]
  obtain rec where rec: "dkim_get_dns_record example_codec (fs_keystore [''dkim'']) ''Example.org''
      (dk_selector key) k' = (Inr rec, k')"
    and v: "\<And>lookup recs. lookup (rr_name rec) = Inr recs \<Longrightarrow> concat recs = rr_value rec \<Longrightarrow>
       \<exists>v. dkim_verify_dns example_codec (fs_keystore [''dkim'']) ''Example.org'' (dk_selector key) lookup k' =
         ((v, None), k') \<and> vr_status v = ''VERIFIED''"
    by metis
  from v [of "\<lambda>name. Inr [take 9 (rr_value rec), drop 9 (rr_value rec)]"
      "[take 9 (rr_value rec), drop 9 (rr_value rec)]"]
  obtain w where "dkim_verify_dns example_codec (fs_keystore [''dkim'']) ''Example.org'' (dk_selector key)
      (\<lambda>name. Inr [take 9 (rr_value rec), drop 9 (rr_value rec)]) k' = ((w, None), k')"
    "vr_status w = ''VERIFIED''"
    by auto
  then have "vr_status (fst (fst (dkim_verify_dns example_codec (fs_keystore [''dkim'']) ''Example.org''
       (dk_selector key) (\<lambda>name. Inr [take 9 (rr_value rec), drop 9 (rr_value rec)]) k'))) = ''VERIFIED''"
    by simp
  with rec show ?thesis by blast
qed

text \<open>
  C20. Generating a selector that already has a row loses its private key: the new file has
  replaced the old one before the database refuses the row, and the compensation deletes it.
  The row stays, its DNS record can no longer be made, and every other key is as it was.
\<close>

theorem dkim_generate_loses_existing:
  assumes "domains_canon db" and "disk_faults k = []"
    and "dkim_generate_key cod (fs_keystore base) newid now rnd tmp dn sel db k =
      (Inl err_dkim_key_exists, db', k')"
  shows "domain_dkim db' = domain_dkim db \<and>
    fs_keys base k' = (fs_keys base k)((canon dn, chosen_selector sel) := None) \<and>
    (\<exists>e. fst (dkim_get_dns_record cod (fs_keystore base) dn (chosen_selector sel) k') = Inl e)"
  by (rule fskeys.generate_existing [OF assms])

definition example_signed_disk :: disk where
  "example_signed_disk =
     example_key_disk\<lparr>files :=
       [([''dkim'', ''example.org'', ''s1'', ''private.key''], File 384 (0, 0) ''old key'' 0),
        ([''dkim'', ''example.org'', ''s1''], Dir 488 (0, 0)),
        ([''dkim'', ''example.org''], Dir 488 (0, 0)), ([''dkim''], Dir 488 (0, 0))]\<rparr>"

definition example_signed_db :: db where
  "example_signed_db = example_db\<lparr>domain_dkim := [(new_key 3 0 1 '''' ''s1'')\<lparr>dk_status := ''active'',
     dk_activated_at := Some 5\<rparr>]\<rparr>"

lemma example_signed_store:
  assumes "pem \<noteq> []"
  shows "\<exists>p k'. fs_store_key [''dkim''] ''example.org'' ''s1'' 1 pem example_signed_disk = (Inr p, k')"
proof -
  have t: "mkdir_all 488 (proc_owner example_signed_disk) (files example_signed_disk)
      [''dkim'', ''example.org'', ''s1''] = Some (files example_signed_disk)"
    by code_simp
  show ?thesis
    by (rule fs_store_succeeds [of _ _ _ _ _ "files example_signed_disk"])
      (use assms t in \<open>simp_all add: example_names\<close>,
       simp_all add: example_signed_disk_def example_key_disk_def fs_stat_def is_dir_def)
qed

theorem dkim_generate_loses_existing_witness:
  "\<exists>db' k'. dkim_generate_key example_codec (fs_keystore [''dkim'']) 9 0 (Inr example_rsa) 1
       ''Example.org'' ''S1'' example_signed_db example_signed_disk = (Inl err_dkim_key_exists, db', k') \<and>
     fs_keys [''dkim''] example_signed_disk (''example.org'', ''s1'') = Some ''old key'' \<and>
     fs_keys [''dkim''] k' (''example.org'', ''s1'') = None"
proof -
  obtain pair where pair: "generate_rsa_keypair example_codec (Inr example_rsa) 2048 = Inr pair"
    "validate_private_key example_codec (private_key_pem pair) = Inr example_rsa"
    "private_key_pem pair \<noteq> []"
    by (rule example_generate [OF example_rsa_bits])
  obtain p k1 where st: "fs_store_key [''dkim''] ''example.org'' ''s1'' 1 (private_key_pem pair)
      example_signed_disk = (Inr p, k1)"
    using example_signed_store [OF pair(3)] by blast
  have "to_lower ''s1'' = ''s1''" by code_simp
  then have "create_dkim_key (new_key 9 0 1 ''example.org'' ''s1'') example_signed_db =
      (Inl err_dkim_key_exists, example_signed_db)"
    by (simp add: create_dkim_key_def sql_simps example_signed_db_def example_db_def empty_db_def
        dkim_constraints_def new_key_def example_domain_def Let_def)
  then have run: "dkim_generate_key example_codec (fs_keystore [''dkim'']) 9 0 (Inr example_rsa) 1
      ''Example.org'' ''S1'' example_signed_db example_signed_disk =
      (Inl err_dkim_key_exists, example_signed_db,
       snd (fs_delete_key [''dkim''] ''example.org'' ''s1'' k1))"
    using pair(1,2) st example_names wf_example_db
    by (simp add: dkim_generate_key_def canon_alt Let_def chosen_selector_def [symmetric] fs_keystore_def
        sql_simps new_key_def example_signed_db_def)
      (simp add: example_db_def example_domain_def)
  have "domains_canon example_signed_db" "disk_faults example_signed_disk = []"
    using domains_canon_example
    by (simp_all add: example_signed_disk_def example_key_disk_def domains_canon_def example_signed_db_def)
  from dkim_generate_loses_existing [OF this run] run
  have "fs_keys [''dkim''] (snd (fs_delete_key [''dkim''] ''example.org'' ''s1'' k1)) (''example.org'', ''s1'') = None"
    by (simp add: example_names)
  moreover have "fs_keys [''dkim''] example_signed_disk (''example.org'', ''s1'') = Some ''old key''"
    by code_simp
  ultimately show ?thesis using run by blast
qed

text \<open>
  An activated selector signs: on a database whose earlier activations lie in the past, the
  key that \<open>GetActiveKey\<close> returns afterwards is the one of that selector, whatever its status was
  before (a revoked key is active again), its file is there, and no other row has changed.
\<close>

theorem dkim_activate_signs:
  assumes "wf_db db" and "faults db = []"
    and "dkim_activate_key (fs_keystore base) now dn sel db k = (Inr (), db', k')"
    and "\<forall>key\<in>set (domain_dkim db). \<forall>t. dk_activated_at key = Some t \<longrightarrow> t < now"
  shows "\<exists>key. dkim_get_active_key dn db' = (Inr key, db') \<and> to_lower (dk_selector key) = to_lower sel \<and>
    dk_activated_at key = Some now \<and> is_file (files k) (fs_key_path base dn sel) \<and>
    (\<forall>y\<in>set (domain_dkim db). dk_id y \<noteq> dk_id key \<longrightarrow> y \<in> set (domain_dkim db'))"
  using assms(1-3)
proof (cases rule: dkim_activate_Inr)
  case (1 dm key)
  let ?f = "\<lambda>y. y\<lparr>dk_status := ''active'', dk_activated_at := Some now\<rparr>"
  have wf': "wf_db db'" unfolding 1(6) by (rule wf_dkim_update [OF assms(1)]) simp
  have f': "faults db' = []" "domains db' = domains db" by (simp_all add: 1(6) assms(2))
  note upd = dkim_rows_update [where db = db and f = ?f and i = "dk_id key" and db' = db', OF assms(1) _ _ 1(6)]
  have mine: "?f key \<in> set (dkim_rows db')"
    using upd(1) [OF _ 1(2)] by simp
  let ?rows = "filter (\<lambda>y. dk_domain_id y = dom_id dm \<and> dk_status y = ''active'') (dkim_rows db')"
  have "find (\<lambda>x. True) (latest_first ?rows) = Some (?f key)"
  proof (rule latest_first_max)
    show "?f key \<in> set ?rows" using mine 1(3) by simp
    show "dk_activated_at (?f key) = Some now" by simp
    fix x t assume x: "x \<in> set ?rows" "x \<noteq> ?f key" "dk_activated_at x = Some t"
    then have "dk_id x \<noteq> dk_id key"
      using dkim_rows_id_unique [OF wf' _ mine, of x] by auto
    then have "x \<in> set (dkim_rows db)" using upd(2) [OF _ 1(2), of x] x(1) by simp
    then show "t < now" using assms(4) x(3) by (auto simp: set_dkim_rows join_key_Some)
  qed
  then have "dkim_get_active_key dn db' = (Inr (?f key), db')"
    using 1(1) f' by (simp add: dkim_get_active_key_def sql_simps get_active_dkim_key_def dkim_query_eq)
  moreover have "is_file (files k) (fs_key_path base dn sel)"
    using 1(5)
    by (auto simp: fs_keystore_def fs_has_key_def is_file_def node_is_dir_def os_simps
        split: prod.splits sum.splits if_splits option.splits node.splits)
  moreover have "\<forall>y\<in>set (domain_dkim db). dk_id y \<noteq> dk_id (?f key) \<longrightarrow> y \<in> set (domain_dkim db')"
    by (auto simp: 1(6) tbl_simps image_iff)
  ultimately show ?thesis using 1(4) by (intro exI [of _ "?f key"]) simp
qed

theorem dkim_activate_signs_witness:
  "\<exists>key db' k'. dkim_activate_key (fs_keystore [''dkim'']) 6 ''example.org'' ''s1'' example_signed_db
      example_signed_disk = (Inr (), db', k') \<and> dkim_get_active_key ''example.org'' db' = (Inr key, db') \<and>
      dk_activated_at key = Some 6"
proof -
  have wf: "wf_db example_signed_db"
    using wf_example_db
    by (simp add: example_signed_db_def example_db_def empty_db_def wf_db_def wf_defs ref_def
        new_key_def example_domain_def)
  have f: "faults example_signed_db = []"
    by (simp add: example_signed_db_def wf_example_db)
  have "fst (dkim_activate_key (fs_keystore [''dkim'']) 6 ''example.org'' ''s1'' example_signed_db
      example_signed_disk) = Inr ()"
    by code_simp
  then obtain db' k' where run: "dkim_activate_key (fs_keystore [''dkim'']) 6 ''example.org'' ''s1''
      example_signed_db example_signed_disk = (Inr (), db', k')"
    by (metis prod.collapse)
  have "\<forall>key\<in>set (domain_dkim example_signed_db). \<forall>t. dk_activated_at key = Some t \<longrightarrow> t < 6"
    by (simp add: example_signed_db_def)
  from dkim_activate_signs [OF wf f run this] run show ?thesis by blast
qed

text \<open>
  Setting the SPF policy of a domain: with a stored policy only this column changes; without
  one the row is made from the in-memory default, whose spam thresholds, size limit and DNS
  policies are zero values, not the defaults of the table.
\<close>

theorem dkim_set_spf_effect:
  assumes "wf_db db" and "faults db = []"
    and "find (\<lambda>d. dom_name d = dn) (domains db) = Some dm"
    and "dkim_set_spf_policy getenv now dn spf db = (Inr (), db')"
  shows "\<exists>p. dkim_get_policy getenv dn db' = (Inr p, db') \<and> pol_spf p = spf \<and>
    (case policy_row (dom_id dm) db of
       Some old \<Rightarrow> p = old\<lparr>pol_spf := spf, pol_updated_at := now\<rparr>
     | None \<Rightarrow> pol_spam_threshold p = 0 \<and> pol_reject_threshold p = 0 \<and> pol_max_message_size p = 0 \<and>
         \<not> pol_quarantine_enabled p \<and> pol_rbl p = '''' \<and> pol_rdns p = '''')"
proof -
  obtain cur where cur: "dkim_get_policy getenv dn db = (Inr cur, db)"
    "case policy_row (dom_id dm) db of
       Some old \<Rightarrow> cur = old
     | None \<Rightarrow> \<exists>s d. cur = (empty_policy (dom_id dm))\<lparr>pol_domain := dn, pol_spf := s, pol_dmarc := d\<rparr>"
    using dkim_get_policy_eq [OF assms(2,3)] by blast
  have id: "pol_domain_id cur = dom_id dm"
    using cur(2) policy_row_simps(1) [of "dom_id dm" db]
    by (cases "policy_row (dom_id dm) db") (auto simp: empty_policy_def)
  have fd: "find (\<lambda>d. dom_id d = dom_id dm) (domains db) = Some dm"
    using assms(1) find_SomeD [OF assms(3)] by (simp add: wf_db_def wf_defs find_key_Some_iff)
  have up: "upsert_policy now (cur\<lparr>pol_spf := spf\<rparr>) db = (Inr (), db')"
    using assms(2-4) cur(1) by (simp add: dkim_set_spf_policy_def sql_simps Let_def)
  note row = upsert_policy_Inr [OF up assms(1), simplified, OF fd [folded id]]
  have fn: "find (\<lambda>d. dom_name d = dn) (domains db') = Some dm" using row(2) assms(3) by simp
  have f: "faults db' = []"
    using up assms(2) by (auto simp: upsert_policy_def sql_simps split: if_splits)
  obtain p where p: "dkim_get_policy getenv dn db' = (Inr p, db')"
    "case policy_row (dom_id dm) db' of Some old \<Rightarrow> p = old
     | None \<Rightarrow> \<exists>s d. p = (empty_policy (dom_id dm))\<lparr>pol_domain := dn, pol_spf := s, pol_dmarc := d\<rparr>"
    using dkim_get_policy_eq [OF f fn] by blast
  have nm: "pol_domain old = dom_name dm" if "policy_row (dom_id dm) db = Some old" for old
  proof -
    from that obtain x where x: "find (\<lambda>p. pol_domain_id p = dom_id dm) (domain_mail_policy db) = Some x"
      "map_option (\<lambda>d. x\<lparr>pol_domain := dom_name d\<rparr>)
         (find (\<lambda>d. dom_id d = pol_domain_id x) (domains db)) = Some old"
      by (auto simp: policy_row_def split: option.splits)
    with find_SomeD [OF x(1)] fd show ?thesis by auto
  qed
  show ?thesis
    using p row(1) id cur(2) nm
    by (cases "policy_row (dom_id dm) db") (auto simp: set_policy_columns_def empty_policy_def)
qed

theorem dkim_set_spf_effect_witness:
  "\<exists>p db'. dkim_set_spf_policy (\<lambda>v. '''') 7 ''example.org'' ''v=spf1 -all'' example_db = (Inr (), db') \<and>
     dkim_get_policy (\<lambda>v. '''') ''example.org'' db' = (Inr p, db') \<and> pol_reject_threshold p = 0"
proof -
  have fd: "find (\<lambda>d. dom_name d = ''example.org'') (domains example_db) = Some example_domain"
    by (simp add: example_db_def example_domain_def)
  have run: "dkim_set_spf_policy (\<lambda>v. '''') 7 ''example.org'' ''v=spf1 -all'' example_db =
      (Inr (), snd (dkim_set_spf_policy (\<lambda>v. '''') 7 ''example.org'' ''v=spf1 -all'' example_db))"
    by (simp add: dkim_set_spf_policy_def sql_simps example_db_def example_domain_def empty_db_def Let_def
        dkim_get_policy_def repo_get_policy_def policy_row_def errs upsert_policy_def empty_policy_def)
  have none: "policy_row (dom_id example_domain) example_db = None"
    by (simp add: policy_row_def example_db_def empty_db_def)
  from dkim_set_spf_effect [OF wf_example_db(1,2) fd run] none obtain p where
    "dkim_get_policy (\<lambda>v. '''') ''example.org''
       (snd (dkim_set_spf_policy (\<lambda>v. '''') 7 ''example.org'' ''v=spf1 -all'' example_db)) =
     (Inr p, snd (dkim_set_spf_policy (\<lambda>v. '''') 7 ''example.org'' ''v=spf1 -all'' example_db))"
    "pol_reject_threshold p = 0"
    by auto
  with run show ?thesis by blast
qed

end
