(* ===== verification/Dkim_Config.thy ===== *)
theory Dkim_Config
  imports Dkim_Props
begin

text \<open>
  The OpenDKIM side of \<open>internal/dkim\<close>: the generated configuration files, their atomic
  writing, and the doctor. Facts: whatever fails, each configuration file is afterwards the old or the complete new one; a healthy report of the
  doctor means that the keys are there and, for the active ones, published.
\<close>

section \<open>Configuration files\<close>

definition newline :: string where
  "newline = [CHR 0x0A]"

definition unlines :: "string list \<Rightarrow> string" where
  "unlines ls = concat (map (\<lambda>l. l @ newline) ls)"

record opendkim_options =
  od_config_dir :: path
  od_target_config_path :: string
  od_dkim_base_dir :: string
  od_socket_path :: string
  od_active_keys :: "dkim_key list"
  od_trusted_hosts :: "string list"

record opendkim_configs =
  opendkim_conf :: string
  key_table :: string
  signing_table :: string
  trusted_hosts :: string

definition opendkim_conf_text :: "string \<Rightarrow> string \<Rightarrow> string" where
  "opendkim_conf_text socket conf_dir = unlines
     [''# OpenDKIM configuration generated by MailOpen (Control Plane)'',
      ''AutoRestart             Yes'',
      ''AutoRestartRate         10/1h'',
      ''UMask                   002'',
      ''Syslog                  Yes'',
      ''SyslogSuccess           Yes'',
      ''LogWhy                  Yes'',
      '''',
      ''Canonicalization        relaxed/relaxed'',
      ''Mode                    s'',
      ''SubDomains              no'',
      '''',
      ''Socket                  '' @ socket,
      ''PidFile                 /var/run/opendkim/opendkim.pid'',
      ''UserID                  postfix:postfix'',
      '''',
      ''KeyTable                refile:'' @ conf_dir @ ''/KeyTable'',
      ''SigningTable            refile:'' @ conf_dir @ ''/SigningTable'',
      ''ExternalIgnoreList      refile:'' @ conf_dir @ ''/TrustedHosts'',
      ''InternalHosts           refile:'' @ conf_dir @ ''/TrustedHosts'']"

definition signs :: "dkim_key \<Rightarrow> bool" where
  "signs key \<longleftrightarrow> dk_status key = ''active'' \<or> dk_status key = ''pending''"

definition key_name :: "dkim_key \<Rightarrow> string" where
  "key_name key = to_lower (dk_selector key) @ ''._domainkey.'' @ to_lower (dk_domain key)"

definition key_table_line :: "string \<Rightarrow> dkim_key \<Rightarrow> string" where
  "key_table_line base key =
     (let domain = to_lower (dk_domain key); selector = to_lower (dk_selector key);
          key_path = base @ ''/'' @ domain @ ''/'' @ selector @ ''/private.key''
      in key_name key @ '' '' @ domain @ '':'' @ selector @ '':'' @ key_path)"

definition signing_table_lines :: "dkim_key \<Rightarrow> string list" where
  "signing_table_lines key =
     (let domain = to_lower (dk_domain key)
      in [''*@'' @ domain @ '' '' @ key_name key, domain @ '' '' @ key_name key])"

definition generate_opendkim_configs :: "opendkim_options \<Rightarrow> opendkim_configs" where
  "generate_opendkim_configs opts =
     (let s0 = (if od_socket_path opts = '''' then ''local:/var/spool/postfix/private/opendkim''
                else od_socket_path opts);
          socket = (if \<not> has_prefix s0 ''local:'' \<and> \<not> has_prefix s0 ''inet:'' then ''local:'' @ s0 else s0);
          base = (if od_dkim_base_dir opts = '''' then ''/etc/mailopen/dkim'' else od_dkim_base_dir opts);
          conf_dir = (if od_target_config_path opts = '''' then ''/etc/mailopen/opendkim''
                      else od_target_config_path opts);
          ks = filter signs (od_active_keys opts);
          hosts = (if od_trusted_hosts opts = [] then [''127.0.0.1'', ''::1'', ''localhost'']
                   else od_trusted_hosts opts)
      in \<lparr>opendkim_conf = opendkim_conf_text socket conf_dir,
          key_table = ''# OpenDKIM KeyTable generated by MailOpen'' @ newline @
            str_join newline (map (key_table_line base) ks) @ newline,
          signing_table = ''# OpenDKIM SigningTable generated by MailOpen'' @ newline @
            str_join newline (concat (map signing_table_lines ks)) @ newline,
          trusted_hosts = ''# OpenDKIM TrustedHosts generated by MailOpen'' @ newline @
            str_join newline hosts @ newline\<rparr>)"

section \<open>Atomic writing\<close>

text \<open>One file: a temporary file beside it, renamed over it at the end.\<close>

definition write_config_file :: "path \<Rightarrow> string \<Rightarrow> nat \<Rightarrow> string \<Rightarrow> disk \<Rightarrow> unit result \<times> disk" where
  "write_config_file dir filename rnd content k =
     (let target = path_join dir [filename];
          tmp = dir @ [filename @ ''.tmp-'' @ nat_str rnd]
      in case os_create_temp tmp k of
           (Inl err, k1) \<Rightarrow> (Inl (Wrap (''create temp file for '' @ filename) err), k1)
         | (Inr u, k1) \<Rightarrow>
      (case os_write_file tmp content 384 k1 of
         (Inl err, k2) \<Rightarrow> (Inl (Wrap (''write '' @ filename) err), snd (os_remove tmp k2))
       | (Inr u, k2) \<Rightarrow>
      (case os_flush k2 of
         (Inl err, k3) \<Rightarrow> (Inl (Wrap (''sync '' @ filename) err), snd (os_remove tmp k3))
       | (Inr u, k3) \<Rightarrow>
      (case os_chmod tmp 420 k3 of
         (Inl err, k4) \<Rightarrow> (Inl (Wrap (''chmod '' @ filename) err), snd (os_remove tmp k4))
       | (Inr u, k4) \<Rightarrow>
      (case os_flush k4 of
         (Inl err, k5) \<Rightarrow> (Inl (Wrap (''close '' @ filename) err), snd (os_remove tmp k5))
       | (Inr u, k5) \<Rightarrow>
      (case os_rename tmp target k5 of
         (Inl err, k6) \<Rightarrow> (Inl (Wrap (''rename '' @ filename) err), snd (os_remove tmp k6))
       | (Inr u, k6) \<Rightarrow> (Inr (), k6)))))))"

fun write_config_files :: "path \<Rightarrow> nat \<Rightarrow> (string \<times> string) list \<Rightarrow> disk \<Rightarrow> unit result \<times> disk" where
  "write_config_files dir rnd [] k = (Inr (), k)"
| "write_config_files dir rnd ((filename, content) # fs) k =
     (case write_config_file dir filename rnd content k of
        (Inl err, k1) \<Rightarrow> (Inl err, k1)
      | (Inr u, k1) \<Rightarrow> write_config_files dir (Suc rnd) fs k1)"

definition opendkim_files :: "opendkim_configs \<Rightarrow> (string \<times> string) list" where
  "opendkim_files c =
     [(''opendkim.conf'', opendkim_conf c), (''KeyTable'', key_table c),
      (''SigningTable'', signing_table c), (''TrustedHosts'', trusted_hosts c)]"

text \<open>
  \<open>order\<close> is the order in which the range over the Go map meets the four files; \<open>cwd\<close> is the
  working directory, for the relative default.
\<close>

definition write_opendkim_configs ::
    "path \<Rightarrow> ((string \<times> string) list \<Rightarrow> (string \<times> string) list) \<Rightarrow> nat \<Rightarrow> opendkim_options \<Rightarrow>
       disk \<Rightarrow> unit result \<times> disk" where
  "write_opendkim_configs cwd order rnd opts k =
     (let dir = (if od_config_dir opts = [] then path_join cwd [''data'', ''opendkim'']
                 else od_config_dir opts)
      in case os_mkdir_all 488 dir k of
           (Inl err, k1) \<Rightarrow> (Inl (Wrap (''create opendkim config dir '' @ path_str dir) err), k1)
         | (Inr u, k1) \<Rightarrow>
             write_config_files dir rnd (order (opendkim_files (generate_opendkim_configs opts))) k1)"

section \<open>Doctor\<close>

record check_item =
  ci_category :: string
  ci_name :: string
  ci_passed :: bool
  ci_message :: string

record dkim_report =
  dr_domain :: string
  dr_healthy :: bool
  dr_checks :: "check_item list"

definition add_check :: "string \<Rightarrow> string \<Rightarrow> bool \<Rightarrow> string \<Rightarrow> dkim_report \<Rightarrow> dkim_report" where
  "add_check category name ok message rep =
     rep\<lparr>dr_checks := dr_checks rep @ [\<lparr>ci_category = category, ci_name = name, ci_passed = ok,
           ci_message = message\<rparr>],
         dr_healthy := (dr_healthy rep \<and> ok)\<rparr>"

text \<open>\<open>%04o\<close> of permission bits, which have at most nine.\<close>

definition octal4 :: "nat \<Rightarrow> string" where
  "octal4 n = map digit_char [n div 512, n div 64 mod 8, n div 8 mod 8, n mod 8]"

text \<open>The last step for one key: the record in the DNS.\<close>

definition check_dns :: "string \<Rightarrow> string \<Rightarrow> dkim_key \<Rightarrow> verification_result \<Rightarrow> dkim_report \<Rightarrow> dkim_report" where
  "check_dns domain_name category key ver rep =
     (if vr_dns_record_found ver
      then add_check category ''Key Match'' (vr_key_matches ver)
             ''DNS public key matches local private key''
           (add_check category ''Public Key Valid'' (vr_public_key_valid ver) ''Valid RSA PKIX''
           (add_check category ''DNS TXT Record'' True (vr_dns_value ver) rep))
      else add_check category ''DNS TXT Record'' (dk_status key \<noteq> ''active'')
             (''TXT record '' @ build_dns_name domain_name (dk_selector key) @ '' not found'') rep)"

definition check_key ::
    "rsa_codec \<Rightarrow> disk keystore \<Rightarrow> (string \<Rightarrow> string list result) \<Rightarrow> string \<Rightarrow> dkim_key \<Rightarrow>
       dkim_report \<Rightarrow> disk \<Rightarrow> dkim_report \<times> disk" where
  "check_key cod ks lookup domain_name key rep k =
     (let sel = dk_selector key;
          category = ''DKIM ['' @ sel @ '']'';
          rep1 = add_check category ''Database Status'' True (''Status: '' @ dk_status key) rep;
          key_path = ks_path ks domain_name sel
      in case os_stat key_path k of
           (Inl err, k1) \<Rightarrow>
             (add_check category ''Private key file'' False (''Missing at '' @ path_str key_path) rep1, k1)
         | (Inr info, k1) \<Rightarrow>
      let rep2 = add_check category ''Private key 0600'' (mode_of info \<le> 384) (octal4 (mode_of info))
                  (add_check category ''Private key file'' True (path_str key_path) rep1)
      in (case os_stat (path_dir key_path) k1 of
            (r, k2) \<Rightarrow>
      let rep3 = (case r of
                Inl err \<Rightarrow> rep2
              | Inr dir_info \<Rightarrow>
                  add_check category ''Directory 0750'' (mode_of dir_info \<le> 488) (octal4 (mode_of dir_info)) rep2)
      in (case ks_get ks domain_name sel k2 of
            (Inl err, k3) \<Rightarrow> (add_check category ''Private key valid'' False (err_text cod err) rep3, k3)
          | (Inr priv_bytes, k3) \<Rightarrow>
      (case validate_private_key cod priv_bytes of
         Inl err \<Rightarrow> (add_check category ''Private key valid'' False (err_text cod err) rep3, k3)
       | Inr priv \<Rightarrow>
           (case dkim_verify_dns cod ks domain_name sel lookup k3 of
              ((ver, e), k4) \<Rightarrow>
                (check_dns domain_name category key ver
                   (add_check category ''Private key valid'' True ''RSA-2048 valid'' rep3), k4))))))"

fun check_keys ::
    "rsa_codec \<Rightarrow> disk keystore \<Rightarrow> (string \<Rightarrow> string list result) \<Rightarrow> string \<Rightarrow> dkim_key list \<Rightarrow>
       dkim_report \<Rightarrow> disk \<Rightarrow> dkim_report \<times> disk" where
  "check_keys cod ks lookup domain_name [] rep k = (rep, k)"
| "check_keys cod ks lookup domain_name (key # keys) rep k =
     (case check_key cod ks lookup domain_name key rep k of
        (rep1, k1) \<Rightarrow> check_keys cod ks lookup domain_name keys rep1 k1)"

definition run_dkim_doctor ::
    "rsa_codec \<Rightarrow> disk keystore \<Rightarrow> (string \<Rightarrow> string list result) \<Rightarrow> string \<Rightarrow> db \<Rightarrow> disk \<Rightarrow>
       dkim_report \<times> db \<times> disk" where
  "run_dkim_doctor cod ks lookup dn db k =
     (let domain_name = to_lower (trim_space dn);
          rep = \<lparr>dr_domain = domain_name, dr_healthy = True, dr_checks = []\<rparr>
      in case dkim_list_keys domain_name db of
           (Inl err, db1) \<Rightarrow>
             (add_check ''DKIM Key'' ''Key exists in database'' False ''No DKIM keys found for domain'' rep, db1, k)
         | (Inr keys, db1) \<Rightarrow>
             (if keys = []
              then (add_check ''DKIM Key'' ''Key exists in database'' False
                      ''No DKIM keys found for domain'' rep, db1, k)
              else (case check_keys cod ks lookup domain_name keys rep k of
                  (rep1, k1) \<Rightarrow> (rep1, db1, k1))))"

section \<open>Facts\<close>

text \<open>One file changes as a whole or not at all; the temporary name may be left behind.\<close>

lemma write_config_file_bytes:
  assumes "write_config_file dir f n c k = (r, k')" and "plain f"
  shows "\<exists>v. fbytes k' = (case r of
      Inr u \<Rightarrow> (fbytes k)(dir @ [f @ ''.tmp-'' @ nat_str n] := None, dir @ [f] \<mapsto> c)
    | Inl e \<Rightarrow> (fbytes k)(dir @ [f @ ''.tmp-'' @ nat_str n] := v))"
proof -
  define tmp where "tmp = dir @ [f @ ''.tmp-'' @ nat_str n]"
  define left where "left k = fbytes (snd (os_remove tmp k)) tmp" for k
  have rm: "fbytes (snd (os_remove tmp k)) = (fbytes k)(tmp := left k)" for k
  proof -
    obtain r2 k2 where "os_remove tmp k = (r2, k2)" by fastforce
    from this fbytes_remove [OF this] show ?thesis by (cases r2) (auto simp: left_def)
  qed
  obtain r1 k1 where 1: "os_create_temp tmp k = (r1, k1)" by fastforce
  obtain r2 k2 where 2: "os_write_file tmp c 384 k1 = (r2, k2)" by fastforce
  obtain r3 k3 where 3: "os_flush k2 = (r3, k3)" by fastforce
  obtain r4 k4 where 4: "os_chmod tmp 420 k3 = (r4, k4)" by fastforce
  obtain r5 k5 where 5: "os_flush k4 = (r5, k5)" by fastforce
  obtain r6 k6 where 6: "os_rename tmp (dir @ [f]) k5 = (r6, k6)" by fastforce
  note b = fbytes_create_temp [OF 1] fbytes_write_file [OF 2] fbytes_flush [OF 3] fbytes_chmod [OF 4]
    fbytes_flush [OF 5] fbytes_rename [OF 6]
  have pj: "path_join dir [f] = dir @ [f]" using path_join_plain [of "[f]" dir] assms(2) by simp
  note run = assms(1) [unfolded write_config_file_def Let_def pj, folded tmp_def, unfolded 1, simplified]
  let ?goal = "\<exists>v. fbytes k' = (case r of
      Inr u \<Rightarrow> (fbytes k)(tmp := None, dir @ [f] \<mapsto> c) | Inl e \<Rightarrow> (fbytes k)(tmp := v))"
  have undone: ?goal if "isl r" "k' = snd (os_remove tmp x)" "fbytes x = (fbytes k)(tmp := v)" for x v
    using that by (cases r) (auto simp: rm)
  have ?goal
  proof (cases r1)
    case (Inl e)
    with run have "isl r" "k' = k1" by (auto simp: isl_def)
    with b(1) Inl show ?goal by (cases r) (auto intro: exI [of _ "fbytes k tmp"])
  next
    case r1: (Inr u)
    with b(1) have f1: "fbytes k1 = (fbytes k)(tmp \<mapsto> [])" by simp
    note run = run [unfolded r1, simplified, unfolded 2, simplified]
    show ?goal
    proof (cases r2)
      case (Inl e)
      with run have "isl r" "k' = snd (os_remove tmp k2)" by (auto simp: isl_def)
      moreover obtain v where "fbytes k2 = (fbytes k)(tmp := v)" using b(2) f1 Inl by fastforce
      ultimately show ?goal by (rule undone)
    next
      case r2: (Inr u)
      with b(2-5) f1 have f: "fbytes k2 = (fbytes k)(tmp \<mapsto> c)" "fbytes k3 = (fbytes k)(tmp \<mapsto> c)"
        "fbytes k4 = (fbytes k)(tmp \<mapsto> c)" "fbytes k5 = (fbytes k)(tmp \<mapsto> c)" by simp_all
      note run = run [unfolded r2, simplified, unfolded 3, simplified]
      consider (a) "isl r3" | (b) "\<not> isl r3" "isl r4" | (c) "\<not> isl r3" "\<not> isl r4" "isl r5"
        | (d) "\<not> isl r3" "\<not> isl r4" "\<not> isl r5" by blast
      then show ?goal
      proof cases
        case a
        with run have "isl r" "k' = snd (os_remove tmp k3)" by (auto simp: isl_def)
        then show ?goal by (rule undone) (rule f)
      next
        case b
        with run 4 have "isl r" "k' = snd (os_remove tmp k4)" by (auto simp: isl_def split: sum.splits)
        then show ?goal by (rule undone) (rule f)
      next
        case c
        with run 4 5 have "isl r" "k' = snd (os_remove tmp k5)" by (auto simp: isl_def split: sum.splits)
        then show ?goal by (rule undone) (rule f)
      next
        case d
        show ?goal
        proof (cases r6)
          case (Inl e)
          with d run 4 5 6 have "isl r" "k' = snd (os_remove tmp k6)"
            by (auto simp: isl_def split: sum.splits)
          moreover have "fbytes k6 = (fbytes k)(tmp \<mapsto> c)" using b(6) f Inl by simp
          ultimately show ?goal by (rule undone)
        next
          case (Inr v)
          with d run 4 5 6 have "r = Inr ()" "k' = k6" by (auto simp: isl_def split: sum.splits)
          with b(6) f Inr show ?goal by simp
        qed
      qed
    qed
  qed
  then show ?thesis by (simp only: tmp_def)
qed

definition temp_name :: "string \<Rightarrow> nat \<Rightarrow> string" where
  "temp_name f n = f @ ''.tmp-'' @ nat_str n"

lemma write_config_file_frame:
  assumes "write_config_file dir f n c k = (r, k')" and "plain f" and "w \<noteq> f" and "w \<noteq> temp_name f n"
  shows "fbytes k' (dir @ [w]) = fbytes k (dir @ [w])"
proof -
  have "dir @ [w] \<noteq> dir @ [f]" "dir @ [w] \<noteq> dir @ [f @ ''.tmp-'' @ nat_str n]"
    using assms(3,4) by (auto simp: temp_name_def)
  then show ?thesis
    using write_config_file_bytes [OF assms(1,2)] by (cases r) auto
qed

lemma write_config_files_frame:
  "write_config_files dir n fs k = (r, k') \<Longrightarrow> \<forall>f\<in>fst ` set fs. plain f \<and> w \<noteq> f \<and> (\<forall>m. w \<noteq> temp_name f m) \<Longrightarrow>
     fbytes k' (dir @ [w]) = fbytes k (dir @ [w])"
proof (induction dir n fs k rule: write_config_files.induct)
  case (2 dir rnd f c fs k)
  obtain r1 k1 where 1: "write_config_file dir f rnd c k = (r1, k1)" by fastforce
  have "fbytes k1 (dir @ [w]) = fbytes k (dir @ [w])"
    using write_config_file_frame [OF 1] 2(3) by simp
  then show ?case using 2 1 by (cases r1) auto
qed simp

lemma write_config_files_bytes:
  "write_config_files dir n fs k = (r, k') \<Longrightarrow> \<forall>f\<in>fst ` set fs. plain f \<Longrightarrow> distinct (map fst fs) \<Longrightarrow>
     \<forall>f\<in>fst ` set fs. \<forall>g\<in>fst ` set fs. \<forall>m. f \<noteq> temp_name g m \<Longrightarrow> (f, c) \<in> set fs \<Longrightarrow>
     fbytes k' (dir @ [f]) \<in> {fbytes k (dir @ [f]), Some c} \<and>
     (\<not> isl r \<longrightarrow> fbytes k' (dir @ [f]) = Some c)"
proof (induction dir n fs k rule: write_config_files.induct)
  case (2 dir rnd g d fs k)
  obtain r1 k1 where 1: "write_config_file dir g rnd d k = (r1, k1)" by fastforce
  have g: "plain g" using 2(3) by simp
  show ?case
  proof (cases "f = g")
    case True
    have fresh: "g \<notin> fst ` set fs" using 2(4) by simp
    then have c: "c = d" using 2(6) True by (auto simp: image_iff)
    have "dir @ [g] \<noteq> dir @ [g @ ''.tmp-'' @ nat_str rnd]" by simp
    then have k1: "fbytes k1 (dir @ [g]) = (case r1 of Inr u \<Rightarrow> Some d | Inl e \<Rightarrow> fbytes k (dir @ [g]))"
      using write_config_file_bytes [OF 1 g] by (cases r1) auto
    show ?thesis
    proof (cases r1)
      case (Inl e)
      with 2(2) 1 k1 True c show ?thesis by auto
    next
      case (Inr u)
      with 2(2) 1 have rest: "write_config_files dir (Suc rnd) fs k1 = (r, k')" by simp
      have "fbytes k' (dir @ [g]) = fbytes k1 (dir @ [g])"
        by (rule write_config_files_frame [OF rest]) (use 2(3,5) fresh in auto)
      with k1 Inr True c show ?thesis by simp
    qed
  next
    case False
    then have f: "(f, c) \<in> set fs" using 2(6) by simp
    have "f \<in> fst ` set fs" using f by force
    then have "fbytes k1 (dir @ [f]) = fbytes k (dir @ [f])"
      using write_config_file_frame [OF 1 g False] 2(5) by auto
    then show ?thesis
      using 2 1 f by (cases r1) auto
  qed
qed simp

lemma opendkim_names:
  "map fst (opendkim_files c) = [''opendkim.conf'', ''KeyTable'', ''SigningTable'', ''TrustedHosts'']"
  by (simp add: opendkim_files_def)

lemma opendkim_name_facts:
  assumes "f \<in> set [''opendkim.conf'', ''KeyTable'', ''SigningTable'', ''TrustedHosts'']"
  shows "plain f" and "f \<noteq> temp_name g m"
proof -
  show "plain f" using assms by (auto simp: plain_def)
  have "CHR ''-'' \<notin> set f" using assms by auto
  moreover have "CHR ''-'' \<in> set (temp_name g m)" by (simp add: temp_name_def)
  ultimately show "f \<noteq> temp_name g m" by metis
qed

text \<open>The doctor: a report that is healthy at the end was healthy at every step.\<close>

lemma healthy_add_check [simp]: "dr_healthy (add_check c n ok m rep) \<longleftrightarrow> dr_healthy rep \<and> ok"
  by (simp add: add_check_def)

lemma healthy_check_dns:
  "dr_healthy (check_dns d c key ver rep) \<longleftrightarrow> dr_healthy rep \<and>
     (if vr_dns_record_found ver then vr_public_key_valid ver \<and> vr_key_matches ver
      else dk_status key \<noteq> ''active'')"
  by (auto simp: check_dns_def)

lemma fs_get_key_Inr:
  "fs_get_key base d s k = (r, k') \<Longrightarrow> files k' = files k \<and> (\<forall>c. r = Inr c \<longrightarrow> fbytes k (fs_key_path base d s) = Some c)"
  by (auto simp: fs_get_key_def Let_def os_simps fbytes_def split: sum.splits if_splits option.splits node.splits)

lemma fbytes_files: "files k' = files k \<Longrightarrow> fbytes k' = fbytes k"
  by (simp add: fbytes_def fun_eq_iff)

text \<open>A record in the DNS that carries the key of a private key.\<close>

definition published :: "rsa_codec \<Rightarrow> (string \<Rightarrow> string list result) \<Rightarrow> string \<Rightarrow> rsa_private \<Rightarrow> bool" where
  "published cod lookup name priv \<longleftrightarrow>
     (\<exists>recs p pub. lookup name = Inr recs \<and> snd (parse_dns_txt_record (str_join '''' recs)) = Inr p \<and>
        parse_rsa_public_key_from_dns cod p = Inr pub \<and> validate_public_key_match (Some priv) (Some pub))"

lemma verify_dns_found:
  assumes "dkim_verify_dns cod (fs_keystore base) d s lookup k = ((ver, e), k')"
  shows "files k' = files k \<and>
    (vr_dns_record_found ver \<and> vr_public_key_valid ver \<and> vr_key_matches ver \<longrightarrow>
      (\<exists>pem priv. fbytes k (fs_key_path base (canon d) (canon s)) = Some pem \<and>
         parse_rsa_private_key cod pem = Inr priv \<and> published cod lookup (build_dns_name (canon d) (canon s)) priv))"
proof -
  obtain r1 k1 where 1: "fs_get_key base (canon d) (canon s) k = (r1, k1)" by fastforce
  note g = fs_get_key_Inr [OF 1]
  show ?thesis
  proof (cases r1)
    case (Inl err)
    with assms 1 g show ?thesis
      by (auto simp: dkim_verify_dns_def canon_alt Let_def fs_keystore_def)
  next
    case (Inr pem)
    let ?name = "build_dns_name (canon d) (canon s)"
    show ?thesis
    proof (cases "parse_rsa_private_key cod pem")
      case (Inl err)
      with assms 1 g Inr show ?thesis
        by (auto simp: dkim_verify_dns_def canon_alt Let_def fs_keystore_def)
    next
      case priv: (Inr priv)
      with assms 1 g Inr show ?thesis
        by (auto simp: dkim_verify_dns_def canon_alt Let_def fs_keystore_def published_def
            split: sum.splits if_splits)
    qed
  qed
qed

definition key_sound ::
    "path \<Rightarrow> rsa_codec \<Rightarrow> (string \<Rightarrow> string list result) \<Rightarrow> string \<Rightarrow> disk \<Rightarrow> dkim_key \<Rightarrow> bool" where
  "key_sound base cod lookup d k key \<longleftrightarrow>
     (\<exists>pem priv. fbytes k (fs_key_path base d (dk_selector key)) = Some pem \<and>
        validate_private_key cod pem = Inr priv \<and>
        (dk_status key = ''active'' \<longrightarrow> published cod lookup (build_dns_name d (dk_selector key)) priv))"

lemma check_key_sound:
  assumes "check_key cod (fs_keystore base) lookup d key rep k = (rep', k')"
  shows "files k' = files k \<and>
    (dr_healthy rep' \<longrightarrow> dr_healthy rep \<and> key_sound base cod lookup d k key)"
proof -
  let ?s = "dk_selector key" and ?p = "fs_key_path base d (dk_selector key)"
  obtain r1 k1 where 1: "os_stat ?p k = (r1, k1)" by fastforce
  obtain r2 k2 where 2: "os_stat (path_dir ?p) k1 = (r2, k2)" by fastforce
  obtain r3 k3 where 3: "fs_get_key base d ?s k2 = (r3, k3)" by fastforce
  obtain ver e k4 where 4: "dkim_verify_dns cod (fs_keystore base) d ?s lookup k3 = ((ver, e), k4)"
    by (metis prod.collapse)
  have f1: "files k1 = files k" using 1 snd_os_reads(1) [of ?p k] by (metis snd_conv files_dtick(1))
  have f2: "files k2 = files k" using 2 f1 snd_os_reads(1) [of "path_dir ?p" k1] by (metis snd_conv files_dtick(1))
  note g = fs_get_key_Inr [OF 3] and v = verify_dns_found [OF 4]
  have f3: "files k3 = files k" using g f2 by simp
  have same: "fs_key_path base (canon d) (canon ?s) = ?p" "build_dns_name (canon d) (canon ?s) = build_dns_name d ?s"
    by (simp_all add: fs_key_path_def build_dns_name_def canon_alt)
  note run = assms [unfolded check_key_def Let_def]
  note ks = fs_keystore_def
  show ?thesis
  proof (cases r1)
    case (Inl err)
    with run 1 f1 show ?thesis by (auto simp: ks)
  next
    case r1: (Inr info)
    show ?thesis
    proof (cases r3)
      case (Inl err)
      with run 1 2 3 f3 r1 show ?thesis by (cases r2) (auto simp: ks)
    next
      case r3: (Inr pem)
      with g f2 have pem: "fbytes k ?p = Some pem" using fbytes_files [of k2 k] by simp
      show ?thesis
      proof (cases "validate_private_key cod pem")
        case (Inl err)
        with run 1 2 3 f3 r1 r3 show ?thesis by (cases r2) (auto simp: ks)
      next
        case priv: (Inr priv)
        define rep2 where "rep2 = add_check (''DKIM ['' @ ?s @ '']'') ''Private key 0600''
            (mode_of info \<le> 384) (octal4 (mode_of info))
            (add_check (''DKIM ['' @ ?s @ '']'') ''Private key file'' True (path_str (ks_path (fs_keystore base) d ?s))
              (add_check (''DKIM ['' @ ?s @ '']'') ''Database Status'' True (''Status: '' @ dk_status key) rep))"
        define rep3 where "rep3 = (case r2 of Inl err \<Rightarrow> rep2 | Inr dir_info \<Rightarrow>
            add_check (''DKIM ['' @ ?s @ '']'') ''Directory 0750'' (mode_of dir_info \<le> 488)
              (octal4 (mode_of dir_info)) rep2)"
        define rep4 where "rep4 = add_check (''DKIM ['' @ ?s @ '']'') ''Private key valid'' True ''RSA-2048 valid'' rep3"
        have h: "dr_healthy rep4 \<longrightarrow> dr_healthy rep"
          by (cases r2) (simp_all add: rep4_def rep3_def rep2_def)
        have "ks_path (fs_keystore base) d ?s = ?p" "ks_get (fs_keystore base) = fs_get_key base"
          by (simp_all add: ks)
        with run 1 2 3 4 r1 r3 priv h have res: "k' = k4" "\<exists>rep4. (dr_healthy rep4 \<longrightarrow> dr_healthy rep) \<and>
            rep' = check_dns d (''DKIM ['' @ ?s @ '']'') key ver rep4"
          unfolding rep4_def rep3_def rep2_def by (simp_all only: sum.case prod.case prod.inject) blast
        have parse: "parse_rsa_private_key cod pem = Inr priv"
          using priv by (auto simp: validate_private_key_def split: sum.splits if_splits)
        from res(2) have hd: "dr_healthy rep' \<longrightarrow> dr_healthy rep \<and>
            (if vr_dns_record_found ver then vr_public_key_valid ver \<and> vr_key_matches ver
             else dk_status key \<noteq> ''active'')"
          by (auto simp: healthy_check_dns)
        have "published cod lookup (build_dns_name d ?s) priv" if "dr_healthy rep'" "dk_status key = ''active''"
          using that hd v pem parse fbytes_files [OF f3] by (simp add: same split: if_splits)
        with res(1) hd v f3 pem priv show ?thesis
          by (simp add: key_sound_def)
      qed
    qed
  qed
qed

lemma key_sound_files: "files k' = files k \<Longrightarrow> key_sound base cod lookup d k' key = key_sound base cod lookup d k key"
  using fbytes_files [of k' k] by (simp add: key_sound_def)

lemma check_keys_sound:
  "check_keys cod (fs_keystore base) lookup d keys rep k = (rep', k') \<Longrightarrow>
     files k' = files k \<and>
     (dr_healthy rep' \<longrightarrow> dr_healthy rep \<and> (\<forall>key\<in>set keys. key_sound base cod lookup d k key))"
proof (induction keys arbitrary: rep k)
  case (Cons key keys)
  obtain rep1 k1 where 1: "check_key cod (fs_keystore base) lookup d key rep k = (rep1, k1)" by fastforce
  with Cons.prems have "check_keys cod (fs_keystore base) lookup d keys rep1 k1 = (rep', k')" by simp
  from Cons.IH [OF this] check_key_sound [OF 1] key_sound_files [of k1 k] show ?case by auto
qed simp

section \<open>Properties\<close>

text \<open>
  C23. Whatever fails while the OpenDKIM configuration is written, and in whatever order the four
  files come, each of them is afterwards either as it was or completely the new text, and after
  a success all are new. Among the failures are writes that stop half way: only the temporary
  file can hold the beginning of a text.
\<close>

theorem opendkim_write_atomic:
  assumes "write_opendkim_configs cwd order rnd opts k = (r, k')" and "od_config_dir opts \<noteq> []"
    and "fs = opendkim_files (generate_opendkim_configs opts)"
    and "set (order fs) = set fs" and "distinct (map fst (order fs))" and "(f, c) \<in> set fs"
  shows "fbytes k' (od_config_dir opts @ [f]) \<in> {fbytes k (od_config_dir opts @ [f]), Some c} \<and>
    (r = Inr () \<longrightarrow> fbytes k' (od_config_dir opts @ [f]) = Some c)"
proof -
  obtain r1 k1 where 1: "os_mkdir_all 488 (od_config_dir opts) k = (r1, k1)" by fastforce
  note b1 = fbytes_mkdir_all [OF 1]
  show ?thesis
  proof (cases r1)
    case (Inl e)
    with assms(1,2) 1 b1 show ?thesis by (auto simp: write_opendkim_configs_def Let_def)
  next
    case (Inr u)
    with assms(1,2,3) 1 have run: "write_config_files (od_config_dir opts) rnd (order fs) k1 = (r, k')"
      by (simp add: write_opendkim_configs_def Let_def)
    have "fst ` set (order fs) = set (map fst fs)" by (simp only: assms(4) set_map)
    then have names: "fst ` set (order fs) = set [''opendkim.conf'', ''KeyTable'', ''SigningTable'', ''TrustedHosts'']"
      by (simp only: assms(3) opendkim_names)
    have "fbytes k' (od_config_dir opts @ [f]) \<in> {fbytes k1 (od_config_dir opts @ [f]), Some c} \<and>
      (\<not> isl r \<longrightarrow> fbytes k' (od_config_dir opts @ [f]) = Some c)"
    proof (rule write_config_files_bytes [OF run])
      show "\<forall>f\<in>fst ` set (order fs). plain f"
        using opendkim_name_facts(1) unfolding names by blast
      show "\<forall>f\<in>fst ` set (order fs). \<forall>g\<in>fst ` set (order fs). \<forall>m. f \<noteq> temp_name g m"
        using opendkim_name_facts(2) unfolding names by blast
      show "distinct (map fst (order fs))" by (rule assms(5))
      show "(f, c) \<in> set (order fs)" unfolding assms(4) by (rule assms(6))
    qed
    then show ?thesis unfolding b1 by (cases r) simp_all
  qed
qed

definition example_opendkim :: opendkim_options where
  "example_opendkim =
     \<lparr>od_config_dir = [''etc''], od_target_config_path = '''', od_dkim_base_dir = '''',
      od_socket_path = '''', od_active_keys = [], od_trusted_hosts = []\<rparr>"

definition example_etc :: "bool list \<Rightarrow> disk" where
  "example_etc fs =
     \<lparr>files = [([''etc''], Dir 488 (0, 0)), ([''etc'', ''KeyTable''], File 420 (0, 0) ''old'' 0)],
      proc_owner = (0, 0), privileged = True, disk_now = 0, disk_faults = fs, disk_torn = [(1, 3)]\<rparr>"

text \<open>Writing over a file in place would leave the beginning of the new text when it fails.\<close>

lemma in_place_write_tears:
  "fbytes (snd (os_write_file [''etc'', ''KeyTable''] ''new text'' 420 (example_etc [True]))) [''etc'', ''KeyTable''] = Some ''new''"
  by code_simp

theorem opendkim_write_atomic_witness:
  "fbytes (snd (write_opendkim_configs [] (\<lambda>fs. fs) 1 example_opendkim
      (example_etc (replicate 8 False @ [True])))) [''etc'', ''KeyTable''] \<in>
     {Some ''old'', Some (key_table (generate_opendkim_configs example_opendkim))}"
proof -
  let ?k = "example_etc (replicate 8 False @ [True])"
  let ?fs = "opendkim_files (generate_opendkim_configs example_opendkim)"
  have run: "write_opendkim_configs [] (\<lambda>fs. fs) 1 example_opendkim ?k =
    (fst (write_opendkim_configs [] (\<lambda>fs. fs) 1 example_opendkim ?k),
     snd (write_opendkim_configs [] (\<lambda>fs. fs) 1 example_opendkim ?k))" by simp
  have "od_config_dir example_opendkim \<noteq> []" "distinct (map fst ?fs)"
    "(''KeyTable'', key_table (generate_opendkim_configs example_opendkim)) \<in> set ?fs"
    unfolding opendkim_names by (simp_all add: example_opendkim_def opendkim_files_def)
  from opendkim_write_atomic [OF run this(1) refl refl this(2,3)]
  have "fbytes (snd (write_opendkim_configs [] (\<lambda>fs. fs) 1 example_opendkim ?k)) [''etc'', ''KeyTable''] \<in>
      {fbytes ?k [''etc'', ''KeyTable''], Some (key_table (generate_opendkim_configs example_opendkim))}"
    by (simp add: example_opendkim_def)
  moreover have "fbytes ?k [''etc'', ''KeyTable''] = Some ''old''"
    by (simp add: example_etc_def fbytes_def fs_stat_def)
  ultimately show ?thesis by simp
qed

text \<open>
  C24. A healthy report of the doctor can be relied on: the domain has keys, for each of them the
  keystore holds a private RSA key of 2048 bits, and for each active one the DNS publishes the
  matching public key.
\<close>

theorem dkim_doctor_sound:
  assumes "run_dkim_doctor cod (fs_keystore base) lookup dn db k = (rep, db', k')" and "dr_healthy rep"
  shows "\<exists>keys. fst (dkim_list_keys (canon dn) db) = Inr keys \<and> keys \<noteq> [] \<and>
    (\<forall>key\<in>set keys. key_sound base cod lookup (canon dn) k key)"
proof -
  obtain r1 db1 where 1: "dkim_list_keys (canon dn) db = (r1, db1)" by fastforce
  show ?thesis
  proof (cases r1)
    case (Inl e)
    with assms 1 show ?thesis by (auto simp: run_dkim_doctor_def canon_alt Let_def)
  next
    case (Inr keys)
    show ?thesis
    proof (cases "keys = []")
      case True
      with assms 1 Inr show ?thesis by (auto simp: run_dkim_doctor_def canon_alt Let_def)
    next
      case False
      with assms(1) 1 Inr obtain rep0 where
        "check_keys cod (fs_keystore base) lookup (canon dn) keys rep0 k = (rep, k')"
        by (auto simp: run_dkim_doctor_def canon_alt Let_def split: prod.splits)
      from check_keys_sound [OF this] assms(2) False 1 Inr show ?thesis by simp
    qed
  qed
qed

definition doctor_codec :: rsa_codec where
  "doctor_codec = example_codec\<lparr>pem_decode := Some, parse_pkcs1 := (\<lambda>b. Some example_rsa),
     parse_pkix := (\<lambda>b. Inr (Some (rsa_pub example_rsa)))\<rparr>"

definition doctor_lookup :: "string \<Rightarrow> string list result" where
  "doctor_lookup name = (if name = ''s1._domainkey.example.org''
     then Inr [''v=DKIM1; k=rsa; p=QUJD''] else Inl Fault)"

lemma doctor_codec_keys:
  "validate_private_key doctor_codec c = Inr example_rsa"
  "parse_rsa_private_key doctor_codec c = Inr example_rsa"
  "parse_rsa_public_key_from_dns doctor_codec ''QUJD'' = Inr (rsa_pub example_rsa)"
proof -
  have "b64std_decode ''QUJD'' = Some ''ABC''" by code_simp
  then show "parse_rsa_public_key_from_dns doctor_codec ''QUJD'' = Inr (rsa_pub example_rsa)"
    by (simp add: parse_rsa_public_key_from_dns_def doctor_codec_def)
  show 1: "parse_rsa_private_key doctor_codec c = Inr example_rsa"
    by (simp add: parse_rsa_private_key_def doctor_codec_def)
  show "validate_private_key doctor_codec c = Inr example_rsa"
    by (simp add: validate_private_key_def 1 example_rsa_bits)
qed

lemma example_doctor_run:
  "dr_healthy (fst (run_dkim_doctor doctor_codec (fs_keystore [''dkim'']) doctor_lookup ''Example.org''
     example_signed_db example_signed_disk))"
proof -
  let ?k = "example_signed_disk" and ?key = "(new_key 3 0 1 ''example.org'' ''s1'')\<lparr>dk_status := ''active'',
     dk_activated_at := Some 5\<rparr>"
  have keys: "dkim_list_keys ''example.org'' example_signed_db = (Inr [?key], example_signed_db)"
    by (simp add: dkim_list_keys_def list_dkim_keys_by_domain_def sql_simps example_signed_db_def
        example_db_def empty_db_def example_domain_def dkim_rows_def join_key_def new_key_def
        List.map_filter_def)
  have get: "ks_get (fs_keystore [''dkim'']) ''example.org'' ''s1'' ?k = (Inr ''old key'', ?k)"
    by code_simp
  have path: "ks_path (fs_keystore [''dkim'']) ''example.org'' ''s1'' =
      [''dkim'', ''example.org'', ''s1'', ''private.key'']" by code_simp
  have st: "os_stat [''dkim'', ''example.org'', ''s1'', ''private.key''] ?k = (Inr (File 384 (0, 0) ''old key'' 0), ?k)"
    "os_stat (path_dir [''dkim'', ''example.org'', ''s1'', ''private.key'']) ?k = (Inr (Dir 488 (0, 0)), ?k)"
    by code_simp+
  have trec: "snd (parse_dns_txt_record ''v=DKIM1; k=rsa; p=QUJD'') = Inr ''QUJD''" by code_simp
  have name: "build_dns_name ''example.org'' ''s1'' = ''s1._domainkey.example.org''" by code_simp
  have ver: "\<exists>ver. dkim_verify_dns doctor_codec (fs_keystore [''dkim'']) ''example.org'' ''s1'' doctor_lookup ?k =
      ((ver, None), ?k) \<and> vr_dns_record_found ver \<and> vr_public_key_valid ver \<and> vr_key_matches ver"
    by (simp add: dkim_verify_dns_def canon_alt example_names get doctor_codec_keys Let_def name
        doctor_lookup_def trec validate_public_key_match_def)
  then obtain ver where ver: "dkim_verify_dns doctor_codec (fs_keystore [''dkim'']) ''example.org'' ''s1''
      doctor_lookup ?k = ((ver, None), ?k)" "vr_dns_record_found ver" "vr_public_key_valid ver" "vr_key_matches ver"
    by blast
  show ?thesis
    by (simp add: run_dkim_doctor_def canon_alt example_names keys Let_def check_key_def path st get
        doctor_codec_keys ver healthy_check_dns)
qed

theorem dkim_doctor_sound_witness:
  "\<exists>keys. fst (dkim_list_keys ''example.org'' example_signed_db) = Inr keys \<and> keys \<noteq> [] \<and>
     list_all (key_sound [''dkim''] doctor_codec doctor_lookup ''example.org'' example_signed_disk) keys"
proof -
  obtain rep db' k' where run: "run_dkim_doctor doctor_codec (fs_keystore [''dkim'']) doctor_lookup
      ''Example.org'' example_signed_db example_signed_disk = (rep, db', k')"
    by (metis prod.collapse)
  have "dr_healthy rep" using example_doctor_run run by simp
  from dkim_doctor_sound [OF run this] show ?thesis by (simp add: example_names list_all_iff)
qed

end
