(* ===== verification/Go_Uuid.thy ===== *)
theory Go_Uuid
  imports Go_Strings
begin

text \<open>
  The textual form of \<open>github.com/google/uuid\<close>'s UUIDs: 32 lower-case hexadecimal digits,
  grouped 8-4-4-4-12. \<open>uuid.Parse\<close> is the documented inverse on that form. The fact: the text
  determines the 128-bit number.
\<close>

fun hex_digits :: "nat \<Rightarrow> nat \<Rightarrow> string" where
  "hex_digits 0 u = []"
| "hex_digits (Suc n) u = hex_digits n (u div 16) @ [hex_digit (u mod 16)]"

definition uuid_hex :: "uuid \<Rightarrow> string" where
  "uuid_hex u = hex_digits 32 u"

definition uuid_string :: "uuid \<Rightarrow> string" where
  "uuid_string u =
     (let h = uuid_hex u
      in take 8 h @ ''-'' @ take 4 (drop 8 h) @ ''-'' @ take 4 (drop 12 h) @ ''-'' @
         take 4 (drop 16 h) @ ''-'' @ drop 20 h)"

definition hex_val :: "char \<Rightarrow> nat option" where
  "hex_val c =
     (if is_digit c then Some (byte c - 48)
      else if 97 \<le> byte c \<and> byte c \<le> 102 then Some (byte c - 87) else None)"

lemma length_hex_digits [simp]: "length (hex_digits n u) = n"
  by (induction n arbitrary: u) auto

lemma hex_digit_bound: "d < 16 \<Longrightarrow> byte (hex_digit d) = (if d < 10 then 48 + d else 87 + d)"
  by (simp add: hex_digit_def)

lemma hex_val_digit: "d < 16 \<Longrightarrow> hex_val (hex_digit d) = Some d"
  by (simp add: hex_val_def is_digit_def hex_digit_bound)

lemma hex_digit_inj: "d < 16 \<Longrightarrow> e < 16 \<Longrightarrow> hex_digit d = hex_digit e \<longleftrightarrow> d = e"
  by (metis hex_val_digit option.inject)

lemma hex_digit_chars: "d < 16 \<Longrightarrow> is_digit (hex_digit d) \<or> (97 \<le> byte (hex_digit d) \<and> byte (hex_digit d) \<le> 102)"
  by (simp add: is_digit_def hex_digit_bound)

lemma hex_digits_inj: "u < 16 ^ n \<Longrightarrow> v < 16 ^ n \<Longrightarrow> hex_digits n u = hex_digits n v \<longleftrightarrow> u = v"
proof (induction n arbitrary: u v)
  case (Suc n)
  have "u div 16 < 16 ^ n" "v div 16 < 16 ^ n"
    using Suc.prems by (auto simp: less_mult_imp_div_less mult.commute)
  with Suc.IH [of "u div 16" "v div 16"] show ?case
    by (auto simp: hex_digit_inj) (metis div_mult_mod_eq)
qed simp

lemma hex_digits_chars: "c \<in> set (hex_digits n u) \<Longrightarrow> is_digit c \<or> (97 \<le> byte c \<and> byte c \<le> 102)"
proof (induction n arbitrary: u)
  case (Suc n)
  then show ?case using hex_digit_chars [of "u mod 16"] by auto
qed simp

lemma dash_notin_uuid_hex [simp]: "CHR ''-'' \<notin> set (uuid_hex u)"
  using hex_digits_chars [of "CHR ''-''" 32 u] by (auto simp: uuid_hex_def is_digit_def byte_def)

lemma uuid_hex_inj: "u < 2 ^ 128 \<Longrightarrow> v < 2 ^ 128 \<Longrightarrow> uuid_hex u = uuid_hex v \<longleftrightarrow> u = v"
  unfolding uuid_hex_def by (rule hex_digits_inj) simp_all

text \<open>Removing the dashes gives the digits back.\<close>

lemma remove_dash_uuid_string: "remove_char CHR ''-'' (uuid_string u) = uuid_hex u"
proof -
  let ?h = "uuid_hex u"
  have f: "filter (\<lambda>c. c \<noteq> CHR ''-'') s = s" if "set s \<subseteq> set ?h" for s
    using that dash_notin_uuid_hex [of u] by (intro filter_True) blast
  have sub: "set (take n (drop m ?h)) \<subseteq> set ?h" "set (drop m ?h) \<subseteq> set ?h" "set (take n ?h) \<subseteq> set ?h" for n m
    by (auto dest: in_set_takeD in_set_dropD)
  have "take 8 ?h @ take 4 (drop 8 ?h) @ take 4 (drop 12 ?h) @ take 4 (drop 16 ?h) @ drop 20 ?h = ?h"
    using append_take_drop_id [of 8 ?h] append_take_drop_id [of 4 "drop 8 ?h"]
      append_take_drop_id [of 4 "drop 12 ?h"] append_take_drop_id [of 4 "drop 16 ?h"] by simp
  then show ?thesis
    by (simp add: remove_char_def uuid_string_def Let_def f sub)
qed

lemma uuid_string_inj: "u < 2 ^ 128 \<Longrightarrow> v < 2 ^ 128 \<Longrightarrow> uuid_string u = uuid_string v \<longleftrightarrow> u = v"
  using uuid_hex_inj remove_dash_uuid_string by metis

end
