(* ===== verification/Smtp_Keys.thy ===== *)
theory Smtp_Keys
  imports Domains Passwords Go_Uuid Mailbox_Props
begin

text \<open>
  The package \<open>internal/smtpkey\<close>: per-domain credentials for SMTP submission. The
  repository over the table \<open>smtp_credentials\<close> and the service, which shows the secret once
  and keeps its argon2id hash. The fact: the life of a key, from its creation through the
  refusal of a second active key of the same name to its revocation.
\<close>

section \<open>Errors\<close>

definition err_smtp_key_not_found :: err where
  "err_smtp_key_not_found = Sentinel ''smtpkey'' ''ErrKeyNotFound''"

definition err_smtp_key_exists :: err where
  "err_smtp_key_exists = Sentinel ''smtpkey'' ''ErrKeyExists''"

definition err_smtp_invalid_name :: err where
  "err_smtp_invalid_name = Sentinel ''smtpkey'' ''ErrInvalidName''"

lemmas [errs] = err_smtp_key_not_found_def err_smtp_key_exists_def err_smtp_invalid_name_def

record issued_key =
  ik_key :: smtp_key
  ik_secret :: string

section \<open>Repository\<close>

definition active_name :: "smtp_key \<Rightarrow> uuid \<times> string" where
  "active_name k = (sk_domain_id k, to_lower (sk_name k))"

definition smtp_constraints :: "smtp_key \<Rightarrow> db \<Rightarrow> (bool \<times> err) list" where
  "smtp_constraints k db =
     [(clashes sk_id k (smtp_credentials db), PgUnique ''smtp_credentials_pkey''),
      (clashes sk_username k (smtp_credentials db), PgUnique ''smtp_credentials_username_key''),
      (sk_status k = ''active'' \<and>
       clashes active_name k (filter (\<lambda>x. sk_status x = ''active'') (smtp_credentials db)),
         PgUnique ''smtp_credentials_domain_name_active_unique''),
      (sk_status k \<notin> {''active'', ''revoked''}, PgCheck ''smtp_credentials_status_check''),
      (\<not> has_key dom_id (sk_domain_id k) (domains db), PgForeignKey ''smtp_credentials_domain_id_fkey'')]"

text \<open>
  The text of every unique violation contains ``duplicate key''; the row has no column for
  the name of the domain.
\<close>

definition smtp_repo_create :: "smtp_key \<Rightarrow> string \<Rightarrow> db \<Rightarrow> unit result \<times> db" where
  "smtp_repo_create key secret_hash db =
     (let row = key\<lparr>sk_secret_hash := secret_hash, sk_domain := '''',
                    sk_last_used_at := None, sk_revoked_at := None\<rparr>
      in case sql_insert (smtp_constraints row)
                (\<lambda>db. db\<lparr>smtp_credentials := smtp_credentials db @ [row]\<rparr>) db of
           (Inl (PgUnique c), db1) \<Rightarrow> (Inl err_smtp_key_exists, db1)
         | (Inl err, db1) \<Rightarrow> (Inl (Wrap ''create smtp key'' err), db1)
         | (Inr n, db1) \<Rightarrow> (Inr (), db1))"

definition smtp_repo_list :: "uuid \<Rightarrow> db \<Rightarrow> smtp_key list result \<times> db" where
  "smtp_repo_list did db =
     (case sql_query (\<lambda>db. sort_key (\<lambda>k. - sk_created_at k)
             (List.map_filter (\<lambda>k. map_option (\<lambda>d. k\<lparr>sk_domain := dom_name d, sk_secret_hash := ''''\<rparr>)
                                     (find (\<lambda>d. dom_id d = sk_domain_id k) (domains db)))
                (rows_where (\<lambda>k. sk_domain_id k = did) (smtp_credentials db)))) db of
        (Inl err, db1) \<Rightarrow> (Inl (Wrap ''list smtp keys'' err), db1)
      | (Inr ks, db1) \<Rightarrow> (Inr ks, db1))"

definition smtp_revocable :: "uuid \<Rightarrow> uuid \<Rightarrow> smtp_key \<Rightarrow> bool" where
  "smtp_revocable did kid k \<longleftrightarrow> sk_domain_id k = did \<and> sk_id k = kid \<and> sk_status k = ''active''"

definition smtp_revoked :: "instant \<Rightarrow> smtp_key \<Rightarrow> smtp_key" where
  "smtp_revoked now k =
     k\<lparr>sk_status := ''revoked'',
       sk_revoked_at := (case sk_revoked_at k of None \<Rightarrow> Some now | Some t \<Rightarrow> Some t)\<rparr>"

definition smtp_repo_revoke :: "instant \<Rightarrow> uuid \<Rightarrow> uuid \<Rightarrow> db \<Rightarrow> unit result \<times> db" where
  "smtp_repo_revoke now did kid db =
     (case sql_exec (\<lambda>db. (Inr (affected (smtp_revocable did kid) (smtp_credentials db)),
             db\<lparr>smtp_credentials :=
                  update_where (smtp_revocable did kid) (smtp_revoked now) (smtp_credentials db)\<rparr>)) db of
        (Inl err, db1) \<Rightarrow> (Inl (Wrap ''revoke smtp key'' err), db1)
      | (Inr n, db1) \<Rightarrow> (if n = 0 then (Inl err_smtp_key_not_found, db1) else (Inr (), db1)))"

section \<open>Service\<close>

text \<open>\<open>^[A-Za-z0-9][A-Za-z0-9 ._-]{0,63}$\<close>\<close>

definition key_name_rx :: rx where
  "key_name_rx =
     Seq (Cls alnum) (UpTo 63 (Cls (alnum @ map (\<lambda>c. (c, c)) '' ._-'')))"

text \<open>The URL alphabet of base64, unpadded.\<close>

definition raw_url_encode :: "string \<Rightarrow> string" where
  "raw_url_encode s =
     map (\<lambda>c. if c = CHR ''+'' then CHR ''-'' else if c = CHR ''/'' then CHR ''_'' else c) (b64_encode s)"

definition smtp_generate_secret :: "string result \<Rightarrow> string result" where
  "smtp_generate_secret rnd =
     (case rnd of Inl err \<Rightarrow> Inl err | Inr b \<Rightarrow> Inr (''mo_sk_'' @ raw_url_encode b))"

definition smtp_get_domain :: "string \<Rightarrow> db \<Rightarrow> domain result \<times> db" where
  "smtp_get_domain nm = domain_svc_get_by_name (trim_space (to_lower nm))"

definition smtp_list :: "string \<Rightarrow> db \<Rightarrow> smtp_key list result \<times> db" where
  "smtp_list nm db =
     (case smtp_get_domain nm db of
        (Inl err, db1) \<Rightarrow> (Inl err, db1)
      | (Inr d, db1) \<Rightarrow> smtp_repo_list (dom_id d) db1)"

text \<open>
  What one call draws: the bytes of the secret, the salt of its hash, the identifier of the
  row and the UUID of the login name.
\<close>

record smtp_draws =
  sd_secret :: "string result"
  sd_salt :: "string result"
  sd_id :: uuid
  sd_user :: uuid

definition smtp_username :: "uuid \<Rightarrow> string" where
  "smtp_username u = ''mo_smtp_'' @ remove_char CHR ''-'' (uuid_string u)"

definition smtp_key_name :: "string \<Rightarrow> string" where
  "smtp_key_name nm = (let name = trim_space nm in if name = '''' then ''go-otp'' else name)"

definition smtp_create ::
    "kdf \<Rightarrow> smtp_draws \<Rightarrow> instant \<Rightarrow> string \<Rightarrow> string \<Rightarrow> db \<Rightarrow> issued_key result \<times> db" where
  "smtp_create kdf dr now nm name0 db =
     (case smtp_get_domain nm db of
        (Inl err, db1) \<Rightarrow> (Inl err, db1)
      | (Inr d, db1) \<Rightarrow>
          if dom_status d \<noteq> ''active'' then (Inl err_domain_not_found, db1)
          else let name = smtp_key_name name0
          in if \<not> rx_match key_name_rx name then (Inl err_smtp_invalid_name, db1)
          else (case smtp_generate_secret (sd_secret dr) of
              Inl err \<Rightarrow> (Inl (Wrap ''generate smtp key secret'' err), db1)
            | Inr secret \<Rightarrow>
                (case hash_password kdf (sd_salt dr) secret default_argon2_params of
                   Inl (Panic s) \<Rightarrow> (Inl (Panic s), db1)
                 | Inl err \<Rightarrow> (Inl (Wrap ''hash smtp key secret'' err), db1)
                 | Inr hashed \<Rightarrow>
                     let key = \<lparr>sk_id = sd_id dr, sk_domain_id = dom_id d, sk_domain = dom_name d,
                                sk_name = name, sk_username = smtp_username (sd_user dr),
                                sk_status = ''active'', sk_created_at = now,
                                sk_last_used_at = None, sk_revoked_at = None, sk_secret_hash = ''''\<rparr>
                     in (case smtp_repo_create key hashed db1 of
                           (Inl err, db2) \<Rightarrow> (Inl err, db2)
                         | (Inr u, db2) \<Rightarrow> (Inr \<lparr>ik_key = key, ik_secret = secret\<rparr>, db2)))))"

definition smtp_revoke :: "instant \<Rightarrow> string \<Rightarrow> uuid \<Rightarrow> db \<Rightarrow> unit result \<times> db" where
  "smtp_revoke now nm kid db =
     (case smtp_get_domain nm db of
        (Inl err, db1) \<Rightarrow> (Inl err, db1)
      | (Inr d, db1) \<Rightarrow> smtp_repo_revoke now (dom_id d) kid db1)"

section \<open>Facts\<close>

lemma smtp_get_domain_eq [sql_simps]:
  "smtp_get_domain nm db =
     (if canon nm = [] then (Inl err_invalid_domain, db) else domain_get_by_name (canon nm) db)"
  by (simp add: smtp_get_domain_def domain_svc_get_by_name_def canon_def')

lemma smtp_constraints_None:
  "first_violation (smtp_constraints k db) = None \<longleftrightarrow>
     sk_id k \<notin> sk_id ` set (smtp_credentials db) \<and>
     sk_username k \<notin> sk_username ` set (smtp_credentials db) \<and>
     (sk_status k = ''active'' \<longrightarrow>
        active_name k \<notin> active_name ` {x \<in> set (smtp_credentials db). sk_status x = ''active''}) \<and>
     sk_status k \<in> {''active'', ''revoked''} \<and> sk_domain_id k \<in> dom_id ` set (domains db)"
proof -
  have c: "clashes g k t \<longleftrightarrow> g k \<in> g ` set t" for g :: "smtp_key \<Rightarrow> 'x" and t
    unfolding clashes_iff image_iff by metis
  have h: "has_key dom_id v t \<longleftrightarrow> v \<in> dom_id ` set t" for v and t :: "domain list"
    unfolding has_key_iff image_iff by metis
  show ?thesis
    unfolding first_violation_None smtp_constraints_def c h by (simp del: insert_iff)
qed

lemma wf_smtp_insert:
  assumes "wf_db db" and "first_violation (smtp_constraints k db) = None"
  shows "wf_db (db\<lparr>smtp_credentials := smtp_credentials db @ [k]\<rparr>)"
  unfolding wf_db_replace(7) [OF assms(1)]
  using wf_dbD(9) [OF assms(1)] assms(2) unfolding smtp_constraints_None
  by (simp add: wf_smtp_keys_def ref_def flip: active_name_def)

text \<open>The row an insertion makes of a key.\<close>

definition smtp_inserted :: "smtp_key \<Rightarrow> string \<Rightarrow> smtp_key" where
  "smtp_inserted key h = key\<lparr>sk_secret_hash := h, sk_domain := '''', sk_last_used_at := None, sk_revoked_at := None\<rparr>"

fun smtp_create_err :: "err \<Rightarrow> err" where
  "smtp_create_err (PgUnique c) = err_smtp_key_exists"
| "smtp_create_err err = Wrap ''create smtp key'' err"

lemma smtp_repo_create_eq:
  "smtp_repo_create key h db =
     (if fails db then (Inl (Wrap ''create smtp key'' Fault), tick db)
      else case first_violation (smtp_constraints (smtp_inserted key h) (tick db)) of
          Some e \<Rightarrow> (Inl (smtp_create_err e), tick db)
        | None \<Rightarrow> (Inr (), (tick db)\<lparr>smtp_credentials := smtp_credentials db @ [smtp_inserted key h]\<rparr>))"
  by (simp add: smtp_repo_create_def sql_insert_eq Let_def smtp_inserted_def split: option.split err.split)

lemma wf_smtp_repo_create: "wf_db db \<Longrightarrow> wf_db (snd (smtp_repo_create key h db))"
  using wf_smtp_insert [of "tick db"] by (simp add: smtp_repo_create_eq split: option.split)

lemma active_names_revoked:
  "distinct (map active_name (filter (\<lambda>k. sk_status k = ''active'') t)) \<Longrightarrow>
     distinct (map active_name (filter (\<lambda>k. sk_status k = ''active'')
       (update_where P (smtp_revoked now) t)))"
  by (induction t) (auto simp: update_where_def smtp_revoked_def split: if_splits)

lemma smtp_repo_revoke_eq:
  "smtp_repo_revoke now did kid db =
     (if fails db then (Inl (Wrap ''revoke smtp key'' Fault), tick db)
      else (if affected (smtp_revocable did kid) (smtp_credentials db) = 0
            then Inl err_smtp_key_not_found else Inr (),
            (tick db)\<lparr>smtp_credentials :=
               update_where (smtp_revocable did kid) (smtp_revoked now) (smtp_credentials db)\<rparr>))"
  by (simp add: smtp_repo_revoke_def sql_exec_eq)

lemma smtp_revoked_sels [simp]:
  "sk_id (smtp_revoked now k) = sk_id k" "sk_username (smtp_revoked now k) = sk_username k"
  "sk_domain_id (smtp_revoked now k) = sk_domain_id k" "sk_status (smtp_revoked now k) = ''revoked''"
  by (simp_all add: smtp_revoked_def)

lemma wf_smtp_repo_revoke:
  assumes "wf_db db" shows "wf_db (snd (smtp_repo_revoke now did kid db))"
proof -
  have "wf_smtp_keys (db\<lparr>smtp_credentials :=
      update_where (smtp_revocable did kid) (smtp_revoked now) (smtp_credentials db)\<rparr>)"
    using wf_dbD(9) [OF assms] active_names_revoked [of "smtp_credentials db" "smtp_revocable did kid" now]
    by (auto simp: wf_smtp_keys_def ref_def tbl_simps simp flip: active_name_def)
  then have "wf_smtp_keys ((tick db)\<lparr>smtp_credentials :=
      update_where (smtp_revocable did kid) (smtp_revoked now) (smtp_credentials db)\<rparr>)"
    by (simp add: wf_smtp_keys_def)
  with assms show ?thesis
    by (simp add: smtp_repo_revoke_eq wf_db_replace(7))
qed

lemma wf_smtp_revoke [wf_ops]: "wf_db db \<Longrightarrow> wf_db (snd (smtp_revoke now nm kid db))"
  by (simp add: smtp_revoke_def sql_simps wf_smtp_repo_revoke split: option.splits)

text \<open>The row of a created key.\<close>

definition smtp_row :: "smtp_draws \<Rightarrow> instant \<Rightarrow> domain \<Rightarrow> string \<Rightarrow> string \<Rightarrow> smtp_key" where
  "smtp_row dr now d name h =
     \<lparr>sk_id = sd_id dr, sk_domain_id = dom_id d, sk_domain = '''', sk_name = name,
      sk_username = smtp_username (sd_user dr), sk_status = ''active'', sk_created_at = now,
      sk_last_used_at = None, sk_revoked_at = None, sk_secret_hash = h\<rparr>"

text \<open>The key the caller gets: with the name of the domain, without the hash.\<close>

definition smtp_shown :: "domain \<Rightarrow> smtp_key \<Rightarrow> smtp_key" where
  "smtp_shown d k = k\<lparr>sk_domain := dom_name d, sk_secret_hash := ''''\<rparr>"

definition smtp_issue ::
    "kdf \<Rightarrow> smtp_draws \<Rightarrow> instant \<Rightarrow> domain \<Rightarrow> string \<Rightarrow> db \<Rightarrow> issued_key result \<times> db" where
  "smtp_issue kdf dr now d name db =
     (case smtp_generate_secret (sd_secret dr) of
        Inl err \<Rightarrow> (Inl (Wrap ''generate smtp key secret'' err), db)
      | Inr secret \<Rightarrow>
          (case hash_password kdf (sd_salt dr) secret default_argon2_params of
             Inl err \<Rightarrow> (Inl (case err of Panic s \<Rightarrow> err | _ \<Rightarrow> Wrap ''hash smtp key secret'' err), db)
           | Inr h \<Rightarrow>
               let k = smtp_row dr now d name h
               in (case smtp_repo_create (smtp_shown d k) h db of
                     (Inl err, db2) \<Rightarrow> (Inl err, db2)
                   | (Inr u, db2) \<Rightarrow> (Inr \<lparr>ik_key = smtp_shown d k, ik_secret = secret\<rparr>, db2))))"

lemma smtp_create_eq:
  "smtp_create kdf dr now nm name db =
     (if canon nm = [] then (Inl err_invalid_domain, db)
      else if fails db then (Inl (Wrap ''repository get domain by name'' Fault), tick db)
      else case find (\<lambda>d. dom_name d = canon nm) (domains db) of
          None \<Rightarrow> (Inl err_domain_not_found, tick db)
        | Some d \<Rightarrow>
            if dom_status d \<noteq> ''active'' then (Inl err_domain_not_found, tick db)
            else if \<not> rx_match key_name_rx (smtp_key_name name) then (Inl err_smtp_invalid_name, tick db)
            else smtp_issue kdf dr now d (smtp_key_name name) (tick db))"
proof -
  have h: "(case r of Inl (Panic s) \<Rightarrow> (Inl (Panic s), db') | Inl err \<Rightarrow> (Inl (Wrap m err), db') | Inr x \<Rightarrow> f x) =
      (case r of Inl err \<Rightarrow> (Inl (case err of Panic s \<Rightarrow> err | _ \<Rightarrow> Wrap m err), db') | Inr x \<Rightarrow> f x)"
    for r :: "string result" and m and f :: "string \<Rightarrow> issued_key result \<times> db" and db'
    by (auto split: sum.split err.split)
  show ?thesis
    by (simp add: smtp_create_def sql_simps smtp_issue_def h smtp_shown_def smtp_row_def Let_def
        split: option.split cong: sum.case_cong)
qed

lemma smtp_inserted_shown [simp]: "smtp_inserted (smtp_shown d (smtp_row dr now d name h)) h = smtp_row dr now d name h"
  by (simp add: smtp_inserted_def smtp_shown_def smtp_row_def)

lemma smtp_issue_eq:
  "smtp_issue kdf dr now d name db =
     (case smtp_generate_secret (sd_secret dr) of
        Inl err \<Rightarrow> (Inl (Wrap ''generate smtp key secret'' err), db)
      | Inr secret \<Rightarrow>
          (case hash_password kdf (sd_salt dr) secret default_argon2_params of
             Inl err \<Rightarrow> (Inl (case err of Panic s \<Rightarrow> err | _ \<Rightarrow> Wrap ''hash smtp key secret'' err), db)
           | Inr h \<Rightarrow>
               let k = smtp_row dr now d name h
               in if fails db then (Inl (Wrap ''create smtp key'' Fault), tick db)
                  else (case first_violation (smtp_constraints k (tick db)) of
                      Some e \<Rightarrow> (Inl (smtp_create_err e), tick db)
                    | None \<Rightarrow> (Inr \<lparr>ik_key = smtp_shown d k, ik_secret = secret\<rparr>,
                               (tick db)\<lparr>smtp_credentials := smtp_credentials db @ [k]\<rparr>))))"
  by (simp add: smtp_issue_def smtp_repo_create_eq Let_def split: sum.split option.split)

lemma wf_smtp_issue: "wf_db db \<Longrightarrow> wf_db (snd (smtp_issue kdf dr now d name db))"
  using wf_smtp_insert [of "tick db"]
  by (simp add: smtp_issue_eq Let_def split: sum.split option.split)

lemma wf_smtp_create [wf_ops]: "wf_db db \<Longrightarrow> wf_db (snd (smtp_create kdf dr now nm name db))"
  by (simp add: smtp_create_eq wf_smtp_issue split: option.split)

lemma smtp_create_Inr:
  assumes "faults db = []" and "smtp_create kdf dr now nm name db = (Inr ik, db1)"
  obtains d h where "find (\<lambda>d. dom_name d = canon nm) (domains db) = Some d"
    and "canon nm \<noteq> []" and "dom_status d = ''active''"
    and "rx_match key_name_rx (smtp_key_name name)"
    and "hash_password kdf (sd_salt dr) (ik_secret ik) default_argon2_params = Inr h"
    and "ik_key ik = smtp_shown d (smtp_row dr now d (smtp_key_name name) h)"
    and "first_violation (smtp_constraints (smtp_row dr now d (smtp_key_name name) h) db) = None"
    and "db1 = db\<lparr>smtp_credentials := smtp_credentials db @ [smtp_row dr now d (smtp_key_name name) h]\<rparr>"
proof -
  from assms obtain d where d: "canon nm \<noteq> []" "find (\<lambda>d. dom_name d = canon nm) (domains db) = Some d"
    "dom_status d = ''active''" "rx_match key_name_rx (smtp_key_name name)"
    "smtp_issue kdf dr now d (smtp_key_name name) db = (Inr ik, db1)"
    by (auto simp: smtp_create_eq split: if_splits option.splits)
  from d(5) assms(1) obtain h where
    "hash_password kdf (sd_salt dr) (ik_secret ik) default_argon2_params = Inr h"
    "ik_key ik = smtp_shown d (smtp_row dr now d (smtp_key_name name) h)"
    "first_violation (smtp_constraints (smtp_row dr now d (smtp_key_name name) h) db) = None"
    "db1 = db\<lparr>smtp_credentials := smtp_credentials db @ [smtp_row dr now d (smtp_key_name name) h]\<rparr>"
    by (auto simp: smtp_issue_eq Let_def split: sum.splits option.splits)
  with d that show ?thesis by blast
qed

lemma smtp_revoke_ok:
  assumes "faults db = []" and "find (\<lambda>d. dom_name d = canon nm) (domains db) = Some d" and "canon nm \<noteq> []"
  shows "smtp_revoke now nm kid db = smtp_repo_revoke now (dom_id d) kid db"
  using assms by (simp add: smtp_revoke_def sql_simps)

lemma first_violation_mem: "first_violation cs \<noteq> None \<longleftrightarrow> (\<exists>(b, e)\<in>set cs. b)"
  using first_violation_None [of cs] by fastforce

lemma hash_password_total:
  assumes "kdf_law kdf"
  obtains h where "hash_password kdf (Inr salt) pw default_argon2_params = Inr h"
proof -
  obtain k where "kdf pw salt (iterations default_argon2_params) (memory default_argon2_params)
      (parallelism default_argon2_params) (key_length default_argon2_params) = Inr k"
    by (rule derived_key [OF assms])
  with that show ?thesis by (simp add: hash_password_def)
qed

text \<open>Only the foreign key and the check could fail in another way, and they hold.\<close>

lemma smtp_name_taken:
  assumes "r \<in> set (smtp_credentials db)" and "sk_status r = ''active''" and "sk_status k = ''active''"
    and "active_name r = active_name k"
  shows "\<exists>c. first_violation (smtp_constraints k db) = Some (PgUnique c)"
  using assms by (auto simp: smtp_constraints_def clashes_iff)

text \<open>
  C28. The life of an SMTP key. A successful creation adds one active row whose hash accepts
  exactly the secret that was shown (up to passwords with the same derived key); while it is
  active a second key of that name, in any spelling, is refused without effect; revoking it
  marks exactly that row; and a revoked key cannot be revoked again.
\<close>

theorem smtp_key_lifecycle:
  assumes "wf_db db" and "faults db = []" and "kdf_law kdf" and "sd_salt dr = Inr salt"
    and "smtp_create kdf dr now nm name db = (Inr ik, db1)"
    and "to_lower (smtp_key_name name') = to_lower (smtp_key_name name)"
    and "rx_match key_name_rx (smtp_key_name name')"
    and "sd_secret dr' = Inr b'" and "sd_salt dr' = Inr salt'"
  shows "\<exists>row db2. smtp_credentials db1 = smtp_credentials db @ [row] \<and>
    sk_id row = sk_id (ik_key ik) \<and> sk_username row = sk_username (ik_key ik) \<and>
    sk_status row = ''active'' \<and> sk_secret_hash (ik_key ik) = '''' \<and>
    (\<forall>pw. verify_password kdf pw (sk_secret_hash row) = Inr (same_key kdf salt (ik_secret ik) pw)) \<and>
    smtp_create kdf dr' now' nm name' db1 = (Inl err_smtp_key_exists, db1) \<and>
    smtp_revoke now2 nm (sk_id row) db1 = (Inr (), db2) \<and>
    smtp_credentials db2 = smtp_credentials db @ [smtp_revoked now2 row] \<and>
    smtp_revoke now3 nm (sk_id row) db2 = (Inl err_smtp_key_not_found, db2)"
proof -
  obtain d h where d: "find (\<lambda>d. dom_name d = canon nm) (domains db) = Some d" "canon nm \<noteq> []"
      "dom_status d = ''active''"
    and hp: "hash_password kdf (sd_salt dr) (ik_secret ik) default_argon2_params = Inr h"
    and ik: "ik_key ik = smtp_shown d (smtp_row dr now d (smtp_key_name name) h)"
    and new: "first_violation (smtp_constraints (smtp_row dr now d (smtp_key_name name) h) db) = None"
    and db1: "db1 = db\<lparr>smtp_credentials := smtp_credentials db @ [smtp_row dr now d (smtp_key_name name) h]\<rparr>"
    by (rule smtp_create_Inr [OF assms(2,5)])
  define row where "row = smtp_row dr now d (smtp_key_name name) h"
  have row: "sk_id row = sd_id dr" "sk_domain_id row = dom_id d" "sk_status row = ''active''"
    "sk_username row = smtp_username (sd_user dr)" "sk_secret_hash row = h" "sk_name row = smtp_key_name name"
    by (simp_all add: row_def smtp_row_def)
  have old: "\<not> smtp_revocable (dom_id d) (sd_id dr) k" if "k \<in> set (smtp_credentials db)" for k
  proof -
    have "sd_id dr \<notin> sk_id ` set (smtp_credentials db)"
      using new unfolding smtp_constraints_None by (simp add: smtp_row_def)
    with that show ?thesis by (metis imageI smtp_revocable_def)
  qed
  have f1: "faults db1 = []" "domains db1 = domains db" using assms(2) by (simp_all add: db1)
  obtain k' where "hash_password kdf (sd_salt dr') (''mo_sk_'' @ raw_url_encode b') default_argon2_params = Inr k'"
    unfolding assms(9) by (rule hash_password_total [OF assms(3)])
  moreover obtain c where "first_violation (smtp_constraints (smtp_row dr' now' d (smtp_key_name name') k') db1) = Some (PgUnique c)"
  proof -
    have "active_name row = active_name (smtp_row dr' now' d (smtp_key_name name') k')"
      unfolding active_name_def row using assms(6) by (simp add: smtp_row_def)
    moreover have "row \<in> set (smtp_credentials db1)" by (simp add: db1 row_def)
    moreover have "sk_status (smtp_row dr' now' d (smtp_key_name name') k') = ''active''"
      by (simp add: smtp_row_def)
    ultimately show ?thesis using smtp_name_taken row(3) that by blast
  qed
  ultimately have again: "smtp_create kdf dr' now' nm name' db1 = (Inl err_smtp_key_exists, db1)"
    using d f1 assms(7,8) by (simp add: smtp_create_eq smtp_issue_eq smtp_generate_secret_def Let_def)
  define db2 where "db2 = db1\<lparr>smtp_credentials := smtp_credentials db @ [smtp_revoked now2 row]\<rparr>"
  have rev: "smtp_revocable (dom_id d) (sd_id dr) row" using row by (simp add: smtp_revocable_def)
  have upd: "update_where (smtp_revocable (dom_id d) (sd_id dr)) (smtp_revoked now2) (smtp_credentials db @ [row])
      = smtp_credentials db @ [smtp_revoked now2 row]"
    using rev update_where_nop [of "smtp_credentials db"] old by (simp add: update_where_def)
  have "smtp_revoke now2 nm (sk_id row) db1 = (Inr (), db2)"
    using d f1 rev
    by (simp add: smtp_revoke_ok smtp_repo_revoke_eq row affected_def db2_def db1 upd flip: row_def)
  moreover have "smtp_revoke now3 nm (sk_id row) db2 = (Inl err_smtp_key_not_found, db2)"
  proof -
    have none: "\<forall>k\<in>set (smtp_credentials db2). \<not> smtp_revocable (dom_id d) (sd_id dr) k"
      using old by (auto simp: db2_def smtp_revocable_def)
    have "faults db2 = []" "domains db2 = domains db" by (simp_all add: db2_def f1)
    with d none show ?thesis
      by (simp add: smtp_revoke_ok smtp_repo_revoke_eq row affected_0_iff update_where_nop)
  qed
  moreover have "verify_password kdf pw h = Inr (same_key kdf salt (ik_secret ik) pw)" for pw
    using verify_hashed [OF assms(3)] hp assms(4) by simp
  ultimately show ?thesis
    by (intro exI [of _ row] exI [of _ db2] conjI)
      (use again in \<open>simp_all add: db1 row ik smtp_shown_def db2_def flip: row_def\<close>)
qed

definition example_smtp_draws :: "nat \<Rightarrow> smtp_draws" where
  "example_smtp_draws n =
     \<lparr>sd_secret = Inr ''abc'', sd_salt = Inr ''salt'', sd_id = n, sd_user = n\<rparr>"

theorem smtp_key_lifecycle_witness:
  "\<exists>ik db1 db2. smtp_create example_kdf (example_smtp_draws 5) 0 ''Example.org'' ''App'' example_db = (Inr ik, db1) \<and>
     smtp_create example_kdf (example_smtp_draws 6) 1 ''Example.org'' '' APP'' db1 = (Inl err_smtp_key_exists, db1) \<and>
     smtp_revoke 2 ''Example.org'' 5 db1 = (Inr (), db2)"
proof -
  have can: "canon ''Example.org'' = ''example.org''" by code_simp
  have nm: "smtp_key_name ''App'' = ''App''" "smtp_key_name '' APP'' = ''APP''" by code_simp+
  have rx: "rx_match key_name_rx ''App''" "rx_match key_name_rx ''APP''" by code_simp+
  have f: "faults example_db = []" by (simp add: example_db_def empty_db_def)
  obtain h where h: "hash_password example_kdf (Inr ''salt'') (''mo_sk_'' @ raw_url_encode ''abc'') default_argon2_params = Inr h"
    by (rule hash_password_total [OF example_kdf_law])
  have ok: "first_violation (smtp_constraints (smtp_row (example_smtp_draws 5) 0 example_domain ''App'' h) example_db) = None"
    unfolding smtp_constraints_None by (simp add: smtp_row_def example_db_def empty_db_def example_smtp_draws_def)
  obtain ik db1 where c: "smtp_create example_kdf (example_smtp_draws 5) 0 ''Example.org'' ''App'' example_db = (Inr ik, db1)"
    and ik: "sk_id (ik_key ik) = 5"
    using f h ok rx
    by (auto simp: smtp_create_eq smtp_issue_eq can nm Let_def smtp_generate_secret_def
        example_smtp_draws_def example_db_def example_domain_def empty_db_def smtp_shown_def smtp_row_def)
  have low: "to_lower (smtp_key_name '' APP'') = to_lower (smtp_key_name ''App'')" unfolding nm by code_simp
  have dr: "sd_salt (example_smtp_draws n) = Inr ''salt''" "sd_secret (example_smtp_draws n) = Inr ''abc''" for n
    by (simp_all add: example_smtp_draws_def)
  have rx': "rx_match key_name_rx (smtp_key_name '' APP'')" unfolding nm by (rule rx(2))
  from smtp_key_lifecycle [OF wf_example_db(1) f example_kdf_law dr(1) c low rx' dr(2) dr(1),
      of 6 1 2 3]
  show ?thesis
  proof (elim exE conjE, goal_cases)
    case (1 row db2)
    from 1(8) have "smtp_revoke 2 ''Example.org'' 5 db1 = (Inr (), db2)" unfolding 1(2) ik .
    with c 1(7) show ?case by blast
  qed
qed

end
