(* ===== verification/Identity.thy ===== *)
theory Identity
  imports Mailboxes Go_Uuid
begin

text \<open>
  The package \<open>internal/identity\<close>: the interface of an identity provider, the service that
  chooses the provider and guards the access to mailboxes, the synchronisation with a
  directory, and the provider of \<open>internal/identity/local\<close> over the table of mailboxes. A
  provider acts on the database and on a state of its own (its directory). The state of the
  provisioner is a third component of the synchronisation, which creates mailboxes.
\<close>

section \<open>Model and errors\<close>

definition err_identity_not_found :: err where
  "err_identity_not_found = Sentinel ''identity'' ''ErrIdentityNotFound''"

definition err_id_authentication_failed :: err where
  "err_id_authentication_failed = Sentinel ''identity'' ''ErrAuthenticationFailed''"

definition err_account_suspended :: err where
  "err_account_suspended = Sentinel ''identity'' ''ErrAccountSuspended''"

definition err_account_disabled :: err where
  "err_account_disabled = Sentinel ''identity'' ''ErrAccountDisabled''"

definition err_account_pending :: err where
  "err_account_pending = Sentinel ''identity'' ''ErrAccountPending''"

definition err_invalid_credentials :: err where
  "err_invalid_credentials = Sentinel ''identity'' ''ErrInvalidCredentials''"

definition err_ldap_injection :: err where
  "err_ldap_injection = Sentinel ''identity'' ''ErrLDAPInjectionDetected''"

lemmas [errs] = err_identity_not_found_def err_id_authentication_failed_def
  err_account_suspended_def err_account_disabled_def err_account_pending_def
  err_invalid_credentials_def err_ldap_injection_def

definition status_active :: string where "status_active = ''active''"
definition status_suspended :: string where "status_suspended = ''suspended''"
definition status_disabled :: string where "status_disabled = ''disabled''"

lemmas id_consts = status_active_def status_suspended_def status_disabled_def

record identity =
  id_id :: string
  id_username :: string
  id_email :: string
  id_display_name :: string
  id_first_name :: string
  id_last_name :: string
  id_status :: string
  id_provider :: string
  id_attributes :: "string \<rightharpoonup> string"
  id_groups :: "string list"
  id_roles :: "string list"
  id_created_at :: instant
  id_updated_at :: instant

record id_group =
  gr_id :: string
  gr_name :: string
  gr_dn :: string
  gr_description :: string
  gr_members :: "string list"

definition canonicalize_username :: "string \<Rightarrow> string" where
  "canonicalize_username input = trim_space (to_lower input)"

text \<open>
  The interface \<open>IdentityProvider\<close>. A provider that also lists its users satisfies the
  anonymous interface \<open>userLister\<close> of \<open>Sync\<close>.
\<close>

record 'k identity_provider =
  ip_name :: string
  ip_authenticate :: "string \<Rightarrow> string \<Rightarrow> db \<Rightarrow> 'k \<Rightarrow> identity result \<times> db \<times> 'k"
  ip_lookup :: "string \<Rightarrow> db \<Rightarrow> 'k \<Rightarrow> identity result \<times> db \<times> 'k"
  ip_groups :: "string \<Rightarrow> db \<Rightarrow> 'k \<Rightarrow> id_group list result \<times> db \<times> 'k"
  ip_set_password :: "string \<Rightarrow> string \<Rightarrow> db \<Rightarrow> 'k \<Rightarrow> unit result \<times> db \<times> 'k"
  ip_list_users :: "(db \<Rightarrow> 'k \<Rightarrow> identity list result \<times> db \<times> 'k) option"

section \<open>The local provider\<close>

definition dummy_hash :: string where
  "dummy_hash = ''$argon2id$v=19$m=65536,t=3,p=4$c29tZXNhbHRzb21lc2FsdA$q8Y9X2eYqV3HwJpZ5K3r7Z''"

definition local_roles :: "string \<Rightarrow> string list" where
  "local_roles email =
     (if has_prefix (to_lower email) ''admin@'' \<or> has_prefix (to_lower email) ''root@''
      then [''admin''] else [''user''])"

definition local_identity :: "string \<Rightarrow> mailbox \<Rightarrow> identity" where
  "local_identity status mb =
     \<lparr>id_id = uuid_string (mb_id mb), id_username = mb_email mb, id_email = mb_email mb,
      id_display_name = '''', id_first_name = '''', id_last_name = '''', id_status = status,
      id_provider = ''local'', id_attributes = Map.empty, id_groups = [],
      id_roles = local_roles (mb_email mb), id_created_at = mb_created_at mb,
      id_updated_at = mb_updated_at mb\<rparr>"

definition local_authenticate :: "kdf \<Rightarrow> string \<Rightarrow> string \<Rightarrow> db \<Rightarrow> identity result \<times> db" where
  "local_authenticate kdf username password db =
     (let email = canonicalize_username username
      in if email = '''' \<or> password = '''' then (Inl err_invalid_credentials, db)
         else (case mailbox_get_by_email email db of
             (Inl err, db1) \<Rightarrow>
               (case verify_password kdf password dummy_hash of
                  Inl (Panic s) \<Rightarrow> (Inl (Panic s), db1)
                | _ \<Rightarrow> (Inl err_id_authentication_failed, db1))
           | (Inr mb, db1) \<Rightarrow>
               if mb_status mb = ''suspended'' then (Inl err_account_suspended, db1)
               else if mb_status mb = ''disabled'' then (Inl err_account_disabled, db1)
               else if mb_provisioning_status mb \<noteq> prov_ready \<and> mb_provisioning_status mb \<noteq> ''active''
                 then (Inl err_account_pending, db1)
               else (case verify_password kdf password (mb_password_hash mb) of
                   Inl (Panic s) \<Rightarrow> (Inl (Panic s), db1)
                 | Inl err \<Rightarrow> (Inl err_id_authentication_failed, db1)
                 | Inr valid \<Rightarrow>
                     if \<not> valid then (Inl err_id_authentication_failed, db1)
                     else (Inr (local_identity status_active mb), db1))))"

definition local_lookup :: "string \<Rightarrow> db \<Rightarrow> identity result \<times> db" where
  "local_lookup username db =
     (case mailbox_get_by_email (canonicalize_username username) db of
        (Inl err, db1) \<Rightarrow> (Inl err_identity_not_found, db1)
      | (Inr mb, db1) \<Rightarrow>
          let status = (if mb_status mb = ''suspended'' then status_suspended
                        else if mb_status mb = ''disabled'' then status_disabled
                        else status_active)
          in (Inr (local_identity status mb), db1))"

definition local_groups :: "string \<Rightarrow> id_group list result" where
  "local_groups username =
     Inr [\<lparr>gr_id = ''local-users'', gr_name = ''users'', gr_dn = '''', gr_description = '''',
           gr_members = []\<rparr>]"

definition local_set_password ::
    "kdf \<Rightarrow> instant \<Rightarrow> string result \<Rightarrow> string \<Rightarrow> string \<Rightarrow> db \<Rightarrow> unit result \<times> db" where
  "local_set_password kdf now rnd username new_password db =
     (let email = canonicalize_username username
      in if length new_password < 8 then (Inl (Msg ''password must be at least 8 characters long''), db)
         else (case mailbox_get_by_email email db of
             (Inl err, db1) \<Rightarrow> (Inl err_identity_not_found, db1)
           | (Inr mb, db1) \<Rightarrow>
               (case hash_password kdf rnd new_password default_argon2_params of
                  Inl (Panic s) \<Rightarrow> (Inl (Panic s), db1)
                | Inl err \<Rightarrow> (Inl (Wrap ''failed to hash password'' err), db1)
                | Inr hashed \<Rightarrow> update_password_hash now (mb_id mb) hashed db1)))"

text \<open>The provider leaves the state of any directory alone; it does not list users.\<close>

definition local_provider :: "kdf \<Rightarrow> instant \<Rightarrow> string result \<Rightarrow> 'k identity_provider" where
  "local_provider kdf now rnd =
     \<lparr>ip_name = ''local'',
      ip_authenticate = (\<lambda>u p db k. let (r, db1) = local_authenticate kdf u p db in (r, db1, k)),
      ip_lookup = (\<lambda>u db k. let (r, db1) = local_lookup u db in (r, db1, k)),
      ip_groups = (\<lambda>u db k. (local_groups u, db, k)),
      ip_set_password = (\<lambda>u p db k. let (r, db1) = local_set_password kdf now rnd u p db in (r, db1, k)),
      ip_list_users = None\<rparr>"

section \<open>The service\<close>

text \<open>The three repositories may be absent, as in the tests and in the command line tool.\<close>

record 'k identity_service =
  is_default :: string
  is_providers :: "string \<rightharpoonup> 'k identity_provider"
  is_mailboxes :: bool
  is_domains :: bool
  is_mb_service :: bool

definition new_identity_service ::
    "string \<Rightarrow> (string \<rightharpoonup> 'k identity_provider) \<Rightarrow> bool \<Rightarrow> bool \<Rightarrow> bool \<Rightarrow> 'k identity_service" where
  "new_identity_service dflt ps mbs ds svc =
     \<lparr>is_default = (if dflt = '''' then ''local'' else dflt), is_providers = ps,
      is_mailboxes = mbs, is_domains = ds, is_mb_service = svc\<rparr>"

definition get_provider :: "'k identity_service \<Rightarrow> string \<Rightarrow> 'k identity_provider result" where
  "get_provider svc name0 =
     (let name = (if name0 = '''' then is_default svc else name0)
      in case is_providers svc name of
           None \<Rightarrow> Inl (Msg (''identity provider '' @ name @ '' not registered''))
         | Some p \<Rightarrow> Inr p)"

definition not_provisioned :: "mailbox \<Rightarrow> bool" where
  "not_provisioned mb \<longleftrightarrow>
     mb_provisioning_status mb \<noteq> prov_ready \<and> mb_provisioning_status mb \<noteq> ''active''"

text \<open>Part 1 of \<open>Authenticate\<close>: the assigned provider, unless the mailbox is blocked.\<close>

definition assigned_provider :: "'k identity_service \<Rightarrow> string \<Rightarrow> db \<Rightarrow> string result \<times> db" where
  "assigned_provider svc username db =
     (if \<not> is_mailboxes svc then (Inr (is_default svc), db)
      else (case mailbox_get_by_email username db of
          (Inl err, db1) \<Rightarrow> (Inr (is_default svc), db1)
        | (Inr mb, db1) \<Rightarrow>
            if mb_status mb = ''suspended'' then (Inl err_account_suspended, db1)
            else if mb_status mb = ''disabled'' then (Inl err_account_disabled, db1)
            else if not_provisioned mb then (Inl err_account_pending, db1)
            else (Inr (if mb_identity_provider mb \<noteq> '''' then mb_identity_provider mb
                       else is_default svc), db1)))"

text \<open>Part 2: an identity of another provider needs a mailbox that is ready.\<close>

definition mail_access :: "identity \<Rightarrow> db \<Rightarrow> identity result \<times> db" where
  "mail_access ident db =
     (case mailbox_get_by_email (id_email ident) db of
        (Inl err, db1) \<Rightarrow>
          (Inl (Msg (''mail access denied: mailbox for identity '' @ id_email ident @
                     '' is not provisioned in mail database'')), db1)
      | (Inr mb, db1) \<Rightarrow>
          if mb_status mb \<noteq> ''active'' then (Inl err_account_suspended, db1)
          else if not_provisioned mb then (Inl err_account_pending, db1)
          else (Inr ident, db1))"

definition id_authenticate ::
    "'k identity_service \<Rightarrow> string \<Rightarrow> string \<Rightarrow> db \<Rightarrow> 'k \<Rightarrow> identity result \<times> db \<times> 'k" where
  "id_authenticate svc username0 password db k =
     (let username = canonicalize_username username0
      in if username = '''' \<or> password = '''' then (Inl err_invalid_credentials, db, k)
         else (case assigned_provider svc username db of
             (Inl err, db1) \<Rightarrow> (Inl err, db1, k)
           | (Inr name, db1) \<Rightarrow>
               (case get_provider svc name of
                  Inl err \<Rightarrow> (Inl err, db1, k)
                | Inr p \<Rightarrow>
                    (case ip_authenticate p username password db1 k of
                       (Inl err, db2, k1) \<Rightarrow> (Inl err, db2, k1)
                     | (Inr ident, db2, k1) \<Rightarrow>
                         if is_mailboxes svc \<and> ip_name p \<noteq> ''local''
                         then let (r, db3) = mail_access ident db2 in (r, db3, k1)
                         else (Inr ident, db2, k1)))))"

definition id_lookup :: "'k identity_service \<Rightarrow> string \<Rightarrow> db \<Rightarrow> 'k \<Rightarrow> identity result \<times> db \<times> 'k" where
  "id_lookup svc username db k =
     (case get_provider svc (is_default svc) of
        Inl err \<Rightarrow> (Inl err, db, k)
      | Inr p \<Rightarrow> ip_lookup p (canonicalize_username username) db k)"

definition id_set_password ::
    "'k identity_service \<Rightarrow> string \<Rightarrow> string \<Rightarrow> db \<Rightarrow> 'k \<Rightarrow> unit result \<times> db \<times> 'k" where
  "id_set_password svc username pw db k =
     (case get_provider svc (is_default svc) of
        Inl err \<Rightarrow> (Inl err, db, k)
      | Inr p \<Rightarrow> ip_set_password p (canonicalize_username username) pw db k)"

section \<open>Synchronisation with a directory\<close>

text \<open>\<open>^[a-zA-Z0-9._%+-]+@[a-zA-Z0-9.-]+\.[a-zA-Z]{2,}$\<close>\<close>

definition ascii_letters :: "(char \<times> char) list" where
  "ascii_letters = [(CHR ''a'', CHR ''z''), (CHR ''A'', CHR ''Z'')]"

definition ascii_email_rx :: rx where
  "ascii_email_rx =
     Seq (plus_rx (Cls (alnum @ map (\<lambda>c. (c, c)) ''._%+-'')))
       (Seq (one (CHR ''@''))
         (Seq (plus_rx (Cls (alnum @ map (\<lambda>c. (c, c)) ''.-'')))
           (Seq (one (CHR ''.''))
             (Seq (Cls ascii_letters) (plus_rx (Cls ascii_letters))))))"

record sync_options =
  so_domain_name :: string
  so_auto_create :: bool
  so_default_quota :: int
  so_on_user_missing :: string
  so_dry_run :: bool

text \<open>The messages the report collects, one constructor for each format string of \<open>Sync\<close>.\<close>

datatype sync_problem =
    Invalid_Email string
  | Collision string string
  | Domain_Not_Registered string string
  | Domain_Not_Active string string string
  | Create_Failed string err
  | Takeover_Attempt string string

record sync_report =
  sr_total :: nat
  sr_created :: nat
  sr_updated :: nat
  sr_suspended :: nat
  sr_skipped :: nat
  sr_on_user_missing :: string
  sr_errors :: "sync_problem list"

definition skip :: "sync_report \<Rightarrow> sync_report" where
  "skip r = r\<lparr>sr_skipped := sr_skipped r + 1\<rparr>"

definition problem :: "sync_problem \<Rightarrow> sync_report \<Rightarrow> sync_report" where
  "problem p r = r\<lparr>sr_errors := sr_errors r @ [p]\<rparr>"

definition email_count :: "identity list \<Rightarrow> string \<Rightarrow> nat" where
  "email_count idents em =
     length (filter (\<lambda>i. canonicalize_username (id_email i) = em \<and> em \<noteq> '''' \<and>
       rx_match ascii_email_rx em) idents)"

text \<open>
  What the creation of one mailbox draws: the identifier of the row, the UUID of its
  placeholder password, the salt; and what it works with.
\<close>

record sync_draw =
  dw_id :: uuid
  dw_password :: uuid
  dw_salt :: "string result"

record 'd sync_env =
  se_mail :: mail_env
  se_prov :: "'d provisioner option"
  se_now :: instant

definition sync_create ::
    "'d sync_env \<Rightarrow> sync_draw \<Rightarrow> int \<Rightarrow> string \<Rightarrow> sync_report \<Rightarrow> db \<Rightarrow> 'd \<Rightarrow> sync_report \<times> db \<times> 'd" where
  "sync_create env dw quota email r db d =
     (case mailbox_create (se_mail env) (se_prov env) (dw_id dw) (se_now env) (dw_salt dw) email
             (''LDAP_MANAGED_'' @ uuid_string (dw_password dw)) quota db d of
        (Inl err, db1, d1) \<Rightarrow> (problem (Create_Failed email err) r, db1, d1)
      | (Inr mb, db1, d1) \<Rightarrow>
          let db2 = snd (update_identity_provider (se_now env) (mb_id mb) ''ldap'' db1);
              (pr, db3, d2) = mailbox_provision (se_prov env) (se_now env) email db2 d1
          in (r\<lparr>sr_created := sr_created r + 1\<rparr>, db3, d2))"

text \<open>Step 4 of the loop: the mailbox of an address exists or not.\<close>

definition sync_mailbox ::
    "'k identity_service \<Rightarrow> sync_options \<Rightarrow> 'd sync_env \<Rightarrow> sync_draw \<Rightarrow> identity \<Rightarrow> string \<Rightarrow>
       sync_report \<Rightarrow> db \<Rightarrow> 'd \<Rightarrow> sync_report \<times> db \<times> 'd" where
  "sync_mailbox svc opts env dw ident email r db d =
     (case mailbox_get_by_email email db of
        (Inl err, db1) \<Rightarrow>
          if so_auto_create opts \<and> \<not> so_dry_run opts \<and> is_mb_service svc
          then sync_create env dw (so_default_quota opts) email r db1 d
          else (skip r, db1, d)
      | (Inr existing, db1) \<Rightarrow>
          if mb_identity_provider existing = ''local''
          then (skip (problem (Takeover_Attempt (id_id ident) email) r), db1, d)
          else if id_status ident = status_disabled \<and> mb_status existing = ''active''
          then (r\<lparr>sr_suspended := sr_suspended r + 1\<rparr>,
                (if \<not> so_dry_run opts
                 then snd (update_status (se_now env) (mb_id existing) ''suspended'' db1) else db1), d)
          else (r\<lparr>sr_updated := sr_updated r + 1\<rparr>, db1, d))"

text \<open>Step 3: the domain must be registered and active.\<close>

definition sync_domain :: "'k identity_service \<Rightarrow> string \<Rightarrow> string \<Rightarrow> db \<Rightarrow> sync_problem option \<times> db" where
  "sync_domain svc dpart email db =
     (if \<not> is_domains svc then (None, db)
      else (case domain_get_by_name dpart db of
          (Inl err, db1) \<Rightarrow> (Some (Domain_Not_Registered dpart email), db1)
        | (Inr dm, db1) \<Rightarrow>
            if dom_status dm \<noteq> ''active'' then (Some (Domain_Not_Active dpart (dom_status dm) email), db1)
            else (None, db1)))"

definition sync_one ::
    "'k identity_service \<Rightarrow> sync_options \<Rightarrow> 'd sync_env \<Rightarrow> (string \<Rightarrow> nat) \<Rightarrow> sync_draw \<Rightarrow> identity \<Rightarrow>
       sync_report \<Rightarrow> db \<Rightarrow> 'd \<Rightarrow> sync_report \<times> db \<times> 'd" where
  "sync_one svc opts env counts dw ident r db d =
     (let email = canonicalize_username (id_email ident)
      in if email = '''' then (skip r, db, d)
         else if \<not> rx_match ascii_email_rx email then (skip (problem (Invalid_Email email) r), db, d)
         else if counts email > 1 then (skip (problem (Collision email (id_id ident)) r), db, d)
         else let dpart = str_split CHR ''@'' email ! 1
         in if so_domain_name opts \<noteq> '''' \<and> \<not> equal_fold dpart (so_domain_name opts) then (skip r, db, d)
         else (case sync_domain svc dpart email db of
             (Some p, db1) \<Rightarrow> (skip (problem p r), db1, d)
           | (None, db1) \<Rightarrow> sync_mailbox svc opts env dw ident email r db1 d))"

fun sync_loop ::
    "'k identity_service \<Rightarrow> sync_options \<Rightarrow> 'd sync_env \<Rightarrow> (string \<Rightarrow> nat) \<Rightarrow> (nat \<Rightarrow> sync_draw) \<Rightarrow>
       nat \<Rightarrow> identity list \<Rightarrow> sync_report \<Rightarrow> db \<Rightarrow> 'd \<Rightarrow> sync_report \<times> db \<times> 'd" where
  "sync_loop svc opts env counts dw n [] r db d = (r, db, d)"
| "sync_loop svc opts env counts dw n (i # is) r db d =
     (case sync_one svc opts env counts (dw n) i r db d of
        (r1, db1, d1) \<Rightarrow> sync_loop svc opts env counts dw (Suc n) is r1 db1 d1)"

definition id_sync ::
    "'k identity_service \<Rightarrow> sync_options \<Rightarrow> 'd sync_env \<Rightarrow> (nat \<Rightarrow> sync_draw) \<Rightarrow> db \<Rightarrow> 'k \<Rightarrow> 'd \<Rightarrow>
       sync_report result \<times> db \<times> 'k \<times> 'd" where
  "id_sync svc opts0 env dw db k d =
     (case is_providers svc ''ldap'' of
        None \<Rightarrow> (Inl (Msg ''ldap identity provider is not configured''), db, k, d)
      | Some p \<Rightarrow>
          (case ip_list_users p of
             None \<Rightarrow> (Inl (Msg ''ldap provider does not support directory listing''), db, k, d)
           | Some list_users \<Rightarrow>
               (case list_users db k of
                  (Inl err, db1, k1) \<Rightarrow>
                    (Inl (Wrap ''failed to list LDAP directory identities'' err), db1, k1, d)
                | (Inr idents, db1, k1) \<Rightarrow>
                    let opts = (if so_default_quota opts0 \<le> 0
                                then opts0\<lparr>so_default_quota := 1073741824\<rparr> else opts0);
                        r0 = \<lparr>sr_total = length idents, sr_created = 0, sr_updated = 0,
                              sr_suspended = 0, sr_skipped = 0,
                              sr_on_user_missing = so_on_user_missing opts, sr_errors = []\<rparr>;
                        (r, db2, d1) = sync_loop svc opts env (email_count idents) dw 0 idents r0 db1 d
                    in (Inr r, db2, k1, d1))))"

record id_doctor_report =
  dr_provider_name :: string
  dr_config_ok :: bool
  dr_tls_ok :: bool
  dr_connection_ok :: bool
  dr_search_ok :: bool
  dr_healthy :: bool
  dr_details :: "string \<rightharpoonup> string"
  dr_errors :: "string list"

definition id_doctor :: "'k identity_service \<Rightarrow> id_doctor_report" where
  "id_doctor svc =
     (case is_providers svc (is_default svc) of
        None \<Rightarrow>
          \<lparr>dr_provider_name = is_default svc, dr_config_ok = False, dr_tls_ok = False,
           dr_connection_ok = False, dr_search_ok = False, dr_healthy = False,
           dr_details = Map.empty, dr_errors = [''provider '' @ is_default svc @ '' not found'']\<rparr>
      | Some p \<Rightarrow>
          \<lparr>dr_provider_name = is_default svc, dr_config_ok = True, dr_tls_ok = True,
           dr_connection_ok = True, dr_search_ok = True, dr_healthy = True,
           dr_details = [''Provider'' \<mapsto> ip_name p], dr_errors = []\<rparr>)"

end
