(* ===== verification/Ldap.thy ===== *)
theory Ldap
  imports Identity
begin

text \<open>
  The package \<open>internal/identity/ldap\<close>: the construction of search filters, the mapping of
  directory entries to identities and the provider, written against the interface
  \<open>Client\<close>. The connections of \<open>systemClient\<close> are third-party code and network I/O; an entry
  of \<open>go-ldap\<close> is its name, its attributes in order and the documented functions that read
  the values of one attribute.
\<close>

section \<open>Filters\<close>

fun escape_filter_char :: "char \<Rightarrow> string" where
  "escape_filter_char c =
     (if c = CHR 0x5C then [CHR 0x5C, CHR ''5'', CHR ''c'']
      else if c = CHR ''*'' then [CHR 0x5C, CHR ''2'', CHR ''a'']
      else if c = CHR ''('' then [CHR 0x5C, CHR ''2'', CHR ''8'']
      else if c = CHR '')'' then [CHR 0x5C, CHR ''2'', CHR ''9'']
      else if c = CHR 0x00 then [CHR 0x5C, CHR ''0'', CHR ''0'']
      else [c])"

definition escape_filter :: "string \<Rightarrow> string" where
  "escape_filter s = concat (map escape_filter_char s)"

definition dn_special :: "char \<Rightarrow> bool" where
  "dn_special c \<longleftrightarrow> c \<in> set [CHR 0x5C, CHR '','', CHR ''+'', CHR 0x22, CHR ''<'', CHR ''>'', CHR '';'', CHR ''='']"

text \<open>The position of a character matters at both ends.\<close>

definition escape_dn_char :: "bool \<Rightarrow> bool \<Rightarrow> char \<Rightarrow> string" where
  "escape_dn_char is_first is_last c =
     (if is_first \<and> (c = CHR '' '' \<or> c = CHR ''#'') then [CHR 0x5C, c]
      else if is_last \<and> c = CHR '' '' then [CHR 0x5C, c]
      else if dn_special c then [CHR 0x5C, c]
      else if c = CHR 0x00 then [CHR 0x5C, CHR ''0'', CHR ''0'']
      else [c])"

fun escape_dn_from :: "bool \<Rightarrow> string \<Rightarrow> string" where
  "escape_dn_from is_first [] = []"
| "escape_dn_from is_first (c # s) = escape_dn_char is_first (s = []) c @ escape_dn_from False s"

definition escape_dn :: "string \<Rightarrow> string" where
  "escape_dn s = escape_dn_from True s"

definition placeholder_user :: string where "placeholder_user = ''{username}''"
definition placeholder_dn :: string where "placeholder_dn = ''{dn}''"

definition default_user_filter :: string where
  "default_user_filter = ''(|(mail={username})(uid={username}))''"

definition default_group_filter :: string where
  "default_group_filter = ''(|(member={dn})(uniqueMember={dn}))''"

definition build_user_filter :: "string \<Rightarrow> string \<Rightarrow> string result" where
  "build_user_filter template0 username =
     (let template = (if template0 = '''' then default_user_filter else template0)
      in if \<not> contains template placeholder_user
         then Inl (Msg ''invalid user filter template: missing {username} placeholder'')
         else let f = replace_all template placeholder_user (escape_filter username);
                  opens = count_char f CHR ''(''; closes = count_char f CHR '')''
         in if opens \<noteq> closes \<or> opens = 0 then Inl err_ldap_injection else Inr f)"

definition build_group_filter :: "string \<Rightarrow> string \<Rightarrow> string \<Rightarrow> string" where
  "build_group_filter template0 user_dn username =
     (let template = (if template0 = '''' then default_group_filter else template0)
      in replace_all (replace_all template placeholder_dn (escape_filter user_dn))
           placeholder_user (escape_filter username))"

section \<open>Entries\<close>

text \<open>
  The valid encodings of \<open>unicode/utf8\<close>: how many bytes the first character of a string has,
  if it is valid.
\<close>

definition cont :: "nat \<Rightarrow> nat \<Rightarrow> char \<Rightarrow> bool" where
  "cont lo hi c \<longleftrightarrow> lo \<le> byte c \<and> byte c \<le> hi"

fun rune_len :: "string \<Rightarrow> nat option" where
  "rune_len [] = None"
| "rune_len (c # s) =
     (let b = byte c
      in if b < 128 then Some 1
         else if 194 \<le> b \<and> b \<le> 223 then
           (case s of c1 # _ \<Rightarrow> if cont 128 191 c1 then Some 2 else None | _ \<Rightarrow> None)
         else if 224 \<le> b \<and> b \<le> 239 then
           (case s of c1 # c2 # _ \<Rightarrow>
              if cont (if b = 224 then 160 else 128) (if b = 237 then 159 else 191) c1 \<and> cont 128 191 c2
              then Some 3 else None
            | _ \<Rightarrow> None)
         else if 240 \<le> b \<and> b \<le> 244 then
           (case s of c1 # c2 # c3 # _ \<Rightarrow>
              if cont (if b = 240 then 144 else 128) (if b = 244 then 143 else 191) c1 \<and>
                 cont 128 191 c2 \<and> cont 128 191 c3
              then Some 4 else None
            | _ \<Rightarrow> None)
         else None)"

function to_valid_utf8 :: "string \<Rightarrow> string" where
  "to_valid_utf8 [] = []"
| "to_valid_utf8 (c # s) =
     (case rune_len (c # s) of
        None \<Rightarrow> to_valid_utf8 s
      | Some n \<Rightarrow> take n (c # s) @ to_valid_utf8 (drop (n - 1) s))"
  by pat_completeness auto
termination by (relation "measure length") auto

definition max_attr_bytes :: nat where
  "max_attr_bytes = 4096"

text \<open>\<open>ToValidUTF8\<close> leaves a valid string alone, so the test before it changes nothing.\<close>

definition sanitize_string :: "string \<Rightarrow> string" where
  "sanitize_string s0 =
     (let s = to_valid_utf8 s0;
          t = (if length s > max_attr_bytes then take max_attr_bytes s else s)
      in trim_space t)"

definition extract_cn :: "string \<Rightarrow> string" where
  "extract_cn dn =
     (case find (\<lambda>p. has_prefix (to_lower (trim_space p)) ''cn='') (str_split CHR '','' dn) of
        Some p \<Rightarrow> drop 3 (trim_space p)
      | None \<Rightarrow> dn)"

record ldap_entry =
  en_dn :: string
  en_attributes :: "(string \<times> string list) list"
  en_values :: "string \<Rightarrow> string list"

text \<open>\<open>GetAttributeValue\<close>: the first value, or the empty string.\<close>

definition en_value :: "ldap_entry \<Rightarrow> string \<Rightarrow> string" where
  "en_value e a = (case en_values e a of [] \<Rightarrow> '''' | v # _ \<Rightarrow> v)"

definition default_role_mapping :: "string \<rightharpoonup> string" where
  "default_role_mapping =
     [''mail-admins'' \<mapsto> ''admin'', ''mail-operators'' \<mapsto> ''operator'', ''mail-auditors'' \<mapsto> ''auditor'']"

text \<open>\<open>NewMapper\<close>: an absent mapping is the default one.\<close>

definition new_mapper :: "(string \<rightharpoonup> string) option \<Rightarrow> string \<rightharpoonup> string" where
  "new_mapper m = (case m of None \<Rightarrow> default_role_mapping | Some f \<Rightarrow> f)"

definition entry_mail :: "ldap_entry \<Rightarrow> string \<Rightarrow> string" where
  "entry_mail e uid =
     (let m1 = (case find (\<lambda>v. sanitize_string v \<noteq> '''' \<and> contains (sanitize_string v) ''@'')
                       (en_values e ''mail'') of None \<Rightarrow> '''' | Some v \<Rightarrow> sanitize_string v);
          m2 = (if m1 = '''' then sanitize_string (en_value e ''userPrincipalName'') else m1)
      in if m2 = '''' \<and> contains uid ''@'' then uid else m2)"

definition entry_status :: "ldap_entry \<Rightarrow> string" where
  "entry_status e =
     (if equal_fold (en_value e ''nsAccountLock'') ''true'' \<or>
         equal_fold (en_value e ''accountStatus'') ''disabled'' \<or>
         equal_fold (en_value e ''accountStatus'') ''locked''
      then status_disabled else status_active)"

definition entry_attributes :: "ldap_entry \<Rightarrow> string \<rightharpoonup> string" where
  "entry_attributes e =
     (foldl (\<lambda>m (a, vs). case vs of [] \<Rightarrow> m | v # _ \<Rightarrow> m(a \<mapsto> sanitize_string v)) Map.empty
        (en_attributes e)) (''dn'' \<mapsto> sanitize_string (en_dn e))"

text \<open>The groups of an entry and the roles they map to, each once and in order.\<close>

fun entry_groups :: "(string \<rightharpoonup> string) \<Rightarrow> string list \<Rightarrow> string list \<times> string list \<Rightarrow> string list \<times> string list" where
  "entry_groups m [] acc = acc"
| "entry_groups m (g # gs) (groups, roles) =
     (let cn = extract_cn (sanitize_string g)
      in if cn \<noteq> '''' \<and> cn \<notin> set groups
         then entry_groups m gs
                (groups @ [cn],
                 (case m cn of None \<Rightarrow> roles | Some r \<Rightarrow> if r \<in> set roles then roles else roles @ [r]))
         else entry_groups m gs (groups, roles))"

definition entry_to_identity :: "(string \<rightharpoonup> string) \<Rightarrow> ldap_entry \<Rightarrow> identity" where
  "entry_to_identity m e =
     (let uid1 = sanitize_string (en_value e ''uid'');
          uid = (if uid1 = '''' then sanitize_string (en_value e ''sAMAccountName'') else uid1);
          dn1 = sanitize_string (en_value e ''displayName'');
          (groups, roles) = entry_groups m (en_values e ''memberOf'') ([], [])
      in \<lparr>id_id = sanitize_string (en_dn e), id_username = uid,
          id_email = to_lower (entry_mail e uid),
          id_display_name = (if dn1 = '''' then sanitize_string (en_value e ''cn'') else dn1),
          id_first_name = sanitize_string (en_value e ''givenName''),
          id_last_name = sanitize_string (en_value e ''sn''),
          id_status = entry_status e, id_provider = ''ldap'',
          id_attributes = entry_attributes e, id_groups = groups,
          id_roles = (if roles = [] then [''user''] else roles),
          id_created_at = zero_time, id_updated_at = zero_time\<rparr>)"

section \<open>The provider\<close>

record ldap_config =
  lc_user_base_dn :: string
  lc_user_filter :: string
  lc_group_base_dn :: string
  lc_group_filter :: string
  lc_role_mapping :: "(string \<rightharpoonup> string) option"

record 'k ldap_client =
  cl_search :: "string \<Rightarrow> string \<Rightarrow> 'k \<Rightarrow> ldap_entry list result \<times> 'k"
  cl_authenticate_user :: "string \<Rightarrow> string \<Rightarrow> 'k \<Rightarrow> unit result \<times> 'k"
  cl_password_modify :: "string \<Rightarrow> string \<Rightarrow> string \<Rightarrow> 'k \<Rightarrow> unit result \<times> 'k"

definition is_subordinate_dn :: "string \<Rightarrow> string \<Rightarrow> bool" where
  "is_subordinate_dn dn base =
     (if base = '''' then True
      else has_suffix (to_lower (remove_char CHR '' '' dn)) (to_lower (remove_char CHR '' '' base)))"

definition ldap_authenticate ::
    "ldap_config \<Rightarrow> 'k ldap_client \<Rightarrow> string \<Rightarrow> string \<Rightarrow> 'k \<Rightarrow> identity result \<times> 'k" where
  "ldap_authenticate cfg cl username0 password k =
     (let username = canonicalize_username username0
      in if username = '''' \<or> password = '''' then (Inl err_invalid_credentials, k)
         else (case build_user_filter (lc_user_filter cfg) username of
             Inl err \<Rightarrow> (Inl err, k)
           | Inr f \<Rightarrow>
               (case cl_search cl (lc_user_base_dn cfg) f k of
                  (Inl err, k1) \<Rightarrow> (Inl err, k1)
                | (Inr [], k1) \<Rightarrow> (Inl err_id_authentication_failed, k1)
                | (Inr (e # e' # es), k1) \<Rightarrow>
                    (Inl (Msg (''ambiguous identity: multiple LDAP entries matched filter '' @ f)), k1)
                | (Inr [e], k1) \<Rightarrow>
                    if \<not> is_subordinate_dn (en_dn e) (lc_user_base_dn cfg)
                    then (Inl (Msg ''security violation: LDAP entry DN is outside configured UserBaseDN''), k1)
                    else (case cl_authenticate_user cl (en_dn e) password k1 of
                        (Inl err, k2) \<Rightarrow> (Inl err_id_authentication_failed, k2)
                      | (Inr u, k2) \<Rightarrow>
                          let ident = entry_to_identity (new_mapper (lc_role_mapping cfg)) e
                          in if id_username ident = '''' \<or> id_email ident = ''''
                             then (Inl err_id_authentication_failed, k2)
                             else if id_status ident = status_disabled then (Inl err_account_disabled, k2)
                             else if id_status ident = status_suspended then (Inl err_account_suspended, k2)
                             else (Inr ident, k2)))))"

definition ldap_lookup :: "ldap_config \<Rightarrow> 'k ldap_client \<Rightarrow> string \<Rightarrow> 'k \<Rightarrow> identity result \<times> 'k" where
  "ldap_lookup cfg cl username0 k =
     (let username = canonicalize_username username0
      in if username = '''' then (Inl err_invalid_credentials, k)
         else (case build_user_filter (lc_user_filter cfg) username of
             Inl err \<Rightarrow> (Inl err, k)
           | Inr f \<Rightarrow>
               (case cl_search cl (lc_user_base_dn cfg) f k of
                  (Inl err, k1) \<Rightarrow> (Inl err, k1)
                | (Inr [], k1) \<Rightarrow> (Inl err_identity_not_found, k1)
                | (Inr (e # es), k1) \<Rightarrow>
                    if \<not> is_subordinate_dn (en_dn e) (lc_user_base_dn cfg)
                    then (Inl (Msg ''security violation: LDAP entry DN is outside configured UserBaseDN''), k1)
                    else (Inr (entry_to_identity (new_mapper (lc_role_mapping cfg)) e), k1))))"

text \<open>A missing key of a Go map reads as the empty string.\<close>

definition attribute_dn :: "identity \<Rightarrow> string" where
  "attribute_dn i = (case id_attributes i ''dn'' of None \<Rightarrow> '''' | Some s \<Rightarrow> s)"

definition ldap_set_password ::
    "ldap_config \<Rightarrow> 'k ldap_client \<Rightarrow> string \<Rightarrow> string \<Rightarrow> 'k \<Rightarrow> unit result \<times> 'k" where
  "ldap_set_password cfg cl username pw k =
     (case ldap_lookup cfg cl username k of
        (Inl err, k1) \<Rightarrow> (Inl err, k1)
      | (Inr user, k1) \<Rightarrow> cl_password_modify cl (attribute_dn user) '''' pw k1)"

definition list_users_filter :: string where
  "list_users_filter = ''(|(objectClass=person)(objectClass=inetOrgPerson)(objectClass=user))''"

definition ldap_list_users :: "ldap_config \<Rightarrow> 'k ldap_client \<Rightarrow> 'k \<Rightarrow> identity list result \<times> 'k" where
  "ldap_list_users cfg cl k =
     (case cl_search cl (lc_user_base_dn cfg) list_users_filter k of
        (Inl err, k1) \<Rightarrow> (Inl (Wrap ''ldap list users failed'' err), k1)
      | (Inr es, k1) \<Rightarrow>
          (Inr (filter (\<lambda>i. id_email i \<noteq> '''')
                  (map (entry_to_identity (new_mapper (lc_role_mapping cfg))) es)), k1))"

definition entry_group :: "ldap_entry \<Rightarrow> id_group" where
  "entry_group e =
     \<lparr>gr_id = en_value e ''cn'', gr_name = en_value e ''cn'', gr_dn = en_dn e,
      gr_description = en_value e ''description'',
      gr_members = en_values e ''member'' @ en_values e ''uniqueMember''\<rparr>"

definition ldap_groups :: "ldap_config \<Rightarrow> 'k ldap_client \<Rightarrow> string \<Rightarrow> 'k \<Rightarrow> id_group list result \<times> 'k" where
  "ldap_groups cfg cl username k =
     (case ldap_lookup cfg cl username k of
        (Inl err, k1) \<Rightarrow> (Inl err, k1)
      | (Inr user, k1) \<Rightarrow>
          (case cl_search cl (lc_group_base_dn cfg)
                  (build_group_filter (lc_group_filter cfg) (attribute_dn user) (id_username user)) k1 of
             (Inl err, k2) \<Rightarrow> (Inl (Wrap ''group lookup error'' err), k2)
           | (Inr es, k2) \<Rightarrow> (Inr (map entry_group es), k2)))"

definition ldap_provider :: "ldap_config \<Rightarrow> 'k ldap_client \<Rightarrow> 'k identity_provider" where
  "ldap_provider cfg cl =
     \<lparr>ip_name = ''ldap'',
      ip_authenticate = (\<lambda>u p db k. let (r, k1) = ldap_authenticate cfg cl u p k in (r, db, k1)),
      ip_lookup = (\<lambda>u db k. let (r, k1) = ldap_lookup cfg cl u k in (r, db, k1)),
      ip_groups = (\<lambda>u db k. let (r, k1) = ldap_groups cfg cl u k in (r, db, k1)),
      ip_set_password = (\<lambda>u p db k. let (r, k1) = ldap_set_password cfg cl u p k in (r, db, k1)),
      ip_list_users = Some (\<lambda>db k. let (r, k1) = ldap_list_users cfg cl k in (r, db, k1))\<rparr>"

end
