(* ===== verification/Identity_Props.thy ===== *)
theory Identity_Props
  imports Ldap Mailbox_Props
begin

text \<open>
  What holds of logins and of the synchronisation. The interface of a provider is a locale;
  the local and the LDAP provider are interpretations. A login, whichever provider answers
  it, ends at a mailbox that is open; a synchronisation leaves local mailboxes and those it
  does not list alone; a user name cannot change the structure of a search filter.
\<close>

section \<open>The interface of a provider\<close>

text \<open>
  A mailbox is open to logins when it is neither suspended nor disabled and provisioned.
\<close>

definition open_mailbox :: "mailbox \<Rightarrow> bool" where
  "open_mailbox m \<longleftrightarrow> mb_status m \<noteq> ''suspended'' \<and> mb_status m \<noteq> ''disabled'' \<and> \<not> not_provisioned m"

definition opens :: "string \<Rightarrow> db \<Rightarrow> bool" where
  "opens email db \<longleftrightarrow> (\<exists>m\<in>set (mailboxes db). mb_email m = email \<and> open_mailbox m)"

definition same_accounts :: "db \<Rightarrow> db \<Rightarrow> bool" where
  "same_accounts db db' \<longleftrightarrow> mailboxes db' = mailboxes db \<and> domains db' = domains db"

lemma same_accounts_tick [simp]: "same_accounts db (tick db)"
  by (simp add: same_accounts_def)

lemma same_accounts_refl [simp]: "same_accounts db db"
  by (simp add: same_accounts_def)

lemma opens_same: "same_accounts db db' \<Longrightarrow> opens e db' = opens e db"
  by (simp add: same_accounts_def opens_def)

lemma same_accounts_trans: "same_accounts a b \<Longrightarrow> same_accounts b c \<Longrightarrow> same_accounts a c"
  by (simp add: same_accounts_def)

lemma same_rows: "same_accounts db db' \<Longrightarrow> mailbox_rows db' = mailbox_rows db"
proof -
  assume s: "same_accounts db db'"
  then have "join_domain db' = join_domain db"
    by (simp add: same_accounts_def join_domain_def fun_eq_iff)
  with s show ?thesis by (simp add: same_accounts_def mailbox_rows_def)
qed

text \<open>A row that the joined table shows as open is open.\<close>

lemma opensI:
  assumes "find (\<lambda>m. mb_email m = e) (mailbox_rows db) = Some mb" and "open_mailbox mb"
  shows "opens e db"
proof -
  obtain m0 d where "m0 \<in> set (mailboxes db)" "mb = m0\<lparr>mb_domain_name := dom_name (d :: domain)\<rparr>"
    "mb_email mb = e"
    by (rule find_mailbox_rows [OF assms(1)])
  with assms(2) show ?thesis
    unfolding opens_def by (intro bexI [of _ m0]) (simp_all add: open_mailbox_def not_provisioned_def)
qed

locale provider_laws =
  fixes p :: "'k identity_provider"
  assumes authenticate_frame: "ip_authenticate p u pw db k = (r, db', k') \<Longrightarrow> same_accounts db db'"
    and local_is_open:
      "ip_name p = ''local'' \<Longrightarrow> ip_authenticate p u pw db k = (Inr ident, db', k') \<Longrightarrow>
         opens (id_email ident) db"
begin

text \<open>The guard of the service on one provider: the login of an identity needs an open mailbox.\<close>

lemma guarded_open:
  assumes "is_mailboxes svc"
    and "ip_authenticate p u pw db1 k = (Inr ident, db2, k1)"
    and "(if is_mailboxes svc \<and> ip_name p \<noteq> ''local''
          then (let (r, db3) = mail_access ident db2 in (r, db3, k1))
          else (Inr ident, db2, k1)) = (Inr ident', db', k')"
  shows "ident' = ident \<and> opens (id_email ident) db1 \<and> same_accounts db1 db'"
proof (cases "ip_name p = ''local''")
  case True
  with assms(3) have "ident' = ident" "db' = db2" by simp_all
  with local_is_open [OF True assms(2)] authenticate_frame [OF assms(2)] show ?thesis by simp
next
  case False
  with assms(1,3) obtain mb where mb: "find (\<lambda>m. mb_email m = id_email ident) (mailbox_rows db2) = Some mb"
    "mb_status mb = ''active''" "\<not> not_provisioned mb" "ident' = ident" "db' = tick db2"
    by (auto simp: mail_access_def sql_simps split: if_splits option.splits)
  from mb(2,3) have "open_mailbox mb" by (simp add: open_mailbox_def)
  with mb(1) have "opens (id_email ident) db2" by (rule opensI)
  with opens_same [OF authenticate_frame [OF assms(2)]] same_accounts_trans
    [OF authenticate_frame [OF assms(2)] same_accounts_tick] mb show ?thesis by simp
qed

end

lemma local_authenticate_Inr:
  assumes "local_authenticate kdf u pw db = (Inr ident, db')"
  obtains mb where "find (\<lambda>m. mb_email m = canon u) (mailbox_rows db) = Some mb"
    and "open_mailbox mb" and "verify_password kdf pw (mb_password_hash mb) = Inr True"
    and "ident = local_identity status_active mb" and "pw \<noteq> ''''"
  using assms
  by (auto simp: local_authenticate_def canonicalize_username_def canon_def' sql_simps Let_def
      open_mailbox_def not_provisioned_def split: if_splits option.splits sum.splits err.splits)

lemma local_authenticate_frame: "local_authenticate kdf u pw db = (r, db') \<Longrightarrow> same_accounts db db'"
  by (auto simp: local_authenticate_def sql_simps Let_def
      split: if_splits option.splits sum.splits err.splits)

interpretation local: provider_laws "local_provider kdf now rnd" for kdf now rnd
proof
  fix u pw db and k :: 'a and r db' k'
  assume "ip_authenticate (local_provider kdf now rnd) u pw db k = (r, db', k')"
  then show "same_accounts db db'"
    by (auto simp: local_provider_def Let_def split: prod.splits dest: local_authenticate_frame)
next
  fix u pw db and k :: 'a and ident db' k'
  assume "ip_authenticate (local_provider kdf now rnd) u pw db k = (Inr ident, db', k')"
  then obtain mb where mb: "find (\<lambda>m. mb_email m = canon u) (mailbox_rows db) = Some mb"
    "open_mailbox mb" "ident = local_identity status_active mb"
    by (auto simp: local_provider_def Let_def split: prod.splits elim: local_authenticate_Inr)
  from opensI [OF mb(1,2)] find_SomeD [OF mb(1)] mb(3) show "opens (id_email ident) db"
    by (simp add: local_identity_def)
qed

interpretation ldap: provider_laws "ldap_provider cfg cl" for cfg cl
  by unfold_locales (auto simp: ldap_provider_def Let_def same_accounts_def split: prod.splits)

section \<open>Logins\<close>

text \<open>The providers of the program, by their registered names.\<close>

definition mail_providers ::
    "kdf \<Rightarrow> instant \<Rightarrow> string result \<Rightarrow> ldap_config \<Rightarrow> 'k ldap_client \<Rightarrow> string \<rightharpoonup> 'k identity_provider" where
  "mail_providers kdf now rnd cfg cl =
     [''local'' \<mapsto> local_provider kdf now rnd, ''ldap'' \<mapsto> ldap_provider cfg cl]"

lemma mail_providers_Some:
  "mail_providers kdf now rnd cfg cl n = Some p \<longleftrightarrow>
     n = ''local'' \<and> p = local_provider kdf now rnd \<or> n = ''ldap'' \<and> p = ldap_provider cfg cl"
  by (auto simp: mail_providers_def split: if_splits)

lemma id_authenticate_Inr:
  assumes "id_authenticate svc u pw db k = (Inr ident, db', k')"
  obtains name db1 p ident0 db2 k1 where "canon u \<noteq> ''''" and "pw \<noteq> ''''"
    and "assigned_provider svc (canon u) db = (Inr name, db1)"
    and "get_provider svc name = Inr p"
    and "ip_authenticate p (canon u) pw db1 k = (Inr ident0, db2, k1)"
    and "(if is_mailboxes svc \<and> ip_name p \<noteq> ''local''
          then (let (r, db3) = mail_access ident0 db2 in (r, db3, k1))
          else (Inr ident0, db2, k1)) = (Inr ident, db', k')"
proof -
  have u: "canon u \<noteq> ''''" "pw \<noteq> ''''"
    using assms by (auto simp: id_authenticate_def canonicalize_username_def canon_def' Let_def split: if_splits)
  obtain r1 db1 where a: "assigned_provider svc (canon u) db = (r1, db1)" by fastforce
  with assms u obtain name where n: "r1 = Inr name"
    by (cases r1) (simp_all add: id_authenticate_def canonicalize_username_def canon_def')
  with assms u a obtain p where p: "get_provider svc name = Inr p"
    by (cases "get_provider svc name") (simp_all add: id_authenticate_def canonicalize_username_def canon_def')
  obtain r2 db2 k1 where b: "ip_authenticate p (canon u) pw db1 k = (r2, db2, k1)" by (metis prod_cases3)
  with assms u a n p obtain ident0 where i: "r2 = Inr ident0"
    by (cases r2) (simp_all add: id_authenticate_def canonicalize_username_def canon_def')
  show thesis
    by (rule that [OF u a [unfolded n] p b [unfolded i]])
      (use assms u a n p b i in \<open>simp add: id_authenticate_def canonicalize_username_def canon_def'\<close>)
qed

lemma assigned_provider_frame:
  "assigned_provider svc e db = (r, db1) \<Longrightarrow> same_accounts db db1"
  by (auto simp: assigned_provider_def sql_simps split: if_splits option.splits)

lemma assigned_provider_row:
  assumes "assigned_provider svc e db = (Inr name, db1)" and "is_mailboxes svc" and "\<not> fails db"
    and "find (\<lambda>m. mb_email m = e) (mailbox_rows db) = Some mb"
  shows "open_mailbox mb \<and> name = (if mb_identity_provider mb \<noteq> '''' then mb_identity_provider mb else is_default svc)"
  using assms
  by (auto simp: assigned_provider_def sql_simps open_mailbox_def split: if_splits)

lemma assigned_provider_name:
  assumes "assigned_provider svc e db = (Inr name, db1)" and "is_mailboxes svc"
  shows "name = (case (if fails db then None else find (\<lambda>m. mb_email m = e) (mailbox_rows db)) of
      Some mb \<Rightarrow> if mb_identity_provider mb \<noteq> '''' then mb_identity_provider mb else is_default svc
    | None \<Rightarrow> is_default svc)"
  using assms by (auto simp: assigned_provider_def sql_simps split: if_splits option.splits)

lemma ldap_authenticate_Inr:
  assumes "ldap_authenticate cfg cl u pw k = (Inr ident, k')"
  obtains f e k1 where "build_user_filter (lc_user_filter cfg) (canon u) = Inr f"
    and "cl_search cl (lc_user_base_dn cfg) f k = (Inr [e], k1)"
    and "is_subordinate_dn (en_dn e) (lc_user_base_dn cfg)"
    and "cl_authenticate_user cl (en_dn e) pw k1 = (Inr (), k')"
    and "ident = entry_to_identity (new_mapper (lc_role_mapping cfg)) e"
    and "pw \<noteq> ''''" and "id_status ident = status_active"
proof -
  have st: "id_status (entry_to_identity m e) \<in> {status_active, status_disabled}" for m e
    by (simp add: entry_to_identity_def Let_def entry_status_def split: prod.split)
  from assms obtain f where f: "build_user_filter (lc_user_filter cfg) (canon u) = Inr f" "pw \<noteq> ''''" "canon u \<noteq> ''''"
    by (auto simp: ldap_authenticate_def canonicalize_username_def canon_def' Let_def split: if_splits sum.splits)
  obtain r1 k1 where s: "cl_search cl (lc_user_base_dn cfg) f k = (r1, k1)" by fastforce
  from assms f s obtain e where e: "r1 = Inr [e]"
    by (auto simp: ldap_authenticate_def canonicalize_username_def canon_def' Let_def split: sum.splits list.splits)
  obtain r2 k2 where b: "cl_authenticate_user cl (en_dn e) pw k1 = (r2, k2)" by fastforce
  let ?i = "entry_to_identity (new_mapper (lc_role_mapping cfg)) e"
  from assms f s e b have "is_subordinate_dn (en_dn e) (lc_user_base_dn cfg)" "r2 = Inr ()" "k2 = k'"
    "ident = ?i" "id_status ?i \<noteq> status_disabled"
    by (auto simp: ldap_authenticate_def canonicalize_username_def canon_def' Let_def split: sum.splits if_splits)
  with that [OF f(1) s [unfolded e] _ b [unfolded \<open>r2 = Inr ()\<close> \<open>k2 = k'\<close>] _ f(2)] st show thesis
    by blast
qed

lemma provider_of_local: "id_provider (local_identity s mb) = ''local''"
  by (simp add: local_identity_def)

lemma provider_of_entry: "id_provider (entry_to_identity m e) = ''ldap''"
  by (simp add: entry_to_identity_def Let_def split: prod.split)

text \<open>What a provider of the program promises of an identity it accepts.\<close>

lemma local_provider_Inr:
  assumes "ip_authenticate (local_provider kdf now rnd) u pw db k = (Inr ident, db', k')"
  obtains mb where "find (\<lambda>m. mb_email m = canon u) (mailbox_rows db) = Some mb"
    and "verify_password kdf pw (mb_password_hash mb) = Inr True"
    and "ident = local_identity status_active mb"
proof -
  from assms have "local_authenticate kdf u pw db = (Inr ident, db')"
    by (simp add: local_provider_def Let_def split: prod.splits)
  then show thesis by (rule local_authenticate_Inr) (rule that)
qed

lemma ldap_provider_Inr:
  assumes "ip_authenticate (ldap_provider cfg cl) u pw db k = (Inr ident, db', k')"
  obtains f e k1 where "build_user_filter (lc_user_filter cfg) (canon u) = Inr f"
    and "cl_search cl (lc_user_base_dn cfg) f k = (Inr [e], k1)"
    and "cl_authenticate_user cl (en_dn e) pw k1 = (Inr (), k')"
    and "ident = entry_to_identity (new_mapper (lc_role_mapping cfg)) e"
proof -
  from assms have "ldap_authenticate cfg cl u pw k = (Inr ident, k')"
    by (simp add: ldap_provider_def Let_def split: prod.splits)
  then show thesis by (rule ldap_authenticate_Inr) (rule that)
qed

section \<open>Properties of logins\<close>

text \<open>
  C29. A login is sound. Whoever is logged in gave a non-empty password; the mailbox of the
  address of the identity exists, is neither suspended nor disabled and is provisioned. A
  local identity is that of the mailbox with the given name, whose stored hash accepts the
  password; a directory identity belongs to the only entry that the search for the name
  found, and the directory accepted a bind with its name and the password. The provider that
  answers is the one that the mailbox with the given name is assigned to; it is the default
  provider when there is no such mailbox, when the mailbox is assigned to none, and also when the
  statement that looks it up fails, so that then another provider than the assigned one may
  answer. No account changes.
\<close>

theorem login_sound:
  assumes "is_mailboxes svc" and "is_providers svc = mail_providers kdf now rnd cfg cl"
    and "id_authenticate svc u pw db k = (Inr ident, db', k')"
  shows "pw \<noteq> '''' \<and> mailboxes db' = mailboxes db \<and> domains db' = domains db \<and>
    (\<exists>m\<in>set (mailboxes db). mb_email m = id_email ident \<and> mb_status m \<noteq> ''suspended'' \<and>
       mb_status m \<noteq> ''disabled'' \<and> mb_provisioning_status m \<in> {''ready'', ''active''}) \<and>
    ((id_provider ident = ''local'' \<and>
      (\<exists>mb. find (\<lambda>m. mb_email m = canon u) (mailbox_rows db) = Some mb \<and> id_email ident = canon u \<and>
         verify_password kdf pw (mb_password_hash mb) = Inr True)) \<or>
     (id_provider ident = ''ldap'' \<and>
      (\<exists>f e k1. build_user_filter (lc_user_filter cfg) (canon u) = Inr f \<and>
         cl_search cl (lc_user_base_dn cfg) f k = (Inr [e], k1) \<and>
         cl_authenticate_user cl (en_dn e) pw k1 = (Inr (), k')))) \<and>
    id_provider ident =
      (case (if fails db then None else find (\<lambda>m. mb_email m = canon u) (mailbox_rows db)) of
         Some mb \<Rightarrow> if mb_identity_provider mb \<noteq> '''' then mb_identity_provider mb else is_default svc
       | None \<Rightarrow> is_default svc)"
proof -
  from assms(3) obtain name db1 p ident0 db2 k1 where
    u: "pw \<noteq> ''''" and a: "assigned_provider svc (canon u) db = (Inr name, db1)"
    and p: "get_provider svc name = Inr p"
    and b: "ip_authenticate p (canon u) pw db1 k = (Inr ident0, db2, k1)"
    and g: "(if is_mailboxes svc \<and> ip_name p \<noteq> ''local''
          then (let (r, db3) = mail_access ident0 db2 in (r, db3, k1))
          else (Inr ident0, db2, k1)) = (Inr ident, db', k')"
    by (rule id_authenticate_Inr)
  let ?n = "if name = '''' then is_default svc else name"
  have p': "mail_providers kdf now rnd cfg cl ?n = Some p"
    using p unfolding get_provider_def assms(2) by (auto simp: Let_def split: option.splits)
  then have "provider_laws p"
    using local.provider_laws_axioms ldap.provider_laws_axioms by (auto simp: mail_providers_Some)
  from provider_laws.guarded_open [OF this assms(1) b g]
  have i: "ident = ident0" and o: "opens (id_email ident0) db1" and s1: "same_accounts db1 db'" by auto
  have s0: "same_accounts db db1" by (rule assigned_provider_frame [OF a])
  have k: "k' = k1" using g by (auto split: if_splits prod.splits)
  have rows: "mailbox_rows db1 = mailbox_rows db" by (rule same_rows [OF s0])
  have op: "\<exists>m\<in>set (mailboxes db). mb_email m = id_email ident \<and> mb_status m \<noteq> ''suspended'' \<and>
       mb_status m \<noteq> ''disabled'' \<and> mb_provisioning_status m \<in> {''ready'', ''active''}"
    using o opens_same [OF s0] i by (auto simp: opens_def open_mailbox_def not_provisioned_def prov_ready_def)
  have prov: "id_provider ident = ?n \<and>
    ((id_provider ident = ''local'' \<and>
      (\<exists>mb. find (\<lambda>m. mb_email m = canon u) (mailbox_rows db) = Some mb \<and> id_email ident = canon u \<and>
         verify_password kdf pw (mb_password_hash mb) = Inr True)) \<or>
     (id_provider ident = ''ldap'' \<and>
      (\<exists>f e k1. build_user_filter (lc_user_filter cfg) (canon u) = Inr f \<and>
         cl_search cl (lc_user_base_dn cfg) f k = (Inr [e], k1) \<and>
         cl_authenticate_user cl (en_dn e) pw k1 = (Inr (), k'))))"
    using p' unfolding mail_providers_Some
  proof (elim disjE conjE)
    assume n: "?n = ''local''" and pl: "p = local_provider kdf now rnd"
    from b [unfolded pl] obtain mb where "find (\<lambda>m. mb_email m = canon (canon u)) (mailbox_rows db1) = Some mb"
      "verify_password kdf pw (mb_password_hash mb) = Inr True" "ident0 = local_identity status_active mb"
      by (rule local_provider_Inr)
    with n i rows find_SomeD [of _ "mailbox_rows db1" mb] show ?thesis
      by (auto simp: local_identity_def)
  next
    assume n: "?n = ''ldap''" and pl: "p = ldap_provider cfg cl"
    from b [unfolded pl] obtain f e k2 where "build_user_filter (lc_user_filter cfg) (canon (canon u)) = Inr f"
      "cl_search cl (lc_user_base_dn cfg) f k = (Inr [e], k2)"
      "cl_authenticate_user cl (en_dn e) pw k2 = (Inr (), k1)"
      "ident0 = entry_to_identity (new_mapper (lc_role_mapping cfg)) e"
      by (rule ldap_provider_Inr)
    with n i k provider_of_entry show ?thesis by auto
  qed
  have "id_provider ident =
      (case (if fails db then None else find (\<lambda>m. mb_email m = canon u) (mailbox_rows db)) of
         Some mb \<Rightarrow> if mb_identity_provider mb \<noteq> '''' then mb_identity_provider mb else is_default svc
       | None \<Rightarrow> is_default svc)"
    using assigned_provider_name [OF a assms(1)] prov by (auto split: option.splits if_splits)
  with op prov u same_accounts_trans [OF s0 s1] show ?thesis
    unfolding same_accounts_def by blast
qed

text \<open>
  The guard checks that the mailbox of the directory address is open, not that it belongs to
  the directory: an entry whose \<open>mail\<close> is the address of a local account logs in as it. The
  synchronisation refuses exactly this takeover.
\<close>

lemma directory_login_takes_local_mailbox:
  assumes "faults db = []" and "is_mailboxes svc" and "is_default svc = ''ldap''"
    and "is_providers svc ''ldap'' = Some (ldap_provider cfg cl)"
    and "canon u \<noteq> ''''" and "pw \<noteq> ''''"
    and "find (\<lambda>m. mb_email m = canon u) (mailbox_rows db) = None"
    and "ldap_authenticate cfg cl (canon u) pw k = (Inr ident, k')"
    and "find (\<lambda>m. mb_email m = id_email ident) (mailbox_rows db) = Some mb"
    and "mb_status mb = ''active''" and "mb_provisioning_status mb = prov_ready"
    and "mb_identity_provider mb = ''local''"
  shows "id_authenticate svc u pw db k = (Inr ident, db, k')"
  using assms
  by (simp add: id_authenticate_def canonicalize_username_def canon_def' assigned_provider_def
      sql_simps get_provider_def ldap_provider_def mail_access_def not_provisioned_def)

text \<open>
  When the statement that looks up the mailbox fails, the default provider answers for a mailbox
  that is assigned to another one; the next statement, which looks at the mailbox again, only
  asks whether it is open.
\<close>

lemma lookup_failure_takes_default:
  assumes "fails db" and "\<not> fails (tick db)" and "is_mailboxes svc" and "is_default svc = ''ldap''"
    and "is_providers svc ''ldap'' = Some (ldap_provider cfg cl)"
    and "canon u \<noteq> ''''" and "pw \<noteq> ''''"
    and "find (\<lambda>m. mb_email m = canon u) (mailbox_rows db) = Some mb"
    and "ldap_authenticate cfg cl (canon u) pw k = (Inr ident, k')" and "id_email ident = canon u"
    and "mb_status mb = ''active''" and "mb_provisioning_status mb = prov_ready"
    and "mb_identity_provider mb = ''local''"
  shows "id_authenticate svc u pw db k = (Inr ident, tick (tick db), k')"
  using assms
  by (simp add: id_authenticate_def canonicalize_username_def canon_def' assigned_provider_def
      sql_simps get_provider_def ldap_provider_def mail_access_def not_provisioned_def)

text \<open>The role of a local identity depends on its local part alone, in every domain.\<close>

lemma admin_of_any_domain: "local_roles (''admin@'' @ d) = [''admin'']"
  by (simp add: local_roles_def has_prefix_def to_lower_def lower_char_def is_upper_def byte_def)

text \<open>A directory tree whose name merely ends in the base passes for a part of it.\<close>

lemma subordinate_without_boundary:
  "is_subordinate_dn ''uid=eve,ou=unpeople,dc=example'' ''people,dc=example''"
  "is_subordinate_dn ''uid=eve,dc=notexample,dc=com'' ''example,dc=com''"
  by code_simp+

section \<open>Search filters\<close>

definition hex_pair :: "char \<Rightarrow> char \<Rightarrow> char option" where
  "hex_pair c d =
     (case (hex_val c, hex_val d) of (Some h, Some l) \<Rightarrow> Some (char_of (16 * h + l)) | _ \<Rightarrow> None)"

text \<open>How a directory reads an assertion value (RFC 4515).\<close>

fun unescape_filter :: "string \<Rightarrow> string option" where
  "unescape_filter [] = Some []"
| "unescape_filter (c # s) =
     (if c = CHR 0x5C then
        (case s of h # l # t \<Rightarrow>
           (case (hex_pair h l, unescape_filter t) of
              (Some b, Some u) \<Rightarrow> Some (b # u) | _ \<Rightarrow> None)
         | _ \<Rightarrow> None)
      else if c \<in> {CHR ''('', CHR '')'', CHR ''*'', CHR 0x00} then None
      else map_option (Cons c) (unescape_filter s))"

declare escape_filter_char.simps [simp del]

lemma escape_special:
  "escape_filter_char (CHR 0x5C) = [CHR 0x5C, CHR ''5'', CHR ''c'']"
  "escape_filter_char (CHR ''*'') = [CHR 0x5C, CHR ''2'', CHR ''a'']"
  "escape_filter_char (CHR ''('') = [CHR 0x5C, CHR ''2'', CHR ''8'']"
  "escape_filter_char (CHR '')'') = [CHR 0x5C, CHR ''2'', CHR ''9'']"
  "escape_filter_char (CHR 0x00) = [CHR 0x5C, CHR ''0'', CHR ''0'']"
  by (simp_all add: escape_filter_char.simps)

lemma escape_other: "c \<notin> {CHR 0x5C, CHR ''*'', CHR ''('', CHR '')'', CHR 0x00} \<Longrightarrow> escape_filter_char c = [c]"
  by (simp add: escape_filter_char.simps)

lemma hex_pairs:
  "hex_pair (CHR ''5'') (CHR ''c'') = Some (CHR 0x5C)" "hex_pair (CHR ''2'') (CHR ''a'') = Some (CHR ''*'')"
  "hex_pair (CHR ''2'') (CHR ''8'') = Some (CHR ''('')" "hex_pair (CHR ''2'') (CHR ''9'') = Some (CHR '')'')"
  "hex_pair (CHR ''0'') (CHR ''0'') = Some (CHR 0x00)"
  by code_simp+

lemma unescape_escape_char:
  "unescape_filter (escape_filter_char c @ s) = map_option (Cons c) (unescape_filter s)"
proof (cases "c \<in> {CHR 0x5C, CHR ''*'', CHR ''('', CHR '')'', CHR 0x00}")
  case True
  have "map_option (Cons b) x = (case x of None \<Rightarrow> None | Some u \<Rightarrow> Some (b # u))" for b and x :: "string option"
    by (cases x) simp_all
  with True show ?thesis
    by (elim insertE emptyE) (simp_all add: escape_special hex_pairs)
next
  case False
  then show ?thesis by (simp add: escape_other)
qed

lemma unescape_escape: "unescape_filter (escape_filter s) = Some s"
  by (induction s) (simp_all add: escape_filter_def unescape_escape_char)

definition filter_special :: "char \<Rightarrow> bool" where
  "filter_special c \<longleftrightarrow> c \<in> {CHR ''('', CHR '')'', CHR ''*'', CHR 0x00}"

lemma escape_no_special: "filter_special c \<Longrightarrow> c \<notin> set (escape_filter s)"
proof -
  assume c: "filter_special c"
  have "c \<notin> set (escape_filter_char d)" for d
  proof (cases "d \<in> {CHR 0x5C, CHR ''*'', CHR ''('', CHR '')'', CHR 0x00}")
    case True
    then show ?thesis using c by (elim insertE emptyE) (auto simp: escape_special filter_special_def)
  next
    case False
    then show ?thesis using c by (auto simp: escape_other filter_special_def)
  qed
  then show ?thesis by (induction s) (simp_all add: escape_filter_def)
qed

lemma count_char_append [simp]: "count_char (s @ t) c = count_char s c + count_char t c"
  by (induction s) auto

lemma count_char_0: "c \<notin> set s \<Longrightarrow> count_char s c = 0"
  by (induction s) auto

lemma count_replace_all:
  "c \<notin> set old \<Longrightarrow> c \<notin> set new \<Longrightarrow> count_char (replace_all s old new) c = count_char s c"
proof (induction s old new rule: replace_all.induct)
  case (1 s old new)
  show ?case
  proof (cases s)
    case (Cons d t)
    show ?thesis
    proof (cases "old \<noteq> [] \<and> has_prefix s old")
      case True
      have "count_char s c = count_char (take (length old) s) c + count_char (drop (length old) s) c"
        by (metis append_take_drop_id count_char_append)
      also have "take (length old) s = old" using True by (simp add: has_prefix_def)
      finally show ?thesis
        using 1 Cons True by (subst replace_all.simps) (simp add: count_char_0)
    next
      case False
      with 1 Cons show ?thesis by (subst replace_all.simps) auto
    qed
  qed (simp add: replace_all.simps)
qed

text \<open>
  C30. A user name cannot change a search filter: the directory reads the escaped name as
  exactly that name, the escaped name holds no parenthesis, wildcard or NUL, so the filter
  has the parentheses of its template; and whether a template is accepted does not depend on
  the name.
\<close>

theorem user_filter_injective:
  "unescape_filter (escape_filter u) = Some u \<and>
   CHR ''('' \<notin> set (escape_filter u) \<and> CHR '')'' \<notin> set (escape_filter u) \<and>
   CHR ''*'' \<notin> set (escape_filter u) \<and> CHR 0x00 \<notin> set (escape_filter u) \<and>
   (\<exists>f. build_user_filter t u = Inr f) = (\<exists>f. build_user_filter t v = Inr f) \<and>
   (case build_user_filter t u of
      Inl err \<Rightarrow> True
    | Inr f \<Rightarrow> count_char f CHR ''('' = count_char (if t = '''' then default_user_filter else t) CHR ''('' \<and>
        count_char f CHR '')'' = count_char (if t = '''' then default_user_filter else t) CHR '')'')"
proof -
  note no = escape_no_special [of "CHR ''(''" _, unfolded filter_special_def, simplified]
    escape_no_special [of "CHR '')''" _, unfolded filter_special_def, simplified]
    escape_no_special [of "CHR ''*''" _, unfolded filter_special_def, simplified]
    escape_no_special [of "CHR 0x00" _, unfolded filter_special_def, simplified]
  have cnt: "count_char (replace_all s placeholder_user (escape_filter w)) CHR ''('' = count_char s CHR ''(''"
    "count_char (replace_all s placeholder_user (escape_filter w)) CHR '')'' = count_char s CHR '')''" for s w
    by (rule count_replace_all; simp add: no placeholder_user_def)+
  define T where "T = (if t = '''' then default_user_filter else t)"
  have build: "build_user_filter t w =
     (if \<not> contains T placeholder_user then Inl (Msg ''invalid user filter template: missing {username} placeholder'')
      else if count_char T CHR ''('' \<noteq> count_char T CHR '')'' \<or> count_char T CHR ''('' = 0
      then Inl err_ldap_injection
      else Inr (replace_all T placeholder_user (escape_filter w)))" for w
    unfolding build_user_filter_def Let_def cnt T_def ..
  show ?thesis
    unfolding build T_def [symmetric] by (simp add: unescape_escape no cnt)
qed

text \<open>An example: a directory with one entry, and a mailbox that it manages.\<close>

definition example_entry :: ldap_entry where
  "example_entry =
     \<lparr>en_dn = ''uid=ann,ou=people,dc=example'', en_attributes = [],
      en_values = (\<lambda>a. if a = ''uid'' then [''ann''] else if a = ''mail'' then [''Ann@example.org''] else [])\<rparr>"

definition example_client :: "unit ldap_client" where
  "example_client =
     \<lparr>cl_search = (\<lambda>base f k. (Inr [example_entry], k)),
      cl_authenticate_user = (\<lambda>dn pw k. (if pw = ''secret'' then Inr () else Inl Fault, k)),
      cl_password_modify = (\<lambda>dn old new k. (Inr (), k))\<rparr>"

definition example_ldap :: ldap_config where
  "example_ldap =
     \<lparr>lc_user_base_dn = ''ou=people,dc=example'', lc_user_filter = '''', lc_group_base_dn = '''',
      lc_group_filter = '''', lc_role_mapping = None\<rparr>"

definition example_identities :: "unit identity_service" where
  "example_identities =
     new_identity_service ''ldap'' (mail_providers example_kdf 0 (Inl Fault) example_ldap example_client)
       True True True"

definition directory_mailbox :: mailbox where
  "directory_mailbox =
     \<lparr>mb_id = 5, mb_domain_id = 1, mb_email = ''ann@example.org'', mb_password_hash = '''',
      mb_quota_bytes = 1000, mb_used_bytes = 0, mb_status = ''active'',
      mb_provisioning_status = ''ready'', mb_identity_provider = ''ldap'', mb_created_at = 0,
      mb_updated_at = 0, mb_domain_name = ''''\<rparr>"

definition directory_db :: db where
  "directory_db = example_db\<lparr>mailboxes := [directory_mailbox]\<rparr>"

lemma wf_directory_db: "wf_db directory_db" "faults directory_db = []"
  by (simp_all add: directory_db_def directory_mailbox_def example_db_def example_domain_def
      empty_db_def wf_db_def wf_defs ref_def)

lemma example_ldap_login:
  "\<exists>ident. ldap_authenticate example_ldap example_client ''ann'' ''secret'' () = (Inr ident, ()) \<and>
     id_email ident = ''ann@example.org''"
proof -
  let ?i = "entry_to_identity (new_mapper None) example_entry"
  have u: "canonicalize_username ''ann'' = ''ann''" by code_simp
  have f: "build_user_filter '''' ''ann'' = Inr ''(|(mail=ann)(uid=ann))''" by code_simp
  have s: "is_subordinate_dn ''uid=ann,ou=people,dc=example'' ''ou=people,dc=example''" by code_simp
  have i: "id_email ?i = ''ann@example.org''" "id_username ?i = ''ann''" "id_status ?i = ''active''"
    by code_simp+
  show ?thesis
    by (simp add: ldap_authenticate_def u f s i example_client_def example_ldap_def id_consts
        example_entry_def flip: example_entry_def) (simp add: i [unfolded example_entry_def] example_entry_def s)
qed

lemma directory_rows: "mailbox_rows directory_db = [directory_mailbox\<lparr>mb_domain_name := ''example.org''\<rparr>]"
  by (simp add: mailbox_rows_def List.map_filter_def join_domain_def directory_db_def
      directory_mailbox_def example_db_def example_domain_def empty_db_def)

lemma example_login:
  "\<exists>ident. id_authenticate example_identities '' Ann'' ''secret'' directory_db () = (Inr ident, directory_db, ()) \<and>
     id_email ident = ''ann@example.org''"
proof -
  obtain ident where l: "ldap_authenticate example_ldap example_client ''ann'' ''secret'' () = (Inr ident, ())"
    "id_email ident = ''ann@example.org''"
    using example_ldap_login by blast
  have c: "canon '' Ann'' = ''ann''" by code_simp
  note rows = directory_rows
  have "id_authenticate example_identities '' Ann'' ''secret'' directory_db () = (Inr ident, directory_db, ())"
    using l wf_directory_db(2)
    by (simp add: id_authenticate_def canonicalize_username_def canon_def' c assigned_provider_def
        example_identities_def new_identity_service_def sql_simps rows directory_mailbox_def
        get_provider_def mail_providers_def ldap_provider_def mail_access_def not_provisioned_def
        prov_ready_def)
  with l(2) show ?thesis by blast
qed

lemma example_identities_sels:
  "is_mailboxes example_identities"
  "is_providers example_identities = mail_providers example_kdf 0 (Inl Fault) example_ldap example_client"
  by (simp_all add: example_identities_def new_identity_service_def)

theorem login_sound_witness:
  "\<exists>ident db' k'. id_authenticate example_identities '' Ann'' ''secret'' directory_db () = (Inr ident, db', k') \<and>
     (\<exists>m\<in>set (mailboxes directory_db). mb_email m = id_email ident \<and> mb_status m \<noteq> ''suspended'') \<and>
     id_provider ident = ''ldap''"
proof -
  obtain ident where l: "id_authenticate example_identities '' Ann'' ''secret'' directory_db () = (Inr ident, directory_db, ())"
    using example_login by blast
  from login_sound [OF example_identities_sels l]
  have "\<exists>m\<in>set (mailboxes directory_db). mb_email m = id_email ident \<and> mb_status m \<noteq> ''suspended''"
    by (elim conjE bexE) (rule bexI, rule conjI)
  moreover have "id_provider ident = ''ldap''"
  proof -
    have "is_default example_identities = ''ldap''" by (simp add: example_identities_def new_identity_service_def)
    moreover have "mb_identity_provider mb = ''ldap''" if "mb \<in> set (mailbox_rows directory_db)" for mb
      using that by (simp add: directory_rows directory_mailbox_def)
    ultimately show ?thesis
      using login_sound [OF example_identities_sels l] find_SomeD [of _ "mailbox_rows directory_db"]
      by (auto split: option.splits if_splits)
  qed
  ultimately show ?thesis using l by (intro exI conjI)
qed

end
