(* ===== verification/Identity_Sync.thy ===== *)
theory Identity_Sync
  imports Identity_Props
begin

text \<open>
  What a synchronisation with the directory may touch. Every step changes rows of the address
  it handles only, and none of a local account; so a run leaves local accounts and the
  mailboxes the directory does not list exactly as they are, a dry run changes nothing, and
  the report accounts for every identity.
\<close>

section \<open>Rows of one address\<close>

definition only_email :: "string \<Rightarrow> db \<Rightarrow> db \<Rightarrow> bool" where
  "only_email e db db' \<longleftrightarrow> (\<forall>m\<in>set (mailboxes db). mb_email m \<noteq> e \<longrightarrow> m \<in> set (mailboxes db'))"

lemma only_email_refl [simp]: "only_email e db db"
  by (simp add: only_email_def)

lemma only_email_trans: "only_email e a b \<Longrightarrow> only_email e b c \<Longrightarrow> only_email e a c"
  by (simp add: only_email_def)

lemma only_email_same: "mailboxes db' = mailboxes db \<Longrightarrow> only_email e db db'"
  by (simp add: only_email_def)

lemma only_email_left: "mailboxes db = mailboxes db0 \<Longrightarrow> only_email e db db' = only_email e db0 db'"
  by (simp add: only_email_def)

lemma mailboxes_ticks [simp]: "mailboxes ((tick ^^ n) db) = mailboxes db"
  by (induction n) simp_all

text \<open>The rows with an identifier all have the address.\<close>

definition id_of_email :: "string \<Rightarrow> uuid \<Rightarrow> db \<Rightarrow> bool" where
  "id_of_email e i db \<longleftrightarrow> (\<forall>m\<in>set (mailboxes db). mb_id m = i \<longrightarrow> mb_email m = e)"

lemma only_email_update:
  assumes "id_of_email e i db"
  shows "only_email e db (snd (mailbox_update msg f now i db))"
  using assms by (force simp: only_email_def id_of_email_def mailbox_update_db tbl_simps)

lemma id_of_email_update:
  assumes "id_of_email e i db" and "keeps_keys f"
  shows "id_of_email e i (snd (mailbox_update msg f now j db))"
  using assms by (auto simp: id_of_email_def keeps_keys_def mailbox_update_db tbl_simps)

lemma id_of_email_tick [simp]: "id_of_email e i (tick db) = id_of_email e i db"
  by (simp add: id_of_email_def)

lemma id_of_row:
  assumes "wf_db db" and "find (\<lambda>m. mb_email m = e) (mailbox_rows db) = Some mb"
  shows "id_of_email e (mb_id mb) db"
proof -
  obtain m0 d where m0: "m0 \<in> set (mailboxes db)" "mb = m0\<lparr>mb_domain_name := dom_name (d :: domain)\<rparr>"
    "mb_email mb = e"
    by (rule find_mailbox_rows [OF assms(2)])
  have "distinct (map mb_id (mailboxes db))" using assms(1) by (simp add: wf_db_def wf_mailboxes_def)
  from distinct_key_eq [OF this _ m0(1)] m0(2,3) show ?thesis by (force simp: id_of_email_def)
qed

text \<open>A mailbox that is created has an address nobody had.\<close>

lemma mailbox_create_only:
  assumes "wf_db db" and "mailbox_create env prov newid now rnd em pw quota db k = (r, db', k')"
  shows "only_email (canon em) db db' \<and>
    ((\<exists>m\<in>set (mailboxes db). mb_email m = canon em) \<longrightarrow> mailboxes db' = mailboxes db \<and> (\<exists>err. r = Inl err)) \<and>
    (\<forall>mb. r = Inr mb \<longrightarrow> id_of_email (canon em) (mb_id mb) db')"
  using assms(2)
proof (cases rule: mailbox_create_cases)
  case (refused e n)
  then show ?thesis by (simp add: only_email_same)
next
  case (created dm h m db3)
  note row = mailbox_repo_create_Inr [OF created(6)]
  have none: "\<forall>m\<in>set (mailboxes db). mb_email m \<noteq> canon em"
    using created(5) mailbox_rows_empty_iff [OF assms(1)] by blast
  have m: "mb_email m = canon em" by (simp add: row(1) mailbox_defaults_def)
  have "wf_db db3"
    using wf_mailbox_repo_create [of "tick (tick db)"] created(6) assms(1) by (metis snd_conv wf_db_tick)
  then have dist: "distinct (map mb_id (mailboxes db3))" by (simp add: wf_db_def wf_mailboxes_def)
  then have ide: "id_of_email (canon em) (mb_id m) db3"
    using m by (auto simp: row(2) id_of_email_def) (metis imageI)
  have only3: "only_email (canon em) db db3" by (simp add: only_email_def row(2))
  have two: "only_email (canon em) db3 db4 \<and> id_of_email (canon em) (mb_id m) db4"
    if "db4 = snd (update_provisioning_status now (mb_id m) st (snd (update_provisioning_status now (mb_id m) st' db3)))"
    for db4 st st'
  proof -
    let ?db = "snd (update_provisioning_status now (mb_id m) st' db3)"
    have "only_email (canon em) db3 ?db" "id_of_email (canon em) (mb_id m) ?db"
      unfolding update_provisioning_status_def
      using ide by (simp_all add: only_email_update id_of_email_update)
    then show ?thesis
      unfolding that update_provisioning_status_def [of _ _ st]
      by (simp add: only_email_trans [OF _ only_email_update] id_of_email_update)
  qed
  have res: "only_email (canon em) db3 db' \<and> id_of_email (canon em) (mb_id m) db' \<and>
      (\<forall>mb. r = Inr mb \<longrightarrow> mb_id mb = mb_id m)"
    using created(7)
  proof (cases rule: create_provision_db)
    case none
    then show ?thesis using ide by simp
  next
    case (failed p err)
    with two [OF failed(3)] show ?thesis by simp
  next
    case (ready p)
    with two [OF ready(3)] show ?thesis by simp
  qed
  have "only_email (canon em) db db'" using only_email_trans [OF only3] res by blast
  with none res show ?thesis by metis
qed

lemma mailbox_provision_only:
  assumes "wf_db db" and "mailbox_provision prov now em db k = (r, db', k')"
  shows "only_email (canon em) db db'"
proof (cases "find (\<lambda>m. mb_email m = canon em) (mailbox_rows db)")
  case None
  with assms(2) show ?thesis
    by (auto simp: mailbox_provision_def canon_def' Let_def sql_simps only_email_same split: if_splits)
next
  case (Some mb)
  note ide = id_of_row [OF assms(1) Some]
  have upd: "only_email (canon em) db (snd (mailbox_update msg g now (mb_id mb)
      (snd (mailbox_update msg' f now (mb_id mb) (tick db)))))" if "keeps_keys f" for f g msg msg'
    by (intro only_email_trans [OF _ only_email_update] only_email_trans [OF _ only_email_update])
      (simp_all add: only_email_same id_of_email_update that ide)
  have same: "only_email (canon em) db (tick db)" by (simp add: only_email_same)
  from assms(2) Some show ?thesis
    using upd same
    by (auto simp: mailbox_provision_def canon_def' Let_def sql_simps update_provisioning_status_def
        split: if_splits option.splits sum.splits prod.splits)
qed

section \<open>The steps\<close>

text \<open>A step on one address: what it may touch, and what it counts.\<close>

definition create_failures :: "sync_report \<Rightarrow> nat" where
  "create_failures r = length (filter (\<lambda>p. case p of Create_Failed e err \<Rightarrow> True | _ \<Rightarrow> False) (sr_errors r))"

definition accounted :: "sync_report \<Rightarrow> nat" where
  "accounted r = sr_created r + sr_updated r + sr_suspended r + sr_skipped r + create_failures r"

definition step_ok :: "string \<Rightarrow> bool \<Rightarrow> sync_report \<Rightarrow> db \<Rightarrow> 'd \<Rightarrow> sync_report \<times> db \<times> 'd \<Rightarrow> bool" where
  "step_ok e dry r db d res \<longleftrightarrow>
     (case res of (r', db', d') \<Rightarrow>
        wf_db db' \<and> only_email e db db' \<and>
        (\<forall>m\<in>set (mailboxes db). mb_identity_provider m = ''local'' \<longrightarrow> m \<in> set (mailboxes db')) \<and>
        (dry \<longrightarrow> mailboxes db' = mailboxes db \<and> d' = d) \<and>
        accounted r' = accounted r + 1 \<and> sr_total r' = sr_total r)"

lemma step_okI_same:
  assumes "wf_db db'" and "mailboxes db' = mailboxes db" and "accounted r' = accounted r + 1"
    and "sr_total r' = sr_total r"
  shows "step_ok e dry r db d (r', db', d)"
  using assms by (simp add: step_ok_def only_email_same)

lemma accounted_skip [simp]: "accounted (skip r) = accounted r + 1" "sr_total (skip r) = sr_total r"
  by (simp_all add: accounted_def skip_def create_failures_def)

lemma accounted_problem [simp]:
  "accounted (problem p r) = accounted r + (case p of Create_Failed e err \<Rightarrow> 1 | _ \<Rightarrow> 0)"
  "sr_total (problem p r) = sr_total r"
  by (simp_all add: accounted_def problem_def create_failures_def split: sync_problem.split)

lemma accounted_counters [simp]:
  "accounted (r\<lparr>sr_created := Suc (sr_created r)\<rparr>) = Suc (accounted r)"
  "accounted (r\<lparr>sr_updated := Suc (sr_updated r)\<rparr>) = Suc (accounted r)"
  "accounted (r\<lparr>sr_suspended := Suc (sr_suspended r)\<rparr>) = Suc (accounted r)"
  by (simp_all add: accounted_def create_failures_def)

lemma sync_create_ok:
  assumes "wf_db db" and "canon e = e" and "\<not> dry"
  shows "step_ok e dry r db d (sync_create env dw quota e r db d)"
proof -
  obtain r1 db1 d1 where c: "mailbox_create (se_mail env) (se_prov env) (dw_id dw) (se_now env) (dw_salt dw) e
      (''LDAP_MANAGED_'' @ uuid_string (dw_password dw)) quota db d = (r1, db1, d1)" by (metis prod_cases3)
  note only = mailbox_create_only [OF assms(1) c, unfolded assms(2)]
  have wf1: "wf_db db1" by (rule wf_mailbox_create [OF assms(1) c])
  show ?thesis
  proof (cases r1)
    case (Inl err)
    have "m \<in> set (mailboxes db1)" if "m \<in> set (mailboxes db)" for m
      using only that by (cases "mb_email m = e") (auto simp: only_email_def)
    with only wf1 assms(3) c Inl show ?thesis
      by (simp add: step_ok_def sync_create_def)
  next
    case (Inr mb)
    with only have fresh: "\<forall>m\<in>set (mailboxes db). mb_email m \<noteq> e" by auto
    let ?db2 = "snd (update_identity_provider (se_now env) (mb_id mb) ''ldap'' db1)"
    obtain pr db3 d2 where p: "mailbox_provision (se_prov env) (se_now env) e ?db2 d1 = (pr, db3, d2)"
      by (metis prod_cases3)
    have wf2: "wf_db ?db2" by (rule wf_mailbox_updates(3) [OF wf1])
    have "only_email e db1 ?db2"
      unfolding update_identity_provider_def using only Inr by (intro only_email_update) simp
    moreover have "only_email e ?db2 db3" using mailbox_provision_only [OF wf2 p] assms(2) by simp
    ultimately have o: "only_email e db db3" using only only_email_trans by blast
    with fresh have "m \<in> set (mailboxes db3)" if "m \<in> set (mailboxes db)" for m
      using that by (auto simp: only_email_def)
    with o wf_mailbox_provision [OF wf2 p] c p Inr assms(3) show ?thesis
      by (simp add: step_ok_def sync_create_def)
  qed
qed

lemma step_ok_tick: "step_ok e dry r (tick db) d res = step_ok e dry r db d res"
  by (simp add: step_ok_def only_email_def split: prod.split)

lemma sync_mailbox_ok:
  assumes "wf_db db" and "canon e = e"
  shows "step_ok e (so_dry_run opts) r db d (sync_mailbox svc opts env dw ident e r db d)"
proof (cases "fails db \<or> find (\<lambda>m. mb_email m = e) (mailbox_rows db) = None")
  case True
  then obtain err where g: "mailbox_get_by_email e db = (Inl err, tick db)"
    by (cases "fails db") (auto simp: sql_simps)
  show ?thesis
  proof (cases "so_auto_create opts \<and> \<not> so_dry_run opts \<and> is_mb_service svc")
    case True
    with g sync_create_ok [of "tick db" e "so_dry_run opts" r d env dw "so_default_quota opts"] assms
    show ?thesis by (simp add: sync_mailbox_def step_ok_tick)
  next
    case False
    with g assms(1) show ?thesis by (auto simp: sync_mailbox_def intro!: step_okI_same)
  qed
next
  case False
  then obtain mb where f: "find (\<lambda>m. mb_email m = e) (mailbox_rows db) = Some mb" by auto
  with False have g: "mailbox_get_by_email e db = (Inr mb, tick db)" by (simp add: sql_simps)
  show ?thesis
  proof (cases "mb_identity_provider mb \<noteq> ''local'' \<and> id_status ident = status_disabled \<and>
      mb_status mb = ''active'' \<and> \<not> so_dry_run opts")
    case False
    with g assms(1) show ?thesis by (auto simp: sync_mailbox_def intro!: step_okI_same)
  next
    case True
    let ?db2 = "snd (update_status (se_now env) (mb_id mb) ''suspended'' (tick db))"
    obtain m0 d0 where m0: "m0 \<in> set (mailboxes db)" "mb = m0\<lparr>mb_domain_name := dom_name (d0 :: domain)\<rparr>"
      by (rule find_mailbox_rows [OF f])
    have "distinct (map mb_id (mailboxes db))" using assms(1) by (simp add: wf_db_def wf_mailboxes_def)
    note uniq = distinct_key_eq [OF this _ m0(1)]
    have "m \<in> set (mailboxes ?db2)" if m: "m \<in> set (mailboxes db)" "mb_identity_provider m = ''local''" for m
    proof -
      have "mb_id m \<noteq> mb_id mb" using uniq [OF m(1)] m(2) m0(2) True by auto
      with m(1) show ?thesis by (force simp: update_status_def mailbox_update_db tbl_simps)
    qed
    moreover have "only_email e db ?db2"
      unfolding update_status_def
      using only_email_update [of e "mb_id mb" "tick db"] id_of_row [OF assms(1) f]
      by (simp add: only_email_left [of "tick db" db])
    moreover have "wf_db ?db2" using assms(1) by (simp add: wf_mailbox_updates)
    ultimately show ?thesis
      using True g by (simp add: sync_mailbox_def step_ok_def)
  qed
qed

lemma sync_one_ok:
  assumes "wf_db db"
  shows "step_ok (canon (id_email i)) (so_dry_run opts) r db d (sync_one svc opts env counts dw i r db d)"
proof -
  let ?e = "canon (id_email i)"
  have dom: "\<exists>x. sync_domain svc dp ?e db = (x, db) \<or> sync_domain svc dp ?e db = (x, tick db)" for dp
    by (auto simp: sync_domain_def sql_simps split: option.splits)
  have skip: "step_ok ?e (so_dry_run opts) r db d (skip r', db', d)"
    if "accounted r' = accounted r" "sr_total r' = sr_total r" "db' = db \<or> db' = tick db" for r' db'
    using that assms by (intro step_okI_same) auto
  have dprob: "accounted (problem p r) = accounted r" if "sync_domain svc dp ?e db = (Some p, db')" for p dp db'
    using that by (auto simp: sync_domain_def sql_simps split: if_splits option.splits)
  show ?thesis
  proof (cases "sync_domain svc (str_split CHR ''@'' ?e ! 1) ?e db")
    case (Pair x db')
    with dom [of "str_split CHR ''@'' ?e ! 1"] have db': "db' = db \<or> db' = tick db" by auto
    have mbox: "step_ok ?e (so_dry_run opts) r db d (sync_mailbox svc opts env dw i ?e r db' d)"
    proof (cases "db' = db")
      case False
      with db' have "db' = tick db" by simp
      moreover have "step_ok ?e (so_dry_run opts) r (tick db) d (sync_mailbox svc opts env dw i ?e r (tick db) d)"
        using sync_mailbox_ok [of "tick db" ?e opts r d svc env dw i] assms by simp
      ultimately show ?thesis unfolding step_ok_tick by simp
    qed (use sync_mailbox_ok [OF assms, of ?e] in simp)
    show ?thesis
    proof (cases x)
      case None
      with skip mbox Pair db' show ?thesis
        by (auto simp: sync_one_def canonicalize_username_def canon_def' Let_def)
    next
      case (Some p)
      with dprob Pair have "accounted (problem p r) = accounted r" by blast
      with skip mbox Pair Some db' show ?thesis
        by (auto simp: sync_one_def canonicalize_username_def canon_def' Let_def)
    qed
  qed
qed

section \<open>The run\<close>

lemma sync_loop_ok:
  assumes "wf_db db" and "sync_loop svc opts env counts dw n is r db d = (r', db', d')"
  shows "wf_db db' \<and>
    (\<forall>m\<in>set (mailboxes db). mb_identity_provider m = ''local'' \<longrightarrow> m \<in> set (mailboxes db')) \<and>
    (\<forall>m\<in>set (mailboxes db). mb_email m \<notin> (\<lambda>i. canon (id_email i)) ` set is \<longrightarrow> m \<in> set (mailboxes db')) \<and>
    (so_dry_run opts \<longrightarrow> mailboxes db' = mailboxes db \<and> d' = d) \<and>
    accounted r' = accounted r + length is \<and> sr_total r' = sr_total r"
  using assms
proof (induction "is" arbitrary: n r db d)
  case (Cons i "is")
  obtain r1 db1 d1 where s: "sync_one svc opts env counts (dw n) i r db d = (r1, db1, d1)"
    by (metis prod_cases3)
  note ok = sync_one_ok [OF Cons.prems(1), of i opts r d svc env counts "dw n", unfolded s step_ok_def prod.case]
  have l: "sync_loop svc opts env counts dw (Suc n) is r1 db1 d1 = (r', db', d')"
    using Cons.prems(2) s by simp
  note IH = Cons.IH [OF conjunct1 [OF ok] l]
  show ?case
  proof (intro conjI ballI impI)
    fix m assume "m \<in> set (mailboxes db)" "mb_identity_provider m = ''local''"
    with ok IH show "m \<in> set (mailboxes db')" by blast
  next
    fix m assume "m \<in> set (mailboxes db)" "mb_email m \<notin> (\<lambda>i. canon (id_email i)) ` set (i # is)"
    with ok IH show "m \<in> set (mailboxes db')" by (simp add: only_email_def)
  qed (use ok IH in auto)
qed simp

text \<open>
  C31. A synchronisation spares what is not its own. Whatever the directory lists and whatever
  fails, every mailbox of a local account and every mailbox whose address the directory does
  not list is unchanged in every column (whatever \<open>OnUserMissing\<close> says); a dry run changes
  no mailbox and no directory of the mail store; the database stays well-formed; and every
  identity is counted as created, updated, suspended or skipped, or is reported as a failed
  creation.
\<close>

theorem sync_spares:
  assumes "wf_db db" and "is_providers svc ''ldap'' = Some (ldap_provider cfg cl)"
    and "id_sync svc opts env dw db k d = (Inr r, db', k', d')"
  shows "wf_db db' \<and>
    (\<forall>m\<in>set (mailboxes db). mb_identity_provider m = ''local'' \<longrightarrow> m \<in> set (mailboxes db')) \<and>
    (\<exists>idents. ldap_list_users cfg cl k = (Inr idents, k') \<and>
       (\<forall>m\<in>set (mailboxes db). mb_email m \<notin> (\<lambda>i. canon (id_email i)) ` set idents \<longrightarrow> m \<in> set (mailboxes db')) \<and>
       accounted r = length idents \<and> sr_total r = length idents) \<and>
    (so_dry_run opts \<longrightarrow> mailboxes db' = mailboxes db \<and> d' = d)"
proof -
  obtain res k1 where l: "ldap_list_users cfg cl k = (res, k1)" by fastforce
  with assms(2,3) obtain idents where i: "res = Inr idents"
    by (cases res) (simp_all add: id_sync_def ldap_provider_def)
  define opts' where "opts' = (if so_default_quota opts \<le> 0 then opts\<lparr>so_default_quota := 1073741824\<rparr> else opts)"
  define r0 where "r0 = \<lparr>sr_total = length idents, sr_created = 0, sr_updated = 0, sr_suspended = 0,
    sr_skipped = 0, sr_on_user_missing = so_on_user_missing opts', sr_errors = []\<rparr>"
  from assms(2,3) l i have loop: "sync_loop svc opts' env (email_count idents) dw 0 idents r0 db d = (r, db', d')"
    and k: "k' = k1"
    by (simp_all add: id_sync_def ldap_provider_def Let_def split: prod.splits flip: opts'_def r0_def)
  have "so_dry_run opts' = so_dry_run opts" by (simp add: opts'_def)
  moreover have "accounted r0 = 0" "sr_total r0 = length idents"
    by (simp_all add: r0_def accounted_def create_failures_def)
  ultimately show ?thesis
    using sync_loop_ok [OF assms(1) loop] l i k by auto
qed

lemma id_sync_runs:
  assumes "is_providers svc ''ldap'' = Some (ldap_provider cfg cl)"
    and "ldap_list_users cfg cl k = (Inr idents, k1)"
  obtains r db' d' where "id_sync svc opts env dw db k d = (Inr r, db', k1, d')"
proof -
  define opts' where "opts' = (if so_default_quota opts \<le> 0 then opts\<lparr>so_default_quota := 1073741824\<rparr> else opts)"
  define r0 where "r0 = \<lparr>sr_total = length idents, sr_created = 0, sr_updated = 0, sr_suspended = 0,
    sr_skipped = 0, sr_on_user_missing = so_on_user_missing opts', sr_errors = []\<rparr>"
  obtain r db' d' where "sync_loop svc opts' env (email_count idents) dw 0 idents r0 db d = (r, db', d')"
    by (metis prod_cases3)
  with assms that show thesis
    by (simp add: id_sync_def ldap_provider_def Let_def flip: opts'_def r0_def)
qed

definition example_sync_env :: "unit sync_env" where
  "example_sync_env = \<lparr>se_mail = example_env, se_prov = None, se_now = 3\<rparr>"

definition example_sync_options :: sync_options where
  "example_sync_options =
     \<lparr>so_domain_name = '''', so_auto_create = True, so_default_quota = 0,
      so_on_user_missing = ''suspend'', so_dry_run = False\<rparr>"

definition local_mailbox :: mailbox where
  "local_mailbox = directory_mailbox\<lparr>mb_id := 6, mb_email := ''bob@example.org'', mb_identity_provider := ''local''\<rparr>"

definition example_sync_db :: db where
  "example_sync_db = example_db\<lparr>mailboxes := [directory_mailbox, local_mailbox]\<rparr>"

theorem sync_spares_witness:
  "\<exists>r db' k' d'. id_sync example_identities example_sync_options example_sync_env
     (\<lambda>n. \<lparr>dw_id = n, dw_password = n, dw_salt = Inr ''s''\<rparr>) example_sync_db () () = (Inr r, db', k', d') \<and>
     local_mailbox \<in> set (mailboxes db')"
proof -
  let ?dw = "\<lambda>n. \<lparr>dw_id = n, dw_password = n, dw_salt = Inr ''s''\<rparr>"
  have p: "is_providers example_identities ''ldap'' = Some (ldap_provider example_ldap example_client)"
    by (simp add: example_identities_def new_identity_service_def mail_providers_def)
  obtain idents where l: "ldap_list_users example_ldap example_client () = (Inr idents, ())"
    by (simp add: ldap_list_users_def example_client_def)
  obtain r db' d' where s: "id_sync example_identities example_sync_options example_sync_env ?dw
      example_sync_db () () = (Inr r, db', (), d')" by (rule id_sync_runs [OF p l])
  have "to_lower ''ann@example.org'' \<noteq> to_lower ''bob@example.org''" by code_simp
  then have wf: "wf_db example_sync_db"
    by (simp add: example_sync_db_def local_mailbox_def directory_mailbox_def example_db_def
        example_domain_def empty_db_def wf_db_def wf_defs ref_def)
  have "local_mailbox \<in> set (mailboxes example_sync_db)" "mb_identity_provider local_mailbox = ''local''"
    by (simp_all add: example_sync_db_def local_mailbox_def)
  with sync_spares [OF wf p s] have "local_mailbox \<in> set (mailboxes db')" by blast
  with s show ?thesis by blast
qed

end
