(* ===== verification/Tokens.thy ===== *)
theory Tokens
  imports Database
begin

text \<open>
  The package \<open>internal/api/token\<close>: opaque bearer tokens of the HTTP API. The repository
  over the table \<open>api_tokens\<close>, the manager that issues pairs, validates access tokens,
  rotates refresh tokens and revokes. The digest \<open>sha256.Sum256\<close> is a function from bytes to
  bytes, the random bytes and the fresh row identifiers are inputs; one call reads the clock
  once. The facts: what an issued pair is good for, that a revoked token stays revoked
  whatever other requests do in between, one-time use of refresh tokens and the reaction to
  a replay, and what the separate statements of a rotation allow.
\<close>

section \<open>Errors and constants\<close>

definition err_token_not_found :: err where
  "err_token_not_found = Sentinel ''token'' ''ErrTokenNotFound''"

definition err_token_expired :: err where
  "err_token_expired = Sentinel ''token'' ''ErrTokenExpired''"

definition err_token_revoked :: err where
  "err_token_revoked = Sentinel ''token'' ''ErrTokenRevoked''"

definition err_invalid_token :: err where
  "err_invalid_token = Sentinel ''token'' ''ErrInvalidToken''"

lemmas [errs] = err_token_not_found_def err_token_expired_def err_token_revoked_def
  err_invalid_token_def

text \<open>15 minutes and 30 days in nanoseconds.\<close>

definition access_token_ttl :: duration where
  "access_token_ttl = 15 * 60 * 1000000000"

definition refresh_token_ttl :: duration where
  "refresh_token_ttl = 30 * 24 * 60 * 60 * 1000000000"

record token_pair =
  tp_access :: string
  tp_refresh :: string
  tp_type :: string
  tp_expires_in :: int

record claims =
  cl_token_id :: uuid
  cl_user_id :: "uuid option"
  cl_email :: string
  cl_role :: string

section \<open>Repository\<close>

definition token_constraints :: "api_token \<Rightarrow> db \<Rightarrow> (bool \<times> err) list" where
  "token_constraints t db =
     [(clashes tok_id t (api_tokens db), PgUnique ''api_tokens_pkey''),
      (clashes tok_hash t (api_tokens db), PgUnique ''api_tokens_token_hash_key'')]"

text \<open>The zero value of \<open>time.Time\<close>, as \<open>CreatedAt.IsZero\<close> tests it.\<close>

definition token_zero_time :: instant where
  "token_zero_time = - 62135596800000000000"

definition token_store :: "uuid \<Rightarrow> instant \<Rightarrow> api_token \<Rightarrow> db \<Rightarrow> unit result \<times> db" where
  "token_store newid now t0 db =
     (let t = t0\<lparr>tok_id := (if tok_id t0 = 0 then newid else tok_id t0),
                 tok_created_at :=
                   (if tok_created_at t0 = token_zero_time then now else tok_created_at t0)\<rparr>
      in case sql_insert (token_constraints t) (\<lambda>db. db\<lparr>api_tokens := api_tokens db @ [t]\<rparr>) db of
           (Inl err, db1) \<Rightarrow> (Inl (Wrap ''insert api_token failed'' err), db1)
         | (Inr n, db1) \<Rightarrow> (Inr (), db1))"

definition token_get_by_hash :: "string \<Rightarrow> db \<Rightarrow> api_token result \<times> db" where
  "token_get_by_hash h = sql_query_row (\<lambda>db. find (\<lambda>t. tok_hash t = h) (api_tokens db))"

definition token_update :: "(api_token \<Rightarrow> bool) \<Rightarrow> (api_token \<Rightarrow> api_token) \<Rightarrow> db \<Rightarrow> unit result \<times> db" where
  "token_update P f db =
     (case sql_exec (\<lambda>db. (Inr (affected P (api_tokens db)),
                          db\<lparr>api_tokens := update_where P f (api_tokens db)\<rparr>)) db of
        (Inl err, db1) \<Rightarrow> (Inl err, db1)
      | (Inr n, db1) \<Rightarrow> (Inr (), db1))"

definition revoke_by_hash :: "instant \<Rightarrow> string \<Rightarrow> db \<Rightarrow> unit result \<times> db" where
  "revoke_by_hash now h =
     token_update (\<lambda>t. tok_hash t = h) (\<lambda>t. t\<lparr>tok_revoked_at := Some now\<rparr>)"

definition revoke_email :: "instant \<Rightarrow> string \<Rightarrow> db \<Rightarrow> unit result \<times> db" where
  "revoke_email now email =
     token_update (\<lambda>t. tok_email t = email \<and> tok_revoked_at t = None)
       (\<lambda>t. t\<lparr>tok_revoked_at := Some now\<rparr>)"

definition update_last_used :: "instant \<Rightarrow> uuid \<Rightarrow> db \<Rightarrow> unit result \<times> db" where
  "update_last_used now i = token_update (\<lambda>t. tok_id t = i) (\<lambda>t. t\<lparr>tok_last_used_at := Some now\<rparr>)"

section \<open>Manager\<close>

type_synonym digest = "string \<Rightarrow> string"

definition hash_token :: "digest \<Rightarrow> string \<Rightarrow> string" where
  "hash_token sha raw = hex_encode (sha raw)"

definition generate_random_token :: "string result \<Rightarrow> string \<Rightarrow> string result" where
  "generate_random_token rnd prefix =
     (case rnd of Inl err \<Rightarrow> Inl err | Inr b \<Rightarrow> Inr (prefix @ hex_encode b))"

text \<open>
  What one call draws: the identifiers of the two rows, the random bytes of the two tokens
  (or the error of \<open>rand.Read\<close>).
\<close>

record token_draws =
  dr_id1 :: uuid
  dr_id2 :: uuid
  dr_rnd1 :: "string result"
  dr_rnd2 :: "string result"

definition token_row ::
    "digest \<Rightarrow> uuid \<Rightarrow> instant \<Rightarrow> uuid option \<Rightarrow> string \<Rightarrow> string \<Rightarrow> string \<Rightarrow> string \<Rightarrow> duration \<Rightarrow> api_token" where
  "token_row sha i now uid email role raw ty ttl =
     \<lparr>tok_id = i, tok_user_id = uid, tok_email = email, tok_role = role,
      tok_hash = hash_token sha raw, tok_type = ty, tok_expires_at = now + ttl,
      tok_revoked_at = None, tok_created_at = now, tok_last_used_at = None\<rparr>"

definition issue_token_pair ::
    "digest \<Rightarrow> token_draws \<Rightarrow> instant \<Rightarrow> uuid option \<Rightarrow> string \<Rightarrow> string \<Rightarrow> db \<Rightarrow> token_pair result \<times> db" where
  "issue_token_pair sha dr now uid email role0 db =
     (let role = (if role0 = '''' then ''user'' else role0)
      in case generate_random_token (dr_rnd1 dr) ''mo_at_'' of
           Inl err \<Rightarrow> (Inl (Wrap ''generate access token'' err), db)
         | Inr raw_at \<Rightarrow>
             (case token_store (dr_id1 dr) now
                     (token_row sha (dr_id1 dr) now uid email role raw_at ''access'' access_token_ttl) db of
                (Inl err, db1) \<Rightarrow> (Inl (Wrap ''store access token'' err), db1)
              | (Inr u, db1) \<Rightarrow>
                  (case generate_random_token (dr_rnd2 dr) ''mo_rt_'' of
                     Inl err \<Rightarrow> (Inl (Wrap ''generate refresh token'' err), db1)
                   | Inr raw_rt \<Rightarrow>
                       (case token_store (dr_id2 dr) now
                               (token_row sha (dr_id2 dr) now uid email role raw_rt ''refresh'' refresh_token_ttl) db1 of
                          (Inl err, db2) \<Rightarrow> (Inl (Wrap ''store refresh token'' err), db2)
                        | (Inr v, db2) \<Rightarrow>
                            (Inr \<lparr>tp_access = raw_at, tp_refresh = raw_rt, tp_type = ''Bearer'',
                                  tp_expires_in = access_token_ttl div 1000000000\<rparr>, db2)))))"

definition validate_access_token :: "digest \<Rightarrow> instant \<Rightarrow> string \<Rightarrow> db \<Rightarrow> claims result \<times> db" where
  "validate_access_token sha now raw db =
     (if raw = '''' then (Inl err_invalid_token, db)
      else (case token_get_by_hash (hash_token sha raw) db of
          (Inl err, db1) \<Rightarrow> (Inl err_token_not_found, db1)
        | (Inr t, db1) \<Rightarrow>
            if tok_type t \<noteq> ''access'' then (Inl err_invalid_token, db1)
            else if tok_revoked_at t \<noteq> None then (Inl err_token_revoked, db1)
            else if now > tok_expires_at t then (Inl err_token_expired, db1)
            else (Inr \<lparr>cl_token_id = tok_id t, cl_user_id = tok_user_id t, cl_email = tok_email t,
                       cl_role = tok_role t\<rparr>,
                  snd (update_last_used now (tok_id t) db1))))"

text \<open>
  \<open>RefreshTokens\<close> in its two parts: what it finds out about the token it is given, and the
  rotation. The parts are separate statements, so another request may run between them.
\<close>

definition refresh_check :: "digest \<Rightarrow> instant \<Rightarrow> string \<Rightarrow> db \<Rightarrow> api_token result \<times> db" where
  "refresh_check sha now raw db =
     (if raw = '''' then (Inl err_invalid_token, db)
      else (case token_get_by_hash (hash_token sha raw) db of
          (Inl err, db1) \<Rightarrow> (Inl err_token_not_found, db1)
        | (Inr t, db1) \<Rightarrow>
            if tok_type t \<noteq> ''refresh'' then (Inl err_invalid_token, db1)
            else if tok_revoked_at t \<noteq> None then
              (Inl err_token_revoked, snd (revoke_email now (tok_email t) db1))
            else if now > tok_expires_at t then (Inl err_token_expired, db1)
            else (Inr t, db1)))"

definition refresh_rotate ::
    "digest \<Rightarrow> token_draws \<Rightarrow> instant \<Rightarrow> string \<Rightarrow> api_token \<Rightarrow> db \<Rightarrow> token_pair result \<times> db" where
  "refresh_rotate sha dr now raw t db =
     (let db1 = snd (revoke_by_hash now (hash_token sha raw) db)
      in issue_token_pair sha dr now (tok_user_id t) (tok_email t) (tok_role t) db1)"

definition refresh_tokens ::
    "digest \<Rightarrow> token_draws \<Rightarrow> instant \<Rightarrow> string \<Rightarrow> db \<Rightarrow> token_pair result \<times> db" where
  "refresh_tokens sha dr now raw db =
     (case refresh_check sha now raw db of
        (Inl err, db1) \<Rightarrow> (Inl err, db1)
      | (Inr t, db1) \<Rightarrow> refresh_rotate sha dr now raw t db1)"

definition revoke_token :: "digest \<Rightarrow> instant \<Rightarrow> string \<Rightarrow> db \<Rightarrow> unit result \<times> db" where
  "revoke_token sha now raw db =
     (if raw = '''' then (Inr (), db) else revoke_by_hash now (hash_token sha raw) db)"

definition revoke_all_for_email :: "instant \<Rightarrow> string \<Rightarrow> db \<Rightarrow> unit result \<times> db" where
  "revoke_all_for_email now email db = revoke_email now email db"

section \<open>Statements\<close>

text \<open>
  Requests run concurrently, and each statement is a transaction of its own. A step is one
  statement on the table by any request, successful or not.
\<close>

inductive token_stmt :: "db \<Rightarrow> db \<Rightarrow> bool" where
  stmt_store: "token_stmt db (snd (token_store newid now t db))"
| stmt_get: "token_stmt db (snd (token_get_by_hash h db))"
| stmt_revoke: "token_stmt db (snd (revoke_by_hash now h db))"
| stmt_revoke_email: "token_stmt db (snd (revoke_email now email db))"
| stmt_used: "token_stmt db (snd (update_last_used now i db))"

lemma token_update_eq [sql_simps]:
  "token_update P f db =
     (if fails db then (Inl Fault, tick db)
      else (Inr (), (tick db)\<lparr>api_tokens := update_where P f (api_tokens db)\<rparr>))"
  by (simp add: token_update_def sql_exec_eq)

lemma token_get_by_hash_eq [sql_simps]:
  "token_get_by_hash h db =
     (if fails db then Inl Fault
      else case find (\<lambda>t. tok_hash t = h) (api_tokens db) of
             None \<Rightarrow> Inl err_no_rows | Some t \<Rightarrow> Inr t, tick db)"
  by (simp add: token_get_by_hash_def sql_query_row_eq split: option.splits)

lemmas token_updates = revoke_by_hash_def revoke_email_def update_last_used_def

text \<open>What a statement leaves of a row: everything but the two instants of use.\<close>

definition token_kept :: "api_token \<Rightarrow> api_token \<Rightarrow> bool" where
  "token_kept t t' \<longleftrightarrow> tok_id t' = tok_id t \<and> tok_user_id t' = tok_user_id t \<and>
     tok_email t' = tok_email t \<and> tok_role t' = tok_role t \<and> tok_hash t' = tok_hash t \<and>
     tok_type t' = tok_type t \<and> tok_expires_at t' = tok_expires_at t \<and>
     (tok_revoked_at t \<noteq> None \<longrightarrow> tok_revoked_at t' \<noteq> None)"

lemma token_kept_refl [simp]: "token_kept t t"
  by (simp add: token_kept_def)

lemma token_kept_trans: "token_kept t t' \<Longrightarrow> token_kept t' t'' \<Longrightarrow> token_kept t t''"
  by (simp add: token_kept_def)

definition tokens_kept :: "db \<Rightarrow> db \<Rightarrow> bool" where
  "tokens_kept db db' \<longleftrightarrow> (\<forall>t\<in>set (api_tokens db). \<exists>t'\<in>set (api_tokens db'). token_kept t t')"

lemma tokens_keptE:
  assumes "tokens_kept db db'" and "t \<in> set (api_tokens db)"
  obtains t' where "t' \<in> set (api_tokens db')" and "token_kept t t'"
  using assms unfolding tokens_kept_def by blast

lemma tokens_kept_trans: "tokens_kept a b \<Longrightarrow> tokens_kept b c \<Longrightarrow> tokens_kept a c"
  unfolding tokens_kept_def using token_kept_trans by meson

lemma tokens_kept_subset: "set (api_tokens db) \<subseteq> set (api_tokens db') \<Longrightarrow> tokens_kept db db'"
  unfolding tokens_kept_def using token_kept_refl by blast

lemma tokens_kept_update:
  assumes "\<And>t. token_kept t (f t)"
  shows "tokens_kept db (snd (token_update P f db))"
  unfolding tokens_kept_def
proof
  fix t
  assume t: "t \<in> set (api_tokens db)"
  show "\<exists>t'\<in>set (api_tokens (snd (token_update P f db))). token_kept t t'"
    by (rule bexI [where x = "if fails db \<or> \<not> P t then t else f t"])
      (use t assms in \<open>auto simp: token_update_eq tbl_simps\<close>)
qed

lemma tokens_kept_store: "tokens_kept db (snd (token_store newid now t db))"
  by (rule tokens_kept_subset)
    (auto simp: token_store_def sql_insert_eq Let_def split: option.splits)

lemma token_stmt_kept: "token_stmt db db' \<Longrightarrow> tokens_kept db db'"
proof (induction rule: token_stmt.induct)
  case (stmt_store db newid now t)
  show ?case by (rule tokens_kept_store)
next
  case (stmt_get db h)
  show ?case by (rule tokens_kept_subset) (simp add: token_get_by_hash_eq)
qed (auto simp: token_updates token_kept_def intro!: tokens_kept_update)

lemma wf_tokens_update:
  assumes "wf_db db" and "\<And>t. tok_id (f t) = tok_id t" and "\<And>t. tok_hash (f t) = tok_hash t"
  shows "wf_db (snd (token_update P f db))"
  using assms by (simp add: sql_simps wf_db_def wf_defs)

lemma wf_token_store: "wf_db db \<Longrightarrow> wf_db (snd (token_store newid now t db))"
  by (auto simp: token_store_def sql_simps Let_def wf_db_def wf_defs token_constraints_def
      split: option.splits if_splits)

lemma token_stmt_wf: "token_stmt db db' \<Longrightarrow> wf_db db \<Longrightarrow> wf_db db'"
  by (induction rule: token_stmt.induct)
    (simp_all add: wf_token_store token_updates wf_tokens_update token_get_by_hash_eq)

text \<open>Every operation of the manager is a run of statements.\<close>

abbreviation token_run :: "db \<Rightarrow> db \<Rightarrow> bool" where
  "token_run \<equiv> token_stmt\<^sup>*\<^sup>*"

lemma token_run_step [intro]: "token_stmt db db' \<Longrightarrow> token_run db db'"
  by (rule r_into_rtranclp)

lemma token_run_kept: "token_run db db' \<Longrightarrow> tokens_kept db db'"
proof (induction rule: rtranclp_induct)
  case base
  show ?case by (rule tokens_kept_subset) simp
next
  case (step y z)
  then show ?case using tokens_kept_trans token_stmt_kept by blast
qed

lemma token_run_wf: "token_run db db' \<Longrightarrow> wf_db db \<Longrightarrow> wf_db db'"
  by (induction rule: rtranclp_induct) (auto intro: token_stmt_wf)

lemma token_run_store: "token_store newid now t db = (r, db') \<Longrightarrow> token_run db db'"
  using stmt_store [of db newid now t] by auto

lemma issue_run: "token_run db (snd (issue_token_pair sha dr now uid email role db))"
  by (auto simp: issue_token_pair_def Let_def split: sum.splits prod.splits
      dest: token_run_store intro: rtranclp_trans [of token_stmt])

lemma get_run: "token_get_by_hash h db = (r, db') \<Longrightarrow> token_run db db'"
  using stmt_get [of db h] by auto

lemma validate_run: "token_run db (snd (validate_access_token sha now raw db))"
  by (auto simp: validate_access_token_def split: sum.splits prod.splits
      dest: get_run intro: rtranclp_trans [of token_stmt, OF _ token_run_step [OF stmt_used]])

lemma refresh_check_run: "token_run db (snd (refresh_check sha now raw db))"
  by (auto simp: refresh_check_def split: sum.splits prod.splits
      dest: get_run intro: rtranclp_trans [of token_stmt, OF _ token_run_step [OF stmt_revoke_email]])

lemma refresh_rotate_run: "token_run db (snd (refresh_rotate sha dr now raw t db))"
  unfolding refresh_rotate_def Let_def
  by (rule rtranclp_trans [OF token_run_step [OF stmt_revoke] issue_run])

lemma refresh_run: "token_run db (snd (refresh_tokens sha dr now raw db))"
proof (cases "refresh_check sha now raw db")
  case (Pair r db1)
  with refresh_check_run [of db sha now raw] have run: "token_run db db1" by simp
  show ?thesis
  proof (cases r)
    case (Inr t)
    then show ?thesis
      using Pair rtranclp_trans [OF run refresh_rotate_run] by (simp add: refresh_tokens_def)
  qed (use Pair run in \<open>simp add: refresh_tokens_def\<close>)
qed

lemma revoke_run: "token_run db (snd (revoke_token sha now raw db))"
  by (auto simp: revoke_token_def intro: stmt_revoke)

section \<open>What the manager answers\<close>

definition token_of :: "string \<Rightarrow> db \<Rightarrow> api_token option" where
  "token_of h db = find (\<lambda>t. tok_hash t = h) (api_tokens db)"

lemma token_of_Some:
  "wf_db db \<Longrightarrow> token_of h db = Some t \<longleftrightarrow> t \<in> set (api_tokens db) \<and> tok_hash t = h"
  unfolding token_of_def by (rule find_key_Some_iff) (simp add: wf_db_def wf_tokens_def)

lemma validate_answer:
  "fst (validate_access_token sha now raw db) =
     (if raw = '''' then Inl err_invalid_token
      else if fails db then Inl err_token_not_found
      else case token_of (hash_token sha raw) db of
          None \<Rightarrow> Inl err_token_not_found
        | Some t \<Rightarrow>
            if tok_type t \<noteq> ''access'' then Inl err_invalid_token
            else if tok_revoked_at t \<noteq> None then Inl err_token_revoked
            else if now > tok_expires_at t then Inl err_token_expired
            else Inr \<lparr>cl_token_id = tok_id t, cl_user_id = tok_user_id t, cl_email = tok_email t,
                      cl_role = tok_role t\<rparr>)"
  by (simp add: validate_access_token_def token_get_by_hash_eq token_of_def split: option.splits)

lemma refresh_check_answer:
  "fst (refresh_check sha now raw db) =
     (if raw = '''' then Inl err_invalid_token
      else if fails db then Inl err_token_not_found
      else case token_of (hash_token sha raw) db of
          None \<Rightarrow> Inl err_token_not_found
        | Some t \<Rightarrow>
            if tok_type t \<noteq> ''refresh'' then Inl err_invalid_token
            else if tok_revoked_at t \<noteq> None then Inl err_token_revoked
            else if now > tok_expires_at t then Inl err_token_expired
            else Inr t)"
  by (simp add: refresh_check_def token_get_by_hash_eq token_of_def split: option.splits)

text \<open>A revoked token is rejected, also when the lookup fails.\<close>

definition dead_token :: "string \<Rightarrow> db \<Rightarrow> bool" where
  "dead_token h db \<longleftrightarrow> (\<exists>t\<in>set (api_tokens db). tok_hash t = h \<and> tok_revoked_at t \<noteq> None)"

lemma dead_token_kept: "dead_token h db \<Longrightarrow> tokens_kept db db' \<Longrightarrow> dead_token h db'"
  unfolding dead_token_def tokens_kept_def token_kept_def by metis

lemma dead_token_of: "wf_db db \<Longrightarrow> dead_token h db \<Longrightarrow> \<exists>t. token_of h db = Some t \<and> tok_revoked_at t \<noteq> None"
  unfolding dead_token_def using token_of_Some by blast

lemma dead_token_rejected:
  assumes "wf_db db" and "dead_token (hash_token sha raw) db"
  shows "\<exists>err. fst (validate_access_token sha now raw db) = Inl err"
    and "\<exists>err. fst (refresh_tokens sha dr now raw db) = Inl err"
proof -
  obtain t where t: "token_of (hash_token sha raw) db = Some t" "tok_revoked_at t \<noteq> None"
    using dead_token_of [OF assms] by blast
  then show "\<exists>err. fst (validate_access_token sha now raw db) = Inl err"
    by (auto simp: validate_answer)
  have "\<exists>err. fst (refresh_check sha now raw db) = Inl err"
    using t by (auto simp: refresh_check_answer)
  then show "\<exists>err. fst (refresh_tokens sha dr now raw db) = Inl err"
    by (auto simp: refresh_tokens_def split: prod.splits)
qed

section \<open>Issuing\<close>

text \<open>
  Fresh draws: two new identifiers, and digests of the new tokens that no row has yet and
  that differ, which is what 256 random bits and a collision-resistant digest give.
\<close>

definition access_of :: "string \<Rightarrow> string" where
  "access_of b = ''mo_at_'' @ hex_encode b"

definition refresh_of :: "string \<Rightarrow> string" where
  "refresh_of b = ''mo_rt_'' @ hex_encode b"

definition fresh_draws :: "digest \<Rightarrow> token_draws \<Rightarrow> string \<Rightarrow> string \<Rightarrow> db \<Rightarrow> bool" where
  "fresh_draws sha dr b1 b2 db \<longleftrightarrow>
     dr_rnd1 dr = Inr b1 \<and> dr_rnd2 dr = Inr b2 \<and>
     dr_id1 dr \<noteq> 0 \<and> dr_id2 dr \<noteq> 0 \<and> dr_id1 dr \<noteq> dr_id2 dr \<and>
     dr_id1 dr \<notin> tok_id ` set (api_tokens db) \<and> dr_id2 dr \<notin> tok_id ` set (api_tokens db) \<and>
     hash_token sha (access_of b1) \<noteq> hash_token sha (refresh_of b2) \<and>
     hash_token sha (access_of b1) \<notin> tok_hash ` set (api_tokens db) \<and>
     hash_token sha (refresh_of b2) \<notin> tok_hash ` set (api_tokens db)"

lemma key_fresh: "v \<notin> k ` set t \<longleftrightarrow> (\<forall>x\<in>set t. k x \<noteq> v)"
  by auto

lemma token_store_fresh:
  assumes "faults db = []" and "tok_id t \<noteq> 0" and "tok_created_at t = now"
    and "tok_id t \<notin> tok_id ` set (api_tokens db)" and "tok_hash t \<notin> tok_hash ` set (api_tokens db)"
  shows "token_store newid now t db = (Inr (), db\<lparr>api_tokens := api_tokens db @ [t]\<rparr>)"
proof -
  have "t\<lparr>tok_id := tok_id t, tok_created_at := now\<rparr> = t"
    using assms(3) by simp
  with assms show ?thesis
    by (auto simp: token_store_def Let_def sql_simps token_constraints_def key_fresh)
qed

definition issued_rows ::
    "digest \<Rightarrow> token_draws \<Rightarrow> instant \<Rightarrow> uuid option \<Rightarrow> string \<Rightarrow> string \<Rightarrow> string \<Rightarrow> string \<Rightarrow> api_token list" where
  "issued_rows sha dr now uid email role b1 b2 =
     (let r = (if role = '''' then ''user'' else role)
      in [token_row sha (dr_id1 dr) now uid email r (access_of b1) ''access'' access_token_ttl,
          token_row sha (dr_id2 dr) now uid email r (refresh_of b2) ''refresh'' refresh_token_ttl])"

lemma issue_fresh:
  assumes "faults db = []" and "fresh_draws sha dr b1 b2 db"
  shows "issue_token_pair sha dr now uid email role db =
    (Inr \<lparr>tp_access = access_of b1, tp_refresh = refresh_of b2, tp_type = ''Bearer'',
          tp_expires_in = 900\<rparr>,
     db\<lparr>api_tokens := api_tokens db @ issued_rows sha dr now uid email role b1 b2\<rparr>)"
proof -
  define r where "r = (if role = '''' then ''user'' else role)"
  define t1 where "t1 = token_row sha (dr_id1 dr) now uid email r (access_of b1) ''access'' access_token_ttl"
  define t2 where "t2 = token_row sha (dr_id2 dr) now uid email r (refresh_of b2) ''refresh'' refresh_token_ttl"
  note sel = t1_def t2_def token_row_def
  have s1: "token_store (dr_id1 dr) now t1 db = (Inr (), db\<lparr>api_tokens := api_tokens db @ [t1]\<rparr>)"
    by (rule token_store_fresh) (use assms in \<open>auto simp: fresh_draws_def sel\<close>)
  have s2: "token_store (dr_id2 dr) now t2 (db\<lparr>api_tokens := api_tokens db @ [t1]\<rparr>) =
      (Inr (), db\<lparr>api_tokens := api_tokens db @ [t1, t2]\<rparr>)"
    by (subst token_store_fresh) (use assms in \<open>auto simp: fresh_draws_def sel\<close>)
  have gen: "generate_random_token (dr_rnd1 dr) ''mo_at_'' = Inr (access_of b1)"
    "generate_random_token (dr_rnd2 dr) ''mo_rt_'' = Inr (refresh_of b2)"
    using assms(2) by (simp_all add: generate_random_token_def fresh_draws_def access_of_def refresh_of_def)
  show ?thesis
    unfolding issue_token_pair_def Let_def gen sum.case
    by (simp add: s1 s2 gen issued_rows_def Let_def flip: r_def t1_def t2_def)
      (simp add: access_token_ttl_def)
qed

lemma access_of_not_Nil [simp]: "access_of b \<noteq> []" "refresh_of b \<noteq> []"
  by (simp_all add: access_of_def refresh_of_def)

lemma find_append: "find P (xs @ ys) = (case find P xs of None \<Rightarrow> find P ys | Some x \<Rightarrow> Some x)"
  by (induction xs) auto

lemma token_of_issued:
  assumes "fresh_draws sha dr b1 b2 db"
    and "db' = db\<lparr>api_tokens := api_tokens db @ issued_rows sha dr now uid email role b1 b2\<rparr>"
  shows "token_of (hash_token sha (access_of b1)) db' =
      Some (token_row sha (dr_id1 dr) now uid email (if role = '''' then ''user'' else role)
              (access_of b1) ''access'' access_token_ttl)"
    and "token_of (hash_token sha (refresh_of b2)) db' =
      Some (token_row sha (dr_id2 dr) now uid email (if role = '''' then ''user'' else role)
              (refresh_of b2) ''refresh'' refresh_token_ttl)"
    and "h \<noteq> hash_token sha (access_of b1) \<Longrightarrow> h \<noteq> hash_token sha (refresh_of b2) \<Longrightarrow>
      token_of h db' = token_of h db"
proof -
  have none: "find (\<lambda>t. tok_hash t = hash_token sha (access_of b1)) (api_tokens db) = None"
    "find (\<lambda>t. tok_hash t = hash_token sha (refresh_of b2)) (api_tokens db) = None"
    using assms(1) by (simp_all add: find_None_iff fresh_draws_def key_fresh)
  note sel = token_of_def find_append issued_rows_def Let_def token_row_def assms(2)
  show "token_of (hash_token sha (access_of b1)) db' =
      Some (token_row sha (dr_id1 dr) now uid email (if role = '''' then ''user'' else role)
              (access_of b1) ''access'' access_token_ttl)"
    by (simp add: sel none)
  show "token_of (hash_token sha (refresh_of b2)) db' =
      Some (token_row sha (dr_id2 dr) now uid email (if role = '''' then ''user'' else role)
              (refresh_of b2) ''refresh'' refresh_token_ttl)"
    using assms(1) by (simp add: sel none fresh_draws_def)
  show "token_of h db' = token_of h db"
    if "h \<noteq> hash_token sha (access_of b1)" "h \<noteq> hash_token sha (refresh_of b2)"
    using that by (auto simp: sel split: option.splits)
qed

lemma token_row_sels [simp]:
  "tok_id (token_row sha i now uid email role raw ty ttl) = i"
  "tok_user_id (token_row sha i now uid email role raw ty ttl) = uid"
  "tok_email (token_row sha i now uid email role raw ty ttl) = email"
  "tok_role (token_row sha i now uid email role raw ty ttl) = role"
  "tok_hash (token_row sha i now uid email role raw ty ttl) = hash_token sha raw"
  "tok_type (token_row sha i now uid email role raw ty ttl) = ty"
  "tok_expires_at (token_row sha i now uid email role raw ty ttl) = now + ttl"
  "tok_revoked_at (token_row sha i now uid email role raw ty ttl) = None"
  by (simp_all add: token_row_def)

section \<open>Revoking\<close>

lemma revoke_by_hash_dead:
  assumes "revoke_by_hash now (tok_hash t) db = (Inr (), db1)" and "t \<in> set (api_tokens db)"
  shows "dead_token (tok_hash t) db1"
proof -
  have "t\<lparr>tok_revoked_at := Some now\<rparr> \<in> set (api_tokens db1)"
    using assms by (force simp: revoke_by_hash_def token_update_eq tbl_simps split: if_splits)
  then show ?thesis unfolding dead_token_def
    by (rule rev_bexI) simp
qed

lemma revoke_email_dead:
  assumes "revoke_email now email db = (Inr (), db1)" and "x \<in> set (api_tokens db1)"
    and "tok_email x = email"
  shows "tok_revoked_at x \<noteq> None"
proof -
  let ?P = "\<lambda>t. tok_email t = email \<and> tok_revoked_at t = None"
  have "api_tokens db1 = update_where ?P (\<lambda>t. t\<lparr>tok_revoked_at := Some now\<rparr>) (api_tokens db)"
    using assms(1) by (auto simp: revoke_email_def token_update_eq split: if_splits)
  with assms(2) obtain r where x: "x = (if ?P r then r\<lparr>tok_revoked_at := Some now\<rparr> else r)"
    by (auto simp only: set_update_where)
  show ?thesis
  proof (cases "?P r")
    case False
    with x assms(3) show ?thesis by auto
  qed (simp add: x)
qed

lemma token_kept_dead:
  assumes "tokens_kept db db'" and "t \<in> set (api_tokens db)"
    and "\<forall>x\<in>set (api_tokens db'). tok_email x = tok_email t \<longrightarrow> tok_revoked_at x \<noteq> None"
  shows "dead_token (tok_hash t) db'"
proof -
  obtain x where "x \<in> set (api_tokens db')" "token_kept t x"
    using assms(1,2) unfolding tokens_kept_def by blast
  with assms(3) show ?thesis by (auto simp: dead_token_def token_kept_def)
qed

lemma revoke_email_dead_hash:
  assumes "revoke_email now (tok_email t) db = (Inr (), db1)" and "t \<in> set (api_tokens db)"
  shows "dead_token (tok_hash t) db1"
proof (rule token_kept_dead [OF _ assms(2)])
  show "tokens_kept db db1"
    using token_stmt_kept [OF stmt_revoke_email, of db now "tok_email t"] assms(1) by simp
qed (use revoke_email_dead [OF assms(1)] in blast)

lemma dead_token_run: "dead_token h db \<Longrightarrow> token_run db db' \<Longrightarrow> dead_token h db'"
  using dead_token_kept token_run_kept by blast

section \<open>Refreshing\<close>

lemma refresh_ok:
  assumes "refresh_tokens sha dr now raw db = (Inr p, db')" and "faults db = []"
  obtains t where "token_of (hash_token sha raw) db = Some t" and "raw \<noteq> ''''"
    and "tok_type t = ''refresh''" and "tok_revoked_at t = None" and "now \<le> tok_expires_at t"
    and "refresh_rotate sha dr now raw t db = (Inr p, db')"
proof -
  from assms obtain t where c: "refresh_check sha now raw db = (Inr t, db)"
    and r: "refresh_rotate sha dr now raw t db = (Inr p, db')"
    by (auto simp: refresh_tokens_def refresh_check_def token_get_by_hash_eq
        split: prod.splits sum.splits if_splits option.splits)
  from c have "fst (refresh_check sha now raw db) = Inr t" by simp
  with that r show ?thesis
    by (auto simp: refresh_check_answer split: if_splits option.splits)
qed

lemma refresh_check_ok:
  assumes "faults db = []" and "token_of (hash_token sha raw) db = Some t" and "raw \<noteq> ''''"
    and "tok_type t = ''refresh''" and "tok_revoked_at t = None" and "now \<le> tok_expires_at t"
  shows "refresh_check sha now raw db = (Inr t, db)"
  using assms by (simp add: refresh_check_def token_get_by_hash_eq flip: token_of_def)

definition revoked_tokens :: "instant \<Rightarrow> string \<Rightarrow> db \<Rightarrow> db" where
  "revoked_tokens now h db =
     db\<lparr>api_tokens := update_where (\<lambda>t. tok_hash t = h) (\<lambda>t. t\<lparr>tok_revoked_at := Some now\<rparr>)
                        (api_tokens db)\<rparr>"

lemma faults_revoked_tokens [simp]: "faults (revoked_tokens now h db) = faults db"
  by (simp add: revoked_tokens_def)

lemma revoke_by_hash_ok:
  "faults db = [] \<Longrightarrow> revoke_by_hash now h db = (Inr (), revoked_tokens now h db)"
  by (simp add: revoke_by_hash_def token_update_eq revoked_tokens_def)

lemma fresh_draws_revoked [simp]:
  "fresh_draws sha dr b1 b2 (revoked_tokens now h db) = fresh_draws sha dr b1 b2 db"
proof -
  have keys: "tok_id ` set (api_tokens (revoked_tokens now h db)) = tok_id ` set (api_tokens db)"
    "tok_hash ` set (api_tokens (revoked_tokens now h db)) = tok_hash ` set (api_tokens db)"
    unfolding revoked_tokens_def by (simp_all flip: set_map)
  show ?thesis unfolding fresh_draws_def keys ..
qed

lemma refresh_rotate_ok:
  assumes "faults db = []" and "fresh_draws sha dr b1 b2 db"
  shows "refresh_rotate sha dr now raw t db =
    (Inr \<lparr>tp_access = access_of b1, tp_refresh = refresh_of b2, tp_type = ''Bearer'',
          tp_expires_in = 900\<rparr>,
     (revoked_tokens now (hash_token sha raw) db)\<lparr>api_tokens :=
        api_tokens (revoked_tokens now (hash_token sha raw) db) @
        issued_rows sha dr now (tok_user_id t) (tok_email t) (tok_role t) b1 b2\<rparr>)"
  using assms by (simp add: refresh_rotate_def revoke_by_hash_ok issue_fresh)

lemma refresh_ok_rows:
  assumes "wf_db db" and "faults db = []" and "fresh_draws sha dr b1 b2 db"
    and "refresh_tokens sha dr now raw db = (Inr p, db')"
    and "token_of (hash_token sha raw) db = Some t"
  shows "dead_token (hash_token sha raw) db'"
    and "\<exists>x\<in>set (api_tokens db'). tok_hash x = hash_token sha (tp_access p) \<and> tok_email x = tok_email t"
    and "\<exists>x\<in>set (api_tokens db'). tok_hash x = hash_token sha (tp_refresh p) \<and> tok_email x = tok_email t"
proof -
  have t: "t \<in> set (api_tokens db)" "tok_hash t = hash_token sha raw"
    using token_of_Some assms(1,5) by auto
  from refresh_ok [OF assms(4,2)] assms(5)
  have r: "refresh_rotate sha dr now raw t db = (Inr p, db')" by (metis option.inject)
  note rot = refresh_rotate_ok [OF assms(2,3), of now raw t, unfolded r]
  from rot have db': "set (api_tokens db') = set (api_tokens (revoked_tokens now (hash_token sha raw) db)) \<union>
      set (issued_rows sha dr now (tok_user_id t) (tok_email t) (tok_role t) b1 b2)"
    by simp
  have "dead_token (hash_token sha raw) (revoked_tokens now (hash_token sha raw) db)"
    using revoke_by_hash_dead [of now t db "revoked_tokens now (hash_token sha raw) db"] t
      revoke_by_hash_ok [OF assms(2)] by metis
  then show "dead_token (hash_token sha raw) db'"
    unfolding dead_token_def db' by blast
  show "\<exists>x\<in>set (api_tokens db'). tok_hash x = hash_token sha (tp_access p) \<and> tok_email x = tok_email t"
    "\<exists>x\<in>set (api_tokens db'). tok_hash x = hash_token sha (tp_refresh p) \<and> tok_email x = tok_email t"
    using rot unfolding db' by (simp_all add: issued_rows_def Let_def)
qed

lemma replay_check:
  assumes "wf_db db" and "faults db = []" and "dead_token (hash_token sha raw) db" and "raw \<noteq> ''''"
    and "token_of (hash_token sha raw) db = Some t" and "tok_type t = ''refresh''"
  shows "refresh_tokens sha dr now raw db = (Inl err_token_revoked, snd (revoke_email now (tok_email t) db))"
proof -
  obtain t' where "token_of (hash_token sha raw) db = Some t'" "tok_revoked_at t' \<noteq> None"
    using dead_token_of assms(1,3) by blast
  with assms show ?thesis
    by (auto simp: refresh_tokens_def refresh_check_def token_get_by_hash_eq simp flip: token_of_def)
qed

lemma refresh_check_err:
  "fst (refresh_check sha now raw db) = Inl err \<Longrightarrow> fst (refresh_tokens sha dr now raw db) = Inl err"
  by (cases "refresh_check sha now raw db") (simp add: refresh_tokens_def)

section \<open>What the statements of a rotation allow\<close>

text \<open>
  The refresh token is looked up and revoked by separate statements, and the revocation does
  not check that the token was still valid: two requests that both look it up before either
  revokes it both obtain a working pair.
\<close>

lemma refresh_race:
  assumes "wf_db db" and "faults db = []" and "refresh_check sha now raw db = (Inr t, db)"
    and "fresh_draws sha dr b1 b2 db"
    and "refresh_rotate sha dr now raw t db = (Inr p, db1)"
    and "fresh_draws sha dr' b1' b2' db1"
  shows "\<exists>p' db2. refresh_check sha now raw db = (Inr t, db) \<and>
    refresh_rotate sha dr' now raw t db1 = (Inr p', db2) \<and>
    fst (validate_access_token sha now (tp_access p') db2) =
      Inr \<lparr>cl_token_id = dr_id1 dr', cl_user_id = tok_user_id t, cl_email = tok_email t,
           cl_role = (if tok_role t = '''' then ''user'' else tok_role t)\<rparr>"
proof -
  note rot = refresh_rotate_ok [OF assms(2,4), of now raw t, unfolded assms(5)]
  then have f1: "faults db1 = []" using assms(2) by simp
  note rot' = refresh_rotate_ok [OF f1 assms(6), of now raw t]
  have "fresh_draws sha dr' b1' b2' (revoked_tokens now (hash_token sha raw) db1)"
    using assms(6) by simp
  note row = token_of_issued(1) [OF this refl]
  have ttl: "\<not> now > now + access_token_ttl" by (simp add: access_token_ttl_def)
  show ?thesis
    unfolding rot' using assms(3) f1 ttl row by (simp add: validate_answer)
qed

text \<open>The error of the revocation is dropped: if it fails, the old refresh token stays valid.\<close>

lemma refresh_revoke_fault:
  assumes "token_of (hash_token sha raw) db = Some t" and "tok_revoked_at t = None"
    and "faults db = [True]"
    and "fresh_draws sha dr b1 b2 db"
  shows "\<exists>p db'. refresh_rotate sha dr now raw t db = (Inr p, db') \<and>
    token_of (hash_token sha raw) db' = Some t"
proof -
  have rv: "revoke_by_hash now (hash_token sha raw) db = (Inl Fault, tick db)"
    using assms(3) by (simp add: revoke_by_hash_def token_update_eq fails_def)
  have f: "fresh_draws sha dr b1 b2 (tick db)" "faults (tick db) = []"
    using assms(3,4) by (simp_all add: fresh_draws_def tick_def)
  have "t \<in> set (api_tokens db)" "tok_hash t = hash_token sha raw"
    using assms(1) find_SomeD unfolding token_of_def by fastforce+
  then have ne: "hash_token sha raw \<noteq> hash_token sha (access_of b1)"
    "hash_token sha raw \<noteq> hash_token sha (refresh_of b2)"
    using assms(4) by (auto simp: fresh_draws_def key_fresh)
  have "token_of (hash_token sha raw) (tick db) = Some t"
    using assms(1) by (simp add: token_of_def)
  with token_of_issued(3) [OF f(1) refl ne] show ?thesis
    by (simp add: refresh_rotate_def rv issue_fresh [OF f(2,1)])
qed

section \<open>Properties\<close>

text \<open>
  C25. An issued pair: the access token is accepted with the identity it was issued for until
  the end of its fifteen minutes and not afterwards; neither token is accepted in the place
  of the other; and what every other token is worth does not change.
\<close>

theorem token_pair_scope:
  assumes "faults db = []" and "fresh_draws sha dr b1 b2 db"
  shows "\<exists>p db'. issue_token_pair sha dr now uid email role db = (Inr p, db') \<and>
    (\<forall>t. fst (validate_access_token sha t (tp_access p) db') =
       (if t > now + access_token_ttl then Inl err_token_expired
        else Inr \<lparr>cl_token_id = dr_id1 dr, cl_user_id = uid, cl_email = email,
                  cl_role = (if role = '''' then ''user'' else role)\<rparr>)) \<and>
    (\<forall>t. fst (validate_access_token sha t (tp_refresh p) db') = Inl err_invalid_token) \<and>
    (\<forall>t dr'. fst (refresh_tokens sha dr' t (tp_access p) db') = Inl err_invalid_token) \<and>
    (\<forall>t raw. hash_token sha raw \<notin> {hash_token sha (tp_access p), hash_token sha (tp_refresh p)} \<longrightarrow>
       fst (validate_access_token sha t raw db') = fst (validate_access_token sha t raw db))"
proof -
  define db' where "db' = db\<lparr>api_tokens := api_tokens db @ issued_rows sha dr now uid email role b1 b2\<rparr>"
  have f: "\<not> fails db'" "\<not> fails db" using assms(1) by (simp_all add: db'_def)
  note row = token_of_issued [OF assms(2) db'_def]
  have "fst (refresh_check sha t (access_of b1) db') = Inl err_invalid_token" for t
    using f row(1) by (simp add: refresh_check_answer)
  then have "fst (refresh_tokens sha dr' t (access_of b1) db') = Inl err_invalid_token" for dr' t
    by (rule refresh_check_err)
  moreover have "fst (validate_access_token sha t raw db') = fst (validate_access_token sha t raw db)"
    if "hash_token sha raw \<notin> {hash_token sha (access_of b1), hash_token sha (refresh_of b2)}" for t raw
    using that f row(3) [of "hash_token sha raw"] by (simp add: validate_answer)
  ultimately show ?thesis
    using f row(1,2) by (simp add: issue_fresh [OF assms] validate_answer flip: db'_def)
qed

text \<open>An example: a token table after one pair was issued.\<close>

definition example_draws :: "nat \<Rightarrow> token_draws" where
  "example_draws n =
     \<lparr>dr_id1 = 2 * n + 1, dr_id2 = 2 * n + 2, dr_rnd1 = Inr (replicate n (CHR ''A'')),
      dr_rnd2 = Inr (replicate n (CHR ''B''))\<rparr>"

lemma example_fresh: "fresh_draws id (example_draws 0) [] [] empty_db"
  by (simp add: fresh_draws_def example_draws_def empty_db_def hash_token_def access_of_def
      refresh_of_def hex_encode_def hex_digit_def byte_def)

theorem token_pair_scope_witness:
  "\<exists>p db'. issue_token_pair id (example_draws 0) 0 None ''user@example.org'' '''' empty_db = (Inr p, db') \<and>
    fst (validate_access_token id 5 (tp_access p) db') =
      Inr \<lparr>cl_token_id = 1, cl_user_id = None, cl_email = ''user@example.org'', cl_role = ''user''\<rparr>"
proof -
  have "faults empty_db = []" by (simp add: empty_db_def)
  from token_pair_scope [OF this example_fresh, of 0 None "''user@example.org''" "''''"]
  show ?thesis
  proof (elim exE conjE, goal_cases)
    case (1 p db')
    show ?case
      by (intro exI [of _ p] exI [of _ db'] conjI 1(1))
        (simp add: 1(2) access_token_ttl_def example_draws_def)
  qed
qed

text \<open>
  C26. Revocation is final: after \<open>RevokeToken\<close> on a token, or \<open>RevokeAllForEmail\<close> on its
  account, the token is neither accepted nor refreshed in any state that statements of other
  requests lead to, in whatever order and with whatever failures they run.
\<close>

theorem token_revocation_final:
  assumes "wf_db db" and "t \<in> set (api_tokens db)" and "tok_hash t = hash_token sha raw"
    and "raw \<noteq> ''''"
    and "revoke_token sha now raw db = (Inr (), db1) \<or>
         revoke_all_for_email now (tok_email t) db = (Inr (), db1)"
    and "token_run db1 db2"
  shows "(\<exists>err. fst (validate_access_token sha now' raw db2) = Inl err) \<and>
    (\<exists>err. fst (refresh_tokens sha dr now' raw db2) = Inl err)"
proof -
  have run: "token_run db db1" and dead: "dead_token (hash_token sha raw) db1"
    using assms(5)
  proof (atomize (full), elim disjE)
    assume r: "revoke_token sha now raw db = (Inr (), db1)"
    then have "revoke_by_hash now (tok_hash t) db = (Inr (), db1)"
      using assms(3,4) by (simp add: revoke_token_def)
    with r show "token_run db db1 \<and> dead_token (hash_token sha raw) db1"
      using revoke_run [of db sha now raw] revoke_by_hash_dead assms(2,3) by force
  next
    assume r: "revoke_all_for_email now (tok_email t) db = (Inr (), db1)"
    then show "token_run db db1 \<and> dead_token (hash_token sha raw) db1"
      using token_run_step [OF stmt_revoke_email, of db now "tok_email t"]
        revoke_email_dead_hash assms(2,3) by (simp add: revoke_all_for_email_def) metis
  qed
  have "wf_db db2" using token_run_wf [OF assms(6) token_run_wf [OF run assms(1)]] .
  with dead_token_rejected [OF this dead_token_run [OF dead assms(6)]] show ?thesis by blast
qed

definition example_token :: "string \<Rightarrow> string \<Rightarrow> api_token" where
  "example_token raw ty = token_row id 1 0 None ''user@example.org'' ''user'' raw ty refresh_token_ttl"

definition example_token_db :: "string \<Rightarrow> string \<Rightarrow> db" where
  "example_token_db raw ty = empty_db\<lparr>api_tokens := [example_token raw ty]\<rparr>"

lemma wf_example_token_db: "wf_db (example_token_db raw ty)" "faults (example_token_db raw ty) = []"
  by (simp_all add: example_token_db_def empty_db_def wf_db_def wf_defs ref_def)

theorem token_revocation_final_witness:
  "\<exists>db1. revoke_token id 7 ''mo_at_00'' (example_token_db ''mo_at_00'' ''access'') = (Inr (), db1) \<and>
     (\<exists>err. fst (validate_access_token id 8 ''mo_at_00'' db1) = Inl err)"
proof -
  let ?db = "example_token_db ''mo_at_00'' ''access''"
  obtain db1 where r: "revoke_token id 7 ''mo_at_00'' ?db = (Inr (), db1)"
    using revoke_by_hash_ok [OF wf_example_token_db(2)] by (auto simp: revoke_token_def)
  have t: "example_token ''mo_at_00'' ''access'' \<in> set (api_tokens ?db)"
    "tok_hash (example_token ''mo_at_00'' ''access'') = hash_token id ''mo_at_00''"
    by (simp_all add: example_token_db_def example_token_def)
  from token_revocation_final [OF wf_example_token_db(1) t _ disjI1 [OF r] rtranclp.rtrancl_refl]
  show ?thesis using r by blast
qed

text \<open>
  C27. A refresh token works once. A successful rotation kills it; presenting it again, at any
  later moment and whatever other requests did in between, is answered with
  \<open>ErrTokenRevoked\<close> and kills every token of the account, the pair of the rotation included.
\<close>

theorem refresh_replay_revokes_account:
  assumes "wf_db db" and "faults db = []" and "fresh_draws sha dr b1 b2 db"
    and "refresh_tokens sha dr now raw db = (Inr p, db1)"
    and "token_run db1 db2" and "faults db2 = []"
    and "refresh_tokens sha dr' now' raw db2 = (r, db3)"
  shows "\<exists>email. r = Inl err_token_revoked \<and>
    (\<exists>t. token_of (hash_token sha raw) db = Some t \<and> tok_email t = email) \<and>
    (\<forall>x\<in>set (api_tokens db3). tok_email x = email \<longrightarrow> tok_revoked_at x \<noteq> None) \<and>
    (\<forall>db4 t dr''. token_run db3 db4 \<longrightarrow>
       (\<exists>err. fst (validate_access_token sha t (tp_access p) db4) = Inl err) \<and>
       (\<exists>err. fst (refresh_tokens sha dr'' t (tp_refresh p) db4) = Inl err))"
proof -
  obtain t where t: "token_of (hash_token sha raw) db = Some t" "raw \<noteq> ''''" "tok_type t = ''refresh''"
    using refresh_ok [OF assms(4,2)] by metis
  note rows = refresh_ok_rows [OF assms(1-4) t(1)]
  have run1: "token_run db db1" using refresh_run [of db sha dr now raw] assms(4) by simp
  have run2: "token_run db db2" using run1 assms(5) by (rule rtranclp_trans)
  have wf2: "wf_db db2" using token_run_wf [OF run2 assms(1)] .
  obtain t2 where t2: "token_of (hash_token sha raw) db2 = Some t2" "tok_type t2 = ''refresh''"
    "tok_email t2 = tok_email t"
  proof -
    from t(1) obtain x where "x \<in> set (api_tokens db2)" "token_kept t x"
      using token_run_kept [OF run2] token_of_Some [OF assms(1)] unfolding tokens_kept_def by blast
    with that [of x] t(1,3) show ?thesis
      using token_of_Some [OF assms(1)] token_of_Some [OF wf2] by (simp add: token_kept_def)
  qed
  have dead2: "dead_token (hash_token sha raw) db2" using dead_token_run [OF rows(1) assms(5)] .
  note rep = replay_check [OF wf2 assms(6) dead2 t(2) t2(1,2), of dr' now', unfolded assms(7) t2(3)]
  then have rv: "revoke_email now' (tok_email t) db2 = (Inr (), db3)"
    using assms(6) by (simp add: revoke_email_def token_update_eq)
  have wf3: "wf_db db3"
    using token_run_wf [OF token_run_step [OF stmt_revoke_email, of db2 now' "tok_email t"] wf2] rv by simp
  have dead3: "dead_token (tok_hash x) db3" if xin: "x \<in> set (api_tokens db1)" and xe: "tok_email x = tok_email t" for x
  proof -
    obtain y where "y \<in> set (api_tokens db2)" "token_kept x y"
      by (rule tokens_keptE [OF token_run_kept [OF assms(5)] xin])
    with xe have y: "y \<in> set (api_tokens db2)" "tok_email y = tok_email t" "tok_hash y = tok_hash x"
      by (simp_all add: token_kept_def)
    have "revoke_email now' (tok_email y) db2 = (Inr (), db3)" unfolding y(2) by (rule rv)
    from revoke_email_dead_hash [OF this y(1)] show ?thesis unfolding y(3) .
  qed
  have "dead_token (hash_token sha (tp_access p)) db3" "dead_token (hash_token sha (tp_refresh p)) db3"
    using rows(2,3) dead3 by metis+
  then have rej: "(\<exists>err. fst (validate_access_token sha u (tp_access p) db4) = Inl err) \<and>
       (\<exists>err. fst (refresh_tokens sha dr'' u (tp_refresh p) db4) = Inl err)"
    if "token_run db3 db4" for db4 u dr''
    using dead_token_rejected token_run_wf [OF that wf3] dead_token_run [OF _ that] by blast
  show ?thesis
  proof (intro exI [of _ "tok_email t"] conjI ballI impI)
    show "r = Inl err_token_revoked" using rep by simp
    show "\<exists>t'. token_of (hash_token sha raw) db = Some t' \<and> tok_email t' = tok_email t"
      using t(1) by blast
    show "tok_revoked_at x \<noteq> None" if "x \<in> set (api_tokens db3)" "tok_email x = tok_email t" for x
      using revoke_email_dead [OF rv that] .
  qed (use rej in blast)
qed

theorem refresh_replay_revokes_account_witness:
  "\<exists>p db1 db3. refresh_tokens id (example_draws 1) 7 ''mo_rt_00'' (example_token_db ''mo_rt_00'' ''refresh'') = (Inr p, db1) \<and>
     refresh_tokens id (example_draws 2) 8 ''mo_rt_00'' db1 = (Inl err_token_revoked, db3) \<and>
     (\<exists>err. fst (validate_access_token id 9 (tp_access p) db3) = Inl err)"
proof -
  define db where "db = example_token_db ''mo_rt_00'' ''refresh''"
  have wf: "wf_db db" "faults db = []" unfolding db_def by (rule wf_example_token_db)+
  have fresh: "fresh_draws id (example_draws 1) ''A'' ''B'' db"
    by (simp add: fresh_draws_def example_draws_def db_def example_token_db_def example_token_def
        hash_token_def access_of_def refresh_of_def hex_encode_def hex_digit_def byte_def)
  have t: "token_of (hash_token id ''mo_rt_00'') db = Some (example_token ''mo_rt_00'' ''refresh'')"
    by (simp add: token_of_def db_def example_token_db_def example_token_def)
  have "refresh_check id 7 ''mo_rt_00'' db = (Inr (example_token ''mo_rt_00'' ''refresh''), db)"
    by (rule refresh_check_ok [OF wf(2) t])
      (simp_all add: example_token_def refresh_token_ttl_def)
  then obtain p db1 where r: "refresh_tokens id (example_draws 1) 7 ''mo_rt_00'' db = (Inr p, db1)"
    and f: "faults db1 = []"
    using refresh_rotate_ok [OF wf(2) fresh] wf(2) by (simp add: refresh_tokens_def)
  obtain res db3 where r': "refresh_tokens id (example_draws 2) 8 ''mo_rt_00'' db1 = (res, db3)"
    by fastforce
  from refresh_replay_revokes_account [OF wf fresh r rtranclp.rtrancl_refl f r']
  have "res = Inl err_token_revoked \<and> (\<exists>err. fst (validate_access_token id 9 (tp_access p) db3) = Inl err)"
    by blast
  with r r' show ?thesis unfolding db_def by blast
qed

end
