(* ===== verification/Rate_Limits.thy ===== *)
theory Rate_Limits
  imports Go_Strings
begin

text \<open>
  The two sliding-window limiters: \<open>internal/api/middleware/rate_limit.go\<close> for HTTP requests
  and \<open>internal/inbound/rate_limit.go\<close> for SMTP connections and messages. Both run under a
  mutex, so the calls are a sequence with non-decreasing clock readings. Each keeps only the
  instants that may still count; the contract, stated as a locale and proved of both, is that
  this forgetting does not show: every decision is the one a limiter with the complete
  history makes, and no window ever holds more than the limit.
\<close>

section \<open>The HTTP limiter\<close>

type_synonym request_log = "string \<rightharpoonup> instant list"

definition log_of :: "request_log \<Rightarrow> string \<Rightarrow> instant list" where
  "log_of m k = (case m k of None \<Rightarrow> [] | Some ts \<Rightarrow> ts)"

definition http_live :: "duration \<Rightarrow> instant \<Rightarrow> instant \<Rightarrow> bool" where
  "http_live window now t \<longleftrightarrow> now - t \<le> window"

definition http_allow :: "int \<Rightarrow> duration \<Rightarrow> string \<Rightarrow> instant \<Rightarrow> request_log \<Rightarrow> bool \<times> request_log" where
  "http_allow limit window key now requests =
     (let active = filter (http_live window now) (log_of requests key)
      in if int (length active) \<ge> limit then (False, requests)
         else (True, requests(key \<mapsto> active @ [now])))"

text \<open>The background goroutine: expired instants go, and keys without instants.\<close>

definition http_evict :: "duration \<Rightarrow> instant \<Rightarrow> request_log \<Rightarrow> request_log" where
  "http_evict window now requests =
     (\<lambda>k. case requests k of
        None \<Rightarrow> None
      | Some ts \<Rightarrow>
          let valid = filter (http_live window now) ts
          in if valid = [] then None else Some valid)"

text \<open>\<open>net.SplitHostPort\<close>, the host only.\<close>

definition last_index :: "char \<Rightarrow> string \<Rightarrow> nat option" where
  "last_index c s = (if c \<in> set s then Some (length s - 1 - length (takeWhile (\<lambda>x. x \<noteq> c) (rev s))) else None)"

definition first_index :: "char \<Rightarrow> string \<Rightarrow> nat option" where
  "first_index c s = (if c \<in> set s then Some (length (takeWhile (\<lambda>x. x \<noteq> c) s)) else None)"

definition split_host :: "string \<Rightarrow> string option" where
  "split_host s =
     (case last_index CHR '':'' s of
        None \<Rightarrow> None
      | Some i \<Rightarrow>
          if hd s = CHR ''['' then
            (case first_index CHR '']'' s of
               None \<Rightarrow> None
             | Some e \<Rightarrow>
                 if e + 1 = i \<and> CHR ''['' \<notin> set (tl s) \<and> CHR '']'' \<notin> set (drop (e + 1) s)
                 then Some (take (e - 1) (tl s)) else None)
          else if CHR '':'' \<in> set (take i s) \<or> CHR ''['' \<in> set s \<or> CHR '']'' \<in> set s then None
          else Some (take i s))"

text \<open>The address of the claims in the context, if there are any.\<close>

definition extract_client_key :: "string option \<Rightarrow> string \<Rightarrow> string \<Rightarrow> string" where
  "extract_client_key claims_email remote_addr xff =
     (case claims_email of
        Some e \<Rightarrow> if e \<noteq> '''' then ''user:'' @ e else
          ''ip:'' @ (if xff \<noteq> '''' then trim_space (hd (str_split CHR '','' xff))
                   else case split_host remote_addr of None \<Rightarrow> remote_addr | Some h \<Rightarrow> h)
      | None \<Rightarrow>
          ''ip:'' @ (if xff \<noteq> '''' then trim_space (hd (str_split CHR '','' xff))
                   else case split_host remote_addr of None \<Rightarrow> remote_addr | Some h \<Rightarrow> h))"

section \<open>The SMTP limiter\<close>

record rate_policy =
  rp_connections :: int
  rp_messages :: int
  rp_recipients :: int
  rp_window :: duration

record memory_limiter =
  ml_policy :: rate_policy
  ml_connections :: request_log
  ml_messages :: request_log
  ml_auth_failures :: "string \<rightharpoonup> int"

definition new_memory_limiter :: "rate_policy \<Rightarrow> memory_limiter" where
  "new_memory_limiter p =
     \<lparr>ml_policy =
        p\<lparr>rp_window := (if rp_window p = 0 then 60000000000 else rp_window p),
          rp_connections := (if rp_connections p = 0 then 50 else rp_connections p),
          rp_messages := (if rp_messages p = 0 then 60 else rp_messages p),
          rp_recipients := (if rp_recipients p = 0 then 100 else rp_recipients p)\<rparr>,
      ml_connections = Map.empty, ml_messages = Map.empty, ml_auth_failures = Map.empty\<rparr>"

text \<open>\<open>t.After(now.Add(-window))\<close>\<close>

definition smtp_live :: "duration \<Rightarrow> instant \<Rightarrow> instant \<Rightarrow> bool" where
  "smtp_live window now t \<longleftrightarrow> t > now - window"

text \<open>The body both methods share; a refusal stores the cleaned list, too.\<close>

definition smtp_allow :: "int \<Rightarrow> duration \<Rightarrow> string \<Rightarrow> instant \<Rightarrow> request_log \<Rightarrow> bool \<times> request_log" where
  "smtp_allow limit window ip now m =
     (let valid = filter (smtp_live window now) (log_of m ip)
      in if int (length valid) \<ge> limit then (False, m(ip \<mapsto> valid))
         else (True, m(ip \<mapsto> valid @ [now])))"

definition allow_connection :: "string \<Rightarrow> instant \<Rightarrow> memory_limiter \<Rightarrow> bool \<times> memory_limiter" where
  "allow_connection ip now r =
     (case smtp_allow (rp_connections (ml_policy r)) (rp_window (ml_policy r)) ip now (ml_connections r) of
        (b, m) \<Rightarrow> (b, r\<lparr>ml_connections := m\<rparr>))"

definition allow_message :: "string \<Rightarrow> instant \<Rightarrow> memory_limiter \<Rightarrow> bool \<times> memory_limiter" where
  "allow_message ip now r =
     (case smtp_allow (rp_messages (ml_policy r)) (rp_window (ml_policy r)) ip now (ml_messages r) of
        (b, m) \<Rightarrow> (b, r\<lparr>ml_messages := m\<rparr>))"

definition record_auth_failure :: "string \<Rightarrow> memory_limiter \<Rightarrow> int \<times> memory_limiter" where
  "record_auth_failure ip r =
     (let n = (case ml_auth_failures r ip of None \<Rightarrow> 0 | Some n \<Rightarrow> n) + 1
      in (n, r\<lparr>ml_auth_failures := (ml_auth_failures r)(ip \<mapsto> n)\<rparr>))"

section \<open>The contract\<close>

text \<open>What happens to a limiter: a request with a key, or a clean-up.\<close>

datatype limiter_event = Request string instant | Evict instant

fun event_time :: "limiter_event \<Rightarrow> instant" where
  "event_time (Request k t) = t"
| "event_time (Evict t) = t"

text \<open>
  The reference limiter remembers every accepted request for ever: a request is accepted
  when fewer than \<open>limit\<close> accepted ones of its key are still live.
\<close>

fun reference_step ::
    "(instant \<Rightarrow> instant \<Rightarrow> bool) \<Rightarrow> int \<Rightarrow> limiter_event \<Rightarrow> (string \<Rightarrow> instant list) \<Rightarrow> bool \<times> (string \<Rightarrow> instant list)" where
  "reference_step live limit (Request k now) h =
     (if int (length (filter (live now) (h k))) < limit then (True, h(k := h k @ [now])) else (False, h))"
| "reference_step live limit (Evict now) h = (False, h)"

text \<open>The decisions of a run.\<close>

fun decisions :: "(limiter_event \<Rightarrow> 's \<Rightarrow> bool \<times> 's) \<Rightarrow> limiter_event list \<Rightarrow> 's \<Rightarrow> bool list \<times> 's" where
  "decisions step [] s = ([], s)"
| "decisions step (e # es) s =
     (case step e s of (b, s1) \<Rightarrow> case decisions step es s1 of (bs, s2) \<Rightarrow> (b # bs, s2))"

text \<open>What a limiter accepted of one key.\<close>

fun accepted :: "string \<Rightarrow> limiter_event list \<Rightarrow> bool list \<Rightarrow> instant list" where
  "accepted k (Request q t # es) (b # bs) = (if q = k \<and> b then t # accepted k es bs else accepted k es bs)"
| "accepted k (Evict t # es) (b # bs) = accepted k es bs"
| "accepted k es bs = []"

lemma reference_history:
  "decisions (reference_step live limit) es h = (bs, h') \<Longrightarrow> h' k = h k @ accepted k es bs"
proof (induction es arbitrary: h bs)
  case (Cons e es)
  obtain b h1 where st: "reference_step live limit e h = (b, h1)" by fastforce
  obtain bs1 where d: "decisions (reference_step live limit) es h1 = (bs1, h')" and bs: "bs = b # bs1"
    using Cons.prems st by (auto split: prod.splits)
  note IH = Cons.IH [OF d]
  show ?case
    using st IH by (cases e) (auto simp: bs split: if_splits)
qed simp

lemma length_filter_mono: "(\<And>x. P x \<Longrightarrow> Q x) \<Longrightarrow> length (filter P xs) \<le> length (filter Q xs)"
  by (induction xs) auto

locale window_limiter =
  fixes step :: "limiter_event \<Rightarrow> 's \<Rightarrow> bool \<times> 's"
    and entries :: "'s \<Rightarrow> string \<Rightarrow> instant list"
    and live :: "instant \<Rightarrow> instant \<Rightarrow> bool"
    and limit :: int
  assumes accept: "step (Request k now) s = (True, s') \<Longrightarrow>
      int (length (filter (live now) (entries s k))) < limit \<and>
      entries s' = (entries s)(k := filter (live now) (entries s k) @ [now])"
    and refuse: "step (Request k now) s = (False, s') \<Longrightarrow>
      int (length (filter (live now) (entries s k))) \<ge> limit \<and>
      filter (live now) (entries s' q) = filter (live now) (entries s q)"
    and evict: "step (Evict now) s = (b, s') \<Longrightarrow>
      \<not> b \<and> filter (live now) (entries s' q) = filter (live now) (entries s q)"
    and live_antimono: "now \<le> later \<Longrightarrow> live later t \<Longrightarrow> live now t"
begin

text \<open>What is live later is live now, so cleaning up now does not change it.\<close>

lemma filter_live_later: "now \<le> later \<Longrightarrow> filter (live later) (filter (live now) ts) = filter (live later) ts"
  by (induction ts) (auto dest: live_antimono)

text \<open>The reference never has more than the limit in a window.\<close>

definition bounded :: "(string \<Rightarrow> instant list) \<Rightarrow> bool" where
  "bounded h \<longleftrightarrow> (\<forall>k t. int (length (filter (\<lambda>x. x \<le> t \<and> live t x) (h k))) \<le> max 0 limit)"

lemma reference_bounded:
  assumes "bounded h" and "reference_step live limit e h = (b, h')"
  shows "bounded h'"
proof (cases e)
  case (Request k now)
  show ?thesis
  proof (cases "int (length (filter (live now) (h k))) < limit")
    case True
    with assms(2) Request have h': "h' = h(k := h k @ [now])" by simp
    have "int (length (filter (\<lambda>x. x \<le> t \<and> live t x) (h k @ [now]))) \<le> max 0 limit" for t
    proof (cases "now \<le> t")
      case now: True
      have "length (filter (\<lambda>x. x \<le> t \<and> live t x) (h k)) \<le> length (filter (live now) (h k))"
        by (rule length_filter_mono) (auto dest: live_antimono [OF now])
      then show ?thesis using True by simp
    next
      case False
      with assms(1) show ?thesis by (simp add: bounded_def)
    qed
    with assms(1) show ?thesis by (simp add: bounded_def h')
  next
    case False
    with assms Request show ?thesis by simp
  qed
qed (use assms in simp)

lemma run_bounded:
  "decisions (reference_step live limit) es h = (bs, h') \<Longrightarrow> bounded h \<Longrightarrow> bounded h'"
  by (induction es arbitrary: h bs) (auto split: prod.splits dest: reference_bounded)

lemma filter_live_conj: "now \<le> later \<Longrightarrow> filter (\<lambda>x. live now x \<and> live later x) ts = filter (live later) ts"
  using filter_live_later [of now later ts] by simp

definition represents :: "instant \<Rightarrow> 's \<Rightarrow> (string \<Rightarrow> instant list) \<Rightarrow> bool" where
  "represents now s h \<longleftrightarrow> (\<forall>k t. now \<le> t \<longrightarrow> filter (live t) (entries s k) = filter (live t) (h k))"

lemma represents_mono: "represents now s h \<Longrightarrow> now \<le> later \<Longrightarrow> represents later s h"
  by (simp add: represents_def)

lemma represents_same:
  assumes "represents now s h" and "\<And>q. filter (live now) (entries s' q) = filter (live now) (entries s q)"
  shows "represents now s' h"
  unfolding represents_def
proof (intro allI impI)
  fix k t assume t: "now \<le> t"
  have "filter (live t) (entries s' k) = filter (live t) (filter (live now) (entries s' k))"
    using t by (simp only: filter_live_later)
  also have "\<dots> = filter (live t) (entries s k)"
    unfolding assms(2) using t by (simp only: filter_live_later)
  finally show "filter (live t) (entries s' k) = filter (live t) (h k)"
    using assms(1) t by (simp add: represents_def)
qed

lemma step_simulates:
  assumes "represents now s h" and "now = event_time e" and "step e s = (b, s')"
  shows "\<exists>h'. reference_step live limit e h = (b, h') \<and> represents now s' h'"
proof (cases e)
  case (Request k t)
  with assms(2) have e: "e = Request k now" by simp
  have cnt: "filter (live now) (entries s k) = filter (live now) (h k)"
    using assms(1) by (simp add: represents_def)
  show ?thesis
  proof (cases b)
    case True
    with assms(3) e have acc: "step (Request k now) s = (True, s')" by simp
    from accept [OF this] have a: "int (length (filter (live now) (h k))) < limit"
      "entries s' = (entries s)(k := filter (live now) (entries s k) @ [now])"
      by (simp_all add: cnt)
    have "represents now s' (h(k := h k @ [now]))"
      using assms(1) by (auto simp: represents_def a(2) filter_live_conj)
    with a(1) True e show ?thesis by simp
  next
    case False
    with assms(3) e have "step (Request k now) s = (False, s')" by simp
    note R = refuse [OF this]
    have a: "\<not> int (length (filter (live now) (h k))) < limit"
      "\<And>q. filter (live now) (entries s' q) = filter (live now) (entries s q)"
      using conjunct1 [OF R] conjunct2 [OF R] by (simp_all add: cnt not_less)
    with represents_same [OF assms(1) a(2)] False e show ?thesis by simp
  qed
next
  case (Evict t)
  with assms have "step (Evict now) s = (b, s')" by simp
  note E = evict [OF this]
  have "\<not> b" "\<And>q. filter (live now) (entries s' q) = filter (live now) (entries s q)"
    using conjunct1 [OF E] conjunct2 [OF E] by auto
  with represents_same [OF assms(1)] Evict show ?thesis by auto
qed

lemma run_simulates:
  assumes "represents t0 s h" and "sorted (map event_time es)" and "\<forall>e\<in>set es. t0 \<le> event_time e"
    and "decisions step es s = (bs, s')"
  shows "\<exists>h'. decisions (reference_step live limit) es h = (bs, h')"
  using assms
proof (induction es arbitrary: t0 s h bs)
  case (Cons e es)
  obtain b s1 where st: "step e s = (b, s1)" by fastforce
  obtain bs1 where d: "decisions step es s1 = (bs1, s')" and bs: "bs = b # bs1"
    using Cons.prems(4) st by (auto split: prod.splits)
  have "represents (event_time e) s h" using represents_mono Cons.prems(1,3) by auto
  from step_simulates [OF this refl st] obtain h1 where h1: "reference_step live limit e h = (b, h1)"
    "represents (event_time e) s1 h1" by blast
  from Cons.prems(2) have "sorted (map event_time es)" "\<forall>x\<in>set es. event_time e \<le> event_time x"
    by simp_all
  then obtain h' where "decisions (reference_step live limit) es h1 = (bs1, h')"
    using Cons.IH [OF h1(2) _ _ d] by blast
  with h1(1) show ?case by (simp add: bs)
qed simp

end

section \<open>Both limiters keep the contract\<close>

fun http_step :: "int \<Rightarrow> duration \<Rightarrow> limiter_event \<Rightarrow> request_log \<Rightarrow> bool \<times> request_log" where
  "http_step limit window (Request k now) m = http_allow limit window k now m"
| "http_step limit window (Evict now) m = (False, http_evict window now m)"

text \<open>The SMTP limiter has no clean-up of its own.\<close>

fun smtp_step :: "int \<Rightarrow> duration \<Rightarrow> limiter_event \<Rightarrow> request_log \<Rightarrow> bool \<times> request_log" where
  "smtp_step limit window (Request ip now) m = smtp_allow limit window ip now m"
| "smtp_step limit window (Evict now) m = (False, m)"

lemma log_of_upd [simp]: "log_of (m(k \<mapsto> ts)) = (log_of m)(k := ts)"
  by (simp add: log_of_def fun_eq_iff)

lemma log_of_empty [simp]: "log_of Map.empty k = []"
  by (simp add: log_of_def)

lemma log_of_evict: "log_of (http_evict window now m) k = filter (http_live window now) (log_of m k)"
  by (simp add: log_of_def http_evict_def Let_def split: option.split)

interpretation http: window_limiter "http_step limit window" log_of "http_live window" limit
  for limit window
  by unfold_locales
    (auto simp: http_allow_def Let_def http_live_def [abs_def] log_of_evict split: if_splits)

interpretation smtp: window_limiter "smtp_step limit window" log_of "smtp_live window" limit
  for limit window
  by unfold_locales
    (auto simp: smtp_allow_def Let_def smtp_live_def [abs_def] split: if_splits)

text \<open>
  C32. The HTTP rate limiter decides like one that never forgets: in every run of requests and
  clean-ups with a clock that does not go back, each decision is that of the reference with
  the complete history of accepted requests; and for every client key no window
  \<open>[t - window, t]\<close> holds more than \<open>limit\<close> accepted requests.
\<close>

theorem http_limiter_refines:
  assumes "sorted (map event_time es)" and "decisions (http_step limit window) es Map.empty = (bs, m)"
  shows "fst (decisions (reference_step (http_live window) limit) es (\<lambda>k. [])) = bs \<and>
    int (length (filter (\<lambda>x. t - window \<le> x \<and> x \<le> t) (accepted k es bs))) \<le> max 0 limit"
proof -
  define t0 where "t0 = (case es of [] \<Rightarrow> 0 | e # _ \<Rightarrow> event_time e)"
  have t0: "\<forall>e\<in>set es. t0 \<le> event_time e"
    using assms(1) by (cases es) (auto simp: t0_def)
  have "http.represents window t0 Map.empty (\<lambda>k. [])" by (simp add: http.represents_def)
  from http.run_simulates [OF this assms(1) t0 assms(2)]
  obtain h where h: "decisions (reference_step (http_live window) limit) es (\<lambda>k. []) = (bs, h)" by blast
  have "http.bounded window limit (\<lambda>k. [])" by (simp add: http.bounded_def)
  with http.run_bounded [OF h] have "http.bounded window limit h" .
  then have "int (length (filter (\<lambda>x. x \<le> t \<and> http_live window t x) (h k))) \<le> max 0 limit"
    unfolding http.bounded_def by blast
  moreover have "h k = accepted k es bs" using reference_history [OF h, of k] by simp
  moreover have "(\<lambda>x. x \<le> t \<and> http_live window t x) = (\<lambda>x. t - window \<le> x \<and> x \<le> t)"
    by (auto simp: http_live_def fun_eq_iff)
  ultimately show ?thesis using h by simp
qed

theorem http_limiter_refines_witness:
  "fst (decisions (http_step 2 60) [Request ''a'' 0, Request ''a'' 10, Request ''a'' 60, Evict 61, Request ''a'' 61] Map.empty)
     = [True, True, False, False, True] \<and>
   int (length (filter (\<lambda>x. 60 - 60 \<le> x \<and> x \<le> 60)
     (accepted ''a'' [Request ''a'' 0, Request ''a'' 10, Request ''a'' 60, Evict 61, Request ''a'' 61]
        [True, True, False, False, True]))) \<le> 2"
proof -
  let ?es = "[Request ''a'' 0, Request ''a'' 10, Request ''a'' 60, Evict 61, Request ''a'' 61]"
  have s: "sorted (map event_time ?es)" by simp
  have d: "fst (decisions (http_step 2 60) ?es Map.empty) = [True, True, False, False, True]"
    by (simp add: http_allow_def http_live_def log_of_evict)
  then obtain m where "decisions (http_step 2 60) ?es Map.empty = ([True, True, False, False, True], m)"
    by (metis prod.collapse)
  from http_limiter_refines [OF s this, of 60 "''a''"] d show ?thesis by simp
qed

text \<open>The limits of the SMTP limiter hold in the same sense, for half-open windows.\<close>

lemma smtp_limiter_bound:
  assumes "sorted (map event_time es)" and "decisions (smtp_step limit window) es Map.empty = (bs, m)"
  shows "int (length (filter (\<lambda>x. t - window < x \<and> x \<le> t) (accepted k es bs))) \<le> max 0 limit"
proof -
  define t0 where "t0 = (case es of [] \<Rightarrow> 0 | e # _ \<Rightarrow> event_time e)"
  have t0: "\<forall>e\<in>set es. t0 \<le> event_time e"
    using assms(1) by (cases es) (auto simp: t0_def)
  have "smtp.represents window t0 Map.empty (\<lambda>k. [])" by (simp add: smtp.represents_def)
  from smtp.run_simulates [OF this assms(1) t0 assms(2)]
  obtain h where h: "decisions (reference_step (smtp_live window) limit) es (\<lambda>k. []) = (bs, h)" by blast
  have "smtp.bounded window limit (\<lambda>k. [])" by (simp add: smtp.bounded_def)
  with smtp.run_bounded [OF h] have "smtp.bounded window limit h" .
  then have "int (length (filter (\<lambda>x. x \<le> t \<and> smtp_live window t x) (h k))) \<le> max 0 limit"
    unfolding smtp.bounded_def by blast
  moreover have "h k = accepted k es bs" using reference_history [OF h, of k] by simp
  moreover have "(\<lambda>x. x \<le> t \<and> smtp_live window t x) = (\<lambda>x. t - window < x \<and> x \<le> t)"
    by (auto simp: smtp_live_def fun_eq_iff)
  ultimately show ?thesis by simp
qed

text \<open>
  The key of a request without claims is whatever its \<open>X-Forwarded-For\<close> header says, and the
  router runs the limiter before the authentication, so there are never claims.
\<close>

lemma spoofed_key:
  assumes "xff \<noteq> ''''" and "CHR '','' \<notin> set xff" and "trim_space xff = xff"
  shows "extract_client_key None remote xff = ''ip:'' @ xff"
proof -
  have "split_by (\<lambda>c. c = CHR '','') s = [s]" if "CHR '','' \<notin> set s" for s
    using that by (induction s) auto
  with assms show ?thesis by (simp add: extract_client_key_def str_split_def)
qed

end
