(* ===== verification/Http_Access.thy ===== *)
theory Http_Access
  imports Tokens Identity_Props Rate_Limits
begin

text \<open>
  Who may do what over HTTP: the authentication, role and ownership middlewares of
  \<open>internal/api/middleware\<close>, the routes of \<open>internal/api/router.go\<close> with the middlewares each
  one passes, and the handlers of \<open>internal/api/handler/auth.go\<close>. Matching a path to a
  pattern is the router library's work, so a request comes with the route it matched and the
  value of its \<open>{email}\<close> parameter. A response is its status and error code.
\<close>

section \<open>Middlewares\<close>

datatype 'a outcome = Refused nat string | Passed 'a

definition respond_unauthorized :: "'a outcome" where
  "respond_unauthorized = Refused 401 ''AUTH_UNAUTHORIZED''"

definition respond_forbidden :: "'a outcome" where
  "respond_forbidden = Refused 403 ''FORBIDDEN''"

definition respond_unsupported :: "'a outcome" where
  "respond_unsupported = Refused 415 ''VALIDATION_ERROR''"

definition mw_authenticate :: "digest \<Rightarrow> instant \<Rightarrow> string \<Rightarrow> db \<Rightarrow> claims outcome \<times> db" where
  "mw_authenticate sha now auth_header db =
     (if auth_header = '''' \<or> \<not> has_prefix (to_lower auth_header) ''bearer '' then (respond_unauthorized, db)
      else (case validate_access_token sha now (trim_space (drop 7 auth_header)) db of
          (Inl err, db1) \<Rightarrow> (respond_unauthorized, db1)
        | (Inr cl, db1) \<Rightarrow> (Passed cl, db1)))"

definition require_role :: "string list \<Rightarrow> claims \<Rightarrow> unit outcome" where
  "require_role allowed cl =
     (let user_role = to_lower (cl_role cl)
      in if user_role = ''admin'' then Passed ()
         else if \<not> list_ex (\<lambda>role. equal_fold user_role role) allowed then respond_forbidden
         else Passed ())"

definition require_mailbox_ownership :: "string \<Rightarrow> claims \<Rightarrow> unit outcome" where
  "require_mailbox_ownership target cl =
     (let user_role = to_lower (cl_role cl)
      in if user_role = ''admin'' \<or> user_role = ''operator'' \<or> user_role = ''auditor'' then Passed ()
         else if target \<noteq> '''' \<and> \<not> equal_fold (cl_email cl) target then respond_forbidden
         else Passed ())"

text \<open>The content type is checked only when a body of known length is announced.\<close>

definition body_limit :: "string \<Rightarrow> int \<Rightarrow> string \<Rightarrow> unit outcome" where
  "body_limit meth content_length ct =
     (if meth = ''POST'' \<or> meth = ''PUT'' \<or> meth = ''PATCH'' then
        (if content_length > 0 \<and> ct \<noteq> '''' \<and> \<not> has_prefix (to_lower ct) ''application/json''
         then respond_unsupported else Passed ())
      else Passed ())"

section \<open>Routes\<close>

record route =
  rt_method :: string
  rt_pattern :: string
  rt_roles :: "string list option"
  rt_owner :: bool

definition role_route :: "string \<Rightarrow> string \<Rightarrow> string list \<Rightarrow> route" where
  "role_route m p rs = \<lparr>rt_method = m, rt_pattern = p, rt_roles = Some rs, rt_owner = False\<rparr>"

definition owner_route :: "string \<Rightarrow> string \<Rightarrow> string list \<Rightarrow> route" where
  "owner_route m p rs = \<lparr>rt_method = m, rt_pattern = p, rt_roles = Some rs, rt_owner = True\<rparr>"

definition open_route :: "string \<Rightarrow> string \<Rightarrow> route" where
  "open_route m p = \<lparr>rt_method = m, rt_pattern = p, rt_roles = None, rt_owner = False\<rparr>"

abbreviation staff :: "string list" where
  "staff \<equiv> [''admin'', ''operator'', ''auditor'']"

abbreviation managers :: "string list" where
  "managers \<equiv> [''admin'', ''operator'']"

abbreviation everyone :: "string list" where
  "everyone \<equiv> [''admin'', ''operator'', ''auditor'', ''user'']"

definition auth_routes :: "route list" where
  "auth_routes = [open_route ''POST'' ''/api/v1/auth/logout'', open_route ''GET'' ''/api/v1/auth/me'']"

definition domain_routes :: "route list" where
  "domain_routes =
     [role_route ''GET'' ''/api/v1/domains/'' staff,
      role_route ''POST'' ''/api/v1/domains/'' [''admin''],
      role_route ''GET'' ''/api/v1/domains/{domain}'' staff,
      role_route ''DELETE'' ''/api/v1/domains/{domain}'' [''admin''],
      role_route ''GET'' ''/api/v1/domains/{domain}/doctor'' staff,
      role_route ''GET'' ''/api/v1/domains/{domain}/dns'' staff,
      role_route ''GET'' ''/api/v1/domains/{domain}/dkim'' staff,
      role_route ''POST'' ''/api/v1/domains/{domain}/dkim'' managers,
      role_route ''POST'' ''/api/v1/domains/{domain}/dkim/{selector}/verify'' managers,
      role_route ''POST'' ''/api/v1/domains/{domain}/dkim/{selector}/activate'' managers,
      role_route ''POST'' ''/api/v1/domains/{domain}/dkim/{selector}/revoke'' [''admin''],
      role_route ''GET'' ''/api/v1/domains/{domain}/smtp-keys'' staff,
      role_route ''POST'' ''/api/v1/domains/{domain}/smtp-keys'' managers,
      role_route ''POST'' ''/api/v1/domains/{domain}/smtp-keys/{keyID}/revoke'' managers,
      role_route ''GET'' ''/api/v1/domains/{domain}/tls'' staff,
      role_route ''POST'' ''/api/v1/domains/{domain}/tls'' [''admin''],
      role_route ''GET'' ''/api/v1/domains/{domain}/policy'' staff,
      role_route ''PUT'' ''/api/v1/domains/{domain}/policy'' managers]"

definition mailbox_routes :: "route list" where
  "mailbox_routes =
     [role_route ''GET'' ''/api/v1/mailboxes/'' staff,
      role_route ''POST'' ''/api/v1/mailboxes/'' managers,
      owner_route ''GET'' ''/api/v1/mailboxes/{email}'' everyone,
      role_route ''DELETE'' ''/api/v1/mailboxes/{email}'' [''admin''],
      role_route ''POST'' ''/api/v1/mailboxes/{email}/suspend'' managers,
      role_route ''POST'' ''/api/v1/mailboxes/{email}/resume'' managers,
      role_route ''POST'' ''/api/v1/mailboxes/{email}/provision'' managers,
      owner_route ''POST'' ''/api/v1/mailboxes/{email}/password'' [''admin'', ''operator'', ''user''],
      owner_route ''GET'' ''/api/v1/mailboxes/{email}/aliases'' everyone,
      role_route ''POST'' ''/api/v1/mailboxes/{email}/aliases'' managers,
      role_route ''DELETE'' ''/api/v1/mailboxes/{email}/aliases/{alias}'' managers,
      owner_route ''GET'' ''/api/v1/mailboxes/{email}/quota'' everyone,
      role_route ''PUT'' ''/api/v1/mailboxes/{email}/quota'' managers,
      role_route ''POST'' ''/api/v1/mailboxes/{email}/quota/reconcile'' managers]"

definition system_routes :: "route list" where
  "system_routes =
     [role_route ''GET'' ''/api/v1/identity/providers'' staff,
      role_route ''GET'' ''/api/v1/ldap/status'' staff,
      role_route ''POST'' ''/api/v1/ldap/doctor'' staff,
      role_route ''POST'' ''/api/v1/ldap/sync'' [''admin''],
      role_route ''GET'' ''/api/v1/queue/'' staff,
      role_route ''GET'' ''/api/v1/queue/{id}'' staff,
      role_route ''POST'' ''/api/v1/queue/{id}/retry'' managers,
      role_route ''POST'' ''/api/v1/queue/{id}/hold'' managers,
      role_route ''POST'' ''/api/v1/queue/{id}/release'' managers,
      role_route ''DELETE'' ''/api/v1/queue/{id}'' [''admin''],
      role_route ''POST'' ''/api/v1/queue/flush'' [''admin''],
      role_route ''GET'' ''/api/v1/audit'' [''admin'', ''auditor''],
      role_route ''GET'' ''/api/v1/config/'' staff,
      role_route ''PUT'' ''/api/v1/config/'' [''admin''],
      role_route ''GET'' ''/api/v1/system/status'' staff,
      role_route ''GET'' ''/api/v1/system/doctor'' staff]"

definition webmail_routes :: "route list" where
  "webmail_routes =
     [role_route ''GET'' ''/api/v1/webmail/folders'' everyone,
      role_route ''GET'' ''/api/v1/webmail/messages'' everyone,
      role_route ''GET'' ''/api/v1/webmail/messages/{id}'' everyone,
      role_route ''POST'' ''/api/v1/webmail/send'' [''admin'', ''operator'', ''user''],
      role_route ''PUT'' ''/api/v1/webmail/messages/{id}/read'' [''admin'', ''operator'', ''user''],
      role_route ''POST'' ''/api/v1/webmail/messages/{id}/move'' [''admin'', ''operator'', ''user''],
      role_route ''DELETE'' ''/api/v1/webmail/messages/{id}'' [''admin'', ''operator'', ''user''],
      role_route ''GET'' ''/api/v1/webmail/messages/{id}/attachments/{attId}'' everyone]"

text \<open>The authenticated scope; the webmail exists when its service does.\<close>

definition api_routes :: "bool \<Rightarrow> route list" where
  "api_routes webmail =
     auth_routes @ domain_routes @ mailbox_routes @ system_routes @ (if webmail then webmail_routes else [])"

text \<open>The chain of middlewares of a route, with the claims its handler sees.\<close>

definition pass_route :: "route \<Rightarrow> string \<Rightarrow> claims \<Rightarrow> unit outcome" where
  "pass_route rt email_param cl =
     (case rt_roles rt of
        None \<Rightarrow> Passed ()
      | Some allowed \<Rightarrow>
          (case require_role allowed cl of
             Refused c s \<Rightarrow> Refused c s
           | Passed u \<Rightarrow> if rt_owner rt then require_mailbox_ownership email_param cl else Passed ()))"

definition authorize :: "digest \<Rightarrow> instant \<Rightarrow> route \<Rightarrow> string \<Rightarrow> string \<Rightarrow> db \<Rightarrow> claims outcome \<times> db" where
  "authorize sha now rt auth_header email_param db =
     (case mw_authenticate sha now auth_header db of
        (Refused c s, db1) \<Rightarrow> (Refused c s, db1)
      | (Passed cl, db1) \<Rightarrow>
          (case pass_route rt email_param cl of
             Refused c s \<Rightarrow> (Refused c s, db1)
           | Passed u \<Rightarrow> (Passed cl, db1)))"

section \<open>Handlers\<close>

text \<open>\<open>Login\<close>: the first role of the identity becomes the role of the token.\<close>

definition http_login ::
    "'k identity_service \<Rightarrow> digest \<Rightarrow> token_draws \<Rightarrow> instant \<Rightarrow> string \<Rightarrow> string \<Rightarrow> db \<Rightarrow> 'k \<Rightarrow>
       (token_pair \<times> identity) outcome \<times> db \<times> 'k" where
  "http_login svc sha dr now username password db k =
     (if username = '''' \<or> password = '''' then (Refused 400 ''VALIDATION_ERROR'', db, k)
      else (case id_authenticate svc username password db k of
          (Inl err, db1, k1) \<Rightarrow> (Refused 401 ''AUTH_INVALID_CREDENTIALS'', db1, k1)
        | (Inr ident, db1, k1) \<Rightarrow>
            let role = (case id_roles ident of [] \<Rightarrow> ''user'' | r # _ \<Rightarrow> r)
            in (case issue_token_pair sha dr now None (id_email ident) role db1 of
                  (Inl err, db2) \<Rightarrow> (Refused 500 ''INTERNAL_ERROR'', db2, k1)
                | (Inr p, db2) \<Rightarrow> (Passed (p, ident), db2, k1))))"

definition http_refresh :: "digest \<Rightarrow> token_draws \<Rightarrow> instant \<Rightarrow> string \<Rightarrow> db \<Rightarrow> token_pair outcome \<times> db" where
  "http_refresh sha dr now raw db =
     (if raw = '''' then (Refused 400 ''VALIDATION_ERROR'', db)
      else (case refresh_tokens sha dr now raw db of
          (Inl err, db1) \<Rightarrow> (respond_unauthorized, db1)
        | (Inr p, db1) \<Rightarrow> (Passed p, db1)))"

definition http_logout :: "digest \<Rightarrow> instant \<Rightarrow> string \<Rightarrow> claims \<Rightarrow> db \<Rightarrow> db" where
  "http_logout sha now raw cl db =
     (let db1 = (if raw \<noteq> '''' then snd (revoke_token sha now raw db) else db)
      in snd (revoke_all_for_email now (cl_email cl) db1))"

section \<open>Who passes\<close>

lemma equal_fold_lower [simp]: "equal_fold (to_lower a) b = equal_fold a b"
  by (simp add: equal_fold_def)

text \<open>The roles of the routes are written in lower case.\<close>

definition lower_roles :: "route \<Rightarrow> bool" where
  "lower_roles rt \<longleftrightarrow> (\<forall>r\<in>set (case rt_roles rt of None \<Rightarrow> [] | Some rs \<Rightarrow> rs). to_lower r = r)"

lemma list_all_in: "list_all P xs \<Longrightarrow> x \<in> set xs \<Longrightarrow> P x"
  by (simp add: list_all_iff)

lemma api_routes_lower: "rt \<in> set (api_routes b) \<Longrightarrow> lower_roles rt"
proof -
  have low: "to_lower ''admin'' = ''admin''" "to_lower ''operator'' = ''operator''"
    "to_lower ''auditor'' = ''auditor''" "to_lower ''user'' = ''user''" by code_simp+
  have "list_all lower_roles (api_routes True)"
    by (simp add: api_routes_def auth_routes_def domain_routes_def mailbox_routes_def system_routes_def
        webmail_routes_def role_route_def owner_route_def open_route_def lower_roles_def low)
  moreover assume "rt \<in> set (api_routes b)"
  ultimately show "lower_roles rt"
    by (auto simp: api_routes_def list_all_iff split: if_splits)
qed

lemma pass_route_roles:
  assumes "pass_route rt param cl = Passed ()" and "lower_roles rt" and "rt_roles rt = Some rs"
  shows "to_lower (cl_role cl) = ''admin'' \<or> to_lower (cl_role cl) \<in> set rs"
  using assms
  by (auto simp: pass_route_def require_role_def respond_forbidden_def Let_def list_ex_iff lower_roles_def
      equal_fold_def split: if_splits outcome.splits)

lemma pass_route_owner:
  assumes "pass_route rt param cl = Passed ()" and "rt_roles rt = Some rs" and "rt_owner rt"
  shows "to_lower (cl_role cl) \<in> set staff \<or> param = '''' \<or> equal_fold (cl_email cl) param"
  using assms
  by (auto simp: pass_route_def require_mailbox_ownership_def respond_forbidden_def Let_def
      split: if_splits outcome.splits)

text \<open>What the table of routes says, route by route.\<close>

definition webmail_route :: "route \<Rightarrow> bool" where
  "webmail_route rt \<longleftrightarrow> has_prefix (rt_pattern rt) ''/api/v1/webmail/''"

definition own_mailbox_route :: "route \<Rightarrow> bool" where
  "own_mailbox_route rt \<longleftrightarrow>
     rt_owner rt \<and> has_prefix (rt_pattern rt) ''/api/v1/mailboxes/{email}'' \<and>
     (rt_method rt = ''GET'' \<or> rt_pattern rt = ''/api/v1/mailboxes/{email}/password'')"

definition alias_route :: "route \<Rightarrow> bool" where
  "alias_route rt \<longleftrightarrow> rt_pattern rt = ''/api/v1/mailboxes/{email}/aliases/{alias}''"

definition reads_only :: "route \<Rightarrow> bool" where
  "reads_only rt \<longleftrightarrow> rt_method rt = ''GET'' \<or> rt_pattern rt = ''/api/v1/ldap/doctor''"

definition grant_of :: "route \<Rightarrow> string \<Rightarrow> bool" where
  "grant_of rt r \<longleftrightarrow>
     (r \<in> {''admin'', ''operator'', ''auditor''} \<or> webmail_route rt \<or> own_mailbox_route rt) \<and>
     (r = ''auditor'' \<longrightarrow> reads_only rt) \<and>
     (rt_method rt = ''DELETE'' \<longrightarrow> r = ''admin'' \<or> alias_route rt \<or> webmail_route rt) \<and>
     (rt_pattern rt = ''/api/v1/audit'' \<longrightarrow> r \<in> {''admin'', ''auditor''})"

definition own_session :: "route \<Rightarrow> bool" where
  "own_session rt \<longleftrightarrow>
     rt_method rt = ''POST'' \<and> rt_pattern rt = ''/api/v1/auth/logout'' \<or>
     rt_method rt = ''GET'' \<and> rt_pattern rt = ''/api/v1/auth/me''"

definition route_table_entry :: "route \<Rightarrow> bool" where
  "route_table_entry rt =
     (case rt_roles rt of None \<Rightarrow> own_session rt | Some rs \<Rightarrow> list_all (grant_of rt) rs)"

lemma api_route_entry: "rt \<in> set (api_routes b) \<Longrightarrow> route_table_entry rt"
proof -
  have "list_all route_table_entry (api_routes True)"
    by code_simp
  moreover assume "rt \<in> set (api_routes b)"
  ultimately show "route_table_entry rt"
    by (auto simp: api_routes_def list_all_iff split: if_splits)
qed

lemma own_session_facts:
  "own_session rt \<Longrightarrow> rt_method rt \<noteq> ''DELETE'' \<and> rt_pattern rt \<noteq> ''/api/v1/audit''"
  by (auto simp: own_session_def)

text \<open>Whoever passes is in his own session, an admin, or of a role the route was granted to.\<close>

lemma passed_role_cases:
  assumes "rt \<in> set (api_routes b)" and "pass_route rt param cl = Passed ()"
  obtains "own_session rt" | "to_lower (cl_role cl) = ''admin''"
    | "grant_of rt (to_lower (cl_role cl))"
      and "rt_owner rt \<Longrightarrow> to_lower (cl_role cl) \<in> {''admin'', ''operator'', ''auditor''} \<or>
             param = '''' \<or> equal_fold (cl_email cl) param"
proof (cases "rt_roles rt")
  case None
  with api_route_entry [OF assms(1)] that(1) show thesis by (simp add: route_table_entry_def)
next
  case (Some rs)
  from pass_route_roles [OF assms(2) api_routes_lower [OF assms(1)] Some] show thesis
  proof
    assume "to_lower (cl_role cl) \<in> set rs"
    with api_route_entry [OF assms(1)] Some have "grant_of rt (to_lower (cl_role cl))"
      by (simp add: route_table_entry_def list_all_iff)
    moreover have "rt_owner rt \<Longrightarrow> to_lower (cl_role cl) \<in> {''admin'', ''operator'', ''auditor''} \<or>
        param = '''' \<or> equal_fold (cl_email cl) param"
      using pass_route_owner [OF assms(2) Some] by simp
    ultimately show thesis by (rule that(3))
  qed (rule that(2))
qed

lemma authorize_Passed:
  assumes "authorize sha now rt hdr param db = (Passed cl, db')"
  obtains t where "pass_route rt param cl = Passed ()"
    and "t \<in> set (api_tokens db)" and "tok_hash t = hash_token sha (trim_space (drop 7 hdr))"
    and "tok_type t = ''access''" and "tok_revoked_at t = None" and "now \<le> tok_expires_at t"
    and "cl_email cl = tok_email t" and "cl_role cl = tok_role t"
proof -
  obtain r db1 where v: "validate_access_token sha now (trim_space (drop 7 hdr)) db = (r, db1)" by fastforce
  from assms v have r: "r = Inr cl" "pass_route rt param cl = Passed ()"
    by (auto simp: authorize_def mw_authenticate_def respond_unauthorized_def
        split: if_splits sum.splits outcome.splits prod.splits)
  from v r(1) have "fst (validate_access_token sha now (trim_space (drop 7 hdr)) db) = Inr cl" by simp
  then obtain t where "token_of (hash_token sha (trim_space (drop 7 hdr))) db = Some t"
    "tok_type t = ''access''" "tok_revoked_at t = None" "now \<le> tok_expires_at t"
    "cl_email cl = tok_email t" "cl_role cl = tok_role t"
    by (auto simp: validate_answer split: if_splits option.splits)
  with r(2) show thesis
    by (intro that [of t]) (auto simp: token_of_def dest: find_SomeD)
qed

section \<open>The policy of the interface\<close>

text \<open>
  C33. Whoever passes an authenticated route holds the access token of the request: a row
  of that hash exists that is an access token, not revoked and not expired, and the claims
  are its address and role. Without a role of the staff only logout, the own profile, the
  webmail and the own mailbox are within reach, the mailbox for reading and for the change
  of the password; an auditor changes nothing outside his session; whatever is deleted apart
  from aliases and messages is deleted by an admin; the audit log is shown to admins and
  auditors only.
\<close>

theorem access_policy:
  assumes "rt \<in> set (api_routes webmail)"
    and "authorize sha now rt hdr param db = (Passed cl, db')"
  shows "(\<exists>t\<in>set (api_tokens db). tok_hash t = hash_token sha (trim_space (drop 7 hdr)) \<and>
       tok_type t = ''access'' \<and> tok_revoked_at t = None \<and> now \<le> tok_expires_at t \<and>
       cl_email cl = tok_email t \<and> cl_role cl = tok_role t) \<and>
    (to_lower (cl_role cl) \<notin> {''admin'', ''operator'', ''auditor''} \<longrightarrow>
       own_session rt \<or> webmail_route rt \<or>
       own_mailbox_route rt \<and> (param = '''' \<or> equal_fold (cl_email cl) param)) \<and>
    (to_lower (cl_role cl) = ''auditor'' \<longrightarrow> reads_only rt \<or> own_session rt) \<and>
    (rt_method rt = ''DELETE'' \<longrightarrow>
       to_lower (cl_role cl) = ''admin'' \<or> alias_route rt \<or> webmail_route rt) \<and>
    (rt_pattern rt = ''/api/v1/audit'' \<longrightarrow> to_lower (cl_role cl) \<in> {''admin'', ''auditor''})"
proof -
  from assms(2) obtain t where p: "pass_route rt param cl = Passed ()"
    and t: "t \<in> set (api_tokens db)" "tok_hash t = hash_token sha (trim_space (drop 7 hdr))"
      "tok_type t = ''access''" "tok_revoked_at t = None" "now \<le> tok_expires_at t"
      "cl_email cl = tok_email t" "cl_role cl = tok_role t"
    by (rule authorize_Passed)
  have ne: "''admin'' \<noteq> ''auditor''" by simp
  from passed_role_cases [OF assms(1) p]
  have "(to_lower (cl_role cl) \<notin> {''admin'', ''operator'', ''auditor''} \<longrightarrow>
       own_session rt \<or> webmail_route rt \<or>
       own_mailbox_route rt \<and> (param = '''' \<or> equal_fold (cl_email cl) param)) \<and>
    (to_lower (cl_role cl) = ''auditor'' \<longrightarrow> reads_only rt \<or> own_session rt) \<and>
    (rt_method rt = ''DELETE'' \<longrightarrow>
       to_lower (cl_role cl) = ''admin'' \<or> alias_route rt \<or> webmail_route rt) \<and>
    (rt_pattern rt = ''/api/v1/audit'' \<longrightarrow> to_lower (cl_role cl) \<in> {''admin'', ''auditor''})"
  proof cases
    case 1
    with own_session_facts [OF 1] show ?thesis by simp
  next
    case 2
    then show ?thesis using ne by simp
  next
    case 3
    then show ?thesis
      unfolding grant_of_def own_mailbox_route_def by argo
  qed
  moreover have "\<exists>t\<in>set (api_tokens db). tok_hash t = hash_token sha (trim_space (drop 7 hdr)) \<and>
       tok_type t = ''access'' \<and> tok_revoked_at t = None \<and> now \<le> tok_expires_at t \<and>
       cl_email cl = tok_email t \<and> cl_role cl = tok_role t"
    using t by (intro bexI [of _ t] conjI)
  ultimately show ?thesis by (intro conjI) (elim conjE, assumption)+
qed

definition password_route :: route where
  "password_route = owner_route ''POST'' ''/api/v1/mailboxes/{email}/password'' [''admin'', ''operator'', ''user'']"

theorem access_policy_witness:
  "\<exists>cl db'. authorize id 7 password_route ''Bearer mo_at_00'' ''User@example.org''
       (example_token_db ''mo_at_00'' ''access'') = (Passed cl, db') \<and> own_mailbox_route password_route \<and>
     equal_fold (cl_email cl) ''User@example.org''"
proof -
  define db where "db = example_token_db ''mo_at_00'' ''access''"
  define cl where "cl = \<lparr>cl_token_id = 1, cl_user_id = None, cl_email = ''user@example.org'', cl_role = ''user''\<rparr>"
  have b: "trim_space (drop 7 ''Bearer mo_at_00'') = ''mo_at_00''"
    "has_prefix (to_lower ''Bearer mo_at_00'') ''bearer ''" by code_simp+
  have t: "token_of (hash_token id ''mo_at_00'') db = Some (example_token ''mo_at_00'' ''access'')"
    by (simp add: token_of_def db_def example_token_db_def example_token_def)
  have v: "fst (validate_access_token id 7 ''mo_at_00'' db) = Inr cl"
    by (simp add: validate_answer t)
      (simp add: example_token_def cl_def refresh_token_ttl_def db_def example_token_db_def empty_db_def)
  have pass: "pass_route password_route ''User@example.org'' cl = Passed ()"
    unfolding cl_def by code_simp
  obtain db' where a: "authorize id 7 password_route ''Bearer mo_at_00'' ''User@example.org'' db = (Passed cl, db')"
    using v b pass by (cases "validate_access_token id 7 ''mo_at_00'' db") (simp add: authorize_def mw_authenticate_def)
  have r: "password_route \<in> set (api_routes True)"
    by (simp add: api_routes_def mailbox_routes_def password_route_def)
  have nr: "to_lower (cl_role cl) \<notin> {''admin'', ''operator'', ''auditor''}"
    "\<not> own_session password_route" "\<not> webmail_route password_route"
    unfolding cl_def by code_simp+
  from access_policy [OF r a] nr have "own_mailbox_route password_route \<and>
      (''User@example.org'' = '''' \<or> equal_fold (cl_email cl) ''User@example.org'')"
    by argo
  then have "own_mailbox_route password_route" "equal_fold (cl_email cl) ''User@example.org''"
    by simp_all
  with a show ?thesis unfolding db_def by (intro exI conjI)
qed

end
