(* ===== verification/Http_Sessions.thy ===== *)
theory Http_Sessions
  imports Http_Access
begin

text \<open>
  Logins, sessions and logouts over HTTP: how the identity service, the token manager and the
  middleware compose. A login opens a session of fifteen minutes for the address of the
  identity, whose mailbox was open; a logout ends every session of the account for good.
\<close>

section \<open>Without faults a login reads only\<close>

lemma assigned_provider_reads:
  "faults db = [] \<Longrightarrow> assigned_provider svc e db = (r, db1) \<Longrightarrow> db1 = db"
  by (auto simp: assigned_provider_def sql_simps split: if_splits option.splits)

lemma local_authenticate_reads:
  "faults db = [] \<Longrightarrow> local_authenticate kdf u pw db = (r, db1) \<Longrightarrow> db1 = db"
  by (auto simp: local_authenticate_def sql_simps Let_def
      split: if_splits option.splits sum.splits err.splits)

lemma mail_providers_read:
  assumes "faults db = []" and "mail_providers kdf now rnd cfg cl n = Some p"
    and "ip_authenticate p u pw db k = (r, db1, k1)"
  shows "db1 = db"
  using assms(2,3) unfolding mail_providers_Some
  by (auto simp: local_provider_def ldap_provider_def Let_def split: prod.splits
      dest: local_authenticate_reads [OF assms(1)])

lemma mail_access_reads: "faults db = [] \<Longrightarrow> mail_access i db = (r, db1) \<Longrightarrow> db1 = db"
  by (auto simp: mail_access_def sql_simps split: if_splits option.splits)

lemma login_reads_and_opens:
  assumes "faults db = []" and "is_mailboxes svc"
    and "is_providers svc = mail_providers kdf now rnd cfg cl"
    and "id_authenticate svc u pw db k = (Inr ident, db', k')"
  shows "db' = db \<and> opens (id_email ident) db"
proof -
  from assms(4) obtain name db1 p ident0 db2 k1 where
    a: "assigned_provider svc (canon u) db = (Inr name, db1)"
    and p: "get_provider svc name = Inr p"
    and b: "ip_authenticate p (canon u) pw db1 k = (Inr ident0, db2, k1)"
    and g: "(if is_mailboxes svc \<and> ip_name p \<noteq> ''local''
          then (let (r, db3) = mail_access ident0 db2 in (r, db3, k1))
          else (Inr ident0, db2, k1)) = (Inr ident, db', k')"
    by (rule id_authenticate_Inr)
  have p': "mail_providers kdf now rnd cfg cl (if name = '''' then is_default svc else name) = Some p"
    using p unfolding get_provider_def assms(3) by (auto simp: Let_def split: option.splits)
  have r1: "db1 = db" by (rule assigned_provider_reads [OF assms(1) a])
  have r2: "db2 = db" using mail_providers_read [OF _ p' b] assms(1) r1 by simp
  have "db' = db" using g r2 mail_access_reads [OF assms(1)]
    by (auto split: if_splits prod.splits)
  moreover have "provider_laws p"
    using p' local.provider_laws_axioms ldap.provider_laws_axioms by (auto simp: mail_providers_Some)
  ultimately show ?thesis
    using provider_laws.guarded_open [OF _ assms(2) b g] r1 by simp
qed

section \<open>The header of a request\<close>

definition bearer :: "string \<Rightarrow> string" where
  "bearer raw = ''Bearer '' @ raw"

lemma hex_digit_not_space: "d < 16 \<Longrightarrow> \<not> is_space (hex_digit d)"
  by (simp add: hex_digit_def is_space_def byte_def)

lemma hex_encode_no_space: "c \<in> set (hex_encode s) \<Longrightarrow> \<not> is_space c"
proof -
  have "byte y div 16 < 16" for y by (rule less_mult_imp_div_less) simp
  then show "c \<in> set (hex_encode s) \<Longrightarrow> \<not> is_space c"
    by (auto simp: hex_encode_def hex_digit_not_space)
qed

lemma trim_space_no_space:
  assumes "\<And>c. c \<in> set s \<Longrightarrow> \<not> is_space c"
  shows "trim_space s = s"
proof -
  have "trim_left is_space s = s" by (rule trim_left_Cons_id) (use assms in \<open>cases s; auto\<close>)
  moreover have "trim_right is_space s = s" by (rule trim_right_id) (use assms in \<open>cases s rule: rev_cases; auto\<close>)
  ultimately show ?thesis by (simp add: trim_space_def)
qed

lemma trim_space_token [simp]:
  "trim_space (access_of b) = access_of b" "trim_space (refresh_of b) = refresh_of b"
proof -
  have p: "list_all (\<lambda>c. \<not> is_space c) ''mo_at_''" "list_all (\<lambda>c. \<not> is_space c) ''mo_rt_''"
    by code_simp+
  show "trim_space (access_of b) = access_of b" "trim_space (refresh_of b) = refresh_of b"
    by (rule trim_space_no_space; use p hex_encode_no_space in \<open>auto simp: access_of_def refresh_of_def list_all_iff\<close>)+
qed

lemma bearer_prefix: "has_prefix (to_lower (bearer raw)) ''bearer ''" "bearer raw \<noteq> ''''" "drop 7 (bearer raw) = raw"
proof -
  have "to_lower ''Bearer '' = ''bearer ''" by code_simp
  then show "has_prefix (to_lower (bearer raw)) ''bearer ''"
    unfolding bearer_def to_lower_append by (simp only: has_prefix_append)
qed (simp_all add: bearer_def)

lemma mw_authenticate_bearer:
  assumes "trim_space raw = raw"
  shows "fst (mw_authenticate sha now (bearer raw) db) =
    (case fst (validate_access_token sha now raw db) of Inl err \<Rightarrow> respond_unauthorized | Inr cl \<Rightarrow> Passed cl)"
  using bearer_prefix [of raw] assms
  by (cases "validate_access_token sha now raw db") (simp add: mw_authenticate_def split: sum.splits)

lemma http_refresh_answer:
  "raw \<noteq> '''' \<Longrightarrow> fst (http_refresh sha dr now raw db) =
    (case fst (refresh_tokens sha dr now raw db) of Inl err \<Rightarrow> respond_unauthorized | Inr p \<Rightarrow> Passed p)"
  by (cases "refresh_tokens sha dr now raw db") (simp add: http_refresh_def split: sum.splits)

section \<open>Logout\<close>

lemma http_logout_run: "token_run db (http_logout sha now raw cl db)"
  unfolding http_logout_def Let_def revoke_all_for_email_def
  by (rule rtranclp_trans [OF _ token_run_step [OF stmt_revoke_email]]) (simp add: revoke_run)

lemma http_logout_dead:
  assumes "faults db = []" and "x \<in> set (api_tokens db)" and "tok_email x = cl_email cl"
  shows "dead_token (tok_hash x) (http_logout sha now raw cl db)"
proof -
  define db1 where "db1 = (if raw \<noteq> '''' then snd (revoke_token sha now raw db) else db)"
  have f: "faults db1 = []"
    using assms(1) by (simp add: db1_def revoke_token_def revoke_by_hash_ok)
  have "tokens_kept db db1"
    unfolding db1_def by (simp add: token_run_kept revoke_run tokens_kept_subset)
  then obtain y where y: "y \<in> set (api_tokens db1)" "token_kept x y"
    using assms(2) by (rule tokens_keptE)
  then have e: "tok_email y = cl_email cl" "tok_hash y = tok_hash x"
    using assms(3) by (simp_all add: token_kept_def)
  have "revoke_email now (tok_email y) db1 = (Inr (), snd (revoke_email now (tok_email y) db1))"
    using f by (simp add: revoke_email_def token_update_eq)
  from revoke_email_dead_hash [OF this y(1)] show ?thesis
    by (simp add: http_logout_def revoke_all_for_email_def e flip: db1_def)
qed

text \<open>
  The handler answers 200 whatever became of the statements: with a failing database the
  session survives its logout.
\<close>

lemma http_logout_fault:
  assumes "fails db" and "token_of h db = Some x"
  shows "token_of h (http_logout sha now '''' cl db) = Some x"
  using assms by (simp add: http_logout_def revoke_all_for_email_def revoke_email_def token_update_eq token_of_def)

text \<open>
  A refresh asks the table of tokens only: what became of the mailbox since the login does
  not matter to it.
\<close>

definition with_mailboxes :: "mailbox list \<Rightarrow> 'a \<times> db \<Rightarrow> 'a \<times> db" where
  "with_mailboxes ms = apsnd (\<lambda>db. db\<lparr>mailboxes := ms\<rparr>)"

lemma with_mailboxes_Pair [simp]: "with_mailboxes ms (r, db) = (r, db\<lparr>mailboxes := ms\<rparr>)"
  by (simp add: with_mailboxes_def)

lemma snd_with_mailboxes [simp]: "snd (with_mailboxes ms x) = (snd x)\<lparr>mailboxes := ms\<rparr>"
  by (cases x) simp

lemma tick_mailboxes: "tick (db\<lparr>mailboxes := ms\<rparr>) = (tick db)\<lparr>mailboxes := ms\<rparr>" "fails (db\<lparr>mailboxes := ms\<rparr>) = fails db"
  by (simp_all add: tick_def fails_def)

lemma token_store_mailboxes:
  "token_store newid now t (db\<lparr>mailboxes := ms\<rparr>) = with_mailboxes ms (token_store newid now t db)"
  by (simp add: token_store_def sql_simps Let_def tick_mailboxes token_constraints_def split: option.splits)

lemma token_update_mailboxes:
  "token_update P f (db\<lparr>mailboxes := ms\<rparr>) = with_mailboxes ms (token_update P f db)"
  by (simp add: token_update_eq tick_mailboxes)

lemma token_get_mailboxes:
  "token_get_by_hash h (db\<lparr>mailboxes := ms\<rparr>) = with_mailboxes ms (token_get_by_hash h db)"
  by (simp add: token_get_by_hash_eq tick_mailboxes)

lemma issue_mailboxes:
  "issue_token_pair sha dr now uid email role (db\<lparr>mailboxes := ms\<rparr>) =
     with_mailboxes ms (issue_token_pair sha dr now uid email role db)"
  by (auto simp: issue_token_pair_def Let_def token_store_mailboxes split: sum.splits prod.splits)

lemma refresh_check_mailboxes:
  "refresh_check sha now raw (db\<lparr>mailboxes := ms\<rparr>) = with_mailboxes ms (refresh_check sha now raw db)"
  by (auto simp: refresh_check_def token_get_mailboxes revoke_email_def token_update_mailboxes
      split: sum.splits prod.splits)

lemma refresh_rotate_mailboxes:
  "refresh_rotate sha dr now raw t (db\<lparr>mailboxes := ms\<rparr>) = with_mailboxes ms (refresh_rotate sha dr now raw t db)"
  by (cases "token_update (\<lambda>t. tok_hash t = hash_token sha raw) (\<lambda>t. t\<lparr>tok_revoked_at := Some now\<rparr>) db")
    (simp add: refresh_rotate_def revoke_by_hash_def token_update_mailboxes issue_mailboxes)

lemma refresh_ignores_mailboxes:
  "refresh_tokens sha dr now raw (db\<lparr>mailboxes := ms\<rparr>) = with_mailboxes ms (refresh_tokens sha dr now raw db)"
  by (cases "refresh_check sha now raw db")
    (simp add: refresh_tokens_def refresh_check_mailboxes refresh_rotate_mailboxes split: sum.splits)

section \<open>Sessions\<close>

lemma http_login_Passed:
  assumes "http_login svc sha dr now u pw db k = (Passed (p, ident), db', k')"
  obtains db1 role where "id_authenticate svc u pw db k = (Inr ident, db1, k')"
    and "role = (case id_roles ident of [] \<Rightarrow> ''user'' | r # rs \<Rightarrow> r)"
    and "issue_token_pair sha dr now None (id_email ident) role db1 = (Inr p, db')"
  using assms by (auto simp: http_login_def Let_def split: if_splits sum.splits prod.splits)

text \<open>
  C34. A login opens a session and a logout closes it. Whoever is logged in owns an address
  whose mailbox exists, is neither suspended nor disabled and is provisioned. The middleware
  lets the access token of the answer pass for fifteen minutes, with that address and the
  first role of the identity, and not afterwards; it does not take the refresh token for it.
  Once any request of that account logs out, both tokens are refused for ever, whatever
  statements other requests run before and after.
\<close>

theorem login_session:
  assumes "wf_db db" and "faults db = []" and "is_mailboxes svc"
    and "is_providers svc = mail_providers kdf clock rnd cfg cl"
    and "fresh_draws sha dr b1 b2 db"
    and "http_login svc sha dr now u pw db k = (Passed (p, ident), db1, k1)"
  shows "(\<exists>m\<in>set (mailboxes db). mb_email m = id_email ident \<and> mb_status m \<noteq> ''suspended'' \<and>
       mb_status m \<noteq> ''disabled'' \<and> mb_provisioning_status m \<in> {''ready'', ''active''}) \<and>
    (\<exists>role. (id_roles ident \<noteq> [] \<and> hd (id_roles ident) \<noteq> '''' \<longrightarrow> role = hd (id_roles ident)) \<and>
       (id_roles ident = [] \<longrightarrow> role = ''user'') \<and>
       (\<forall>t. fst (mw_authenticate sha t (bearer (tp_access p)) db1) =
         (if t > now + access_token_ttl then respond_unauthorized
          else Passed \<lparr>cl_token_id = dr_id1 dr, cl_user_id = None, cl_email = id_email ident, cl_role = role\<rparr>))) \<and>
    (\<forall>t. fst (mw_authenticate sha t (bearer (tp_refresh p)) db1) = respond_unauthorized) \<and>
    (\<forall>db2 claims raw t db3 t' dr'. token_run db1 db2 \<and> faults db2 = [] \<and> cl_email claims = id_email ident \<and>
       token_run (http_logout sha t raw claims db2) db3 \<longrightarrow>
         fst (mw_authenticate sha t' (bearer (tp_access p)) db3) = respond_unauthorized \<and>
         fst (http_refresh sha dr' t' (tp_refresh p) db3) = respond_unauthorized)"
proof -
  from assms(6) obtain db0 role0 where l: "id_authenticate svc u pw db k = (Inr ident, db0, k1)"
    and role0: "role0 = (case id_roles ident of [] \<Rightarrow> ''user'' | r # rs \<Rightarrow> r)"
    and iss: "issue_token_pair sha dr now None (id_email ident) role0 db0 = (Inr p, db1)"
    by (rule http_login_Passed)
  from login_reads_and_opens [OF assms(2-4) l] have db0: "db0 = db" and op: "opens (id_email ident) db"
    by simp_all
  define rows where "rows = issued_rows sha dr now None (id_email ident) role0 b1 b2"
  note iss' = iss [unfolded db0 issue_fresh [OF assms(2,5)]]
  then have p: "tp_access p = access_of b1" "tp_refresh p = refresh_of b2"
    and db1: "db1 = db\<lparr>api_tokens := api_tokens db @ rows\<rparr>"
    unfolding rows_def by auto
  note row = token_of_issued [OF assms(5), of db1 now None "id_email ident" role0, OF db1 [unfolded rows_def]]
  have f: "\<not> fails db1" using assms(2) by (simp add: db1)
  have run: "token_run db db1"
    using issue_run [of db sha dr now None "id_email ident" role0] iss db0 by simp
  have c1: "\<exists>m\<in>set (mailboxes db). mb_email m = id_email ident \<and> mb_status m \<noteq> ''suspended'' \<and>
       mb_status m \<noteq> ''disabled'' \<and> mb_provisioning_status m \<in> {''ready'', ''active''}"
    using op unfolding opens_def open_mailbox_def not_provisioned_def prov_ready_def by auto
  define role where "role = (if role0 = '''' then ''user'' else role0)"
  have c2: "fst (mw_authenticate sha t (bearer (tp_access p)) db1) =
      (if t > now + access_token_ttl then respond_unauthorized
       else Passed \<lparr>cl_token_id = dr_id1 dr, cl_user_id = None, cl_email = id_email ident, cl_role = role\<rparr>)" for t
    using f row(1) by (simp add: p mw_authenticate_bearer validate_answer role_def)
  have c2': "(id_roles ident \<noteq> [] \<and> hd (id_roles ident) \<noteq> '''' \<longrightarrow> role = hd (id_roles ident)) \<and>
       (id_roles ident = [] \<longrightarrow> role = ''user'')"
    by (cases "id_roles ident") (simp_all add: role_def role0)
  have c3: "fst (mw_authenticate sha t (bearer (tp_refresh p)) db1) = respond_unauthorized" for t
    using f row(2) by (simp add: p mw_authenticate_bearer validate_answer)
  have c4: "fst (mw_authenticate sha t' (bearer (tp_access p)) db3) = respond_unauthorized \<and>
      fst (http_refresh sha dr' t' (tp_refresh p) db3) = respond_unauthorized"
    if h: "token_run db1 db2 \<and> faults db2 = [] \<and> cl_email claims = id_email ident \<and>
      token_run (http_logout sha t raw claims db2) db3" for db2 claims raw t db3 t' dr'
  proof -
    have dead: "dead_token (tok_hash x) db3" if x: "x \<in> set rows" for x
    proof -
      have "x \<in> set (api_tokens db1)" "tok_email x = id_email ident"
        using x by (auto simp: db1 rows_def issued_rows_def Let_def)
      with tokens_keptE [OF token_run_kept, of db1 db2 x] h obtain y
        where "y \<in> set (api_tokens db2)" "token_kept x y" by blast
      with h \<open>tok_email x = id_email ident\<close> have "dead_token (tok_hash x) (http_logout sha t raw claims db2)"
        using http_logout_dead [of db2 y claims sha t raw] by (simp add: token_kept_def)
      with h show ?thesis by (blast intro: dead_token_run)
    qed
    then have dead_all: "\<forall>x\<in>set rows. dead_token (tok_hash x) db3" by blast
    have wf: "wf_db db3"
      using token_run_wf [OF _ token_run_wf [OF http_logout_run token_run_wf [OF _ token_run_wf [OF run assms(1)]]]] h
      by blast
    have "dead_token (hash_token sha (access_of b1)) db3" "dead_token (hash_token sha (refresh_of b2)) db3"
      using dead_all by (simp_all add: rows_def issued_rows_def Let_def)
    with dead_token_rejected(1) [OF wf, of sha "access_of b1" t'] dead_token_rejected(2) [OF wf, of sha "refresh_of b2" dr' t']
    show ?thesis
      by (auto simp: p mw_authenticate_bearer http_refresh_answer)
  qed
  show ?thesis
    by (rule conjI [OF c1 conjI [OF exI [of _ role] conjI [OF allI [OF c3]]]])
      (use c2 c2' c4 in \<open>(intro conjI allI impI; blast)+\<close>)
qed

theorem login_session_witness:
  "\<exists>p ident db1 k1. http_login example_identities id (example_draws 0) 0 '' Ann'' ''secret'' directory_db () =
       (Passed (p, ident), db1, k1) \<and>
     fst (mw_authenticate id 5 (bearer (tp_refresh p)) db1) = respond_unauthorized"
proof -
  obtain ident where l: "id_authenticate example_identities '' Ann'' ''secret'' directory_db () = (Inr ident, directory_db, ())"
    using example_login by blast
  have f: "fresh_draws id (example_draws 0) [] [] directory_db"
    using example_fresh by (simp add: fresh_draws_def directory_db_def example_db_def empty_db_def)
  obtain p db1 k1 where h: "http_login example_identities id (example_draws 0) 0 '' Ann'' ''secret'' directory_db () =
       (Passed (p, ident), db1, k1)"
    using l issue_fresh [OF wf_directory_db(2) f] by (simp add: http_login_def Let_def)
  from login_session [OF wf_directory_db example_identities_sels f h]
  have "fst (mw_authenticate id 5 (bearer (tp_refresh p)) db1) = respond_unauthorized"
    by (elim conjE) (rule spec)
  with h show ?thesis by (intro exI conjI)
qed

end
