(* ===== verification/Mail_Policy.thy ===== *)
theory Mail_Policy
  imports Go_Net Domains
begin

text \<open>
  What decides about incoming mail: the syntax of SPF and DMARC records (\<open>internal/dns/spf.go\<close>,
  \<open>dmarc.go\<close>), and of \<open>internal/inbound\<close> the evaluation of SPF, the alignment and verdict of
  DMARC, the unified verdict, the headers it writes and removes, the verification of the
  recipient and the service that runs them in order. The results of SPF, DKIM, virus and spam
  checks are inputs, as they are in the code. A spam score is a float64, here the rational
  number it stands for.
\<close>

section \<open>SPF records\<close>

definition err_invalid_spf :: err where
  "err_invalid_spf = Sentinel ''dns'' ''ErrInvalidSPFSyntax''"

definition err_invalid_dmarc :: err where
  "err_invalid_dmarc = Sentinel ''dns'' ''ErrInvalidDMARCSyntax''"

lemmas [errs] = err_invalid_spf_def err_invalid_dmarc_def

definition spf_term_error :: "string \<Rightarrow> err option" where
  "spf_term_error term =
     (let cleaned = trim_left_chars term ''+-~?''
      in if cleaned = '''' then Some (Wrap ''invalid qualifier-only token'' err_invalid_spf)
         else let lower = to_lower cleaned
         in if lower = ''all'' \<or> lower = ''mx'' \<or> lower = ''a'' \<or> lower = ''ptr'' then None
            else if has_prefix lower ''ip4:'' \<or> has_prefix lower ''ip6:'' \<or> has_prefix lower ''include:'' \<or>
              has_prefix lower ''redirect='' \<or> has_prefix lower ''exists:'' \<or> has_prefix lower ''exp='' then None
            else Some (Wrap ''unrecognized SPF mechanism'' err_invalid_spf))"

fun first_term_error :: "string list \<Rightarrow> err option" where
  "first_term_error [] = None"
| "first_term_error (t # ts) = (case spf_term_error t of Some e \<Rightarrow> Some e | None \<Rightarrow> first_term_error ts)"

definition validate_spf_syntax :: "string \<Rightarrow> unit result" where
  "validate_spf_syntax spf0 =
     (let spf = trim_chars (trim_space spf0) [CHR 0x22]
      in if \<not> has_prefix spf ''v=spf1'' then Inl (Wrap ''record must start with v=spf1'' err_invalid_spf)
         else let terms = Go_Strings.fields spf
         in if length terms < 2 then Inl (Wrap ''record contains no mechanisms or modifiers'' err_invalid_spf)
            else case first_term_error (tl terms) of Some e \<Rightarrow> Inl e | None \<Rightarrow> Inr ())"

definition generate_default_spf :: string where
  "generate_default_spf = ''v=spf1 mx ~all''"

section \<open>DMARC records\<close>

record dmarc_policy =
  dp_policy :: string
  dp_sub_policy :: string
  dp_rua :: string
  dp_ruf :: string
  dp_percentage :: int
  dp_adkim :: string
  dp_aspf :: string
  dp_report_format :: string

fun dmarc_tags :: "string list \<Rightarrow> (string \<rightharpoonup> string) \<Rightarrow> (string \<rightharpoonup> string)" where
  "dmarc_tags [] tags = tags"
| "dmarc_tags (p0 # ps) tags =
     (let p = trim_space p0; kv = split2 CHR ''='' p
      in dmarc_tags ps
           (if p \<noteq> '''' \<and> length kv = 2 then tags(trim_space (to_lower (kv ! 0)) \<mapsto> trim_space (kv ! 1)) else tags))"

text \<open>
  The optional tags one after the other: a tag that is absent changes nothing, one that is
  present is checked and stored.
\<close>

definition dmarc_opt ::
    "(string \<rightharpoonup> string) \<Rightarrow> string \<Rightarrow> (string \<Rightarrow> dmarc_policy \<Rightarrow> dmarc_policy result) \<Rightarrow>
       dmarc_policy result \<Rightarrow> dmarc_policy result" where
  "dmarc_opt tags k f acc =
     (case acc of Inl e \<Rightarrow> Inl e | Inr d \<Rightarrow> (case tags k of None \<Rightarrow> Inr d | Some v \<Rightarrow> f v d))"

definition dmarc_err :: "string \<Rightarrow> 'a result" where
  "dmarc_err m = Inl (Wrap m err_invalid_dmarc)"

definition is_disposition :: "string \<Rightarrow> bool" where
  "is_disposition p \<longleftrightarrow> p = ''none'' \<or> p = ''quarantine'' \<or> p = ''reject''"

definition dmarc_mailto :: "string \<Rightarrow> bool" where
  "dmarc_mailto v \<longleftrightarrow> has_prefix (to_lower v) ''mailto:''"

definition dmarc_optional :: "(string \<rightharpoonup> string) \<Rightarrow> dmarc_policy \<Rightarrow> dmarc_policy result" where
  "dmarc_optional tags d =
     dmarc_opt tags ''aspf'' (\<lambda>v d. let m = to_lower v in
         if m \<noteq> ''r'' \<and> m \<noteq> ''s'' then dmarc_err ''invalid aspf'' else Inr (d\<lparr>dp_aspf := m\<rparr>))
     (dmarc_opt tags ''adkim'' (\<lambda>v d. let m = to_lower v in
         if m \<noteq> ''r'' \<and> m \<noteq> ''s'' then dmarc_err ''invalid adkim'' else Inr (d\<lparr>dp_adkim := m\<rparr>))
     (dmarc_opt tags ''pct'' (\<lambda>v d. case atoi v of
         None \<Rightarrow> dmarc_err ''invalid pct''
       | Some n \<Rightarrow> if n < 0 \<or> n > 100 then dmarc_err ''invalid pct'' else Inr (d\<lparr>dp_percentage := n\<rparr>))
     (dmarc_opt tags ''ruf'' (\<lambda>v d.
         if \<not> dmarc_mailto v then dmarc_err ''invalid ruf URI'' else Inr (d\<lparr>dp_ruf := v\<rparr>))
     (dmarc_opt tags ''rua'' (\<lambda>v d.
         if \<not> dmarc_mailto v then dmarc_err ''invalid rua URI'' else Inr (d\<lparr>dp_rua := v\<rparr>))
     (dmarc_opt tags ''sp'' (\<lambda>v d. let sp = to_lower v in
         if \<not> is_disposition sp then dmarc_err ''invalid subdomain policy'' else Inr (d\<lparr>dp_sub_policy := sp\<rparr>))
     (Inr d))))))"

definition validate_dmarc_syntax :: "string \<Rightarrow> dmarc_policy result" where
  "validate_dmarc_syntax dmarc0 =
     (let dmarc = trim_chars (trim_space dmarc0) [CHR 0x22];
          tags = dmarc_tags (str_split CHR '';'' dmarc) Map.empty
      in case tags ''v'' of
           None \<Rightarrow> dmarc_err ''record must start with v=DMARC1''
         | Some v \<Rightarrow>
             if to_upper v \<noteq> ''DMARC1'' then dmarc_err ''record must start with v=DMARC1''
             else case tags ''p'' of
                 None \<Rightarrow> dmarc_err ''missing required p policy tag''
               | Some p \<Rightarrow>
                   if p = '''' then dmarc_err ''missing required p policy tag''
                   else let policy = to_lower p
                   in if \<not> is_disposition policy then dmarc_err ''invalid policy''
                      else dmarc_optional tags
                        \<lparr>dp_policy = policy, dp_sub_policy = '''', dp_rua = '''', dp_ruf = '''',
                         dp_percentage = 100, dp_adkim = ''r'', dp_aspf = ''r'', dp_report_format = ''''\<rparr>)"

definition generate_default_dmarc :: "string \<Rightarrow> string" where
  "generate_default_dmarc domain = ''v=DMARC1; p=none; rua=mailto:dmarc@'' @ domain"

section \<open>Model\<close>

definition err_recipient_rejected :: err where
  "err_recipient_rejected = Sentinel ''inbound'' ''ErrRecipientRejected''"

definition err_message_oversized :: err where
  "err_message_oversized = Sentinel ''inbound'' ''ErrMessageOversized''"

definition err_dmarc_rejected :: err where
  "err_dmarc_rejected = Sentinel ''inbound'' ''ErrDMARCRejected''"

definition err_malware_detected :: err where
  "err_malware_detected = Sentinel ''inbound'' ''ErrMalwareDetected''"

lemmas [errs] = err_recipient_rejected_def err_message_oversized_def err_dmarc_rejected_def
  err_malware_detected_def

text \<open>The string types \<open>AuthStatus\<close> and \<open>SpamAction\<close> and their constants.\<close>

type_synonym auth_status = string
type_synonym spam_action = string

definition auth_pass :: auth_status where "auth_pass = ''pass''"
definition auth_fail :: auth_status where "auth_fail = ''fail''"
definition auth_softfail :: auth_status where "auth_softfail = ''softfail''"
definition auth_neutral :: auth_status where "auth_neutral = ''neutral''"
definition auth_none :: auth_status where "auth_none = ''none''"
definition auth_permerror :: auth_status where "auth_permerror = ''permerror''"

definition action_deliver :: spam_action where "action_deliver = ''deliver''"
definition action_junk :: spam_action where "action_junk = ''junk''"
definition action_quarantine :: spam_action where "action_quarantine = ''quarantine''"
definition action_reject :: spam_action where "action_reject = ''reject''"

lemmas auth_consts = auth_pass_def auth_fail_def auth_softfail_def auth_neutral_def auth_none_def
  auth_permerror_def
lemmas action_consts = action_deliver_def action_junk_def action_quarantine_def action_reject_def

record spf_verification =
  sv_status :: auth_status
  sv_domain :: string
  sv_scope :: string
  sv_aligned :: bool
  sv_reason :: string

record dkim_verification =
  dv_status :: auth_status
  dv_domain :: string
  dv_selector :: string
  dv_aligned :: bool
  dv_reason :: string

record dmarc_verification =
  dmv_status :: auth_status
  dmv_policy :: string
  dmv_spf_aligned :: bool
  dmv_dkim_aligned :: bool
  dmv_action :: spam_action
  dmv_reason :: string

record inbound_evaluation =
  ie_auth_serv_id :: string
  ie_client_ip :: ip
  ie_client_hostname :: string
  ie_helo :: string
  ie_mail_from :: string
  ie_header_from :: string
  ie_recipient :: string
  ie_message_size :: int
  ie_spf :: spf_verification
  ie_dkim :: dkim_verification
  ie_dmarc :: dmarc_verification
  ie_spam_score :: rat
  ie_spam_threshold :: rat
  ie_reject_threshold :: rat
  ie_is_spam :: bool
  ie_antivirus_clean :: bool
  ie_virus_name :: string
  ie_final_action :: spam_action
  ie_authentication_results :: string
  ie_received_spf :: string
  ie_evaluated_at :: instant

section \<open>Evaluation of SPF\<close>

definition spf_address_matches :: "ip \<Rightarrow> string \<Rightarrow> bool" where
  "spf_address_matches client s =
     (if CHR ''/'' \<in> set s then (case parse_cidr s of None \<Rightarrow> False | Some n \<Rightarrow> ip_net_contains n client)
      else (case parse_ip s of None \<Rightarrow> False | Some p \<Rightarrow> ip_equal p client))"

definition spf_mechanism_matches :: "ip \<Rightarrow> string \<Rightarrow> bool" where
  "spf_mechanism_matches client term =
     (let lower = to_lower term
      in if lower = ''all'' then True
         else if has_prefix lower ''ip4:'' then spf_address_matches client (drop 4 lower)
         else if has_prefix lower ''ip6:'' then spf_address_matches client (drop 4 lower)
         else False)"

definition spf_split_qualifier :: "string \<Rightarrow> char \<times> string" where
  "spf_split_qualifier term =
     (if has_prefix term ''+'' \<or> has_prefix term ''-'' \<or> has_prefix term ''~'' \<or> has_prefix term ''?''
      then (hd term, tl term) else (CHR ''+'', term))"

definition spf_result :: "char \<Rightarrow> auth_status" where
  "spf_result q =
     (if q = CHR ''+'' then auth_pass else if q = CHR ''-'' then auth_fail
      else if q = CHR ''~'' then auth_softfail else auth_neutral)"

fun spf_terms :: "ip \<Rightarrow> string list \<Rightarrow> auth_status" where
  "spf_terms client [] = auth_neutral"
| "spf_terms client (term # ts) =
     (case spf_split_qualifier term of (q, m) \<Rightarrow>
        if spf_mechanism_matches client m then spf_result q else spf_terms client ts)"

definition evaluate_spf :: "ip \<Rightarrow> string \<Rightarrow> string \<Rightarrow> auth_status" where
  "evaluate_spf client sender_domain spf_record =
     (if spf_record = '''' then auth_none
      else let r = trim_space (trim_chars spf_record [CHR 0x22])
      in if \<not> has_prefix r ''v=spf1'' then auth_permerror
         else spf_terms client (tl (Go_Strings.fields r)))"

section \<open>DMARC\<close>

definition is_domain_aligned :: "string \<Rightarrow> string \<Rightarrow> bool \<Rightarrow> bool" where
  "is_domain_aligned auth_domain0 header_domain0 strict =
     (let auth_domain = to_lower (trim_space auth_domain0); header_domain = to_lower (trim_space header_domain0)
      in if auth_domain = '''' \<or> header_domain = '''' then False
         else if strict then auth_domain = header_domain
         else if auth_domain = header_domain then True
         else has_suffix auth_domain (''.'' @ header_domain) \<or> has_suffix header_domain (''.'' @ auth_domain))"

definition after_last_at :: "string \<Rightarrow> string" where
  "after_last_at s = (if CHR ''@'' \<in> set s then last (str_split CHR ''@'' s) else s)"

definition evaluate_dmarc ::
    "string \<Rightarrow> spf_verification \<Rightarrow> dkim_verification \<Rightarrow> string \<Rightarrow> dmarc_verification" where
  "evaluate_dmarc header_from spf dkim dmarc_policy =
     (let from_domain = to_lower (trim_space (after_last_at header_from));
          policy = (if dmarc_policy \<noteq> '''' then to_lower (trim_space dmarc_policy) else ''none'');
          spf_aligned = (sv_status spf = auth_pass \<and> is_domain_aligned (sv_domain spf) from_domain False);
          dkim_aligned = (dv_status dkim = auth_pass \<and> is_domain_aligned (dv_domain dkim) from_domain False)
      in if spf_aligned \<or> dkim_aligned then
           \<lparr>dmv_status = auth_pass, dmv_policy = policy, dmv_spf_aligned = spf_aligned,
            dmv_dkim_aligned = dkim_aligned, dmv_action = action_deliver,
            dmv_reason = ''DMARC pass: identifier alignment satisfied''\<rparr>
         else
           \<lparr>dmv_status = auth_fail, dmv_policy = policy, dmv_spf_aligned = spf_aligned,
            dmv_dkim_aligned = dkim_aligned,
            dmv_action = (if policy = ''reject'' then action_reject
                          else if policy = ''quarantine'' then action_quarantine else action_deliver),
            dmv_reason = (if policy = ''reject'' then ''DMARC fail: policy is p=reject''
                          else if policy = ''quarantine'' then ''DMARC fail: policy is p=quarantine''
                          else ''DMARC fail: policy is p=none (observation mode)'')\<rparr>)"

section \<open>The verdict\<close>

text \<open>\<open>EvaluateInboundSecurity\<close>: the evaluation it leaves and the error it returns, if any.\<close>

definition evaluate_inbound_security :: "inbound_evaluation \<Rightarrow> inbound_evaluation \<times> err option" where
  "evaluate_inbound_security ev =
     (if \<not> ie_antivirus_clean ev then
        (ev\<lparr>ie_final_action := action_reject\<rparr>, Some (Wrap (ie_virus_name ev) err_malware_detected))
      else if ie_message_size ev > 0 \<and> ie_message_size ev > 26214400 then
        (ev\<lparr>ie_final_action := action_reject\<rparr>, Some err_message_oversized)
      else if ie_reject_threshold ev > 0 \<and> ie_spam_score ev \<ge> ie_reject_threshold ev then
        (ev\<lparr>ie_final_action := action_reject, ie_is_spam := True\<rparr>,
         Some (Msg ''message rejected: spam score exceeds reject threshold''))
      else if ie_spam_threshold ev > 0 \<and> ie_spam_score ev \<ge> ie_spam_threshold ev then
        (ev\<lparr>ie_final_action := action_junk, ie_is_spam := True\<rparr>, None)
      else if dmv_action (ie_dmarc ev) = action_reject then
        (ev\<lparr>ie_final_action := action_reject\<rparr>, Some (Wrap (dmv_reason (ie_dmarc ev)) err_dmarc_rejected))
      else if dmv_action (ie_dmarc ev) = action_quarantine then
        (ev\<lparr>ie_final_action := action_quarantine\<rparr>, None)
      else (ev\<lparr>ie_final_action := action_deliver\<rparr>, None))"

section \<open>Headers\<close>

definition serv_id :: "inbound_evaluation \<Rightarrow> string" where
  "serv_id ev = (if ie_auth_serv_id ev = '''' then ''mail.example.com'' else ie_auth_serv_id ev)"

definition spf_domain_of :: "inbound_evaluation \<Rightarrow> string" where
  "spf_domain_of ev =
     (if sv_domain (ie_spf ev) = '''' \<and> ie_mail_from ev \<noteq> '''' then
        (let parts = str_split CHR ''@'' (ie_mail_from ev)
         in if length parts = 2 then parts ! 1 else sv_domain (ie_spf ev))
      else sv_domain (ie_spf ev))"

definition build_authentication_results :: "inbound_evaluation \<Rightarrow> string" where
  "build_authentication_results ev =
     ''Authentication-Results: '' @ str_join [CHR 0x0A]
       [serv_id ev @ '';'',
        ''    spf='' @ sv_status (ie_spf ev) @ '' (sender IP is '' @ ip_string (ie_client_ip ev) @
          '') smtp.mailfrom='' @ spf_domain_of ev @ '';'',
        (if dv_domain (ie_dkim ev) \<noteq> '''' then
           ''    dkim='' @ dv_status (ie_dkim ev) @ '' header.d='' @ dv_domain (ie_dkim ev) @ '' header.s='' @
             dv_selector (ie_dkim ev) @ '';''
         else ''    dkim='' @ dv_status (ie_dkim ev) @ '' (no signatures);''),
        ''    dmarc='' @ dmv_status (ie_dmarc ev) @ '' (p='' @ dmv_policy (ie_dmarc ev) @ '') header.from='' @
          after_last_at (ie_header_from ev)]"

definition build_received_spf :: "inbound_evaluation \<Rightarrow> string" where
  "build_received_spf ev =
     ''Received-SPF: '' @ sv_status (ie_spf ev) @ '' ('' @ serv_id ev @ '': domain of '' @ spf_domain_of ev @
       '' designates '' @ ip_string (ie_client_ip ev) @ '' as permitted sender) client-ip='' @
       ip_string (ie_client_ip ev) @ ''; envelope-from='' @ ie_mail_from ev @ ''; helo='' @ ie_helo ev @ '';''"

definition untrusted_header :: "string \<Rightarrow> bool" where
  "untrusted_header line =
     (let lower = to_lower (trim_space line)
      in has_prefix lower ''authentication-results:'' \<or> has_prefix lower ''received-spf:'')"

definition continuation :: "string \<Rightarrow> bool" where
  "continuation line \<longleftrightarrow> has_prefix line '' '' \<or> has_prefix line [CHR 0x09]"

fun sanitize_lines :: "bool \<Rightarrow> string list \<Rightarrow> string list" where
  "sanitize_lines skip [] = []"
| "sanitize_lines skip (line # ls) =
     (if untrusted_header line then sanitize_lines True ls
      else if skip \<and> continuation line then sanitize_lines skip ls
      else line # sanitize_lines False ls)"

definition sanitize_untrusted_headers :: "string \<Rightarrow> string" where
  "sanitize_untrusted_headers message =
     str_join [CHR 0x0A] (sanitize_lines False (str_split CHR 0x0A message))"

section \<open>Recipients\<close>

text \<open>
  The last query names a column \<open>status\<close> that no migration gives to \<open>aliases\<close>; the database
  answers it with an error.
\<close>

definition sql_undefined_column :: "db \<Rightarrow> 'a result \<times> db" where
  "sql_undefined_column = db_call (\<lambda>db. (Inl (Msg ''column does not exist''), db))"

definition verify_recipient :: "string \<Rightarrow> db \<Rightarrow> bool result \<times> db" where
  "verify_recipient email0 db =
     (let email = to_lower (trim_space email0); parts = str_split CHR ''@'' email
      in if length parts \<noteq> 2 then (Inr False, db)
         else (case sql_query_row (\<lambda>db. find (\<lambda>d. to_lower (dom_name d) = parts ! 1 \<and> dom_status d = ''active'')
                     (domains db)) db of
             (Inl err, db1) \<Rightarrow> (Inr False, db1)
           | (Inr d, db1) \<Rightarrow>
               (case sql_query_row (\<lambda>db. Some (length (rows_where (\<lambda>m. to_lower (mb_email m) = email \<and>
                        mb_status m = ''active'' \<and> mb_provisioning_status m = ''ready'') (mailboxes db)))) db1 of
                  (Inr n, db2) \<Rightarrow>
                    if n > 0 then (Inr True, db2)
                    else (case (sql_undefined_column db2 :: nat result \<times> db) of
                        (Inr a, db3) \<Rightarrow> (Inr (a > 0), db3) | (Inl err, db3) \<Rightarrow> (Inr False, db3))
                | (Inl err, db2) \<Rightarrow>
                    (case (sql_undefined_column db2 :: nat result \<times> db) of
                        (Inr a, db3) \<Rightarrow> (Inr (a > 0), db3) | (Inl err, db3) \<Rightarrow> (Inr False, db3)))))"

section \<open>The service\<close>

definition inbound_evaluate ::
    "instant \<Rightarrow> inbound_evaluation \<Rightarrow> db \<Rightarrow> (inbound_evaluation \<times> err option) \<times> db" where
  "inbound_evaluate now ev0 db =
     (let ev1 = ev0\<lparr>ie_evaluated_at := now\<rparr>;
          (ok, db1) = (if ie_recipient ev1 \<noteq> '''' then
                         (case verify_recipient (ie_recipient ev1) db of (r, db1) \<Rightarrow> (r = Inr True, db1))
                       else (True, db))
      in if \<not> ok then ((ev1, Some err_recipient_rejected), db1)
         else let ev2 = ev1\<lparr>ie_dmarc := evaluate_dmarc (ie_header_from ev1) (ie_spf ev1) (ie_dkim ev1)
                            (dmv_policy (ie_dmarc ev1))\<rparr>;
                  (ev3, e) = evaluate_inbound_security ev2;
                  ev4 = ev3\<lparr>ie_authentication_results := build_authentication_results ev3\<rparr>;
                  ev5 = ev4\<lparr>ie_received_spf := build_received_spf ev4\<rparr>
              in ((ev5, e), db1))"

end
