(* ===== verification/Go_Text.thy ===== *)
theory Go_Text
  imports Go_Strings
begin

text \<open>
  Facts about texts of words and lines that several components share: splitting what was
  joined, the ends of a joined text, and trimming a text that has nothing to trim.
\<close>

section \<open>Words of a text\<close>

lemma split_by_join:
  assumes "ws \<noteq> []" and "\<forall>w\<in>set ws. \<forall>c\<in>set w. \<not> P c" and "P sep"
  shows "split_by P (str_join [sep] ws) = ws"
  using assms
proof (induction "[sep]" ws rule: str_join.induct)
  case (2 w)
  then show ?case by (simp add: split_by_no_sep list_all_iff)
next
  case (3 w v ws)
  have "split_by P (w @ sep # str_join [sep] (v # ws)) = w # split_by P (str_join [sep] (v # ws))"
    by (rule split_by_append_sep) (use 3 in \<open>simp_all add: list_all_iff\<close>)
  then show ?case using 3 by simp
qed simp

lemma fields_join:
  assumes "ws \<noteq> []" and "\<forall>w\<in>set ws. w \<noteq> [] \<and> (\<forall>c\<in>set w. \<not> is_space c)"
  shows "Go_Strings.fields (str_join '' '' ws) = ws"
  using assms split_by_join [of ws is_space "CHR '' ''"]
  by (simp add: Go_Strings.fields_def is_space_def byte_def filter_id_conv)

lemma hd_str_join: "w \<noteq> [] \<Longrightarrow> hd (str_join sep (w # ws)) = hd w"
  by (cases ws) simp_all

lemma str_join_not_Nil: "ws \<noteq> [] \<Longrightarrow> last ws \<noteq> [] \<Longrightarrow> str_join sep ws \<noteq> []"
  by (induction sep ws rule: str_join.induct) auto

lemma last_str_join: "ws \<noteq> [] \<Longrightarrow> last ws \<noteq> [] \<Longrightarrow> last (str_join sep ws) = last (last ws)"
proof (induction sep ws rule: str_join.induct)
  case (3 sep w v ws)
  then show ?case using str_join_not_Nil [of "v # ws" sep] by (simp add: last_append)
qed simp_all

lemma trim_id:
  assumes "s \<noteq> []" and "\<not> P (hd s)" and "\<not> P (last s)"
  shows "trim_right P (trim_left P s) = s"
  using assms trim_left_Cons_id [of s P] trim_right_id [of s P] by simp

end
