(* ===== verification/Mail_Policy_Props.thy ===== *)
theory Mail_Policy_Props
  imports Mail_Policy Go_Text
begin

text \<open>
  What holds of the inbound policy. The evaluation of an SPF record, from its text to the
  verdict, is that of a list of mechanisms over sets of addresses; a message is delivered
  only when every check of the pipeline agrees; no untrusted line survives the removal of
  the headers, and nothing else is removed before the first one.
\<close>

section \<open>Mechanisms and their text\<close>

datatype spf_mechanism =
    Spf_All
  | Spf_Net ip nat
  | Spf_Host ip
  | Spf_Mx
  | Spf_Include string

fun mechanism_text :: "spf_mechanism \<Rightarrow> string" where
  "mechanism_text Spf_All = ''all''"
| "mechanism_text (Spf_Net p n) = ''ip4:'' @ ipv4_string p @ ''/'' @ nat_str n"
| "mechanism_text (Spf_Host p) = ''ip4:'' @ ipv4_string p"
| "mechanism_text Spf_Mx = ''mx''"
| "mechanism_text (Spf_Include d) = ''include:'' @ d"

definition term_text :: "char \<times> spf_mechanism \<Rightarrow> string" where
  "term_text qm = fst qm # mechanism_text (snd qm)"

definition record_text :: "(char \<times> spf_mechanism) list \<Rightarrow> string" where
  "record_text ms = str_join '' '' (''v=spf1'' # map term_text ms)"

fun wf_mechanism :: "spf_mechanism \<Rightarrow> bool" where
  "wf_mechanism (Spf_Net p n) \<longleftrightarrow> ip_bytes p \<and> length p = 4 \<and> n \<le> 32"
| "wf_mechanism (Spf_Host p) \<longleftrightarrow> ip_bytes p \<and> length p = 4"
| "wf_mechanism (Spf_Include d) \<longleftrightarrow> (\<forall>c\<in>set d. \<not> is_space c \<and> c \<noteq> CHR 0x22)"
| "wf_mechanism m \<longleftrightarrow> True"

definition wf_term :: "char \<times> spf_mechanism \<Rightarrow> bool" where
  "wf_term qm \<longleftrightarrow> fst qm \<in> set ''+-~?'' \<and> wf_mechanism (snd qm)"

text \<open>What a mechanism means: the clients it designates, as 32-bit words.\<close>

fun designates :: "spf_mechanism \<Rightarrow> 32 word \<Rightarrow> bool" where
  "designates Spf_All w = True"
| "designates (Spf_Net p n) w = (drop_bit (32 - n) w = drop_bit (32 - n) (ipv4_word p))"
| "designates (Spf_Host p) w = (w = ipv4_word p)"
| "designates m w = False"

definition spf_reference :: "(char \<times> spf_mechanism) list \<Rightarrow> 32 word \<Rightarrow> auth_status" where
  "spf_reference ms w =
     (case find (\<lambda>(q, m). designates m w) ms of None \<Rightarrow> auth_neutral | Some (q, m) \<Rightarrow> spf_result q)"

section \<open>The text of a mechanism is read back\<close>

definition plain_char :: "char \<Rightarrow> bool" where
  "plain_char c \<longleftrightarrow> \<not> is_space c \<and> c \<noteq> CHR 0x22"

lemma digit_plain: "is_digit c \<Longrightarrow> plain_char c \<and> lower_char c = c \<and> c \<noteq> CHR ''/''"
  by (auto simp: plain_char_def is_digit_def is_space_def byte_def lower_char_def is_upper_def)

lemma ipv4_string_chars: "c \<in> set (ipv4_string p) \<Longrightarrow> is_digit c \<or> c = CHR ''.''"
  using nat_str_digit by (auto simp: ipv4_string_def dest!: set_str_join)

lemma literal_plain:
  "list_all plain_char ''ip4:''" "list_all plain_char ''/.''" "list_all plain_char ''include:''"
  "list_all plain_char ''all''" "list_all plain_char ''mx''" "list_all plain_char ''v=spf1''"
  "list_all plain_char ''+-~?''"
  by code_simp+

lemma ipv4_string_plain: "c \<in> set (ipv4_string p) \<Longrightarrow> plain_char c"
  using ipv4_string_chars digit_plain literal_plain(2) by fastforce

lemma mechanism_plain: "wf_mechanism m \<Longrightarrow> c \<in> set (mechanism_text m) \<Longrightarrow> plain_char c"
  using literal_plain ipv4_string_plain nat_str_digit [THEN digit_plain]
  by (cases m) (auto simp: plain_char_def)

lemma term_plain: "wf_term qm \<Longrightarrow> c \<in> set (term_text qm) \<Longrightarrow> plain_char c"
  using mechanism_plain literal_plain(7) by (auto simp: wf_term_def term_text_def list_all_iff)

lemma mechanism_text_not_Nil [simp]: "mechanism_text m \<noteq> []"
  by (cases m) simp_all

lemma to_lower_fixed: "\<forall>c\<in>set s. lower_char c = c \<Longrightarrow> to_lower s = s"
  by (simp add: to_lower_def map_idI)

lemma to_lower_ipv4 [simp]: "to_lower (ipv4_string p) = ipv4_string p"
proof -
  have "lower_char CHR ''.'' = CHR ''.''" by code_simp
  then show ?thesis
    by (intro to_lower_fixed) (use ipv4_string_chars digit_plain in blast)
qed

lemma to_lower_nat_str [simp]: "to_lower (nat_str n) = nat_str n"
  by (intro to_lower_fixed) (use nat_str_digit digit_plain in blast)

lemma ip_number_inject:
  "length p = length q \<Longrightarrow> ip_bytes p \<Longrightarrow> ip_bytes q \<Longrightarrow> ip_number p = ip_number q \<Longrightarrow> p = q"
proof (induction p q rule: list_induct2)
  case (Cons x xs y ys)
  have "ip_number xs < 256 ^ length ys" "ip_number ys < 256 ^ length ys"
    using ip_number_less [of xs] ip_number_less [of ys] Cons by (auto simp: ip_bytes_def)
  with Cons.prems Cons.hyps have "x = y \<and> ip_number xs = ip_number ys"
    using split_eq [of "ip_number xs" "256 ^ length ys" "ip_number ys" x y] by simp
  with Cons show ?case by (auto simp: ip_bytes_def)
qed simp

lemma ipv4_word_inject:
  assumes "ip_bytes p" and "ip_bytes q" and "length p = 4" and "length q = 4"
  shows "ipv4_word p = ipv4_word q \<longleftrightarrow> p = q"
  using ipv4_word_prefix [OF assms, of 32] ip_number_inject assms by auto

text \<open>The clients of the theorem: IPv4 addresses in either form.\<close>

definition ipv4_client :: "ip \<Rightarrow> ip \<Rightarrow> bool" where
  "ipv4_client client q \<longleftrightarrow> ip_bytes q \<and> length q = 4 \<and> client \<in> {q, v4_in_v6_prefix @ q}"

lemma address_matches_net:
  assumes "ipv4_client client q" and "wf_mechanism (Spf_Net p n)"
  shows "spf_address_matches client (ipv4_string p @ ''/'' @ nat_str n) \<longleftrightarrow> designates (Spf_Net p n) (ipv4_word q)"
proof -
  have p: "ip_bytes p" "length p = 4" "n \<le> 32" using assms(2) by simp_all
  have q: "ip_bytes q" "length q = 4" "client \<in> {q, v4_in_v6_prefix @ q}" using assms(1) by (simp_all add: ipv4_client_def)
  show ?thesis
    using parse_cidr_contains [OF p(1) q(1) p(2) q(2) p(3) q(3)]
    by (auto simp: spf_address_matches_def)
qed

lemma address_matches_host:
  assumes "ipv4_client client q" and "wf_mechanism (Spf_Host p)"
  shows "spf_address_matches client (ipv4_string p) \<longleftrightarrow> designates (Spf_Host p) (ipv4_word q)"
proof -
  have "CHR ''/'' \<notin> set (ipv4_string p)" using slash_notin_ipv4 by blast
  moreover have "parse_ip (ipv4_string p) = Some (v4_in_v6_prefix @ p)"
    using assms(2) by (simp add: parse_ip_def parse_addr_ipv4_string as16_def)
  moreover have "ip_equal (v4_in_v6_prefix @ p) client \<longleftrightarrow> p = q"
    using assms by (auto simp: ipv4_client_def ip_equal_def v4_in_v6_prefix_def)
  ultimately show ?thesis
    using assms ipv4_word_inject [of q p] by (auto simp: spf_address_matches_def ipv4_client_def)
qed

lemma mechanism_matches:
  assumes "ipv4_client client q" and "wf_mechanism m"
  shows "spf_mechanism_matches client (mechanism_text m) \<longleftrightarrow> designates m (ipv4_word q)"
proof -
  have lit: "to_lower ''ip4:'' = ''ip4:''" "to_lower ''/'' = ''/''" "to_lower ''include:'' = ''include:''"
    "to_lower ''all'' = ''all''" "to_lower ''mx'' = ''mx''"
    by code_simp+
  show ?thesis
  proof (cases m)
    case (Spf_Net p n)
    have l: "to_lower (mechanism_text m) = ''ip4:'' @ (ipv4_string p @ ''/'' @ nat_str n)"
      unfolding Spf_Net mechanism_text.simps to_lower_append lit by simp
    have "spf_mechanism_matches client (mechanism_text m) \<longleftrightarrow> spf_address_matches client (ipv4_string p @ ''/'' @ nat_str n)"
      unfolding spf_mechanism_matches_def l by (simp add: has_prefix_def)
    with address_matches_net assms Spf_Net show ?thesis by blast
  next
    case (Spf_Host p)
    have l: "to_lower (mechanism_text m) = ''ip4:'' @ ipv4_string p"
      unfolding Spf_Host mechanism_text.simps to_lower_append lit by simp
    have "spf_mechanism_matches client (mechanism_text m) \<longleftrightarrow> spf_address_matches client (ipv4_string p)"
      unfolding spf_mechanism_matches_def l by (simp add: has_prefix_def)
    with address_matches_host assms Spf_Host show ?thesis by blast
  next
    case (Spf_Include d)
    have l: "to_lower (mechanism_text m) = ''include:'' @ to_lower d"
      unfolding Spf_Include mechanism_text.simps to_lower_append lit by simp
    show ?thesis unfolding spf_mechanism_matches_def l by (simp add: has_prefix_def Spf_Include)
  qed (simp_all add: spf_mechanism_matches_def lit has_prefix_def)
qed

lemma split_qualifier_term: "wf_term qm \<Longrightarrow> spf_split_qualifier (term_text qm) = (fst qm, mechanism_text (snd qm))"
  by (auto simp: spf_split_qualifier_def term_text_def wf_term_def has_prefix_def)

lemma spf_terms_reference:
  assumes "ipv4_client client q" and "\<forall>qm\<in>set ms. wf_term qm"
  shows "spf_terms client (map term_text ms) = spf_reference ms (ipv4_word q)"
  using assms(2)
proof (induction ms)
  case (Cons qm ms)
  then have "wf_mechanism (snd qm)" by (simp add: wf_term_def)
  with Cons show ?case
    using mechanism_matches [OF assms(1)]
    by (cases qm) (simp add: split_qualifier_term spf_reference_def)
qed (simp add: spf_reference_def)

text \<open>The text of a record as a whole, also in the quotes of a TXT record.\<close>

lemma record_words:
  assumes "\<forall>qm\<in>set ms. wf_term qm"
  shows "Go_Strings.fields (record_text ms) = ''v=spf1'' # map term_text ms"
  unfolding record_text_def
proof (rule fields_join)
  show "\<forall>w\<in>set (''v=spf1'' # map term_text ms). w \<noteq> [] \<and> (\<forall>c\<in>set w. \<not> is_space c)"
    using assms term_plain literal_plain(6) by (auto simp: plain_char_def term_text_def list_all_iff)
qed simp

lemma record_ends:
  assumes "\<forall>qm\<in>set ms. wf_term qm"
  shows "record_text ms \<noteq> []" and "plain_char (hd (record_text ms))" and "plain_char (last (record_text ms))"
proof -
  let ?ws = "''v=spf1'' # map term_text ms"
  have ne: "last ?ws \<noteq> []" by (cases ms rule: rev_cases) (simp_all add: term_text_def)
  have "plain_char (last (last ?ws))"
  proof (cases ms rule: rev_cases)
    case Nil
    then show ?thesis using literal_plain(6) by (simp add: list_all_iff)
  next
    case (snoc ms' qm)
    then have l: "last ?ws = term_text qm" by simp
    have "wf_term qm" using assms snoc by simp
    then show ?thesis unfolding l by (rule term_plain) (simp add: term_text_def)
  qed
  then show "plain_char (last (record_text ms))"
    unfolding record_text_def using last_str_join [of ?ws "'' ''"] ne by simp
  show "record_text ms \<noteq> []" unfolding record_text_def using str_join_not_Nil [of ?ws "'' ''"] ne by simp
  have "hd (record_text ms) = CHR ''v''"
    unfolding record_text_def by (subst hd_str_join) simp_all
  then show "plain_char (hd (record_text ms))" using literal_plain(6) by simp
qed

lemma record_trimmed:
  assumes "\<forall>qm\<in>set ms. wf_term qm"
  shows "trim_space (record_text ms) = record_text ms"
    and "trim_chars (record_text ms) [CHR 0x22] = record_text ms"
    and "trim_chars ([CHR 0x22] @ record_text ms @ [CHR 0x22]) [CHR 0x22] = record_text ms"
proof -
  note e = record_ends [OF assms]
  show "trim_space (record_text ms) = record_text ms"
    unfolding trim_space_def by (rule trim_id) (use e in \<open>simp_all add: plain_char_def\<close>)
  show t: "trim_chars (record_text ms) [CHR 0x22] = record_text ms"
    unfolding trim_chars_def by (rule trim_id) (use e in \<open>simp_all add: plain_char_def\<close>)
  have "trim_left (\<lambda>c. c \<in> set [CHR 0x22]) (record_text ms @ [CHR 0x22]) = record_text ms @ [CHR 0x22]"
    by (rule trim_left_Cons_id) (use e in \<open>simp add: plain_char_def\<close>)
  then have "trim_chars ([CHR 0x22] @ record_text ms @ [CHR 0x22]) [CHR 0x22] =
      trim_right (\<lambda>c. c \<in> set [CHR 0x22]) (record_text ms)"
    by (simp add: trim_chars_def trim_left_def trim_right_def)
  moreover have "trim_right (\<lambda>c. c \<in> set [CHR 0x22]) (record_text ms) = record_text ms"
    by (rule trim_right_id) (use e in \<open>simp add: plain_char_def\<close>)
  ultimately show "trim_chars ([CHR 0x22] @ record_text ms @ [CHR 0x22]) [CHR 0x22] = record_text ms"
    by simp
qed

lemma record_prefix: "has_prefix (record_text ms) ''v=spf1''"
  by (cases ms) (simp_all add: record_text_def has_prefix_def)

lemma term_syntax: "wf_term qm \<Longrightarrow> spf_term_error (term_text qm) = None"
proof -
  assume wf: "wf_term qm"
  have lit: "to_lower ''ip4:'' = ''ip4:''" "to_lower ''include:'' = ''include:''" "to_lower ''all'' = ''all''" "to_lower ''mx'' = ''mx''"
    by code_simp+
  have "trim_left_chars (term_text qm) ''+-~?'' = trim_left (\<lambda>c. c \<in> set ''+-~?'') (mechanism_text (snd qm))"
    using wf by (auto simp: trim_left_chars_def trim_left_def term_text_def wf_term_def)
  also have "\<dots> = mechanism_text (snd qm)"
    by (rule trim_left_Cons_id) (cases "snd qm"; simp)
  finally have c: "trim_left_chars (term_text qm) ''+-~?'' = mechanism_text (snd qm)" .
  have "to_lower (mechanism_text m) \<in> {''all'', ''mx''} \<or> has_prefix (to_lower (mechanism_text m)) ''ip4:'' \<or>
      has_prefix (to_lower (mechanism_text m)) ''include:''" for m
    by (cases m) (simp_all only: mechanism_text.simps to_lower_append lit has_prefix_append insert_iff simp_thms)
  then show ?thesis
    unfolding spf_term_error_def c Let_def using mechanism_text_not_Nil [of "snd qm"] by (smt (verit) insert_iff singletonD)
qed

lemma terms_syntax: "\<forall>qm\<in>set ms. wf_term qm \<Longrightarrow> first_term_error (map term_text ms) = None"
  by (induction ms) (simp_all add: term_syntax)

section \<open>Properties\<close>

text \<open>
  C35. For a record of the mechanisms \<open>all\<close>, \<open>ip4\<close> (an address or a network), \<open>mx\<close> and
  \<open>include\<close> with any qualifiers, in quotes or not, the text passes the syntax check, and its
  evaluation for an IPv4 client, in either of its two forms, is that of the list of
  mechanisms: the qualifier of the first one that designates the client, where a network
  designates the 32-bit words that agree with it in the upper bits; neutral if none does.
\<close>

theorem spf_evaluates_reference:
  assumes "ipv4_client client q" and "\<forall>qm\<in>set ms. wf_term qm" and "ms \<noteq> []"
  shows "evaluate_spf client d (record_text ms) = spf_reference ms (ipv4_word q) \<and>
    evaluate_spf client d ([CHR 0x22] @ record_text ms @ [CHR 0x22]) = spf_reference ms (ipv4_word q) \<and>
    validate_spf_syntax (record_text ms) = Inr ()"
proof -
  note t = record_trimmed [OF assms(2)] and w = record_words [OF assms(2)] and e = record_ends(1) [OF assms(2)]
  have nl: "\<not> length (''v=spf1'' # map term_text ms) < 2" using assms(3) by (cases ms) simp_all
  then show ?thesis
    using spf_terms_reference [OF assms(1,2)] e terms_syntax [OF assms(2)]
    unfolding evaluate_spf_def validate_spf_syntax_def Let_def t w
    by (simp only: record_prefix t w list.sel if_False if_True not_True_eq_False append_is_Nil_conv
        not_Cons_self2 option.case simp_thms list.distinct nl)
qed

theorem spf_evaluates_reference_witness:
  "evaluate_spf [192, 0, 2, 77] ''example.org''
     (record_text [(CHR ''+'', Spf_Net [192, 0, 2, 64] 26), (CHR ''-'', Spf_All)]) = auth_pass"
proof -
  have c: "ipv4_client [192, 0, 2, 77] [192, 0, 2, 77]" by (simp add: ipv4_client_def ip_bytes_def)
  have "evaluate_spf [192, 0, 2, 77] ''example.org''
     (record_text [(CHR ''+'', Spf_Net [192, 0, 2, 64] 26), (CHR ''-'', Spf_All)]) =
     spf_reference [(CHR ''+'', Spf_Net [192, 0, 2, 64] 26), (CHR ''-'', Spf_All)] (ipv4_word [192, 0, 2, 77])"
    using spf_evaluates_reference [OF c, of "[(CHR ''+'', Spf_Net [192, 0, 2, 64] 26), (CHR ''-'', Spf_All)]"]
    by (simp add: wf_term_def ip_bytes_def)
  also have "\<dots> = auth_pass"
    by (simp add: spf_reference_def ipv4_word_def spf_result_def) (simp add: drop_bit_eq_div)?
  finally show ?thesis .
qed

section \<open>Recipients\<close>

lemma sql_undefined_column_eq [sql_simps]: "sql_undefined_column db = (Inl (if fails db then Fault else Msg ''column does not exist''), tick db)"
  by (simp add: sql_undefined_column_def db_call_def)

definition receives :: "string \<Rightarrow> db \<Rightarrow> bool" where
  "receives email db \<longleftrightarrow>
     (\<exists>d\<in>set (domains db). str_split CHR ''@'' email = [hd (str_split CHR ''@'' email), to_lower (dom_name d)] \<and>
        dom_status d = ''active'') \<and>
     (\<exists>m\<in>set (mailboxes db). to_lower (mb_email m) = email \<and> mb_status m = ''active'' \<and>
        mb_provisioning_status m = ''ready'')"

lemma verify_recipient_frame:
  "verify_recipient e db = (r, db') \<Longrightarrow> mailboxes db' = mailboxes db \<and> domains db' = domains db"
  by (auto simp: verify_recipient_def sql_simps Let_def split: if_splits option.splits sum.splits)

lemma length_2: "length xs = 2 \<Longrightarrow> xs = [hd xs, xs ! 1]"
  by (cases xs; cases "tl xs") auto

lemma verify_recipient_True:
  assumes "verify_recipient e db = (Inr True, db')"
  shows "receives (canon e) db"
proof -
  let ?parts = "str_split CHR ''@'' (canon e)"
  from assms have l: "length ?parts = 2" and nf: "\<not> fails db"
    by (auto simp: verify_recipient_def canon_alt sql_simps Let_def split: if_splits)
  from assms l nf obtain d where d: "find (\<lambda>d. to_lower (dom_name d) = ?parts ! 1 \<and> dom_status d = ''active'') (domains db) = Some d"
    by (auto simp: verify_recipient_def canon_alt sql_simps Let_def split: option.splits)
  from assms l nf d have "rows_where (\<lambda>m. to_lower (mb_email m) = canon e \<and>
      mb_status m = ''active'' \<and> mb_provisioning_status m = ''ready'') (mailboxes db) \<noteq> []"
    by (auto simp: verify_recipient_def canon_alt sql_simps Let_def split: if_splits)
  then obtain m where "m \<in> set (mailboxes db)" "to_lower (mb_email m) = canon e" "mb_status m = ''active''"
    "mb_provisioning_status m = ''ready''"
    by (auto simp: rows_where_def filter_empty_conv)
  moreover have "d \<in> set (domains db)" "to_lower (dom_name d) = ?parts ! 1" "dom_status d = ''active''"
    using find_SomeD [OF d] by simp_all
  ultimately show ?thesis
    unfolding receives_def using length_2 [OF l] by (metis (no_types, lifting))
qed

text \<open>An alias never makes an address valid, whatever the table holds.\<close>

lemma aliases_never_verified:
  "fst (verify_recipient e (db\<lparr>aliases := als\<rparr>)) = fst (verify_recipient e db)"
  by (auto simp: verify_recipient_def sql_simps Let_def tick_def fails_def split: if_splits option.splits sum.splits)

section \<open>Alignment without organizational domains\<close>

text \<open>
  A top-level domain is aligned with every domain below it, and two hosts of one
  organization are not aligned with each other.
\<close>

lemma top_level_aligned: "is_domain_aligned ''com'' ''bank.com'' False"
  by code_simp

lemma siblings_not_aligned: "\<not> is_domain_aligned ''mail.example.com'' ''news.example.com'' False"
  by code_simp

section \<open>The verdict\<close>

definition dmarc_aligned :: "inbound_evaluation \<Rightarrow> bool" where
  "dmarc_aligned ev \<longleftrightarrow>
     (let from = to_lower (trim_space (after_last_at (ie_header_from ev)))
      in sv_status (ie_spf ev) = auth_pass \<and> is_domain_aligned (sv_domain (ie_spf ev)) from False \<or>
         dv_status (ie_dkim ev) = auth_pass \<and> is_domain_aligned (dv_domain (ie_dkim ev)) from False)"

definition dmarc_asks :: "inbound_evaluation \<Rightarrow> string" where
  "dmarc_asks ev = to_lower (trim_space (dmv_policy (ie_dmarc ev)))"

lemma action_distinct [simp]:
  "action_reject \<noteq> action_deliver" "action_quarantine \<noteq> action_deliver" "action_junk \<noteq> action_deliver"
  "action_deliver \<noteq> action_reject" "action_deliver \<noteq> action_quarantine" "action_deliver \<noteq> action_junk"
  "action_reject \<noteq> action_quarantine" "action_quarantine \<noteq> action_reject"
  "action_reject \<noteq> action_junk" "action_junk \<noteq> action_reject"
  "action_junk \<noteq> action_quarantine" "action_quarantine \<noteq> action_junk"
  by (simp_all add: action_consts)

lemma dmarc_action:
  "dmv_action (evaluate_dmarc (ie_header_from ev) (ie_spf ev) (ie_dkim ev) (dmv_policy (ie_dmarc ev))) =
    (if dmarc_aligned ev then action_deliver
     else if dmarc_asks ev = ''reject'' then action_reject
     else if dmarc_asks ev = ''quarantine'' then action_quarantine else action_deliver)"
proof -
  have n: "to_lower (trim_space '''') \<noteq> ''reject''" "to_lower (trim_space '''') \<noteq> ''quarantine''" by code_simp+
  show ?thesis
  proof (cases "dmv_policy (ie_dmarc ev) = ''''")
    case True
    then show ?thesis using n by (simp add: evaluate_dmarc_def dmarc_aligned_def dmarc_asks_def Let_def)
  next
    case False
    then show ?thesis by (simp add: evaluate_dmarc_def dmarc_aligned_def dmarc_asks_def Let_def)
  qed
qed

lemma evaluate_security_cases:
  assumes "evaluate_inbound_security ev = (ev', e)"
  shows "(e \<noteq> None \<longrightarrow> ie_final_action ev' = action_reject) \<and>
    (e = None \<longrightarrow> ie_antivirus_clean ev \<and> ie_message_size ev \<le> 26214400 \<and>
       (ie_reject_threshold ev > 0 \<longrightarrow> ie_spam_score ev < ie_reject_threshold ev) \<and>
       ie_final_action ev' =
         (if ie_spam_threshold ev > 0 \<and> ie_spam_score ev \<ge> ie_spam_threshold ev then action_junk
          else if dmv_action (ie_dmarc ev) = action_quarantine then action_quarantine else action_deliver) \<and>
       (ie_final_action ev' \<noteq> action_junk \<longrightarrow> dmv_action (ie_dmarc ev) \<noteq> action_reject))"
  using assms by (auto simp: evaluate_inbound_security_def split: if_splits)

lemma inbound_evaluate_cases:
  assumes "inbound_evaluate now ev db = ((ev', e), db')"
  obtains "ie_recipient ev \<noteq> ''''" and "fst (verify_recipient (ie_recipient ev) db) \<noteq> Inr True"
      and "e = Some err_recipient_rejected" and "db' = snd (verify_recipient (ie_recipient ev) db)"
    | ev2 ev3 where "ie_recipient ev = '''' \<and> db' = db \<or> verify_recipient (ie_recipient ev) db = (Inr True, db')"
      and "ev2 = ev\<lparr>ie_evaluated_at := now, ie_dmarc := evaluate_dmarc (ie_header_from ev) (ie_spf ev) (ie_dkim ev)
             (dmv_policy (ie_dmarc ev))\<rparr>"
      and "evaluate_inbound_security ev2 = (ev3, e)" and "ie_final_action ev' = ie_final_action ev3"
proof (cases "ie_recipient ev = ''''")
  case True
  with assms that(2) show thesis
    by (auto simp: inbound_evaluate_def Let_def split: prod.splits)
next
  case False
  obtain r db1 where v: "verify_recipient (ie_recipient ev) db = (r, db1)" by fastforce
  show thesis
  proof (cases "r = Inr True")
    case True
    with assms that(2) False v show thesis
      by (auto simp: inbound_evaluate_def Let_def split: prod.splits)
  next
    case r: False
    have "e = Some err_recipient_rejected \<and> db' = db1"
      using assms r False v by (simp add: inbound_evaluate_def Let_def)
    with r False v show thesis by (intro that(1)) simp_all
  qed
qed

text \<open>
  C36. What a verdict of the inbound pipeline takes. It changes no account. An error means
  that the recipient is not one who receives, or that the message is rejected. Without an
  error the recipient, if given, is in an active domain and has an active, provisioned
  mailbox; no virus was found, the message has at most 25 MB, its score is below the
  threshold of rejection; and it is delivered to the inbox exactly if its score is also
  below that of spam and either SPF or DKIM passed for a domain aligned with that of the
  author or the policy of the author asks for neither rejection nor quarantine.
\<close>

theorem inbound_delivery:
  assumes "inbound_evaluate now ev db = ((ev', e), db')"
  shows "mailboxes db' = mailboxes db \<and> domains db' = domains db \<and>
    (e \<noteq> None \<longrightarrow> e = Some err_recipient_rejected \<or> ie_final_action ev' = action_reject) \<and>
    (e = None \<longrightarrow>
       (ie_recipient ev \<noteq> '''' \<longrightarrow> receives (canon (ie_recipient ev)) db) \<and>
       ie_antivirus_clean ev \<and> ie_message_size ev \<le> 26214400 \<and>
       (ie_reject_threshold ev > 0 \<longrightarrow> ie_spam_score ev < ie_reject_threshold ev) \<and>
       (ie_final_action ev' = action_deliver \<longleftrightarrow>
          \<not> (ie_spam_threshold ev > 0 \<and> ie_spam_score ev \<ge> ie_spam_threshold ev) \<and>
          (dmarc_aligned ev \<or> dmarc_asks ev \<notin> {''reject'', ''quarantine''})))"
  using assms
proof (cases rule: inbound_evaluate_cases)
  case 1
  with verify_recipient_frame [of "ie_recipient ev" db _ db'] show ?thesis
    by (cases "verify_recipient (ie_recipient ev) db") auto
next
  case (2 ev2 ev3)
  have frame: "mailboxes db' = mailboxes db \<and> domains db' = domains db"
    using 2(1) verify_recipient_frame [of "ie_recipient ev" db _ db'] by auto
  have rec: "ie_recipient ev \<noteq> '''' \<longrightarrow> receives (canon (ie_recipient ev)) db"
    using 2(1) verify_recipient_True by blast
  have d: "dmv_action (ie_dmarc ev2) = (if dmarc_aligned ev then action_deliver
     else if dmarc_asks ev = ''reject'' then action_reject
     else if dmarc_asks ev = ''quarantine'' then action_quarantine else action_deliver)"
    by (simp add: 2(2) dmarc_action)
  note c = evaluate_security_cases [OF 2(3), unfolded d]
  have s: "ie_antivirus_clean ev2 = ie_antivirus_clean ev" "ie_message_size ev2 = ie_message_size ev"
    "ie_reject_threshold ev2 = ie_reject_threshold ev" "ie_spam_threshold ev2 = ie_spam_threshold ev"
    "ie_spam_score ev2 = ie_spam_score ev"
    by (simp_all add: 2(2))
  show ?thesis
  proof (cases e)
    case None
    with c frame rec show ?thesis
      unfolding s 2(4) by (cases "dmarc_aligned ev") (auto split: if_splits)
  next
    case (Some err)
    with c frame 2(4) show ?thesis by simp
  qed
qed

definition example_evaluation :: inbound_evaluation where
  "example_evaluation =
     \<lparr>ie_auth_serv_id = ''mx.example.org'', ie_client_ip = [192, 0, 2, 77], ie_client_hostname = '''',
      ie_helo = ''mail.sender.test'', ie_mail_from = ''bob@sender.test'', ie_header_from = ''bob@sender.test'',
      ie_recipient = '''', ie_message_size = 1000,
      ie_spf = \<lparr>sv_status = auth_pass, sv_domain = ''mail.sender.test'', sv_scope = ''mfrom'',
                 sv_aligned = True, sv_reason = ''''\<rparr>,
      ie_dkim = \<lparr>dv_status = auth_none, dv_domain = '''', dv_selector = '''', dv_aligned = False, dv_reason = ''''\<rparr>,
      ie_dmarc = \<lparr>dmv_status = auth_none, dmv_policy = ''reject'', dmv_spf_aligned = False,
                   dmv_dkim_aligned = False, dmv_action = action_deliver, dmv_reason = ''''\<rparr>,
      ie_spam_score = 1, ie_spam_threshold = 5, ie_reject_threshold = 10, ie_is_spam = False,
      ie_antivirus_clean = True, ie_virus_name = '''', ie_final_action = '''',
      ie_authentication_results = '''', ie_received_spf = '''', ie_evaluated_at = 0\<rparr>"

theorem inbound_delivery_witness:
  "\<exists>ev' db'. inbound_evaluate 7 example_evaluation empty_db = ((ev', None), db') \<and>
     ie_final_action ev' = action_deliver"
proof -
  have al: "dmarc_aligned example_evaluation"
    by (simp add: dmarc_aligned_def example_evaluation_def) code_simp
  obtain ev' e db' where r: "inbound_evaluate 7 example_evaluation empty_db = ((ev', e), db')"
    by (metis prod.exhaust)
  have s: "snd (evaluate_inbound_security (example_evaluation\<lparr>ie_evaluated_at := 7, ie_dmarc := D\<rparr>)) = None"
    if "dmv_action D = action_deliver" for D
    using that by (simp add: evaluate_inbound_security_def example_evaluation_def)
  have rec: "ie_recipient example_evaluation = ''''" by (simp add: example_evaluation_def)
  have e: "e = None"
  proof (cases rule: inbound_evaluate_cases [OF r])
    case (2 ev2 ev3)
    with s [OF dmarc_action [of example_evaluation, unfolded if_P [OF al]]] show ?thesis by simp
  qed (simp add: rec)
  have t: "\<not> (ie_spam_threshold example_evaluation > 0 \<and> ie_spam_score example_evaluation \<ge> ie_spam_threshold example_evaluation)"
    by (simp add: example_evaluation_def)
  from inbound_delivery [OF r] e al t have "ie_final_action ev' = action_deliver" by blast
  with r e show ?thesis by blast
qed

section \<open>Removing headers\<close>

lemma sanitize_trusted: "line \<in> set (sanitize_lines skip ls) \<Longrightarrow> \<not> untrusted_header line \<and> line \<in> set ls"
  by (induction skip ls rule: sanitize_lines.induct) (auto split: if_splits)

lemma sanitize_lines_id: "\<forall>line\<in>set ls. \<not> untrusted_header line \<Longrightarrow> sanitize_lines False ls = ls"
  by (induction ls) simp_all

lemma sanitize_lines_idem: "sanitize_lines False (sanitize_lines skip ls) = sanitize_lines skip ls"
  using sanitize_trusted by (intro sanitize_lines_id) blast

text \<open>Without an untrusted line a message passes as it is; the removal is idempotent.\<close>

lemma sanitize_unchanged:
  "\<forall>line\<in>set (str_split CHR 0x0A msg). \<not> untrusted_header line \<Longrightarrow> sanitize_untrusted_headers msg = msg"
  by (simp add: sanitize_untrusted_headers_def sanitize_lines_id join_split)

text \<open>The removal does not stop at the end of the header: a line of the body is removed, too.\<close>

lemma sanitize_body_line:
  "sanitize_lines False [''Subject: x'', '''', ''Received-SPF: see below'', '' quoted''] = [''Subject: x'', '''']"
  by code_simp

end
