(* ===== verification/Go_Time.thy ===== *)
theory Go_Time
  imports Go_Strings
begin

text \<open>
  What the mail queue uses of the package \<open>time\<close>: \<open>time.Parse\<close> with the layout
  \<open>Mon Jan 2 15:04:05\<close>, which has no year and so yields an instant of the year 0, and
  \<open>time.Since\<close>, whose result saturates at the range of a 64-bit number of nanoseconds.
\<close>

text \<open>A name of three letters, whatever its case, and the rest.\<close>

fun lookup_name :: "string list \<Rightarrow> string \<Rightarrow> (nat \<times> string) option" where
  "lookup_name [] s = None"
| "lookup_name (n # ns) s =
     (if length s \<ge> 3 \<and> to_lower (take 3 s) = to_lower n then Some (0, drop 3 s)
      else map_option (\<lambda>(i, r). (Suc i, r)) (lookup_name ns s))"

definition day_names :: "string list" where
  "day_names = [''Sun'', ''Mon'', ''Tue'', ''Wed'', ''Thu'', ''Fri'', ''Sat'']"

definition month_names :: "string list" where
  "month_names = [''Jan'', ''Feb'', ''Mar'', ''Apr'', ''May'', ''Jun'', ''Jul'', ''Aug'', ''Sep'', ''Oct'', ''Nov'', ''Dec'']"

text \<open>A blank of the layout stands for blanks of the value, unless the value is at its end.\<close>

definition skip_blank :: "string \<Rightarrow> string option" where
  "skip_blank s =
     (if s \<noteq> '''' \<and> hd s \<noteq> CHR '' '' then None else Some (dropWhile (\<lambda>c. c = CHR '' '') s))"

definition skip_colon :: "string \<Rightarrow> string option" where
  "skip_colon s = (if s \<noteq> '''' \<and> hd s = CHR '':'' then Some (tl s) else None)"

text \<open>A number of two digits, or of one when it need not be padded.\<close>

definition getnum :: "bool \<Rightarrow> string \<Rightarrow> (nat \<times> string) option" where
  "getnum fixed s =
     (case s of
        [] \<Rightarrow> None
      | c # r \<Rightarrow>
          if \<not> is_digit c then None
          else (case r of
              d # r' \<Rightarrow>
                if is_digit d then Some (10 * digit_val c + digit_val d, r')
                else if fixed then None else Some (digit_val c, r)
            | [] \<Rightarrow> if fixed then None else Some (digit_val c, r)))"

text \<open>A fraction after the seconds is accepted although the layout has none: nine digits count.\<close>

definition fraction :: "string \<Rightarrow> nat \<times> string" where
  "fraction s =
     (if length s \<ge> 2 \<and> (hd s = CHR ''.'' \<or> hd s = CHR '','') \<and> is_digit (s ! 1) then
        (let ds = takeWhile is_digit (tl s); ds9 = take 9 ds
         in (digits_val ds9 * 10 ^ (9 - length ds9), dropWhile is_digit (tl s)))
      else (0, s))"

text \<open>The year 0 is a leap year of the proleptic calendar.\<close>

definition month_days :: "nat list" where
  "month_days = [31, 29, 31, 30, 31, 30, 31, 31, 30, 31, 30, 31]"

definition year0_instant :: "nat \<Rightarrow> nat \<Rightarrow> nat \<Rightarrow> nat \<Rightarrow> nat \<Rightarrow> nat \<Rightarrow> instant" where
  "year0_instant month day h m s ns =
     ((int (sum_list (take month month_days)) + int day - 1 - 719528) * 86400 +
        int h * 3600 + int m * 60 + int s) * 1000000000 + int ns"

definition parse_stamp :: "string \<Rightarrow> instant option" where
  "parse_stamp s0 =
     Option.bind (lookup_name day_names s0) (\<lambda>(wd, s1).
     Option.bind (skip_blank s1) (\<lambda>s2.
     Option.bind (lookup_name month_names s2) (\<lambda>(mon, s3).
     Option.bind (skip_blank s3) (\<lambda>s4.
     Option.bind (getnum False s4) (\<lambda>(day, s5).
     Option.bind (skip_blank s5) (\<lambda>s6.
     Option.bind (getnum False s6) (\<lambda>(h, s7).
     if h \<ge> 24 then None else
     Option.bind (skip_colon s7) (\<lambda>s8.
     Option.bind (getnum True s8) (\<lambda>(m, s9).
     if m \<ge> 60 then None else
     Option.bind (skip_colon s9) (\<lambda>s10.
     Option.bind (getnum True s10) (\<lambda>(sec, s11).
     if sec \<ge> 60 then None else
     case fraction s11 of (ns, s12) \<Rightarrow>
       if s12 \<noteq> '''' \<or> day < 1 \<or> day > month_days ! mon then None
       else Some (year0_instant mon day h m sec ns))))))))))))"

text \<open>\<open>t.Sub(u)\<close>\<close>

definition time_sub :: "instant \<Rightarrow> instant \<Rightarrow> duration" where
  "time_sub t u = max (- (2 ^ 63)) (min (2 ^ 63 - 1) (t - u))"

definition zero_instant :: instant where
  "zero_instant = - 62135596800000000000"

lemma parse_stamp_example:
  "parse_stamp ''Fri Aug 21 22:01:12'' = Some (year0_instant 7 21 22 1 12 0)"
  by code_simp

text \<open>Every parsed stamp lies in the year 0, two thousand years before the epoch.\<close>

lemma lookup_name_less: "lookup_name ns s = Some (i, r) \<Longrightarrow> i < length ns"
  by (induction ns arbitrary: i) (auto split: if_splits)

lemma parse_stamp_Some:
  assumes "parse_stamp s = Some t"
  shows "\<exists>s2 mon s3 day h m sec s11. lookup_name month_names s2 = Some (mon, s3) \<and>
    day \<le> month_days ! mon \<and> h < 24 \<and> m < 60 \<and> sec < 60 \<and>
    t = year0_instant mon day h m sec (fst (fraction s11))"
  using assms
  by (clarsimp simp: parse_stamp_def Option.bind_eq_Some_conv case_prod_beta not_le not_less split: if_splits) blast

lemma parse_stamp_year0:
  assumes "parse_stamp s = Some t"
  shows "t < - 62135000000000000000"
proof -
  from assms obtain mon day h m sec s2 s3 s11 where
    l: "lookup_name month_names s2 = Some (mon, s3)" and d: "day \<le> month_days ! mon"
    and hms: "h < 24" "m < 60" "sec < 60"
    and t: "t = year0_instant mon day h m sec (fst (fraction s11))"
    using parse_stamp_Some by blast
  have mon: "mon < 12" using lookup_name_less [OF l] by (simp add: month_names_def)
  then have "sum_list (take mon month_days) + month_days ! mon \<le> 366"
    by (auto simp: month_days_def less_Suc_eq numeral_eq_Suc)
  with d have day: "int (sum_list (take mon month_days)) + int day \<le> 366" by linarith
  have ns: "fst (fraction s11) < 10 ^ 9"
  proof -
    let ?ds = "take 9 (takeWhile is_digit (tl s11))"
    have v: "digits_val ds < 10 ^ length ds" if "list_all is_digit ds" for ds
      using that
    proof (induction ds rule: rev_induct)
      case (snoc c ds)
      then have "digit_val c < 10" by (auto simp: is_digit_def digit_val_def)
      with snoc show ?case by simp
    qed (simp add: digits_val_def)
    have "list_all is_digit ?ds" by (auto simp: list_all_iff dest!: in_set_takeD set_takeWhileD)
    from v [OF this] have "digits_val ?ds * 10 ^ (9 - length ?ds) < 10 ^ length ?ds * 10 ^ (9 - length ?ds)"
      by (intro mult_strict_right_mono) simp_all
    also have "\<dots> = 10 ^ 9" by (simp flip: power_add)
    finally show ?thesis by (simp add: fraction_def Let_def)
  qed
  show ?thesis
    unfolding t year0_instant_def using day ns hms by simp
qed

end
