(* ===== verification/Mail_Queue.thy ===== *)
theory Mail_Queue
  imports Go_Time Go_Text Go_Regexp
begin

text \<open>
  The package \<open>internal/queue\<close>: reading the listing of \<open>postqueue -p\<close>, the summary, the
  service with its check of queue identifiers, the driver that runs the commands of Postfix,
  and the doctor. What a command does is a parameter: a function on a state of the system.
\<close>

section \<open>Model\<close>

type_synonym queue_status = string

definition status_q_active :: queue_status where "status_q_active = ''active''"
definition status_q_deferred :: queue_status where "status_q_deferred = ''deferred''"
definition status_q_hold :: queue_status where "status_q_hold = ''hold''"
definition status_q_bounce :: queue_status where "status_q_bounce = ''bounce''"
definition status_q_corrupt :: queue_status where "status_q_corrupt = ''corrupt''"
definition status_q_incoming :: queue_status where "status_q_incoming = ''incoming''"

lemmas queue_consts = status_q_active_def status_q_deferred_def status_q_hold_def
  status_q_bounce_def status_q_corrupt_def status_q_incoming_def

record queue_message =
  qm_id :: string
  qm_size :: int
  qm_arrival :: instant
  qm_sender :: string
  qm_recipient :: string
  qm_status :: queue_status
  qm_reason :: string
  qm_age :: string

record queue_summary =
  qs_active :: int
  qs_deferred :: int
  qs_hold :: int
  qs_bounce :: int
  qs_corrupt :: int
  qs_incoming :: int
  qs_total :: int
  qs_oldest :: "queue_message option"

definition empty_summary :: queue_summary where
  "empty_summary =
     \<lparr>qs_active = 0, qs_deferred = 0, qs_hold = 0, qs_bounce = 0, qs_corrupt = 0, qs_incoming = 0,
      qs_total = 0, qs_oldest = None\<rparr>"

section \<open>The listing as text\<close>

definition format_age :: "instant \<Rightarrow> instant \<Rightarrow> string" where
  "format_age now t =
     (let d = time_sub now t
      in if d < 0 then ''0s''
         else if d < 60000000000 then int_str (d div 1000000000) @ ''s''
         else if d < 3600000000000 then int_str (d div 60000000000) @ ''m''
         else int_str (d div 3600000000000) @ ''h '' @ int_str (d div 60000000000 mod 60) @ ''m'')"

text \<open>\<open>strconv.ParseInt\<close> with its value on an error, which the code keeps.\<close>

definition parse_size :: "string \<Rightarrow> int" where
  "parse_size s =
     (let neg = has_prefix s ''-''; ds = (if neg \<or> has_prefix s ''+'' then tl s else s)
      in if ds = [] \<or> \<not> list_all is_digit ds then 0
         else let v = int (digits_val ds)
              in if neg then max (- (2 ^ 63)) (- v) else min (2 ^ 63 - 1) v)"

definition is_entry_line :: "string \<Rightarrow> bool" where
  "is_entry_line line \<longleftrightarrow>
     length (Go_Strings.fields line) \<ge> 5 \<and> \<not> has_prefix line '' '' \<and> \<not> has_prefix line [CHR 0x09] \<and>
     \<not> has_prefix line ''(''"

definition entry_id :: "string \<Rightarrow> string \<times> queue_status" where
  "entry_id raw =
     (if has_suffix raw ''*'' then (trim_suffix raw ''*'', status_q_active)
      else if has_suffix raw ''!'' then (trim_suffix raw ''!'', status_q_hold)
      else (raw, status_q_deferred))"

definition entry_arrival :: "instant \<Rightarrow> string list \<Rightarrow> instant" where
  "entry_arrival now fs =
     (let t = (if length fs \<ge> 6 then
                 (case parse_stamp (str_join '' '' (take (length fs - 3) (drop 2 fs))) of
                    None \<Rightarrow> zero_instant | Some t \<Rightarrow> t)
               else zero_instant)
      in if t = zero_instant then now else t)"

definition parse_entry :: "instant \<Rightarrow> string \<Rightarrow> queue_message" where
  "parse_entry now line =
     (let fs = Go_Strings.fields line; (i, st) = entry_id (hd fs)
      in \<lparr>qm_id = i, qm_size = parse_size (fs ! 1), qm_arrival = entry_arrival now fs,
          qm_sender = last fs, qm_recipient = '''', qm_status = st, qm_reason = '''', qm_age = ''''\<rparr>)"

text \<open>One line: a header or footer, the start of an entry, or a detail of the current entry.\<close>

definition queue_line ::
    "instant \<Rightarrow> string \<Rightarrow> queue_message list \<times> queue_message option \<Rightarrow>
       queue_message list \<times> queue_message option" where
  "queue_line now line st =
     (case st of (messages, current) \<Rightarrow>
        let trimmed = trim_space line
        in if has_prefix line ''-Queue ID-'' \<or> has_prefix trimmed ''-- '' then st
           else if trimmed = '''' then st
           else if is_entry_line line then
             (messages @ (case current of None \<Rightarrow> [] | Some m \<Rightarrow> [m]), Some (parse_entry now line))
           else (case current of
               None \<Rightarrow> st
             | Some m \<Rightarrow>
                 if has_prefix trimmed ''('' \<and> has_suffix trimmed '')'' then
                   (messages, Some (m\<lparr>qm_reason := trim_suffix (trim_prefix trimmed ''('') '')''\<rparr>))
                 else if \<not> has_prefix trimmed ''('' then (messages, Some (m\<lparr>qm_recipient := trimmed\<rparr>))
                 else st))"

definition queue_lines :: "instant \<Rightarrow> string list \<Rightarrow> queue_message list" where
  "queue_lines now ls =
     (case foldl (\<lambda>st line. queue_line now line st) ([], None) ls of
        (messages, current) \<Rightarrow> messages @ (case current of None \<Rightarrow> [] | Some m \<Rightarrow> [m]))"

section \<open>The summary\<close>

definition count_status :: "queue_status \<Rightarrow> queue_summary \<Rightarrow> queue_summary" where
  "count_status st s =
     (if st = status_q_active then s\<lparr>qs_active := qs_active s + 1\<rparr>
      else if st = status_q_deferred then s\<lparr>qs_deferred := qs_deferred s + 1\<rparr>
      else if st = status_q_hold then s\<lparr>qs_hold := qs_hold s + 1\<rparr>
      else if st = status_q_bounce then s\<lparr>qs_bounce := qs_bounce s + 1\<rparr>
      else if st = status_q_corrupt then s\<lparr>qs_corrupt := qs_corrupt s + 1\<rparr>
      else if st = status_q_incoming then s\<lparr>qs_incoming := qs_incoming s + 1\<rparr>
      else s)"

definition older :: "queue_message option \<Rightarrow> queue_message \<Rightarrow> queue_message option" where
  "older oldest m =
     (case oldest of None \<Rightarrow> Some m | Some k \<Rightarrow> if qm_arrival m < qm_arrival k then Some m else Some k)"

definition populate_summary ::
    "instant \<Rightarrow> queue_summary \<Rightarrow> queue_message list \<Rightarrow> queue_summary \<times> queue_message list" where
  "populate_summary now s messages =
     (let aged = map (\<lambda>m. m\<lparr>qm_age := format_age now (qm_arrival m)\<rparr>) messages
      in (foldl (\<lambda>s m. count_status (qm_status m) s) (s\<lparr>qs_total := int (length messages)\<rparr>) aged
            \<lparr>qs_oldest := foldl older None aged\<rparr>,
          aged))"

section \<open>Listings in JSON lines\<close>

text \<open>
  A JSON object as the code decodes it: the members it reads. The decoder is a parameter.
\<close>

record raw_entry =
  re_queue_id :: string
  re_queue_name :: string
  re_size :: int
  re_arrival_time :: int
  re_sender :: string
  re_recipients :: "(string \<times> string) list"

type_synonym json_decoder = "string \<Rightarrow> raw_entry option"

definition raw_status :: "string \<Rightarrow> queue_status" where
  "raw_status name =
     (if name = ''active'' then status_q_active else if name = ''hold'' then status_q_hold
      else if name = ''incoming'' then status_q_incoming else if name = ''corrupt'' then status_q_corrupt
      else status_q_deferred)"

definition raw_message :: "raw_entry \<Rightarrow> queue_message" where
  "raw_message raw =
     \<lparr>qm_id = re_queue_id raw, qm_size = re_size raw, qm_arrival = re_arrival_time raw * 1000000000,
      qm_sender = re_sender raw,
      qm_recipient = (case re_recipients raw of [] \<Rightarrow> '''' | (a, r) # rs \<Rightarrow> a),
      qm_status = raw_status (re_queue_name raw),
      qm_reason = (case re_recipients raw of [] \<Rightarrow> '''' | (a, r) # rs \<Rightarrow> r), qm_age = ''''\<rparr>"

fun parse_json_queue :: "json_decoder \<Rightarrow> string list \<Rightarrow> queue_message list" where
  "parse_json_queue dec [] = []"
| "parse_json_queue dec (line # ls) =
     (let trimmed = trim_space line
      in if trimmed = '''' \<or> \<not> has_prefix trimmed ''{'' then parse_json_queue dec ls
         else (case dec trimmed of
             None \<Rightarrow> parse_json_queue dec ls
           | Some raw \<Rightarrow> raw_message raw # parse_json_queue dec ls))"

definition parse_queue_output :: "json_decoder \<Rightarrow> instant \<Rightarrow> string \<Rightarrow> queue_message list \<times> queue_summary" where
  "parse_queue_output dec now output0 =
     (let output = trim_space output0
      in if output = '''' \<or> contains output ''Mail queue is empty'' then ([], empty_summary)
         else let ls = str_split CHR 0x0A output;
                  json = (if has_prefix output ''{'' then parse_json_queue dec ls else [])
              in if json \<noteq> [] then (let (s, ms) = populate_summary now empty_summary json in (ms, s))
                 else (let (s, ms) = populate_summary now empty_summary (queue_lines now ls) in (ms, s)))"

section \<open>The driver\<close>

text \<open>
  The operating system as the driver uses it: whether a program is found, and what running a
  command answers (its output and whether it succeeded) and does.
\<close>

record 'q mail_system =
  sys_look_path :: "string \<Rightarrow> bool"
  sys_exec :: "string list \<Rightarrow> 'q \<Rightarrow> (string \<times> bool) \<times> 'q"

definition container_name :: "string \<Rightarrow> string" where
  "container_name n = (if n = '''' then ''mailopen_postfix'' else n)"

text \<open>The command on this host if it is there and succeeds, otherwise in the container.\<close>

definition run_command ::
    "'q mail_system \<Rightarrow> string \<Rightarrow> string \<Rightarrow> string list \<Rightarrow> 'q \<Rightarrow> (string \<times> err option) \<times> 'q" where
  "run_command sys container name args q =
     (let (done, q1) = (if sys_look_path sys name then
                          (case sys_exec sys (name # args) q of
                             ((out, ok), q1) \<Rightarrow> (if ok then Some out else None, q1))
                        else (None, q))
      in case done of
           Some out \<Rightarrow> ((out, None), q1)
         | None \<Rightarrow>
             (case sys_exec sys (''docker'' # ''exec'' # container # name # args) q1 of
                ((out, ok), q2) \<Rightarrow>
                  ((out, if ok then None else Some (Wrap ''docker exec failed'' (Msg (trim_space out)))), q2)))"

definition list_queue_raw :: "'q mail_system \<Rightarrow> string \<Rightarrow> 'q \<Rightarrow> (string \<times> err option) \<times> 'q" where
  "list_queue_raw sys container q =
     (case run_command sys container ''postqueue'' [''-p''] q of
        ((out, e), q1) \<Rightarrow>
          if e \<noteq> None \<and> contains out ''Mail queue is empty'' then ((out, None), q1) else ((out, e), q1))"

definition drv_inspect :: "'q mail_system \<Rightarrow> string \<Rightarrow> string \<Rightarrow> 'q \<Rightarrow> (string \<times> err option) \<times> 'q" where
  "drv_inspect sys container i = run_command sys container ''postcat'' [''-q'', i]"

definition drv_postsuper :: "string \<Rightarrow> 'q mail_system \<Rightarrow> string \<Rightarrow> string \<Rightarrow> 'q \<Rightarrow> err option \<times> 'q" where
  "drv_postsuper flag sys container i q =
     (case run_command sys container ''postsuper'' [flag, i] q of ((out, e), q1) \<Rightarrow> (e, q1))"

definition drv_delete :: "'q mail_system \<Rightarrow> string \<Rightarrow> string \<Rightarrow> 'q \<Rightarrow> err option \<times> 'q" where
  "drv_delete = drv_postsuper ''-d''"

definition drv_hold :: "'q mail_system \<Rightarrow> string \<Rightarrow> string \<Rightarrow> 'q \<Rightarrow> err option \<times> 'q" where
  "drv_hold = drv_postsuper ''-h''"

definition drv_release :: "'q mail_system \<Rightarrow> string \<Rightarrow> string \<Rightarrow> 'q \<Rightarrow> err option \<times> 'q" where
  "drv_release = drv_postsuper ''-H''"

definition drv_requeue :: "'q mail_system \<Rightarrow> string \<Rightarrow> string \<Rightarrow> 'q \<Rightarrow> err option \<times> 'q" where
  "drv_requeue = drv_postsuper ''-r''"

definition drv_flush :: "'q mail_system \<Rightarrow> string \<Rightarrow> 'q \<Rightarrow> err option \<times> 'q" where
  "drv_flush sys container q =
     (case run_command sys container ''postqueue'' [''-f''] q of ((out, e), q1) \<Rightarrow> (e, q1))"

section \<open>The service\<close>

definition queue_id_rx :: rx where
  "queue_id_rx =
     plus_rx (Cls [(CHR ''A'', CHR ''Z''), (CHR ''a'', CHR ''z''), (CHR ''0'', CHR ''9''), (CHR ''_'', CHR ''_''),
                   (CHR ''-'', CHR ''-'')])"

definition validate_queue_id :: "string \<Rightarrow> err option" where
  "validate_queue_id i0 =
     (let i = trim_space i0
      in if i = '''' \<or> \<not> rx_match queue_id_rx i then Some (Msg ''invalid queue ID format'') else None)"

definition queue_raw :: "'q mail_system \<Rightarrow> string \<Rightarrow> 'q \<Rightarrow> string result \<times> 'q" where
  "queue_raw sys container q =
     (case list_queue_raw sys container q of
        ((out, Some e), q1) \<Rightarrow> (if \<not> contains out ''Mail queue is empty'' then Inl e else Inr out, q1)
      | ((out, None), q1) \<Rightarrow> (Inr out, q1))"

definition queue_get_status ::
    "json_decoder \<Rightarrow> instant \<Rightarrow> 'q mail_system \<Rightarrow> string \<Rightarrow> 'q \<Rightarrow> queue_summary result \<times> 'q" where
  "queue_get_status dec now sys container q =
     (case queue_raw sys container q of
        (Inl e, q1) \<Rightarrow> (Inl e, q1)
      | (Inr out, q1) \<Rightarrow> (Inr (snd (parse_queue_output dec now out)), q1))"

definition queue_list ::
    "json_decoder \<Rightarrow> instant \<Rightarrow> 'q mail_system \<Rightarrow> string \<Rightarrow> string \<Rightarrow> 'q \<Rightarrow> queue_message list result \<times> 'q" where
  "queue_list dec now sys container filter_status q =
     (case queue_raw sys container q of
        (Inl e, q1) \<Rightarrow> (Inl e, q1)
      | (Inr out, q1) \<Rightarrow>
          let messages = fst (parse_queue_output dec now out)
          in (Inr (if filter_status = '''' then messages
                   else filter (\<lambda>m. to_lower (qm_status m) = to_lower (trim_space filter_status)) messages), q1))"

definition queue_inspect :: "'q mail_system \<Rightarrow> string \<Rightarrow> string \<Rightarrow> 'q \<Rightarrow> string result \<times> 'q" where
  "queue_inspect sys container i q =
     (case validate_queue_id i of
        Some e \<Rightarrow> (Inl e, q)
      | None \<Rightarrow> (case drv_inspect sys container i q of
            ((out, Some e), q1) \<Rightarrow> (Inl e, q1) | ((out, None), q1) \<Rightarrow> (Inr out, q1)))"

definition queue_checked :: "(string \<Rightarrow> 'q \<Rightarrow> err option \<times> 'q) \<Rightarrow> string \<Rightarrow> 'q \<Rightarrow> err option \<times> 'q" where
  "queue_checked f i q = (case validate_queue_id i of Some e \<Rightarrow> (Some e, q) | None \<Rightarrow> f i q)"

definition queue_retry :: "'q mail_system \<Rightarrow> string \<Rightarrow> string \<Rightarrow> 'q \<Rightarrow> err option \<times> 'q" where
  "queue_retry sys container = queue_checked (drv_requeue sys container)"

definition queue_delete :: "'q mail_system \<Rightarrow> string \<Rightarrow> string \<Rightarrow> 'q \<Rightarrow> err option \<times> 'q" where
  "queue_delete sys container = queue_checked (drv_delete sys container)"

definition queue_hold :: "'q mail_system \<Rightarrow> string \<Rightarrow> string \<Rightarrow> 'q \<Rightarrow> err option \<times> 'q" where
  "queue_hold sys container = queue_checked (drv_hold sys container)"

definition queue_release :: "'q mail_system \<Rightarrow> string \<Rightarrow> string \<Rightarrow> 'q \<Rightarrow> err option \<times> 'q" where
  "queue_release sys container = queue_checked (drv_release sys container)"

definition queue_flush :: "'q mail_system \<Rightarrow> string \<Rightarrow> 'q \<Rightarrow> err option \<times> 'q" where
  "queue_flush = drv_flush"

section \<open>The doctor\<close>

record queue_check =
  qc_name :: string
  qc_passed :: bool

record queue_report =
  qr_healthy :: bool
  qr_checks :: "queue_check list"

definition queue_doctor ::
    "json_decoder \<Rightarrow> instant \<Rightarrow> 'q mail_system \<Rightarrow> string \<Rightarrow> 'q \<Rightarrow> queue_report \<times> 'q" where
  "queue_doctor dec now sys container q =
     (case queue_get_status dec now sys container q of
        (Inl e, q1) \<Rightarrow>
          (\<lparr>qr_healthy = False, qr_checks = [\<lparr>qc_name = ''Postfix Queue Access'', qc_passed = False\<rparr>]\<rparr>, q1)
      | (Inr s, q1) \<Rightarrow>
          let access = \<lparr>qc_name = ''Postfix Queue Access'', qc_passed = True\<rparr>
          in if qs_deferred s > 100 then
               (\<lparr>qr_healthy = False, qr_checks = [access, \<lparr>qc_name = ''Deferred Queue Health'', qc_passed = False\<rparr>]\<rparr>, q1)
             else
               (\<lparr>qr_healthy = True, qr_checks = [access, \<lparr>qc_name = ''Deferred Queue Health'', qc_passed = True\<rparr>]\<rparr>, q1))"

end
