(* ===== verification/Mail_Queue_Props.thy ===== *)
theory Mail_Queue_Props
  imports Mail_Queue
begin

text \<open>
  What holds of the queue: a listing of Postfix is read back entry by entry, the summary
  counts them, and an identifier that passes the check reaches the command as one argument
  of safe characters. The layout of the listing is a relation between entries and lines, so
  the widths of its columns do not matter.
\<close>

section \<open>Listings\<close>

text \<open>
  An entry of a listing: below its head stand lines with the reason of a delay and lines with a
  recipient, any number of each in any order.
\<close>

datatype detail = Reason_Line string | Recipient_Line string

record listed =
  li_id :: string
  li_status :: queue_status
  li_size :: nat
  li_stamp :: "string list"
  li_sender :: string
  li_details :: "detail list"

definition li_recipients :: "listed \<Rightarrow> string list" where
  "li_recipients e = List.map_filter (\<lambda>d. case d of Recipient_Line a \<Rightarrow> Some a | _ \<Rightarrow> None) (li_details e)"

definition li_reasons :: "listed \<Rightarrow> string list" where
  "li_reasons e = List.map_filter (\<lambda>d. case d of Reason_Line r \<Rightarrow> Some r | _ \<Rightarrow> None) (li_details e)"

text \<open>The last element, and nothing for no element.\<close>

definition last_or_none :: "string list \<Rightarrow> string" where
  "last_or_none xs = last ('''' # xs)"

definition mark_of :: "queue_status \<Rightarrow> string" where
  "mark_of st = (if st = status_q_active then ''*'' else if st = status_q_hold then ''!'' else '''')"

definition wf_listed :: "listed \<Rightarrow> bool" where
  "wf_listed e \<longleftrightarrow>
     li_status e \<in> {status_q_active, status_q_hold, status_q_deferred} \<and>
     \<not> has_suffix (li_id e) ''*'' \<and> \<not> has_suffix (li_id e) ''!'' \<and>
     li_size e < 2 ^ 63 \<and> length (li_stamp e) = 4"

definition skip_line :: "string \<Rightarrow> bool" where
  "skip_line l \<longleftrightarrow> has_prefix l ''-Queue ID-'' \<or> has_prefix (trim_space l) ''-- '' \<or> trim_space l = ''''"

definition indented :: "string \<Rightarrow> bool" where
  "indented l \<longleftrightarrow> has_prefix l '' '' \<or> has_prefix l [CHR 0x09] \<or> has_prefix l ''(''"

definition shows_head :: "listed \<Rightarrow> string \<Rightarrow> bool" where
  "shows_head e l \<longleftrightarrow>
     Go_Strings.fields l = (li_id e @ mark_of (li_status e)) # nat_str (li_size e) # li_stamp e @ [li_sender e] \<and>
     \<not> skip_line l \<and> \<not> indented l"

primrec shows_detail :: "detail \<Rightarrow> string \<Rightarrow> bool" where
  "shows_detail (Reason_Line r) l \<longleftrightarrow> trim_space l = ''('' @ r @ '')'' \<and> \<not> skip_line l \<and> indented l"
| "shows_detail (Recipient_Line a) l \<longleftrightarrow>
     trim_space l = a \<and> \<not> has_prefix a ''('' \<and> \<not> skip_line l \<and> indented l"

inductive listing :: "listed list \<Rightarrow> string list \<Rightarrow> bool" where
  listing_Nil: "listing [] []"
| listing_skip: "skip_line l \<Longrightarrow> listing es ls \<Longrightarrow> listing es (l # ls)"
| listing_entry:
    "wf_listed e \<Longrightarrow> shows_head e h \<Longrightarrow> list_all2 shows_detail (li_details e) rs \<Longrightarrow>
       listing es ls \<Longrightarrow> listing (e # es) (h # rs @ ls)"

text \<open>What an entry is read as; its age comes later. Of several recipients only the last one is kept.\<close>

definition listed_message :: "instant \<Rightarrow> listed \<Rightarrow> queue_message" where
  "listed_message now e =
     \<lparr>qm_id = li_id e, qm_size = int (li_size e),
      qm_arrival = (let t = (case parse_stamp (str_join '' '' (li_stamp e)) of None \<Rightarrow> zero_instant | Some t \<Rightarrow> t)
                    in if t = zero_instant then now else t),
      qm_sender = li_sender e, qm_recipient = last_or_none (li_recipients e), qm_status = li_status e,
      qm_reason = last_or_none (li_reasons e), qm_age = ''''\<rparr>"

lemma parse_size_nat_str: "n < 2 ^ 63 \<Longrightarrow> parse_size (nat_str n) = int n"
proof -
  assume n: "n < 2 ^ 63"
  have "\<not> has_prefix (nat_str n) ''-''" "\<not> has_prefix (nat_str n) ''+''"
    using nat_str_digit [of "hd (nat_str n)" n] nat_str_not_Nil [of n]
    by (cases "nat_str n"; auto simp: has_prefix_def is_digit_def byte_def)+
  moreover have "int n < 2 ^ 63" using n by (simp flip: of_nat_less_iff)
  ultimately show ?thesis by (simp add: parse_size_def nat_str_digits)
qed

lemma suffix_snoc: "has_suffix (s @ [c]) [d] \<longleftrightarrow> c = d"
  by (simp add: has_suffix_def)

lemma entry_id_mark: "wf_listed e \<Longrightarrow> entry_id (li_id e @ mark_of (li_status e)) = (li_id e, li_status e)"
  by (auto simp: wf_listed_def entry_id_def mark_of_def queue_consts suffix_snoc trim_suffix_def)

definition head_message :: "instant \<Rightarrow> listed \<Rightarrow> queue_message" where
  "head_message now e = (listed_message now e)\<lparr>qm_recipient := '''', qm_reason := ''''\<rparr>"

lemma parse_entry_head:
  assumes "wf_listed e" and "shows_head e h"
  shows "parse_entry now h = head_message now e"
proof -
  have f: "Go_Strings.fields h = (li_id e @ mark_of (li_status e)) # nat_str (li_size e) # li_stamp e @ [li_sender e]"
    using assms(2) by (simp add: shows_head_def)
  have "length (li_stamp e) = 4" "parse_size (nat_str (li_size e)) = int (li_size e)"
    using assms(1) parse_size_nat_str by (simp_all add: wf_listed_def)
  then show ?thesis
    by (simp add: parse_entry_def f entry_id_mark [OF assms(1)] head_message_def listed_message_def entry_arrival_def)
qed

lemma queue_line_skip: "skip_line l \<Longrightarrow> queue_line now l st = st"
  by (cases st) (auto simp: queue_line_def skip_line_def Let_def)

lemma queue_line_head:
  assumes "wf_listed e" and "shows_head e h"
  shows "queue_line now h (ms, cur) = (ms @ (case cur of None \<Rightarrow> [] | Some m \<Rightarrow> [m]), Some (head_message now e))"
  using assms parse_entry_head [OF assms]
  by (auto simp: queue_line_def Let_def shows_head_def skip_line_def indented_def is_entry_line_def wf_listed_def)

lemma queue_line_detail:
  "shows_detail d l \<Longrightarrow> queue_line now l (ms, Some m) =
     (ms, Some (case d of Reason_Line r \<Rightarrow> m\<lparr>qm_reason := r\<rparr> | Recipient_Line a \<Rightarrow> m\<lparr>qm_recipient := a\<rparr>))"
  by (cases d) (auto simp: queue_line_def Let_def skip_line_def indented_def is_entry_line_def
      has_prefix_def has_suffix_def trim_suffix_def trim_prefix_def)

text \<open>Each line overwrites what an earlier one of its kind left.\<close>

lemma queue_line_details:
  assumes "list_all2 shows_detail ds rs"
  shows "foldl (\<lambda>st line. queue_line now line st) (ms, Some m) rs =
    (ms, Some (m\<lparr>qm_recipient := last (qm_recipient m #
        List.map_filter (\<lambda>d. case d of Recipient_Line a \<Rightarrow> Some a | _ \<Rightarrow> None) ds),
      qm_reason := last (qm_reason m # List.map_filter (\<lambda>d. case d of Reason_Line r \<Rightarrow> Some r | _ \<Rightarrow> None) ds)\<rparr>))"
  using assms
proof (induction ds rs arbitrary: m rule: list_all2_induct)
  case (Cons d ds l rs)
  show ?case
    by (cases d) (simp_all add: queue_line_detail [OF Cons.hyps(1)] Cons.IH List.map_filter_def)
qed (simp add: List.map_filter_def)

lemma listing_lines:
  assumes "listing es ls"
  shows "(case foldl (\<lambda>st line. queue_line now line st) (ms, cur) ls of
      (ms', cur') \<Rightarrow> ms' @ (case cur' of None \<Rightarrow> [] | Some m \<Rightarrow> [m])) =
    ms @ (case cur of None \<Rightarrow> [] | Some m \<Rightarrow> [m]) @ map (listed_message now) es"
  using assms
proof (induction arbitrary: ms cur rule: listing.induct)
  case (listing_entry e h rs es ls)
  have "(head_message now e)\<lparr>qm_recipient := last (qm_recipient (head_message now e) # li_recipients e),
      qm_reason := last (qm_reason (head_message now e) # li_reasons e)\<rparr> = listed_message now e"
    by (simp add: head_message_def listed_message_def last_or_none_def)
  then have "foldl (\<lambda>st line. queue_line now line st) (ms, Some (head_message now e)) rs = (ms, Some (listed_message now e))" for ms
    by (simp only: queue_line_details [OF listing_entry.hyps(3)] flip: li_recipients_def li_reasons_def)
  with listing_entry show ?case
    by (simp add: queue_line_head)
qed (simp_all add: queue_line_skip)

lemma queue_lines_listing: "listing es ls \<Longrightarrow> queue_lines now ls = map (listed_message now) es"
  using listing_lines [of es ls now "[]" None] by (simp add: queue_lines_def)

section \<open>The summary\<close>

definition count_of :: "queue_status \<Rightarrow> queue_message list \<Rightarrow> int" where
  "count_of st ms = int (length (filter (\<lambda>m. qm_status m = st) ms))"

lemma queue_status_distinct [simp]:
  "status_q_active \<noteq> status_q_deferred" "status_q_active \<noteq> status_q_hold" "status_q_deferred \<noteq> status_q_hold"
  "status_q_deferred \<noteq> status_q_active" "status_q_hold \<noteq> status_q_active" "status_q_hold \<noteq> status_q_deferred"
  by (simp_all add: queue_consts)

lemma counts_fold:
  "(let s' = foldl (\<lambda>s m. count_status (qm_status m) s) s ms
    in qs_active s' = qs_active s + count_of status_q_active ms \<and>
       qs_deferred s' = qs_deferred s + count_of status_q_deferred ms \<and>
       qs_hold s' = qs_hold s + count_of status_q_hold ms \<and>
       qs_total s' = qs_total s)"
  by (induction ms arbitrary: s) (simp_all add: count_of_def count_status_def Let_def)

lemma older_fold:
  "\<exists>m. foldl older (Some k) ms = Some m \<and> m \<in> set (k # ms) \<and> (\<forall>x\<in>set (k # ms). qm_arrival m \<le> qm_arrival x)"
proof (induction ms arbitrary: k)
  case (Cons a ms)
  show ?case
  proof (cases "qm_arrival a < qm_arrival k")
    case True
    with Cons.IH [of a] show ?thesis by (fastforce simp: older_def)
  next
    case False
    with Cons.IH [of k] show ?thesis by (fastforce simp: older_def)
  qed
qed simp

lemma populate_summary_facts:
  assumes "populate_summary now empty_summary ms = (s, ms')"
  shows "map (\<lambda>m. m\<lparr>qm_age := ''''\<rparr>) ms' = map (\<lambda>m. m\<lparr>qm_age := ''''\<rparr>) ms"
    and "qs_total s = int (length ms)"
    and "qs_active s = count_of status_q_active ms" and "qs_deferred s = count_of status_q_deferred ms"
    and "qs_hold s = count_of status_q_hold ms"
    and "ms \<noteq> [] \<Longrightarrow> \<exists>m. qs_oldest s = Some m \<and> m \<in> set ms' \<and> (\<forall>x\<in>set ms'. qm_arrival m \<le> qm_arrival x)"
    and "\<forall>m\<in>set ms'. qm_age m = format_age now (qm_arrival m)"
proof -
  define aged where "aged = map (\<lambda>m. m\<lparr>qm_age := format_age now (qm_arrival m)\<rparr>) ms"
  have ms': "ms' = aged"
    and s: "s = foldl (\<lambda>s m. count_status (qm_status m) s) (empty_summary\<lparr>qs_total := int (length ms)\<rparr>) aged
       \<lparr>qs_oldest := foldl older None aged\<rparr>"
    using assms by (auto simp: populate_summary_def aged_def Let_def)
  have c: "count_of st aged = count_of st ms" for st
    by (simp add: aged_def count_of_def filter_map comp_def)
  show "map (\<lambda>m. m\<lparr>qm_age := ''''\<rparr>) ms' = map (\<lambda>m. m\<lparr>qm_age := ''''\<rparr>) ms"
    by (simp add: ms' aged_def)
  show "qs_total s = int (length ms)" "qs_active s = count_of status_q_active ms"
    "qs_deferred s = count_of status_q_deferred ms" "qs_hold s = count_of status_q_hold ms"
    using counts_fold [of "empty_summary\<lparr>qs_total := int (length ms)\<rparr>" aged]
    by (simp_all add: s Let_def c empty_summary_def)
  show "\<forall>m\<in>set ms'. qm_age m = format_age now (qm_arrival m)"
    by (simp add: ms' aged_def)
  show "\<exists>m. qs_oldest s = Some m \<and> m \<in> set ms' \<and> (\<forall>x\<in>set ms'. qm_arrival m \<le> qm_arrival x)" if "ms \<noteq> []"
  proof -
    from that obtain a as where "aged = a # as" by (cases ms) (simp_all add: aged_def)
    with older_fold [of a as] show ?thesis by (simp add: s ms' older_def)
  qed
qed

text \<open>
  The stamp of a listing has no year, so the age of every entry is the longest one there
  is, whatever the time of the day.
\<close>

lemma stamp_age_saturates:
  assumes "0 \<le> now" and "parse_stamp stamp = Some t"
  shows "format_age now t = ''2562047h 47m''"
proof -
  have "time_sub now t = 2 ^ 63 - 1"
    using parse_stamp_year0 [OF assms(2)] assms(1) by (simp add: time_sub_def)
  moreover have "int_str 2562047 = ''2562047''" "int_str 47 = ''47''"
    by (simp_all add: int_str_def nat_str.simps digit_char_def) code_simp+
  ultimately show ?thesis by (simp add: format_age_def Let_def)
qed

section \<open>Identifiers\<close>

lemma whole_queue_is_an_id: "validate_queue_id ''ALL'' = None" "validate_queue_id ''-d'' = None"
  by code_simp+

text \<open>What passes the check, apart from white space around it, has no other characters.\<close>

lemma checked_command:
  "queue_delete sys container i q =
     (if validate_queue_id i = None then
        (case run_command sys container ''postsuper'' [''-d'', i] q of ((out, e), q1) \<Rightarrow> (e, q1))
      else (validate_queue_id i, q))"
  by (simp add: queue_delete_def queue_checked_def drv_delete_def drv_postsuper_def split: option.splits)

section \<open>Properties\<close>

definition shown :: "queue_message \<Rightarrow> string \<times> queue_status \<times> int \<times> string \<times> string \<times> string" where
  "shown m = (qm_id m, qm_status m, qm_size m, qm_sender m, qm_recipient m, qm_reason m)"

definition shown_of :: "listed \<Rightarrow> string \<times> queue_status \<times> int \<times> string \<times> string \<times> string" where
  "shown_of e = (li_id e, li_status e, int (li_size e), li_sender e,
     last_or_none (li_recipients e), last_or_none (li_reasons e))"

lemma parse_listing:
  assumes "trim_space out \<noteq> ''''" and "\<not> contains (trim_space out) ''Mail queue is empty''"
    and "\<not> has_prefix (trim_space out) ''{''" and "listing es (str_split CHR 0x0A (trim_space out))"
  shows "parse_queue_output dec now out =
    (case populate_summary now empty_summary (map (listed_message now) es) of (s, ms) \<Rightarrow> (ms, s))"
  using assms by (simp add: parse_queue_output_def queue_lines_listing)

lemma shown_age: "shown (m\<lparr>qm_age := a\<rparr>) = shown m"
  by (simp add: shown_def)

lemma map_shown_age:
  "map (\<lambda>m. m\<lparr>qm_age := ''''\<rparr>) ms' = map (\<lambda>m. m\<lparr>qm_age := ''''\<rparr>) ms \<Longrightarrow> map shown ms' = map shown ms"
proof -
  assume "map (\<lambda>m. m\<lparr>qm_age := ''''\<rparr>) ms' = map (\<lambda>m. m\<lparr>qm_age := ''''\<rparr>) ms"
  then have "map shown (map (\<lambda>m. m\<lparr>qm_age := ''''\<rparr>) ms') = map shown (map (\<lambda>m. m\<lparr>qm_age := ''''\<rparr>) ms)"
    by (rule arg_cong)
  then show ?thesis by (simp add: comp_def shown_age)
qed

lemma queue_status_lower:
  assumes "x \<in> {status_q_active, status_q_hold, status_q_deferred}"
  shows "to_lower (trim_space x) = x" and "to_lower x = x" and "x \<noteq> ''''"
proof -
  have "to_lower (trim_space y) = y \<and> to_lower y = y \<and> y \<noteq> ''''" if "y \<in> {''active'', ''hold'', ''deferred''}" for y
    using that by (elim insertE emptyE; simp only:; code_simp)
  with assms show "to_lower (trim_space x) = x" "to_lower x = x" "x \<noteq> ''''"
    by (auto simp: queue_consts)
qed

lemma shown_filter:
  assumes "map shown ms = map shown_of es"
    and "\<forall>e\<in>set es. li_status e \<in> {status_q_active, status_q_hold, status_q_deferred}"
  shows "map shown (filter (\<lambda>m. to_lower (qm_status m) = st) ms) = map shown_of (filter (\<lambda>e. li_status e = st) es)"
  using assms
proof (induction ms arbitrary: es)
  case (Cons m ms)
  then obtain e es' where es: "es = e # es'" "shown m = shown_of e" "map shown ms = map shown_of es'"
    by (cases es) auto
  then have "qm_status m = li_status e" by (simp add: shown_def shown_of_def)
  with Cons es queue_status_lower(2) [of "li_status e"] show ?case by simp
qed simp

text \<open>
  C37. What Postfix lists is read back: for a listing of some entries, with any layout of
  the columns, headings and footers, and with any number of lines for recipients and reasons below
  each, the messages are these entries in their order, each with its identifier without the mark,
  the status the mark stands for, its size and sender, and with the last of its recipients and of
  its reasons: of several recipients all but the last one are lost. The summary counts them by status, the counts add up to the total,
  and the oldest message is one of them that no other precedes. A listing filtered by a
  status has exactly the entries of that status.
\<close>

theorem listing_read_back:
  assumes "es \<noteq> []" and "trim_space out \<noteq> ''''" and "\<not> contains (trim_space out) ''Mail queue is empty''"
    and "\<not> has_prefix (trim_space out) ''{''" and "listing es (str_split CHR 0x0A (trim_space out))"
  shows "\<exists>ms s. parse_queue_output dec now out = (ms, s) \<and> map shown ms = map shown_of es \<and>
    qs_total s = int (length es) \<and>
    qs_active s = int (length (filter (\<lambda>e. li_status e = status_q_active) es)) \<and>
    qs_hold s = int (length (filter (\<lambda>e. li_status e = status_q_hold) es)) \<and>
    qs_active s + qs_hold s + qs_deferred s = qs_total s \<and>
    (\<exists>m\<in>set ms. qs_oldest s = Some m \<and> (\<forall>x\<in>set ms. qm_arrival m \<le> qm_arrival x)) \<and>
    (\<forall>(sys :: 'q mail_system) container q q1 st. st \<in> {status_q_active, status_q_hold, status_q_deferred} \<and>
       queue_raw sys container q = (Inr out, q1) \<longrightarrow>
       (\<exists>fs. queue_list dec now sys container st q = (Inr fs, q1) \<and>
          map shown fs = map shown_of (filter (\<lambda>e. li_status e = st) es)))"
proof -
  obtain s ms where p: "populate_summary now empty_summary (map (listed_message now) es) = (s, ms)"
    by fastforce
  note facts = populate_summary_facts [OF p]
  have out: "parse_queue_output dec now out = (ms, s)"
    by (simp add: parse_listing [OF assms(2-5)] p)
  have same: "shown (listed_message now e) = shown_of e" for e
    by (simp add: shown_def shown_of_def listed_message_def)
  have sh: "map shown ms = map shown_of es"
    using map_shown_age [OF facts(1)] by (simp add: same comp_def)
  have cnt: "count_of st (map (listed_message now) es) = int (length (filter (\<lambda>e. li_status e = st) es))" for st
    by (simp add: count_of_def filter_map comp_def listed_message_def)
  have st: "li_status e \<in> {status_q_active, status_q_hold, status_q_deferred}" if "e \<in> set es" for e
    using assms(5) that by (induction rule: listing.induct) (auto simp: wf_listed_def)
  have three: "length (filter (\<lambda>e. li_status e = status_q_active) xs) + length (filter (\<lambda>e. li_status e = status_q_hold) xs) +
      length (filter (\<lambda>e. li_status e = status_q_deferred) xs) = length xs"
    if "\<forall>e\<in>set xs. li_status e \<in> {status_q_active, status_q_hold, status_q_deferred}" for xs
    using that by (induction xs) auto
  have sum: "qs_active s + qs_hold s + qs_deferred s = qs_total s"
    using three [of es] st by (simp add: facts(2-5) cnt flip: of_nat_add)
  have old: "\<exists>m\<in>set ms. qs_oldest s = Some m \<and> (\<forall>x\<in>set ms. qm_arrival m \<le> qm_arrival x)"
    using facts(6) assms(1) by auto
  have fil: "\<exists>fs. queue_list dec now sys container st q = (Inr fs, q1) \<and>
      map shown fs = map shown_of (filter (\<lambda>e. li_status e = st) es)"
    if h: "st \<in> {status_q_active, status_q_hold, status_q_deferred}" "queue_raw sys container q = (Inr out, q1)"
    for sys :: "'q mail_system" and container q q1 st
  proof -
    show ?thesis
      using shown_filter [OF sh] st h(2) queue_status_lower [OF h(1)] by (simp add: queue_list_def Let_def out)
  qed
  show ?thesis
  proof (rule exI [of _ ms], rule exI [of _ s], intro conjI)
    show "parse_queue_output dec now out = (ms, s)" by (rule out)
    show "map shown ms = map shown_of es" by (rule sh)
    show "qs_total s = int (length es)" "qs_active s = int (length (filter (\<lambda>e. li_status e = status_q_active) es))"
      "qs_hold s = int (length (filter (\<lambda>e. li_status e = status_q_hold) es))"
      by (simp_all add: facts(2-5) cnt)
    show "qs_active s + qs_hold s + qs_deferred s = qs_total s" by (rule sum)
    show "\<exists>m\<in>set ms. qs_oldest s = Some m \<and> (\<forall>x\<in>set ms. qm_arrival m \<le> qm_arrival x)" by (rule old)
    show "\<forall>(sys :: 'q mail_system) container q q1 st. st \<in> {status_q_active, status_q_hold, status_q_deferred} \<and>
        queue_raw sys container q = (Inr out, q1) \<longrightarrow>
        (\<exists>fs. queue_list dec now sys container st q = (Inr fs, q1) \<and>
           map shown fs = map shown_of (filter (\<lambda>e. li_status e = st) es))"
      by (intro allI impI, elim conjE) (rule fil)
  qed
qed

definition example_listing :: string where
  "example_listing =
     ''-Queue ID-  --Size-- ----Arrival Time---- -Sender/Recipient-------'' @ [CHR 0x0A] @
     ''4F1A2B3C*    1024 Fri Aug 21 22:01:12  ann@example.org'' @ [CHR 0x0A] @
     ''                                       bob@example.net'' @ [CHR 0x0A] @ [CHR 0x0A] @
     ''5A6B7C8D     2048 Fri Aug 21 22:02:13  ann@example.org'' @ [CHR 0x0A] @
     ''(connection refused)'' @ [CHR 0x0A] @
     ''                                       carl@example.com'' @ [CHR 0x0A] @
     ''                                       dora@example.com'' @ [CHR 0x0A] @ [CHR 0x0A] @
     ''-- 3 Kbytes in 2 Requests.''"

definition example_listed :: "listed list" where
  "example_listed =
     [\<lparr>li_id = ''4F1A2B3C'', li_status = status_q_active, li_size = 1024,
       li_stamp = [''Fri'', ''Aug'', ''21'', ''22:01:12''], li_sender = ''ann@example.org'',
       li_details = [Recipient_Line ''bob@example.net'']\<rparr>,
      \<lparr>li_id = ''5A6B7C8D'', li_status = status_q_deferred, li_size = 2048,
       li_stamp = [''Fri'', ''Aug'', ''21'', ''22:02:13''], li_sender = ''ann@example.org'',
       li_details = [Reason_Line ''connection refused'', Recipient_Line ''carl@example.com'', Recipient_Line ''dora@example.com'']\<rparr>]"

lemma example_listing_lines: "listing example_listed (str_split CHR 0x0A (trim_space example_listing))"
proof -
  let ?h1 = "''4F1A2B3C*    1024 Fri Aug 21 22:01:12  ann@example.org''"
  let ?a1 = "''                                       bob@example.net''"
  let ?h2 = "''5A6B7C8D     2048 Fri Aug 21 22:02:13  ann@example.org''"
  let ?r2 = "''(connection refused)''"
  let ?a2 = "''                                       carl@example.com''"
  let ?b2 = "''                                       dora@example.com''"
  have split: "str_split CHR 0x0A (trim_space example_listing) =
      ''-Queue ID-  --Size-- ----Arrival Time---- -Sender/Recipient-------'' # ?h1 # [?a1] @
        '''' # ?h2 # [?r2, ?a2, ?b2] @ ['''', ''-- 3 Kbytes in 2 Requests.'']"
    by code_simp
  have head: "Go_Strings.fields ?h1 = [''4F1A2B3C*'', ''1024'', ''Fri'', ''Aug'', ''21'', ''22:01:12'', ''ann@example.org'']"
    "\<not> skip_line ?h1" "\<not> indented ?h1"
    "Go_Strings.fields ?h2 = [''5A6B7C8D'', ''2048'', ''Fri'', ''Aug'', ''21'', ''22:02:13'', ''ann@example.org'']"
    "\<not> skip_line ?h2" "\<not> indented ?h2" by code_simp+
  have det: "shows_detail (Recipient_Line ''bob@example.net'') ?a1" "shows_detail (Reason_Line ''connection refused'') ?r2"
    "shows_detail (Recipient_Line ''carl@example.com'') ?a2" "shows_detail (Recipient_Line ''dora@example.com'') ?b2"
    by code_simp+
  have num: "nat_str 1024 = ''1024''" "nat_str 2048 = ''2048''"
    by (simp_all add: nat_str.simps digit_char_def) code_simp+
  have skips: "skip_line ''-Queue ID-  --Size-- ----Arrival Time---- -Sender/Recipient-------''"
    "skip_line ''''" "skip_line ''-- 3 Kbytes in 2 Requests.''" by code_simp+
  have wf: "wf_listed (example_listed ! 0)" "wf_listed (example_listed ! 1)"
    by (simp_all add: wf_listed_def example_listed_def has_suffix_def)
  have heads: "shows_head (example_listed ! 0) ?h1" "shows_head (example_listed ! 1) ?h2"
    by (simp_all add: shows_head_def head, simp_all add: example_listed_def mark_of_def num)
  have lines: "list_all2 shows_detail (li_details (example_listed ! 0)) [?a1]"
    "list_all2 shows_detail (li_details (example_listed ! 1)) [?r2, ?a2, ?b2]"
    by (simp_all only: example_listed_def nth_Cons_0 nth_Cons_Suc One_nat_def listed.simps list_all2_Cons list_all2_Nil det simp_thms)
  have two: "example_listed = [example_listed ! 0, example_listed ! 1]" by (simp add: example_listed_def)
  show ?thesis
    unfolding split
    by (subst two, intro listing_skip [OF skips(1)] listing_entry [OF wf(1) heads(1) lines(1)] listing_skip [OF skips(2)]
        listing_entry [OF wf(2) heads(2) lines(2)] listing_skip [OF skips(3)] listing_Nil)
qed

theorem listing_read_back_witness:
  "\<exists>ms s. parse_queue_output (\<lambda>s. None) 0 example_listing = (ms, s) \<and> map shown ms =
       [(''4F1A2B3C'', status_q_active, 1024, ''ann@example.org'', ''bob@example.net'', ''''),
        (''5A6B7C8D'', status_q_deferred, 2048, ''ann@example.org'', ''dora@example.com'', ''connection refused'')] \<and>
     qs_active s = 1"
proof -
  have out: "trim_space example_listing \<noteq> ''''" "\<not> contains (trim_space example_listing) ''Mail queue is empty''"
    "\<not> has_prefix (trim_space example_listing) ''{''" "example_listed \<noteq> []"
    by code_simp+
  have sh: "map shown_of example_listed =
       [(''4F1A2B3C'', status_q_active, 1024, ''ann@example.org'', ''bob@example.net'', ''''),
        (''5A6B7C8D'', status_q_deferred, 2048, ''ann@example.org'', ''dora@example.com'', ''connection refused'')]"
    "length (filter (\<lambda>e. li_status e = status_q_active) example_listed) = 1"
    by (simp_all add: example_listed_def shown_of_def li_recipients_def li_reasons_def List.map_filter_def last_or_none_def)
  from listing_read_back [OF out(4,1-3) example_listing_lines, of "\<lambda>s. None" 0]
  show ?thesis unfolding sh by auto
qed

end
