(* ===== verification/Bounce.thy ===== *)
theory Bounce
  imports Go_Strings
begin

text \<open>
  The package \<open>internal/bounce\<close>: the two patterns that find the codes of a rejection in a
  text, the classification, and the reading of a delivery status notification. Both patterns
  begin and end at a word boundary and consist of digits and dots, so the first match is
  found by trying every position in turn, and what is matched at a position is unique.
\<close>

section \<open>Codes in a text\<close>

definition word_char :: "char \<Rightarrow> bool" where
  "word_char c \<longleftrightarrow> is_digit c \<or> is_upper c \<or> is_lower c \<or> c = CHR ''_''"

text \<open>A boundary after a word character.\<close>

definition ends_word :: "string \<Rightarrow> bool" where
  "ends_word s \<longleftrightarrow> s = [] \<or> \<not> word_char (hd s)"

definition class_digit :: "string \<Rightarrow> bool" where
  "class_digit s \<longleftrightarrow> s \<noteq> [] \<and> (hd s = CHR ''4'' \<or> hd s = CHR ''5'')"

text \<open>One to three digits: all of a run, or nothing.\<close>

definition digit_run :: "string \<Rightarrow> (string \<times> string) option" where
  "digit_run s =
     (let ds = takeWhile is_digit s
      in if 1 \<le> length ds \<and> length ds \<le> 3 then Some (ds, dropWhile is_digit s) else None)"

definition enhanced_at :: "string \<Rightarrow> string option" where
  "enhanced_at s =
     (if class_digit s \<and> has_prefix (tl s) ''.'' then
        (case digit_run (tl (tl s)) of
           None \<Rightarrow> None
         | Some (d1, r1) \<Rightarrow>
             if has_prefix r1 ''.'' then
               (case digit_run (tl r1) of
                  None \<Rightarrow> None
                | Some (d2, r2) \<Rightarrow>
                    if ends_word r2 then Some (hd s # ''.'' @ d1 @ ''.'' @ d2) else None)
             else None)
      else None)"

definition reply_at :: "string \<Rightarrow> string option" where
  "reply_at s =
     (if class_digit s \<and> length s \<ge> 3 \<and> list_all is_digit (take 3 s) \<and> ends_word (drop 3 s)
      then Some (take 3 s) else None)"

text \<open>The first match; \<open>prev\<close> says whether the character before is part of a word.\<close>

fun first_match :: "(string \<Rightarrow> string option) \<Rightarrow> bool \<Rightarrow> string \<Rightarrow> string option" where
  "first_match m prev [] = None"
| "first_match m prev (c # s) =
     (case (if prev then None else m (c # s)) of
        Some x \<Rightarrow> Some x
      | None \<Rightarrow> first_match m (word_char c) s)"

definition extract_enhanced_code :: "string \<Rightarrow> string" where
  "extract_enhanced_code text0 = (case first_match enhanced_at False text0 of None \<Rightarrow> '''' | Some x \<Rightarrow> x)"

definition extract_reply_code :: "string \<Rightarrow> int" where
  "extract_reply_code text0 =
     (case first_match reply_at False text0 of
        None \<Rightarrow> 0
      | Some x \<Rightarrow> (case atoi x of None \<Rightarrow> 0 | Some v \<Rightarrow> v))"

section \<open>Classification\<close>

record bounce_report =
  br_type :: string
  br_category :: string
  br_reply_code :: int
  br_enhanced_code :: string
  br_diagnostic_code :: string
  br_original_recipient :: string
  br_remote_mta :: string
  br_is_hard_bounce :: bool

definition contains_one_of :: "string \<Rightarrow> string list \<Rightarrow> bool" where
  "contains_one_of s subs \<longleftrightarrow> list_ex (contains s) subs"

definition category_of_code :: "string \<Rightarrow> string option" where
  "category_of_code code =
     (if code = ''5.1.1'' then Some ''recipient_unknown''
      else if code = ''5.1.2'' then Some ''domain_unknown''
      else if code \<in> {''5.2.2'', ''4.2.2''} then Some ''mailbox_full''
      else if code \<in> {''5.3.4'', ''5.2.3''} then Some ''message_oversized''
      else if code = ''5.7.1'' then Some ''policy_rejection''
      else if code \<in> {''5.7.0'', ''5.7.28''} then Some ''spam_rejection''
      else if code \<in> {''5.7.4'', ''5.7.10''} then Some ''tls_failure''
      else if code \<in> {''4.4.1'', ''4.4.2''} then Some ''connection_failure''
      else if code \<in> {''4.7.1'', ''4.0.0'', ''4.4.5''} then Some ''temporary_failure''
      else None)"

definition category_of_text :: "string \<Rightarrow> string option" where
  "category_of_text lower =
     (if contains_one_of lower [''user unknown'', ''recipient unknown'', ''no such user'', ''mailbox not found'']
        then Some ''recipient_unknown''
      else if contains_one_of lower [''domain not found'', ''host not found'', ''unrouteable address'']
        then Some ''domain_unknown''
      else if contains_one_of lower [''mailbox is full'', ''quota exceeded'', ''user over quota'']
        then Some ''mailbox_full''
      else if contains_one_of lower [''message size exceeds'', ''message too large'']
        then Some ''message_oversized''
      else if contains_one_of lower [''spam'', ''blacklisted'', ''blocked by spf'', ''dmarc policy'']
        then Some ''spam_rejection''
      else if contains_one_of lower [''relay access denied'', ''sender rejected'', ''access denied'']
        then Some ''policy_rejection''
      else if contains_one_of lower [''connection timed out'', ''connection refused'', ''network is unreachable'']
        then Some ''connection_failure''
      else if contains_one_of lower [''tls handshake'', ''ssl negotiation failed'']
        then Some ''tls_failure''
      else if contains_one_of lower [''try again later'', ''temporary failure'']
        then Some ''temporary_failure''
      else None)"

definition classify_category :: "string \<Rightarrow> int \<Rightarrow> string \<Rightarrow> string" where
  "classify_category enhanced reply lower =
     (case category_of_code enhanced of
        Some c \<Rightarrow> c
      | None \<Rightarrow>
          (case category_of_text lower of
             Some c \<Rightarrow> c
           | None \<Rightarrow>
               if has_prefix enhanced ''4.'' \<or> (reply \<ge> 400 \<and> reply < 500) then ''temporary_failure''
               else if has_prefix enhanced ''5.'' \<or> (reply \<ge> 500 \<and> reply < 600) then ''system_error''
               else ''unknown''))"

definition bounce_type :: "string \<Rightarrow> int \<Rightarrow> string" where
  "bounce_type enhanced reply =
     (if has_prefix enhanced ''5.'' \<or> (reply \<ge> 500 \<and> reply < 600) then ''permanent''
      else if has_prefix enhanced ''4.'' \<or> (reply \<ge> 400 \<and> reply < 500) then ''temporary''
      else ''unknown'')"

definition classify_bounce :: "string \<Rightarrow> bounce_report" where
  "classify_bounce raw =
     (let enhanced = extract_enhanced_code raw; reply = extract_reply_code raw;
          bt = bounce_type enhanced reply
      in \<lparr>br_type = bt, br_category = classify_category enhanced reply (to_lower raw), br_reply_code = reply,
          br_enhanced_code = enhanced, br_diagnostic_code = trim_space raw, br_original_recipient = '''',
          br_remote_mta = '''', br_is_hard_bounce = (bt = ''permanent'')\<rparr>)"

section \<open>Delivery status notifications\<close>

text \<open>
  \<open>bufio.Scanner\<close> with its default limit: the lines without their line ends, up to the first
  one of 65536 bytes or more, where the scan stops.
\<close>

definition drop_cr :: "string \<Rightarrow> string" where
  "drop_cr s = (if s \<noteq> [] \<and> last s = CHR 0x0D then butlast s else s)"

definition scan_lines :: "string \<Rightarrow> string list" where
  "scan_lines s =
     (let ls = str_split CHR 0x0A s; ls1 = (if last ls = [] then butlast ls else ls)
      in map drop_cr (takeWhile (\<lambda>l. length l < 65536) ls1))"

record dsn_fields =
  dsn_recipient :: string
  dsn_remote :: string
  dsn_diagnostic :: string
  dsn_status :: string

definition after_semicolon :: "string \<Rightarrow> string option" where
  "after_semicolon s = (let parts = split2 CHR '';'' s in if length parts = 2 then Some (trim_space (parts ! 1)) else None)"

definition dsn_line :: "string \<Rightarrow> dsn_fields \<Rightarrow> dsn_fields" where
  "dsn_line line d =
     (let trimmed = trim_space line; lower = to_lower trimmed
      in if has_prefix lower ''final-recipient:'' \<or> has_prefix lower ''original-recipient:'' then
           (case after_semicolon trimmed of None \<Rightarrow> d | Some v \<Rightarrow> d\<lparr>dsn_recipient := v\<rparr>)
         else if has_prefix lower ''remote-mta:'' then
           (case after_semicolon trimmed of None \<Rightarrow> d | Some v \<Rightarrow> d\<lparr>dsn_remote := v\<rparr>)
         else if has_prefix lower ''diagnostic-code:'' then
           (case after_semicolon trimmed of
              Some v \<Rightarrow> d\<lparr>dsn_diagnostic := v\<rparr>
            | None \<Rightarrow> d\<lparr>dsn_diagnostic := trim_space (trim_prefix trimmed ''Diagnostic-Code:'')\<rparr>)
         else if has_prefix lower ''status:'' then
           d\<lparr>dsn_status := trim_space (trim_prefix trimmed ''Status:'')\<rparr>
         else d)"

definition parse_dsn :: "string \<Rightarrow> bounce_report" where
  "parse_dsn raw =
     (let d = foldl (\<lambda>d line. dsn_line line d)
                \<lparr>dsn_recipient = '''', dsn_remote = '''', dsn_diagnostic = '''', dsn_status = ''''\<rparr> (scan_lines raw);
          t1 = dsn_diagnostic d; t2 = (if t1 = '''' then dsn_status d else t1);
          analysis = (if t2 = '''' then raw else t2);
          report = classify_bounce analysis
      in report\<lparr>br_original_recipient := dsn_recipient d, br_remote_mta := dsn_remote d\<rparr>)"

section \<open>Facts\<close>

lemma first_match_found: "first_match m prev s = Some x \<Longrightarrow> \<exists>u v. s = u @ v \<and> m v = Some x"
proof (induction s arbitrary: prev)
  case (Cons c s)
  show ?case
  proof (cases "prev \<or> m (c # s) = None")
    case True
    with Cons.prems have "first_match m (word_char c) s = Some x" by (auto split: option.splits if_splits)
    from Cons.IH [OF this] obtain u v where "s = u @ v" "m v = Some x" by blast
    then show ?thesis by (intro exI [of _ "c # u"] exI [of _ v]) simp
  next
    case False
    with Cons.prems have "m (c # s) = Some x" by auto
    then show ?thesis by (intro exI [of _ "[]"] exI [of _ "c # s"]) simp
  qed
qed simp

lemma reply_code_range: "extract_reply_code s = 0 \<or> 400 \<le> extract_reply_code s \<and> extract_reply_code s < 600"
proof (cases "first_match reply_at False s")
  case (Some x)
  then obtain v where "reply_at v = Some x" using first_match_found by blast
  then obtain a b c r where v: "v = a # b # c # r" "a = CHR ''4'' \<or> a = CHR ''5''" "is_digit b" "is_digit c" "x = [a, b, c]"
    by (cases v; cases "tl v"; cases "tl (tl v)") (auto simp: reply_at_def class_digit_def split: if_splits)
  have "is_digit a \<and> (digit_val a = 4 \<or> digit_val a = 5)" "digit_val b < 10" "digit_val c < 10"
    using v(2-4) by (auto simp: is_digit_def digit_val_def byte_def)
  moreover have "\<not> has_prefix x ''-''" "\<not> has_prefix x ''+''" using v(2,5) by (auto simp: has_prefix_def)
  moreover have "digits_val x = 100 * digit_val a + 10 * digit_val b + digit_val c"
    by (simp add: v(5) digits_val_def)
  ultimately have "atoi x = Some (int (100 * digit_val a + 10 * digit_val b + digit_val c))"
    using v(3-5) by (auto simp: atoi_def Let_def)
  with Some \<open>is_digit a \<and> _\<close> \<open>digit_val b < 10\<close> \<open>digit_val c < 10\<close> show ?thesis
    by (auto simp: extract_reply_code_def)
qed (simp add: extract_reply_code_def)

text \<open>A bounce is hard exactly if it is permanent, and the type follows from the two codes.\<close>

lemma hard_iff:
  "br_is_hard_bounce (classify_bounce raw) \<longleftrightarrow>
     has_prefix (extract_enhanced_code raw) ''5.'' \<or>
     500 \<le> extract_reply_code raw \<and> extract_reply_code raw < 600"
  by (simp add: classify_bounce_def bounce_type_def Let_def)

text \<open>
  Any number of the right form counts as a code: a port makes a temporary failure permanent,
  and an address in a temporary failure is read as an enhanced code.
\<close>

lemma port_is_reply_code:
  "br_is_hard_bounce (classify_bounce ''4.4.1 connect to mx.example.org:587: Connection timed out'')"
  by code_simp

lemma address_is_enhanced_code:
  "br_category (classify_bounce ''connect to 10.5.1.1: Connection timed out'') = ''recipient_unknown''"
  by code_simp

end
