(* ===== verification/Abuse.thy ===== *)
theory Abuse
  imports Mailboxes Mailbox_Laws
begin

text \<open>
  The package \<open>internal/abuse\<close>: the outbound limits of a mailbox, with their defaults for a
  mailbox that has no row, and the doctor.
\<close>

section \<open>Repository\<close>

definition err_limits_not_found :: err where
  "err_limits_not_found = Sentinel ''abuse'' ''ErrLimitsNotFound''"

lemmas [errs] = err_limits_not_found_def

record abuse_limits =
  ab_mailbox_id :: uuid
  ab_email :: string
  ab_per_minute :: int
  ab_per_hour :: int
  ab_per_day :: int
  ab_enabled :: bool
  ab_created_at :: instant
  ab_updated_at :: instant

definition limits_row :: "uuid \<Rightarrow> db \<Rightarrow> abuse_limits option" where
  "limits_row i db =
     (case find (\<lambda>l. lim_mailbox_id l = i) (mailbox_limits db) of
        None \<Rightarrow> None
      | Some l \<Rightarrow>
          map_option (\<lambda>m. \<lparr>ab_mailbox_id = i, ab_email = mb_email m, ab_per_minute = lim_messages_per_minute l,
              ab_per_hour = lim_messages_per_hour l, ab_per_day = lim_recipients_per_day l,
              ab_enabled = lim_enabled l, ab_created_at = lim_created_at l, ab_updated_at = lim_updated_at l\<rparr>)
            (find (\<lambda>m. mb_id m = i) (mailboxes db)))"

definition repo_get_limits :: "uuid \<Rightarrow> db \<Rightarrow> abuse_limits result \<times> db" where
  "repo_get_limits i db =
     (case sql_query_row (limits_row i) db of
        (Inl err, db1) \<Rightarrow>
          (if err_is err err_no_rows then (Inl err_limits_not_found, db1)
           else (Inl (Wrap ''get mailbox limits'' err), db1))
      | (Inr l, db1) \<Rightarrow> (Inr l, db1))"

text \<open>The columns are of the type \<open>INTEGER\<close>, so the database rejects what 32 bits do not hold.\<close>

definition int4 :: "int \<Rightarrow> bool" where
  "int4 n \<longleftrightarrow> - (2 ^ 31) \<le> n \<and> n < 2 ^ 31"

definition set_limit_columns :: "instant \<Rightarrow> abuse_limits \<Rightarrow> mailbox_limits \<Rightarrow> mailbox_limits" where
  "set_limit_columns now l r =
     r\<lparr>lim_messages_per_minute := ab_per_minute l, lim_messages_per_hour := ab_per_hour l,
       lim_recipients_per_day := ab_per_day l, lim_enabled := ab_enabled l, lim_updated_at := now\<rparr>"

definition upsert_limits :: "instant \<Rightarrow> abuse_limits \<Rightarrow> db \<Rightarrow> unit result \<times> db" where
  "upsert_limits now l db =
     (case sql_exec (\<lambda>db.
             if \<not> int4 (ab_per_minute l) \<or> \<not> int4 (ab_per_hour l) \<or> \<not> int4 (ab_per_day l)
             then (Inl (Msg ''integer out of range''), db)
             else if has_key lim_mailbox_id (ab_mailbox_id l) (mailbox_limits db)
             then (Inr 1, db\<lparr>mailbox_limits :=
                     update_where (\<lambda>r. lim_mailbox_id r = ab_mailbox_id l) (set_limit_columns now l) (mailbox_limits db)\<rparr>)
             else if \<not> has_key mb_id (ab_mailbox_id l) (mailboxes db)
             then (Inl (PgForeignKey ''mailbox_limits_mailbox_id_fkey''), db)
             else (Inr 1, db\<lparr>mailbox_limits := mailbox_limits db @
                     [\<lparr>lim_mailbox_id = ab_mailbox_id l, lim_messages_per_minute = ab_per_minute l,
                       lim_messages_per_hour = ab_per_hour l, lim_recipients_per_day = ab_per_day l,
                       lim_enabled = ab_enabled l, lim_created_at = now, lim_updated_at = now\<rparr>]\<rparr>)) db of
        (Inl err, db1) \<Rightarrow> (Inl (Wrap ''upsert mailbox limits'' err), db1)
      | (Inr n, db1) \<Rightarrow> (Inr (), db1))"

section \<open>Service\<close>

definition abuse_zero_time :: instant where
  "abuse_zero_time = - 62135596800000000000"

definition default_limits :: "uuid \<Rightarrow> string \<Rightarrow> abuse_limits" where
  "default_limits i email =
     \<lparr>ab_mailbox_id = i, ab_email = email, ab_per_minute = 30, ab_per_hour = 300, ab_per_day = 1000,
      ab_enabled = True, ab_created_at = abuse_zero_time, ab_updated_at = abuse_zero_time\<rparr>"

definition get_limits :: "string \<Rightarrow> db \<Rightarrow> abuse_limits result \<times> db" where
  "get_limits email0 db =
     (let email = to_lower (trim_space email0)
      in case mailbox_get_by_email email db of
           (Inl err, db1) \<Rightarrow> (Inl err, db1)
         | (Inr mb, db1) \<Rightarrow>
             (case repo_get_limits (mb_id mb) db1 of
                (Inl err, db2) \<Rightarrow>
                  (if err_is err err_limits_not_found then (Inr (default_limits (mb_id mb) email), db2)
                   else (Inl err, db2))
              | (Inr l, db2) \<Rightarrow> (Inr l, db2)))"

definition set_limits :: "instant \<Rightarrow> string \<Rightarrow> abuse_limits \<Rightarrow> db \<Rightarrow> unit result \<times> db" where
  "set_limits now email0 l db =
     (let email = to_lower (trim_space email0)
      in case mailbox_get_by_email email db of
           (Inl err, db1) \<Rightarrow> (Inl err, db1)
         | (Inr mb, db1) \<Rightarrow> upsert_limits now (l\<lparr>ab_mailbox_id := mb_id mb, ab_email := email\<rparr>) db1)"

section \<open>The doctor\<close>

record abuse_report =
  abr_healthy :: bool
  abr_custom :: "nat option"

definition abuse_doctor :: "db \<Rightarrow> abuse_report \<times> db" where
  "abuse_doctor db =
     (case sql_query_row (\<lambda>db. Some (length (rows_where lim_enabled (mailbox_limits db)))) db of
        (Inr n, db1) \<Rightarrow> (\<lparr>abr_healthy = True, abr_custom = Some n\<rparr>, db1)
      | (Inl err, db1) \<Rightarrow> (\<lparr>abr_healthy = False, abr_custom = None\<rparr>, db1))"

section \<open>Facts\<close>

lemma upsert_limits_wf: "wf_db db \<Longrightarrow> wf_db (snd (upsert_limits now l db))"
  by (auto simp: upsert_limits_def set_limit_columns_def sql_simps tbl_simps wf_db_def wf_defs ref_def
      image_subset_iff intro: rev_image_eqI) (metis image_iff)?

lemma get_limits_frame: "get_limits e db = (r, db') \<Longrightarrow> db' = db\<lparr>faults := faults db'\<rparr>"
  by (auto simp: get_limits_def repo_get_limits_def mailbox_get_by_email_def sql_query_row_def db_call_def tick_def
      Let_def split: if_splits option.splits sum.splits prod.splits)

text \<open>A key is updated in place or appended; either way the lookup finds it, and no other changes.\<close>

lemma find_update_key:
  assumes "distinct (map k t)" and "\<And>x. k (f x) = k x"
  shows "find (\<lambda>x. k x = v) (update_where (\<lambda>x. k x = w) f t) =
    (if v = w then map_option f (find (\<lambda>x. k x = w) t) else find (\<lambda>x. k x = v) t)"
  using assms by (induction t) (auto simp: update_where_def)

lemma find_append_other: "k r \<noteq> v \<Longrightarrow> find (\<lambda>x. k x = v) (t @ [r]) = find (\<lambda>x. k x = v) t"
  by (induction t) auto

lemma find_append_new: "find P t = None \<Longrightarrow> P r \<Longrightarrow> find P (t @ [r]) = Some r"
  by (induction t) (auto split: if_splits)

text \<open>What was set is what is got, for the mailbox of the address and for no other.\<close>

lemma limits_row_set:
  assumes "upsert_limits now l db = (Inr (), db')" and "wf_db db"
  shows "\<exists>r. limits_row (ab_mailbox_id l) db' = Some r \<and> ab_per_minute r = ab_per_minute l \<and>
      ab_per_hour r = ab_per_hour l \<and> ab_per_day r = ab_per_day l \<and> ab_enabled r = ab_enabled l"
    and "i \<noteq> ab_mailbox_id l \<Longrightarrow> limits_row i db' = limits_row i db"
proof -
  let ?i = "ab_mailbox_id l" and ?t = "mailbox_limits db"
  have dist: "distinct (map lim_mailbox_id ?t)" and refs: "lim_mailbox_id ` set ?t \<subseteq> mb_id ` set (mailboxes db)"
    using assms(2) by (simp_all add: wf_db_def wf_defs ref_def)
  define new where "new = \<lparr>lim_mailbox_id = ?i, lim_messages_per_minute = ab_per_minute l,
      lim_messages_per_hour = ab_per_hour l, lim_recipients_per_day = ab_per_day l,
      lim_enabled = ab_enabled l, lim_created_at = now, lim_updated_at = now\<rparr>"
  have key: "lim_mailbox_id (set_limit_columns now l r) = lim_mailbox_id r" for r
    by (simp add: set_limit_columns_def)
  have db': "mailboxes db' = mailboxes db" "\<exists>m\<in>set (mailboxes db). mb_id m = ?i"
    "mailbox_limits db' = (if find (\<lambda>r. lim_mailbox_id r = ?i) ?t \<noteq> None
       then update_where (\<lambda>r. lim_mailbox_id r = ?i) (set_limit_columns now l) ?t else ?t @ [new])"
    using assms(1) refs
    by (auto simp: upsert_limits_def sql_simps new_def find_None_iff image_subset_iff image_iff split: if_splits) metis?
  from db'(2) obtain m where m: "find (\<lambda>m. mb_id m = ?i) (mailboxes db) = Some m"
    by (metis (mono_tags, lifting) find_None_iff not_Some_eq)
  show "\<exists>r. limits_row ?i db' = Some r \<and> ab_per_minute r = ab_per_minute l \<and>
      ab_per_hour r = ab_per_hour l \<and> ab_per_day r = ab_per_day l \<and> ab_enabled r = ab_enabled l"
  proof (cases "find (\<lambda>r. lim_mailbox_id r = ?i) ?t")
    case None
    then have "find (\<lambda>r. lim_mailbox_id r = ?i) (?t @ [new]) = Some new"
      by (rule find_append_new) (simp add: new_def)
    with None show ?thesis
      by (simp add: limits_row_def db'(1,3) m) (simp add: new_def)
  next
    case (Some r)
    then show ?thesis
      by (simp add: limits_row_def db'(1,3) m find_update_key [OF dist key]) (simp add: set_limit_columns_def)
  qed
  show "limits_row i db' = limits_row i db" if "i \<noteq> ?i"
    using that unfolding limits_row_def db'(1)
    by (simp add: db'(3) find_update_key [OF dist key] find_append_other new_def)
qed

end
