(* ===== verification/Audit_Log.thy ===== *)
theory Audit_Log
  imports Go_Net Database
begin

text \<open>
  The package \<open>internal/audit\<close>: the events of messages and the audit log, appended and
  listed. The encoding of the metadata of an entry is a parameter, as is its address.
\<close>

section \<open>Repository\<close>

record event =
  evt_id :: uuid
  evt_message_id :: uuid
  evt_queue_id :: string
  evt_type :: string
  evt_status :: string
  evt_detail :: string
  evt_created_at :: instant

definition row_of_event :: "instant \<Rightarrow> event \<Rightarrow> message_event" where
  "row_of_event now e =
     \<lparr>ev_id = evt_id e, ev_message_id = (if evt_message_id e \<noteq> 0 then Some (evt_message_id e) else None),
      ev_queue_id = (if evt_queue_id e \<noteq> '''' then Some (evt_queue_id e) else None),
      ev_event_type = evt_type e, ev_status = evt_status e, ev_detail = evt_detail e, ev_created_at = now\<rparr>"

definition event_of_row :: "message_event \<Rightarrow> event" where
  "event_of_row r =
     \<lparr>evt_id = ev_id r, evt_message_id = (case ev_message_id r of None \<Rightarrow> 0 | Some i \<Rightarrow> i),
      evt_queue_id = (case ev_queue_id r of None \<Rightarrow> '''' | Some q \<Rightarrow> q), evt_type = ev_event_type r,
      evt_status = ev_status r, evt_detail = ev_detail r, evt_created_at = ev_created_at r\<rparr>"

definition create_message_event :: "uuid \<Rightarrow> instant \<Rightarrow> event \<Rightarrow> db \<Rightarrow> unit result \<times> db" where
  "create_message_event newid now e0 db =
     (let e = e0\<lparr>evt_id := (if evt_id e0 = 0 then newid else evt_id e0)\<rparr>;
          r = row_of_event now e
      in case sql_insert (\<lambda>db. [(clashes ev_id r (message_events db), PgUnique ''message_events_pkey'')])
                (\<lambda>db. db\<lparr>message_events := message_events db @ [r]\<rparr>) db of
           (Inl err, db1) \<Rightarrow> (Inl (Wrap ''create message event'' err), db1)
         | (Inr n, db1) \<Rightarrow> (Inr (), db1))"

definition list_events_where :: "string \<Rightarrow> (message_event \<Rightarrow> bool) \<Rightarrow> db \<Rightarrow> event list result \<times> db" where
  "list_events_where msg P db =
     (case sql_query (\<lambda>db. sort_key ev_created_at (filter P (message_events db))) db of
        (Inl err, db1) \<Rightarrow> (Inl (Wrap msg err), db1)
      | (Inr rs, db1) \<Rightarrow> (Inr (map event_of_row rs), db1))"

definition list_events_by_message :: "uuid \<Rightarrow> db \<Rightarrow> event list result \<times> db" where
  "list_events_by_message i = list_events_where ''list message events'' (\<lambda>r. ev_message_id r = Some i)"

definition list_events_by_queue :: "string \<Rightarrow> db \<Rightarrow> event list result \<times> db" where
  "list_events_by_queue q = list_events_where ''list queue events'' (\<lambda>r. ev_queue_id r = Some q)"

record log_entry =
  log_id :: uuid
  log_actor_type :: string
  log_actor_id :: "uuid option"
  log_action :: string
  log_resource_type :: string
  log_resource_id :: "uuid option"
  log_metadata :: "string option"
  log_ip :: "ip option"
  log_created_at :: instant

definition create_audit_log :: "uuid \<Rightarrow> instant \<Rightarrow> log_entry \<Rightarrow> db \<Rightarrow> unit result \<times> db" where
  "create_audit_log newid now l0 db =
     (let i = (if log_id l0 = 0 then newid else log_id l0);
          r = \<lparr>au_id = i, au_actor_type = log_actor_type l0, au_actor_id = log_actor_id l0, au_action = log_action l0,
               au_resource_type = log_resource_type l0, au_resource_id = log_resource_id l0,
               au_metadata = log_metadata l0, au_ip_address = map_option ip_string (log_ip l0), au_created_at = now\<rparr>
      in case sql_insert (\<lambda>db. [(clashes au_id r (audit_logs db), PgUnique ''audit_logs_pkey'')])
                (\<lambda>db. db\<lparr>audit_logs := audit_logs db @ [r]\<rparr>) db of
           (Inl err, db1) \<Rightarrow> (Inl (Wrap ''create audit log'' err), db1)
         | (Inr n, db1) \<Rightarrow> (Inr (), db1))"

text \<open>The address of an entry is not read back.\<close>

definition log_of_row :: "audit_log \<Rightarrow> log_entry" where
  "log_of_row r =
     \<lparr>log_id = au_id r, log_actor_type = au_actor_type r, log_actor_id = au_actor_id r, log_action = au_action r,
      log_resource_type = au_resource_type r, log_resource_id = au_resource_id r, log_metadata = au_metadata r,
      log_ip = None, log_created_at = au_created_at r\<rparr>"

definition repo_list_audit_logs :: "int \<Rightarrow> db \<Rightarrow> log_entry list result \<times> db" where
  "repo_list_audit_logs limit0 db =
     (let limit = (if limit0 \<le> 0 then 50 else limit0)
      in case sql_query (\<lambda>db. take (nat limit) (sort_key (\<lambda>r. - au_created_at r) (audit_logs db))) db of
           (Inl err, db1) \<Rightarrow> (Inl (Wrap ''list audit logs'' err), db1)
         | (Inr rs, db1) \<Rightarrow> (Inr (map log_of_row rs), db1))"

section \<open>Service\<close>

definition record_message_event ::
    "uuid \<Rightarrow> instant \<Rightarrow> uuid \<Rightarrow> string \<Rightarrow> string \<Rightarrow> string \<Rightarrow> string \<Rightarrow> db \<Rightarrow> unit result \<times> db" where
  "record_message_event newid now message_id queue_id ty st detail =
     create_message_event newid now
       \<lparr>evt_id = newid, evt_message_id = message_id, evt_queue_id = queue_id, evt_type = ty, evt_status = st,
        evt_detail = detail, evt_created_at = 0\<rparr>"

record message_trace =
  tr_message_id :: uuid
  tr_queue_id :: string
  tr_events :: "event list"

fun first_queue_id :: "string \<Rightarrow> event list \<Rightarrow> string" where
  "first_queue_id q [] = q"
| "first_queue_id q (e # es) = first_queue_id (if evt_queue_id e \<noteq> '''' \<and> q = '''' then evt_queue_id e else q) es"

definition trace_message :: "uuid \<Rightarrow> db \<Rightarrow> message_trace result \<times> db" where
  "trace_message i db =
     (case list_events_by_message i db of
        (Inl err, db1) \<Rightarrow> (Inl err, db1)
      | (Inr es, db1) \<Rightarrow> (Inr \<lparr>tr_message_id = i, tr_queue_id = first_queue_id '''' es, tr_events = es\<rparr>, db1))"

text \<open>The metadata: none, or what its encoding answered; an error of it is dropped.\<close>

definition record_audit ::
    "uuid \<Rightarrow> instant \<Rightarrow> string \<Rightarrow> uuid option \<Rightarrow> string \<Rightarrow> string \<Rightarrow> uuid option \<Rightarrow> string result option \<Rightarrow>
       db \<Rightarrow> unit result \<times> db" where
  "record_audit newid now actor_type actor_id action resource_type resource_id metadata =
     create_audit_log newid now
       \<lparr>log_id = newid, log_actor_type = actor_type, log_actor_id = actor_id, log_action = action,
        log_resource_type = resource_type, log_resource_id = resource_id,
        log_metadata = (case metadata of Some (Inr b) \<Rightarrow> Some b | _ \<Rightarrow> None), log_ip = None, log_created_at = 0\<rparr>"

definition list_audit_logs :: "int \<Rightarrow> db \<Rightarrow> log_entry list result \<times> db" where
  "list_audit_logs = repo_list_audit_logs"

section \<open>Facts\<close>

lemma create_event_wf: "wf_db db \<Longrightarrow> wf_db (snd (create_message_event newid now e db))"
  by (auto simp: create_message_event_def sql_simps Let_def wf_db_def wf_defs row_of_event_def
      split: option.splits if_splits)

lemma create_audit_wf: "wf_db db \<Longrightarrow> wf_db (snd (create_audit_log newid now l db))"
  by (auto simp: create_audit_log_def sql_simps Let_def wf_db_def wf_defs split: option.splits if_splits)

text \<open>The log only grows.\<close>

lemma create_audit_appends:
  "\<exists>rs. audit_logs (snd (create_audit_log newid now l db)) = audit_logs db @ rs"
  by (auto simp: create_audit_log_def sql_simps Let_def split: option.splits)

lemma create_event_appends:
  "\<exists>rs. message_events (snd (create_message_event newid now e db)) = message_events db @ rs"
  by (auto simp: create_message_event_def sql_simps Let_def split: option.splits)

lemma first_queue_id_found: "q \<noteq> '''' \<Longrightarrow> first_queue_id q es = q"
  by (induction es) auto

lemma trace_queue_id:
  "first_queue_id '''' es = (case find (\<lambda>e. evt_queue_id e \<noteq> '''') es of None \<Rightarrow> '''' | Some e \<Rightarrow> evt_queue_id e)"
  by (induction es) (auto simp: first_queue_id_found)

lemma list_audit_bounded:
  "list_audit_logs limit db = (Inr ls, db') \<Longrightarrow> length ls \<le> nat (if limit \<le> 0 then 50 else limit)"
  by (auto simp: list_audit_logs_def repo_list_audit_logs_def sql_simps Let_def split: if_splits)

lemma audit_address_is_lost:
  "list_audit_logs limit db = (Inr ls, db') \<Longrightarrow> l \<in> set ls \<Longrightarrow> log_ip l = None"
  by (auto simp: list_audit_logs_def repo_list_audit_logs_def sql_simps Let_def log_of_row_def split: if_splits)

end
