(* ===== verification/Control_Plane.thy ===== *)
theory Control_Plane
  imports Messages Quota Dkim_Props Smtp_Keys Identity_Sync Abuse Audit_Log Tokens
begin

text \<open>
  The database under everything the control plane does: the SQL statements of all repositories
  as one step relation. Requests run at the same time, so their statements interleave in any
  order; every service operation is a run of statements. What the columns may hold is an
  invariant of every state that can be reached.
\<close>

section \<open>What the columns hold\<close>

definition mailbox_states :: "string list" where
  "mailbox_states = [''active'', ''suspended'', ''deleting'']"

definition prov_states :: "string list" where
  "prov_states = [prov_pending, prov_in_progress, prov_ready, prov_failed, prov_deprovisioning]"

definition typed_mailbox :: "mailbox \<Rightarrow> bool" where
  "typed_mailbox m \<longleftrightarrow> canon (mb_email m) = mb_email m \<and> mb_status m \<in> set mailbox_states \<and>
     mb_provisioning_status m \<in> set prov_states \<and> mb_identity_provider m \<in> {''local'', ''ldap''} \<and>
     0 < mb_quota_bytes m"

definition typed_alias :: "mail_alias \<Rightarrow> bool" where
  "typed_alias a \<longleftrightarrow> to_lower (al_source a) = al_source a \<and> to_lower (al_destination a) = al_destination a"

definition typed_limits :: "mailbox_limits \<Rightarrow> bool" where
  "typed_limits l \<longleftrightarrow> int4 (lim_messages_per_minute l) \<and> int4 (lim_messages_per_hour l) \<and> int4 (lim_recipients_per_day l)"

definition typed_key :: "dkim_key \<Rightarrow> bool" where
  "typed_key k \<longleftrightarrow> to_lower (dk_selector k) = dk_selector k"

definition typed_db :: "db \<Rightarrow> bool" where
  "typed_db db \<longleftrightarrow> wf_db db \<and> domains_canon db \<and> list_all typed_mailbox (mailboxes db) \<and>
     list_all typed_alias (aliases db) \<and> list_all typed_limits (mailbox_limits db) \<and>
     list_all typed_key (domain_dkim db)"

section \<open>Statements\<close>

text \<open>
  One rule for every statement of the repositories, with the arguments the services give it.
  The rule \<open>read\<close> is any query, and any statement that fails before it does anything.
\<close>

inductive statement :: "db \<Rightarrow> db \<Rightarrow> bool" where
  read: "statement db (tick db)"
| domain_insert: "is_valid_domain_name (dom_name d) \<Longrightarrow> canon (dom_name d) = dom_name d \<Longrightarrow>
    statement db (snd (domain_repo_create d db))"
| domain_drop: "statement db (snd (domain_repo_delete nm db))"
| mailbox_insert: "typed_mailbox (mailbox_defaults newid now m) \<Longrightarrow>
    statement db (snd (mailbox_repo_create newid now m db))"
| mailbox_state: "st \<in> set mailbox_states \<Longrightarrow> statement db (snd (update_status now i st db))"
| mailbox_prov: "st \<in> set prov_states \<Longrightarrow> statement db (snd (update_provisioning_status now i st db))"
| mailbox_idp: "p \<in> {''local'', ''ldap''} \<Longrightarrow> statement db (snd (update_identity_provider now i p db))"
| mailbox_pw: "statement db (snd (update_password_hash now i h db))"
| mailbox_used: "statement db (snd (update_used_bytes now i n db))"
| mailbox_quota: "0 < n \<Longrightarrow> statement db (snd (update_quota_bytes now i n db))"
| mailbox_drop: "statement db (snd (mailbox_repo_delete email db))"
| alias_insert: "statement db (snd (create_alias newid now a db))"
| alias_drop: "statement db (snd (delete_alias s dst db))"
| message_insert: "statement db (snd (message_repo_create msg db))"
| message_drop: "statement db (snd (message_repo_delete i db))"
| dkim_insert: "statement db (snd (create_dkim_key key db))"
| dkim_activated: "statement db (snd (activate_dkim_key now i db))"
| dkim_revoked: "statement db (snd (revoke_dkim_key now i db))"
| policy_upsert: "statement db (snd (upsert_policy now pol db))"
| token: "token_stmt db db' \<Longrightarrow> statement db db'"
| smtp_insert: "statement db (snd (smtp_repo_create key h db))"
| smtp_drop: "statement db (snd (smtp_repo_revoke now did kid db))"
| limits_upsert: "statement db (snd (upsert_limits now l db))"
| event_insert: "statement db (snd (create_message_event newid now e db))"
| audit_insert: "statement db (snd (create_audit_log newid now le db))"

abbreviation statements :: "db \<Rightarrow> db \<Rightarrow> bool" where
  "statements \<equiv> statement\<^sup>*\<^sup>*"

section \<open>Every statement keeps the columns typed\<close>

named_theorems typed_rules \<open>statements that keep the database typed\<close>

lemma typed_tick [simp]: "typed_db (tick db) = typed_db db"
  by (simp add: typed_db_def)

lemma typed_inv [simp]: "db_inv typed_db"
  by (simp add: db_inv_def)

lemma typed_wf: "typed_db db \<Longrightarrow> wf_db db"
  by (simp add: typed_db_def)

text \<open>A statement that keeps the six tables apart from one needs only that one.\<close>

definition same_columns :: "db \<Rightarrow> db \<Rightarrow> bool" where
  "same_columns db db' \<longleftrightarrow> domains db' = domains db \<and> mailboxes db' = mailboxes db \<and>
     aliases db' = aliases db \<and> mailbox_limits db' = mailbox_limits db \<and> domain_dkim db' = domain_dkim db"

lemma typed_same: "same_columns db db' \<Longrightarrow> wf_db db' \<Longrightarrow> typed_db db \<Longrightarrow> typed_db db'"
  by (simp add: same_columns_def typed_db_def domains_canon_def)

lemma typed_domain_insert [typed_rules]:
  assumes "is_valid_domain_name (dom_name d)" and "canon (dom_name d) = dom_name d" and "typed_db db"
  shows "typed_db (snd (domain_repo_create d db))"
proof -
  have "wf_db (snd (domain_repo_create d db))" using assms(3) by (intro wf_domain_repo_create typed_wf)
  moreover have "(\<lambda>x. mailboxes x = mailboxes db \<and> aliases x = aliases db \<and> mailbox_limits x = mailbox_limits db \<and>
      domain_dkim x = domain_dkim db \<and> set (domains x) \<subseteq> insert d (set (domains db))) (snd (domain_repo_create d db))"
    by (auto simp: domain_repo_create_def sql_simps split: option.splits)
  ultimately show ?thesis using assms by (auto simp: typed_db_def domains_canon_def)
qed

lemma typed_del_mailboxes: "typed_db db \<Longrightarrow> typed_db (del_mailboxes P db)"
  using wf_del_mailboxes [of db P]
  by (auto simp: typed_db_def del_mailboxes_def Let_def domains_canon_def list_all_iff tbl_simps)

lemma typed_del_domains: "typed_db db \<Longrightarrow> typed_db (del_domains P db)"
  using wf_del_domains [of db P]
  by (auto simp: typed_db_def del_domains_def del_mailboxes_def Let_def domains_canon_def list_all_iff tbl_simps)

lemma typed_domain_drop [typed_rules]: "typed_db db \<Longrightarrow> typed_db (snd (domain_repo_delete nm db))"
  by (simp add: domain_repo_delete_def sql_simps typed_del_domains)

lemma typed_mailbox_drop [typed_rules]: "typed_db db \<Longrightarrow> typed_db (snd (mailbox_repo_delete nm db))"
  by (simp add: mailbox_repo_delete_def sql_simps typed_del_mailboxes)

lemma typed_mailbox_insert [typed_rules]:
  assumes "typed_mailbox (mailbox_defaults newid now m)" and "typed_db db"
  shows "typed_db (snd (mailbox_repo_create newid now m db))"
proof -
  have "wf_db (snd (mailbox_repo_create newid now m db))" using assms(2) by (intro wf_mailbox_repo_create typed_wf)
  then show ?thesis
    using assms by (simp add: typed_db_def domains_canon_def mailbox_repo_create_db typed_mailbox_def)
qed

lemma typed_mailbox_update:
  assumes "typed_db db" and "keeps_keys f" and "\<And>m. typed_mailbox m \<Longrightarrow> typed_mailbox (f m)"
  shows "typed_db (snd (mailbox_update msg f now i db))"
proof -
  have "typed_mailbox (m\<lparr>mb_updated_at := now\<rparr>) = typed_mailbox m" for m by (simp add: typed_mailbox_def)
  moreover have "wf_db (snd (mailbox_update msg f now i db))" using assms by (intro wf_mailbox_update typed_wf)
  ultimately show ?thesis
    using assms(1,3) by (auto simp: typed_db_def domains_canon_def mailbox_update_db list_all_iff tbl_simps)
qed

lemma typed_mailbox_updates [typed_rules]:
  assumes "typed_db db"
  shows "st \<in> set mailbox_states \<Longrightarrow> typed_db (snd (update_status now i st db))"
    and "st \<in> set prov_states \<Longrightarrow> typed_db (snd (update_provisioning_status now i st db))"
    and "p \<in> {''local'', ''ldap''} \<Longrightarrow> typed_db (snd (update_identity_provider now i p db))"
    and "typed_db (snd (update_password_hash now i h db))"
    and "typed_db (snd (update_used_bytes now i n db))"
    and "0 < n \<Longrightarrow> typed_db (snd (update_quota_bytes now i n db))"
  unfolding mailbox_updates
  by (rule typed_mailbox_update [OF assms]; simp add: typed_mailbox_def keeps_keys_def)+

lemma typed_alias_insert [typed_rules]:
  assumes "typed_db db" shows "typed_db (snd (create_alias newid now a db))"
proof -
  have "wf_db (snd (create_alias newid now a db))" using assms by (intro wf_create_alias typed_wf)
  then show ?thesis
    using assms by (auto simp: typed_db_def domains_canon_def create_alias_def sql_simps Let_def typed_alias_def
        split: option.splits)
qed

lemma typed_alias_drop [typed_rules]: "typed_db db \<Longrightarrow> typed_db (snd (delete_alias s d db))"
  using wf_delete_alias [of db s d]
  by (auto simp: typed_db_def domains_canon_def delete_alias_def sql_simps Let_def list_all_iff tbl_simps)

lemma typed_messages [typed_rules]:
  assumes "typed_db db"
  shows "typed_db (snd (message_repo_create m db))" and "typed_db (snd (message_repo_delete i db))"
  by (rule typed_same [OF _ wf_message_repo_create [OF typed_wf [OF assms]] assms],
      simp add: same_columns_def message_repo_create_def sql_simps split: option.splits)
    (rule typed_same [OF _ wf_message_repo_delete [OF typed_wf [OF assms]] assms],
      simp add: same_columns_def message_repo_delete_def sql_simps)

lemma typed_smtp [typed_rules]:
  assumes "typed_db db"
  shows "typed_db (snd (smtp_repo_create key h db))" and "typed_db (snd (smtp_repo_revoke now did kid db))"
proof -
  show "typed_db (snd (smtp_repo_create key h db))"
    by (rule typed_same [OF _ wf_smtp_repo_create [OF typed_wf [OF assms]] assms])
      (auto simp: same_columns_def smtp_repo_create_def sql_simps Let_def split: option.splits err.splits)
  show "typed_db (snd (smtp_repo_revoke now did kid db))"
    by (rule typed_same [OF _ wf_smtp_repo_revoke [OF typed_wf [OF assms]] assms])
      (simp add: same_columns_def smtp_repo_revoke_def sql_simps)
qed

lemma typed_dkim_insert [typed_rules]:
  assumes "typed_db db" shows "typed_db (snd (create_dkim_key key db))"
proof -
  have "wf_db (snd (create_dkim_key key db))" using assms by (intro wf_create_dkim_key typed_wf)
  then show ?thesis
    using assms by (auto simp: typed_db_def domains_canon_def create_dkim_key_def sql_simps Let_def typed_key_def
        split: option.splits)
qed

lemma typed_dkim_update:
  assumes "typed_db db" and "keeps_dkim_keys f"
  shows "typed_db (snd (dkim_update msg f i db))"
proof -
  have "typed_key (f k) = typed_key k" for k using assms(2) by (simp add: typed_key_def keeps_dkim_keys_def)
  moreover have "wf_db ((tick db)\<lparr>domain_dkim := update_where (\<lambda>y. dk_id y = i) f (domain_dkim (tick db))\<rparr>)"
    using assms by (intro wf_dkim_update) (simp_all add: typed_wf)
  ultimately show ?thesis
    using assms(1) by (auto simp: dkim_update_def sql_simps typed_db_def domains_canon_def list_all_iff tbl_simps)
qed

lemma typed_dkim_updates [typed_rules]:
  assumes "typed_db db"
  shows "typed_db (snd (activate_dkim_key now i db))" and "typed_db (snd (revoke_dkim_key now i db))"
  unfolding activate_dkim_key_def revoke_dkim_key_def
  by (rule typed_dkim_update [OF assms]; simp)+

lemma wf_upsert_policy: "wf_db db \<Longrightarrow> wf_db (snd (upsert_policy now pol db))"
  by (auto simp: upsert_policy_def set_policy_columns_def sql_simps tbl_simps wf_db_def wf_defs ref_def
      image_subset_iff intro: rev_image_eqI) (metis image_iff)?

lemma typed_policy [typed_rules]:
  assumes "typed_db db" shows "typed_db (snd (upsert_policy now pol db))"
  by (rule typed_same [OF _ wf_upsert_policy [OF typed_wf [OF assms]] assms])
    (simp add: same_columns_def upsert_policy_def sql_simps)

lemma token_stmt_columns: "token_stmt db db' \<Longrightarrow> same_columns db db'"
  by (induction rule: token_stmt.induct)
    (auto simp: same_columns_def token_store_def token_updates sql_simps Let_def split: option.splits)

lemma typed_token [typed_rules]: "token_stmt db db' \<Longrightarrow> typed_db db \<Longrightarrow> typed_db db'"
  using typed_same [OF token_stmt_columns token_stmt_wf [OF _ typed_wf]] by blast

lemma typed_limits_upsert [typed_rules]:
  assumes "typed_db db" shows "typed_db (snd (upsert_limits now l db))"
proof -
  have "wf_db (snd (upsert_limits now l db))" using assms by (intro upsert_limits_wf typed_wf)
  then show ?thesis
    using assms by (auto simp: typed_db_def domains_canon_def upsert_limits_def set_limit_columns_def sql_simps
        list_all_iff tbl_simps typed_limits_def)
qed

lemma typed_logs [typed_rules]:
  assumes "typed_db db"
  shows "typed_db (snd (create_message_event newid now e db))" and "typed_db (snd (create_audit_log newid now le db))"
proof -
  show "typed_db (snd (create_message_event newid now e db))"
    by (rule typed_same [OF _ create_event_wf [OF typed_wf [OF assms]] assms])
      (simp add: same_columns_def create_message_event_def sql_simps Let_def split: option.splits)
  show "typed_db (snd (create_audit_log newid now le db))"
    by (rule typed_same [OF _ create_audit_wf [OF typed_wf [OF assms]] assms])
      (simp add: same_columns_def create_audit_log_def sql_simps Let_def split: option.splits)
qed

lemma typed_statement: "statement db db' \<Longrightarrow> typed_db db \<Longrightarrow> typed_db db'"
  by (induction rule: statement.induct) (simp_all add: typed_rules)

lemma typed_statements: "statements db db' \<Longrightarrow> typed_db db \<Longrightarrow> typed_db db'"
  by (induction rule: rtranclp_induct) (auto intro: typed_statement)

lemma typed_empty: "typed_db empty_db"
  using wf_empty_db by (simp add: typed_db_def domains_canon_def empty_db_def)

section \<open>Every operation is a run of statements\<close>

named_theorems run_intros \<open>a run goes on with one more statement\<close>

lemmas run_step = rtranclp.rtrancl_into_rtrancl [of statement]

lemma run_refl: "statements db db"
  by (rule rtranclp.rtrancl_refl)

lemmas [run_intros] = run_refl statement.intros(1-19) [THEN run_step [rotated]]
  statement.intros(21-25) [THEN run_step [rotated]]

lemma run_ticks: "statements db ((tick ^^ n) db)"
  by (induction n) (simp_all add: run_intros)

lemma run_tokens: "token_run db db' \<Longrightarrow> statements db db'"
  by (induction rule: rtranclp_induct) (auto intro: run_step statement.token)

lemma in_states [simp]:
  "''active'' \<in> set mailbox_states" "''suspended'' \<in> set mailbox_states" "''deleting'' \<in> set mailbox_states"
  "prov_pending \<in> set prov_states" "prov_in_progress \<in> set prov_states" "prov_ready \<in> set prov_states"
  "prov_failed \<in> set prov_states" "prov_deprovisioning \<in> set prov_states"
  by (simp_all add: mailbox_states_def prov_states_def)

named_theorems op_runs \<open>the operations are runs of statements\<close>

lemma domain_create_run [op_runs]: "statements db (snd (domain_create newid now nm db))"
  by (auto simp: domain_create_def canon_def' Let_def split_beta sql_simps split: sum.splits option.splits if_splits
      intro!: run_intros)

lemma domain_delete_run [op_runs]: "statements db (snd (domain_delete nm db))"
  by (simp add: domain_delete_def Let_def run_intros)

lemma create_provision_run:
  assumes "statements db0 db" and "create_provision prov now m dname db k = (r, db', k')"
  shows "statements db0 db'"
  using assms(2)
  by (cases rule: create_provision_db) (simp_all add: assms(1) run_intros)

lemma mailbox_create_run:
  assumes "mailbox_create env prov newid now rnd em pw quota db k = (r, db', k')"
  shows "statements db db'"
  using assms
proof (cases rule: mailbox_create_cases)
  case (refused e n)
  then show ?thesis using run_ticks by simp
next
  case (created dm h m db3)
  let ?m = "\<lparr>mb_id = newid, mb_domain_id = dom_id dm, mb_email = canon em, mb_password_hash = h,
      mb_quota_bytes = (if quota \<le> 0 then 1073741824 else quota), mb_used_bytes = 0, mb_status = ''active'',
      mb_provisioning_status = prov_pending, mb_identity_provider = '''', mb_created_at = now,
      mb_updated_at = now, mb_domain_name = dom_name dm\<rparr>"
  have "prov_pending \<noteq> ''''" by (simp add: prov_pending_def)
  then have "typed_mailbox (mailbox_defaults newid now ?m)" by (simp add: typed_mailbox_def mailbox_defaults_def)
  from mailbox_insert [OF this, of "tick (tick db)"] created(6) have "statement (tick (tick db)) db3" by simp
  with run_ticks [of db 2] have "statements db db3" by (simp add: numeral_2_eq_2 run_step)
  then show ?thesis using created(7) by (rule create_provision_run)
qed

lemma mailbox_provision_run:
  assumes "mailbox_provision prov now em db k = (r, db', k')"
  shows "statements db db'"
  using assms
  by (auto simp: mailbox_provision_def Let_def sql_simps intro!: run_intros
      split: if_splits option.splits sum.splits prod.splits)

lemma mailbox_delete_run: "statements db (fst (snd (mailbox_delete prov now em db k)))"
  by (auto simp: mailbox_delete_def Let_def sql_simps split_beta intro!: run_intros split: option.splits sum.splits)

lemma password_runs [op_runs]:
  "statements db (snd (mailbox_set_password env now rnd em pw db))"
  "statements db (snd (local_set_password kdf now rnd em pw db))"
  by (auto simp: mailbox_set_password_def local_set_password_def Let_def sql_simps intro!: run_intros
      split: if_splits option.splits sum.splits err.splits)

lemma status_runs [op_runs]:
  "statements db (snd (mailbox_suspend now i db))" "statements db (snd (mailbox_resume now i db))"
  by (simp_all add: mailbox_suspend_def mailbox_resume_def run_intros)

lemma quota_runs [op_runs]:
  "statements db (snd (update_quota now em n db))"
  by (auto simp: update_quota_def get_quota_def Let_def sql_simps split_beta intro!: run_intros
      split: option.splits sum.splits)

lemma reconcile_run: "statements db (fst (snd (reconcile prov now em db k)))"
  by (auto simp: reconcile_def Let_def sql_simps split_beta intro!: run_intros
      split: option.splits sum.splits)

lemma message_store_run: "statements db (fst (snd (message_store mp bs newid rnd now em raw db k)))"
  by (auto simp: message_store_def Let_def sql_simps split_beta intro!: run_intros
      split: option.splits sum.splits)

lemma message_delete_run: "statements db (fst (snd (message_delete bs i db k)))"
  by (auto simp: message_delete_def Let_def sql_simps split_beta intro!: run_intros
      split: option.splits sum.splits)

lemma smtp_runs [op_runs]:
  "statements db (snd (smtp_create kdf dr now nm name db))" "statements db (snd (smtp_revoke now nm kid db))"
  by (auto simp: smtp_create_def smtp_revoke_def Let_def sql_simps split_beta intro!: run_intros
      split: option.splits sum.splits err.splits)

lemma limits_run [op_runs]: "statements db (snd (set_limits now em l db))"
  by (auto simp: set_limits_def Let_def sql_simps intro!: run_intros split: option.splits sum.splits)

lemma record_runs [op_runs]:
  "statements db (snd (record_message_event newid now mid qid ty st detail db))"
  "statements db (snd (record_audit newid now aty aid act rty rid md db))"
  by (simp_all add: record_message_event_def record_audit_def run_intros)

lemma dkim_query_run: "snd (dkim_query msg f db) = tick db"
  by (simp add: dkim_query_eq)

lemma get_key_runs:
  "snd (get_dkim_key_by_selector dm sel db) = tick db" "snd (get_active_dkim_key dm db) = tick db"
  by (simp_all add: get_dkim_key_by_selector_def get_active_dkim_key_def dkim_query_run)

lemma get_policy_run: "statements db0 db \<Longrightarrow> statements db0 (snd (dkim_get_policy getenv dn db))"
  by (auto simp: dkim_get_policy_def repo_get_policy_def Let_def sql_simps split_beta intro!: run_intros
      split: option.splits sum.splits)

lemma dkim_generate_run: "statements db (fst (snd (dkim_generate_key cod ks newid now rnd tmp dn sel db k)))"
  by (auto simp: dkim_generate_key_def Let_def sql_simps split_beta intro!: run_intros
      split: option.splits sum.splits)

lemma dkim_activate_run: "statements db (fst (snd (dkim_activate_key ks now dn sel db k)))"
  by (auto simp: dkim_activate_key_def Let_def sql_simps split_beta get_key_runs intro!: run_intros
      split: option.splits sum.splits)

lemma dkim_runs [op_runs]:
  "statements db (snd (dkim_revoke_key now dn sel db))"
  "statements db (snd (dkim_set_spf_policy getenv now dn spf db))"
  "statements db (snd (dkim_set_dmarc_policy getenv now dn dmarc db))"
  by (auto simp: dkim_revoke_key_def dkim_set_spf_policy_def dkim_set_dmarc_policy_def Let_def sql_simps split_beta
      get_key_runs intro!: run_intros get_policy_run split: option.splits sum.splits)

lemma token_runs [op_runs]:
  "statements db (snd (issue_token_pair sha dr now uid email role db))"
  "statements db (snd (validate_access_token sha now raw db))"
  "statements db (snd (refresh_tokens sha dr now raw db))"
  "statements db (snd (revoke_token sha now raw db))"
  by (rule run_tokens, rule issue_run validate_run refresh_run revoke_run)+

lemma revoke_all_run [op_runs]: "statements db (snd (revoke_all_for_email now email db))"
  by (rule run_tokens, unfold revoke_all_for_email_def, rule token_run_step, rule stmt_revoke_email)

lemma sync_create_run:
  assumes "statements db0 db"
  shows "statements db0 (fst (snd (sync_create env dw quota email r db d)))"
proof -
  obtain a db1 d1 where c: "mailbox_create (se_mail env) (se_prov env) (dw_id dw) (se_now env) (dw_salt dw) email
      (''LDAP_MANAGED_'' @ uuid_string (dw_password dw)) quota db d = (a, db1, d1)"
    by (metis prod_cases3)
  have run: "statements db0 db1" using assms mailbox_create_run [OF c] by (rule rtranclp_trans)
  show ?thesis
  proof (cases a)
    case (Inl err)
    with c run show ?thesis by (simp add: sync_create_def)
  next
    case (Inr mb)
    let ?db2 = "snd (update_identity_provider (se_now env) (mb_id mb) ''ldap'' db1)"
    obtain pr db3 d2 where p: "mailbox_provision (se_prov env) (se_now env) email ?db2 d1 = (pr, db3, d2)"
      by (metis prod_cases3)
    have "statements db0 ?db2" by (intro run_intros run) simp
    then have "statements db0 db3" using mailbox_provision_run [OF p] by (rule rtranclp_trans)
    with c p Inr show ?thesis by (simp add: sync_create_def Let_def)
  qed
qed

lemma sync_one_run: "statements db (fst (snd (sync_one svc opts env counts dw i r db d)))"
  by (auto simp: sync_one_def sync_domain_def sync_mailbox_def Let_def sql_simps split_beta
      intro!: run_intros sync_create_run split: option.splits sum.splits)

lemma sync_loop_run:
  "statements db (fst (snd (sync_loop svc opts env counts dw n is r db d)))"
proof (induction "is" arbitrary: n r db d)
  case Nil
  show ?case by (simp add: run_intros)
next
  case (Cons i js)
  obtain r1 db1 d1 where s: "sync_one svc opts env counts (dw n) i r db d = (r1, db1, d1)" by (metis prod_cases3)
  have "statements db db1" using sync_one_run [of db svc opts env counts "dw n" i r d] s by simp
  then show ?case using rtranclp_trans [OF _ Cons.IH] s by fastforce
qed

section \<open>The operations of the services\<close>

text \<open>
  One rule for every operation of a service that writes to the tables of this database, with any
  arguments and any collaborators. A directory listing leaves the database alone. The system
  settings, whose table no other statement refers to, are kept by theory Settings: their
  statements are not among these.
\<close>

inductive operation :: "db \<Rightarrow> db \<Rightarrow> bool" where
  op_domain_create: "operation db (snd (domain_create newid now nm db))"
| op_domain_delete: "operation db (snd (domain_delete nm db))"
| op_mailbox_create: "mailbox_create env (prov :: disk provisioner option) newid now rnd em pw quota db k = (r, db', k') \<Longrightarrow>
    operation db db'"
| op_mailbox_provision: "mailbox_provision (prov :: disk provisioner option) now em db k = (r', db', k') \<Longrightarrow> operation db db'"
| op_mailbox_delete: "operation db (fst (snd (mailbox_delete (prov :: disk provisioner option) now em db k)))"
| op_mailbox_password: "operation db (snd (mailbox_set_password env now rnd em pw db))"
| op_mailbox_suspend: "operation db (snd (mailbox_suspend now i db))"
| op_mailbox_resume: "operation db (snd (mailbox_resume now i db))"
| op_alias_create: "operation db (snd (create_alias newid now a db))"
| op_alias_delete: "operation db (snd (delete_alias s t db))"
| op_quota_set: "operation db (snd (update_quota now em n db))"
| op_quota_reconcile: "operation db (fst (snd (reconcile fs now em db k)))"
| op_message_store: "operation db (fst (snd (message_store mp (bs :: disk blob_store) newid tmp now em raw db k)))"
| op_message_delete: "operation db (fst (snd (message_delete (bs :: disk blob_store) i db k)))"
| op_dkim_generate: "operation db (fst (snd (dkim_generate_key cod (ks :: disk keystore) newid now rsa tmp dn sel db k)))"
| op_dkim_activate: "operation db (fst (snd (dkim_activate_key (ks :: disk keystore) now dn sel db k)))"
| op_dkim_revoke: "operation db (snd (dkim_revoke_key now dn sel db))"
| op_spf: "operation db (snd (dkim_set_spf_policy getenv now dn spf db))"
| op_dmarc: "operation db (snd (dkim_set_dmarc_policy getenv now dn dmarc db))"
| op_token_issue: "operation db (snd (issue_token_pair sha dr now uid email role db))"
| op_token_validate: "operation db (snd (validate_access_token sha now raw db))"
| op_token_refresh: "operation db (snd (refresh_tokens sha dr now raw db))"
| op_token_revoke: "operation db (snd (revoke_token sha now raw db))"
| op_token_revoke_all: "operation db (snd (revoke_all_for_email now email db))"
| op_smtp_create: "operation db (snd (smtp_create kdf sdr now nm name db))"
| op_smtp_revoke: "operation db (snd (smtp_revoke now nm kid db))"
| op_limits: "operation db (snd (set_limits now em l db))"
| op_event: "operation db (snd (record_message_event newid now mid qid ty st detail db))"
| op_audit: "operation db (snd (record_audit newid now aty aid act rty rid md db))"
| op_id_password: "operation db (snd (local_set_password kdf now rnd em pw db))"
| op_sync: "operation db (fst (snd (sync_loop (svc :: disk identity_service) opts (env' :: disk sync_env) counts dw n idents rep0 db d)))"

lemma operation_run: "operation db db' \<Longrightarrow> statements db db'"
  by (induction rule: operation.induct)
    (auto intro: op_runs mailbox_create_run mailbox_provision_run mailbox_delete_run reconcile_run message_store_run
      message_delete_run dkim_generate_run dkim_activate_run sync_loop_run run_intros)

text \<open>
  C40. What the columns of the database may hold (the table of system settings aside). Every
  operation of a service is a run of the repositories' statements, and whatever statements of concurrent requests ran, in any order
  and with any of them failing, the keys are unique and every reference has its row; domain
  names are valid and canonical; mailbox addresses are canonical, their status, provisioning
  status and provider are values of their enumerations and their quota is positive; aliases and
  DKIM selectors are in lower case; limits fit their columns.
\<close>

theorem columns_typed:
  "(operation db db' \<longrightarrow> statements db db') \<and>
   (statements empty_db db \<longrightarrow> wf_db db \<and>
      (\<forall>d\<in>set (domains db). is_valid_domain_name (dom_name d) \<and> canon (dom_name d) = dom_name d) \<and>
      (\<forall>m\<in>set (mailboxes db). canon (mb_email m) = mb_email m \<and>
         mb_status m \<in> {''active'', ''suspended'', ''deleting''} \<and> mb_provisioning_status m \<in> set prov_states \<and>
         mb_identity_provider m \<in> {''local'', ''ldap''} \<and> 0 < mb_quota_bytes m) \<and>
      (\<forall>a\<in>set (aliases db). to_lower (al_source a) = al_source a \<and> to_lower (al_destination a) = al_destination a) \<and>
      (\<forall>k\<in>set (domain_dkim db). dk_status k \<in> {''pending'', ''active'', ''revoked''} \<and>
         to_lower (dk_selector k) = dk_selector k) \<and>
      (\<forall>l\<in>set (mailbox_limits db). int4 (lim_messages_per_minute l) \<and> int4 (lim_messages_per_hour l) \<and>
         int4 (lim_recipients_per_day l)))"
proof (intro conjI impI)
  assume "operation db db'"
  then show "statements db db'" by (rule operation_run)
next
  assume "statements empty_db db"
  then have t: "typed_db db" using typed_statements typed_empty by blast
  then show "wf_db db" by (rule typed_wf)
  show "\<forall>d\<in>set (domains db). is_valid_domain_name (dom_name d) \<and> canon (dom_name d) = dom_name d"
    using t by (simp add: typed_db_def domains_canon_def)
  show "\<forall>m\<in>set (mailboxes db). canon (mb_email m) = mb_email m \<and>
         mb_status m \<in> {''active'', ''suspended'', ''deleting''} \<and> mb_provisioning_status m \<in> set prov_states \<and>
         mb_identity_provider m \<in> {''local'', ''ldap''} \<and> 0 < mb_quota_bytes m"
    using t by (simp add: typed_db_def list_all_iff typed_mailbox_def mailbox_states_def)
  show "\<forall>a\<in>set (aliases db). to_lower (al_source a) = al_source a \<and> to_lower (al_destination a) = al_destination a"
    using t by (simp add: typed_db_def list_all_iff typed_alias_def)
  show "\<forall>k\<in>set (domain_dkim db). dk_status k \<in> {''pending'', ''active'', ''revoked''} \<and>
         to_lower (dk_selector k) = dk_selector k"
    using t wf_dbD(5) [OF typed_wf [OF t]] by (simp add: typed_db_def list_all_iff typed_key_def wf_dkim_def)
  show "\<forall>l\<in>set (mailbox_limits db). int4 (lim_messages_per_minute l) \<and> int4 (lim_messages_per_hour l) \<and>
         int4 (lim_recipients_per_day l)"
    using t by (simp add: typed_db_def list_all_iff typed_limits_def)
qed

definition example_alias :: mail_alias where
  "example_alias = \<lparr>al_id = 8, al_domain_id = 7, al_source = ''Sales@Example.org'',
     al_destination = ''Bob@example.org'', al_created_at = 1\<rparr>"

definition example_run :: db where
  "example_run = snd (create_alias 8 0 example_alias (snd (domain_create 7 0 '' Example.ORG '' empty_db)))"

theorem columns_typed_witness:
  "statements empty_db example_run \<and> wf_db example_run \<and>
   map al_source (aliases example_run) = [''sales@example.org''] \<and>
   list_all (\<lambda>a. to_lower (al_source a) = al_source a) (aliases example_run)"
proof -
  let ?db = "snd (domain_create 7 0 '' Example.ORG '' empty_db)"
  have "statements empty_db ?db" using op_domain_create columns_typed by blast
  moreover have "statements ?db example_run" unfolding example_run_def using op_alias_create columns_typed by blast
  ultimately have run: "statements empty_db example_run" by (rule rtranclp_trans)
  moreover have "map al_source (aliases example_run) = [''sales@example.org'']" by code_simp
  ultimately show ?thesis using columns_typed [of example_run example_run] by (simp add: list_all_iff)
qed

end
