(* ===== verification/Delivery.thy ===== *)
theory Delivery
  imports Control_Plane Webmail_Store
begin

text \<open>
  Who may receive, send and log in: the lookups of \<open>internal/postfix\<close> and \<open>internal/dovecot\<close>
  in Go, and the queries of the configuration files they generate, which Postfix and Dovecot
  run on the same tables. Facts: the two sides accept the same recipients and deliver to the
  Maildir that provisioning made and webmail reads; how they differ on senders.
\<close>

section \<open>Errors\<close>

definition err_pf_domain_not_found :: err where
  "err_pf_domain_not_found = Sentinel ''postfix'' ''ErrDomainNotFound''"

definition err_pf_mailbox_not_found :: err where
  "err_pf_mailbox_not_found = Sentinel ''postfix'' ''ErrMailboxNotFound''"

definition err_invalid_recipient :: err where
  "err_invalid_recipient = Sentinel ''postfix'' ''ErrInvalidRecipient''"

definition err_dovecot_auth_failed :: err where
  "err_dovecot_auth_failed = Sentinel ''dovecot'' ''ErrAuthenticationFailed''"

definition err_dovecot_user_not_found :: err where
  "err_dovecot_user_not_found = Sentinel ''dovecot'' ''ErrUserNotFound''"

lemmas [errs] = err_pf_domain_not_found_def err_pf_mailbox_not_found_def err_invalid_recipient_def
  err_dovecot_auth_failed_def err_dovecot_user_not_found_def

section \<open>The Postfix repository\<close>

text \<open>\<open>status = 'active' AND provisioning_status = 'ready'\<close>, in all the queries\<close>

definition deliverable :: "mailbox \<Rightarrow> bool" where
  "deliverable m \<longleftrightarrow> mb_status m = ''active'' \<and> mb_provisioning_status m = prov_ready"

definition active_domain :: "string \<Rightarrow> db \<Rightarrow> domain option" where
  "active_domain nm db = find (\<lambda>d. to_lower (dom_name d) = to_lower nm \<and> dom_status d = ''active'') (domains db)"

text \<open>Mailboxes joined with their domain; the status of the domain is not looked at.\<close>

definition ready_mailbox :: "string \<Rightarrow> db \<Rightarrow> mailbox option" where
  "ready_mailbox em db = find (\<lambda>m. to_lower (mb_email m) = to_lower em \<and> deliverable m) (mailbox_rows db)"

definition domain_active :: "uuid \<Rightarrow> db \<Rightarrow> bool" where
  "domain_active i db \<longleftrightarrow> list_ex (\<lambda>d. dom_id d = i \<and> dom_status d = ''active'') (domains db)"

definition alias_destinations :: "string \<Rightarrow> db \<Rightarrow> string list" where
  "alias_destinations src db =
     map al_destination
       (filter (\<lambda>a. to_lower (al_source a) = to_lower src \<and> domain_active (al_domain_id a) db) (aliases db))"

definition lookup_virtual_domain :: "string \<Rightarrow> db \<Rightarrow> bool result \<times> db" where
  "lookup_virtual_domain nm db =
     (let name = trim_space (to_lower nm)
      in case sql_query_row (active_domain name) db of
           (Inl err, db1) \<Rightarrow>
             (if err_is err err_no_rows then (Inr False, db1)
              else (Inl (Wrap ''postfix domain lookup'' err), db1))
         | (Inr d, db1) \<Rightarrow> (Inr True, db1))"

definition lookup_virtual_mailbox :: "string \<Rightarrow> db \<Rightarrow> bool result \<times> db" where
  "lookup_virtual_mailbox em db =
     (let email = trim_space (to_lower em)
      in case sql_query_row (ready_mailbox email) db of
           (Inl err, db1) \<Rightarrow>
             (if err_is err err_no_rows then (Inr False, db1)
              else (Inl (Wrap ''postfix mailbox lookup'' err), db1))
         | (Inr m, db1) \<Rightarrow> (Inr True, db1))"

definition lookup_virtual_alias :: "string \<Rightarrow> db \<Rightarrow> string list result \<times> db" where
  "lookup_virtual_alias src db =
     (let source_email = trim_space (to_lower src)
      in case sql_query (alias_destinations source_email) db of
           (Inl err, db1) \<Rightarrow> (Inl (Wrap ''postfix alias lookup'' err), db1)
         | (Inr ds, db1) \<Rightarrow> (Inr ds, db1))"

section \<open>Recipients and senders\<close>

definition validate_recipient :: "string \<Rightarrow> db \<Rightarrow> bool result \<times> db" where
  "validate_recipient em db =
     (let email = trim_space (to_lower em);
          parts = str_split CHR ''@'' email
      in if length parts \<noteq> 2 \<or> parts ! 0 = [] \<or> parts ! 1 = [] then (Inl err_invalid_recipient, db)
         else (case lookup_virtual_domain (parts ! 1) db of
             (Inl err, db1) \<Rightarrow> (Inl err, db1)
           | (Inr domain_found, db1) \<Rightarrow>
               if \<not> domain_found then (Inl err_pf_domain_not_found, db1)
               else (case lookup_virtual_alias email db1 of
                   (r, db2) \<Rightarrow>
                     if (case r of Inl err \<Rightarrow> False | Inr as \<Rightarrow> as \<noteq> []) then (Inr True, db2)
                     else (case lookup_virtual_mailbox email db2 of
                         (Inl err, db3) \<Rightarrow> (Inl err, db3)
                       | (Inr mailbox_found, db3) \<Rightarrow>
                           (if \<not> mailbox_found then (Inl err_pf_mailbox_not_found, db3) else (Inr True, db3))))))"

definition own_address :: "string \<Rightarrow> db \<Rightarrow> mailbox option" where
  "own_address em db = find (\<lambda>m. to_lower (mb_email m) = to_lower em \<and> deliverable m) (mailboxes db)"

text \<open>Aliases joined with mailboxes on the destination; the domain of the alias plays no part.\<close>

definition alias_for :: "string \<Rightarrow> string \<Rightarrow> db \<Rightarrow> (mail_alias \<times> mailbox) option" where
  "alias_for sender user db =
     find (\<lambda>(a, m). to_lower (al_destination a) = to_lower (mb_email m) \<and> to_lower (al_source a) = to_lower sender \<and>
        to_lower (mb_email m) = to_lower user \<and> deliverable m) (List.product (aliases db) (mailboxes db))"

definition can_send_as :: "string \<Rightarrow> string \<Rightarrow> db \<Rightarrow> bool result \<times> db" where
  "can_send_as user0 sender0 db =
     (let user = trim_space (to_lower user0); sender = trim_space (to_lower sender0)
      in if user = '''' \<or> sender = '''' then (Inr False, db)
         else if user = sender
         then (case sql_query_row (own_address user) db of
             (Inl err, db1) \<Rightarrow>
               (if err_is err err_no_rows then (Inr False, db1)
                else (Inl (Wrap ''verify primary sender'' err), db1))
           | (Inr m, db1) \<Rightarrow> (Inr True, db1))
         else (case sql_query_row (alias_for sender user) db of
             (Inl err, db1) \<Rightarrow>
               (if err_is err err_no_rows then (Inr False, db1)
                else (Inl (Wrap ''verify alias sender'' err), db1))
           | (Inr am, db1) \<Rightarrow> (Inr True, db1)))"

section \<open>Dovecot\<close>

definition get_password_hash :: "string \<Rightarrow> db \<Rightarrow> string result \<times> db" where
  "get_password_hash user db =
     (let username = trim_space (to_lower user)
      in case sql_query_row (own_address username) db of
           (Inl err, db1) \<Rightarrow>
             (if err_is err err_no_rows then (Inl err_dovecot_user_not_found, db1)
              else (Inl (Wrap ''dovecot passdb lookup'' err), db1))
         | (Inr m, db1) \<Rightarrow> (Inr (mb_password_hash m), db1))"

record user_info =
  ui_username :: string
  ui_email :: string
  ui_domain :: string
  ui_status :: string
  ui_provisioning_status :: string
  ui_uid :: int
  ui_gid :: int
  ui_home :: path

definition get_user_info :: "string \<Rightarrow> path \<Rightarrow> int \<Rightarrow> int \<Rightarrow> db \<Rightarrow> user_info result \<times> db" where
  "get_user_info user vmail uid gid db =
     (let username = trim_space (to_lower user)
      in case sql_query_row (ready_mailbox username) db of
           (Inl err, db1) \<Rightarrow>
             (if err_is err err_no_rows then (Inl err_dovecot_user_not_found, db1)
              else (Inl (Wrap ''dovecot userdb lookup'' err), db1))
         | (Inr m, db1) \<Rightarrow>
             let localpart = str_split CHR ''@'' (mb_email m) ! 0
             in (Inr \<lparr>ui_username = mb_email m, ui_email = mb_email m, ui_domain = mb_domain_name m,
                      ui_status = mb_status m, ui_provisioning_status = mb_provisioning_status m,
                      ui_uid = uid, ui_gid = gid,
                      ui_home = path_join vmail [mb_domain_name m, localpart, ''Maildir'']\<rparr>, db1))"

definition dovecot_authenticate :: "kdf \<Rightarrow> string \<Rightarrow> string \<Rightarrow> db \<Rightarrow> unit result \<times> db" where
  "dovecot_authenticate kdf user password db =
     (let username = trim_space (to_lower user)
      in if username = '''' \<or> password = '''' then (Inl err_dovecot_auth_failed, db)
         else (case get_password_hash username db of
             (Inl err, db1) \<Rightarrow> (Inl err_dovecot_auth_failed, db1)
           | (Inr hash, db1) \<Rightarrow>
               (case verify_password kdf password hash of
                  Inl (Panic s) \<Rightarrow> (Inl (Panic s), db1)
                | Inl err \<Rightarrow> (Inl err_dovecot_auth_failed, db1)
                | Inr valid \<Rightarrow> (if \<not> valid then (Inl err_dovecot_auth_failed, db1) else (Inr (), db1)))))"

section \<open>The queries of the generated files\<close>

text \<open>\<open>split_part\<close> of PostgreSQL: the n-th field, from 1, empty beyond the last.\<close>

definition split_part :: "string \<Rightarrow> char \<Rightarrow> nat \<Rightarrow> string" where
  "split_part s c n = (let ps = str_split c s in if n - 1 < length ps then ps ! (n - 1) else '''')"

definition map_domain :: "string \<Rightarrow> db \<Rightarrow> bool" where
  "map_domain s db \<longleftrightarrow> active_domain s db \<noteq> None"

definition map_mailbox :: "string \<Rightarrow> db \<Rightarrow> string option" where
  "map_mailbox s db =
     map_option (\<lambda>m. mb_domain_name m @ ''/'' @ split_part (mb_email m) CHR ''@'' 1 @ ''/Maildir/'') (ready_mailbox s db)"

definition map_alias :: "string \<Rightarrow> db \<Rightarrow> string list" where
  "map_alias s db = alias_destinations s db"

text \<open>The logins the map allows for a sender address, before they are joined with commas.\<close>

definition map_sender_logins :: "string \<Rightarrow> db \<Rightarrow> string list" where
  "map_sender_logins s db = remdups
     (map mb_email (filter (\<lambda>m. to_lower (mb_email m) = to_lower s \<and> deliverable m) (mailboxes db)) @
      alias_destinations s db @
      map sk_username (filter (\<lambda>k. sk_status k = ''active'' \<and>
        list_ex (\<lambda>d. dom_id d = sk_domain_id k \<and> to_lower (dom_name d) = to_lower (split_part s CHR ''@'' 2) \<and>
          dom_status d = ''active'') (domains db)) (smtp_credentials db)))"

definition passdb_query :: "string \<Rightarrow> string \<Rightarrow> db \<Rightarrow> (string \<times> string) option" where
  "passdb_query user service db =
     (case find (\<lambda>k. to_lower (sk_username k) = to_lower user \<and> sk_status k = ''active'' \<and>
             to_lower service \<in> {''smtp'', ''submission''}) (smtp_credentials db) of
        Some k \<Rightarrow> Some (sk_username k, sk_secret_hash k)
      | None \<Rightarrow> map_option (\<lambda>m. (mb_email m, mb_password_hash m)) (own_address user db))"

text \<open>\<open>vars\<close> is what Dovecot puts for \<open>%n\<close> and \<open>%d\<close> of a login name.\<close>

definition userdb_home :: "(string \<Rightarrow> string \<times> string) \<Rightarrow> string \<Rightarrow> string \<Rightarrow> db \<Rightarrow> string option" where
  "userdb_home vars vmail user db =
     map_option (\<lambda>m. vmail @ ''/'' @ snd (vars user) @ ''/'' @ fst (vars user) @ ''/Maildir'') (own_address user db)"

definition iterate_query :: "db \<Rightarrow> string list" where
  "iterate_query db = map mb_email (filter deliverable (mailboxes db))"

section \<open>Facts\<close>

lemma deliverable_row [simp]: "deliverable (m\<lparr>mb_domain_name := n\<rparr>) = deliverable m"
  by (simp add: deliverable_def)

lemma active_domain_tick [simp]:
  "active_domain n (tick db) = active_domain n db" "domain_active i (tick db) = domain_active i db"
  by (simp_all add: active_domain_def domain_active_def)

lemma lookups_tick [simp]:
  "ready_mailbox e (tick db) = ready_mailbox e db" "own_address e (tick db) = own_address e db"
  "alias_destinations e (tick db) = alias_destinations e db" "alias_for s u (tick db) = alias_for s u db"
  by (simp_all add: ready_mailbox_def own_address_def alias_destinations_def alias_for_def mailbox_rows_def)

lemma lookup_domain_eq [sql_simps]:
  "lookup_virtual_domain nm db =
     (if fails db then Inl (Wrap ''postfix domain lookup'' Fault) else Inr (map_domain (canon nm) db), tick db)"
  by (simp add: lookup_virtual_domain_def canon_def' Let_def sql_simps errs map_domain_def split: option.splits)

lemma lookup_mailbox_eq [sql_simps]:
  "lookup_virtual_mailbox em db =
     (if fails db then Inl (Wrap ''postfix mailbox lookup'' Fault) else Inr (ready_mailbox (canon em) db \<noteq> None), tick db)"
  by (simp add: lookup_virtual_mailbox_def canon_def' Let_def sql_simps errs split: option.splits)

lemma lookup_alias_eq [sql_simps]:
  "lookup_virtual_alias src db =
     (if fails db then Inl (Wrap ''postfix alias lookup'' Fault) else Inr (map_alias (canon src) db), tick db)"
  by (simp add: lookup_virtual_alias_def canon_def' Let_def sql_simps map_alias_def)

text \<open>An address has one row, so the first match of a query is the only one.\<close>

lemma email_row_unique:
  assumes "wf_db db" and "m \<in> set (mailboxes db)" and "m' \<in> set (mailboxes db)"
    and "to_lower (mb_email m') = to_lower (mb_email m)"
  shows "m' = m"
  using assms(1) distinct_key_eq [OF _ assms(3,2), of "\<lambda>m. to_lower (mb_email m)"] assms(4)
  by (simp add: wf_db_def wf_mailboxes_def)

lemma own_address_Some:
  assumes "wf_db db" and "m \<in> set (mailboxes db)" and "deliverable m"
  shows "own_address (mb_email m) db = Some m"
proof -
  obtain m' where m': "own_address (mb_email m) db = Some m'"
    using assms(2,3) by (cases "own_address (mb_email m) db") (auto simp: own_address_def find_key_None_iff)
  from find_SomeD [OF this [unfolded own_address_def]] have "m' = m"
    using email_row_unique [OF assms(1,2)] by blast
  with m' show ?thesis by simp
qed

lemma ready_mailbox_Some:
  assumes "wf_db db" and "m \<in> set (mailboxes db)" and "deliverable m"
    and "d \<in> set (domains db)" and "dom_id d = mb_domain_id m"
  shows "ready_mailbox (mb_email m) db = Some (m\<lparr>mb_domain_name := dom_name d\<rparr>)"
proof -
  have "find (\<lambda>x. dom_id x = mb_domain_id m) (domains db) = Some d"
    using assms(1,4,5) by (simp add: find_key_Some_iff wf_db_def wf_domains_def)
  then have row: "m\<lparr>mb_domain_name := dom_name d\<rparr> \<in> set (mailbox_rows db)"
    using assms(2) by (auto simp: set_mailbox_rows join_domain_Some)
  obtain m' where m': "ready_mailbox (mb_email m) db = Some m'"
    using row assms(3) by (cases "ready_mailbox (mb_email m) db") (auto simp: ready_mailbox_def find_key_None_iff)
  obtain m0 d0 where m0: "m0 \<in> set (mailboxes db)" "d0 \<in> set (domains db)" "dom_id d0 = mb_domain_id m0"
    "m' = m0\<lparr>mb_domain_name := dom_name d0\<rparr>" "to_lower (mb_email m') = to_lower (mb_email m) \<and> deliverable m'"
    by (rule find_mailbox_rows [OF m' [unfolded ready_mailbox_def]])
  from m0(1,4,5) have "m0 = m" using email_row_unique [OF assms(1,2)] by simp
  moreover from this m0(2,3) assms(1,4,5) have "d0 = d"
    using distinct_key_eq [of dom_id "domains db" d0 d] by (simp add: wf_db_def wf_domains_def)
  ultimately show ?thesis using m' m0(4) by simp
qed

lemma calculate_path_webmail:
  assumes "calculate_path (vmail_root svc) e = Inr p"
  shows "get_maildir_path svc e = Inr p"
proof -
  have sep: "contains_any s separators = (contains_any s [CHR ''/'', CHR 0x5C])" for s
    by (simp add: separators_def)
  from assms obtain l d where parts: "str_split CHR ''@'' (trim_space (to_lower e)) = [l, d]"
    by (auto simp: calculate_path_def Let_def length_Suc_conv numeral_2_eq_2 split: if_splits)
  from assms show ?thesis
    unfolding calculate_path_def get_maildir_path_def parts sep
    by (auto simp: Let_def parts split: if_splits)
qed

lemma path_str_append: "p \<noteq> [] \<Longrightarrow> q \<noteq> [] \<Longrightarrow> path_str (p @ q) = path_str p @ ''/'' @ str_join ''/'' q"
proof (induction p rule: induct_list012)
  case (2 x)
  then show ?case by (cases q) (simp_all add: path_str_def)
next
  case (3 x y zs)
  then show ?case by (simp add: path_str_def)
qed simp

section \<open>Properties\<close>

text \<open>
  C22. One Maildir: for a mailbox that is active and ready, whatever the spelling of its address,
  the file Postfix delivers to, the home that Dovecot's query gives, the home that the Go lookup
  gives and the folder that webmail opens are all the path under which it was provisioned.
\<close>

theorem maildir_agreement:
  assumes "wf_db db" and "faults db = []" and "m \<in> set (mailboxes db)" and "deliverable m"
    and "d \<in> set (domains db)" and "dom_id d = mb_domain_id m" and "mb_email m = l @ CHR ''@'' # dom_name d"
    and "canon s = mb_email m" and "vmail_root svc \<noteq> []"
    and "calculate_path (vmail_root svc) (mb_email m) = Inr p" and "vars (canon s) = (l, dom_name d)"
  shows "map_option (\<lambda>rel. path_str (vmail_root svc) @ ''/'' @ rel) (map_mailbox (canon s) db) = Some (path_str p @ ''/'') \<and>
    userdb_home vars (path_str (vmail_root svc)) (canon s) db = Some (path_str p) \<and>
    map_option ui_home (case fst (get_user_info s (vmail_root svc) uid gid db) of Inl e \<Rightarrow> None | Inr ui \<Rightarrow> Some ui) = Some p \<and>
    get_maildir_path svc s = Inr p"
proof -
  let ?root = "vmail_root svc"
  have cm: "canon (mb_email m) = mb_email m" using assms(8) by (metis canon_idem)
  obtain l' d' where q: "canon (mb_email m) = l' @ CHR ''@'' # d'" "CHR ''@'' \<notin> set l'" "CHR ''@'' \<notin> set d'"
    "plain l'" "plain d'" "p = ?root @ [d', l', ''Maildir'']"
    by (rule calculate_path_Inr [OF assms(10)])
  have "str_split CHR ''@'' (mb_email m) = [l', d']" using q(1-3) cm by (simp add: split_pair_iff)
  moreover have "length (str_split CHR ''@'' (mb_email m)) = Suc (count_list (mb_email m) CHR ''@'')"
    using q(1-3) cm calculation by simp
  ultimately have ld: "l' = l" "d' = dom_name d"
    using assms(7) q(1-3) cm by (auto simp: append_eq_append_conv2 append_eq_Cons_conv Cons_eq_append_conv)
  have parts: "str_split CHR ''@'' (mb_email m) = [l, dom_name d]"
    using q(2,3) assms(7) unfolding ld by (simp add: split_pair_iff)
  note row = ready_mailbox_Some [OF assms(1,3-6)]
  have pl: "plain ''Maildir''" by (simp add: plain_def)
  have p: "path_str p = path_str ?root @ ''/'' @ dom_name d @ ''/'' @ l @ ''/Maildir''"
    unfolding q(6) ld using path_str_append [OF assms(9)] by simp
  have "map_mailbox (canon s) db = Some (dom_name d @ ''/'' @ l @ ''/Maildir/'')"
    using row assms(8) by (simp add: map_mailbox_def split_part_def parts)
  then have 1: "map_option (\<lambda>rel. path_str ?root @ ''/'' @ rel) (map_mailbox (canon s) db) = Some (path_str p @ ''/'')"
    by (simp add: p)
  have 2: "userdb_home vars (path_str ?root) (canon s) db = Some (path_str p)"
    using own_address_Some [OF assms(1,3,4)] assms(8,11) by (simp add: userdb_home_def p)
  have "path_join ?root [dom_name d, l, ''Maildir''] = p"
    using q(4,5) pl unfolding q(6) ld by (simp add: path_join_plain)
  then have 3: "map_option ui_home (case fst (get_user_info s ?root uid gid db) of Inl e \<Rightarrow> None | Inr ui \<Rightarrow> Some ui) = Some p"
    using row assms(2,8) by (simp add: get_user_info_def canon_def' sql_simps parts)
  have "get_maildir_path svc s = get_maildir_path svc (mb_email m)"
    unfolding get_maildir_path_def canon_def' assms(8) cm ..
  with calculate_path_webmail [OF assms(10)] have 4: "get_maildir_path svc s = Inr p" by simp
  show ?thesis by (intro conjI 1 2 3 4)
qed

definition example_home :: db where
  "example_home = empty_db\<lparr>domains := [\<lparr>dom_id = 7, dom_name = ''example.org'', dom_status = ''active'',
        dom_created_at = 0, dom_updated_at = 0\<rparr>],
     mailboxes := [\<lparr>mb_id = 8, mb_domain_id = 7, mb_email = ''bob@example.org'', mb_password_hash = ''h'',
        mb_quota_bytes = 1, mb_used_bytes = 0, mb_status = ''active'', mb_provisioning_status = ''ready'',
        mb_identity_provider = ''local'', mb_created_at = 0, mb_updated_at = 0, mb_domain_name = ''''\<rparr>]\<rparr>"

definition example_webmail :: maildir_service where
  "example_webmail = new_maildir_service ''/srv/mail'' '''' 0"

lemma example_home_facts:
  "wf_db example_home" "faults example_home = []"
  "deliverable (hd (mailboxes example_home))" "mb_email (hd (mailboxes example_home)) = ''bob@example.org''"
  "mailboxes example_home = [hd (mailboxes example_home)]" "domains example_home = [hd (domains example_home)]"
  "dom_id (hd (domains example_home)) = mb_domain_id (hd (mailboxes example_home))"
  "dom_name (hd (domains example_home)) = ''example.org''"
  by (simp_all add: example_home_def empty_db_def wf_db_def wf_defs ref_def deliverable_def prov_ready_def)

theorem maildir_agreement_witness:
  "map_mailbox ''bob@example.org'' example_home = Some ''example.org/bob/Maildir/'' \<and>
   userdb_home (\<lambda>u. (''bob'', ''example.org'')) ''/srv/mail'' ''bob@example.org'' example_home =
     Some ''/srv/mail/example.org/bob/Maildir'' \<and>
   get_maildir_path example_webmail '' Bob@Example.org'' = Inr [''srv'', ''mail'', ''example.org'', ''bob'', ''Maildir'']"
proof -
  have c: "canon '' Bob@Example.org'' = ''bob@example.org''" by code_simp
  have root: "vmail_root example_webmail = [''srv'', ''mail'']" by code_simp
  have p: "calculate_path [''srv'', ''mail''] ''bob@example.org'' = Inr [''srv'', ''mail'', ''example.org'', ''bob'', ''Maildir'']"
    by code_simp
  note ex = example_home_facts
  have mem: "hd (mailboxes example_home) \<in> set (mailboxes example_home)" "hd (domains example_home) \<in> set (domains example_home)"
    by (subst ex(5), simp) (subst ex(6), simp)
  have e: "mb_email (hd (mailboxes example_home)) = ''bob'' @ CHR ''@'' # dom_name (hd (domains example_home))"
    unfolding ex(4,8) by simp
  have strs: "path_str [''srv'', ''mail''] = ''/srv/mail''"
    "path_str [''srv'', ''mail'', ''example.org'', ''bob'', ''Maildir''] = ''/srv/mail/example.org/bob/Maildir''"
    by (simp_all add: path_str_def)
  have h: "canon '' Bob@Example.org'' = mb_email (hd (mailboxes example_home))" "vmail_root example_webmail \<noteq> []"
    "calculate_path (vmail_root example_webmail) (mb_email (hd (mailboxes example_home))) =
       Inr [''srv'', ''mail'', ''example.org'', ''bob'', ''Maildir'']"
    "(\<lambda>u. (''bob'', ''example.org'')) (canon '' Bob@Example.org'') = (''bob'', dom_name (hd (domains example_home)))"
    using c root p ex(4,8) by simp_all
  from maildir_agreement [OF ex(1,2) mem(1) ex(3) mem(2) ex(7) e h, of 0 0]
  show ?thesis unfolding c root strs
    by (cases "map_mailbox ''bob@example.org'' example_home") simp_all
qed

text \<open>
  Validation of a recipient accepts an address exactly when the generated maps make Postfix
  accept it: its domain, without surrounding space, is in the map of domains, and the address is in the map of aliases or in
  the map of mailboxes.
\<close>

lemma recipient_maps_agree:
  assumes "faults db = []"
  shows "fst (validate_recipient s db) = Inr True \<longleftrightarrow>
    (\<exists>l d. str_split CHR ''@'' (canon s) = [l, d] \<and> l \<noteq> '''' \<and> d \<noteq> '''' \<and> map_domain (canon d) db \<and>
       (map_alias (canon s) db \<noteq> [] \<or> map_mailbox (canon s) db \<noteq> None))"
proof (cases "\<exists>l d. str_split CHR ''@'' (canon s) = [l, d]")
  case True
  then obtain l d where parts: "str_split CHR ''@'' (canon s) = [l, d]" by blast
  then show ?thesis
    using assms
    by (auto simp: validate_recipient_def canon_def' Let_def sql_simps map_mailbox_def)
next
  case False
  then have "length (str_split CHR ''@'' (canon s)) \<noteq> 2" by (auto simp: length_Suc_conv numeral_2_eq_2)
  with False show ?thesis by (simp add: validate_recipient_def canon_def' Let_def)
qed

text \<open>The two sides on senders: the Go check, and the map for an address.\<close>

lemma can_send_as_eq:
  assumes "faults db = []" and "canon u \<noteq> ''''" and "canon s \<noteq> ''''"
  shows "fst (can_send_as u s db) =
    Inr (if canon u = canon s then own_address (canon u) db \<noteq> None else alias_for (canon s) (canon u) db \<noteq> None)"
  using assms by (simp add: can_send_as_def canon_def' Let_def sql_simps errs split: option.splits)

lemma alias_for_iff:
  assumes "typed_db db"
  shows "alias_for (canon s) (canon u) db \<noteq> None \<longleftrightarrow>
    own_address (canon u) db \<noteq> None \<and> (\<exists>a\<in>set (aliases db). al_source a = canon s \<and> al_destination a = canon u)"
proof -
  have al: "to_lower (al_source a) = al_source a" "to_lower (al_destination a) = al_destination a" if "a \<in> set (aliases db)" for a
    using assms that by (auto simp: typed_db_def list_all_iff typed_alias_def)
  have mb: "to_lower (mb_email m) = mb_email m" if "m \<in> set (mailboxes db)" for m
    using assms that to_lower_canon [of "mb_email m"] by (auto simp: typed_db_def list_all_iff typed_mailbox_def)
  have "alias_for (canon s) (canon u) db \<noteq> None \<longleftrightarrow>
    (\<exists>a\<in>set (aliases db). \<exists>m\<in>set (mailboxes db). al_destination a = mb_email m \<and> al_source a = canon s \<and>
       mb_email m = canon u \<and> deliverable m)"
    unfolding alias_for_def using al mb by (auto simp: find_None_iff) (metis, metis)
  also have "\<dots> \<longleftrightarrow> (\<exists>m\<in>set (mailboxes db). mb_email m = canon u \<and> deliverable m) \<and>
      (\<exists>a\<in>set (aliases db). al_source a = canon s \<and> al_destination a = canon u)" by metis
  also have "(\<exists>m\<in>set (mailboxes db). mb_email m = canon u \<and> deliverable m) \<longleftrightarrow> own_address (canon u) db \<noteq> None"
    unfolding own_address_def using mb by (auto simp: find_None_iff) metis
  finally show ?thesis .
qed

text \<open>
  An SMTP key whose name is the login: the map of senders lists it for every address of its domain.
\<close>

definition key_login :: "string \<Rightarrow> string \<Rightarrow> db \<Rightarrow> bool" where
  "key_login u s db \<longleftrightarrow> (\<exists>k\<in>set (smtp_credentials db). sk_username k = u \<and> sk_status k = ''active'' \<and>
     (\<exists>d\<in>set (domains db). dom_id d = sk_domain_id k \<and> dom_status d = ''active'' \<and>
        to_lower (dom_name d) = to_lower (split_part s CHR ''@'' 2)))"

definition alias_to :: "(mail_alias \<Rightarrow> bool) \<Rightarrow> string \<Rightarrow> string \<Rightarrow> db \<Rightarrow> bool" where
  "alias_to P s u db \<longleftrightarrow> (\<exists>a\<in>set (aliases db). al_source a = s \<and> al_destination a = u \<and> P a)"

lemma own_address_iff:
  assumes "typed_db db"
  shows "own_address (canon u) db \<noteq> None \<longleftrightarrow> (\<exists>m\<in>set (mailboxes db). mb_email m = canon u \<and> deliverable m)"
proof -
  have "to_lower (mb_email m) = mb_email m" if "m \<in> set (mailboxes db)" for m
    using assms that to_lower_canon [of "mb_email m"] by (auto simp: typed_db_def list_all_iff typed_mailbox_def)
  then show ?thesis unfolding own_address_def by (simp add: find_None_iff) metis
qed

lemma can_send_as_iff:
  assumes "typed_db db" and "faults db = []" and "canon u \<noteq> ''''" and "canon s \<noteq> ''''"
  shows "fst (can_send_as u s db) = Inr True \<longleftrightarrow>
    own_address (canon u) db \<noteq> None \<and> (canon u = canon s \<or> alias_to (\<lambda>a. True) (canon s) (canon u) db)"
  using can_send_as_eq [OF assms(2-4)] alias_for_iff [OF assms(1), of s u] by (auto simp: alias_to_def)

lemma map_sender_iff:
  assumes "typed_db db"
  shows "canon u \<in> set (map_sender_logins (canon s) db) \<longleftrightarrow>
    (canon u = canon s \<and> own_address (canon u) db \<noteq> None) \<or>
    alias_to (\<lambda>a. domain_active (al_domain_id a) db) (canon s) (canon u) db \<or> key_login (canon u) (canon s) db"
proof -
  have al: "to_lower (al_source a) = al_source a" if "a \<in> set (aliases db)" for a
    using assms that by (auto simp: typed_db_def list_all_iff typed_alias_def)
  have mb: "to_lower (mb_email m) = mb_email m" if "m \<in> set (mailboxes db)" for m
    using assms that to_lower_canon [of "mb_email m"] by (auto simp: typed_db_def list_all_iff typed_mailbox_def)
  have own: "canon u \<in> mb_email ` {x \<in> set (mailboxes db). to_lower (mb_email x) = canon s \<and> deliverable x} \<longleftrightarrow>
      canon u = canon s \<and> own_address (canon u) db \<noteq> None"
    unfolding own_address_iff [OF assms] using mb by (auto simp: image_iff)
  have dst: "canon u \<in> set (alias_destinations (canon s) db) \<longleftrightarrow>
      alias_to (\<lambda>a. domain_active (al_domain_id a) db) (canon s) (canon u) db"
    using al by (auto simp: alias_to_def alias_destinations_def image_iff) metis?
  have key: "canon u \<in> sk_username ` {k \<in> set (smtp_credentials db). sk_status k = ''active'' \<and>
      list_ex (\<lambda>d. dom_id d = sk_domain_id k \<and> to_lower (dom_name d) = to_lower (split_part (canon s) CHR ''@'' 2) \<and>
        dom_status d = ''active'') (domains db)} \<longleftrightarrow> key_login (canon u) (canon s) db"
    by (auto simp: key_login_def list_ex_iff image_iff)
  show ?thesis
    unfolding own [symmetric] dst [symmetric] key [symmetric] by (simp add: map_sender_logins_def)
qed

text \<open>
  C8. The Go checks beside the maps that Postfix is given. A recipient passes validation exactly
  when its domain is in the map of domains and the address in the map of aliases or of mailboxes.
  A user may send as an address, by the Go check, exactly when the user has an open mailbox and the
  address is its own or an alias of it. The map of senders lists the same users, with three
  exceptions, which are all: an alias counts there only in an active domain; the target of such an
  alias is listed although it has no open mailbox; and an SMTP key is listed for every address of
  its active domain, of which the Go check knows nothing.
\<close>

theorem mta_agreement:
  assumes "typed_db db" and "faults db = []" and "canon u \<noteq> ''''" and "canon s \<noteq> ''''"
  shows "(fst (validate_recipient s db) = Inr True \<longleftrightarrow>
      (\<exists>l d. str_split CHR ''@'' (canon s) = [l, d] \<and> l \<noteq> '''' \<and> d \<noteq> '''' \<and> map_domain (canon d) db \<and>
         (map_alias (canon s) db \<noteq> [] \<or> map_mailbox (canon s) db \<noteq> None))) \<and>
    (fst (can_send_as u s db) = Inr True \<longleftrightarrow>
      own_address (canon u) db \<noteq> None \<and> (canon u = canon s \<or> alias_to (\<lambda>a. True) (canon s) (canon u) db)) \<and>
    (fst (can_send_as u s db) = Inr True \<and> canon u \<notin> set (map_sender_logins (canon s) db) \<longleftrightarrow>
      own_address (canon u) db \<noteq> None \<and> canon u \<noteq> canon s \<and> alias_to (\<lambda>a. True) (canon s) (canon u) db \<and>
      \<not> alias_to (\<lambda>a. domain_active (al_domain_id a) db) (canon s) (canon u) db \<and> \<not> key_login (canon u) (canon s) db) \<and>
    (fst (can_send_as u s db) \<noteq> Inr True \<and> canon u \<in> set (map_sender_logins (canon s) db) \<longleftrightarrow>
      (own_address (canon u) db = None \<and> alias_to (\<lambda>a. domain_active (al_domain_id a) db) (canon s) (canon u) db) \<or>
      (key_login (canon u) (canon s) db \<and>
        \<not> (own_address (canon u) db \<noteq> None \<and> (canon u = canon s \<or> alias_to (\<lambda>a. True) (canon s) (canon u) db))))"
proof -
  have "alias_to P (canon s) (canon u) db \<Longrightarrow> alias_to (\<lambda>a. True) (canon s) (canon u) db" for P
    by (auto simp: alias_to_def)
  then show ?thesis
    using recipient_maps_agree [OF assms(2), of s] can_send_as_iff [OF assms] map_sender_iff [OF assms(1), of u s]
    by blast
qed

definition example_team :: "string \<Rightarrow> db" where
  "example_team st = example_home\<lparr>domains := [\<lparr>dom_id = 7, dom_name = ''example.org'', dom_status = ''active'',
        dom_created_at = 0, dom_updated_at = 0\<rparr>, \<lparr>dom_id = 9, dom_name = ''example.net'', dom_status = st,
        dom_created_at = 0, dom_updated_at = 0\<rparr>],
     aliases := [\<lparr>al_id = 1, al_domain_id = 9, al_source = ''sales@example.net'', al_destination = ''bob@example.org'',
        al_created_at = 0\<rparr>]\<rparr>"

lemma example_team_typed: "typed_db (example_team st)" and example_team_faults: "faults (example_team st) = []"
proof -
  have c: "canon ''example.org'' = ''example.org''" "canon ''example.net'' = ''example.net''"
    "canon ''bob@example.org'' = ''bob@example.org''" "to_lower ''sales@example.net'' = ''sales@example.net''"
    "to_lower ''bob@example.org'' = ''bob@example.org''" "is_valid_domain_name ''example.org''"
    "is_valid_domain_name ''example.net''" "to_lower ''example.org'' = ''example.org''"
    "to_lower ''example.net'' = ''example.net''" by code_simp+
  show "typed_db (example_team st)"
    by (simp add: example_team_def example_home_def empty_db_def typed_db_def wf_db_def wf_defs ref_def domains_canon_def
        typed_mailbox_def typed_alias_def mailbox_states_def prov_states_def prov_ready_def c)
  show "faults (example_team st) = []" by (simp add: example_team_def example_home_def empty_db_def)
qed

lemma example_team_sender:
  "own_address ''bob@example.org'' (example_team st) \<noteq> None" "smtp_credentials (example_team st) = []"
  "aliases (example_team st) = [\<lparr>al_id = 1, al_domain_id = 9, al_source = ''sales@example.net'',
     al_destination = ''bob@example.org'', al_created_at = 0\<rparr>]"
  "domain_active 9 (example_team st) \<longleftrightarrow> st = ''active''"
  by (simp_all add: own_address_def example_team_def example_home_def empty_db_def deliverable_def prov_ready_def
      domain_active_def)

theorem mta_agreement_witness:
  "fst (validate_recipient '' Sales@example.NET'' (example_team ''active'')) = Inr True \<and>
   fst (can_send_as ''Bob@example.org'' ''sales@example.net'' (example_team ''active'')) = Inr True \<and>
   ''bob@example.org'' \<in> set (map_sender_logins ''sales@example.net'' (example_team ''active'')) \<and>
   fst (can_send_as ''Bob@example.org'' ''sales@example.net'' (example_team ''suspended'')) = Inr True \<and>
   ''bob@example.org'' \<notin> set (map_sender_logins ''sales@example.net'' (example_team ''suspended''))"
proof -
  have c: "canon '' Sales@example.NET'' = ''sales@example.net''" "canon ''Bob@example.org'' = ''bob@example.org''"
    "canon ''sales@example.net'' = ''sales@example.net''" "canon ''example.net'' = ''example.net''" by code_simp+
  have ne: "canon ''Bob@example.org'' \<noteq> ''''" "canon '' Sales@example.NET'' \<noteq> ''''" "canon ''sales@example.net'' \<noteq> ''''"
    by (simp_all add: c)
  have "str_split CHR ''@'' ''sales@example.net'' = [''sales'', ''example.net'']" by code_simp
  moreover have "map_domain ''example.net'' (example_team ''active'')" "map_alias ''sales@example.net'' (example_team ''active'') \<noteq> []"
    by code_simp+
  ultimately have 1: "fst (validate_recipient '' Sales@example.NET'' (example_team ''active'')) = Inr True"
    using mta_agreement [OF example_team_typed example_team_faults ne(1,2), of "''active''"]
    unfolding c by (simp add: c)
  have al: "alias_to P ''sales@example.net'' ''bob@example.org'' (example_team st) \<longleftrightarrow> P (hd (aliases (example_team st)))" for P st
    by (simp add: alias_to_def example_team_sender)
  have active: "domain_active (al_domain_id (hd (aliases (example_team st)))) (example_team st) \<longleftrightarrow> st = ''active''" for st
    by (simp add: example_team_sender)
  have key: "\<not> key_login u s (example_team st)" for u s st
    by (simp add: key_login_def example_team_sender)
  show ?thesis
    using 1 mta_agreement [OF example_team_typed example_team_faults ne(1,3), of "''active''"]
      mta_agreement [OF example_team_typed example_team_faults ne(1,3), of "''suspended''"]
    unfolding c al active by (simp add: key example_team_sender)
qed

text \<open>
  Where the two differ: once the domain of an alias is suspended, the map no longer lists its
  target, the check still accepts it.
\<close>

lemma suspended_alias_sender:
  "fst (can_send_as ''bob@example.org'' ''sales@example.net'' (example_team ''suspended'')) = Inr True"
  "''bob@example.org'' \<notin> set (map_sender_logins ''sales@example.net'' (example_team ''suspended''))"
  by code_simp+

text \<open>An SMTP key of a suspended domain still logs in; the mailboxes of such a domain are still delivered to and log in.\<close>

lemma domain_status_ignored:
  "find (\<lambda>k. to_lower (sk_username k) = to_lower u \<and> sk_status k = ''active'' \<and>
      to_lower ''smtp'' \<in> {''smtp'', ''submission''}) (smtp_credentials db) = Some k \<Longrightarrow>
    passdb_query u ''smtp'' (db\<lparr>domains := ds\<rparr>) = Some (sk_username k, sk_secret_hash k)"
  "own_address e (db\<lparr>domains := ds\<rparr>) = own_address e db"
  by (simp_all add: passdb_query_def own_address_def)

end
