(* ===== verification/Mta_Config.thy ===== *)
theory Mta_Config
  imports Dkim_Config Delivery
begin

text \<open>
  The configuration files of Postfix and Dovecot: their texts, and how they are written. The
  queries in them are the ones of the theory of deliveries. Facts: whatever fails while files
  are written, each is afterwards as it was or completely new, and no other file changes but
  temporary ones.
\<close>

section \<open>Options\<close>

text \<open>
  The two structures \<open>ConfigOptions\<close>; the one of Postfix has the socket of the milter in
  addition. The directory is absolute (\<open>filepath.Abs\<close>), the target path is absent when empty.
\<close>

record mta_options =
  pc_config_dir :: path
  pc_target_path :: "path option"
  pc_hostname :: string
  pc_vmail_root :: string
  pc_vmail_uid :: int
  pc_vmail_gid :: int
  pc_db_host :: string
  pc_db_port :: int
  pc_db_name :: string
  pc_db_user :: string
  pc_db_password :: string
  pc_tls_cert_file :: string
  pc_tls_key_file :: string

record postfix_options = mta_options +
  pc_milter_socket :: string

definition conf_prefix :: "'a mta_options_scheme \<Rightarrow> path" where
  "conf_prefix opts = (case pc_target_path opts of None \<Rightarrow> pc_config_dir opts | Some p \<Rightarrow> p)"

definition cert_file :: "'a mta_options_scheme \<Rightarrow> string" where
  "cert_file opts = (if pc_tls_cert_file opts = '''' then ''/etc/mailopen/tls/'' @ pc_hostname opts @ ''/fullchain.pem''
     else pc_tls_cert_file opts)"

definition key_file :: "'a mta_options_scheme \<Rightarrow> string" where
  "key_file opts = (if pc_tls_key_file opts = '''' then ''/etc/mailopen/tls/'' @ pc_hostname opts @ ''/privkey.pem''
     else pc_tls_key_file opts)"

definition milter_socket :: "postfix_options \<Rightarrow> string" where
  "milter_socket opts = (if pc_milter_socket opts = '''' then ''unix:private/opendkim'' else pc_milter_socket opts)"

definition pf_domains :: string where "pf_domains = ''pgsql-virtual-mailbox-domains.cf''"
definition pf_mailboxes :: string where "pf_mailboxes = ''pgsql-virtual-mailbox-maps.cf''"
definition pf_aliases :: string where "pf_aliases = ''pgsql-virtual-alias-maps.cf''"
definition pf_senders :: string where "pf_senders = ''pgsql-sender-login-maps.cf''"

definition cf_path :: "postfix_options \<Rightarrow> string \<Rightarrow> string" where
  "cf_path opts name = path_str (path_join (conf_prefix opts) [name])"

text \<open>\<open>%d\<close>\<close>

definition dec :: "int \<Rightarrow> string" where
  "dec n = (if n < 0 then ''-'' @ nat_str (nat (- n)) else nat_str (nat n))"

definition quote :: string where
  "quote = [CHR 0x27]"

section \<open>The texts\<close>

definition main_cf :: "postfix_options \<Rightarrow> string" where
  "main_cf opts = unlines
     [''# Postfix configuration generated by MailOpen (Control Plane)'',
      ''compatibility_level = 3.6'',
      ''myhostname = '' @ pc_hostname opts,
      ''inet_interfaces = all'',
      ''inet_protocols = all'',
      '''',
      ''# Log output directly to stdout for containers/diagnostics'',
      ''maillog_file = /dev/stdout'',
      '''',
      ''mydestination = localhost'',
      ''relay_domains ='',
      '''',
      ''# Virtual Domain & Mailbox Maps via PostgreSQL (proxymap)'',
      ''virtual_mailbox_domains = proxy:pgsql:'' @ cf_path opts pf_domains,
      ''virtual_mailbox_maps = proxy:pgsql:'' @ cf_path opts pf_mailboxes,
      ''virtual_alias_maps = proxy:pgsql:'' @ cf_path opts pf_aliases,
      ''smtpd_sender_login_maps = proxy:pgsql:'' @ cf_path opts pf_senders,
      '''',
      ''# Virtual Mailbox Delivery Configuration (Dovecot Maildir++)'',
      ''virtual_transport = virtual'',
      ''virtual_minimum_uid = '' @ dec (pc_vmail_uid opts),
      ''virtual_uid_maps = static:'' @ dec (pc_vmail_uid opts),
      ''virtual_gid_maps = static:'' @ dec (pc_vmail_gid opts),
      ''virtual_mailbox_base = '' @ pc_vmail_root opts,
      '''',
      ''# Security baseline & Anti-Relay protection (Inbound SMTP :25)'',
      ''smtpd_helo_required = yes'',
      ''smtpd_delay_reject = yes'',
      ''smtpd_relay_restrictions = permit_mynetworks, reject_unauth_destination'',
      '''',
      ''# Inbound SMTP :25 & :587 STARTTLS (Offered, minimum TLS 1.2, NO AUTH on port 25)'',
      ''smtpd_tls_security_level = may'',
      ''smtpd_tls_cert_file = '' @ cert_file opts,
      ''smtpd_tls_key_file = '' @ key_file opts,
      ''smtpd_tls_protocols = >=TLSv1.2'',
      ''smtpd_tls_mandatory_protocols = >=TLSv1.2'',
      ''smtpd_tls_ciphers = medium'',
      ''smtpd_tls_mandatory_ciphers = medium'',
      ''tls_preempt_cipherlist = no'',
      '''',
      ''# Outbound SMTP Client TLS (Opportunistic TLS to external MTAs like Google Gmail, '' @
         ''Outlook, Yahoo)'',
      ''smtp_tls_security_level = may'',
      ''smtp_tls_loglevel = 1'',
      ''smtp_tls_protocols = >=TLSv1.2'',
      ''smtp_tls_ciphers = medium'',
      ''smtp_tls_CAfile = /etc/ssl/certs/ca-certificates.crt'',
      '''',
      ''# OpenDKIM Milter (DKIM Outbound Signing)'',
      ''smtpd_milters = '' @ milter_socket opts,
      ''non_smtpd_milters = '' @ milter_socket opts,
      ''milter_default_action = accept'',
      ''milter_protocol = 6'',
      '''',
      ''# Baseline connection and message rate limits'',
      ''smtpd_client_connection_count_limit = 200'',
      ''smtpd_client_connection_rate_limit = 300'',
      ''smtpd_client_message_rate_limit = 300'',
      ''smtpd_client_event_limit_exceptions = $mynetworks, 127.0.0.0/8, 10.0.0.0/8, '' @
         ''172.16.0.0/12, 192.168.0.0/16'',
      '''',
      ''# Anti-SMTP Smuggling Protection (CVE-2023-51764 & CVE-2023-51765)'',
      ''smtpd_forbid_bare_newline = yes'',
      ''smtpd_forbid_bare_newline_exclusions = $mynetworks'',
      ''smtpd_data_restrictions = reject_unauth_pipelining'',
      '''']"

definition master_cf :: "postfix_options \<Rightarrow> string" where
  "master_cf opts = unlines
     [''# Postfix master process configuration generated by MailOpen'',
      ''# =========================================================================='',
      ''# service type  private unpriv  chroot  wakeup  maxproc command + args'',
      ''#               (yes)   (yes)   (no)    (never) (100)'',
      ''# =========================================================================='',
      ''# Port 25: Inbound MTA (Server-to-Server) - NO SMTP AUTH'',
      ''smtp      inet  n       -       n       -       -       smtpd'',
      '''',
      ''# Port 587: Submission (Client-to-Server) - MANDATORY STARTTLS & SMTP AUTH'',
      ''submission inet n       -       n       -       -       smtpd'',
      ''  -o syslog_name=postfix/submission'',
      ''  -o smtpd_tls_security_level=encrypt'',
      ''  -o smtpd_tls_auth_only=yes'',
      ''  -o smtpd_sasl_auth_enable=yes'',
      ''  -o smtpd_sasl_type=dovecot'',
      ''  -o smtpd_sasl_path=/var/spool/postfix/private/auth'',
      ''  -o smtpd_sasl_security_options=noanonymous'',
      ''  -o smtpd_sasl_local_domain=$myhostname'',
      ''  -o smtpd_sender_login_maps=proxy:pgsql:'' @ cf_path opts pf_senders,
      ''  -o '' @ ''smtpd_sender_restrictions=reject_sender_login_mismatch,permit_sasl_authenticated,reject'',
      ''  -o smtpd_recipient_restrictions=permit_sasl_authenticated,reject'',
      ''  -o smtpd_relay_restrictions=permit_sasl_authenticated,reject'',
      ''  -o milter_macro_daemon_name=ORIGINATING'',
      ''  -o smtpd_milters='' @ milter_socket opts,
      ''  -o non_smtpd_milters='' @ milter_socket opts,
      ''  -o smtpd_client_connection_count_limit=200'',
      ''  -o smtpd_client_connection_rate_limit=300'',
      '''',
      '''',
      '''',
      ''pickup    unix  n       -       n       60      1       pickup'',
      ''cleanup   unix  n       -       n       -       0       cleanup'',
      ''qmgr      unix  n       -       n       300     1       qmgr'',
      ''tlsmgr    unix  -       -       n       1000?   1       tlsmgr'',
      ''rewrite   unix  -       -       n       -       -       trivial-rewrite'',
      ''bounce    unix  -       -       n       -       0       bounce'',
      ''defer     unix  -       -       n       -       0       bounce'',
      ''trace     unix  -       -       n       -       0       bounce'',
      ''verify    unix  -       -       n       -       1       verify'',
      ''flush     unix  n       -       n       1000?   0       flush'',
      ''proxymap  unix  -       -       n       -       -       proxymap'',
      ''proxywrite unix -       -       n       -       1       proxymap'',
      ''smtp      unix  -       -       n       -       -       smtp'',
      ''relay     unix  -       -       n       -       -       smtp'',
      ''showq     unix  n       -       n       -       -       showq'',
      ''error     unix  -       -       n       -       -       error'',
      ''retry     unix  -       -       n       -       -       error'',
      ''discard   unix  -       -       n       -       -       discard'',
      ''local     unix  -       n       n       -       -       local'',
      ''virtual   unix  -       n       n       -       -       virtual'',
      ''lmtp      unix  -       -       n       -       -       lmtp'',
      ''anvil     unix  -       -       n       -       1       anvil'',
      ''scache    unix  -       -       n       -       1       scache'',
      ''postlog   unix-dgram n  -       n       -       1       postlogd'']"

definition domains_cf :: "postfix_options \<Rightarrow> string" where
  "domains_cf opts = unlines
     [''# PostgreSQL Virtual Mailbox Domains Map'',
      ''hosts = '' @ pc_db_host opts @ '':'' @ dec (pc_db_port opts),
      ''user = '' @ pc_db_user opts,
      ''password = '' @ pc_db_password opts,
      ''dbname = '' @ pc_db_name opts,
      ''query = SELECT 1 FROM domains WHERE LOWER(name) = LOWER('%s') AND status = 'active' '' @ ''LIMIT 1'']"

definition mailbox_cf :: "postfix_options \<Rightarrow> string" where
  "mailbox_cf opts = unlines
     [''# PostgreSQL Virtual Mailbox Map (returns relative Maildir path ending with /)'',
      ''hosts = '' @ pc_db_host opts @ '':'' @ dec (pc_db_port opts),
      ''user = '' @ pc_db_user opts,
      ''password = '' @ pc_db_password opts,
      ''dbname = '' @ pc_db_name opts,
      ''query = SELECT d.name || '/' || split_part(m.email, '@', 1) || '/Maildir/' FROM '' @
         ''mailboxes m JOIN domains d ON d.id = m.domain_id WHERE LOWER(m.email) = LOWER('%s') AND '' @
         ''m.status = 'active' AND m.provisioning_status = 'ready' LIMIT 1'']"

definition alias_cf :: "postfix_options \<Rightarrow> string" where
  "alias_cf opts = unlines
     [''# PostgreSQL Virtual Alias Map'',
      ''hosts = '' @ pc_db_host opts @ '':'' @ dec (pc_db_port opts),
      ''user = '' @ pc_db_user opts,
      ''password = '' @ pc_db_password opts,
      ''dbname = '' @ pc_db_name opts,
      ''query = SELECT a.destination FROM aliases a JOIN domains d ON d.id = a.domain_id WHERE '' @
         ''LOWER(a.source) = LOWER('%s') AND d.status = 'active'' @ quote]"

definition sender_login_cf :: "postfix_options \<Rightarrow> string" where
  "sender_login_cf opts = unlines
     [''# PostgreSQL Sender Login Map (authorized senders & aliases)'',
      ''hosts = '' @ pc_db_host opts @ '':'' @ dec (pc_db_port opts),
      ''user = '' @ pc_db_user opts,
      ''password = '' @ pc_db_password opts,
      ''dbname = '' @ pc_db_name opts,
      ''query = SELECT string_agg(DISTINCT login, ',') FROM (SELECT m.email AS login FROM '' @
         ''mailboxes m WHERE LOWER(m.email) = LOWER('%s') AND m.status = 'active' AND '' @
         ''m.provisioning_status = 'ready' UNION SELECT a.destination AS login FROM aliases a JOIN '' @
         ''domains d ON d.id = a.domain_id WHERE LOWER(a.source) = LOWER('%s') AND d.status = '' @ quote @
         ''active' UNION SELECT k.username AS login FROM smtp_credentials k JOIN domains d ON '' @
         ''d.id = k.domain_id WHERE LOWER(d.name) = LOWER(split_part('%s', '@', 2)) AND d.status = '' @ quote @
         ''active' AND k.status = 'active') AS permitted_logins'']"

definition dovecot_conf :: "string" where
  "dovecot_conf = unlines
     [''# Dovecot configuration generated by MailOpen (Control Plane)'',
      ''protocols = imap'',
      ''listen = *'',
      ''base_dir = /var/run/dovecot/'',
      ''login_greeting = Dovecot ready.'',
      ''log_path = /dev/stderr'',
      ''info_log_path = /dev/stdout'',
      '''',
      ''!include conf.d/*.conf'',
      ''!include_try local.conf'']"

definition mail_conf :: "mta_options \<Rightarrow> string" where
  "mail_conf opts = unlines
     [''# 10-mail.conf generated by MailOpen'',
      ''mail_location = maildir:'' @ pc_vmail_root opts @ ''/%d/%n/Maildir'',
      ''mail_uid = '' @ dec (pc_vmail_uid opts),
      ''mail_gid = '' @ dec (pc_vmail_gid opts),
      ''mail_privileged_group = vmail'',
      ''first_valid_uid = '' @ dec (pc_vmail_uid opts),
      ''last_valid_uid = '' @ dec (pc_vmail_uid opts),
      '''',
      ''namespace inbox {'',
      ''  inbox = yes'',
      ''}'']"

definition ssl_conf :: "mta_options \<Rightarrow> string" where
  "ssl_conf opts = unlines
     [''# 10-ssl.conf generated by MailOpen'',
      ''ssl = required'',
      ''ssl_cert = <'' @ cert_file opts,
      ''ssl_key = <'' @ key_file opts,
      ''ssl_min_protocol = TLSv1.2'']"

definition auth_conf :: "string" where
  "auth_conf = unlines
     [''# 10-auth.conf generated by MailOpen'',
      ''disable_plaintext_auth = yes'',
      ''auth_mechanisms = plain login'',
      ''auth_username_format = %Lu'',
      '''',
      ''!include auth-sql.conf.ext'']"

definition master_conf :: "string" where
  "master_conf = unlines
     [''# 10-master.conf generated by MailOpen'',
      ''service imap-login {'',
      ''  inet_listener imap {'',
      ''    port = 143'',
      ''  }'',
      ''  inet_listener imaps {'',
      ''    port = 993'',
      ''    ssl = yes'',
      ''  }'',
      ''}'',
      '''',
      ''service auth {'',
      ''  unix_listener auth-userdb {'',
      ''    mode = 0660'',
      ''    user = vmail'',
      ''    group = vmail'',
      ''  }'',
      ''  unix_listener auth-client {'',
      ''    mode = 0660'',
      ''  }'',
      ''  # Postfix SMTP AUTH Dovecot SASL listener'',
      ''  unix_listener /var/spool/postfix/private/auth {'',
      ''    mode = 0666'',
      ''  }'',
      ''}'']"

definition auth_sql_conf :: "mta_options \<Rightarrow> string" where
  "auth_sql_conf opts = unlines
     [''# auth-sql.conf.ext generated by MailOpen'',
      ''passdb {'',
      ''  driver = sql'',
      ''  args = '' @ path_str (path_join (conf_prefix opts) [''sql'', ''dovecot-pgsql.conf.ext'']),
      ''}'',
      '''',
      ''userdb {'',
      ''  driver = sql'',
      ''  args = '' @ path_str (path_join (conf_prefix opts) [''sql'', ''dovecot-pgsql.conf.ext'']),
      ''}'']"

definition pgsql_conf :: "mta_options \<Rightarrow> string" where
  "pgsql_conf opts = unlines
     [''# dovecot-pgsql.conf.ext generated by MailOpen'',
      ''driver = pgsql'',
      ''connect = host='' @ pc_db_host opts @ '' port='' @ dec (pc_db_port opts) @ '' dbname='' @
         pc_db_name opts @ '' user='' @ pc_db_user opts @ '' password='' @ pc_db_password opts,
      ''default_pass_scheme = ARGON2ID'',
      '''',
      ''password_query = SELECT username, secret_hash AS password FROM smtp_credentials WHERE '' @
         ''LOWER(username) = LOWER('%u') AND status = 'active' AND LOWER('%s') IN ('smtp', '' @ quote @
         ''submission') UNION ALL SELECT email AS username, password_hash AS password FROM '' @
         ''mailboxes WHERE LOWER(email) = LOWER('%u') AND status = 'active' AND '' @
         ''provisioning_status = 'ready' LIMIT 1;'',
      '''',
      ''user_query = SELECT '' @ dec (pc_vmail_uid opts) @ '' AS uid, '' @ dec (pc_vmail_gid opts) @
         '' AS gid, '' @ quote @ pc_vmail_root opts @
         ''/%d/%n/Maildir' AS home FROM mailboxes WHERE LOWER(email) = LOWER('%u') AND status = '' @ quote @
         ''active' AND provisioning_status = 'ready' LIMIT 1;'',
      '''',
      ''iterate_query = SELECT email AS username FROM mailboxes WHERE status = 'active' AND '' @
         ''provisioning_status = 'ready';'']"

section \<open>Writing\<close>

text \<open>
  One file: a temporary file in the same directory, renamed over the target. The deferred
  function removes the temporary file if it is still there.
\<close>

definition drop_temp :: "path \<Rightarrow> disk \<Rightarrow> disk" where
  "drop_temp tmp k = (case os_stat tmp k of (Inl err, k1) \<Rightarrow> k1 | (Inr info, k1) \<Rightarrow> snd (os_remove tmp k1))"

definition fill_temp :: "path \<Rightarrow> path \<Rightarrow> string \<Rightarrow> nat \<Rightarrow> disk \<Rightarrow> unit result \<times> disk" where
  "fill_temp tmp target content perm k =
     (case os_write_file tmp content 384 k of
        (Inl err, k1) \<Rightarrow> (Inl err, snd (os_flush k1))
      | (Inr u, k1) \<Rightarrow>
     (case os_flush k1 of
        (Inl err, k2) \<Rightarrow> (Inl err, snd (os_flush k2))
      | (Inr u, k2) \<Rightarrow>
     (case os_flush k2 of
        (Inl err, k3) \<Rightarrow> (Inl err, k3)
      | (Inr u, k3) \<Rightarrow>
     (case os_chmod tmp perm k3 of
        (Inl err, k4) \<Rightarrow> (Inl err, k4)
      | (Inr u, k4) \<Rightarrow> os_rename tmp target k4))))"

definition atomic_write_file :: "string \<Rightarrow> nat \<Rightarrow> path \<Rightarrow> string \<Rightarrow> nat \<Rightarrow> disk \<Rightarrow> unit result \<times> disk" where
  "atomic_write_file prefix rnd target content perm k =
     (let tmp = path_dir target @ [prefix @ nat_str rnd]
      in case os_create_temp tmp k of
           (Inl err, k1) \<Rightarrow> (Inl err, k1)
         | (Inr u, k1) \<Rightarrow> (case fill_temp tmp target content perm k1 of (r, k2) \<Rightarrow> (r, drop_temp tmp k2)))"

text \<open>One entry of a file map: the name for messages, the path, the text and the mode.\<close>

type_synonym conf_entry = "string \<times> path \<times> string \<times> nat"

fun write_entries :: "string \<Rightarrow> nat \<Rightarrow> conf_entry list \<Rightarrow> disk \<Rightarrow> unit result \<times> disk" where
  "write_entries prefix rnd [] k = (Inr (), k)"
| "write_entries prefix rnd ((label, target, content, perm) # es) k =
     (case atomic_write_file prefix rnd target content perm k of
        (Inl err, k1) \<Rightarrow> (Inl (Wrap (''failed writing '' @ label) err), k1)
      | (Inr u, k1) \<Rightarrow> write_entries prefix (Suc rnd) es k1)"

definition postfix_entries :: "postfix_options \<Rightarrow> conf_entry list" where
  "postfix_entries opts =
     map (\<lambda>(name, data). (name, path_join (pc_config_dir opts) [name], data, 416))
       [(''main.cf'', main_cf opts), (''master.cf'', master_cf opts), (pf_domains, domains_cf opts),
        (pf_mailboxes, mailbox_cf opts), (pf_aliases, alias_cf opts), (pf_senders, sender_login_cf opts)]"

definition write_postfix_configs :: "nat \<Rightarrow> postfix_options \<Rightarrow> disk \<Rightarrow> unit result \<times> disk" where
  "write_postfix_configs rnd opts k =
     (case os_mkdir_all 488 (pc_config_dir opts) k of
        (Inl err, k1) \<Rightarrow> (Inl (Wrap ''failed to create config directory'' err), k1)
      | (Inr u, k1) \<Rightarrow> write_entries ''postfix-conf-'' rnd (postfix_entries opts) k1)"

definition dovecot_entries :: "mta_options \<Rightarrow> conf_entry list" where
  "dovecot_entries opts =
     map (\<lambda>(p, data, perm). (path_str p, p, data, perm))
       (let conf_d = path_join (pc_config_dir opts) [''conf.d'']; sql_dir = path_join (pc_config_dir opts) [''sql'']
        in [(path_join (pc_config_dir opts) [''dovecot.conf''], dovecot_conf, 420),
            (path_join conf_d [''10-mail.conf''], mail_conf opts, 420),
            (path_join conf_d [''10-ssl.conf''], ssl_conf opts, 420),
            (path_join conf_d [''10-auth.conf''], auth_conf, 420),
            (path_join conf_d [''10-master.conf''], master_conf, 420),
            (path_join conf_d [''auth-sql.conf.ext''], auth_sql_conf opts, 420),
            (path_join sql_dir [''dovecot-pgsql.conf.ext''], pgsql_conf opts, 416)])"

definition write_dovecot_configs :: "nat \<Rightarrow> mta_options \<Rightarrow> disk \<Rightarrow> unit result \<times> disk" where
  "write_dovecot_configs rnd opts k =
     (case os_mkdir_all 488 (path_join (pc_config_dir opts) [''conf.d'']) k of
        (Inl err, k1) \<Rightarrow> (Inl (Wrap ''failed to create conf.d directory'' err), k1)
      | (Inr u, k1) \<Rightarrow>
     (case os_mkdir_all 488 (path_join (pc_config_dir opts) [''sql'']) k1 of
        (Inl err, k2) \<Rightarrow> (Inl (Wrap ''failed to create sql directory'' err), k2)
      | (Inr u, k2) \<Rightarrow> write_entries ''dovecot-conf-'' rnd (dovecot_entries opts) k2))"

definition mask_secret :: "string \<Rightarrow> string" where
  "mask_secret s =
     (if length s \<le> 4 then ''****''
      else take 2 s @ replicate (length s - 4) CHR ''*'' @ drop (length s - 2) s)"

section \<open>Facts\<close>

text \<open>What the steps do to the contents of files.\<close>

lemma fbytes_stat: "os_stat p k = (r, k') \<Longrightarrow> fbytes k' = fbytes k"
  by (auto simp: os_stat_def os_call_def fbytes_def fun_eq_iff split: if_splits option.splits)

lemma fbytes_drop_temp: "p \<noteq> tmp \<Longrightarrow> fbytes (drop_temp tmp k) p = fbytes k p"
proof -
  assume p: "p \<noteq> tmp"
  obtain r1 k1 where 1: "os_stat tmp k = (r1, k1)" by fastforce
  obtain r2 k2 where 2: "os_remove tmp k1 = (r2, k2)" by fastforce
  have "fbytes k2 p = fbytes k1 p" using fbytes_remove [OF 2] p by (cases r2) simp_all
  then show ?thesis using 1 2 fbytes_stat [OF 1] by (cases r1) (simp_all add: drop_temp_def)
qed

lemma fill_temp_steps:
  assumes "fill_temp tmp target c perm k = (r, k')"
  obtains (failed) k1 where "isl r" and "\<And>p. p \<noteq> tmp \<Longrightarrow> fbytes k1 p = fbytes k p" and "fbytes k' = fbytes k1"
  | (written) k4 where "r = Inr ()" and "fbytes k4 = (fbytes k)(tmp \<mapsto> c)" and "os_rename tmp target k4 = (Inr (), k')"
proof -
  obtain r1 k1 where 1: "os_write_file tmp c 384 k = (r1, k1)" by fastforce
  obtain r2 k2 where 2: "os_flush k1 = (r2, k2)" by fastforce
  obtain r3 k3 where 3: "os_flush k2 = (r3, k3)" by fastforce
  obtain r4 k4 where 4: "os_chmod tmp perm k3 = (r4, k4)" by fastforce
  obtain r5 k5 where 5: "os_rename tmp target k4 = (r5, k5)" by fastforce
  have only: "p \<noteq> tmp \<Longrightarrow> fbytes k1 p = fbytes k p" for p using fbytes_write_other [OF 1] by simp
  note b = fbytes_flush [OF 2] fbytes_flush [OF 3] fbytes_chmod [OF 4]
  have flush: "fbytes (snd (os_flush x)) = fbytes x" for x using fbytes_flush [of x "fst (os_flush x)" "snd (os_flush x)"] by simp
  note run = assms [unfolded fill_temp_def 1]
  have stop: thesis if "isl r" "fbytes k' = fbytes k1" using failed [OF that(1) only that(2)] .
  show thesis
  proof (cases r1)
    case (Inl e)
    with run have "r = Inl e" "k' = snd (os_flush k1)" by auto
    then show thesis by (intro stop) (simp_all add: flush)
  next
    case r1: (Inr u)
    note run = run [unfolded r1, simplified, unfolded 2]
    show thesis
    proof (cases r2)
      case (Inl e)
      with run have "r = Inl e" "k' = snd (os_flush k2)" by auto
      then show thesis by (intro stop) (simp_all add: flush b)
    next
      case r2: (Inr u)
      note run = run [unfolded r2, simplified, unfolded 3]
      show thesis
      proof (cases r3)
        case (Inl e)
        with run have "r = Inl e" "k' = k3" by auto
        then show thesis by (intro stop) (simp_all add: b)
      next
        case r3: (Inr u)
        note run = run [unfolded r3, simplified, unfolded 4]
        show thesis
        proof (cases r4)
          case (Inl e)
          with run have "r = Inl e" "k' = k4" by auto
          then show thesis by (intro stop) (simp_all add: b)
        next
          case r4: (Inr u)
          note run = run [unfolded r4, simplified, unfolded 5]
          show thesis
          proof (cases r5)
            case (Inl e)
            with run fbytes_rename [OF 5] have "r = Inl e" "fbytes k' = fbytes k4" by auto
            then show thesis by (intro stop) (simp_all add: b)
          next
            case (Inr u)
            with run 5 have "r = Inr ()" "os_rename tmp target k4 = (Inr (), k')" by auto
            moreover have "fbytes k4 = (fbytes k)(tmp \<mapsto> c)" using fbytes_write_file [OF 1] r1 b by simp
            ultimately show thesis using written by blast
          qed
        qed
      qed
    qed
  qed
qed

lemma fill_temp_bytes:
  assumes "fill_temp tmp target c perm k = (r, k')" and "tmp \<noteq> target"
  shows "p \<noteq> tmp \<Longrightarrow> p \<noteq> target \<Longrightarrow> fbytes k' p = fbytes k p"
    and "fbytes k' target = (case r of Inr u \<Rightarrow> Some c | Inl err \<Rightarrow> fbytes k target)"
proof -
  have "(p \<noteq> tmp \<longrightarrow> p \<noteq> target \<longrightarrow> fbytes k' p = fbytes k p) \<and>
    fbytes k' target = (case r of Inr u \<Rightarrow> Some c | Inl err \<Rightarrow> fbytes k target)"
    using assms(1)
  proof (cases rule: fill_temp_steps)
    case (failed k1)
    then show ?thesis using assms(2) by (cases r) auto
  next
    case (written k4)
    then show ?thesis using fbytes_rename [OF written(3)] written(1,2) assms(2) by simp
  qed
  then show "p \<noteq> tmp \<Longrightarrow> p \<noteq> target \<Longrightarrow> fbytes k' p = fbytes k p"
    "fbytes k' target = (case r of Inr u \<Rightarrow> Some c | Inl err \<Rightarrow> fbytes k target)" by blast+
qed

text \<open>One file: the target is as before or new, and besides it only the temporary name is touched.\<close>

lemma atomic_write_bytes:
  assumes "atomic_write_file prefix n target c perm k = (r, k')" and "path_dir target @ [prefix @ nat_str n] \<noteq> target"
  shows "p \<noteq> path_dir target @ [prefix @ nat_str n] \<Longrightarrow> p \<noteq> target \<Longrightarrow> fbytes k' p = fbytes k p"
    and "fbytes k' target = (case r of Inr u \<Rightarrow> Some c | Inl err \<Rightarrow> fbytes k target)"
proof -
  let ?tmp = "path_dir target @ [prefix @ nat_str n]"
  obtain r1 k1 where 1: "os_create_temp ?tmp k = (r1, k1)" by fastforce
  have b1: "q \<noteq> ?tmp \<Longrightarrow> fbytes k1 q = fbytes k q" for q using fbytes_create_temp [OF 1] by (cases r1) auto
  have "(p \<noteq> ?tmp \<longrightarrow> p \<noteq> target \<longrightarrow> fbytes k' p = fbytes k p) \<and>
    fbytes k' target = (case r of Inr u \<Rightarrow> Some c | Inl err \<Rightarrow> fbytes k target)"
  proof (cases r1)
    case (Inl e)
    with assms(1) 1 have "r = Inl e" "k' = k1" by (auto simp: atomic_write_file_def)
    with b1 assms(2) show ?thesis by auto
  next
    case (Inr u)
    obtain r2 k2 where 2: "fill_temp ?tmp target c perm k1 = (r2, k2)" by fastforce
    with Inr assms(1) 1 have r: "r = r2" "k' = drop_temp ?tmp k2" by (auto simp: atomic_write_file_def Let_def)
    show ?thesis
      using fill_temp_bytes [OF 2 assms(2)] fbytes_drop_temp [of _ ?tmp k2] b1 assms(2) unfolding r
      by (cases r2) auto
  qed
  then show "p \<noteq> ?tmp \<Longrightarrow> p \<noteq> target \<Longrightarrow> fbytes k' p = fbytes k p"
    "fbytes k' target = (case r of Inr u \<Rightarrow> Some c | Inl err \<Rightarrow> fbytes k target)" by blast+
qed

definition temporary :: "string \<Rightarrow> path \<Rightarrow> bool" where
  "temporary prefix p \<longleftrightarrow> p \<noteq> [] \<and> has_prefix (last p) prefix"

lemma temporary_name [simp]: "temporary prefix (dir @ [prefix @ s])"
  by (simp add: temporary_def has_prefix_def)

definition entry_target :: "conf_entry \<Rightarrow> path" where
  "entry_target e = fst (snd e)"

definition entry_data :: "conf_entry \<Rightarrow> string" where
  "entry_data e = fst (snd (snd e))"

lemma entry_simps [simp]: "entry_target (l, t, c, m) = t" "entry_data (l, t, c, m) = c"
  by (simp_all add: entry_target_def entry_data_def)

lemma write_entries_frame:
  "write_entries prefix n es k = (r, k') \<Longrightarrow> \<forall>e\<in>set es. \<not> temporary prefix (entry_target e) \<Longrightarrow>
   \<not> temporary prefix p \<Longrightarrow> p \<notin> entry_target ` set es \<Longrightarrow> fbytes k' p = fbytes k p"
proof (induction prefix n es k rule: write_entries.induct)
  case (2 prefix rnd label target content perm es k)
  obtain r1 k1 where 1: "atomic_write_file prefix rnd target content perm k = (r1, k1)" by fastforce
  have "\<not> temporary prefix target" using "2.prems"(2) by simp
  then have ne: "path_dir target @ [prefix @ nat_str rnd] \<noteq> target" by (metis temporary_name)
  have "p \<noteq> path_dir target @ [prefix @ nat_str rnd]" using "2.prems"(3) by (metis temporary_name)
  moreover have "p \<noteq> target" using "2.prems"(4) by simp
  ultimately have "fbytes k1 p = fbytes k p" using atomic_write_bytes(1) [OF 1 ne] by blast
  then show ?case using 2 1 by (cases r1) auto
qed simp

lemma write_entries_bytes:
  "write_entries prefix n es k = (r, k') \<Longrightarrow> \<forall>e\<in>set es. \<not> temporary prefix (entry_target e) \<Longrightarrow>
   distinct (map entry_target es) \<Longrightarrow> e \<in> set es \<Longrightarrow>
     fbytes k' (entry_target e) \<in> {fbytes k (entry_target e), Some (entry_data e)} \<and>
     (\<not> isl r \<longrightarrow> fbytes k' (entry_target e) = Some (entry_data e))"
proof (induction prefix n es k rule: write_entries.induct)
  case (2 prefix rnd label target content perm es k)
  obtain r1 k1 where 1: "atomic_write_file prefix rnd target content perm k = (r1, k1)" by fastforce
  have tt: "\<not> temporary prefix target" using "2.prems"(2) by simp
  then have ne: "path_dir target @ [prefix @ nat_str rnd] \<noteq> target" by (metis temporary_name)
  note own = atomic_write_bytes(2) [OF 1 ne]
  show ?case
  proof (cases "e = (label, target, content, perm)")
    case True
    have fresh: "target \<notin> entry_target ` set es" using "2.prems"(3) by simp
    show ?thesis
    proof (cases r1)
      case (Inl err)
      with 1 "2.prems"(1) have "isl r" "k' = k1" by auto
      with own Inl show ?thesis unfolding True by simp
    next
      case (Inr u)
      with 1 "2.prems"(1) have rest: "write_entries prefix (Suc rnd) es k1 = (r, k')" by simp
      have "fbytes k' target = fbytes k1 target"
        using "2.prems"(2) by (intro write_entries_frame [OF rest _ tt fresh]) simp
      with own Inr show ?thesis unfolding True by simp
    qed
  next
    case False
    then have e: "e \<in> set es" using "2.prems"(4) by simp
    have "entry_target e \<noteq> target" using e "2.prems"(3) by (metis distinct.simps(2) entry_simps(1) image_eqI list.map(2) list.set_map)
    moreover have "entry_target e \<noteq> path_dir target @ [prefix @ nat_str rnd]"
      using e "2.prems"(2) temporary_name by (metis list.set_intros(2))
    ultimately have same: "fbytes k1 (entry_target e) = fbytes k (entry_target e)"
      using atomic_write_bytes(1) [OF 1 ne] by blast
    show ?thesis
    proof (cases r1)
      case (Inl err)
      with 1 "2.prems"(1) have "isl r" "k' = k1" by auto
      with same show ?thesis by simp
    next
      case (Inr u)
      with 1 "2.prems"(1) have rest: "write_entries prefix (Suc rnd) es k1 = (r, k')" by simp
      from "2.IH" [OF 1 [symmetric] Inr rest] "2.prems"(2,3) e same show ?thesis by simp
    qed
  qed
qed simp

text \<open>The names of the files: plain, different, and none like a temporary one.\<close>

lemma postfix_targets:
  "map entry_target (postfix_entries opts) =
     map (\<lambda>n. pc_config_dir opts @ [n]) [''main.cf'', ''master.cf'', pf_domains, pf_mailboxes, pf_aliases, pf_senders]"
  by (simp add: postfix_entries_def path_join_plain plain_def pf_domains_def pf_mailboxes_def pf_aliases_def pf_senders_def)

lemma dovecot_targets:
  "map entry_target (dovecot_entries opts) =
     map (\<lambda>n. pc_config_dir opts @ n) [[''dovecot.conf''], [''conf.d'', ''10-mail.conf''], [''conf.d'', ''10-ssl.conf''],
       [''conf.d'', ''10-auth.conf''], [''conf.d'', ''10-master.conf''], [''conf.d'', ''auth-sql.conf.ext''],
       [''sql'', ''dovecot-pgsql.conf.ext'']]"
  by (simp add: dovecot_entries_def path_join_plain plain_def Let_def)

lemma entry_facts:
  "distinct (map entry_target (postfix_entries opts))" "distinct (map entry_target (dovecot_entries opts'))"
  "\<forall>e\<in>set (postfix_entries opts). \<not> temporary ''postfix-conf-'' (entry_target e)"
  "\<forall>e\<in>set (dovecot_entries opts'). \<not> temporary ''dovecot-conf-'' (entry_target e)"
proof -
  show "distinct (map entry_target (postfix_entries opts))" "distinct (map entry_target (dovecot_entries opts'))"
    unfolding postfix_targets dovecot_targets
    by (simp_all add: pf_domains_def pf_mailboxes_def pf_aliases_def pf_senders_def)
  have "list_all (\<lambda>p. \<not> temporary ''postfix-conf-'' p) (map entry_target (postfix_entries opts))"
    unfolding postfix_targets
    by (simp add: temporary_def has_prefix_def pf_domains_def pf_mailboxes_def pf_aliases_def pf_senders_def)
  then show "\<forall>e\<in>set (postfix_entries opts). \<not> temporary ''postfix-conf-'' (entry_target e)" by (simp add: list_all_iff)
  have "list_all (\<lambda>p. \<not> temporary ''dovecot-conf-'' p) (map entry_target (dovecot_entries opts'))"
    unfolding dovecot_targets by (simp add: temporary_def has_prefix_def)
  then show "\<forall>e\<in>set (dovecot_entries opts'). \<not> temporary ''dovecot-conf-'' (entry_target e)" by (simp add: list_all_iff)
qed

text \<open>Whatever fails, each file is afterwards as it was or completely new; after a success all are new.\<close>

lemma postfix_write_atomic:
  assumes "write_postfix_configs n opts k = (r, k')" and "e \<in> set (postfix_entries opts)"
  shows "fbytes k' (entry_target e) \<in> {fbytes k (entry_target e), Some (entry_data e)}"
    and "r = Inr () \<Longrightarrow> fbytes k' (entry_target e) = Some (entry_data e)"
proof -
  obtain r1 k1 where 1: "os_mkdir_all 488 (pc_config_dir opts) k = (r1, k1)" by fastforce
  note b = fbytes_mkdir_all [OF 1]
  have "fbytes k' (entry_target e) \<in> {fbytes k (entry_target e), Some (entry_data e)} \<and>
    (\<not> isl r \<longrightarrow> fbytes k' (entry_target e) = Some (entry_data e))"
  proof (cases r1)
    case (Inl err)
    with assms(1) 1 have "isl r" "k' = k1" by (auto simp: write_postfix_configs_def)
    then show ?thesis by (simp add: b)
  next
    case (Inr u)
    with assms(1) 1 have "write_entries ''postfix-conf-'' n (postfix_entries opts) k1 = (r, k')"
      by (simp add: write_postfix_configs_def)
    from write_entries_bytes [OF this entry_facts(3,1) assms(2)] show ?thesis by (simp add: b)
  qed
  then show "fbytes k' (entry_target e) \<in> {fbytes k (entry_target e), Some (entry_data e)}"
    "r = Inr () \<Longrightarrow> fbytes k' (entry_target e) = Some (entry_data e)" by auto
qed

lemma dovecot_write_atomic:
  assumes "write_dovecot_configs n opts k = (r, k')" and "e \<in> set (dovecot_entries opts)"
  shows "fbytes k' (entry_target e) \<in> {fbytes k (entry_target e), Some (entry_data e)}"
    and "r = Inr () \<Longrightarrow> fbytes k' (entry_target e) = Some (entry_data e)"
proof -
  obtain r1 k1 where 1: "os_mkdir_all 488 (path_join (pc_config_dir opts) [''conf.d'']) k = (r1, k1)" by fastforce
  obtain r2 k2 where 2: "os_mkdir_all 488 (path_join (pc_config_dir opts) [''sql'']) k1 = (r2, k2)" by fastforce
  note b = fbytes_mkdir_all [OF 1] fbytes_mkdir_all [OF 2]
  have "fbytes k' (entry_target e) \<in> {fbytes k (entry_target e), Some (entry_data e)} \<and>
    (\<not> isl r \<longrightarrow> fbytes k' (entry_target e) = Some (entry_data e))"
  proof (cases "isl r1 \<or> isl r2")
    case True
    with assms(1) 1 2 have "isl r" "k' = k1 \<or> k' = k2"
      by (auto simp: write_dovecot_configs_def isl_def split: sum.splits)
    then show ?thesis by (auto simp: b)
  next
    case False
    with assms(1) 1 2 have "write_entries ''dovecot-conf-'' n (dovecot_entries opts) k2 = (r, k')"
      by (auto simp: write_dovecot_configs_def split: sum.splits)
    from write_entries_bytes [OF this entry_facts(4,2) assms(2)] show ?thesis by (simp add: b)
  qed
  then show "fbytes k' (entry_target e) \<in> {fbytes k (entry_target e), Some (entry_data e)}"
    "r = Inr () \<Longrightarrow> fbytes k' (entry_target e) = Some (entry_data e)" by auto
qed

text \<open>A masked secret has the length of the secret, if that is more than four, and hides the middle.\<close>

lemma mask_secret_hides:
  "4 < length s \<Longrightarrow> length (mask_secret s) = length s \<and>
     (\<forall>i. 2 \<le> i \<and> i < length s - 2 \<longrightarrow> mask_secret s ! i = CHR ''*'')"
  by (auto simp: mask_secret_def nth_append)

lemma unlines_simps [simp]: "unlines [] = []" "unlines (l # ls) = l @ newline @ unlines ls"
  by (simp_all add: unlines_def)

lemma contains_line: "l \<in> set ls \<Longrightarrow> contains l w \<Longrightarrow> contains (unlines ls) w"
proof (induction ls)
  case (Cons x xs)
  have mid: "contains (a @ s @ b) w" if c: "contains s w" for a s b
  proof -
    from c obtain u v where "s = u @ w @ v" by (auto simp: contains_iff)
    then have "a @ s @ b = (a @ u) @ w @ (v @ b)" by simp
    then show ?thesis unfolding contains_iff by blast
  qed
  show ?case
  proof (cases "l = x")
    case True
    with Cons.prems(2) mid [of x "[]"] show ?thesis by simp
  next
    case False
    with Cons mid [of "unlines xs" "x @ newline" "[]"] show ?thesis by simp
  qed
qed simp

end
