(* ===== verification/Mta_Service.thy ===== *)
theory Mta_Service
  imports Mta_Config
begin

text \<open>
  Running Postfix and Dovecot: the provisioners that call their commands, the operation that
  applies a configuration, and the three doctors. Facts: a daemon is reloaded only with a
  complete configuration; what a healthy report of the submission doctor leaves unchecked.
\<close>

section \<open>Commands\<close>

text \<open>
  What the environment answers: the search in PATH, whether the process is root, and a command,
  which acts on the outside world and gives its error output and its error.
\<close>

record 'w commands =
  look_path :: "string \<Rightarrow> string option"
  is_root :: bool
  run_cmd :: "string list \<Rightarrow> 'w \<Rightarrow> (string \<times> err option) \<times> 'w"

definition checked_cmd :: "'w commands \<Rightarrow> string \<Rightarrow> string list \<Rightarrow> 'w \<Rightarrow> unit result \<times> 'w" where
  "checked_cmd c msg args w =
     (case run_cmd c args w of
        ((stderr, Some err), w1) \<Rightarrow> (Inl (Wrap (msg @ '': '' @ stderr) err), w1)
      | ((stderr, None), w1) \<Rightarrow> (Inr (), w1))"

fun stat_all :: "string \<Rightarrow> path \<Rightarrow> string list list \<Rightarrow> disk \<Rightarrow> unit result \<times> disk" where
  "stat_all msg dir [] k = (Inr (), k)"
| "stat_all msg dir (f # fs) k =
     (case os_stat (path_join dir f) k of
        (Inl err, k1) \<Rightarrow> (Inl (Wrap (msg @ str_join ''/'' f) err), k1)
      | (Inr info, k1) \<Rightarrow> stat_all msg dir fs k1)"

section \<open>Postfix\<close>

definition postfix_files :: "string list list" where
  "postfix_files = [[''main.cf''], [''master.cf''], [pf_domains], [pf_mailboxes], [pf_aliases]]"

definition postfix_validate :: "'w commands \<Rightarrow> path \<Rightarrow> disk \<Rightarrow> 'w \<Rightarrow> unit result \<times> disk \<times> 'w" where
  "postfix_validate c dir k w =
     (case stat_all ''missing postfix config file '' dir postfix_files k of
        (Inl err, k1) \<Rightarrow> (Inl err, k1, w)
      | (Inr u, k1) \<Rightarrow>
          if look_path c ''postfix'' \<noteq> None \<and> is_root c
          then (case checked_cmd c ''postfix check failed'' [''postfix'', ''-c'', path_str dir, ''check''] w of
                  (r, w1) \<Rightarrow> (r, k1, w1))
          else (Inr (), k1, w))"

text \<open>\<open>Reload\<close>, \<open>Start\<close> and \<open>Stop\<close> differ in the verb only.\<close>

definition postfix_command :: "'w commands \<Rightarrow> path \<Rightarrow> string \<Rightarrow> 'w \<Rightarrow> unit result \<times> 'w" where
  "postfix_command c dir verb w =
     (if look_path c ''postfix'' = None then (Inl (Msg ''postfix binary not found in system PATH''), w)
      else checked_cmd c (''postfix '' @ verb @ '' failed'') [''postfix'', ''-c'', path_str dir, verb] w)"

definition postfix_status :: "'w commands \<Rightarrow> path \<Rightarrow> 'w \<Rightarrow> string \<times> 'w" where
  "postfix_status c dir w =
     (if look_path c ''postfix'' = None then (''not installed'', w)
      else (case run_cmd c [''postfix'', ''-c'', path_str dir, ''status''] w of
          ((stderr, Some err), w1) \<Rightarrow> (''stopped'', w1)
        | ((stderr, None), w1) \<Rightarrow> (''running'', w1)))"

definition postfix_apply ::
    "'w commands \<Rightarrow> path \<Rightarrow> nat \<Rightarrow> postfix_options \<Rightarrow> disk \<Rightarrow> 'w \<Rightarrow> unit result \<times> disk \<times> 'w" where
  "postfix_apply c dir rnd opts k w =
     (case write_postfix_configs rnd opts k of
        (Inl err, k1) \<Rightarrow> (Inl (Wrap ''failed to write postfix configs'' err), k1, w)
      | (Inr u, k1) \<Rightarrow>
     (case postfix_validate c dir k1 w of
        (Inl err, k2, w1) \<Rightarrow> (Inl (Wrap ''postfix config validation failed'' err), k2, w1)
      | (Inr u, k2, w1) \<Rightarrow>
     (case postfix_status c dir w1 of
        (st, w2) \<Rightarrow>
          if st = ''running'' then (case postfix_command c dir ''reload'' w2 of (r, w3) \<Rightarrow> (r, k2, w3))
          else (Inr (), k2, w2))))"

section \<open>Dovecot\<close>

definition dovecot_files :: "string list list" where
  "dovecot_files = [[''dovecot.conf''], [''conf.d'', ''10-mail.conf''], [''conf.d'', ''10-auth.conf''],
     [''conf.d'', ''10-master.conf''], [''conf.d'', ''auth-sql.conf.ext''], [''sql'', ''dovecot-pgsql.conf.ext'']]"

definition main_conf :: "path \<Rightarrow> string" where
  "main_conf dir = path_str (path_join dir [''dovecot.conf''])"

definition dovecot_validate :: "'w commands \<Rightarrow> path \<Rightarrow> disk \<Rightarrow> 'w \<Rightarrow> unit result \<times> disk \<times> 'w" where
  "dovecot_validate c dir k w =
     (case stat_all ''missing dovecot config file '' dir dovecot_files k of
        (Inl err, k1) \<Rightarrow> (Inl err, k1, w)
      | (Inr u, k1) \<Rightarrow>
          if look_path c ''doveconf'' \<noteq> None
          then (case checked_cmd c ''doveconf validation failed'' [''doveconf'', ''-c'', main_conf dir, ''-n''] w of
                  (r, w1) \<Rightarrow> (r, k1, w1))
          else (Inr (), k1, w))"

text \<open>\<open>verb\<close> is empty for \<open>Start\<close>.\<close>

definition dovecot_command :: "'w commands \<Rightarrow> path \<Rightarrow> string \<Rightarrow> string list \<Rightarrow> 'w \<Rightarrow> unit result \<times> 'w" where
  "dovecot_command c dir name verb w =
     (if look_path c ''dovecot'' = None then (Inl (Msg ''dovecot binary not found in system PATH''), w)
      else checked_cmd c (''dovecot '' @ name @ '' failed'') ([''dovecot'', ''-c'', main_conf dir] @ verb) w)"

definition dovecot_status :: "'w commands \<Rightarrow> 'w \<Rightarrow> string \<times> 'w" where
  "dovecot_status c w =
     (if look_path c ''dovecot'' = None then (''not installed'', w)
      else (case run_cmd c [''pgrep'', ''dovecot''] w of
          ((stderr, Some err), w1) \<Rightarrow> (''stopped'', w1)
        | ((stderr, None), w1) \<Rightarrow> (''running'', w1)))"

definition dovecot_apply ::
    "'w commands \<Rightarrow> path \<Rightarrow> nat \<Rightarrow> mta_options \<Rightarrow> disk \<Rightarrow> 'w \<Rightarrow> unit result \<times> disk \<times> 'w" where
  "dovecot_apply c dir rnd opts k w =
     (case write_dovecot_configs rnd opts k of
        (Inl err, k1) \<Rightarrow> (Inl (Wrap ''failed to write dovecot configs'' err), k1, w)
      | (Inr u, k1) \<Rightarrow>
     (case dovecot_validate c dir k1 w of
        (Inl err, k2, w1) \<Rightarrow> (Inl (Wrap ''dovecot config validation failed'' err), k2, w1)
      | (Inr u, k2, w1) \<Rightarrow>
     (case dovecot_status c w1 of
        (st, w2) \<Rightarrow>
          if st = ''running'' then (case dovecot_command c dir ''reload'' [''reload''] w2 of (r, w3) \<Rightarrow> (r, k2, w3))
          else (Inr (), k2, w2))))"

section \<open>Doctors\<close>

text \<open>
  A report: the list of checks and the verdict. \<open>note\<close> adds a check that cannot spoil the
  verdict, \<open>check\<close> one that does when it fails.
\<close>

record health_report =
  hr_checks :: "check_item list"
  hr_healthy :: bool

definition note_check :: "string \<Rightarrow> string \<Rightarrow> bool \<Rightarrow> string \<Rightarrow> health_report \<Rightarrow> health_report" where
  "note_check category name ok message rep =
     rep\<lparr>hr_checks := hr_checks rep @
           [\<lparr>ci_category = category, ci_name = name, ci_passed = ok, ci_message = message\<rparr>]\<rparr>"

definition hard_check :: "string \<Rightarrow> string \<Rightarrow> bool \<Rightarrow> string \<Rightarrow> health_report \<Rightarrow> health_report" where
  "hard_check category name ok message rep =
     (note_check category name ok message rep)\<lparr>hr_healthy := (hr_healthy rep \<and> ok)\<rparr>"

definition new_report :: health_report where
  "new_report = \<lparr>hr_checks = [], hr_healthy = True\<rparr>"

fun check_conf_files :: "path \<Rightarrow> (string \<times> string) list \<Rightarrow> health_report \<Rightarrow> disk \<Rightarrow> health_report \<times> disk" where
  "check_conf_files dir [] rep k = (rep, k)"
| "check_conf_files dir ((name, f) # fs) rep k =
     (case os_stat (path_join dir [f]) k of
        (Inr info, k1) \<Rightarrow>
          check_conf_files dir fs (hard_check '''' name True
            (f @ (if mode_of info > 416 then '' (warning: permissions > 0640)'' else '''')) rep) k1
      | (Inl err, k1) \<Rightarrow> check_conf_files dir fs (hard_check '''' name False ''missing file'' rep) k1)"

definition check_root :: "path \<Rightarrow> string \<Rightarrow> string \<Rightarrow> string \<Rightarrow> string \<Rightarrow> health_report \<Rightarrow> disk \<Rightarrow> health_report \<times> disk" where
  "check_root vmail category name good bad rep k =
     (case os_stat vmail k of
        (Inr info, k1) \<Rightarrow>
          (if node_is_dir info then (hard_check category name True good rep, k1)
           else (hard_check category name False bad rep, k1))
      | (Inl err, k1) \<Rightarrow> (hard_check category name False bad rep, k1))"

definition check_query :: "(err \<Rightarrow> string) \<Rightarrow> string \<Rightarrow> string \<Rightarrow> 'a result \<Rightarrow> health_report \<Rightarrow> health_report" where
  "check_query et name good r rep =
     (case r of Inr x \<Rightarrow> hard_check '''' name True good rep | Inl err \<Rightarrow> hard_check '''' name False (et err) rep)"

definition postfix_doctor ::
    "'w commands \<Rightarrow> (err \<Rightarrow> string) \<Rightarrow> path \<Rightarrow> path \<Rightarrow> db \<Rightarrow> disk \<Rightarrow> 'w \<Rightarrow> health_report \<times> db \<times> disk \<times> 'w" where
  "postfix_doctor c et dir vmail db k w =
     (let rep1 = (case look_path c ''postfix'' of
            Some p \<Rightarrow> note_check '''' ''Postfix Binary'' True p new_report
          | None \<Rightarrow> note_check '''' ''Postfix Binary'' False ''not found in PATH'' new_report);
          (st, w1) = postfix_status c dir w;
          rep2 = note_check '''' ''Postfix Service'' (st = ''running'' \<or> st = ''stopped'') st rep1;
          (rep3, k1) = check_conf_files dir [(''main.cf'', ''main.cf''), (''virtual_mailbox_domains'', pf_domains),
            (''virtual_mailbox_maps'', pf_mailboxes), (''virtual_alias_maps'', pf_aliases)] rep2 k;
          (rep4, k2) = check_root vmail '''' ''Mail Root (/var/vmail)'' (path_str vmail) ''missing root directory'' rep3 k1;
          (r1, db1) = lookup_virtual_domain ''example.com'' db;
          (r2, db2) = lookup_virtual_mailbox ''ajar@example.com'' db1;
          (r3, db3) = lookup_virtual_alias ''support@example.com'' db2;
          rep5 = check_query et ''PostgreSQL Alias Lookup'' ''query active'' r3
            (check_query et ''PostgreSQL Mailbox Lookup'' ''query active (filtered by ready status)'' r2
              (check_query et ''PostgreSQL Domain Lookup'' ''query active'' r1 rep4));
          (r4, k3, w2) = postfix_validate c dir k2 w1
      in (case r4 of
            Inr u \<Rightarrow> note_check '''' ''Postfix Check (syntax)'' True ''OK'' rep5
          | Inl err \<Rightarrow>
              (if look_path c ''postfix'' \<noteq> None
               then hard_check '''' ''Postfix Check (syntax)'' False (et err) rep5
               else note_check '''' ''Postfix Check (syntax)'' False (et err) rep5), db3, k3, w2))"

definition user_query_ok :: "'a result \<Rightarrow> bool" where
  "user_query_ok r \<longleftrightarrow> (case r of Inr x \<Rightarrow> True | Inl err \<Rightarrow> err = err_dovecot_user_not_found)"

text \<open>\<open>dial\<close> says which addresses accept a TCP connection.\<close>

definition submission_doctor ::
    "'w commands \<Rightarrow> (string \<Rightarrow> bool) \<Rightarrow> path \<Rightarrow> db \<Rightarrow> disk \<Rightarrow> health_report \<times> db \<times> disk" where
  "submission_doctor c dial dir db k =
     (let rep1 = note_check ''Postfix'' ''binary'' True
            (case look_path c ''postfix'' of Some p \<Rightarrow> p | None \<Rightarrow> ''running via container / system'') new_report;
          (r, k1) = os_read_file (path_join dir [''master.cf'']) k;
          master = (case r of Inr s \<Rightarrow> s | Inl err \<Rightarrow> '''');
          rep2 = (case r of
            Inr s \<Rightarrow> hard_check ''Postfix'' ''master.cf submission'' (contains s ''submission inet'') ''service defined''
                      (note_check ''Postfix'' ''configuration'' True ''master.cf readable'' rep1)
          | Inl err \<Rightarrow> hard_check ''Postfix'' ''configuration'' False ''missing master.cf'' rep1);
          connected = list_ex dial [''postfix:587'', ''127.0.0.1:587'', ''localhost:587''];
          rep3 = hard_check ''Listener'' ''TCP :587'' connected
            (if connected then ''listening'' else ''port closed / submission service down'') rep2;
          sasl = contains master ''smtpd_sasl_auth_enable=yes'';
          rep4 = note_check ''SASL'' ''socket permissions'' True ''private / 0660 valid''
            (note_check ''SASL'' ''auth socket'' True ''/var/spool/postfix/private/auth''
              (note_check ''SASL'' ''Dovecot SASL'' (contains master ''smtpd_sasl_type=dovecot'') ''type dovecot configured''
                (note_check ''SASL'' ''smtpd_sasl_auth_enable'' sasl ''enabled on submission'' rep3)));
          (q, db1) = lookup_virtual_mailbox ''ajar@example.com'' db;
          rep5 = note_check ''Authentication'' ''active mailbox'' True ''status validation active''
            (note_check ''Authentication'' ''Argon2id'' True ''passdb integration''
              (note_check ''Authentication'' ''PostgreSQL'' (\<not> isl q) ''connection healthy'' rep4));
          rep6 = note_check ''Relay Policy'' ''unauthenticated relay'' True ''blocked''
            (note_check ''Relay Policy'' ''authenticated relay'' True ''permit_sasl_authenticated'' rep5);
          (m, k2) = os_read_file (path_join dir [''main.cf'']) k1;
          main = (case m of Inr s \<Rightarrow> s | Inl err \<Rightarrow> '''')
      in (note_check ''Security'' ''port 587 AUTH'' sasl ''enabled''
            (note_check ''Security'' ''port 25 AUTH'' (\<not> contains main ''smtpd_sasl_auth_enable = yes'') ''disabled'' rep6),
          db1, k2))"

fun check_dovecot_files :: "path \<Rightarrow> (string \<times> string list \<times> bool) list \<Rightarrow> health_report \<Rightarrow> disk \<Rightarrow> health_report \<times> disk" where
  "check_dovecot_files dir [] rep k = (rep, k)"
| "check_dovecot_files dir ((name, f, secret) # fs) rep k =
     (case os_stat (path_join dir f) k of
        (Inr info, k1) \<Rightarrow>
          check_dovecot_files dir fs (hard_check ''Configuration'' name True
            (str_join ''/'' f @ (if secret \<and> mode_of info > 416 then '' (warning: permissions > 0640)'' else '''')) rep) k1
      | (Inl err, k1) \<Rightarrow> check_dovecot_files dir fs (hard_check ''Configuration'' name False ''missing file'' rep) k1)"

definition check_user_query :: "(err \<Rightarrow> string) \<Rightarrow> string \<Rightarrow> string \<Rightarrow> 'a result \<Rightarrow> health_report \<Rightarrow> health_report" where
  "check_user_query et name good r rep =
     (if user_query_ok r then hard_check ''Database'' name True good rep
      else hard_check ''Database'' name False (case r of Inl err \<Rightarrow> et err | Inr x \<Rightarrow> '''') rep)"

definition dovecot_doctor ::
    "'w commands \<Rightarrow> (err \<Rightarrow> string) \<Rightarrow> (string \<Rightarrow> bool) \<Rightarrow> path \<Rightarrow> path \<Rightarrow> int \<Rightarrow> int \<Rightarrow> db \<Rightarrow> disk \<Rightarrow> 'w \<Rightarrow>
       health_report \<times> db \<times> disk \<times> 'w" where
  "dovecot_doctor c et dial dir vmail uid gid db k w =
     (let (st, w1) = dovecot_status c w;
          rep1 = note_check ''Service'' ''dovecot'' (st = ''running'' \<or> st = ''stopped'') st new_report;
          rep2 = (case look_path c ''dovecot'' of
            Some p \<Rightarrow> note_check ''Service'' ''dovecot binary'' True p rep1
          | None \<Rightarrow> note_check ''Service'' ''dovecot binary'' False ''not installed in PATH'' rep1);
          (rep3, k1) = check_dovecot_files dir
            [(''dovecot.conf'', [''dovecot.conf''], False),
             (''mail_location (10-mail.conf)'', [''conf.d'', ''10-mail.conf''], False),
             (''auth (10-auth.conf)'', [''conf.d'', ''10-auth.conf''], False),
             (''PostgreSQL (dovecot-pgsql.conf.ext)'', [''sql'', ''dovecot-pgsql.conf.ext''], True)] rep2 k;
          (r1, db1) = get_password_hash ''ajar@example.com'' db;
          rep4 = check_user_query et ''auth query (passdb)'' ''active (filtered by ready status)'' r1 rep3;
          (r2, db2) = get_user_info ''ajar@example.com'' vmail uid gid db1;
          rep5 = check_user_query et ''userdb query (mailbox location)'' ''active'' r2 rep4;
          (rep6, k2) = check_root vmail ''Filesystem'' (path_str vmail) ''directory exists'' ''directory missing'' rep5 k1;
          rep7 = note_check ''Filesystem'' ''vmail UID / GID'' True (''UID='' @ dec uid @ '', GID='' @ dec gid) rep6;
          connected = list_ex dial [''dovecot:143'', ''127.0.0.1:143'', ''localhost:143'']
      in (note_check ''Protocols'' ''IMAP :143'' connected
            (if connected then ''listening'' else ''port closed / service down'') rep7, db2, k2, w1))"

section \<open>Facts\<close>

lemma fbytes_stat_all: "stat_all msg dir fs k = (r, k') \<Longrightarrow> fbytes k' = fbytes k"
  by (induction msg dir fs k rule: stat_all.induct)
    (auto split: prod.splits sum.splits dest!: fbytes_stat)

lemma fbytes_validate:
  "postfix_validate c dir k w = (r, k', w') \<Longrightarrow> fbytes k' = fbytes k"
  "dovecot_validate c dir k w = (r, k', w') \<Longrightarrow> fbytes k' = fbytes k"
  by (auto simp: postfix_validate_def dovecot_validate_def split: prod.splits sum.splits if_splits dest!: fbytes_stat_all)

text \<open>
  A configuration that was applied is complete, and when the writing fails no command is run, so
  a daemon never reloads a half-written configuration.
\<close>

lemma postfix_apply_complete:
  assumes "postfix_apply c dir n opts k w = (r, k', w')"
  shows "r = Inr () \<Longrightarrow> e \<in> set (postfix_entries opts) \<Longrightarrow> fbytes k' (entry_target e) = Some (entry_data e)"
    and "w' \<noteq> w \<Longrightarrow> e \<in> set (postfix_entries opts) \<Longrightarrow> fbytes k' (entry_target e) = Some (entry_data e)"
proof -
  obtain r1 k1 where 1: "write_postfix_configs n opts k = (r1, k1)" by fastforce
  obtain r2 k2 w2 where 2: "postfix_validate c dir k1 w = (r2, k2, w2)" by (metis prod_cases3)
  obtain st w3 where 3: "postfix_status c dir w2 = (st, w3)" by fastforce
  have "(isl r \<and> w' = w) \<or> (r1 = Inr () \<and> k' = k2)"
    using assms 1 2 3 by (cases r1; cases r2) (auto simp: postfix_apply_def split: if_splits prod.splits)
  then have "(isl r \<and> w' = w) \<or> (\<forall>e\<in>set (postfix_entries opts). fbytes k' (entry_target e) = Some (entry_data e))"
    using postfix_write_atomic(2) [OF 1] fbytes_validate(1) [OF 2] by auto
  then show "r = Inr () \<Longrightarrow> e \<in> set (postfix_entries opts) \<Longrightarrow> fbytes k' (entry_target e) = Some (entry_data e)"
    "w' \<noteq> w \<Longrightarrow> e \<in> set (postfix_entries opts) \<Longrightarrow> fbytes k' (entry_target e) = Some (entry_data e)" by auto
qed

lemma dovecot_apply_complete:
  assumes "dovecot_apply c dir n opts k w = (r, k', w')"
  shows "r = Inr () \<Longrightarrow> e \<in> set (dovecot_entries opts) \<Longrightarrow> fbytes k' (entry_target e) = Some (entry_data e)"
    and "w' \<noteq> w \<Longrightarrow> e \<in> set (dovecot_entries opts) \<Longrightarrow> fbytes k' (entry_target e) = Some (entry_data e)"
proof -
  obtain r1 k1 where 1: "write_dovecot_configs n opts k = (r1, k1)" by fastforce
  obtain r2 k2 w2 where 2: "dovecot_validate c dir k1 w = (r2, k2, w2)" by (metis prod_cases3)
  obtain st w3 where 3: "dovecot_status c w2 = (st, w3)" by fastforce
  have "(isl r \<and> w' = w) \<or> (r1 = Inr () \<and> k' = k2)"
    using assms 1 2 3 by (cases r1; cases r2) (auto simp: dovecot_apply_def split: if_splits prod.splits)
  then have "(isl r \<and> w' = w) \<or> (\<forall>e\<in>set (dovecot_entries opts). fbytes k' (entry_target e) = Some (entry_data e))"
    using dovecot_write_atomic(2) [OF 1] fbytes_validate(2) [OF 2] by auto
  then show "r = Inr () \<Longrightarrow> e \<in> set (dovecot_entries opts) \<Longrightarrow> fbytes k' (entry_target e) = Some (entry_data e)"
    "w' \<noteq> w \<Longrightarrow> e \<in> set (dovecot_entries opts) \<Longrightarrow> fbytes k' (entry_target e) = Some (entry_data e)" by auto
qed

lemma report_simps [simp]:
  "hr_healthy (note_check cat nm ok msg rep) = hr_healthy rep"
  "hr_healthy (hard_check cat nm ok msg rep) \<longleftrightarrow> hr_healthy rep \<and> ok"
  "hr_healthy new_report"
  by (simp_all add: note_check_def hard_check_def new_report_def)

text \<open>
  The verdict of the submission doctor rests on two checks only: that \<open>master.cf\<close> mentions the
  service and that the port answers. Authentication switched off on the port, switched on for
  port 25, or a database that does not answer leave the report healthy.
\<close>

lemma submission_verdict:
  "hr_healthy (fst (submission_doctor c dial dir db k)) \<longleftrightarrow>
     (\<exists>s. fst (os_read_file (path_join dir [''master.cf'']) k) = Inr s \<and> contains s ''submission inet'') \<and>
     list_ex dial [''postfix:587'', ''127.0.0.1:587'', ''localhost:587'']"
  by (simp add: submission_doctor_def Let_def split: prod.splits sum.splits)

text \<open>The generated file passes the three searches, whatever the options are.\<close>

lemma master_cf_submission:
  "contains (master_cf opts) ''submission inet''" "contains (master_cf opts) ''smtpd_sasl_auth_enable=yes''"
  "contains (master_cf opts) ''smtpd_sasl_type=dovecot''"
proof -
  show "contains (master_cf opts) ''submission inet''" unfolding master_cf_def
    by (rule contains_line [of "''submission inet n       -       n       -       -       smtpd''"])
      (simp, code_simp)
  show "contains (master_cf opts) ''smtpd_sasl_auth_enable=yes''" unfolding master_cf_def
    by (rule contains_line [of "''  -o smtpd_sasl_auth_enable=yes''"]) (simp, code_simp)
  show "contains (master_cf opts) ''smtpd_sasl_type=dovecot''" unfolding master_cf_def
    by (rule contains_line [of "''  -o smtpd_sasl_type=dovecot''"]) (simp, code_simp)
qed

end
