(* ===== verification/Backup.thy ===== *)
theory Backup
  imports Quota Tokens Go_Files
begin

text \<open>
  The package \<open>internal/backup\<close>: making an archive of the database dump and four directories,
  encrypting it, verifying it against the checksums of its manifest, and restoring it. The
  formats tar, gzip and JSON, AES-GCM, Argon2 and SHA-256 are parameters. Facts: what is
  archived verifies and is restored; what verification does not look at; where restoring writes.
\<close>

section \<open>Encryption\<close>

record aead =
  ae_seal :: "string \<Rightarrow> string \<Rightarrow> string \<Rightarrow> string"
  ae_open :: "string \<Rightarrow> string \<Rightarrow> string \<Rightarrow> string result"

definition salt_len :: nat where "salt_len = 16"
definition nonce_len :: nat where "nonce_len = 12"

text \<open>\<open>salt\<close> and \<open>nonce\<close> are what the random source gives.\<close>

definition encrypt_data :: "aead \<Rightarrow> kdf \<Rightarrow> string result \<Rightarrow> string result \<Rightarrow> string \<Rightarrow> string \<Rightarrow> string result" where
  "encrypt_data ae kdf salt nonce plaintext passphrase =
     (if passphrase = '''' then Inr plaintext
      else (case salt of
          Inl err \<Rightarrow> Inl (Wrap ''generate salt'' err)
        | Inr s \<Rightarrow>
            (case kdf passphrase s 1 (64 * 1024) 4 32 of
               Inl err \<Rightarrow> Inl err
             | Inr key \<Rightarrow>
                 (case nonce of
                    Inl err \<Rightarrow> Inl (Wrap ''generate nonce'' err)
                  | Inr n \<Rightarrow> Inr (s @ n @ ae_seal ae key n plaintext)))))"

definition decrypt_data :: "aead \<Rightarrow> kdf \<Rightarrow> string \<Rightarrow> string \<Rightarrow> string result" where
  "decrypt_data ae kdf data passphrase =
     (if passphrase = '''' then Inr data
      else if length data < salt_len + nonce_len then Inl (Msg ''ciphertext too short'')
      else let salt = take salt_len data; nonce = take nonce_len (drop salt_len data);
               ciphertext = drop (salt_len + nonce_len) data
           in (case kdf passphrase salt 1 (64 * 1024) 4 32 of
                 Inl err \<Rightarrow> Inl err
               | Inr key \<Rightarrow>
                   (case ae_open ae key nonce ciphertext of
                      Inl err \<Rightarrow> Inl (Wrap ''decrypt failed (wrong passphrase or corrupted payload)'' err)
                    | Inr plaintext \<Rightarrow> Inr plaintext)))"

section \<open>Archives\<close>

record manifest =
  mf_version :: int
  mf_created_at :: instant
  mf_database :: bool
  mf_maildir :: bool
  mf_dkim :: bool
  mf_tls :: bool
  mf_configs :: bool
  mf_checksums :: "(string \<times> string) list"
  mf_encrypted :: bool
  mf_total_files :: int
  mf_archive_bytes :: int

text \<open>An entry: name, mode and content. Reading may end in an error, of one entry or of the archive.\<close>

type_synonym tar_entry = "string \<times> nat \<times> string"

datatype tar_item = Tar_Entry string nat "string result" | Tar_Broken err

record archive_codec =
  ar_refuses :: "string \<Rightarrow> err option"
  ar_pack :: "tar_entry list \<Rightarrow> string"
  ar_open :: "string \<Rightarrow> tar_item list result"
  mf_marshal :: "manifest \<Rightarrow> string"
  mf_unmarshal :: "manifest \<Rightarrow> string \<Rightarrow> manifest \<times> bool"

text \<open>
  Decoding JSON fills a structure that exists already: it gives the structure afterwards and
  whether it succeeded.
\<close>

definition zero_manifest :: manifest where
  "zero_manifest = \<lparr>mf_version = 0, mf_created_at = - 62135596800000000000, mf_database = False, mf_maildir = False,
     mf_dkim = False, mf_tls = False, mf_configs = False, mf_checksums = [], mf_encrypted = False,
     mf_total_files = 0, mf_archive_bytes = 0\<rparr>"

text \<open>Assignment to a key of a Go map.\<close>

definition map_put :: "'k \<Rightarrow> 'v \<Rightarrow> ('k \<times> 'v) list \<Rightarrow> ('k \<times> 'v) list" where
  "map_put k v m = (k, v) # filter (\<lambda>e. fst e \<noteq> k) m"

record tar_state =
  ts_manifest :: manifest
  ts_entries :: "tar_entry list"

definition add_file :: "archive_codec \<Rightarrow> digest \<Rightarrow> string \<Rightarrow> string \<Rightarrow> nat \<Rightarrow> tar_state \<Rightarrow> err option \<times> tar_state" where
  "add_file ar sha name content mode st =
     (let m = ts_manifest st;
          st1 = st\<lparr>ts_manifest := m\<lparr>mf_checksums := map_put name (hex_encode (sha content)) (mf_checksums m),
                     mf_total_files := mf_total_files m + 1\<rparr>\<rparr>
      in case ar_refuses ar name of
           Some err \<Rightarrow> (Some err, st1)
         | None \<Rightarrow> (None, st1\<lparr>ts_entries := ts_entries st1 @ [(name, mode, content)]\<rparr>))"

text \<open>
  \<open>filepath.Walk\<close>: directories and entries that cannot be read are passed over, a file that
  cannot be read ends the walk. The counter bounds the depth, as in the scan of a Maildir.
\<close>

definition tar_path :: "string \<Rightarrow> path \<Rightarrow> path \<Rightarrow> string" where
  "tar_path prefix base p = str_join ''/'' (prefix # drop (length base) p)"

fun tar_node :: "archive_codec \<Rightarrow> digest \<Rightarrow> string \<Rightarrow> path \<Rightarrow> nat \<Rightarrow> path \<Rightarrow> node \<Rightarrow> disk \<Rightarrow> tar_state \<Rightarrow>
       err option \<times> tar_state \<times> disk"
  and tar_list :: "archive_codec \<Rightarrow> digest \<Rightarrow> string \<Rightarrow> path \<Rightarrow> nat \<Rightarrow> path \<Rightarrow> string list \<Rightarrow> disk \<Rightarrow> tar_state \<Rightarrow>
       err option \<times> tar_state \<times> disk" where
  "tar_node ar sha prefix base n p (File m ow c t) k st =
     (case os_read_file p k of
        (Inl err, k1) \<Rightarrow> (Some err, st, k1)
      | (Inr content, k1) \<Rightarrow>
          (case add_file ar sha (tar_path prefix base p) content m st of (e, st1) \<Rightarrow> (e, st1, k1)))"
| "tar_node ar sha prefix base 0 p (Dir m ow) k st = (None, st, k)"
| "tar_node ar sha prefix base (Suc n) p (Dir m ow) k st =
     (case os_read_dir p k of
        (Inl err, k1) \<Rightarrow> (None, st, k1)
      | (Inr entries, k1) \<Rightarrow> tar_list ar sha prefix base n p (map fst entries) k1 st)"
| "tar_list ar sha prefix base n p [] k st = (None, st, k)"
| "tar_list ar sha prefix base n p (w # ws) k st =
     (case os_stat (p @ [w]) k of
        (Inl err, k1) \<Rightarrow> tar_list ar sha prefix base n p ws k1 st
      | (Inr nd, k1) \<Rightarrow>
          (case tar_node ar sha prefix base n (p @ [w]) nd k1 st of
             (Some err, st1, k2) \<Rightarrow> (Some err, st1, k2)
           | (None, st1, k2) \<Rightarrow> tar_list ar sha prefix base n p ws k2 st1))"

definition add_dir :: "archive_codec \<Rightarrow> digest \<Rightarrow> string \<Rightarrow> path \<Rightarrow> disk \<Rightarrow> tar_state \<Rightarrow> err option \<times> tar_state \<times> disk" where
  "add_dir ar sha prefix base k st =
     (case os_stat base k of
        (Inl err, k1) \<Rightarrow> (None, st, k1)
      | (Inr info, k1) \<Rightarrow>
          (case os_stat base k1 of
             (Inl err, k2) \<Rightarrow> (None, st, k2)
           | (Inr nd, k2) \<Rightarrow> tar_node ar sha prefix base (walk_depth k2) base nd k2 st))"

section \<open>Creating\<close>

record backup_config =
  bc_db :: bool
  bc_vmail :: "path option"
  bc_dkim :: "path option"
  bc_tls :: "path option"
  bc_configs :: "path option"
  bc_passphrase :: string
  bc_output :: "path option"

definition backup_tables :: "string list" where
  "backup_tables = [''domains'', ''mailboxes'', ''aliases'', ''domain_dkim'', ''domain_mail_policy'', ''mailbox_limits'',
     ''audit_logs'', ''message_events'']"

text \<open>\<open>rows\<close> gives the rows of a table as \<open>%v\<close> prints them; a table that cannot be read is left out.\<close>

fun export_tables :: "(string \<Rightarrow> db \<Rightarrow> string list) \<Rightarrow> string list \<Rightarrow> db \<Rightarrow> string \<times> db" where
  "export_tables rows [] db = ('''', db)"
| "export_tables rows (t # ts) db =
     (case sql_query (rows t) db of
        (Inl err, db1) \<Rightarrow> export_tables rows ts db1
      | (Inr rs, db1) \<Rightarrow>
          (case export_tables rows ts db1 of
             (s, db2) \<Rightarrow> (concat (map (\<lambda>r. ''-- Row for '' @ t @ '': '' @ r @ [CHR 0x0A]) rs) @ s, db2)))"

definition export_database :: "(string \<Rightarrow> db \<Rightarrow> string list) \<Rightarrow> string \<Rightarrow> db \<Rightarrow> string \<times> db" where
  "export_database rows stamp db =
     (case export_tables rows backup_tables db of
        (s, db1) \<Rightarrow> (''-- MailOpen Database Backup Dump'' @ [CHR 0x0A] @ ''-- Generated: '' @ stamp @
                      [CHR 0x0A, CHR 0x0A] @ s, db1))"

definition opt_dir ::
    "archive_codec \<Rightarrow> digest \<Rightarrow> string \<Rightarrow> (manifest \<Rightarrow> manifest) \<Rightarrow> path option \<Rightarrow> disk \<Rightarrow> tar_state \<Rightarrow> tar_state \<times> disk" where
  "opt_dir ar sha prefix flag base k st =
     (case base of
        None \<Rightarrow> (st, k)
      | Some p \<Rightarrow>
          (case add_dir ar sha prefix p k st of
             (None, st1, k1) \<Rightarrow> (st1\<lparr>ts_manifest := flag (ts_manifest st1)\<rparr>, k1)
           | (Some err, st1, k1) \<Rightarrow> (st1, k1)))"

text \<open>Steps 1 to 5: what goes into the archive before the manifest.\<close>

definition collect ::
    "archive_codec \<Rightarrow> digest \<Rightarrow> (string \<Rightarrow> db \<Rightarrow> string list) \<Rightarrow> instant \<Rightarrow> string \<Rightarrow> backup_config \<Rightarrow> db \<Rightarrow> disk \<Rightarrow>
       tar_state \<times> db \<times> disk" where
  "collect ar sha rows now stamp cfg db k =
     (let m = \<lparr>mf_version = 1, mf_created_at = now, mf_database = False, mf_maildir = False, mf_dkim = False,
               mf_tls = False, mf_configs = False, mf_checksums = [], mf_encrypted = (bc_passphrase cfg \<noteq> ''''),
               mf_total_files = 0, mf_archive_bytes = 0\<rparr>;
          st0 = \<lparr>ts_manifest = m, ts_entries = []\<rparr>;
          (st1, db1) = (if bc_db cfg
            then (case export_database rows stamp db of (dump, db1) \<Rightarrow>
              (case add_file ar sha ''postgres/dump.sql'' dump 384 st0 of (e, st) \<Rightarrow>
                (st\<lparr>ts_manifest := (ts_manifest st)\<lparr>mf_database := True\<rparr>\<rparr>, db1)))
            else (st0, db));
          (st2, k2) = opt_dir ar sha ''maildir'' (\<lambda>m. m\<lparr>mf_maildir := True\<rparr>) (bc_vmail cfg) k st1;
          (st3, k3) = opt_dir ar sha ''dkim'' (\<lambda>m. m\<lparr>mf_dkim := True\<rparr>) (bc_dkim cfg) k2 st2;
          (st4, k4) = opt_dir ar sha ''tls'' (\<lambda>m. m\<lparr>mf_tls := True\<rparr>) (bc_tls cfg) k3 st3;
          (st5, k5) = opt_dir ar sha ''configs'' (\<lambda>m. m\<lparr>mf_configs := True\<rparr>) (bc_configs cfg) k4 st4
      in (st5, db1, k5))"

definition create_backup ::
    "archive_codec \<Rightarrow> aead \<Rightarrow> kdf \<Rightarrow> digest \<Rightarrow> (string \<Rightarrow> db \<Rightarrow> string list) \<Rightarrow> string result \<Rightarrow> string result \<Rightarrow>
       path \<Rightarrow> instant \<Rightarrow> string \<Rightarrow> backup_config \<Rightarrow> db \<Rightarrow> disk \<Rightarrow> (manifest \<times> path) result \<times> db \<times> disk" where
  "create_backup ar ae kdf sha rows salt nonce cwd now stamp cfg db k =
     (case collect ar sha rows now stamp cfg db k of
        (st, db1, k1) \<Rightarrow>
     (case add_file ar sha ''manifest.json'' (mf_marshal ar (ts_manifest st)) 384 st of
        (e, st1) \<Rightarrow>
     (case encrypt_data ae kdf salt nonce (ar_pack ar (ts_entries st1)) (bc_passphrase cfg) of
        Inl err \<Rightarrow> (Inl (Wrap ''encrypt backup'' err), db1, k1)
      | Inr payload \<Rightarrow>
          let ext = (if bc_passphrase cfg \<noteq> '''' then ''.tar.gz.enc'' else ''.tar.gz'');
              out = (case bc_output cfg of Some p \<Rightarrow> p | None \<Rightarrow> path_join cwd [''mailopen-backup-'' @ stamp @ ext])
          in (case os_write_file out payload 384 k1 of
                (Inl err, k2) \<Rightarrow> (Inl (Wrap ''write backup file'' err), db1, k2)
              | (Inr u, k2) \<Rightarrow>
                  (Inr ((ts_manifest st1)\<lparr>mf_archive_bytes := int (length payload)\<rparr>, out), db1, k2)))))"

section \<open>Verifying\<close>

datatype backup_problem =
    Decryption_Failed err
  | Gzip_Failed err
  | Tar_Entry_Error err
  | Read_Failed string err
  | Manifest_Missing
  | File_Missing string
  | Checksum_Mismatch string string string

record verify_report =
  ve_valid :: bool
  ve_manifest :: manifest
  ve_errors :: "backup_problem list"
  ve_file_count :: nat

definition complain :: "backup_problem \<Rightarrow> verify_report \<Rightarrow> verify_report" where
  "complain p rep = rep\<lparr>ve_valid := False, ve_errors := ve_errors rep @ [p]\<rparr>"

text \<open>The state of the loop over the archive: the manifest, whether one was found, and the contents by name.\<close>

record read_state =
  rd_manifest :: manifest
  rd_found :: bool
  rd_files :: "(string \<times> string) list"

text \<open>The loop: its state, the report, and whether it ran to the end.\<close>

fun read_items :: "archive_codec \<Rightarrow> tar_item list \<Rightarrow> read_state \<Rightarrow> verify_report \<Rightarrow> read_state \<times> verify_report \<times> bool" where
  "read_items ar [] st rep = (st, rep, True)"
| "read_items ar (Tar_Broken err # is) st rep = (st, complain (Tar_Entry_Error err) rep, False)"
| "read_items ar (Tar_Entry name mode (Inl err) # is) st rep = read_items ar is st (complain (Read_Failed name err) rep)"
| "read_items ar (Tar_Entry name mode (Inr content) # is) st rep =
     (let st1 = st\<lparr>rd_files := map_put name content (rd_files st)\<rparr>;
          rep1 = rep\<lparr>ve_file_count := ve_file_count rep + 1\<rparr>
      in if name = ''manifest.json''
         then (case mf_unmarshal ar (rd_manifest st) content of
             (m, ok) \<Rightarrow>
               if ok then read_items ar is (st1\<lparr>rd_manifest := m, rd_found := True\<rparr>) (rep1\<lparr>ve_manifest := m\<rparr>)
               else read_items ar is (st1\<lparr>rd_manifest := m\<rparr>) rep1)
         else read_items ar is st1 rep1)"

definition check_sum :: "digest \<Rightarrow> (string \<times> string) list \<Rightarrow> string \<times> string \<Rightarrow> verify_report \<Rightarrow> verify_report" where
  "check_sum sha fs e rep =
     (if fst e = ''manifest.json'' then rep
      else (case map_of fs (fst e) of
          None \<Rightarrow> complain (File_Missing (fst e)) rep
        | Some content \<Rightarrow>
            let actual = hex_encode (sha content)
            in if actual \<noteq> snd e then complain (Checksum_Mismatch (fst e) (snd e) actual) rep else rep))"

text \<open>\<open>order\<close> is the order in which the range over the Go map meets the checksums.\<close>

definition verify_archive ::
    "archive_codec \<Rightarrow> digest \<Rightarrow> ((string \<times> string) list \<Rightarrow> (string \<times> string) list) \<Rightarrow> string result \<Rightarrow> verify_report" where
  "verify_archive ar sha order decrypted =
     (let rep = \<lparr>ve_valid = True, ve_manifest = zero_manifest, ve_errors = [], ve_file_count = 0\<rparr>
      in case decrypted of
           Inl err \<Rightarrow> complain (Decryption_Failed err) rep
         | Inr data \<Rightarrow>
      (case ar_open ar data of
         Inl err \<Rightarrow> complain (Gzip_Failed err) rep
       | Inr items \<Rightarrow>
      (case read_items ar items \<lparr>rd_manifest = zero_manifest, rd_found = False, rd_files = []\<rparr> rep of
         (st, rep1, to_end) \<Rightarrow>
           if \<not> to_end then rep1
           else if \<not> rd_found st then complain Manifest_Missing rep1
           else fold (check_sum sha (rd_files st)) (order (mf_checksums (rd_manifest st))) rep1)))"

definition verify_backup ::
    "archive_codec \<Rightarrow> aead \<Rightarrow> kdf \<Rightarrow> digest \<Rightarrow> ((string \<times> string) list \<Rightarrow> (string \<times> string) list) \<Rightarrow> path \<Rightarrow> string \<Rightarrow>
       disk \<Rightarrow> verify_report result \<times> disk" where
  "verify_backup ar ae kdf sha order p pass k =
     (case os_read_file p k of
        (Inl err, k1) \<Rightarrow> (Inl (Wrap ''read archive'' err), k1)
      | (Inr raw, k1) \<Rightarrow> (Inr (verify_archive ar sha order (decrypt_data ae kdf raw pass)), k1))"

section \<open>Restoring\<close>

datatype restore_problem =
    Mkdir_Failed path err
  | Content_Failed string err
  | Write_Failed path err

record restore_result =
  rs_restored :: nat
  rs_errors :: "restore_problem list"

definition note_problem :: "restore_problem \<Rightarrow> restore_result \<Rightarrow> restore_result" where
  "note_problem p res = res\<lparr>rs_errors := rs_errors res @ [p]\<rparr>"

fun restore_items :: "path \<Rightarrow> tar_item list \<Rightarrow> restore_result \<Rightarrow> disk \<Rightarrow> restore_result result \<times> disk" where
  "restore_items target [] res k = (Inr res, k)"
| "restore_items target (Tar_Broken err # is) res k = (Inl err, k)"
| "restore_items target (Tar_Entry name mode content # is) res k =
     (let p = path_join target [name]; parent = path_dir p
      in case os_mkdir_all 488 parent k of
           (Inl err, k1) \<Rightarrow> restore_items target is (note_problem (Mkdir_Failed parent err) res) k1
         | (Inr u, k1) \<Rightarrow>
             (case content of
                Inl err \<Rightarrow> restore_items target is (note_problem (Content_Failed name err) res) k1
              | Inr c \<Rightarrow>
                  (case os_write_file p c (if mode = 0 then 384 else mode) k1 of
                     (Inl err, k2) \<Rightarrow> restore_items target is (note_problem (Write_Failed p err) res) k2
                   | (Inr u, k2) \<Rightarrow> restore_items target is (res\<lparr>rs_restored := rs_restored res + 1\<rparr>) k2)))"

definition restore_backup ::
    "archive_codec \<Rightarrow> aead \<Rightarrow> kdf \<Rightarrow> digest \<Rightarrow> ((string \<times> string) list \<Rightarrow> (string \<times> string) list) \<Rightarrow> path \<Rightarrow> string \<Rightarrow>
       path \<Rightarrow> disk \<Rightarrow> restore_result result \<times> disk" where
  "restore_backup ar ae kdf sha order p pass target k =
     (case verify_backup ar ae kdf sha order p pass k of
        (Inl err, k1) \<Rightarrow> (Inl (Wrap ''pre-restore verification failed'' err), k1)
      | (Inr rep, k1) \<Rightarrow>
          if \<not> ve_valid rep then (Inl (Msg ''archive validation errors''), k1)
          else (case os_read_file p k1 of
              (Inl err, k2) \<Rightarrow> (Inl err, k2)
            | (Inr raw, k2) \<Rightarrow>
                (case decrypt_data ae kdf raw pass of
                   Inl err \<Rightarrow> (Inl err, k2)
                 | Inr data \<Rightarrow>
                     (case ar_open ar data of
                        Inl err \<Rightarrow> (Inl err, k2)
                      | Inr items \<Rightarrow> restore_items target items \<lparr>rs_restored = 0, rs_errors = []\<rparr> k2))))"

section \<open>Facts\<close>

lemma decrypt_encrypt:
  assumes "encrypt_data ae kdf salt nonce pt pass = Inr data"
    and "\<And>s. salt = Inr s \<Longrightarrow> length s = salt_len" and "\<And>n. nonce = Inr n \<Longrightarrow> length n = nonce_len"
    and "\<And>key n pt. ae_open ae key n (ae_seal ae key n pt) = Inr pt"
  shows "decrypt_data ae kdf data pass = Inr pt"
proof (cases "pass = ''''")
  case True
  with assms(1) show ?thesis by (simp add: encrypt_data_def decrypt_data_def)
next
  case False
  with assms(1) obtain s n key where d: "salt = Inr s" "nonce = Inr n" "kdf pass s 1 (64 * 1024) 4 32 = Inr key"
    "data = s @ n @ ae_seal ae key n pt"
    by (auto simp: encrypt_data_def split: sum.splits)
  with assms(2,3) have "length s = salt_len" "length n = nonce_len" by auto
  then show ?thesis using False d(3) assms(4) by (simp add: decrypt_data_def d(4) Let_def)
qed

lemma map_of_put [simp]: "map_of (map_put a v m) b = (if b = a then Some v else map_of m b)"
  by (induction m) (auto simp: map_put_def)

lemma distinct_put: "distinct (map fst m) \<Longrightarrow> distinct (map fst (map_put a v m))"
  by (auto simp: map_put_def distinct_map inj_on_def)

text \<open>The contents of a list of entries by name: the last entry of a name counts.\<close>

definition entry_item :: "tar_entry \<Rightarrow> tar_item" where
  "entry_item e = Tar_Entry (fst e) (fst (snd e)) (Inr (snd (snd e)))"

definition put_entry :: "tar_entry \<Rightarrow> (string \<times> string) list \<Rightarrow> (string \<times> string) list" where
  "put_entry e fs = map_put (fst e) (snd (snd e)) fs"

text \<open>The manifest lists exactly the entries, with the digest of what the last of each name holds.\<close>

definition sums_match :: "digest \<Rightarrow> tar_state \<Rightarrow> bool" where
  "sums_match sha st \<longleftrightarrow> distinct (map fst (mf_checksums (ts_manifest st))) \<and>
     (\<forall>n. map_of (mf_checksums (ts_manifest st)) n =
        map_option (\<lambda>c. hex_encode (sha c)) (map_of (fold put_entry (ts_entries st) []) n)) \<and>
     (\<forall>e\<in>set (ts_entries st). fst e \<noteq> ''manifest.json'')"

lemma sums_match_add:
  assumes "sums_match sha st" and "add_file ar sha name c m st = (e, st')" and "ar_refuses ar name = None"
    and "name \<noteq> ''manifest.json''"
  shows "sums_match sha st'"
  using assms by (auto simp: sums_match_def add_file_def Let_def put_entry_def distinct_put)

lemma sums_match_flag:
  "(\<And>m. mf_checksums (f m) = mf_checksums m) \<Longrightarrow> sums_match sha (st\<lparr>ts_manifest := f (ts_manifest st)\<rparr>) = sums_match sha st"
  by (simp add: sums_match_def)

lemma tar_path_prefix: "has_prefix (tar_path prefix base p) prefix"
  by (simp add: tar_path_def str_join_has_prefix)

text \<open>What every addition keeps, the walk keeps.\<close>

lemma tar_walk_inv:
  "(\<And>name c m st. has_prefix name prefix \<Longrightarrow> P st \<Longrightarrow> P (snd (add_file ar sha name c m st))) \<Longrightarrow> P st \<Longrightarrow>
     P (fst (snd (tar_node ar sha prefix base n p nd k st)))"
  "(\<And>name c m st. has_prefix name prefix \<Longrightarrow> P st \<Longrightarrow> P (snd (add_file ar sha name c m st))) \<Longrightarrow> P st \<Longrightarrow>
     P (fst (snd (tar_list ar sha prefix base n p ws k st)))"
proof (induction ar sha prefix base n p nd k st and ar sha prefix base n p ws k st rule: tar_node_tar_list.induct)
  case (1 ar sha prefix base n p m ow c t k st)
  then show ?case using tar_path_prefix [of prefix base p] by (auto split: prod.splits sum.splits) (metis snd_conv)
next
  case (5 ar sha prefix base n p w ws k st)
  obtain r k1 where 1: "os_stat (p @ [w]) k = (r, k1)" by fastforce
  show ?case
  proof (cases r)
    case (Inl err)
    with 5 1 show ?thesis by simp
  next
    case (Inr nd)
    obtain e st1 k2 where 2: "tar_node ar sha prefix base n (p @ [w]) nd k1 st = (e, st1, k2)" by (metis prod_cases3)
    have "P st1" using "5.IH"(2) [OF 1 [symmetric] Inr "5.prems"] 2 by simp
    with 5 1 2 Inr show ?thesis by (cases e) simp_all
  qed
qed (auto split: prod.splits sum.splits)

lemma sums_match_dir:
  assumes "\<And>n. ar_refuses ar n = None" and "\<not> has_prefix ''manifest.json'' prefix" and "sums_match sha st"
    and "\<And>m. mf_checksums (flag m) = mf_checksums m"
  shows "sums_match sha (fst (opt_dir ar sha prefix flag base k st))"
proof -
  have add: "sums_match sha (snd (add_file ar sha name c m st'))" if "has_prefix name prefix" "sums_match sha st'" for name c m st'
    using sums_match_add [OF that(2) _ assms(1)] assms(2) that(1) by (metis surj_pair snd_conv)
  have "sums_match sha (fst (snd (add_dir ar sha prefix p k st)))" for p
    using tar_walk_inv(1) [of prefix "sums_match sha" ar sha, OF add] assms(3)
    by (auto simp: add_dir_def split: prod.splits sum.splits)
  then show ?thesis
    using assms(3,4) by (auto simp: opt_dir_def sums_match_flag split: option.splits prod.splits) (metis fst_conv snd_conv)+
qed

lemma collect_sums:
  assumes "\<And>n. ar_refuses ar n = None" and "collect ar sha rows now stamp cfg db k = (st, db', k')"
  shows "sums_match sha st"
proof -
  let ?st0 = "\<lparr>ts_manifest = \<lparr>mf_version = 1, mf_created_at = now, mf_database = False, mf_maildir = False,
     mf_dkim = False, mf_tls = False, mf_configs = False, mf_checksums = [], mf_encrypted = (bc_passphrase cfg \<noteq> ''''),
     mf_total_files = 0, mf_archive_bytes = 0\<rparr>, ts_entries = []\<rparr>"
  have 0: "sums_match sha ?st0" by (simp add: sums_match_def)
  define first where "first = (if bc_db cfg
            then (case export_database rows stamp db of (dump, db1) \<Rightarrow>
              (case add_file ar sha ''postgres/dump.sql'' dump 384 ?st0 of (e, st) \<Rightarrow>
                (st\<lparr>ts_manifest := (ts_manifest st)\<lparr>mf_database := True\<rparr>\<rparr>, db1)))
            else (?st0, db))"
  have 1: "sums_match sha (fst first)"
  proof (cases "bc_db cfg")
    case True
    obtain dump db1 where d: "export_database rows stamp db = (dump, db1)" by fastforce
    obtain e st1 where a: "add_file ar sha ''postgres/dump.sql'' dump 384 ?st0 = (e, st1)" by fastforce
    have "sums_match sha st1" by (rule sums_match_add [OF 0 a assms(1)]) simp
    then show ?thesis using True d a by (simp add: first_def sums_match_flag [of "\<lambda>m. m\<lparr>mf_database := True\<rparr>"])
  next
    case False
    with 0 show ?thesis by (simp add: first_def)
  qed
  have np: "\<not> has_prefix ''manifest.json'' ''maildir''" "\<not> has_prefix ''manifest.json'' ''dkim''"
    "\<not> has_prefix ''manifest.json'' ''tls''" "\<not> has_prefix ''manifest.json'' ''configs''"
    by (simp_all add: has_prefix_def)
  obtain st1 db1 where f: "first = (st1, db1)" by fastforce
  obtain st2 k2 where 2: "opt_dir ar sha ''maildir'' (\<lambda>m. m\<lparr>mf_maildir := True\<rparr>) (bc_vmail cfg) k st1 = (st2, k2)" by fastforce
  obtain st3 k3 where 3: "opt_dir ar sha ''dkim'' (\<lambda>m. m\<lparr>mf_dkim := True\<rparr>) (bc_dkim cfg) k2 st2 = (st3, k3)" by fastforce
  obtain st4 k4 where 4: "opt_dir ar sha ''tls'' (\<lambda>m. m\<lparr>mf_tls := True\<rparr>) (bc_tls cfg) k3 st3 = (st4, k4)" by fastforce
  obtain st5 k5 where 5: "opt_dir ar sha ''configs'' (\<lambda>m. m\<lparr>mf_configs := True\<rparr>) (bc_configs cfg) k4 st4 = (st5, k5)" by fastforce
  have "sums_match sha st1" using 1 f by simp
  then have "sums_match sha st2" using sums_match_dir [OF assms(1) np(1), of sha st1 "\<lambda>m. m\<lparr>mf_maildir := True\<rparr>" "bc_vmail cfg" k] 2 by simp
  then have "sums_match sha st3" using sums_match_dir [OF assms(1) np(2), of sha st2 "\<lambda>m. m\<lparr>mf_dkim := True\<rparr>" "bc_dkim cfg" k2] 3 by simp
  then have "sums_match sha st4" using sums_match_dir [OF assms(1) np(3), of sha st3 "\<lambda>m. m\<lparr>mf_tls := True\<rparr>" "bc_tls cfg" k3] 4 by simp
  then have s5: "sums_match sha st5" using sums_match_dir [OF assms(1) np(4), of sha st4 "\<lambda>m. m\<lparr>mf_configs := True\<rparr>" "bc_configs cfg" k4] 5 by simp
  have "st = st5"
    using assms(2) 2 3 4 5 f unfolding collect_def Let_def first_def [symmetric] by simp
  with s5 show ?thesis by simp
qed

text \<open>Reading back what was packed.\<close>

lemma read_entries:
  "\<forall>e\<in>set es. fst e \<noteq> ''manifest.json'' \<Longrightarrow>
   read_items ar (map entry_item es @ is) st rep =
     read_items ar is (st\<lparr>rd_files := fold put_entry es (rd_files st)\<rparr>)
       (rep\<lparr>ve_file_count := ve_file_count rep + length es\<rparr>)"
proof (induction es arbitrary: st rep)
  case (Cons e es)
  then show ?case by (simp add: entry_item_def put_entry_def)
qed simp

lemma check_sums_ok:
  "(\<And>e. e \<in> set cs \<Longrightarrow> fst e = ''manifest.json'' \<or> (\<exists>c. map_of fs (fst e) = Some c \<and> hex_encode (sha c) = snd e)) \<Longrightarrow>
   fold (check_sum sha fs) cs rep = rep"
proof (induction cs)
  case (Cons e cs)
  then have "fst e = ''manifest.json'' \<or> (\<exists>c. map_of fs (fst e) = Some c \<and> hex_encode (sha c) = snd e)" by simp
  then have "check_sum sha fs e rep = rep" by (auto simp: check_sum_def)
  with Cons show ?case by simp
qed simp

text \<open>An archive that was made as \<open>CreateBackup\<close> makes it is valid.\<close>

lemma made_archive_valid:
  assumes "sums_match sha st" and "mf_unmarshal ar zero_manifest js = (ts_manifest st, True)"
    and "ar_open ar data = Inr (map entry_item (ts_entries st @ [(''manifest.json'', 384, js)]))"
    and "\<And>cs. set (order cs) = set cs"
  shows "verify_archive ar sha order (Inr data) =
    \<lparr>ve_valid = True, ve_manifest = ts_manifest st, ve_errors = [], ve_file_count = length (ts_entries st) + 1\<rparr>"
proof -
  let ?fs = "map_put ''manifest.json'' js (fold put_entry (ts_entries st) [])"
  have nm: "\<forall>e\<in>set (ts_entries st). fst e \<noteq> ''manifest.json''" using assms(1) by (simp add: sums_match_def)
  have sums: "fst e = ''manifest.json'' \<or> (\<exists>c. map_of ?fs (fst e) = Some c \<and> hex_encode (sha c) = snd e)"
    if "e \<in> set (order (mf_checksums (ts_manifest st)))" for e
  proof -
    have "e \<in> set (mf_checksums (ts_manifest st))" using that assms(4) by simp
    then have "map_of (mf_checksums (ts_manifest st)) (fst e) = Some (snd e)"
      using assms(1) map_of_is_SomeI [of "mf_checksums (ts_manifest st)" "fst e" "snd e"] by (simp add: sums_match_def)
    then have "\<exists>c. map_of (fold put_entry (ts_entries st) []) (fst e) = Some c \<and> hex_encode (sha c) = snd e"
      using assms(1) by (auto simp: sums_match_def)
    then show ?thesis by auto
  qed
  note all = check_sums_ok [of "order (mf_checksums (ts_manifest st))" ?fs sha, OF sums]
  show ?thesis
    unfolding verify_archive_def Let_def
    by (simp add: assms(3) read_entries [OF nm] entry_item_def assms(2) all)
qed

text \<open>What restoring writes, when it reports no problem: every entry at its path, the last of a path counts.\<close>

definition restored_at :: "path \<Rightarrow> tar_entry \<Rightarrow> path \<times> string" where
  "restored_at target e = (path_join target [fst e], snd (snd e))"

lemma restore_entry:
  "restore_items target (entry_item e # is) res k =
     (let p = path_join target [fst e]; parent = path_dir p
      in case os_mkdir_all 488 parent k of
           (Inl err, k1) \<Rightarrow> restore_items target is (note_problem (Mkdir_Failed parent err) res) k1
         | (Inr u, k1) \<Rightarrow>
             (case os_write_file p (snd (snd e)) (if fst (snd e) = 0 then 384 else fst (snd e)) k1 of
                (Inl err, k2) \<Rightarrow> restore_items target is (note_problem (Write_Failed p err) res) k2
              | (Inr u, k2) \<Rightarrow> restore_items target is (res\<lparr>rs_restored := rs_restored res + 1\<rparr>) k2))"
  by (simp only: entry_item_def restore_items.simps Let_def sum.case)

lemma restore_items_bytes:
  "restore_items target (map entry_item es) res k = (r, k') \<Longrightarrow>
   \<exists>res' ys. r = Inr res' \<and> rs_errors res' = rs_errors res @ ys \<and>
     (ys = [] \<longrightarrow> fbytes k' = fbytes k ++ map_of (rev (map (restored_at target) es)))"
proof (induction es arbitrary: res k)
  case Nil
  then show ?case by auto
next
  case (Cons e es)
  let ?p = "path_join target [fst e]" and ?c = "snd (snd e)"
  obtain r1 k1 where 1: "os_mkdir_all 488 (path_dir ?p) k = (r1, k1)" by fastforce
  obtain r2 k2 where 2: "os_write_file ?p ?c (if fst (snd e) = 0 then 384 else fst (snd e)) k1 = (r2, k2)" by fastforce
  have problem: ?case if "restore_items target (map entry_item es) (note_problem pb res) k0 = (r, k')" for pb k0
    using Cons.IH [OF that] by (auto simp: note_problem_def)
  show ?case
  proof (cases r1)
    case (Inl err)
    with Cons.prems 1 problem show ?thesis by (simp add: restore_entry Let_def)
  next
    case r1: (Inr u)
    show ?thesis
    proof (cases r2)
      case (Inl err)
      with Cons.prems 1 2 r1 problem show ?thesis by (simp add: restore_entry Let_def)
    next
      case (Inr v)
      with Cons.prems 1 2 r1
      have rest: "restore_items target (map entry_item es) (res\<lparr>rs_restored := rs_restored res + 1\<rparr>) k2 = (r, k')"
        by (simp add: restore_entry Let_def)
      have "fbytes k2 = (fbytes k)(?p \<mapsto> ?c)"
        using fbytes_mkdir_all [OF 1] fbytes_write_file [OF 2] Inr by simp
      then have "fbytes k2 ++ map_of (rev (map (restored_at target) es)) =
          fbytes k ++ map_of (rev (map (restored_at target) (e # es)))"
        by (simp add: restored_at_def map_add_upd_left map_add_assoc [symmetric] flip: map_add_assoc)
          (simp add: fun_eq_iff map_add_def split: option.splits)
      then show ?thesis using Cons.IH [OF rest] by auto
    qed
  qed
qed

text \<open>On a working disk the walk archives exactly the files below the directory.\<close>

definition tree_files :: "fs \<Rightarrow> path \<Rightarrow> path set" where
  "tree_files t p = {q. below p q \<and> is_file t q}"

definition file_entry :: "fs \<Rightarrow> string \<Rightarrow> path \<Rightarrow> path \<Rightarrow> tar_entry" where
  "file_entry t prefix base q =
     (tar_path prefix base q, mode_of (the (fs_stat t q)), bytes_of (the (fs_stat t q)))"

lemma tree_files_file:
  assumes "fs_tree t" and "p \<noteq> []" and "fs_stat t p = Some (File m ow c tm)"
  shows "tree_files t p = {p}"
proof -
  have "q = p" if q: "q \<in> tree_files t p" for q
  proof -
    from q obtain r where r: "q = p @ r" "fs_stat t (p @ r) \<noteq> None"
      by (force simp: tree_files_def below_iff is_file_def split: option.splits)
    show ?thesis
    proof (cases "r = []")
      case False
      from tree_prefix [OF assms(1,2) this r(2)] assms(3) show ?thesis by (simp add: is_dir_def)
    qed (use r in simp)
  qed
  moreover have "p \<in> tree_files t p" using assms(3) by (simp add: tree_files_def is_file_def)
  ultimately show ?thesis by auto
qed

lemma tree_files_dir:
  assumes "fs_tree t" and "fs_stat t p = Some (Dir m ow)"
  shows "tree_files t p = (\<Union>w\<in>fst ` set (fs_entries t p). tree_files t (p @ [w]))"
proof (intro set_eqI iffI)
  fix q assume "q \<in> tree_files t p"
  then have q: "is_file t q" and "below p q" by (auto simp: tree_files_def)
  then obtain r0 where r0: "q = p @ r0" by (auto simp: below_iff)
  have "r0 \<noteq> []" using q assms(2) r0 by (auto simp: is_file_def)
  with r0 obtain w r where r: "q = p @ w # r" by (cases r0) auto
  have stat: "fs_stat t q \<noteq> None" using q by (auto simp: is_file_def split: option.splits)
  have "fs_stat t (p @ [w]) \<noteq> None"
  proof (cases "r = []")
    case True
    then show ?thesis using stat r by simp
  next
    case False
    have "fs_stat t ((p @ [w]) @ r) \<noteq> None" using stat r by simp
    from tree_prefix [OF assms(1) _ False this] show ?thesis by (auto simp: is_dir_def split: option.splits)
  qed
  then obtain n where "(w, n) \<in> set (fs_entries t p)"
    using assms(1) by (auto simp: fs_tree_def fs_entries_iff)
  moreover have "q \<in> tree_files t (p @ [w])" using q r by (auto simp: tree_files_def below_iff)
  ultimately show "q \<in> (\<Union>w\<in>fst ` set (fs_entries t p). tree_files t (p @ [w]))" by force
next
  fix q assume "q \<in> (\<Union>w\<in>fst ` set (fs_entries t p). tree_files t (p @ [w]))"
  then show "q \<in> tree_files t p" by (auto simp: tree_files_def below_iff)
qed

lemma add_file_entry:
  "ar_refuses ar name = None \<Longrightarrow> \<exists>st'. add_file ar sha name c m st = (None, st') \<and> ts_entries st' = ts_entries st @ [(name, m, c)]"
  by (simp add: add_file_def Let_def)

lemma tar_walk_spec:
  "fs_tree (files k) \<Longrightarrow> disk_faults k = [] \<Longrightarrow> \<forall>n. ar_refuses ar n = None \<Longrightarrow> p \<noteq> [] \<Longrightarrow> fs_stat (files k) p = Some nd \<Longrightarrow>
     \<forall>q\<in>fst ` set (files k). length q < length p + n \<Longrightarrow>
     \<exists>st' es. tar_node ar sha prefix base n p nd k st = (None, st', k) \<and> ts_entries st' = ts_entries st @ es \<and>
       set es = file_entry (files k) prefix base ` tree_files (files k) p"
  "fs_tree (files k) \<Longrightarrow> disk_faults k = [] \<Longrightarrow> \<forall>n. ar_refuses ar n = None \<Longrightarrow>
     \<forall>w\<in>set ws. fs_stat (files k) (p @ [w]) \<noteq> None \<Longrightarrow>
     \<forall>q\<in>fst ` set (files k). length q < length p + 1 + n \<Longrightarrow>
     \<exists>st' es. tar_list ar sha prefix base n p ws k st = (None, st', k) \<and> ts_entries st' = ts_entries st @ es \<and>
       set es = file_entry (files k) prefix base ` (\<Union>w\<in>set ws. tree_files (files k) (p @ [w]))"
proof (induction ar sha prefix base n p nd k st and ar sha prefix base n p ws k st rule: tar_node_tar_list.induct)
  case (1 ar sha prefix base n p m ow c t k st)
  obtain st' where st': "add_file ar sha (tar_path prefix base p) c m st = (None, st')"
    "ts_entries st' = ts_entries st @ [(tar_path prefix base p, m, c)]"
    using add_file_entry 1(3) by blast
  have "os_read_file p k = (Inr c, k)" using 1 by (simp add: os_simps)
  with st' show ?case using 1 by (simp add: tree_files_file file_entry_def)
next
  case (2 ar sha prefix base p m ow k st)
  then have "p \<in> fst ` set (files k)" using stat_in_table [of "files k" p] by simp
  with 2 show ?case by auto
next
  case (3 ar sha prefix base n p m ow k st)
  have es: "os_read_dir p k = (Inr (fs_entries (files k) p), k)" using 3 by (simp add: os_simps)
  have "\<forall>w\<in>set (map fst (fs_entries (files k) p)). fs_stat (files k) (p @ [w]) \<noteq> None"
    using 3 by (auto simp: fs_tree_def fs_entries_iff)
  then show ?case using 3 es tree_files_dir [of "files k" p m ow] by simp
next
  case (4 ar sha prefix base n p k st)
  then show ?case by simp
next
  case (5 ar sha prefix base n p w ws k st)
  then obtain nd where nd: "fs_stat (files k) (p @ [w]) = Some nd" by auto
  have st: "os_stat (p @ [w]) k = (Inr nd, k)" using 5 nd by (simp add: os_simps)
  have "\<exists>st' es. tar_node ar sha prefix base n (p @ [w]) nd k st = (None, st', k) \<and> ts_entries st' = ts_entries st @ es \<and>
       set es = file_entry (files k) prefix base ` tree_files (files k) (p @ [w])"
    using "5.IH"(2) [OF st [symmetric] refl] 5(4-) nd by simp
  then obtain st1 es1 where 1: "tar_node ar sha prefix base n (p @ [w]) nd k st = (None, st1, k)"
    "ts_entries st1 = ts_entries st @ es1" "set es1 = file_entry (files k) prefix base ` tree_files (files k) (p @ [w])" by blast
  have "\<exists>st' es. tar_list ar sha prefix base n p ws k st1 = (None, st', k) \<and> ts_entries st' = ts_entries st1 @ es \<and>
       set es = file_entry (files k) prefix base ` (\<Union>w\<in>set ws. tree_files (files k) (p @ [w]))"
    using "5.IH"(3) [OF st [symmetric] refl 1(1) [symmetric] refl refl] 5(4-) by simp
  then obtain st2 es2 where 2: "tar_list ar sha prefix base n p ws k st1 = (None, st2, k)"
    "ts_entries st2 = ts_entries st1 @ es2"
    "set es2 = file_entry (files k) prefix base ` (\<Union>w\<in>set ws. tree_files (files k) (p @ [w]))" by blast
  show ?case
    using st 1 2 by (intro exI [of _ st2] exI [of _ "es1 @ es2"]) (simp add: image_Un)
qed

lemma opt_dir_spec:
  assumes "fs_tree (files k)" and "disk_faults k = []" and "\<forall>n. ar_refuses ar n = None" and "\<And>p. base = Some p \<Longrightarrow> p \<noteq> []"
  obtains st' es where "opt_dir ar sha prefix flag base k st = (st', k)" and "ts_entries st' = ts_entries st @ es"
    and "set es = {file_entry (files k) prefix p q | p q. base = Some p \<and> q \<in> tree_files (files k) p}"
proof (cases base)
  case None
  then show thesis using that [of st "[]"] by (simp add: opt_dir_def)
next
  case (Some p)
  then have p: "p \<noteq> []" using assms(4) by simp
  have stat: "os_stat p k = ((case fs_stat (files k) p of None \<Rightarrow> Inl err_not_exist | Some n \<Rightarrow> Inr n), k)"
    using assms(2) by (simp add: os_simps split: option.splits)
  show thesis
  proof (cases "fs_stat (files k) p")
    case None
    have "q \<notin> tree_files (files k) p" for q
    proof
      assume "q \<in> tree_files (files k) p"
      then obtain r where r: "q = p @ r" "fs_stat (files k) (p @ r) \<noteq> None"
        by (auto simp: tree_files_def below_iff is_file_def split: option.splits)
      with None have "r \<noteq> []" by auto
      from tree_prefix [OF assms(1) p this r(2)] None show False by (simp add: is_dir_def)
    qed
    then show thesis
      using that [of "st\<lparr>ts_manifest := flag (ts_manifest st)\<rparr>" "[]"] Some None stat
      by (simp add: opt_dir_def add_dir_def)
  next
    case (Some nd)
    from tar_walk_spec(1) [OF assms(1-3) p Some walk_depth_enough, of sha prefix p st]
    obtain st' es where w: "tar_node ar sha prefix p (walk_depth k) p nd k st = (None, st', k)"
      "ts_entries st' = ts_entries st @ es" "set es = file_entry (files k) prefix p ` tree_files (files k) p" by blast
    show thesis
      using that [of "st'\<lparr>ts_manifest := flag (ts_manifest st')\<rparr>" es] \<open>base = Some p\<close> Some stat w
      by (auto simp: opt_dir_def add_dir_def)
  qed
qed

definition backup_dirs :: "backup_config \<Rightarrow> (string \<times> path option) list" where
  "backup_dirs cfg = [(''maildir'', bc_vmail cfg), (''dkim'', bc_dkim cfg), (''tls'', bc_tls cfg), (''configs'', bc_configs cfg)]"

lemma pairs_union:
  "{F pre p q | pre p q. (pre, Some p) \<in> set ((a, x) # ds) \<and> q \<in> T p} =
     {F a p q | p q. x = Some p \<and> q \<in> T p} \<union> {F pre p q | pre p q. (pre, Some p) \<in> set ds \<and> q \<in> T p}"
  "{F pre p q | pre p q. (pre, Some p) \<in> set [] \<and> q \<in> T p} = {}"
  by (rule set_eqI, simp, blast) simp

lemma collect_entries:
  assumes "fs_tree (files k)" and "disk_faults k = []" and "\<forall>n. ar_refuses ar n = None"
    and "\<forall>(prefix, b)\<in>set (backup_dirs cfg). b \<noteq> Some []"
    and "collect ar sha rows now stamp cfg db k = (st, db', k')"
  shows "k' = k"
    and "\<exists>dump. set (ts_entries st) = (if bc_db cfg then {(''postgres/dump.sql'', 384, dump)} else {}) \<union>
      {file_entry (files k) prefix p q | prefix p q. (prefix, Some p) \<in> set (backup_dirs cfg) \<and> q \<in> tree_files (files k) p}"
proof -
  have ne: "\<And>p. bc_vmail cfg = Some p \<Longrightarrow> p \<noteq> []" "\<And>p. bc_dkim cfg = Some p \<Longrightarrow> p \<noteq> []"
    "\<And>p. bc_tls cfg = Some p \<Longrightarrow> p \<noteq> []" "\<And>p. bc_configs cfg = Some p \<Longrightarrow> p \<noteq> []"
    using assms(4) by (auto simp: backup_dirs_def)
  define st0 where "st0 = \<lparr>ts_manifest = \<lparr>mf_version = 1, mf_created_at = now, mf_database = False, mf_maildir = False,
     mf_dkim = False, mf_tls = False, mf_configs = False, mf_checksums = [], mf_encrypted = (bc_passphrase cfg \<noteq> ''''),
     mf_total_files = 0, mf_archive_bytes = 0\<rparr>, ts_entries = []\<rparr>"
  define first where "first = (if bc_db cfg
            then (case export_database rows stamp db of (dump, db1) \<Rightarrow>
              (case add_file ar sha ''postgres/dump.sql'' dump 384 st0 of (e, st) \<Rightarrow>
                (st\<lparr>ts_manifest := (ts_manifest st)\<lparr>mf_database := True\<rparr>\<rparr>, db1)))
            else (st0, db))"
  obtain st1 db1 where f: "first = (st1, db1)" by fastforce
  have 1: "\<exists>dump. set (ts_entries st1) = (if bc_db cfg then {(''postgres/dump.sql'', 384, dump)} else {})"
    using f assms(3) by (auto simp: first_def st0_def add_file_def Let_def split: if_splits prod.splits)
  obtain st2 e2 where 2: "opt_dir ar sha ''maildir'' (\<lambda>m. m\<lparr>mf_maildir := True\<rparr>) (bc_vmail cfg) k st1 = (st2, k)"
    "ts_entries st2 = ts_entries st1 @ e2"
    "set e2 = {file_entry (files k) ''maildir'' p q | p q. bc_vmail cfg = Some p \<and> q \<in> tree_files (files k) p}"
    by (rule opt_dir_spec [OF assms(1-3) ne(1)])
  obtain st3 e3 where 3: "opt_dir ar sha ''dkim'' (\<lambda>m. m\<lparr>mf_dkim := True\<rparr>) (bc_dkim cfg) k st2 = (st3, k)"
    "ts_entries st3 = ts_entries st2 @ e3"
    "set e3 = {file_entry (files k) ''dkim'' p q | p q. bc_dkim cfg = Some p \<and> q \<in> tree_files (files k) p}"
    by (rule opt_dir_spec [OF assms(1-3) ne(2)])
  obtain st4 e4 where 4: "opt_dir ar sha ''tls'' (\<lambda>m. m\<lparr>mf_tls := True\<rparr>) (bc_tls cfg) k st3 = (st4, k)"
    "ts_entries st4 = ts_entries st3 @ e4"
    "set e4 = {file_entry (files k) ''tls'' p q | p q. bc_tls cfg = Some p \<and> q \<in> tree_files (files k) p}"
    by (rule opt_dir_spec [OF assms(1-3) ne(3)])
  obtain st5 e5 where 5: "opt_dir ar sha ''configs'' (\<lambda>m. m\<lparr>mf_configs := True\<rparr>) (bc_configs cfg) k st4 = (st5, k)"
    "ts_entries st5 = ts_entries st4 @ e5"
    "set e5 = {file_entry (files k) ''configs'' p q | p q. bc_configs cfg = Some p \<and> q \<in> tree_files (files k) p}"
    by (rule opt_dir_spec [OF assms(1-3) ne(4)])
  have r: "st = st5 \<and> k' = k"
    using assms(5) 2(1) 3(1) 4(1) 5(1) f
    unfolding collect_def Let_def st0_def [symmetric] first_def [symmetric] by simp
  then show "k' = k" by blast
  from 1 obtain dump where dump: "set (ts_entries st1) = (if bc_db cfg then {(''postgres/dump.sql'', 384, dump)} else {})" by blast
  have "set (ts_entries st) = set (ts_entries st1) \<union> set e2 \<union> set e3 \<union> set e4 \<union> set e5"
    using r 2(2) 3(2) 4(2) 5(2) by auto
  also have "\<dots> = (if bc_db cfg then {(''postgres/dump.sql'', 384, dump)} else {}) \<union>
      {file_entry (files k) prefix p q | prefix p q. (prefix, Some p) \<in> set (backup_dirs cfg) \<and> q \<in> tree_files (files k) p}"
    unfolding dump 2(3) 3(3) 4(3) 5(3) backup_dirs_def pairs_union by (simp only: Un_assoc Un_empty_right)
  finally show "\<exists>dump. set (ts_entries st) = (if bc_db cfg then {(''postgres/dump.sql'', 384, dump)} else {}) \<union>
      {file_entry (files k) prefix p q | prefix p q. (prefix, Some p) \<in> set (backup_dirs cfg) \<and> q \<in> tree_files (files k) p}"
    by blast
qed

lemma path_join_joined:
  assumes "list_all plain ws" and "ws \<noteq> []"
  shows "path_join base [str_join ''/'' ws] = base @ ws"
proof -
  have "\<forall>w\<in>set ws. CHR ''/'' \<notin> set w" using assms(1) by (auto simp: list_all_iff plain_def)
  then have "str_split CHR ''/'' (str_join ''/'' ws) = ws" using split_join [OF assms(2)] by simp
  then have "path_join base [str_join ''/'' ws] = foldl clean_step base ws" by (simp add: path_join_def)
  also have "\<dots> = base @ ws" using assms(1)
  proof (induction ws arbitrary: base)
    case (Cons w ws)
    then show ?case by (auto simp: clean_step_def plain_def)
  qed simp
  finally show ?thesis .
qed

lemma restored_file_entry:
  assumes "plain_names t" and "fs_stat t (p @ rel) = Some (File m ow c tm)" and "plain prefix"
  shows "restored_at target (file_entry t prefix p (p @ rel)) = (target @ prefix # rel, c)"
proof -
  have "(p @ rel, File m ow c tm) \<in> set t" using assms(2) unfolding fs_stat_def by (rule map_of_SomeD)
  then have "list_all plain (p @ rel)" using assms(1) unfolding plain_names_def by blast
  then have "path_join target [str_join ''/'' (prefix # rel)] = target @ prefix # rel"
    using assms(3) by (intro path_join_joined) simp_all
  then show ?thesis using assms(2) by (simp add: restored_at_def file_entry_def tar_path_def)
qed

lemma map_of_unique:
  "(x, c) \<in> set xs \<Longrightarrow> (\<And>c'. (x, c') \<in> set xs \<Longrightarrow> c' = c) \<Longrightarrow> map_of xs x = Some c"
  by (metis map_of_SomeD option.exhaust weak_map_of_SomeI)

lemma prefixes_plain: "(prefix, b) \<in> set (backup_dirs cfg) \<Longrightarrow> plain prefix"
  by (auto simp: backup_dirs_def plain_def)

text \<open>
  C14. A backup can be restored: made on a working disk and read back, under the same passphrase,
  by an intact archive format, it verifies without errors; and restoring it, if that reports no
  problem, puts every file of the four directories under the target with its bytes.
\<close>

theorem backup_restores:
  assumes "fs_tree (files k)" and "plain_names (files k)" and "disk_faults k = []"
    and "\<forall>(prefix, b)\<in>set (backup_dirs cfg). b \<noteq> Some []"
    and "collect ar sha rows now stamp cfg db k = (st, db1, k1)"
    and "\<forall>n. ar_refuses ar n = None" and "mf_unmarshal ar zero_manifest (mf_marshal ar (ts_manifest st)) = (ts_manifest st, True)"
    and "ar_open ar (ar_pack ar (ts_entries st @ [(''manifest.json'', 384, mf_marshal ar (ts_manifest st))])) =
      Inr (map entry_item (ts_entries st @ [(''manifest.json'', 384, mf_marshal ar (ts_manifest st))]))"
    and "\<And>s. salt = Inr s \<Longrightarrow> length s = salt_len" and "\<And>n. nonce = Inr n \<Longrightarrow> length n = nonce_len"
    and "\<And>key n pt. ae_open ae key n (ae_seal ae key n pt) = Inr pt" and "\<And>cs. set (order cs) = set cs"
    and "create_backup ar ae kdf sha rows salt nonce cwd now stamp cfg db k = (Inr (m, out), db2, k2)"
    and "fbytes k3 out = fbytes k2 out" and "disk_faults k3 = []"
  shows "\<exists>rep res k4. verify_backup ar ae kdf sha order out (bc_passphrase cfg) k3 = (Inr rep, k3) \<and>
    ve_valid rep \<and> ve_errors rep = [] \<and> ve_manifest rep = ts_manifest st \<and>
    restore_backup ar ae kdf sha order out (bc_passphrase cfg) target k3 = (Inr res, k4) \<and>
    (rs_errors res = [] \<longrightarrow>
      (\<forall>prefix p rel mo ow c t. (prefix, Some p) \<in> set (backup_dirs cfg) \<longrightarrow>
         fs_stat (files k) (p @ rel) = Some (File mo ow c t) \<longrightarrow> fbytes k4 (target @ prefix # rel) = Some c))"
proof -
  let ?js = "mf_marshal ar (ts_manifest st)" and ?pass = "bc_passphrase cfg"
  let ?es = "ts_entries st @ [(''manifest.json'', 384, ?js)]"
  obtain e st1 where a: "add_file ar sha ''manifest.json'' ?js 384 st = (e, st1)" "ts_entries st1 = ?es"
    using add_file_entry assms(6) by blast
  obtain payload where enc: "encrypt_data ae kdf salt nonce (ar_pack ar ?es) ?pass = Inr payload"
    and w: "os_write_file out payload 384 k1 = (Inr (), k2)"
    using assms(13) by (auto simp: create_backup_def assms(5) a Let_def split: sum.splits prod.splits)
  have "fbytes k2 out = Some payload" using fbytes_write_file [OF w] by simp
  then have read: "os_read_file out k3 = (Inr payload, k3)"
    using assms(14,15) by (intro os_read_file_fbytes(2)) simp_all
  have dec: "decrypt_data ae kdf payload ?pass = Inr (ar_pack ar ?es)"
    by (rule decrypt_encrypt [OF enc assms(9,10,11)])
  have valid: "verify_archive ar sha order (Inr (ar_pack ar ?es)) =
      \<lparr>ve_valid = True, ve_manifest = ts_manifest st, ve_errors = [], ve_file_count = length (ts_entries st) + 1\<rparr>"
    using made_archive_valid [OF collect_sums [OF _ assms(5)] assms(7,8,12)] assms(6) by blast
  have ver: "verify_backup ar ae kdf sha order out ?pass k3 =
      (Inr \<lparr>ve_valid = True, ve_manifest = ts_manifest st, ve_errors = [], ve_file_count = length (ts_entries st) + 1\<rparr>, k3)"
    by (simp add: verify_backup_def read dec valid)
  obtain r k4 where it: "restore_items target (map entry_item ?es) \<lparr>rs_restored = 0, rs_errors = []\<rparr> k3 = (r, k4)"
    by fastforce
  from restore_items_bytes [OF it] obtain res where res: "r = Inr res"
    "rs_errors res = [] \<longrightarrow> fbytes k4 = fbytes k3 ++ map_of (rev (map (restored_at target) ?es))" by auto
  have rst: "restore_backup ar ae kdf sha order out ?pass target k3 = (Inr res, k4)"
    by (simp only: restore_backup_def ver prod.case sum.case verify_report.simps read dec assms(8) it res not_True_eq_False if_False)
  obtain dump where es: "set (ts_entries st) = (if bc_db cfg then {(''postgres/dump.sql'', 384, dump)} else {}) \<union>
      {file_entry (files k) prefix p q | prefix p q. (prefix, Some p) \<in> set (backup_dirs cfg) \<and> q \<in> tree_files (files k) p}"
    using collect_entries(2) [OF assms(1,3,6,4,5)] by blast
  have "fbytes k4 (target @ prefix # rel) = Some c"
    if ok: "rs_errors res = []" and pre: "(prefix, Some p) \<in> set (backup_dirs cfg)"
      and f: "fs_stat (files k) (p @ rel) = Some (File mo ow c t)" for prefix p rel mo ow c t
  proof -
    note pl = prefixes_plain [OF pre]
    have "p @ rel \<in> tree_files (files k) p" using f by (simp add: tree_files_def is_file_def)
    with pre have "file_entry (files k) prefix p (p @ rel) \<in> set (ts_entries st)" unfolding es by blast
    then have mem: "(target @ prefix # rel, c) \<in> set (rev (map (restored_at target) ?es))"
      using restored_file_entry [OF assms(2) f pl, of target] by (force simp: image_iff)
    have uniq: "c' = c" if "(target @ prefix # rel, c') \<in> set (rev (map (restored_at target) ?es))" for c'
    proof -
      from that have "(target @ prefix # rel, c') \<in> restored_at target ` set ?es" by (simp only: set_rev set_map)
      then obtain x where x0: "(target @ prefix # rel, c') = restored_at target x" "x \<in> set ?es" by (rule imageE)
      note x = x0(2) x0(1) [symmetric]
      have np: "prefix \<noteq> ''postgres''" "prefix \<noteq> ''manifest.json''" using pre by (auto simp: backup_dirs_def)
      have j: "path_join target [''postgres/dump.sql''] = target @ [''postgres'', ''dump.sql'']"
        using path_join_joined [of "[''postgres'', ''dump.sql'']" target] by (simp add: plain_def)
      have j': "path_join target [''manifest.json''] = target @ [''manifest.json'']"
        using path_join_joined [of "[''manifest.json'']" target] by (simp add: plain_def)
      have "x \<noteq> (''manifest.json'', 384, ?js)" using x(2) j' np by (auto simp: restored_at_def)
      moreover have "x \<noteq> (''postgres/dump.sql'', 384, dump)" using x(2) j np by (auto simp: restored_at_def)
      ultimately have "x \<in> {file_entry (files k) prefix p q | prefix p q.
          (prefix, Some p) \<in> set (backup_dirs cfg) \<and> q \<in> tree_files (files k) p}"
        using x(1) es by (auto split: if_splits)
      then obtain pre' p' q where y: "x = file_entry (files k) pre' p' q" "(pre', Some p') \<in> set (backup_dirs cfg)"
        "q \<in> tree_files (files k) p'" by blast
      from y(3) obtain rel' mo' ow' d t' where q: "q = p' @ rel'" "fs_stat (files k) (p' @ rel') = Some (File mo' ow' d t')"
        by (auto simp: tree_files_def below_iff is_file_def split: option.splits node.splits)
      from restored_file_entry [OF assms(2) q(2) prefixes_plain [OF y(2)], of target] x(2)
      have "pre' = prefix" "rel' = rel" "c' = d" by (simp_all add: y(1) q(1))
      moreover from this pre y(2) have "p' = p" by (auto simp: backup_dirs_def dest: sym [of "Some q" for q])
      ultimately show ?thesis using q(2) f by simp
    qed
    show ?thesis unfolding mp [OF res(2) ok] by (rule map_add_find_right, rule map_of_unique, rule mem, rule uniq)
  qed
  with ver rst show ?thesis by (intro exI conjI) auto
qed

definition example_backup :: backup_config where
  "example_backup = \<lparr>bc_db = False, bc_vmail = Some [''srv'', ''mail''], bc_dkim = None, bc_tls = None, bc_configs = None,
     bc_passphrase = ''secret'', bc_output = Some [''srv'', ''b'']\<rparr>"

definition example_mail :: disk where
  "example_mail = \<lparr>files = [([''srv''], Dir 493 (0, 0)), ([''srv'', ''mail''], Dir 488 (0, 0)),
       ([''srv'', ''mail'', ''a''], File 416 (0, 0) ''hi'' 0)],
     proc_owner = (0, 0), privileged = True, disk_now = 0, disk_faults = [], disk_torn = []\<rparr>"

definition example_manifest :: manifest where
  "example_manifest = \<lparr>mf_version = 1, mf_created_at = 0, mf_database = False, mf_maildir = True, mf_dkim = False,
     mf_tls = False, mf_configs = False, mf_checksums = [(''maildir/a'', '''')], mf_encrypted = True,
     mf_total_files = 1, mf_archive_bytes = 0\<rparr>"

definition example_codec :: "manifest \<Rightarrow> tar_entry list \<Rightarrow> archive_codec" where
  "example_codec m es = \<lparr>ar_refuses = (\<lambda>n. None), ar_pack = (\<lambda>es. ''archive''), ar_open = (\<lambda>s. Inr (map entry_item es)),
     mf_marshal = (\<lambda>m. ''manifest''), mf_unmarshal = (\<lambda>z s. (m, True))\<rparr>"

definition example_aead :: aead where
  "example_aead = \<lparr>ae_seal = (\<lambda>key n pt. pt), ae_open = (\<lambda>key n ct. Inr ct)\<rparr>"

lemma example_codec_simps [simp]:
  "ar_refuses (example_codec m es) n = None" "ar_open (example_codec m es) s = Inr (map entry_item es)"
  "mf_marshal (example_codec m es) x = ''manifest''" "mf_unmarshal (example_codec m es) z s = (m, True)"
  "ar_pack (example_codec m es) es' = ''archive''"
  by (simp_all add: example_codec_def)

abbreviation example_archive :: archive_codec where
  "example_archive \<equiv> example_codec example_manifest [(''maildir/a'', 416, ''hi''), (''manifest.json'', 384, ''manifest'')]"

lemma example_collect:
  "collect example_archive (\<lambda>s. '''') (\<lambda>t db. []) 0 '''' example_backup empty_db example_mail =
     (\<lparr>ts_manifest = example_manifest, ts_entries = [(''maildir/a'', 416, ''hi'')]\<rparr>, empty_db, example_mail)"
  by code_simp

definition example_create :: "(manifest \<times> path) result \<times> db \<times> disk" where
  "example_create = create_backup example_archive example_aead (\<lambda>p s t m th n. Inr ''key'') (\<lambda>s. '''') (\<lambda>t db. [])
     (Inr (replicate 16 CHR ''s'')) (Inr (replicate 12 CHR ''n'')) [] 0 '''' example_backup empty_db example_mail"

lemma example_create_facts:
  "fst example_create = Inr (example_manifest\<lparr>mf_checksums := [(''manifest.json'', ''''), (''maildir/a'', '''')],
     mf_total_files := 2, mf_archive_bytes := 35\<rparr>, [''srv'', ''b''])"
  "disk_faults (snd (snd example_create)) = []"
  by code_simp+

lemma example_mail_facts:
  "fs_tree (files example_mail)" "plain_names (files example_mail)" "disk_faults example_mail = []"
  "\<forall>(prefix, b)\<in>set (backup_dirs example_backup). b \<noteq> Some []"
  by (auto simp: example_mail_def fs_tree_def fs_stat_def is_dir_def plain_names_def plain_def backup_dirs_def
      example_backup_def split: if_splits)

lemma example_restore_facts:
  "(case fst (restore_backup example_archive example_aead (\<lambda>p s t m th n. Inr ''key'') (\<lambda>s. '''') (\<lambda>cs. cs)
      [''srv'', ''b''] ''secret'' [''srv'', ''back''] (snd (snd example_create))) of
    Inl err \<Rightarrow> False | Inr res \<Rightarrow> rs_errors res = [])"
  by code_simp

theorem backup_restores_witness:
  "\<exists>rep res k4. verify_backup example_archive example_aead (\<lambda>p s t m th n. Inr ''key'') (\<lambda>s. '''') (\<lambda>cs. cs)
      [''srv'', ''b''] ''secret'' (snd (snd example_create)) = (Inr rep, snd (snd example_create)) \<and>
    ve_valid rep \<and>
    restore_backup example_archive example_aead (\<lambda>p s t m th n. Inr ''key'') (\<lambda>s. '''') (\<lambda>cs. cs)
      [''srv'', ''b''] ''secret'' [''srv'', ''back''] (snd (snd example_create)) = (Inr res, k4) \<and>
    rs_errors res = [] \<and> fbytes k4 [''srv'', ''back'', ''maildir'', ''a''] = Some ''hi''"
proof -
  obtain m out db2 k2 where c: "example_create = (Inr (m, out), db2, k2)" and out: "out = [''srv'', ''b'']"
    and nf: "disk_faults k2 = []"
    using example_create_facts by (metis prod.collapse)
  have k2: "k2 = snd (snd example_create)" unfolding c by simp
  have pass: "bc_passphrase example_backup = ''secret''" by (simp add: example_backup_def)
  have vm: "(''maildir'', Some [''srv'', ''mail'']) \<in> set (backup_dirs example_backup)"
    by (simp add: backup_dirs_def example_backup_def)
  have f: "fs_stat (files example_mail) ([''srv'', ''mail''] @ [''a'']) = Some (File 416 (0, 0) ''hi'' 0)"
    by (simp add: example_mail_def fs_stat_def)
  have len: "\<And>s. Inr (replicate 16 CHR ''s'') = Inr s \<Longrightarrow> length s = salt_len"
    "\<And>n. Inr (replicate 12 CHR ''n'') = Inr n \<Longrightarrow> length n = nonce_len"
    by (auto simp: salt_len_def nonce_len_def)
  have op: "\<And>key n pt. ae_open example_aead key n (ae_seal example_aead key n pt) = Inr pt"
    by (simp add: example_aead_def)
  from backup_restores [OF example_mail_facts example_collect _ _ _ len op refl
      c [unfolded example_create_def out] refl nf, of "[''srv'', ''back'']"]
  obtain rep res k4 where w:
    "verify_backup example_archive example_aead (\<lambda>p s t m th n. Inr ''key'') (\<lambda>s. '''') (\<lambda>cs. cs)
      [''srv'', ''b''] ''secret'' k2 = (Inr rep, k2)" "ve_valid rep"
    "restore_backup example_archive example_aead (\<lambda>p s t m th n. Inr ''key'') (\<lambda>s. '''') (\<lambda>cs. cs)
      [''srv'', ''b''] ''secret'' [''srv'', ''back''] k2 = (Inr res, k4)"
    "rs_errors res = [] \<longrightarrow> (\<forall>prefix p rel mo ow c t. (prefix, Some p) \<in> set (backup_dirs example_backup) \<longrightarrow>
         fs_stat (files example_mail) (p @ rel) = Some (File mo ow c t) \<longrightarrow> fbytes k4 ([''srv'', ''back''] @ prefix # rel) = Some c)"
    unfolding pass by auto
  have none: "rs_errors res = []" using w(3) example_restore_facts unfolding k2 by (simp add: case_prod_unfold)
  have "fbytes k4 [''srv'', ''back'', ''maildir'', ''a''] = Some ''hi''"
    using mp [OF w(4) none] vm f by fastforce
  then show ?thesis using w(1-3) none unfolding k2 by blast
qed

text \<open>
  What verification and restoring leave open. An entry that the manifest does not list is not
  looked at; and the name of an entry is joined to the target as it is, so it may lead out of it.
\<close>

definition evil_archive :: archive_codec where
  "evil_archive = example_codec zero_manifest [(''../authorized_keys'', 384, ''evil''), (''manifest.json'', 384, ''manifest'')]"

definition evil_restore :: "restore_result result \<times> disk" where
  "evil_restore = restore_backup evil_archive example_aead (\<lambda>p s t m th n. Inr ''key'') (\<lambda>s. '''') (\<lambda>cs. cs)
     [''srv'', ''mail'', ''a''] '''' [''srv'', ''back''] example_mail"

lemma restore_escapes:
  "ve_valid (verify_archive evil_archive (\<lambda>s. '''') (\<lambda>cs. cs) (Inr data))"
  "fst evil_restore = Inr \<lparr>rs_restored = 2, rs_errors = []\<rparr>"
  "fbytes (snd evil_restore) [''srv'', ''authorized_keys''] = Some ''evil''"
  by code_simp+

text \<open>A directory that is not there counts as archived.\<close>

lemma absent_directory_flagged:
  "mf_maildir (ts_manifest (fst (collect ar sha rows 0 '''' (example_backup\<lparr>bc_vmail := Some [''gone'']\<rparr>) db example_mail)))"
  by (simp add: collect_def example_backup_def opt_dir_def add_dir_def example_mail_def os_simps fs_stat_def)

end
