(* ===== verification/Api_Accounts.thy ===== *)
theory Api_Accounts
  imports Http_Access Smtp_Keys Audit_Log Quota Go_Files
begin

text \<open>
  The handlers of \<open>internal/api/handler\<close> for domains, SMTP keys, mailboxes, aliases and quotas,
  with the responses of \<open>internal/api/response\<close>. A handler gets the decoded body (or the error of
  decoding it) and the path parameters as the router hands them over. An error response has a
  status, a code, a message and perhaps an error whose text goes out as details; the request
  identifier it repeats is not modelled.
\<close>

section \<open>Responses\<close>

datatype 'a reply = Error_Reply nat string string "err option" | Json_Reply nat 'a

record 'a data_list =
  dl_data :: "'a list"
  dl_total :: nat
  dl_limit :: int

definition page_all :: "'a list \<Rightarrow> 'a data_list" where
  "page_all xs = \<lparr>dl_data = xs, dl_total = length xs, dl_limit = int (length xs)\<rparr>"

fun reply_status :: "'a reply \<Rightarrow> nat" where
  "reply_status (Error_Reply c code m d) = c"
| "reply_status (Json_Reply c p) = c"

definition validation_error :: "string \<Rightarrow> err option \<Rightarrow> 'a reply" where
  "validation_error m d = Error_Reply 400 ''VALIDATION_ERROR'' m d"

definition internal_error :: "string \<Rightarrow> err \<Rightarrow> 'a reply" where
  "internal_error m err = Error_Reply 500 ''INTERNAL_ERROR'' m (Some err)"

definition malformed :: "err \<Rightarrow> 'a reply" where
  "malformed err = validation_error ''malformed request payload'' (Some err)"

text \<open>
  What every handler shares: the clock, the encoding of a JSON object of strings (\<open>None\<close> is
  \<open>null\<close>), the texts of errors, the environment, and the audit service, if there is one, with the
  identifier of the next entry.
\<close>

record api_env =
  ae_now :: instant
  ae_json :: "(string \<times> string option) list \<Rightarrow> string result"
  ae_text :: "err \<Rightarrow> string"
  ae_getenv :: "string \<Rightarrow> string"
  ae_audit :: "uuid option"

definition note_audit ::
    "api_env \<Rightarrow> string \<Rightarrow> string \<Rightarrow> uuid option \<Rightarrow> (string \<times> string option) list \<Rightarrow> db \<Rightarrow> db" where
  "note_audit e action kind i meta db =
     (case ae_audit e of
        None \<Rightarrow> db
      | Some new \<Rightarrow> snd (record_audit new (ae_now e) ''api'' None action kind i (Some (ae_json e meta)) db))"

definition parse_email_param :: "string \<Rightarrow> string" where
  "parse_email_param raw =
     trim_space (to_lower (case url_unescape False raw of Some u \<Rightarrow> u | None \<Rightarrow> raw))"

definition domain_not_found :: "'a reply" where
  "domain_not_found = Error_Reply 404 ''DOMAIN_NOT_FOUND'' ''domain not found'' None"

definition mailbox_not_found :: "'a reply" where
  "mailbox_not_found = Error_Reply 404 ''MAILBOX_NOT_FOUND'' ''mailbox not found'' None"

section \<open>SMTP keys of a domain\<close>

definition not_configured :: "'a reply" where
  "not_configured = Error_Reply 501 ''INTERNAL_ERROR'' ''smtp key service is not configured'' None"

definition h_list_smtp_keys :: "bool \<Rightarrow> string \<Rightarrow> db \<Rightarrow> smtp_key list reply \<times> db" where
  "h_list_smtp_keys configured raw db =
     (if \<not> configured then (not_configured, db)
      else (case smtp_list (parse_email_param raw) db of
          (Inl err, db1) \<Rightarrow>
            (if err = err_domain_not_found then (domain_not_found, db1)
             else (internal_error ''failed to list smtp keys'' err, db1))
        | (Inr keys, db1) \<Rightarrow> (Json_Reply 200 keys, db1)))"

record issued_key_view =
  iv_key :: smtp_key
  iv_secret :: string
  iv_host :: string

definition h_create_smtp_key ::
    "api_env \<Rightarrow> kdf \<Rightarrow> smtp_draws \<Rightarrow> bool \<Rightarrow> string \<Rightarrow> string result \<Rightarrow> db \<Rightarrow> issued_key_view reply \<times> db" where
  "h_create_smtp_key e kdf dr configured raw body db =
     (if \<not> configured then (not_configured, db)
      else (case body of
          Inl err \<Rightarrow> (malformed err, db)
        | Inr name \<Rightarrow>
            let dom_name = parse_email_param raw
            in (case smtp_create kdf dr (ae_now e) dom_name name db of
                  (Inl err, db1) \<Rightarrow>
                    (if err = err_domain_not_found then domain_not_found
                     else if err = err_smtp_key_exists
                     then Error_Reply 409 ''SMTP_KEY_ALREADY_EXISTS'' ''smtp key name already exists for this domain'' None
                     else if err = err_smtp_invalid_name then validation_error (ae_text e err) None
                     else internal_error ''failed to generate smtp key'' err, db1)
                | (Inr issued, db1) \<Rightarrow>
                    (Json_Reply 201 \<lparr>iv_key = ik_key issued, iv_secret = ik_secret issued, iv_host = ''mail.'' @ dom_name\<rparr>,
                     note_audit e ''smtp_key.create'' ''smtp_key'' (Some (sk_id (ik_key issued)))
                       [(''domain'', Some dom_name), (''name'', Some (sk_name (ik_key issued)))] db1))))"

text \<open>\<open>key\<close> is what \<open>uuid.Parse\<close> makes of the parameter.\<close>

definition h_revoke_smtp_key ::
    "api_env \<Rightarrow> bool \<Rightarrow> string \<Rightarrow> uuid option \<Rightarrow> db \<Rightarrow> string reply \<times> db" where
  "h_revoke_smtp_key e configured raw key db =
     (if \<not> configured then (not_configured, db)
      else let dom_name = parse_email_param raw
      in (case key of
            None \<Rightarrow> (validation_error ''invalid smtp key id'' None, db)
          | Some i \<Rightarrow>
              (case smtp_revoke (ae_now e) dom_name i db of
                 (Inl err, db1) \<Rightarrow>
                   (if err = err_domain_not_found then domain_not_found
                    else if err = err_smtp_key_not_found
                    then Error_Reply 404 ''SMTP_KEY_NOT_FOUND'' ''smtp key not found or already revoked'' None
                    else internal_error ''failed to revoke smtp key'' err, db1)
               | (Inr u, db1) \<Rightarrow>
                   (Json_Reply 200 ''smtp key revoked successfully'',
                    note_audit e ''smtp_key.revoke'' ''smtp_key'' (Some i) [(''domain'', Some dom_name)] db1))))"

section \<open>Domains\<close>

definition h_list_domains :: "db \<Rightarrow> domain data_list reply \<times> db" where
  "h_list_domains db =
     (case domain_list db of
        (Inl err, db1) \<Rightarrow> (internal_error ''failed to list domains'' err, db1)
      | (Inr ds, db1) \<Rightarrow> (Json_Reply 200 (page_all ds), db1))"

definition h_create_domain :: "api_env \<Rightarrow> uuid \<Rightarrow> string result \<Rightarrow> db \<Rightarrow> domain reply \<times> db" where
  "h_create_domain e newid body db =
     (case body of
        Inl err \<Rightarrow> (malformed err, db)
      | Inr name0 \<Rightarrow>
          let name = trim_space (to_lower name0)
          in if name = '''' then (validation_error ''domain name is required'' None, db)
             else (case domain_create newid (ae_now e) name db of
                 (Inl err, db1) \<Rightarrow>
                   (if err = err_domain_exists
                    then Error_Reply 409 ''DOMAIN_ALREADY_EXISTS'' ''domain already exists'' None
                    else if err = err_invalid_domain then validation_error ''invalid domain name format'' None
                    else internal_error ''failed to create domain'' err, db1)
               | (Inr d, db1) \<Rightarrow>
                   (Json_Reply 201 d,
                    note_audit e ''domain.create'' ''domain'' (Some (dom_id d)) [(''domain'', Some (dom_name d))] db1)))"

definition h_get_domain :: "string \<Rightarrow> db \<Rightarrow> domain reply \<times> db" where
  "h_get_domain raw db =
     (case domain_svc_get_by_name raw db of
        (Inl err, db1) \<Rightarrow> (domain_not_found, db1)
      | (Inr d, db1) \<Rightarrow> (Json_Reply 200 d, db1))"

definition h_delete_domain :: "api_env \<Rightarrow> string \<Rightarrow> db \<Rightarrow> string reply \<times> db" where
  "h_delete_domain e raw db =
     (case domain_delete raw db of
        (Inl err, db1) \<Rightarrow>
          (if err = err_domain_not_found then domain_not_found
           else internal_error ''failed to delete domain'' err, db1)
      | (Inr u, db1) \<Rightarrow>
          (Json_Reply 200 ''domain deleted successfully'',
           note_audit e ''domain.delete'' ''domain'' None [(''domain'', Some raw)] db1))"

section \<open>Mailboxes\<close>

text \<open>The body of a new mailbox: address, password and quota, a 64-bit number.\<close>

definition h_list_mailboxes :: "db \<Rightarrow> mailbox data_list reply \<times> db" where
  "h_list_mailboxes db =
     (case mailbox_repo_list db of
        (Inl err, db1) \<Rightarrow> (internal_error ''failed to list mailboxes'' err, db1)
      | (Inr ms, db1) \<Rightarrow> (Json_Reply 200 (page_all ms), db1))"

definition no_domain_text :: string where
  "no_domain_text = ''virtual domain for this email address is not registered. '' @
     ''Please create the domain in '' @ [CHR 0x27] @ ''Domains & DNS'' @ [CHR 0x27] @ '' first''"

text \<open>After the service has created the mailbox it is asked to provision it once more.\<close>

definition h_create_mailbox ::
    "api_env \<Rightarrow> mail_env \<Rightarrow> 'k provisioner option \<Rightarrow> uuid \<Rightarrow> string result \<Rightarrow> (string \<times> string \<times> int) result \<Rightarrow>
       db \<Rightarrow> 'k \<Rightarrow> mailbox reply \<times> db \<times> 'k" where
  "h_create_mailbox e env prov newid rnd body db k =
     (case body of
        Inl err \<Rightarrow> (malformed err, db, k)
      | Inr (email0, password, quota0) \<Rightarrow>
          let email = trim_space (to_lower email0);
              quota = (if quota0 \<le> 0 then 1073741824 else quota0)
          in if email = '''' \<or> password = ''''
             then (validation_error ''email and password are required'' None, db, k)
             else (case mailbox_create env prov newid (ae_now e) rnd email password quota db k of
                 (Inl err, db1, k1) \<Rightarrow>
                   (if err = err_mailbox_exists
                    then Error_Reply 409 ''MAILBOX_ALREADY_EXISTS'' ''mailbox already exists'' None
                    else if err = err_invalid_email \<or> err = err_invalid_password
                    then validation_error (ae_text e err) None
                    else if err = err_mb_domain_not_found then Error_Reply 400 ''NOT_FOUND'' no_domain_text None
                    else internal_error ''failed to create mailbox'' err, db1, k1)
               | (Inr mb, db1, k1) \<Rightarrow>
                   (case mailbox_provision prov (ae_now e) email db1 k1 of
                      (r, db2, k2) \<Rightarrow>
                        (Json_Reply 201 mb,
                         note_audit e ''mailbox.create'' ''mailbox'' (Some (mb_id mb)) [(''email'', Some (mb_email mb))] db2,
                         k2))))"

definition h_get_mailbox :: "string \<Rightarrow> db \<Rightarrow> mailbox reply \<times> db" where
  "h_get_mailbox raw db =
     (case mailbox_svc_get (parse_email_param raw) db of
        (Inl err, db1) \<Rightarrow> (mailbox_not_found, db1)
      | (Inr mb, db1) \<Rightarrow> (Json_Reply 200 mb, db1))"

definition h_delete_mailbox ::
    "api_env \<Rightarrow> 'k provisioner option \<Rightarrow> string \<Rightarrow> db \<Rightarrow> 'k \<Rightarrow> string reply \<times> db \<times> 'k" where
  "h_delete_mailbox e prov raw db k =
     (let email = parse_email_param raw
      in case mailbox_svc_get email db of
           (found, db1) \<Rightarrow>
        (case mailbox_delete prov (ae_now e) email db1 k of
           (Inl err, db2, k1) \<Rightarrow>
             (if err = err_mailbox_not_found then mailbox_not_found
              else internal_error ''failed to delete mailbox'' err, db2, k1)
         | (Inr u, db2, k1) \<Rightarrow>
             (Json_Reply 200 ''mailbox deleted successfully'',
              note_audit e ''mailbox.delete'' ''mailbox'' None
                [(''email'', Some email),
                 (''mailbox_id'', case found of Inr mb \<Rightarrow> Some (uuid_string (mb_id mb)) | Inl err \<Rightarrow> None)] db2, k1)))"

definition set_mailbox_state ::
    "(uuid \<Rightarrow> db \<Rightarrow> unit result \<times> db) \<Rightarrow> string \<Rightarrow> string \<Rightarrow> string \<Rightarrow> api_env \<Rightarrow> string \<Rightarrow> db \<Rightarrow> string reply \<times> db" where
  "set_mailbox_state f failure action good e raw db =
     (case mailbox_svc_get (parse_email_param raw) db of
        (Inl err, db1) \<Rightarrow> (mailbox_not_found, db1)
      | (Inr mb, db1) \<Rightarrow>
          (case f (mb_id mb) db1 of
             (Inl err, db2) \<Rightarrow> (internal_error failure err, db2)
           | (Inr u, db2) \<Rightarrow>
               (Json_Reply 200 good,
                note_audit e action ''mailbox'' (Some (mb_id mb)) [(''email'', Some (mb_email mb))] db2)))"

definition h_suspend_mailbox :: "api_env \<Rightarrow> string \<Rightarrow> db \<Rightarrow> string reply \<times> db" where
  "h_suspend_mailbox e = set_mailbox_state (mailbox_suspend (ae_now e)) ''failed to suspend mailbox''
     ''mailbox.suspend'' ''mailbox suspended successfully'' e"

definition h_resume_mailbox :: "api_env \<Rightarrow> string \<Rightarrow> db \<Rightarrow> string reply \<times> db" where
  "h_resume_mailbox e = set_mailbox_state (mailbox_resume (ae_now e)) ''failed to resume mailbox''
     ''mailbox.resume'' ''mailbox resumed successfully'' e"

definition h_provision_mailbox ::
    "api_env \<Rightarrow> 'k provisioner option \<Rightarrow> string \<Rightarrow> db \<Rightarrow> 'k \<Rightarrow> mailbox reply \<times> db \<times> 'k" where
  "h_provision_mailbox e prov raw db k =
     (case mailbox_provision prov (ae_now e) (parse_email_param raw) db k of
        (Inl err, db1, k1) \<Rightarrow> (internal_error ''provisioning failed'' err, db1, k1)
      | (Inr (mb, already), db1, k1) \<Rightarrow>
          (Json_Reply 200 mb,
           note_audit e ''mailbox.provision'' ''mailbox'' (Some (mb_id mb)) [(''email'', Some (mb_email mb))] db1, k1))"

definition h_set_password ::
    "api_env \<Rightarrow> mail_env \<Rightarrow> string result \<Rightarrow> string \<Rightarrow> string result \<Rightarrow> db \<Rightarrow> string reply \<times> db" where
  "h_set_password e env rnd raw body db =
     (let email = parse_email_param raw
      in case body of
           Inl err \<Rightarrow> (malformed err, db)
         | Inr password \<Rightarrow>
             if length password < 8
             then (validation_error ''password must be at least 8 characters long'' None, db)
             else (case mailbox_set_password env (ae_now e) rnd email password db of
                 (Inl err, db1) \<Rightarrow> (internal_error ''failed to set password'' err, db1)
               | (Inr u, db1) \<Rightarrow>
                   (Json_Reply 200 ''password updated successfully'',
                    note_audit e ''mailbox.password_change'' ''mailbox'' None [(''email'', Some email)] db1)))"

section \<open>Aliases of a mailbox\<close>

definition list_aliases_by_destination :: "string \<Rightarrow> db \<Rightarrow> mail_alias list result \<times> db" where
  "list_aliases_by_destination dest =
     sql_query (\<lambda>db. sort_key al_source (filter (\<lambda>a. al_destination a = to_lower dest) (aliases db)))"

definition list_all_aliases :: "db \<Rightarrow> mail_alias list result \<times> db" where
  "list_all_aliases = sql_query (\<lambda>db. sort_key al_source (aliases db))"

definition h_list_aliases :: "string \<Rightarrow> db \<Rightarrow> mail_alias data_list reply \<times> db" where
  "h_list_aliases raw db =
     (case list_aliases_by_destination (parse_email_param raw) db of
        (Inl err, db1) \<Rightarrow> (internal_error ''failed to list aliases'' err, db1)
      | (Inr xs, db1) \<Rightarrow> (Json_Reply 200 (page_all xs), db1))"

definition h_create_alias :: "api_env \<Rightarrow> uuid \<Rightarrow> string \<Rightarrow> string result \<Rightarrow> db \<Rightarrow> mail_alias reply \<times> db" where
  "h_create_alias e newid raw body db =
     (case body of
        Inl err \<Rightarrow> (malformed err, db)
      | Inr source0 \<Rightarrow>
     let source = trim_space (to_lower source0)
     in if source = '''' then (validation_error ''source alias is required'' None, db)
        else (case mailbox_get_by_email (parse_email_param raw) db of
          (Inl err, db1) \<Rightarrow> (Error_Reply 404 ''MAILBOX_NOT_FOUND'' ''destination mailbox does not exist'' None, db1)
        | (Inr mb, db1) \<Rightarrow>
     let parts = str_split CHR ''@'' source
     in if length parts \<noteq> 2 then (validation_error ''invalid source alias format'' None, db1)
        else (case domain_get_by_name (parts ! 1) db1 of
          (Inl err, db2) \<Rightarrow> (Error_Reply 400 ''DOMAIN_NOT_FOUND'' ''source alias domain is not registered'' None, db2)
        | (Inr dm, db2) \<Rightarrow>
     if dom_status dm \<noteq> ''active'' then (validation_error ''source alias domain is inactive'' None, db2)
     else let rec = \<lparr>al_id = 0, al_domain_id = dom_id dm, al_source = source, al_destination = mb_email mb,
                     al_created_at = zero_time\<rparr>
          in (case create_alias newid (ae_now e) rec db2 of
                (Inl err, db3) \<Rightarrow>
                  (if err = err_alias_exists then Error_Reply 409 ''ALIAS_ALREADY_EXISTS'' ''alias already exists'' None
                   else internal_error ''failed to create alias'' err, db3)
              | (Inr u, db3) \<Rightarrow> (Json_Reply 201 (rec\<lparr>al_id := newid, al_created_at := ae_now e\<rparr>), db3)))))"

definition h_delete_alias :: "string \<Rightarrow> string \<Rightarrow> db \<Rightarrow> string reply \<times> db" where
  "h_delete_alias raw raw_alias db =
     (case delete_alias (parse_email_param raw_alias) (parse_email_param raw) db of
        (Inl err, db1) \<Rightarrow>
          (if err = err_alias_not_found then Error_Reply 404 ''ALIAS_NOT_FOUND'' ''alias not found'' None
           else internal_error ''failed to delete alias'' err, db1)
      | (Inr u, db1) \<Rightarrow> (Json_Reply 200 ''alias deleted successfully'', db1))"

section \<open>Quota of a mailbox\<close>

definition h_get_quota :: "string \<Rightarrow> db \<Rightarrow> mailbox_quota reply \<times> db" where
  "h_get_quota raw db =
     (case get_quota (parse_email_param raw) db of
        (Inl err, db1) \<Rightarrow> (Error_Reply 404 ''MAILBOX_NOT_FOUND'' ''mailbox quota not found'' (Some err), db1)
      | (Inr q, db1) \<Rightarrow> (Json_Reply 200 q, db1))"

definition h_update_quota :: "api_env \<Rightarrow> string \<Rightarrow> int result \<Rightarrow> db \<Rightarrow> mailbox_quota reply \<times> db" where
  "h_update_quota e raw body db =
     (case body of
        Inl err \<Rightarrow> (malformed err, db)
      | Inr quota \<Rightarrow>
          if quota \<le> 0 then (validation_error ''quota_bytes must be a positive integer'' None, db)
          else (case update_quota (ae_now e) (parse_email_param raw) quota db of
              (Inl err, db1) \<Rightarrow> (internal_error ''failed to update mailbox quota'' err, db1)
            | (Inr q, db1) \<Rightarrow> (Json_Reply 200 q, db1)))"

definition h_reconcile_quota ::
    "api_env \<Rightarrow> fs_provisioner option \<Rightarrow> string \<Rightarrow> db \<Rightarrow> disk \<Rightarrow> mailbox_quota reply \<times> db \<times> disk" where
  "h_reconcile_quota e prov raw db k =
     (case reconcile prov (ae_now e) (parse_email_param raw) db k of
        (Inl err, db1, k1) \<Rightarrow> (internal_error ''failed to reconcile quota'' err, db1, k1)
      | (Inr q, db1, k1) \<Rightarrow> (Json_Reply 200 q, db1, k1))"

end
