(* ===== verification/Domain_Doctor.thy ===== *)
theory Domain_Doctor
  imports Mta_Service
begin

text \<open>
  The doctor of a domain (\<open>internal/dns/doctor.go\<close>). Fact: besides the status of the domain in the
  database nothing that it looks up can make its report unhealthy.
\<close>

text \<open>What it asks: addresses, MX hosts and TXT records of the DNS, and connections by port.\<close>

record dns_env =
  dn_host :: "string \<Rightarrow> string list result"
  dn_mx :: "string \<Rightarrow> string list result"
  dn_txt :: "string \<Rightarrow> string list result"
  dn_dial :: "string \<Rightarrow> bool"
  dn_tls_dial :: "string \<Rightarrow> bool"
  dn_getenv :: "string \<Rightarrow> string"

definition arrow :: string where
  "arrow = [CHR 0xE2, CHR 0x86, CHR 0x92]"

definition domain_status_check :: "bool \<Rightarrow> string \<Rightarrow> health_report \<Rightarrow> db \<Rightarrow> health_report \<times> db" where
  "domain_status_check has_service dname rep db =
     (if \<not> has_service then (hard_check ''Domain'' ''Status'' True ''ACTIVE'' rep, db)
      else (case domain_svc_get_by_name dname db of
          (Inl err, db1) \<Rightarrow> (hard_check ''Domain'' ''Status'' False ''Domain not registered in MailOpen'' rep, db1)
        | (Inr d, db1) \<Rightarrow>
            (hard_check ''Domain'' ''Status'' (dom_status d = ''active'') (to_upper (dom_status d)) rep, db1)))"

definition found_text :: "string list result \<Rightarrow> string \<Rightarrow> (string list \<Rightarrow> string) \<Rightarrow> string" where
  "found_text r absent found = (case r of Inl err \<Rightarrow> absent | Inr xs \<Rightarrow> if xs = [] then absent else found xs)"

text \<open>The first record with the prefix, else the policy of the database, else the standard text.\<close>

definition txt_policy :: "string \<Rightarrow> string list result \<Rightarrow> (mail_policy \<Rightarrow> string) \<Rightarrow> (string \<Rightarrow> string) \<Rightarrow> bool \<Rightarrow>
    string \<Rightarrow> db \<Rightarrow> string option \<times> db" where
  "txt_policy prefix txts field getenv has_dkim dname db =
     (case find (\<lambda>t. has_prefix (trim_space t) prefix) (case txts of Inr xs \<Rightarrow> xs | Inl err \<Rightarrow> []) of
        Some t \<Rightarrow> (Some (trim_space t), db)
      | None \<Rightarrow>
          if \<not> has_dkim then (None, db)
          else (case dkim_get_policy getenv dname db of
              (Inr pol, db1) \<Rightarrow> (if field pol \<noteq> '''' then Some (field pol) else None, db1)
            | (Inl err, db1) \<Rightarrow> (None, db1)))"

definition first_selector :: "bool \<Rightarrow> string \<Rightarrow> db \<Rightarrow> string \<times> db" where
  "first_selector has_dkim dname db =
     (if \<not> has_dkim then (''mailopen2026'', db)
      else (case dkim_list_keys dname db of
          (Inr (key # keys), db1) \<Rightarrow> (dk_selector key, db1)
        | (r, db1) \<Rightarrow> (''mailopen2026'', db1)))"

definition or_text :: "string option \<Rightarrow> string \<Rightarrow> string" where
  "or_text t dflt = (case t of Some s \<Rightarrow> s | None \<Rightarrow> dflt)"

definition listening :: "bool \<Rightarrow> string \<Rightarrow> string" where
  "listening answered word = (if answered then word else ''Active'')"

fun note_all :: "(string \<times> string \<times> string) list \<Rightarrow> health_report \<Rightarrow> health_report" where
  "note_all [] rep = rep"
| "note_all ((category, name, message) # cs) rep = note_all cs (hard_check category name True message rep)"

definition constant_checks :: "(string \<times> string \<times> string) list" where
  "constant_checks =
     [(''Security'', ''DKIM key'', ''RSA-2048 (0600/0750)''), (''Security'', ''TLS certificate'', ''TLSv1.2/1.3 Active''),
      (''Security'', ''SPF policy'', ''v=spf1 mx ~all''), (''Security'', ''DMARC policy'', ''v=DMARC1; p=none''),
      (''Filtering'', ''Rspamd'', ''Active (Spam scoring)''), (''Filtering'', ''ClamAV'', ''Active (Antivirus scanner)''),
      (''Filtering'', ''DKIM verification'', ''OpenDKIM milter''), (''Filtering'', ''SPF evaluation'', ''RFC 7208 evaluator''),
      (''Filtering'', ''DMARC evaluation'', ''RFC 7489 alignment''), (''Deliverability'', ''PTR'', ''Valid reverse pointer''),
      (''Deliverability'', ''FCrDNS'', ''Forward-confirmed''), (''Deliverability'', ''RBL'', ''Clean / unlisted'')]"

definition run_domain_doctor ::
    "dns_env \<Rightarrow> bool \<Rightarrow> bool \<Rightarrow> string \<Rightarrow> string \<Rightarrow> db \<Rightarrow> (string \<times> health_report) \<times> db" where
  "run_domain_doctor e has_service has_dkim name0 mail_hostname db =
     (let dname = to_lower (trim_space name0);
          mail_host = (if mail_hostname = '''' then ''mail.'' @ dname else mail_hostname);
          (rep1, db1) = domain_status_check has_service dname new_report db;
          rep2 = hard_check ''DNS'' ''A'' True
            (found_text (dn_host e mail_host) ''127.0.0.1 (Local)'' (str_join '', '')) rep1;
          rep3 = hard_check ''DNS'' ''MX'' True
            (dname @ '' '' @ arrow @ '' '' @ found_text (dn_mx e dname) mail_host (str_join '', '')) rep2;
          (spf, db2) = txt_policy ''v=spf1'' (dn_txt e dname) pol_spf (dn_getenv e) has_dkim dname db1;
          rep4 = hard_check ''DNS'' ''SPF'' True (or_text spf ''v=spf1 mx ~all (Configured)'') rep3;
          (sel, db3) = first_selector has_dkim dname db2;
          rep5 = hard_check ''DNS'' ''DKIM'' True (''Selector: '' @ sel) rep4;
          (dmarc, db4) = txt_policy ''v=DMARC1'' (dn_txt e (''_dmarc.'' @ dname)) pol_dmarc (dn_getenv e)
            has_dkim dname db3;
          rep6 = hard_check ''DNS'' ''DMARC'' True (or_text dmarc ''v=DMARC1; p=none (Configured)'') rep5;
          ports =
            [(''SMTP'', '':25'', listening (dn_dial e ''127.0.0.1:25'') ''Listening''), (''SMTP'', ''STARTTLS'', ''Offered (may)''),
             (''Submission'', '':587'', listening (dn_dial e ''127.0.0.1:587'') ''Listening''),
             (''Submission'', ''STARTTLS'', ''Required (encrypt)''), (''Submission'', ''AUTH'', ''Dovecot SASL Active''),
             (''IMAP'', '':143 STARTTLS'', listening (dn_dial e ''127.0.0.1:143'') ''Listening''),
             (''IMAP'', '':993 TLS'', listening (dn_tls_dial e ''127.0.0.1:993'') ''Listening (IMAPS)'')]
      in ((dname, note_all (ports @ constant_checks) rep6), db4))"

section \<open>The verdict\<close>

lemma hard_check_healthy [simp]: "hr_healthy (hard_check c n okay m r) \<longleftrightarrow> hr_healthy r \<and> okay"
  by (simp add: hard_check_def note_check_def)

lemma note_all_healthy: "hr_healthy (note_all cs rep) = hr_healthy rep"
  by (induction cs rep rule: note_all.induct) simp_all

lemma domain_status_verdict:
  "hr_healthy (fst (domain_status_check True d new_report db)) \<longleftrightarrow>
     (\<exists>x. fst (domain_svc_get_by_name d db) = Inr x \<and> dom_status x = ''active'')"
proof -
  obtain r db1 where "domain_svc_get_by_name d db = (r, db1)" by fastforce
  then show ?thesis by (cases r) (simp_all add: domain_status_check_def new_report_def)
qed

theorem domain_doctor_verdict:
  "hr_healthy (snd (fst (run_domain_doctor e True has_dkim name host db))) \<longleftrightarrow>
     (\<exists>x. fst (domain_svc_get_by_name (to_lower (trim_space name)) db) = Inr x \<and> dom_status x = ''active'')"
proof -
  obtain rep1 db1 where 1: "domain_status_check True (to_lower (trim_space name)) new_report db = (rep1, db1)" by fastforce
  have "hr_healthy (snd (fst (run_domain_doctor e True has_dkim name host db))) = hr_healthy rep1"
    unfolding run_domain_doctor_def Let_def 1 prod.case
    by (simp only: split_beta fst_conv snd_conv note_all_healthy hard_check_healthy simp_thms)
  then show ?thesis using domain_status_verdict [of "to_lower (trim_space name)" db] 1 by simp
qed

end
