(* ===== verification/Tls.thy ===== *)
theory Tls
  imports Mta_Service Go_Time
begin

text \<open>
  The package \<open>internal/tls\<close>: parsing and validation of a certificate chain and its private
  key, the provider that keeps both under one directory per host, the service and the doctor.
  Facts: an installed pair is the one that is loaded; nothing is written for a pair that does
  not validate; a failure between the two files leaves the new key with the old certificate.
\<close>

section \<open>Errors and reports\<close>

definition err_tls_not_found :: err where
  "err_tls_not_found = Sentinel ''tls'' ''ErrCertificateNotFound''"

definition err_invalid_pem :: err where
  "err_invalid_pem = Sentinel ''tls'' ''ErrInvalidPEM''"

definition err_invalid_key :: err where
  "err_invalid_key = Sentinel ''tls'' ''ErrInvalidPrivateKey''"

definition err_tls_key_mismatch :: err where
  "err_tls_key_mismatch = Sentinel ''tls'' ''ErrKeyMismatch''"

definition err_hostname_mismatch :: err where
  "err_hostname_mismatch = Sentinel ''tls'' ''ErrHostnameMismatch''"

definition err_certificate_expired :: err where
  "err_certificate_expired = Sentinel ''tls'' ''ErrCertificateExpired''"

lemmas [errs] = err_tls_not_found_def err_invalid_pem_def err_invalid_key_def err_key_mismatch_def
  err_hostname_mismatch_def err_certificate_expired_def

record certificate =
  ct_hostname :: string
  ct_cert_file :: path
  ct_key_file :: path
  ct_issuer :: string
  ct_subject :: string
  ct_dns_names :: "string list"
  ct_not_before :: instant
  ct_not_after :: instant
  ct_fingerprint :: string

text \<open>The zero time of a report that never came to the dates is \<open>None\<close>.\<close>

record certificate_report =
  cr_hostname :: string
  cr_exists :: bool
  cr_certificate_ok :: bool
  cr_private_key_ok :: bool
  cr_key_matches :: bool
  cr_hostname_matches :: bool
  cr_expired :: bool
  cr_days_remaining :: int
  cr_status :: string
  cr_issuer :: string
  cr_not_after :: "instant option"
  cr_message :: string

definition new_certificate_report :: "string \<Rightarrow> certificate_report" where
  "new_certificate_report hostname =
     \<lparr>cr_hostname = hostname, cr_exists = False, cr_certificate_ok = False, cr_private_key_ok = False,
      cr_key_matches = False, cr_hostname_matches = False, cr_expired = False, cr_days_remaining = 0,
      cr_status = '''', cr_issuer = '''', cr_not_after = None, cr_message = ''''\<rparr>"

definition calculate_expiration_status :: "int \<Rightarrow> bool \<Rightarrow> string" where
  "calculate_expiration_status days expired =
     (if expired \<or> days \<le> 0 then ''EXPIRED''
      else if days \<le> 7 then ''CRITICAL''
      else if days \<le> 30 then ''WARNING''
      else ''HEALTHY'')"

section \<open>Certificates and keys\<close>

text \<open>
  What \<open>crypto/x509\<close> makes of the bytes. The numbers of a public key are opaque; a private key
  carries its public half.
\<close>

datatype public_key = Rsa_Public string | Ecdsa_Public string | Ed25519_Public string | Other_Public string

datatype private_key =
    Rsa_Private string
  | Ecdsa_Private string
  | Ed25519_Private string
  | Signer public_key
  | Opaque_Key

record x509_cert =
  xc_public_key :: public_key
  xc_not_before :: instant
  xc_not_after :: instant
  xc_issuer_name :: string
  xc_issuer_orgs :: "string list"
  xc_subject_name :: string
  xc_dns_names :: "string list"
  xc_raw :: string

text \<open>
  The functions of the standard library: \<open>pem.Decode\<close> gives the type and the bytes of the next
  block and the rest, three parsers of private keys and one of certificates, the check of a host
  name, SHA-256, and how errors, quoted strings and dates are printed.
\<close>

record x509 =
  x_pem_decode :: "string \<Rightarrow> ((string \<times> string) \<times> string) option"
  parse_certificate :: "string \<Rightarrow> x509_cert result"
  x_parse_pkcs8 :: "string \<Rightarrow> private_key result"
  x_parse_pkcs1 :: "string \<Rightarrow> private_key result"
  x_parse_ec :: "string \<Rightarrow> private_key result"
  verify_hostname :: "x509_cert \<Rightarrow> string \<Rightarrow> err option"
  x_sha256 :: "string \<Rightarrow> string"
  x_text :: "err \<Rightarrow> string"
  x_quote :: "string \<Rightarrow> string"
  x_date :: "instant \<Rightarrow> string"

text \<open>
  The loop over the blocks. The rest that \<open>pem.Decode\<close> returns with a block is shorter than its
  input, so the length of the input is enough fuel.
\<close>

fun parse_blocks :: "x509 \<Rightarrow> nat \<Rightarrow> x509_cert list \<Rightarrow> string \<Rightarrow> x509_cert list result" where
  "parse_blocks x 0 certs rest = Inl (Panic ''out of fuel'')"
| "parse_blocks x (Suc fuel) certs rest =
     (case x_pem_decode x rest of
        None \<Rightarrow> Inr certs
      | Some ((kind, bytes), rest1) \<Rightarrow>
          if kind \<noteq> ''CERTIFICATE'' then parse_blocks x fuel certs rest1
          else (case parse_certificate x bytes of
                  Inl err \<Rightarrow> Inl (Wrap ''failed to parse x509 certificate'' err)
                | Inr cert \<Rightarrow> parse_blocks x fuel (certs @ [cert]) rest1))"

definition parse_certificates :: "x509 \<Rightarrow> string \<Rightarrow> x509_cert list result" where
  "parse_certificates x cert_pem =
     (case parse_blocks x (Suc (length cert_pem)) [] cert_pem of
        Inl err \<Rightarrow> Inl err
      | Inr certs \<Rightarrow> if certs = [] then Inl err_invalid_pem else Inr certs)"

definition parse_private_key :: "x509 \<Rightarrow> string \<Rightarrow> private_key result" where
  "parse_private_key x key_pem =
     (case x_pem_decode x key_pem of
        None \<Rightarrow> Inl err_invalid_key
      | Some ((kind, bytes), rest) \<Rightarrow>
          (case x_parse_pkcs8 x bytes of
             Inr key \<Rightarrow> Inr key
           | Inl e1 \<Rightarrow>
          (case x_parse_pkcs1 x bytes of
             Inr key \<Rightarrow> Inr key
           | Inl e2 \<Rightarrow>
          (case x_parse_ec x bytes of
             Inr key \<Rightarrow> Inr key
           | Inl e3 \<Rightarrow> Inl err_invalid_key))))"

fun public_key_matches :: "x509_cert \<Rightarrow> private_key \<Rightarrow> bool" where
  "public_key_matches cert (Rsa_Private k) = (case xc_public_key cert of Rsa_Public p \<Rightarrow> k = p | _ \<Rightarrow> False)"
| "public_key_matches cert (Ecdsa_Private k) = (case xc_public_key cert of Ecdsa_Public p \<Rightarrow> k = p | _ \<Rightarrow> False)"
| "public_key_matches cert (Ed25519_Private k) = (case xc_public_key cert of Ed25519_Public p \<Rightarrow> k = p | _ \<Rightarrow> False)"
| "public_key_matches cert (Signer pub) = (pub = xc_public_key cert)"
| "public_key_matches cert Opaque_Key = False"

section \<open>Validation\<close>

text \<open>
  The difference of two times is a 64-bit number of nanoseconds, saturated; whole days of it are
  counted towards zero. (The code divides in \<open>float64\<close>, which gives the same number except within
  a few nanoseconds of a day boundary that is years away.)
\<close>

definition days_of :: "duration \<Rightarrow> int" where
  "days_of d = (if 0 \<le> d then d div 86400000000000 else - (- d div 86400000000000))"

definition issuer_of :: "x509_cert \<Rightarrow> string" where
  "issuer_of cert =
     (if xc_issuer_name cert = '''' \<and> xc_issuer_orgs cert \<noteq> [] then hd (xc_issuer_orgs cert)
      else xc_issuer_name cert)"

definition check_dates :: "x509 \<Rightarrow> instant \<Rightarrow> string \<Rightarrow> x509_cert \<Rightarrow> certificate_report \<Rightarrow>
    certificate_report \<times> certificate result" where
  "check_dates x now hostname cert rep =
     (let expired = now < xc_not_before cert \<or> now > xc_not_after cert;
          days = days_of (time_sub (xc_not_after cert) now);
          rep1 = rep\<lparr>cr_expired := expired, cr_days_remaining := days,
            cr_status := calculate_expiration_status days expired, cr_issuer := issuer_of cert,
            cr_not_after := Some (xc_not_after cert)\<rparr>
      in if expired
         then (rep1\<lparr>cr_message := ''Certificate expired or not yet valid (valid: '' @ x_date x (xc_not_before cert) @
                 '' to '' @ x_date x (xc_not_after cert) @ '')''\<rparr>, Inl err_certificate_expired)
         else (rep1, Inr \<lparr>ct_hostname = hostname, ct_cert_file = [], ct_key_file = [], ct_issuer = issuer_of cert,
                 ct_subject = xc_subject_name cert, ct_dns_names = xc_dns_names cert,
                 ct_not_before = xc_not_before cert, ct_not_after = xc_not_after cert,
                 ct_fingerprint = to_upper (hex_encode (x_sha256 x (xc_raw cert)))\<rparr>))"

definition validate_bytes :: "x509 \<Rightarrow> instant \<Rightarrow> string \<Rightarrow> string \<Rightarrow> string \<Rightarrow>
    certificate_report \<times> certificate result" where
  "validate_bytes x now cert_pem key_pem hostname =
     (let rep = (new_certificate_report hostname)\<lparr>cr_exists := True\<rparr>
      in case parse_certificates x cert_pem of
           Inl err \<Rightarrow> (rep\<lparr>cr_message := ''Certificate parse error: '' @ x_text x err\<rparr>, Inl err)
         | Inr certs \<Rightarrow>
      let rep1 = rep\<lparr>cr_certificate_ok := True\<rparr>; primary = hd certs
      in case parse_private_key x key_pem of
           Inl err \<Rightarrow> (rep1\<lparr>cr_message := ''Private key parse error: '' @ x_text x err\<rparr>, Inl err)
         | Inr priv \<Rightarrow>
      let rep2 = rep1\<lparr>cr_private_key_ok := True\<rparr>
      in if \<not> public_key_matches primary priv
         then (rep2\<lparr>cr_message := ''Certificate public key does not match private key''\<rparr>, Inl err_tls_key_mismatch)
         else
      let rep3 = rep2\<lparr>cr_key_matches := True\<rparr>
      in case (if hostname = '''' then None else verify_hostname x primary hostname) of
           Some err \<Rightarrow>
             (rep3\<lparr>cr_message := ''Hostname '' @ x_quote x hostname @ '' does not match certificate SAN/CN: '' @
                x_text x err\<rparr>, Inl err_hostname_mismatch)
         | None \<Rightarrow> check_dates x now hostname primary (rep3\<lparr>cr_hostname_matches := True\<rparr>))"

section \<open>Files\<close>

definition tls_cert_path :: "path \<Rightarrow> string \<Rightarrow> path" where
  "tls_cert_path base hostname = path_join base [hostname, ''fullchain.pem'']"

definition tls_key_path :: "path \<Rightarrow> string \<Rightarrow> path" where
  "tls_key_path base hostname = path_join base [hostname, ''privkey.pem'']"

definition tls_load :: "x509 \<Rightarrow> instant \<Rightarrow> path \<Rightarrow> string \<Rightarrow> disk \<Rightarrow> certificate result \<times> disk" where
  "tls_load x now base hostname k =
     (let cp = tls_cert_path base hostname; kp = tls_key_path base hostname
      in case os_read_file cp k of
           (Inl err, k1) \<Rightarrow> (Inl (Wrap (''read cert '' @ path_str cp) err_tls_not_found), k1)
         | (Inr cert_bytes, k1) \<Rightarrow>
        (case os_read_file kp k1 of
           (Inl err, k2) \<Rightarrow> (Inl (Wrap (''read key '' @ path_str kp) err_tls_not_found), k2)
         | (Inr key_bytes, k2) \<Rightarrow>
             (case validate_bytes x now cert_bytes key_bytes hostname of
                (rep, Inl err) \<Rightarrow> (Inl err, k2)
              | (rep, Inr c) \<Rightarrow> (Inr (c\<lparr>ct_cert_file := cp, ct_key_file := kp\<rparr>), k2))))"

definition tls_validate :: "x509 \<Rightarrow> instant \<Rightarrow> path \<Rightarrow> string \<Rightarrow> disk \<Rightarrow>
    (certificate_report \<times> err option) \<times> disk" where
  "tls_validate x now base hostname k =
     (let cp = tls_cert_path base hostname; kp = tls_key_path base hostname;
          rep = new_certificate_report hostname
      in case os_read_file cp k of
           (Inl err, k1) \<Rightarrow>
             ((rep\<lparr>cr_message := ''Certificate file '' @ path_str cp @ '' not found''\<rparr>, Some err_tls_not_found), k1)
         | (Inr cert_bytes, k1) \<Rightarrow>
        (case os_read_file kp k1 of
           (Inl err, k2) \<Rightarrow>
             ((rep\<lparr>cr_message := ''Private key file '' @ path_str kp @ '' not found''\<rparr>, Some err_tls_not_found), k2)
         | (Inr key_bytes, k2) \<Rightarrow>
             (case validate_bytes x now cert_bytes key_bytes hostname of
                (rep1, Inl err) \<Rightarrow> ((rep1, Some err), k2)
              | (rep1, Inr c) \<Rightarrow> ((rep1, None), k2))))"

text \<open>
  A secret file: written, flushed, given its mode and closed under a temporary name beside the
  target, then renamed; the deferred function removes the temporary name in every case.
\<close>

definition fill_secret :: "path \<Rightarrow> path \<Rightarrow> string \<Rightarrow> nat \<Rightarrow> disk \<Rightarrow> unit result \<times> disk" where
  "fill_secret tmp target data perm k =
     (case os_write_file tmp data 384 k of
        (Inl err, k1) \<Rightarrow> (Inl err, snd (os_flush k1))
      | (Inr u, k1) \<Rightarrow>
     (case os_flush k1 of
        (Inl err, k2) \<Rightarrow> (Inl err, snd (os_flush k2))
      | (Inr u, k2) \<Rightarrow>
     (case os_chmod tmp perm k2 of
        (Inl err, k3) \<Rightarrow> (Inl err, snd (os_flush k3))
      | (Inr u, k3) \<Rightarrow>
     (case os_flush k3 of
        (Inl err, k4) \<Rightarrow> (Inl err, k4)
      | (Inr u, k4) \<Rightarrow> os_rename tmp target k4))))"

definition secret_temp :: "nat \<Rightarrow> path \<Rightarrow> path" where
  "secret_temp rnd target = path_dir target @ [last target @ ''.tmp-'' @ nat_str rnd]"

definition atomic_write_secret :: "nat \<Rightarrow> path \<Rightarrow> string \<Rightarrow> nat \<Rightarrow> disk \<Rightarrow> unit result \<times> disk" where
  "atomic_write_secret rnd target data perm k =
     (case os_create_temp (secret_temp rnd target) k of
        (Inl err, k1) \<Rightarrow> (Inl err, k1)
      | (Inr u, k1) \<Rightarrow>
          (case fill_secret (secret_temp rnd target) target data perm k1 of
             (r, k2) \<Rightarrow> (r, snd (os_remove (secret_temp rnd target) k2))))"

definition tls_install_pem :: "x509 \<Rightarrow> instant \<Rightarrow> nat \<Rightarrow> path \<Rightarrow> string \<Rightarrow> string \<Rightarrow> string \<Rightarrow> disk \<Rightarrow>
    (certificate_report \<times> err option) \<times> disk" where
  "tls_install_pem x now rnd base hostname cert_pem key_pem k =
     (case validate_bytes x now cert_pem key_pem hostname of
        (rep, Inl err) \<Rightarrow> ((rep, Some (Wrap ''certificate validation failed'' err)), k)
      | (rep, Inr c) \<Rightarrow>
     (case os_mkdir_all 488 (path_join base [hostname]) k of
        (Inl err, k1) \<Rightarrow>
          ((rep, Some (Wrap (''create tls directory '' @ path_str (path_join base [hostname])) err)), k1)
      | (Inr u, k1) \<Rightarrow>
     (case atomic_write_secret rnd (tls_key_path base hostname) key_pem 384 k1 of
        (Inl err, k2) \<Rightarrow> ((rep, Some (Wrap ''write private key'' err)), k2)
      | (Inr u, k2) \<Rightarrow>
     (case atomic_write_secret rnd (tls_cert_path base hostname) cert_pem 420 k2 of
        (Inl err, k3) \<Rightarrow> ((rep, Some (Wrap ''write certificate chain'' err)), k3)
      | (Inr u, k3) \<Rightarrow> ((rep, None), k3)))))"

text \<open>The service reads the two files that the administrator names; without them there is no report.\<close>

definition tls_install :: "x509 \<Rightarrow> instant \<Rightarrow> nat \<Rightarrow> path \<Rightarrow> string \<Rightarrow> path \<Rightarrow> path \<Rightarrow> disk \<Rightarrow>
    (certificate_report option \<times> err option) \<times> disk" where
  "tls_install x now rnd base hostname cert_src key_src k =
     (case os_read_file cert_src k of
        (Inl err, k1) \<Rightarrow> ((None, Some (Wrap (''read cert file '' @ path_str cert_src) err)), k1)
      | (Inr cert_pem, k1) \<Rightarrow>
     (case os_read_file key_src k1 of
        (Inl err, k2) \<Rightarrow> ((None, Some (Wrap (''read key file '' @ path_str key_src) err)), k2)
      | (Inr key_pem, k2) \<Rightarrow>
          (case tls_install_pem x now rnd base hostname cert_pem key_pem k2 of
             ((rep, e), k3) \<Rightarrow> ((Some rep, e), k3))))"

section \<open>Doctor\<close>

definition perm_check :: "path \<Rightarrow> string \<Rightarrow> (nat \<Rightarrow> bool) \<Rightarrow> health_report \<Rightarrow> disk \<Rightarrow> health_report \<times> disk" where
  "perm_check p name good rep k =
     (case os_stat p k of
        (Inr info, k1) \<Rightarrow> (hard_check ''Permissions'' name (good (mode_of info)) (octal4 (mode_of info)) rep, k1)
      | (Inl err, k1) \<Rightarrow> (rep, k1))"

text \<open>The checks of the pair; the sixth and the list of names do not count.\<close>

definition pair_checks :: "x509 \<Rightarrow> instant \<Rightarrow> string \<Rightarrow> string \<Rightarrow> string \<Rightarrow> health_report \<Rightarrow> health_report" where
  "pair_checks x now hostname cert_bytes key_bytes rep =
     (let (val, r) = validate_bytes x now cert_bytes key_bytes hostname;
          rep1 = hard_check ''Certificate'' ''PEM valid'' (cr_certificate_ok val) ''x509 parse'' rep;
          rep2 = hard_check ''Certificate'' ''Private key valid'' (cr_private_key_ok val) ''key parse'' rep1;
          rep3 = hard_check ''Certificate'' ''Key Match'' (cr_key_matches val) ''public/private match'' rep2;
          rep4 = hard_check ''Certificate'' ''Hostname Match'' (cr_hostname_matches val) hostname rep3;
          rep5 = hard_check ''Validity'' ''Not expired'' (\<not> cr_expired val)
            (dec (cr_days_remaining val) @ '' days remaining (expires '' @
             (case cr_not_after val of None \<Rightarrow> ''0001-01-01'' | Some t \<Rightarrow> x_date x t) @ '')'') rep4;
          rep6 = note_check ''Validity'' ''Remaining > 30 days'' (cr_days_remaining val > 30)
            (dec (cr_days_remaining val) @ '' days ('' @ cr_status val @ '')'') rep5;
          rep7 = (case r of
              Inr c \<Rightarrow> if ct_dns_names c \<noteq> []
                then hard_check ''Certificate'' ''SANs'' True (str_join '', '' (ct_dns_names c)) rep6 else rep6
            | Inl err \<Rightarrow> rep6)
      in if isl r \<and> cr_expired val then rep7\<lparr>hr_healthy := False\<rparr> else rep7)"

definition conf_checks :: "path \<Rightarrow> (string \<Rightarrow> health_report \<Rightarrow> health_report) \<Rightarrow> health_report \<Rightarrow> disk \<Rightarrow>
    health_report \<times> disk" where
  "conf_checks p checks rep k =
     (case os_read_file p k of (Inr content, k1) \<Rightarrow> (checks content rep, k1) | (Inl err, k1) \<Rightarrow> (rep, k1))"

definition main_cf_checks :: "string \<Rightarrow> health_report \<Rightarrow> health_report" where
  "main_cf_checks content rep =
     hard_check ''Postfix :25'' ''SMTP AUTH'' (\<not> contains content ''smtpd_sasl_auth_enable = yes'') ''DISABLED''
      (hard_check ''Postfix :25'' ''STARTTLS'' (contains content ''smtpd_tls_security_level = may'') ''may'' rep)"

definition master_cf_checks :: "string \<Rightarrow> health_report \<Rightarrow> health_report" where
  "master_cf_checks content rep =
     (let encrypt = contains content ''smtpd_tls_security_level=encrypt'';
          sasl = contains content ''smtpd_sasl_auth_enable=yes'';
          plain_blocked = (contains content ''smtpd_tls_auth_only=yes'' \<or> encrypt)
      in hard_check ''Postfix :587'' ''Plain AUTH'' plain_blocked ''BLOCKED before TLS''
          (hard_check ''Postfix :587'' ''SMTP AUTH'' sasl ''REQUIRED''
            (hard_check ''Postfix :587'' ''STARTTLS'' encrypt ''REQUIRED'' rep)))"

definition ssl_conf_checks :: "string \<Rightarrow> health_report \<Rightarrow> health_report" where
  "ssl_conf_checks content rep =
     (let required = (contains content ''ssl = required'' \<or> contains content ''ssl = yes'')
      in hard_check ''Protocols'' ''Min Protocol TLS 1.2'' (contains content ''ssl_min_protocol = TLSv1.2'') ''TLSv1.2''
          (hard_check ''Dovecot :143'' ''STARTTLS'' required ''available''
            (hard_check ''Dovecot :993'' ''TLS'' required ''REQUIRED'' rep)))"

definition tls_version_string :: "nat \<Rightarrow> string" where
  "tls_version_string ver =
     (if ver = 769 then ''TLS 1.0'' else if ver = 770 then ''TLS 1.1'' else if ver = 771 then ''TLS 1.2''
      else if ver = 772 then ''TLS 1.3''
      else ''0x'' @ map hex_digit [ver div 4096 mod 16, ver div 256 mod 16, ver div 16 mod 16, ver mod 16])"

text \<open>\<open>imaps\<close> is the version that a handshake with port 993 agrees on, if there is an answer.\<close>

definition tls_doctor :: "x509 \<Rightarrow> instant \<Rightarrow> nat option \<Rightarrow> path \<Rightarrow> string \<Rightarrow> path \<Rightarrow> path \<Rightarrow> disk \<Rightarrow>
    health_report \<times> disk" where
  "tls_doctor x now imaps base hostname postfix_dir dovecot_dir k =
     (let cp = tls_cert_path base hostname; kp = tls_key_path base hostname;
          (cert, k1) = os_read_file cp k;
          rep1 = hard_check ''Certificate'' ''File exists'' (\<not> isl cert) (path_str cp) new_report;
          (key, k2) = os_read_file kp k1;
          rep2 = hard_check ''Certificate'' ''Key exists'' (\<not> isl key) (path_str kp) rep1;
          rep3 = (case (cert, key) of
              (Inr cert_bytes, Inr key_bytes) \<Rightarrow> pair_checks x now hostname cert_bytes key_bytes rep2
            | _ \<Rightarrow> hard_check ''Certificate'' ''Validation'' False ''cannot validate missing files'' rep2);
          (rep4, k3) = perm_check cp ''Certificate 0644'' (\<lambda>m. m \<le> 420) rep3 k2;
          (rep5, k4) = perm_check kp ''Private Key 0600'' (\<lambda>m. m = 384) rep4 k3;
          (rep6, k5) = conf_checks (path_join postfix_dir [''main.cf'']) main_cf_checks rep5 k4;
          (rep7, k6) = conf_checks (path_join postfix_dir [''master.cf'']) master_cf_checks rep6 k5;
          (rep8, k7) = conf_checks (path_join dovecot_dir [''conf.d/10-ssl.conf'']) ssl_conf_checks rep7 k6
      in (case imaps of
            Some ver \<Rightarrow> hard_check ''Protocols'' ''Live IMAPS :993 Handshake'' True (tls_version_string ver) rep8
          | None \<Rightarrow> rep8, k7))"

section \<open>Parsing\<close>

text \<open>With rests that get shorter, more fuel than the length changes nothing, and the loop ends.\<close>

definition pem_shrinks :: "x509 \<Rightarrow> bool" where
  "pem_shrinks x \<longleftrightarrow> (\<forall>s b r. x_pem_decode x s = Some (b, r) \<longrightarrow> length r < length s)"

lemma parse_blocks_fuel:
  "pem_shrinks x \<Longrightarrow> length s < n \<Longrightarrow> length s < m \<Longrightarrow> parse_blocks x n certs s = parse_blocks x m certs s"
proof (induction n arbitrary: m certs s)
  case (Suc n)
  then obtain m' where m: "m = Suc m'" by (cases m) auto
  have "length r < n" "length r < m'" if "x_pem_decode x s = Some (b, r)" for b r
    using Suc.prems that m unfolding pem_shrinks_def by fastforce+
  then show ?case
    using Suc.IH [OF Suc.prems(1)] m by (auto split: option.splits sum.splits)
qed simp

lemma validate_bytes_sound:
  assumes "validate_bytes x now c key h = (rep, Inr cert)"
  shows "\<exists>chain priv. parse_certificates x c = Inr chain \<and> parse_private_key x key = Inr priv \<and>
    public_key_matches (hd chain) priv \<and> (h \<noteq> '''' \<longrightarrow> verify_hostname x (hd chain) h = None) \<and>
    xc_not_before (hd chain) \<le> now \<and> now \<le> xc_not_after (hd chain)"
  using assms
  by (auto simp: validate_bytes_def check_dates_def Let_def split: sum.splits if_splits option.splits)

text \<open>The report tells how far the validation came; only a host name that matched leads to the dates.\<close>

lemma validate_bytes_report:
  assumes "validate_bytes x now c key h = (rep, r)"
  shows "cr_hostname_matches rep \<Longrightarrow> cr_key_matches rep" and "cr_key_matches rep \<Longrightarrow> cr_private_key_ok rep"
    and "cr_private_key_ok rep \<Longrightarrow> cr_certificate_ok rep" and "cr_expired rep \<Longrightarrow> isl r"
    and "\<not> isl r \<longleftrightarrow> cr_hostname_matches rep \<and> \<not> cr_expired rep"
  using assms
  by (auto simp: validate_bytes_def check_dates_def new_certificate_report_def Let_def
      split: sum.splits if_splits option.splits)

section \<open>Installing\<close>

lemma fbytes_snd_flush [simp]: "fbytes (snd (os_flush k)) = fbytes k"
  using fbytes_flush [of k "fst (os_flush k)" "snd (os_flush k)"] by simp

lemma fill_secret_bytes:
  assumes "fill_secret tmp target c perm k = (r, k')" and "tmp \<noteq> target"
  shows "(\<forall>p. p \<noteq> tmp \<longrightarrow> p \<noteq> target \<longrightarrow> fbytes k' p = fbytes k p) \<and>
    fbytes k' target = (case r of Inr u \<Rightarrow> Some c | Inl err \<Rightarrow> fbytes k target)"
proof -
  obtain r1 k1 where 1: "os_write_file tmp c 384 k = (r1, k1)" by fastforce
  obtain r2 k2 where 2: "os_flush k1 = (r2, k2)" by fastforce
  obtain r3 k3 where 3: "os_chmod tmp perm k2 = (r3, k3)" by fastforce
  obtain r4 k4 where 4: "os_flush k3 = (r4, k4)" by fastforce
  obtain r5 k5 where 5: "os_rename tmp target k4 = (r5, k5)" by fastforce
  have b: "fbytes k4 = fbytes k1" using fbytes_flush [OF 2] fbytes_chmod [OF 3] fbytes_flush [OF 4] by simp
  have w: "p \<noteq> tmp \<Longrightarrow> fbytes k1 p = fbytes k p" "r1 = Inr () \<Longrightarrow> fbytes k1 tmp = Some c" for p
    using fbytes_write_other [OF 1] fbytes_write_file [OF 1] by simp_all
  note steps = assms(1) [unfolded fill_secret_def 1 prod.case]
  consider (stop) "isl r" "fbytes k' = fbytes k1" | (renamed) "r1 = Inr ()" "r = r5" "k' = k5"
    using steps 2 3 4 5 b fbytes_flush [OF 2] fbytes_chmod [OF 3] fbytes_flush [OF 4]
    by (cases r1; cases r2; cases r3; cases r4) auto
  then show ?thesis
  proof cases
    case stop
    then show ?thesis using w(1) assms(2) by (cases r) auto
  next
    case renamed
    then show ?thesis using fbytes_rename [OF 5] b w assms(2) by (cases r5) auto
  qed
qed

lemma atomic_write_secret_bytes:
  assumes "atomic_write_secret n target c perm k = (r, k')" and ne: "secret_temp n target \<noteq> target"
  shows "(\<forall>p. p \<noteq> secret_temp n target \<longrightarrow> p \<noteq> target \<longrightarrow> fbytes k' p = fbytes k p) \<and>
    fbytes k' target = (case r of Inr u \<Rightarrow> Some c | Inl err \<Rightarrow> fbytes k target)"
proof -
  let ?tmp = "secret_temp n target"
  obtain r1 k1 where 1: "os_create_temp ?tmp k = (r1, k1)" by fastforce
  have b1: "q \<noteq> ?tmp \<Longrightarrow> fbytes k1 q = fbytes k q" for q using fbytes_create_temp [OF 1] by (cases r1) auto
  show ?thesis
  proof (cases r1)
    case (Inl e)
    with assms(1) 1 have "r = Inl e" "k' = k1" by (auto simp: atomic_write_secret_def)
    with b1 ne show ?thesis by auto
  next
    case (Inr u)
    obtain r2 k2 where 2: "fill_secret ?tmp target c perm k1 = (r2, k2)" by fastforce
    obtain r3 k3 where 3: "os_remove ?tmp k2 = (r3, k3)" by fastforce
    have r: "r = r2" "k' = k3" using Inr assms(1) 1 2 3 by (auto simp: atomic_write_secret_def)
    have "p \<noteq> ?tmp \<Longrightarrow> fbytes k3 p = fbytes k2 p" for p using fbytes_remove [OF 3] by (cases r3) simp_all
    then show ?thesis using fill_secret_bytes [OF 2 ne] b1 ne unfolding r by (cases r2) auto
  qed
qed

text \<open>
  An installation that reports no error left both files; whatever fails, the certificate file is
  as it was, no file besides the two and their temporary names is touched, and a pair that does
  not validate touches nothing.
\<close>

lemma tls_paths:
  assumes "plain h"
  shows "tls_cert_path base h = base @ [h, ''fullchain.pem'']" and "tls_key_path base h = base @ [h, ''privkey.pem'']"
  using assms by (simp_all add: tls_cert_path_def tls_key_path_def path_join_plain plain_def)

lemma tls_temps:
  assumes "plain h"
  shows "secret_temp n (tls_key_path base h) = base @ [h, ''privkey.pem.tmp-'' @ nat_str n]"
    and "secret_temp n (tls_cert_path base h) = base @ [h, ''fullchain.pem.tmp-'' @ nat_str n]"
  by (simp_all add: tls_paths [OF assms] secret_temp_def path_dir_def butlast_append)

lemma tls_install_effect:
  assumes run: "tls_install_pem x now n base h c key k = ((rep, e), k')" and h: "plain h"
  shows "e = None \<Longrightarrow> fbytes k' (tls_cert_path base h) = Some c \<and> fbytes k' (tls_key_path base h) = Some key"
    and "e \<noteq> None \<Longrightarrow> fbytes k' (tls_cert_path base h) = fbytes k (tls_cert_path base h) \<and>
      fbytes k' (tls_key_path base h) \<in> {fbytes k (tls_key_path base h), Some key}"
    and "isl (snd (validate_bytes x now c key h)) \<Longrightarrow> k' = k"
proof -
  let ?cp = "tls_cert_path base h" and ?kp = "tls_key_path base h"
  have ne: "secret_temp n ?kp \<noteq> ?kp" "secret_temp n ?cp \<noteq> ?cp" "secret_temp n ?kp \<noteq> ?cp"
    "secret_temp n ?cp \<noteq> ?kp" "?cp \<noteq> ?kp"
    unfolding tls_temps [OF h] unfolding tls_paths [OF h] by simp_all
  obtain rep0 r0 where 0: "validate_bytes x now c key h = (rep0, r0)" by fastforce
  obtain r1 k1 where 1: "os_mkdir_all 488 (path_join base [h]) k = (r1, k1)" by fastforce
  obtain r2 k2 where 2: "atomic_write_secret n ?kp key 384 k1 = (r2, k2)" by fastforce
  obtain r3 k3 where 3: "atomic_write_secret n ?cp c 420 k2 = (r3, k3)" by fastforce
  note w = fbytes_mkdir_all [OF 1] atomic_write_secret_bytes [OF 2 ne(1)] atomic_write_secret_bytes [OF 3 ne(2)]
  note steps = run [unfolded tls_install_pem_def 0 1 prod.case]
  consider (invalid) "isl r0" "e \<noteq> None" "k' = k" | (dir) "\<not> isl r0" "e \<noteq> None" "k' = k1"
    | (key) "\<not> isl r0" "isl r2" "e \<noteq> None" "k' = k2" | (cert) "\<not> isl r0" "\<not> isl r2" "k' = k3" "e = None \<longleftrightarrow> \<not> isl r3"
    using steps 2 3 by (cases r0; cases r1; cases r2; cases r3) auto
  then have all: "(e = None \<longrightarrow> fbytes k' ?cp = Some c \<and> fbytes k' ?kp = Some key) \<and>
    (e \<noteq> None \<longrightarrow> fbytes k' ?cp = fbytes k ?cp \<and> fbytes k' ?kp \<in> {fbytes k ?kp, Some key}) \<and> (isl r0 \<longrightarrow> k' = k)"
    using w ne by cases (auto split: sum.splits)
  then show "e = None \<Longrightarrow> fbytes k' ?cp = Some c \<and> fbytes k' ?kp = Some key"
    "e \<noteq> None \<Longrightarrow> fbytes k' ?cp = fbytes k ?cp \<and> fbytes k' ?kp \<in> {fbytes k ?kp, Some key}"
    "isl (snd (validate_bytes x now c key h)) \<Longrightarrow> k' = k"
    using 0 by simp_all
qed

text \<open>What was installed is loaded, as long as the certificate lasts.\<close>

lemma tls_install_loads:
  assumes run: "tls_install_pem x now n base h c key k = ((rep, None), k')" and "plain h"
    and "disk_faults k' = []" and "validate_bytes x later c key h = (rep1, Inr cert)"
  shows "tls_load x later base h k' =
    (Inr (cert\<lparr>ct_cert_file := tls_cert_path base h, ct_key_file := tls_key_path base h\<rparr>), k')"
proof -
  have "os_read_file (tls_cert_path base h) k' = (Inr c, k')" "os_read_file (tls_key_path base h) k' = (Inr key, k')"
    using tls_install_effect(1) [OF run assms(2)] assms(3) os_read_file_fbytes(2) by blast+
  then show ?thesis using assms(4) by (simp add: tls_load_def Let_def)
qed

text \<open>
  A renewal whose second file cannot be written leaves the new key with the old certificate: the
  pair that worked is gone, and loading it reports the mismatch.
\<close>

definition toy_x509 :: x509 where
  "toy_x509 =
     \<lparr>x_pem_decode = (\<lambda>s. case s of t # b # r \<Rightarrow> Some ((if t = CHR ''C'' then ''CERTIFICATE'' else ''KEY'', [b]), r) | _ \<Rightarrow> None),
      parse_certificate = (\<lambda>b. Inr \<lparr>xc_public_key = Rsa_Public b, xc_not_before = 0, xc_not_after = 10,
        xc_issuer_name = '''', xc_issuer_orgs = [], xc_subject_name = '''', xc_dns_names = [], xc_raw = b\<rparr>),
      x_parse_pkcs8 = (\<lambda>b. Inr (Rsa_Private b)), x_parse_pkcs1 = (\<lambda>b. Inl Fault), x_parse_ec = (\<lambda>b. Inl Fault),
      verify_hostname = (\<lambda>c h. None), x_sha256 = (\<lambda>s. s), x_text = (\<lambda>e. ''''), x_quote = (\<lambda>s. s), x_date = (\<lambda>t. '''')\<rparr>"

definition toy_tls_disk :: disk where
  "toy_tls_disk =
     \<lparr>files = [([], Dir 493 (0, 0)), ([''h''], Dir 488 (0, 0)), ([''h'', ''fullchain.pem''], File 420 (0, 0) ''C1'' 0),
       ([''h'', ''privkey.pem''], File 384 (0, 0) ''K1'' 0)],
      proc_owner = (0, 0), privileged = True, disk_now = 0,
      disk_faults = replicate 8 False @ [True], disk_torn = []\<rparr>"

lemma tls_renewal_mismatch:
  "let ((rep, e), k) = tls_install_pem toy_x509 5 0 [] ''h'' ''C2'' ''K2'' toy_tls_disk
   in \<not> isl (fst (tls_load toy_x509 5 [] ''h'' (toy_tls_disk\<lparr>disk_faults := []\<rparr>))) \<and> e \<noteq> None \<and>
      fst (tls_load toy_x509 5 [] ''h'' k) = Inl err_tls_key_mismatch"
  by code_simp

end
