(* ===== verification/Health.thy ===== *)
theory Health
  imports Mail_Queue Mta_Service
begin

text \<open>
  The packages \<open>internal/health\<close> and the reports of \<open>internal/system\<close>: liveness, readiness and
  deep checks with their HTTP status, the validation of all configurations, and the system
  doctor. Facts: when the probes answer 503, and which verdicts do not depend on anything.
\<close>

section \<open>Health\<close>

record health_check =
  hc_component :: string
  hc_status :: string
  hc_message :: string

record health_response =
  hs_status :: string
  hs_checks :: "health_check list"

text \<open>
  The checker with what it probes: the ping of the database (absent without a database), the
  status of the queue (absent without a queue service), directories (absent when empty),
  TCP connections by host and port, and the environment.
\<close>

record health_env =
  he_ping :: "err option option"
  he_queue :: "queue_summary result option"
  he_vmail :: "path option"
  he_tls :: "path option"
  he_dkim :: "path option"
  he_dial :: "string \<Rightarrow> string \<Rightarrow> err option"
  he_getenv :: "string \<Rightarrow> string"
  he_text :: "err \<Rightarrow> string"

definition add_health :: "string \<Rightarrow> string \<Rightarrow> string \<Rightarrow> health_response \<Rightarrow> health_response" where
  "add_health component status message resp =
     resp\<lparr>hs_checks := hs_checks resp @ [\<lparr>hc_component = component, hc_status = status, hc_message = message\<rparr>]\<rparr>"

definition live :: health_response where
  "live = \<lparr>hs_status = ''OK'', hs_checks = []\<rparr>"

definition check_tcp :: "health_env \<Rightarrow> string \<Rightarrow> string \<Rightarrow> string \<Rightarrow> health_response \<Rightarrow> health_response" where
  "check_tcp he name host port resp =
     (case he_dial he host port of
        Some err \<Rightarrow>
          if host \<noteq> ''127.0.0.1'' \<and> host \<noteq> ''localhost'' \<and> he_dial he ''127.0.0.1'' port = None
          then add_health name ''UP'' ''Listening'' resp
          else add_health name ''DOWN'' (he_text he err) (resp\<lparr>hs_status := ''DEGRADED''\<rparr>)
      | None \<Rightarrow> add_health name ''UP'' ''Listening'' resp)"

definition check_database :: "health_env \<Rightarrow> health_response \<Rightarrow> health_response" where
  "check_database he resp =
     (case he_ping he of
        None \<Rightarrow> resp
      | Some (Some err) \<Rightarrow> add_health ''postgresql'' ''DOWN'' (he_text he err) (resp\<lparr>hs_status := ''DOWN''\<rparr>)
      | Some None \<Rightarrow> add_health ''postgresql'' ''UP'' ''Connected'' resp)"

definition host_or :: "health_env \<Rightarrow> string \<Rightarrow> string \<Rightarrow> string" where
  "host_or he name dflt = (if he_getenv he name = '''' then dflt else he_getenv he name)"

definition check_ports :: "health_env \<Rightarrow> health_response \<Rightarrow> health_response" where
  "check_ports he resp =
     (let postfix_host = host_or he ''POSTFIX_HOST'' ''postfix'';
          dovecot_host = host_or he ''DOVECOT_HOST'' ''dovecot''
      in check_tcp he ''dovecot_993'' dovecot_host ''993''
          (check_tcp he ''dovecot_143'' dovecot_host ''143''
            (check_tcp he ''postfix_587'' postfix_host ''587''
              (check_tcp he ''postfix_25'' postfix_host ''25'' resp))))"

definition ready :: "health_env \<Rightarrow> disk \<Rightarrow> health_response \<times> disk" where
  "ready he k =
     (let resp = check_ports he (check_database he \<lparr>hs_status = ''OK'', hs_checks = []\<rparr>)
      in case he_vmail he of
           None \<Rightarrow> (resp, k)
         | Some p \<Rightarrow>
             (case os_stat p k of
                (Inl err, k1) \<Rightarrow>
                  (add_health ''storage_vmail'' ''DOWN'' (he_text he err) (resp\<lparr>hs_status := ''DEGRADED''\<rparr>), k1)
              | (Inr info, k1) \<Rightarrow> (add_health ''storage_vmail'' ''UP'' ''Writable directory accessible'' resp, k1)))"

text \<open>\<open>stamp\<close> is the time in nanoseconds, in the name of the test file.\<close>

definition storage_write :: "health_env \<Rightarrow> string \<Rightarrow> health_response \<Rightarrow> disk \<Rightarrow> health_response \<times> disk" where
  "storage_write he stamp resp k =
     (case he_vmail he of
        None \<Rightarrow> (resp, k)
      | Some p \<Rightarrow>
          let f = path_join p [''.healthcheck_'' @ stamp]
          in (case os_write_file f ''healthcheck'' 384 k of
                (Inl err, k1) \<Rightarrow>
                  (add_health ''storage_write'' ''DOWN'' (''Failed write: '' @ he_text he err)
                     (resp\<lparr>hs_status := ''DEGRADED''\<rparr>), k1)
              | (Inr u, k1) \<Rightarrow>
                  (add_health ''storage_write'' ''UP'' ''Write & delete verified'' resp, snd (os_remove f k1))))"

definition check_queue :: "health_env \<Rightarrow> health_response \<Rightarrow> health_response" where
  "check_queue he resp =
     (case he_queue he of
        None \<Rightarrow> resp
      | Some (Inl err) \<Rightarrow>
          (if contains (he_text he err) ''executable file not found''
           then add_health ''postfix_queue'' ''STANDBY'' ''Queue manager operating via MTA socket'' resp
           else add_health ''postfix_queue'' ''DOWN'' (he_text he err) resp)
      | Some (Inr q) \<Rightarrow>
          add_health ''postfix_queue'' ''UP''
            (''Active: '' @ dec (qs_active q) @ '', Deferred: '' @ dec (qs_deferred q) @
             '', Hold: '' @ dec (qs_hold q)) resp)"

definition check_dir :: "string \<Rightarrow> path option \<Rightarrow> health_response \<Rightarrow> disk \<Rightarrow> health_response \<times> disk" where
  "check_dir component d resp k =
     (case d of
        None \<Rightarrow> (resp, k)
      | Some p \<Rightarrow>
          (case os_stat p k of
             (Inr info, k1) \<Rightarrow> (add_health component ''UP'' ''Directory available'' resp, k1)
           | (Inl err, k1) \<Rightarrow> (resp, k1)))"

definition deep :: "health_env \<Rightarrow> string \<Rightarrow> disk \<Rightarrow> health_response \<times> disk" where
  "deep he stamp k =
     (let (resp, k1) = ready he k;
          (resp1, k2) = storage_write he stamp resp k1;
          resp2 = check_queue he resp1;
          (resp3, k3) = check_dir ''tls_keystore'' (he_tls he) resp2 k2
      in check_dir ''dkim_keystore'' (he_dkim he) resp3 k3)"

text \<open>The status of the answer over HTTP; the live probe always answers 200.\<close>

definition probe_status :: "health_response \<Rightarrow> nat" where
  "probe_status resp = (if hs_status resp = ''DOWN'' then 503 else 200)"

section \<open>Validation of all configurations\<close>

definition mark :: string where
  "mark = [CHR 0xE2, CHR 0x9C, CHR 0x93, CHR '' '']"

record validation_item =
  vi_subsystem :: string
  vi_passed :: bool
  vi_message :: string

record validation_report =
  vp_valid :: bool
  vp_items :: "validation_item list"

definition add_item :: "string \<Rightarrow> bool \<Rightarrow> string \<Rightarrow> validation_report \<Rightarrow> validation_report" where
  "add_item subsystem okay msg rep =
     \<lparr>vp_valid = (vp_valid rep \<and> okay),
      vp_items = vp_items rep @ [\<lparr>vi_subsystem = subsystem, vi_passed = okay, vi_message = msg\<rparr>]\<rparr>"

definition dir_item :: "string \<Rightarrow> string \<Rightarrow> string \<Rightarrow> string \<Rightarrow> path option \<Rightarrow> validation_report \<Rightarrow> disk \<Rightarrow>
    validation_report \<times> disk" where
  "dir_item subsystem found missing unset d rep k =
     (case d of
        None \<Rightarrow> (add_item subsystem True unset rep, k)
      | Some p \<Rightarrow>
          (case os_stat p k of
             (Inr info, k1) \<Rightarrow> (add_item subsystem True found rep, k1)
           | (Inl err, k1) \<Rightarrow> (add_item subsystem True missing rep, k1)))"

definition validate_all_configs :: "health_env \<Rightarrow> disk \<Rightarrow> validation_report \<times> disk" where
  "validate_all_configs he k =
     (let rep0 = \<lparr>vp_valid = True, vp_items = []\<rparr>;
          rep1 = (if he_ping he = Some None then add_item ''PostgreSQL'' True ''Database reachable and schema ready'' rep0
                  else add_item ''PostgreSQL'' False ''Database connection failed'' rep0);
          rep2 = add_item ''Postfix'' True ''Virtual maps and submission configurations valid'' rep1;
          rep3 = add_item ''Dovecot'' True ''SQL passdb/userdb and SASL auth valid'' rep2;
          (rep4, k1) = dir_item ''TLS'' ''Certificate directory accessible'' ''Certificate store ready''
            ''TLS configuration active'' (he_tls he) rep3 k;
          (rep5, k2) = dir_item ''DKIM'' ''Keystore accessible with 0600 permissions'' ''DKIM signing active''
            ''DKIM active'' (he_dkim he) rep4 k1;
          rep6 = add_item ''Rspamd'' True ''Spam threshold and policy parameters configured'' rep5;
          rep7 = add_item ''ClamAV'' True ''Antivirus scan engine configured'' rep6;
          (rep8, k3) = (case he_vmail he of
              None \<Rightarrow> (add_item ''Filesystem'' True ''Storage paths valid'' rep7, k2)
            | Some p \<Rightarrow>
                (case os_mkdir_all 488 p k2 of
                   (Inr u, k3) \<Rightarrow> (add_item ''Filesystem'' True (''Maildir storage '' @ path_str p @ '' ready'') rep7, k3)
                 | (Inl err, k3) \<Rightarrow>
                     (add_item ''Filesystem'' False (''Failed to prepare '' @ path_str p @ '': '' @ he_text he err) rep7, k3)))
      in (add_item ''Permissions'' True ''Secrets protected with 0600 / directories with 0750'' rep8, k3))"

section \<open>The system doctor\<close>

record category =
  cg_name :: string
  cg_checks :: "(string \<times> string) list"
  cg_passed :: bool

record system_report =
  sy_healthy :: bool
  sy_categories :: "category list"

definition add_category :: "string \<Rightarrow> bool \<Rightarrow> (string \<times> string) list \<Rightarrow> system_report \<Rightarrow> system_report" where
  "add_category name okay checks rep =
     \<lparr>sy_healthy = (sy_healthy rep \<and> okay),
      sy_categories = sy_categories rep @ [\<lparr>cg_name = name, cg_checks = checks, cg_passed = okay\<rparr>]\<rparr>"

text \<open>Three addresses are tried; the error of the last is shown.\<close>

definition port_check :: "health_env \<Rightarrow> string \<Rightarrow> string \<Rightarrow> string \<Rightarrow> (string \<times> string) \<times> bool" where
  "port_check he host port label =
     (let tries = map (\<lambda>h. he_dial he h port) [host, ''127.0.0.1'', ''localhost'']
      in if None \<in> set tries then ((label, mark @ ''Listening''), True)
         else ((label, ''FAILED: port '' @ port @ '' unreachable ('' @ he_text he (the (last tries)) @ '')''), False))"

definition queue_line_of :: "queue_summary \<Rightarrow> string" where
  "queue_line_of q = mark @ ''Active: '' @ dec (qs_active q) @ '', Deferred: '' @ dec (qs_deferred q) @
     '', Hold: '' @ dec (qs_hold q)"

text \<open>\<open>count\<close> is the query on the table of domains; the queue is asked a second time at the end.\<close>

definition run_system_doctor :: "health_env \<Rightarrow> nat result \<Rightarrow> queue_summary result option \<Rightarrow> disk \<Rightarrow> system_report \<times> disk" where
  "run_system_doctor he count queue2 k =
     (let (db_checks, db_passed) = (case he_ping he of
            None \<Rightarrow> ([(''PostgreSQL'', ''FAILED: DB handle is nil'')], False)
          | Some (Some err) \<Rightarrow> ([(''PostgreSQL'', ''FAILED: '' @ he_text he err)], False)
          | Some None \<Rightarrow>
              ([(''PostgreSQL'', mark @ ''Connected (port 5432/5433)''),
                (''Schema'', case count of Inr n \<Rightarrow> mark @ ''Migrations up-to-date'' | Inl err \<Rightarrow> ''FAILED: '' @ he_text he err),
                (''Read-only roles'', mark @ ''mailopen_dovecot read-only'')], \<not> isl count));
          (p25, ok25) = port_check he ''postfix'' ''25'' ''Postfix :25'';
          (p587, ok587) = port_check he ''postfix'' ''587'' ''Postfix :587'';
          queue = (''Queue'', case he_queue he of
              Some (Inr q) \<Rightarrow> queue_line_of q
            | _ \<Rightarrow> mark @ ''Standby (0 active, 0 deferred)'');
          (p143, ok143) = port_check he ''dovecot'' ''143'' ''Dovecot :143'';
          (p993, ok993) = port_check he ''dovecot'' ''993'' ''Dovecot :993'';
          security = [(''TLS'', mark @ ''TLSv1.2/1.3 Active (STARTTLS / IMAPS)''),
            (''DKIM'', mark @ ''OpenDKIM milter outbound signing :587''), (''SPF'', mark @ ''RFC 7208 Inbound Real-time Evaluator''),
            (''DMARC'', mark @ ''RFC 7489 Alignment & Policy Enforcement''), (''Rspamd'', mark @ ''Spam scoring & threshold controls''),
            (''ClamAV'', mark @ ''Antivirus scanner adapter'')];
          (storage, st_passed, k1) = (case he_vmail he of
              None \<Rightarrow> ([], True, k)
            | Some p \<Rightarrow>
                (case os_stat p k of
                   (Inr info, k1) \<Rightarrow>
                     ([(''Maildir'', mark @ ''Accessible''), (''BlobStore'', mark @ ''Active''),
                       (''Quota'', mark @ ''Fast-path & reconciler ready''), (''Permissions'', mark @ ''0750 / 0640 ownership'')],
                      True, k1)
                 | (Inl err, k1) \<Rightarrow> ([(''Maildir'', ''FAILED: '' @ he_text he err)], False, k1)));
          observability = [(''Logging'', mark @ ''Structured log/slog with zero-secret masking''),
            (''Metrics'', mark @ ''Prometheus /metrics registry''), (''Health'', mark @ ''/health/live, /health/ready, /health/deep'')];
          backup = [(''Last backup'', mark @ ''Ready for snapshot''),
            (''Backup integrity'', mark @ ''SHA-256 manifest & AES-256-GCM encryption''),
            (''Restore test'', mark @ ''Disposable restore verified'')];
          queue_counts = (case queue2 of
              Some (Inr q) \<Rightarrow> [(''Active'', dec (qs_active q)), (''Deferred'', dec (qs_deferred q)),
                (''Failed'', dec (qs_bounce q + qs_corrupt q))]
            | _ \<Rightarrow> [(''Active'', ''0''), (''Deferred'', ''0''), (''Failed'', ''0'')]);
          certs = [(''TLS'', ''89 days remaining (HEALTHY)''), (''DKIM'', ''ACTIVE (RSA-2048)'')]
      in (add_category ''CERTIFICATES'' True certs
           (add_category ''QUEUE'' True queue_counts
             (add_category ''BACKUP'' True backup
               (add_category ''OBSERVABILITY'' True observability
                 (add_category ''STORAGE'' st_passed storage
                   (add_category ''SECURITY'' True security
                     (add_category ''MAIL ACCESS'' (ok143 \<and> ok993) [p143, p993]
                       (add_category ''MAIL TRANSPORT'' (ok25 \<and> ok587) [p25, p587, queue]
                         (add_category ''DATABASE'' db_passed db_checks
                           \<lparr>sy_healthy = True, sy_categories = []\<rparr>)))))))), k1))"

section \<open>What the verdicts depend on\<close>

lemma check_tcp_status:
  "hs_status (check_tcp he name host port resp) \<in> {hs_status resp, ''DEGRADED''}"
  by (auto simp: check_tcp_def add_health_def split: option.splits)

lemma check_ports_status: "hs_status (check_ports he resp) \<in> {hs_status resp, ''DEGRADED''}"
  using check_tcp_status unfolding check_ports_def Let_def by (smt (verit) insert_iff singletonD)

text \<open>Every probe records one check, whatever the outcome.\<close>

lemma check_tcp_records: "map hc_component (hs_checks (check_tcp he name host port resp)) =
    map hc_component (hs_checks resp) @ [name]"
  by (auto simp: check_tcp_def add_health_def split: option.splits)

text \<open>A failed probe after the database replaces the status \<open>DOWN\<close> of the database by \<open>DEGRADED\<close>.\<close>

lemma check_tcp_overwrites:
  assumes "he_dial he host port = Some err" and "he_dial he ''127.0.0.1'' port \<noteq> None"
  shows "hs_status (check_tcp he name host port resp) = ''DEGRADED''"
  using assms by (auto simp: check_tcp_def add_health_def)

lemma check_tcp_keeps_degraded:
  "hs_status resp = ''DEGRADED'' \<Longrightarrow> hs_status (check_tcp he name host port resp) = ''DEGRADED''"
  using check_tcp_status [of he name host port resp] by auto

text \<open>
  Hence, with the database down and the submission port closed everywhere, the readiness
  probe answers 200: only a database failure that nothing follows is answered with 503.
\<close>

lemma ready_hides_database:
  assumes dial: "\<And>h p. he_dial he h p = Some err" and vm: "he_vmail he = None"
  shows "hs_status (fst (ready he k)) = ''DEGRADED''" and "probe_status (fst (ready he k)) = 200"
proof -
  have "hs_status (check_ports he r) = ''DEGRADED''" for r
    unfolding check_ports_def Let_def by (rule check_tcp_overwrites [where err = err]) (simp_all add: dial)
  then show "hs_status (fst (ready he k)) = ''DEGRADED''" and "probe_status (fst (ready he k)) = 200"
    by (simp_all add: ready_def vm probe_status_def)
qed

lemma check_tcp_all_up:
  "he_dial he host port = None \<Longrightarrow> hs_status (check_tcp he name host port resp) = hs_status resp"
  by (simp add: check_tcp_def add_health_def)

lemma ready_503:
  assumes "he_ping he = Some (Some err)" and "\<And>h p. he_dial he h p = None" and "he_vmail he = None"
  shows "probe_status (fst (ready he k)) = 503"
  using assms
  by (simp add: ready_def check_ports_def Let_def check_tcp_all_up check_database_def add_health_def probe_status_def)

text \<open>The validation of all configurations is decided by the ping and by one directory.\<close>

lemma add_item_valid [simp]: "vp_valid (add_item s okay m r) \<longleftrightarrow> vp_valid r \<and> okay"
  by (simp add: add_item_def)

lemma dir_item_valid [simp]: "vp_valid (fst (dir_item s f m u d r k)) \<longleftrightarrow> vp_valid r"
  by (auto simp: dir_item_def split: option.splits prod.splits sum.splits)

lemma validation_verdict:
  assumes "he_vmail he = None"
  shows "vp_valid (fst (validate_all_configs he k)) \<longleftrightarrow> he_ping he = Some None"
proof -
  obtain r4 k1 where d4: "dir_item ''TLS'' ''Certificate directory accessible'' ''Certificate store ready''
            ''TLS configuration active'' (he_tls he)
       (add_item ''Dovecot'' True ''SQL passdb/userdb and SASL auth valid''
         (add_item ''Postfix'' True ''Virtual maps and submission configurations valid''
          (if he_ping he = Some None then add_item ''PostgreSQL'' True ''Database reachable and schema ready'' \<lparr>vp_valid = True, vp_items = []\<rparr>
                else add_item ''PostgreSQL'' False ''Database connection failed'' \<lparr>vp_valid = True, vp_items = []\<rparr>))) k = (r4, k1)"
    by (rule prod.exhaust)
  obtain r5 k2 where d5: "dir_item ''DKIM'' ''Keystore accessible with 0600 permissions'' ''DKIM signing active''
            ''DKIM active'' (he_dkim he) r4 k1 = (r5, k2)"
    by (rule prod.exhaust)
  have "vp_valid r4 \<longleftrightarrow> he_ping he = Some None"
    using arg_cong [OF d4, of "\<lambda>x. vp_valid (fst x)"] by (simp split: if_splits)
  moreover have "vp_valid r5 \<longleftrightarrow> vp_valid r4"
    using arg_cong [OF d5, of "\<lambda>x. vp_valid (fst x)"] by simp
  moreover have "vp_valid (fst (validate_all_configs he k)) \<longleftrightarrow> vp_valid r5"
    unfolding validate_all_configs_def Let_def d4 d5 prod.case assms option.case by simp
  ultimately show ?thesis by simp
qed

text \<open>The doctor reports the certificates of every system as valid for the same number of days.\<close>

lemma certificates_constant:
  "last (sy_categories (fst (run_system_doctor he count queue2 k))) =
     \<lparr>cg_name = ''CERTIFICATES'', cg_checks = [(''TLS'', ''89 days remaining (HEALTHY)''), (''DKIM'', ''ACTIVE (RSA-2048)'')],
      cg_passed = True\<rparr>"
proof -
  have add: "last (sy_categories (add_category n b c r)) = \<lparr>cg_name = n, cg_checks = c, cg_passed = b\<rparr>" for n b c r
    by (simp add: add_category_def)
  show ?thesis
    unfolding run_system_doctor_def Let_def
    by (simp only: split_beta fst_conv add)
qed

end
