(* ===== verification/Api_Mail.thy ===== *)
theory Api_Mail
  imports Api_Accounts Domain_Doctor Tls Health Webmail_Send Webmail_Mime
begin

text \<open>
  The remaining handlers of \<open>internal/api/handler\<close>: DNS records, DKIM, policies and certificates of
  a domain, the mail queue, the audit log, health, identities, and webmail. Facts: the status
  codes of the health endpoints, and a policy update that fails half way.
\<close>

section \<open>DKIM\<close>

definition h_list_dkim :: "string \<Rightarrow> db \<Rightarrow> dkim_key list reply \<times> db" where
  "h_list_dkim raw db =
     (case dkim_list_keys raw db of
        (Inl err, db1) \<Rightarrow> (internal_error ''failed to list dkim keys'' err, db1)
      | (Inr keys, db1) \<Rightarrow> (Json_Reply 200 keys, db1))"

text \<open>\<open>sel0\<close> is what the decoder left of the body; an error of it is dropped.\<close>

definition h_generate_dkim ::
    "api_env \<Rightarrow> rsa_codec \<Rightarrow> 'k keystore \<Rightarrow> uuid \<Rightarrow> rsa_private result \<Rightarrow> nat \<Rightarrow> string \<Rightarrow> string \<Rightarrow> db \<Rightarrow> 'k \<Rightarrow>
       (dkim_key \<times> dns_record option) reply \<times> db \<times> 'k" where
  "h_generate_dkim e cod ks newid rnd tmp raw sel0 db k =
     (let sel = (if sel0 = '''' then ''default'' else sel0)
      in case dkim_generate_key cod ks newid (ae_now e) rnd tmp raw sel db k of
           (Inl err, db1, k1) \<Rightarrow> (internal_error ''failed to generate dkim key'' err, db1, k1)
         | (Inr (key, pair), db1, k1) \<Rightarrow>
             (case dkim_get_dns_record cod ks raw sel k1 of
                (r, k2) \<Rightarrow> (Json_Reply 201 (key, case r of Inr rec \<Rightarrow> Some rec | Inl err \<Rightarrow> None), db1, k2)))"

definition h_verify_dkim ::
    "rsa_codec \<Rightarrow> 'k keystore \<Rightarrow> (string \<Rightarrow> string list result) \<Rightarrow> string \<Rightarrow> string \<Rightarrow> 'k \<Rightarrow>
       verification_result reply \<times> 'k" where
  "h_verify_dkim cod ks lookup raw sel k =
     (case dkim_verify_dns cod ks raw sel lookup k of
        ((res, Some err), k1) \<Rightarrow> (internal_error ''failed to verify dkim dns'' err, k1)
      | ((res, None), k1) \<Rightarrow> (Json_Reply 200 res, k1))"

definition h_activate_dkim ::
    "api_env \<Rightarrow> 'k keystore \<Rightarrow> string \<Rightarrow> string \<Rightarrow> db \<Rightarrow> 'k \<Rightarrow> string reply \<times> db \<times> 'k" where
  "h_activate_dkim e ks raw sel db k =
     (case dkim_activate_key ks (ae_now e) raw sel db k of
        (Inl err, db1, k1) \<Rightarrow> (internal_error ''failed to activate dkim key'' err, db1, k1)
      | (Inr u, db1, k1) \<Rightarrow> (Json_Reply 200 ''dkim selector activated successfully'', db1, k1))"

definition h_revoke_dkim :: "api_env \<Rightarrow> string \<Rightarrow> string \<Rightarrow> db \<Rightarrow> string reply \<times> db" where
  "h_revoke_dkim e raw sel db =
     (case dkim_revoke_key (ae_now e) raw sel db of
        (Inl err, db1) \<Rightarrow> (internal_error ''failed to revoke dkim key'' err, db1)
      | (Inr u, db1) \<Rightarrow> (Json_Reply 200 ''dkim selector revoked successfully'', db1))"

section \<open>Policies\<close>

definition h_get_policy :: "api_env \<Rightarrow> string \<Rightarrow> db \<Rightarrow> mail_policy reply \<times> db" where
  "h_get_policy e raw db =
     (case dkim_get_policy (ae_getenv e) raw db of
        (Inl err, db1) \<Rightarrow> (Error_Reply 404 ''DOMAIN_NOT_FOUND'' ''domain policy not found'' (Some err), db1)
      | (Inr pol, db1) \<Rightarrow> (Json_Reply 200 pol, db1))"

text \<open>The two policies are stored one after the other; an empty one is left alone.\<close>

definition set_if ::
    "(string \<Rightarrow> db \<Rightarrow> unit result \<times> db) \<Rightarrow> string \<Rightarrow> db \<Rightarrow> unit result \<times> db" where
  "set_if f v db = (if v \<noteq> '''' then f v db else (Inr (), db))"

definition h_update_policy ::
    "api_env \<Rightarrow> string \<Rightarrow> (string \<times> string) result \<Rightarrow> db \<Rightarrow> mail_policy option reply \<times> db" where
  "h_update_policy e raw body db =
     (case body of
        Inl err \<Rightarrow> (malformed err, db)
      | Inr (spf, dmarc) \<Rightarrow>
     (case set_if (dkim_set_spf_policy (ae_getenv e) (ae_now e) raw) spf db of
        (Inl err, db1) \<Rightarrow> (validation_error ''invalid spf policy'' (Some err), db1)
      | (Inr u, db1) \<Rightarrow>
     (case set_if (dkim_set_dmarc_policy (ae_getenv e) (ae_now e) raw) dmarc db1 of
        (Inl err, db2) \<Rightarrow> (validation_error ''invalid dmarc policy'' (Some err), db2)
      | (Inr u, db2) \<Rightarrow>
          (case dkim_get_policy (ae_getenv e) raw db2 of
             (r, db3) \<Rightarrow> (Json_Reply 200 (case r of Inr pol \<Rightarrow> Some pol | Inl err \<Rightarrow> None), db3)))))"

section \<open>DNS records and the doctor of a domain\<close>

text \<open>
  The address of this server: of the environment, of the last hour, of one of three services
  (the first 64 bytes that answer), or of the outbound socket.
\<close>

definition ip_loopback :: "ip \<Rightarrow> bool" where
  "ip_loopback p = (case to4 p of Some q \<Rightarrow> hd q = 127 | None \<Rightarrow> p = replicate 15 0 @ [1])"

definition ip_endpoints :: "string list" where
  "ip_endpoints = [''https://api.ipify.org'', ''https://ifconfig.me/ip'', ''https://icanhazip.com'']"

fun fetch_ip :: "(string \<Rightarrow> (nat \<times> string) option) \<Rightarrow> string list \<Rightarrow> string option" where
  "fetch_ip fetch [] = None"
| "fetch_ip fetch (ep # eps) =
     (case fetch ep of
        Some (st, body) \<Rightarrow>
          (let s = trim_space (take 64 body)
           in if st = 200 \<and> (case parse_ip s of Some p \<Rightarrow> to4 p \<noteq> None | None \<Rightarrow> False) then Some s
              else fetch_ip fetch eps)
      | None \<Rightarrow> fetch_ip fetch eps)"

type_synonym ip_cache = "string \<times> instant"

definition public_server_ip ::
    "api_env \<Rightarrow> (string \<Rightarrow> (nat \<times> string) option) \<Rightarrow> ip option \<Rightarrow> ip_cache \<Rightarrow> string \<times> ip_cache" where
  "public_server_ip e fetch outbound cache =
     (if ae_getenv e ''SERVER_IP'' \<noteq> '''' then (trim_space (ae_getenv e ''SERVER_IP''), cache)
      else if ae_getenv e ''MAIL_SERVER_IP'' \<noteq> '''' then (trim_space (ae_getenv e ''MAIL_SERVER_IP''), cache)
      else if fst cache \<noteq> '''' \<and> time_sub (ae_now e) (snd cache) < 3600000000000 then (fst cache, cache)
      else (case fetch_ip fetch ip_endpoints of
          Some s \<Rightarrow> (s, (s, ae_now e))
        | None \<Rightarrow>
            (case outbound of
               Some p \<Rightarrow> if p \<noteq> [] \<and> \<not> ip_loopback p then (ip_string p, (ip_string p, ae_now e)) else ('''', cache)
             | None \<Rightarrow> ('''', cache))))"

record dns_view =
  dv_domain :: string
  dv_server_ip :: string
  dv_a :: string
  dv_mx :: string
  dv_spf :: string
  dv_dmarc :: string
  dv_dkim :: "dns_record option"

definition dkim_record_of ::
    "rsa_codec \<Rightarrow> 'k keystore \<Rightarrow> string \<Rightarrow> db \<Rightarrow> 'k \<Rightarrow> dns_record option \<times> db \<times> 'k" where
  "dkim_record_of cod ks dn db k =
     (let opt = (\<lambda>r. case r of Inr x \<Rightarrow> Some x | Inl err \<Rightarrow> None)
      in case dkim_get_active_key dn db of
           (Inr key, db1) \<Rightarrow> (case dkim_get_dns_record cod ks dn (dk_selector key) k of (r, k1) \<Rightarrow> (opt r, db1, k1))
         | (Inl err, db1) \<Rightarrow>
             (case dkim_get_dns_record cod ks dn ''mail'' k of
                (Inr rec, k1) \<Rightarrow> (Some rec, db1, k1)
              | (Inl err, k1) \<Rightarrow>
                  (case dkim_get_dns_record cod ks dn ''default'' k1 of (r, k2) \<Rightarrow> (opt r, db1, k2))))"

definition h_domain_dns ::
    "api_env \<Rightarrow> rsa_codec \<Rightarrow> 'k keystore \<Rightarrow> (string \<Rightarrow> (nat \<times> string) option) \<Rightarrow> ip option \<Rightarrow> string \<Rightarrow>
       db \<Rightarrow> 'k \<Rightarrow> ip_cache \<Rightarrow> dns_view reply \<times> db \<times> 'k \<times> ip_cache" where
  "h_domain_dns e cod ks fetch outbound raw db k cache =
     (let dn = parse_email_param raw;
          (pol, db1) = dkim_get_policy (ae_getenv e) dn db;
          (rec, db2, k1) = dkim_record_of cod ks dn db1 k;
          (server_ip, cache1) = public_server_ip e fetch outbound cache;
          spf0 = (if server_ip \<noteq> '''' then ''v=spf1 a mx ip4:'' @ server_ip @ '' ~all'' else ''v=spf1 a mx ~all'');
          dmarc0 = ''v=DMARC1; p=quarantine; rua=mailto:dmarc-reports@'' @ dn;
          spf = (case pol of
              Inr p \<Rightarrow> if pol_spf p \<noteq> '''' \<and> pol_spf p \<noteq> ''v=spf1 mx ~all'' then pol_spf p else spf0
            | Inl err \<Rightarrow> spf0);
          dmarc = (case pol of
              Inr p \<Rightarrow> if pol_dmarc p \<noteq> '''' \<and> pol_dmarc p \<noteq> ''v=DMARC1; p=none'' then pol_dmarc p else dmarc0
            | Inl err \<Rightarrow> dmarc0)
      in (Json_Reply 200 \<lparr>dv_domain = dn, dv_server_ip = server_ip,
            dv_a = (if server_ip = '''' then ''<YOUR_SERVER_IPV4>'' else server_ip), dv_mx = ''mail.'' @ dn,
            dv_spf = spf, dv_dmarc = dmarc, dv_dkim = rec\<rparr>, db2, k1, cache1))"

definition h_domain_doctor :: "dns_env \<Rightarrow> string \<Rightarrow> db \<Rightarrow> (string \<times> health_report) reply \<times> db" where
  "h_domain_doctor d raw db =
     (case run_domain_doctor d True True raw '''' db of (rep, db1) \<Rightarrow> (Json_Reply 200 rep, db1))"

section \<open>Certificates\<close>

definition h_get_tls :: "api_env \<Rightarrow> x509 \<Rightarrow> path \<Rightarrow> string \<Rightarrow> disk \<Rightarrow> certificate_report reply \<times> disk" where
  "h_get_tls e x base raw k =
     (case tls_validate x (ae_now e) base raw k of
        ((rep, Some err), k1) \<Rightarrow> (Error_Reply 404 ''NOT_FOUND'' ''tls certificate not found'' (Some err), k1)
      | ((rep, None), k1) \<Rightarrow> (Json_Reply 200 rep, k1))"

definition h_install_tls ::
    "api_env \<Rightarrow> x509 \<Rightarrow> nat \<Rightarrow> path \<Rightarrow> string \<Rightarrow> (string \<times> string) result \<Rightarrow> disk \<Rightarrow> certificate_report reply \<times> disk" where
  "h_install_tls e x rnd base raw body k =
     (case body of
        Inl err \<Rightarrow> (malformed err, k)
      | Inr (cert, key) \<Rightarrow>
     if cert = '''' \<or> key = '''' then (validation_error ''cert_pem and key_pem are required'' None, k)
     else (case tls_install_pem x (ae_now e) rnd base raw cert key k of
         ((rep, Some err), k1) \<Rightarrow> (validation_error ''failed to install tls certificate'' (Some err), k1)
       | ((rep, None), k1) \<Rightarrow> (Json_Reply 200 rep, k1)))"

section \<open>Mail queue\<close>

definition queue_error :: "string \<Rightarrow> err \<Rightarrow> 'a reply" where
  "queue_error m err = Error_Reply 500 ''QUEUE_OPERATION_FAILED'' m (Some err)"

definition h_queue_status ::
    "api_env \<Rightarrow> json_decoder \<Rightarrow> 'q mail_system \<Rightarrow> string \<Rightarrow> 'q \<Rightarrow> queue_summary reply \<times> 'q" where
  "h_queue_status e jd sys container q =
     (case queue_get_status jd (ae_now e) sys container q of
        (Inl err, q1) \<Rightarrow> (queue_error ''failed to get queue status'' err, q1)
      | (Inr s, q1) \<Rightarrow> (Json_Reply 200 s, q1))"

definition h_queue_list ::
    "api_env \<Rightarrow> json_decoder \<Rightarrow> 'q mail_system \<Rightarrow> string \<Rightarrow> string \<Rightarrow> 'q \<Rightarrow> queue_message data_list reply \<times> 'q" where
  "h_queue_list e jd sys container st q =
     (case queue_list jd (ae_now e) sys container st q of
        (Inl err, q1) \<Rightarrow> (queue_error ''failed to list queue messages'' err, q1)
      | (Inr ms, q1) \<Rightarrow> (Json_Reply 200 (page_all ms), q1))"

definition h_queue_status_or_list ::
    "api_env \<Rightarrow> json_decoder \<Rightarrow> 'q mail_system \<Rightarrow> string \<Rightarrow> string \<Rightarrow> string \<Rightarrow> 'q \<Rightarrow>
       (queue_summary reply + queue_message data_list reply) \<times> 'q" where
  "h_queue_status_or_list e jd sys container summary st q =
     (if summary = ''true'' then map_prod Inl id (h_queue_status e jd sys container q)
      else map_prod Inr id (h_queue_list e jd sys container st q))"

definition h_queue_inspect :: "'q mail_system \<Rightarrow> string \<Rightarrow> string \<Rightarrow> 'q \<Rightarrow> (string \<times> string) reply \<times> 'q" where
  "h_queue_inspect sys container i q =
     (case queue_inspect sys container i q of
        (Inl err, q1) \<Rightarrow> (Error_Reply 404 ''QUEUE_MESSAGE_NOT_FOUND'' ''queue message not found'' (Some err), q1)
      | (Inr c, q1) \<Rightarrow> (Json_Reply 200 (i, c), q1))"

definition queue_act :: "string \<Rightarrow> string \<Rightarrow> err option \<times> 'q \<Rightarrow> string reply \<times> 'q" where
  "queue_act failure good r =
     (case r of (Some err, q1) \<Rightarrow> (queue_error failure err, q1) | (None, q1) \<Rightarrow> (Json_Reply 200 good, q1))"

definition h_queue_retry :: "'q mail_system \<Rightarrow> string \<Rightarrow> string \<Rightarrow> 'q \<Rightarrow> string reply \<times> 'q" where
  "h_queue_retry sys container i q = queue_act ''failed to retry message'' (''delivery retry scheduled for '' @ i)
     (queue_retry sys container i q)"

definition h_queue_hold :: "'q mail_system \<Rightarrow> string \<Rightarrow> string \<Rightarrow> 'q \<Rightarrow> string reply \<times> 'q" where
  "h_queue_hold sys container i q = queue_act ''failed to hold message'' (''message placed on hold: '' @ i)
     (queue_hold sys container i q)"

definition h_queue_release :: "'q mail_system \<Rightarrow> string \<Rightarrow> string \<Rightarrow> 'q \<Rightarrow> string reply \<times> 'q" where
  "h_queue_release sys container i q = queue_act ''failed to release message''
     (''message released from hold: '' @ i) (queue_release sys container i q)"

definition h_queue_delete :: "'q mail_system \<Rightarrow> string \<Rightarrow> string \<Rightarrow> 'q \<Rightarrow> string reply \<times> 'q" where
  "h_queue_delete sys container i q = queue_act ''failed to delete message''
     (''message deleted from queue: '' @ i) (queue_delete sys container i q)"

definition h_queue_flush :: "'q mail_system \<Rightarrow> string \<Rightarrow> 'q \<Rightarrow> string reply \<times> 'q" where
  "h_queue_flush sys container q = queue_act ''failed to flush queue'' ''mail queue flushed successfully''
     (queue_flush sys container q)"

section \<open>Audit log, health and identities\<close>

definition audit_limit :: "string \<Rightarrow> int" where
  "audit_limit s = (case atoi s of Some n \<Rightarrow> if 0 < n \<and> n \<le> 500 then n else 50 | None \<Rightarrow> 50)"

definition h_list_audit :: "string \<Rightarrow> db \<Rightarrow> log_entry data_list reply \<times> db" where
  "h_list_audit limit db =
     (case list_audit_logs (audit_limit limit) db of
        (Inl err, db1) \<Rightarrow> (internal_error ''failed to list audit logs'' err, db1)
      | (Inr logs, db1) \<Rightarrow>
          (Json_Reply 200 \<lparr>dl_data = logs, dl_total = length logs, dl_limit = audit_limit limit\<rparr>, db1))"

definition health_code :: "health_response \<Rightarrow> nat" where
  "health_code h = (if to_upper (hs_status h) \<noteq> ''OK'' then 503 else 200)"

definition h_live :: "health_response reply" where
  "h_live = Json_Reply 200 live"

definition h_ready :: "health_env \<Rightarrow> disk \<Rightarrow> health_response reply \<times> disk" where
  "h_ready he k = (case ready he k of (h, k1) \<Rightarrow> (Json_Reply (health_code h) h, k1))"

definition h_deep :: "health_env \<Rightarrow> string \<Rightarrow> disk \<Rightarrow> health_response reply \<times> disk" where
  "h_deep he stamp k = (case deep he stamp k of (h, k1) \<Rightarrow> (Json_Reply (health_code h) h, k1))"

definition h_system_doctor ::
    "health_env \<Rightarrow> nat result \<Rightarrow> queue_summary result option \<Rightarrow> disk \<Rightarrow> system_report reply \<times> disk" where
  "h_system_doctor he count queue2 k =
     (case run_system_doctor he count queue2 k of (rep, k1) \<Rightarrow> (Json_Reply 200 rep, k1))"

definition h_list_providers :: "(string \<times> string \<times> string) list reply" where
  "h_list_providers = Json_Reply 200
     [(''local'', ''postgresql'', ''Built-in PostgreSQL local password identity store''),
      (''ldap'', ''openldap/active_directory'', ''External LDAP / Active Directory enterprise directory provider'')]"

definition h_ldap_doctor :: "'k identity_service \<Rightarrow> id_doctor_report reply" where
  "h_ldap_doctor svc = Json_Reply 200 (id_doctor svc)"

text \<open>The request is what the decoder left: domain, creation and dry run.\<close>

definition h_ldap_sync ::
    "'k identity_service \<Rightarrow> 'd sync_env \<Rightarrow> (nat \<Rightarrow> sync_draw) \<Rightarrow> string \<times> bool \<times> bool \<Rightarrow> db \<Rightarrow> 'k \<Rightarrow> 'd \<Rightarrow>
       sync_report reply \<times> db \<times> 'k \<times> 'd" where
  "h_ldap_sync svc env dw req db k d =
     (case req of (dn, auto, dry) \<Rightarrow>
        (case id_sync svc \<lparr>so_domain_name = dn, so_auto_create = auto, so_default_quota = 0,
              so_on_user_missing = '''', so_dry_run = dry\<rparr> env dw db k d of
           (Inl err, db1, k1, d1) \<Rightarrow>
             (Error_Reply 500 ''LDAP_SYNC_FAILED'' ''failed to synchronize ldap directory'' (Some err), db1, k1, d1)
         | (Inr rep, db1, k1, d1) \<Rightarrow> (Json_Reply 200 rep, db1, k1, d1)))"

section \<open>Webmail\<close>

text \<open>The address is the one of the claims; the mailbox is never named by the request.\<close>

definition unauthorized :: "'a reply" where
  "unauthorized = Error_Reply 401 ''AUTH_UNAUTHORIZED'' ''unauthorized'' None"

definition folder_or :: "string \<Rightarrow> string" where
  "folder_or folder = (if folder = '''' then ''inbox'' else folder)"

definition positive_or :: "int \<Rightarrow> string \<Rightarrow> int" where
  "positive_or dflt s = (case atoi s of Some n \<Rightarrow> if 0 < n then n else dflt | None \<Rightarrow> dflt)"

definition for_email :: "string \<Rightarrow> (string \<Rightarrow> disk \<Rightarrow> 'a reply \<times> disk) \<Rightarrow> disk \<Rightarrow> 'a reply \<times> disk" where
  "for_email email f k = (if email = '''' then (unauthorized, k) else f email k)"

definition answer :: "(err \<Rightarrow> 'b reply) \<Rightarrow> ('a \<Rightarrow> 'b) \<Rightarrow> 'a result \<times> disk \<Rightarrow> 'b reply \<times> disk" where
  "answer failure good r =
     (case r of (Inl err, k1) \<Rightarrow> (failure err, k1) | (Inr x, k1) \<Rightarrow> (Json_Reply 200 (good x), k1))"

definition h_list_folders :: "maildir_service \<Rightarrow> string \<Rightarrow> disk \<Rightarrow> (string \<times> mail_folder list) reply \<times> disk" where
  "h_list_folders s email = for_email email (\<lambda>em k.
     answer (internal_error ''failed to list folders'') (Pair em) (list_folders s em k))"

definition h_list_messages ::
    "mime_lib \<Rightarrow> (file_meta list \<Rightarrow> file_meta list) \<Rightarrow> maildir_service \<Rightarrow> string \<Rightarrow> string \<Rightarrow> string \<Rightarrow> string \<Rightarrow> string \<Rightarrow>
       disk \<Rightarrow> (string \<times> int \<times> int \<times> nat \<times> msg_summary list) reply \<times> disk" where
  "h_list_messages L srt s email folder page limit search = for_email email (\<lambda>em k.
     let f = folder_or folder; p = positive_or 1 page; l = positive_or 25 limit
     in answer (internal_error ''failed to list messages'') (\<lambda>(ms, total). (f, p, l, total, ms))
          (list_messages L srt s em f p l search k))"

definition h_get_message ::
    "api_env \<Rightarrow> mime_lib \<Rightarrow> maildir_service \<Rightarrow> string \<Rightarrow> string \<Rightarrow> string \<Rightarrow> disk \<Rightarrow> msg_detail reply \<times> disk" where
  "h_get_message e L s email i folder = for_email email (\<lambda>em k.
     answer (\<lambda>err. Error_Reply 404 ''INTERNAL_ERROR'' ''message not found'' (Some err)) id
       (get_message L (ae_now e) s em (folder_or folder) (unescape_id i) k))"

definition h_send_message ::
    "compose_lib \<Rightarrow> 'n smtp_net \<Rightarrow> send_draws \<Rightarrow> maildir_service \<Rightarrow> string \<Rightarrow> send_request result \<Rightarrow> disk \<Rightarrow> 'n \<Rightarrow>
       msg_summary reply \<times> disk \<times> 'n" where
  "h_send_message C S dr s email body k n =
     (if email = '''' then (unauthorized, k, n)
      else (case body of
          Inl err \<Rightarrow> (malformed err, k, n)
        | Inr req \<Rightarrow>
            if sr_to req = [] then (validation_error ''at least one recipient is required'' None, k, n)
            else (case send_message C S dr s email req k n of
                (Inl err, k1, n1) \<Rightarrow> (internal_error ''failed to deliver message'' err, k1, n1)
              | (Inr res, k1, n1) \<Rightarrow> (Json_Reply 200 res, k1, n1))))"

text \<open>A body that does not decode means \<open>read: true\<close>.\<close>

definition h_mark_read :: "maildir_service \<Rightarrow> string \<Rightarrow> string \<Rightarrow> string \<Rightarrow> bool result \<Rightarrow> disk \<Rightarrow> bool reply \<times> disk" where
  "h_mark_read s email i folder body = for_email email (\<lambda>em k.
     let rd = (case body of Inl err \<Rightarrow> True | Inr b \<Rightarrow> b)
     in answer (internal_error ''failed to update read status'') (\<lambda>u. rd)
          (mark_message_read s em (folder_or folder) (unescape_id i) rd k))"

definition h_move_message ::
    "maildir_service \<Rightarrow> string \<Rightarrow> string \<Rightarrow> (string \<times> string) result \<Rightarrow> disk \<Rightarrow> unit reply \<times> disk" where
  "h_move_message s email i body = for_email email (\<lambda>em k.
     case body of
       Inl err \<Rightarrow> (validation_error ''src_folder and dst_folder are required'' None, k)
     | Inr (src, dst) \<Rightarrow>
         if dst = '''' then (validation_error ''src_folder and dst_folder are required'' None, k)
         else answer (internal_error ''failed to move message'') id
                (move_message s em (folder_or src) dst (unescape_id i) k))"

definition h_delete_message :: "maildir_service \<Rightarrow> string \<Rightarrow> string \<Rightarrow> string \<Rightarrow> disk \<Rightarrow> unit reply \<times> disk" where
  "h_delete_message s email i folder = for_email email (\<lambda>em k.
     answer (internal_error ''failed to delete message'') id
       (delete_message s em (folder_or folder) (unescape_id i) k))"

text \<open>The answer has the content type, the disposition and the bytes.\<close>

definition h_get_attachment ::
    "api_env \<Rightarrow> mime_lib \<Rightarrow> maildir_service \<Rightarrow> string \<Rightarrow> string \<Rightarrow> string \<Rightarrow> string \<Rightarrow> disk \<Rightarrow>
       (string \<times> string \<times> string) reply \<times> disk" where
  "h_get_attachment e L s email i a folder = for_email email (\<lambda>em k.
     answer (\<lambda>err. Error_Reply 404 ''INTERNAL_ERROR'' ''attachment not found'' (Some err))
       (\<lambda>(filename, ctype, data).
          (if ctype = '''' then ''application/octet-stream'' else ctype,
           ''attachment; filename='' @ [CHR 0x22] @ filename @ [CHR 0x22], data))
       (get_attachment L (ae_now e) s em (folder_or folder) (unescape_id i) (unescape_id a) k))"

section \<open>Facts\<close>

text \<open>
  The readiness of the API and of the handler in \<open>internal/health\<close> give different statuses to the
  same degraded system.
\<close>

lemma degraded_codes:
  "hs_status h = ''DEGRADED'' \<Longrightarrow> probe_status h = 200 \<and> health_code h = 503"
  by (simp add: probe_status_def health_code_def to_upper_def)

text \<open>An update whose second policy is refused has stored the first one all the same.\<close>

lemma policy_update_partial:
  assumes "dkim_set_spf_policy (ae_getenv e) (ae_now e) raw spf db = (Inr u, db1)" and "spf \<noteq> ''''"
    and "dkim_set_dmarc_policy (ae_getenv e) (ae_now e) raw dmarc db1 = (Inl err, db2)" and "dmarc \<noteq> ''''"
  shows "h_update_policy e raw (Inr (spf, dmarc)) db = (validation_error ''invalid dmarc policy'' (Some err), db2)"
  using assms by (simp add: h_update_policy_def set_if_def)

end
