(* ===== verification/Api.thy ===== *)
theory Api
  imports Api_Mail Settings Webmail_Props
begin

text \<open>
  The authenticated scope of the API as a whole, on everything a handler can reach: a call is one
  request to a handler with its parameters, its decoded body and what the clock and the random
  source give it; it passes the middlewares of its route (\<open>internal/api/router.go\<close>) before the
  handler runs. The calls are grouped as the router groups its routes, and there is a call for every
  route. Facts: what a request of an account that is not of the staff, and what one of an auditor,
  can change.
\<close>

section \<open>Calls\<close>

datatype domain_call =
    List_Domains
  | Create_Domain uuid "string result"
  | Get_Domain string
  | Delete_Domain string
  | Run_Doctor string
  | Domain_Dns string
  | List_Dkim string
  | Generate_Dkim uuid "rsa_private result" nat string string
  | Verify_Dkim string string
  | Activate_Dkim string string
  | Revoke_Dkim string string
  | List_Smtp_Keys string
  | Create_Smtp_Key smtp_draws string "string result"
  | Revoke_Smtp_Key string "uuid option"
  | Get_Tls string
  | Install_Tls nat string "(string \<times> string) result"
  | Get_Policy string
  | Update_Policy string "(string \<times> string) result"

datatype mailbox_call =
    List_Mailboxes
  | Create_Mailbox uuid "string result" "(string \<times> string \<times> int) result"
  | Get_Mailbox string
  | Delete_Mailbox string
  | Suspend_Mailbox string
  | Resume_Mailbox string
  | Provision_Mailbox string
  | Set_Password "string result" string "string result"
  | List_Aliases string
  | Create_Alias uuid string "string result"
  | Delete_Alias string string
  | Get_Quota string
  | Update_Quota string "int result"
  | Reconcile_Quota string

datatype queue_call =
    Queue_List string string
  | Queue_Inspect string
  | Queue_Retry string
  | Queue_Hold string
  | Queue_Release string
  | Queue_Delete string
  | Queue_Flush

datatype web_call =
    List_Folders
  | List_Messages string string string string
  | Get_Message string string
  | Send_Message send_draws "send_request result"
  | Mark_Read string string "bool result"
  | Move_Message string "(string \<times> string) result"
  | Delete_Message string string
  | Get_Attachment string string string

datatype api_call =
    Logout string
  | Me
  | Domain_Call domain_call
  | Mailbox_Call mailbox_call
  | List_Providers
  | Ldap_Status
  | Ldap_Doctor
  | Ldap_Sync "nat \<Rightarrow> sync_draw" "string \<times> bool \<times> bool"
  | Queue_Call queue_call
  | List_Audit string
  | Get_Config
  | Update_Config "(string \<times> string) list result"
  | Web_Call web_call
  | System_Status
  | System_Doctor

section \<open>Routes\<close>

primrec domain_route :: "domain_call \<Rightarrow> route" where
  "domain_route List_Domains = role_route ''GET'' ''/api/v1/domains/'' staff"
| "domain_route (Create_Domain n b) = role_route ''POST'' ''/api/v1/domains/'' [''admin'']"
| "domain_route (Get_Domain d) = role_route ''GET'' ''/api/v1/domains/{domain}'' staff"
| "domain_route (Delete_Domain d) = role_route ''DELETE'' ''/api/v1/domains/{domain}'' [''admin'']"
| "domain_route (Run_Doctor d) = role_route ''GET'' ''/api/v1/domains/{domain}/doctor'' staff"
| "domain_route (Domain_Dns d) = role_route ''GET'' ''/api/v1/domains/{domain}/dns'' staff"
| "domain_route (List_Dkim d) = role_route ''GET'' ''/api/v1/domains/{domain}/dkim'' staff"
| "domain_route (Generate_Dkim n r t d s) = role_route ''POST'' ''/api/v1/domains/{domain}/dkim'' managers"
| "domain_route (Verify_Dkim d s) = role_route ''POST'' ''/api/v1/domains/{domain}/dkim/{selector}/verify'' managers"
| "domain_route (Activate_Dkim d s) = role_route ''POST'' ''/api/v1/domains/{domain}/dkim/{selector}/activate'' managers"
| "domain_route (Revoke_Dkim d s) = role_route ''POST'' ''/api/v1/domains/{domain}/dkim/{selector}/revoke'' [''admin'']"
| "domain_route (List_Smtp_Keys d) = role_route ''GET'' ''/api/v1/domains/{domain}/smtp-keys'' staff"
| "domain_route (Create_Smtp_Key dr d b) = role_route ''POST'' ''/api/v1/domains/{domain}/smtp-keys'' managers"
| "domain_route (Revoke_Smtp_Key d i) = role_route ''POST'' ''/api/v1/domains/{domain}/smtp-keys/{keyID}/revoke'' managers"
| "domain_route (Get_Tls d) = role_route ''GET'' ''/api/v1/domains/{domain}/tls'' staff"
| "domain_route (Install_Tls n d b) = role_route ''POST'' ''/api/v1/domains/{domain}/tls'' [''admin'']"
| "domain_route (Get_Policy d) = role_route ''GET'' ''/api/v1/domains/{domain}/policy'' staff"
| "domain_route (Update_Policy d b) = role_route ''PUT'' ''/api/v1/domains/{domain}/policy'' managers"

primrec mailbox_route :: "mailbox_call \<Rightarrow> route" where
  "mailbox_route List_Mailboxes = role_route ''GET'' ''/api/v1/mailboxes/'' staff"
| "mailbox_route (Create_Mailbox n r b) = role_route ''POST'' ''/api/v1/mailboxes/'' managers"
| "mailbox_route (Get_Mailbox em) = owner_route ''GET'' ''/api/v1/mailboxes/{email}'' everyone"
| "mailbox_route (Delete_Mailbox em) = role_route ''DELETE'' ''/api/v1/mailboxes/{email}'' [''admin'']"
| "mailbox_route (Suspend_Mailbox em) = role_route ''POST'' ''/api/v1/mailboxes/{email}/suspend'' managers"
| "mailbox_route (Resume_Mailbox em) = role_route ''POST'' ''/api/v1/mailboxes/{email}/resume'' managers"
| "mailbox_route (Provision_Mailbox em) = role_route ''POST'' ''/api/v1/mailboxes/{email}/provision'' managers"
| "mailbox_route (Set_Password r em b) =
     owner_route ''POST'' ''/api/v1/mailboxes/{email}/password'' [''admin'', ''operator'', ''user'']"
| "mailbox_route (List_Aliases em) = owner_route ''GET'' ''/api/v1/mailboxes/{email}/aliases'' everyone"
| "mailbox_route (Create_Alias n em b) = role_route ''POST'' ''/api/v1/mailboxes/{email}/aliases'' managers"
| "mailbox_route (Delete_Alias em a) = role_route ''DELETE'' ''/api/v1/mailboxes/{email}/aliases/{alias}'' managers"
| "mailbox_route (Get_Quota em) = owner_route ''GET'' ''/api/v1/mailboxes/{email}/quota'' everyone"
| "mailbox_route (Update_Quota em b) = role_route ''PUT'' ''/api/v1/mailboxes/{email}/quota'' managers"
| "mailbox_route (Reconcile_Quota em) = role_route ''POST'' ''/api/v1/mailboxes/{email}/quota/reconcile'' managers"

primrec queue_route :: "queue_call \<Rightarrow> route" where
  "queue_route (Queue_List summary st) = role_route ''GET'' ''/api/v1/queue/'' staff"
| "queue_route (Queue_Inspect i) = role_route ''GET'' ''/api/v1/queue/{id}'' staff"
| "queue_route (Queue_Retry i) = role_route ''POST'' ''/api/v1/queue/{id}/retry'' managers"
| "queue_route (Queue_Hold i) = role_route ''POST'' ''/api/v1/queue/{id}/hold'' managers"
| "queue_route (Queue_Release i) = role_route ''POST'' ''/api/v1/queue/{id}/release'' managers"
| "queue_route (Queue_Delete i) = role_route ''DELETE'' ''/api/v1/queue/{id}'' [''admin'']"
| "queue_route Queue_Flush = role_route ''POST'' ''/api/v1/queue/flush'' [''admin'']"

primrec web_route :: "web_call \<Rightarrow> route" where
  "web_route List_Folders = role_route ''GET'' ''/api/v1/webmail/folders'' everyone"
| "web_route (List_Messages f p l q) = role_route ''GET'' ''/api/v1/webmail/messages'' everyone"
| "web_route (Get_Message i f) = role_route ''GET'' ''/api/v1/webmail/messages/{id}'' everyone"
| "web_route (Send_Message dr b) = role_route ''POST'' ''/api/v1/webmail/send'' [''admin'', ''operator'', ''user'']"
| "web_route (Mark_Read i f b) = role_route ''PUT'' ''/api/v1/webmail/messages/{id}/read'' [''admin'', ''operator'', ''user'']"
| "web_route (Move_Message i b) = role_route ''POST'' ''/api/v1/webmail/messages/{id}/move'' [''admin'', ''operator'', ''user'']"
| "web_route (Delete_Message i f) = role_route ''DELETE'' ''/api/v1/webmail/messages/{id}'' [''admin'', ''operator'', ''user'']"
| "web_route (Get_Attachment i att f) = role_route ''GET'' ''/api/v1/webmail/messages/{id}/attachments/{attId}'' everyone"

primrec call_route :: "api_call \<Rightarrow> route" where
  "call_route (Logout r) = open_route ''POST'' ''/api/v1/auth/logout''"
| "call_route Me = open_route ''GET'' ''/api/v1/auth/me''"
| "call_route (Domain_Call d) = domain_route d"
| "call_route (Mailbox_Call m) = mailbox_route m"
| "call_route List_Providers = role_route ''GET'' ''/api/v1/identity/providers'' staff"
| "call_route Ldap_Status = role_route ''GET'' ''/api/v1/ldap/status'' staff"
| "call_route Ldap_Doctor = role_route ''POST'' ''/api/v1/ldap/doctor'' staff"
| "call_route (Ldap_Sync dw req) = role_route ''POST'' ''/api/v1/ldap/sync'' [''admin'']"
| "call_route (Queue_Call q) = queue_route q"
| "call_route (List_Audit l) = role_route ''GET'' ''/api/v1/audit'' [''admin'', ''auditor'']"
| "call_route Get_Config = role_route ''GET'' ''/api/v1/config/'' staff"
| "call_route (Update_Config b) = role_route ''PUT'' ''/api/v1/config/'' [''admin'']"
| "call_route (Web_Call w) = web_route w"
| "call_route System_Status = role_route ''GET'' ''/api/v1/system/status'' staff"
| "call_route System_Doctor = role_route ''GET'' ''/api/v1/system/doctor'' staff"

text \<open>The calls go to the routes of the router, and to every one of them.\<close>

lemma call_route_known: "call_route c \<in> set (api_routes True)"
proof -
  have d: "domain_route d \<in> set domain_routes" for d by (cases d) (simp_all add: domain_routes_def)
  have m: "mailbox_route m \<in> set mailbox_routes" for m by (cases m) (simp_all add: mailbox_routes_def)
  have q: "queue_route q \<in> set system_routes" for q by (cases q) (simp_all add: system_routes_def)
  have w: "web_route w \<in> set webmail_routes" for w by (cases w) (simp_all add: webmail_routes_def)
  have "call_route c \<in> set (auth_routes @ domain_routes @ mailbox_routes @ system_routes @ webmail_routes)"
    by (cases c) (use d m q w in \<open>simp_all add: auth_routes_def\<close>, simp_all add: system_routes_def)
  then show ?thesis by (simp add: api_routes_def)
qed

lemma domain_route_all: "\<exists>cs. map domain_route cs = domain_routes"
  by (rule exI [of _ "[List_Domains, Create_Domain 0 (Inr ''''), Get_Domain '''', Delete_Domain '''', Run_Doctor '''',
      Domain_Dns '''', List_Dkim '''', Generate_Dkim 0 (Inl Fault) 0 '''' '''', Verify_Dkim '''' '''', Activate_Dkim '''' '''',
      Revoke_Dkim '''' '''', List_Smtp_Keys '''', Create_Smtp_Key undefined '''' (Inr ''''), Revoke_Smtp_Key '''' None,
      Get_Tls '''', Install_Tls 0 '''' (Inl Fault), Get_Policy '''', Update_Policy '''' (Inl Fault)]"])
    (simp add: domain_routes_def)

lemma mailbox_route_all: "\<exists>cs. map mailbox_route cs = mailbox_routes"
  by (rule exI [of _ "[List_Mailboxes, Create_Mailbox 0 (Inr '''') (Inl Fault), Get_Mailbox '''', Delete_Mailbox '''',
      Suspend_Mailbox '''', Resume_Mailbox '''', Provision_Mailbox '''', Set_Password (Inr '''') '''' (Inr ''''),
      List_Aliases '''', Create_Alias 0 '''' (Inr ''''), Delete_Alias '''' '''', Get_Quota '''', Update_Quota '''' (Inr 0),
      Reconcile_Quota '''']"])
    (simp add: mailbox_routes_def)

lemma web_route_all: "\<exists>cs. map web_route cs = webmail_routes"
  by (rule exI [of _ "[List_Folders, List_Messages '''' '''' '''' '''', Get_Message '''' '''', Send_Message undefined (Inl Fault),
      Mark_Read '''' '''' (Inl Fault), Move_Message '''' (Inl Fault), Delete_Message '''' '''', Get_Attachment '''' '''' '''']"])
    (simp add: webmail_routes_def)

lemma system_route_all: "\<exists>cs. map call_route cs = system_routes"
  by (rule exI [of _ "[List_Providers, Ldap_Status, Ldap_Doctor, Ldap_Sync undefined ('''', True, True),
      Queue_Call (Queue_List '''' ''''), Queue_Call (Queue_Inspect ''''), Queue_Call (Queue_Retry ''''),
      Queue_Call (Queue_Hold ''''), Queue_Call (Queue_Release ''''), Queue_Call (Queue_Delete ''''), Queue_Call Queue_Flush,
      List_Audit '''', Get_Config, Update_Config (Inl Fault), System_Status, System_Doctor]"])
    (simp add: system_routes_def)

lemma call_route_all: "\<exists>cs. map call_route cs = api_routes True"
proof -
  obtain ds ms ws ss where parts: "map domain_route ds = domain_routes" "map mailbox_route ms = mailbox_routes"
    "map web_route ws = webmail_routes" "map call_route ss = system_routes"
    using domain_route_all mailbox_route_all web_route_all system_route_all by metis
  have comps: "call_route \<circ> Domain_Call = domain_route" "call_route \<circ> Mailbox_Call = mailbox_route"
    "call_route \<circ> Web_Call = web_route"
    by (simp_all add: fun_eq_iff)
  show ?thesis
    by (rule exI [of _ "[Logout '''', Me] @ map Domain_Call ds @ map Mailbox_Call ms @ ss @ map Web_Call ws"])
      (simp add: api_routes_def auth_routes_def comps parts)
qed

text \<open>The parameter \<open>{email}\<close> of the path, as the router hands it to middleware and handler.\<close>

primrec mailbox_param :: "mailbox_call \<Rightarrow> string" where
  "mailbox_param List_Mailboxes = ''''"
| "mailbox_param (Create_Mailbox n r b) = ''''"
| "mailbox_param (Get_Mailbox em) = em"
| "mailbox_param (Delete_Mailbox em) = em"
| "mailbox_param (Suspend_Mailbox em) = em"
| "mailbox_param (Resume_Mailbox em) = em"
| "mailbox_param (Provision_Mailbox em) = em"
| "mailbox_param (Set_Password r em b) = em"
| "mailbox_param (List_Aliases em) = em"
| "mailbox_param (Create_Alias n em b) = em"
| "mailbox_param (Delete_Alias em a) = em"
| "mailbox_param (Get_Quota em) = em"
| "mailbox_param (Update_Quota em b) = em"
| "mailbox_param (Reconcile_Quota em) = em"

definition email_param :: "api_call \<Rightarrow> string" where
  "email_param c = (case c of Mailbox_Call m \<Rightarrow> mailbox_param m | _ \<Rightarrow> '''')"

section \<open>Dependencies and state\<close>

text \<open>
  The dependencies that \<open>internal/cli/server.go\<close> builds the router with. What lies outside of the
  program is a parameter: the encoders and parsers of the standard library, name servers and
  ports, the commands of Postfix, the directory, the SMTP server.
\<close>

record ('d, 'q, 'n) api_deps =
  ad_env :: api_env
  ad_digest :: digest
  ad_kdf :: kdf
  ad_mail :: mail_env
  ad_prov :: "fs_provisioner option"
  ad_codec :: rsa_codec
  ad_keys :: path
  ad_x509 :: x509
  ad_certs :: path
  ad_dns :: dns_env
  ad_fetch :: "string \<Rightarrow> (nat \<times> string) option"
  ad_outbound :: "ip option"
  ad_json :: json_decoder
  ad_system :: "'q mail_system"
  ad_container :: string
  ad_default :: string
  ad_ldap :: ldap_config
  ad_client :: "'d ldap_client"
  ad_salt :: "string result"
  ad_health :: health_env
  ad_count :: "nat result"
  ad_webmail :: maildir_service
  ad_mime :: mime_lib
  ad_sort :: "file_meta list \<Rightarrow> file_meta list"
  ad_compose :: compose_lib
  ad_smtp :: "'n smtp_net"

definition deps_prov :: "('d, 'q, 'n) api_deps \<Rightarrow> disk provisioner option" where
  "deps_prov a = map_option fs_provisioner_ops (ad_prov a)"

definition deps_identities :: "('d, 'q, 'n) api_deps \<Rightarrow> 'd identity_service" where
  "deps_identities a = new_identity_service (ad_default a)
     (mail_providers (ad_kdf a) (ae_now (ad_env a)) (ad_salt a) (ad_ldap a) (ad_client a)) True True True"

definition deps_sync :: "('d, 'q, 'n) api_deps \<Rightarrow> disk sync_env" where
  "deps_sync a = \<lparr>se_mail = ad_mail a, se_prov = deps_prov a, se_now = ae_now (ad_env a)\<rparr>"

text \<open>
  What the handlers work on: the database with the table of settings, the disk, the directory, the
  queue of Postfix, the connections to the SMTP server, and the address that the handler of
  domains remembers.
\<close>

record ('d, 'q, 'n) host =
  host_db :: db
  host_settings :: settings
  host_disk :: disk
  host_dir :: 'd
  host_queue :: 'q
  host_net :: 'n
  host_ip :: ip_cache

definition in_db :: "('d, 'q, 'n) host \<Rightarrow> 'a reply \<times> db \<Rightarrow> nat \<times> ('d, 'q, 'n) host" where
  "in_db s r = (reply_status (fst r), s\<lparr>host_db := snd r\<rparr>)"

definition in_disk :: "('d, 'q, 'n) host \<Rightarrow> 'a reply \<times> disk \<Rightarrow> nat \<times> ('d, 'q, 'n) host" where
  "in_disk s r = (reply_status (fst r), s\<lparr>host_disk := snd r\<rparr>)"

definition in_both :: "('d, 'q, 'n) host \<Rightarrow> 'a reply \<times> db \<times> disk \<Rightarrow> nat \<times> ('d, 'q, 'n) host" where
  "in_both s r = (reply_status (fst r), s\<lparr>host_db := fst (snd r), host_disk := snd (snd r)\<rparr>)"

definition in_queue :: "('d, 'q, 'n) host \<Rightarrow> 'a reply \<times> 'q \<Rightarrow> nat \<times> ('d, 'q, 'n) host" where
  "in_queue s r = (reply_status (fst r), s\<lparr>host_queue := snd r\<rparr>)"

section \<open>Running a call\<close>

primrec run_domain :: "('d, 'q, 'n) api_deps \<Rightarrow> domain_call \<Rightarrow> ('d, 'q, 'n) host \<Rightarrow> nat \<times> ('d, 'q, 'n) host" where
  "run_domain a List_Domains s = in_db s (h_list_domains (host_db s))"
| "run_domain a (Create_Domain n b) s = in_db s (h_create_domain (ad_env a) n b (host_db s))"
| "run_domain a (Get_Domain d) s = in_db s (h_get_domain d (host_db s))"
| "run_domain a (Delete_Domain d) s = in_db s (h_delete_domain (ad_env a) d (host_db s))"
| "run_domain a (Run_Doctor d) s = in_db s (h_domain_doctor (ad_dns a) d (host_db s))"
| "run_domain a (Domain_Dns d) s =
     (case h_domain_dns (ad_env a) (ad_codec a) (fs_keystore (ad_keys a)) (ad_fetch a) (ad_outbound a) d
             (host_db s) (host_disk s) (host_ip s) of
        (r, db1, k1, ip1) \<Rightarrow> (reply_status r, s\<lparr>host_db := db1, host_disk := k1, host_ip := ip1\<rparr>))"
| "run_domain a (List_Dkim d) s = in_db s (h_list_dkim d (host_db s))"
| "run_domain a (Generate_Dkim n r t d sel) s =
     in_both s (h_generate_dkim (ad_env a) (ad_codec a) (fs_keystore (ad_keys a)) n r t d sel (host_db s) (host_disk s))"
| "run_domain a (Verify_Dkim d sel) s =
     in_disk s (h_verify_dkim (ad_codec a) (fs_keystore (ad_keys a)) (dn_txt (ad_dns a)) d sel (host_disk s))"
| "run_domain a (Activate_Dkim d sel) s =
     in_both s (h_activate_dkim (ad_env a) (fs_keystore (ad_keys a)) d sel (host_db s) (host_disk s))"
| "run_domain a (Revoke_Dkim d sel) s = in_db s (h_revoke_dkim (ad_env a) d sel (host_db s))"
| "run_domain a (List_Smtp_Keys d) s = in_db s (h_list_smtp_keys True d (host_db s))"
| "run_domain a (Create_Smtp_Key dr d b) s = in_db s (h_create_smtp_key (ad_env a) (ad_kdf a) dr True d b (host_db s))"
| "run_domain a (Revoke_Smtp_Key d i) s = in_db s (h_revoke_smtp_key (ad_env a) True d i (host_db s))"
| "run_domain a (Get_Tls d) s = in_disk s (h_get_tls (ad_env a) (ad_x509 a) (ad_certs a) d (host_disk s))"
| "run_domain a (Install_Tls n d b) s = in_disk s (h_install_tls (ad_env a) (ad_x509 a) n (ad_certs a) d b (host_disk s))"
| "run_domain a (Get_Policy d) s = in_db s (h_get_policy (ad_env a) d (host_db s))"
| "run_domain a (Update_Policy d b) s = in_db s (h_update_policy (ad_env a) d b (host_db s))"

primrec run_mailbox :: "('d, 'q, 'n) api_deps \<Rightarrow> mailbox_call \<Rightarrow> ('d, 'q, 'n) host \<Rightarrow> nat \<times> ('d, 'q, 'n) host" where
  "run_mailbox a List_Mailboxes s = in_db s (h_list_mailboxes (host_db s))"
| "run_mailbox a (Create_Mailbox n r b) s =
     in_both s (h_create_mailbox (ad_env a) (ad_mail a) (deps_prov a) n r b (host_db s) (host_disk s))"
| "run_mailbox a (Get_Mailbox em) s = in_db s (h_get_mailbox em (host_db s))"
| "run_mailbox a (Delete_Mailbox em) s = in_both s (h_delete_mailbox (ad_env a) (deps_prov a) em (host_db s) (host_disk s))"
| "run_mailbox a (Suspend_Mailbox em) s = in_db s (h_suspend_mailbox (ad_env a) em (host_db s))"
| "run_mailbox a (Resume_Mailbox em) s = in_db s (h_resume_mailbox (ad_env a) em (host_db s))"
| "run_mailbox a (Provision_Mailbox em) s =
     in_both s (h_provision_mailbox (ad_env a) (deps_prov a) em (host_db s) (host_disk s))"
| "run_mailbox a (Set_Password r em b) s = in_db s (h_set_password (ad_env a) (ad_mail a) r em b (host_db s))"
| "run_mailbox a (List_Aliases em) s = in_db s (h_list_aliases em (host_db s))"
| "run_mailbox a (Create_Alias n em b) s = in_db s (h_create_alias (ad_env a) n em b (host_db s))"
| "run_mailbox a (Delete_Alias em al) s = in_db s (h_delete_alias em al (host_db s))"
| "run_mailbox a (Get_Quota em) s = in_db s (h_get_quota em (host_db s))"
| "run_mailbox a (Update_Quota em b) s = in_db s (h_update_quota (ad_env a) em b (host_db s))"
| "run_mailbox a (Reconcile_Quota em) s = in_both s (h_reconcile_quota (ad_env a) (ad_prov a) em (host_db s) (host_disk s))"

text \<open>The list is the summary when the query asks for it.\<close>

primrec run_queue :: "('d, 'q, 'n) api_deps \<Rightarrow> queue_call \<Rightarrow> ('d, 'q, 'n) host \<Rightarrow> nat \<times> ('d, 'q, 'n) host" where
  "run_queue a (Queue_List summary st) s =
     (case h_queue_status_or_list (ad_env a) (ad_json a) (ad_system a) (ad_container a) summary st (host_queue s) of
        (Inl r, q1) \<Rightarrow> in_queue s (r, q1) | (Inr r, q1) \<Rightarrow> in_queue s (r, q1))"
| "run_queue a (Queue_Inspect i) s = in_queue s (h_queue_inspect (ad_system a) (ad_container a) i (host_queue s))"
| "run_queue a (Queue_Retry i) s = in_queue s (h_queue_retry (ad_system a) (ad_container a) i (host_queue s))"
| "run_queue a (Queue_Hold i) s = in_queue s (h_queue_hold (ad_system a) (ad_container a) i (host_queue s))"
| "run_queue a (Queue_Release i) s = in_queue s (h_queue_release (ad_system a) (ad_container a) i (host_queue s))"
| "run_queue a (Queue_Delete i) s = in_queue s (h_queue_delete (ad_system a) (ad_container a) i (host_queue s))"
| "run_queue a Queue_Flush s = in_queue s (h_queue_flush (ad_system a) (ad_container a) (host_queue s))"

text \<open>The webmail works for the address of the claims.\<close>

primrec run_web :: "('d, 'q, 'n) api_deps \<Rightarrow> string \<Rightarrow> web_call \<Rightarrow> ('d, 'q, 'n) host \<Rightarrow> nat \<times> ('d, 'q, 'n) host" where
  "run_web a em List_Folders s = in_disk s (h_list_folders (ad_webmail a) em (host_disk s))"
| "run_web a em (List_Messages f p l q) s =
     in_disk s (h_list_messages (ad_mime a) (ad_sort a) (ad_webmail a) em f p l q (host_disk s))"
| "run_web a em (Get_Message i f) s = in_disk s (h_get_message (ad_env a) (ad_mime a) (ad_webmail a) em i f (host_disk s))"
| "run_web a em (Send_Message dr b) s =
     (case h_send_message (ad_compose a) (ad_smtp a) dr (ad_webmail a) em b (host_disk s) (host_net s) of
        (r, k1, n1) \<Rightarrow> (reply_status r, s\<lparr>host_disk := k1, host_net := n1\<rparr>))"
| "run_web a em (Mark_Read i f b) s = in_disk s (h_mark_read (ad_webmail a) em i f b (host_disk s))"
| "run_web a em (Move_Message i b) s = in_disk s (h_move_message (ad_webmail a) em i b (host_disk s))"
| "run_web a em (Delete_Message i f) s = in_disk s (h_delete_message (ad_webmail a) em i f (host_disk s))"
| "run_web a em (Get_Attachment i att f) s =
     in_disk s (h_get_attachment (ad_env a) (ad_mime a) (ad_webmail a) em i att f (host_disk s))"

text \<open>\<open>Me\<close>: the identity, or what the claims say when it is not found.\<close>

definition h_me ::
    "'d identity_service \<Rightarrow> claims \<Rightarrow> db \<Rightarrow> 'd \<Rightarrow> (identity + string \<times> string) reply \<times> db \<times> 'd" where
  "h_me svc cl db d =
     (case id_lookup svc (cl_email cl) db d of
        (Inl err, db1, d1) \<Rightarrow> (Json_Reply 200 (Inr (cl_email cl, cl_role cl)), db1, d1)
      | (Inr ident, db1, d1) \<Rightarrow> (Json_Reply 200 (Inl ident), db1, d1))"

text \<open>The doctor asks the queue twice, once for each category that shows it.\<close>

definition run_doctor_call :: "('d, 'q, 'n) api_deps \<Rightarrow> ('d, 'q, 'n) host \<Rightarrow> nat \<times> ('d, 'q, 'n) host" where
  "run_doctor_call a s =
     (let ask = queue_get_status (ad_json a) (ae_now (ad_env a)) (ad_system a) (ad_container a);
          (r1, q1) = ask (host_queue s);
          (r2, q2) = ask q1
      in in_disk (s\<lparr>host_queue := q2\<rparr>)
           (h_system_doctor ((ad_health a)\<lparr>he_queue := Some r1\<rparr>) (ad_count a) (Some r2) (host_disk s)))"

primrec run_call :: "('d, 'q, 'n) api_deps \<Rightarrow> claims \<Rightarrow> api_call \<Rightarrow> ('d, 'q, 'n) host \<Rightarrow> nat \<times> ('d, 'q, 'n) host" where
  "run_call a cl (Logout raw) s =
     (200, s\<lparr>host_db := http_logout (ad_digest a) (ae_now (ad_env a)) raw cl (host_db s)\<rparr>)"
| "run_call a cl Me s =
     (case h_me (deps_identities a) cl (host_db s) (host_dir s) of
        (r, db1, d1) \<Rightarrow> (reply_status r, s\<lparr>host_db := db1, host_dir := d1\<rparr>))"
| "run_call a cl (Domain_Call d) s = run_domain a d s"
| "run_call a cl (Mailbox_Call m) s = run_mailbox a m s"
| "run_call a cl List_Providers s = (reply_status h_list_providers, s)"
| "run_call a cl Ldap_Status s = (reply_status (h_ldap_doctor (deps_identities a)), s)"
| "run_call a cl Ldap_Doctor s = (reply_status (h_ldap_doctor (deps_identities a)), s)"
| "run_call a cl (Ldap_Sync dw req) s =
     (case h_ldap_sync (deps_identities a) (deps_sync a) dw req (host_db s) (host_dir s) (host_disk s) of
        (r, db1, d1, k1) \<Rightarrow> (reply_status r, s\<lparr>host_db := db1, host_dir := d1, host_disk := k1\<rparr>))"
| "run_call a cl (Queue_Call q) s = run_queue a q s"
| "run_call a cl (List_Audit l) s = in_db s (h_list_audit l (host_db s))"
| "run_call a cl Get_Config s = in_db s (h_get_config (host_settings s) (host_db s))"
| "run_call a cl (Update_Config b) s =
     (case h_update_config (ad_env a) b (host_settings s) (host_db s) of
        (r, st1, db1) \<Rightarrow> (reply_status r, s\<lparr>host_settings := st1, host_db := db1\<rparr>))"
| "run_call a cl (Web_Call w) s = run_web a (cl_email cl) w s"
| "run_call a cl System_Status s = in_disk s (h_ready (ad_health a) (host_disk s))"
| "run_call a cl System_Doctor s = run_doctor_call a s"

text \<open>A request: authentication, the roles and the ownership of its route, then the handler.\<close>

definition api_serve ::
    "('d, 'q, 'n) api_deps \<Rightarrow> string \<Rightarrow> api_call \<Rightarrow> ('d, 'q, 'n) host \<Rightarrow> nat \<times> ('d, 'q, 'n) host" where
  "api_serve a header c s =
     (case authorize (ad_digest a) (ae_now (ad_env a)) (call_route c) header (email_param c) (host_db s) of
        (Refused code m, db1) \<Rightarrow> (code, s\<lparr>host_db := db1\<rparr>)
      | (Passed cl, db1) \<Rightarrow> run_call a cl c (s\<lparr>host_db := db1\<rparr>))"

section \<open>What reading leaves alone\<close>

text \<open>
  A database but for its tokens and faults; two databases that differ, besides these, in the log
  and in the password of one address only.
\<close>

definition settled :: "db \<Rightarrow> db" where
  "settled db = db\<lparr>api_tokens := [], faults := []\<rparr>"

definition without_secret :: "mailbox \<Rightarrow> mailbox" where
  "without_secret m = m\<lparr>mb_password_hash := '''', mb_updated_at := 0\<rparr>"

definition only_password_of :: "string \<Rightarrow> db \<Rightarrow> db \<Rightarrow> bool" where
  "only_password_of em db db' \<longleftrightarrow>
     (settled db')\<lparr>mailboxes := [], audit_logs := []\<rparr> = (settled db)\<lparr>mailboxes := [], audit_logs := []\<rparr> \<and>
     map without_secret (mailboxes db') = map without_secret (mailboxes db) \<and>
     filter (\<lambda>m. mb_email m \<noteq> em) (mailboxes db') = filter (\<lambda>m. mb_email m \<noteq> em) (mailboxes db)"

lemma settled_simps [simp]: "settled (tick db) = settled db" "settled (db\<lparr>api_tokens := t\<rparr>) = settled db"
  by (simp_all add: settled_def tick_def)

lemma settled_tables: "settled db' = settled db \<Longrightarrow> mailboxes db' = mailboxes db \<and> domains db' = domains db"
  by (cases db; cases db') (simp add: settled_def)

lemma settled_only_password: "settled db' = settled db \<Longrightarrow> only_password_of em db db'"
  using settled_tables [of db' db] by (simp add: only_password_of_def)

lemma only_password_trans: "only_password_of em a b \<Longrightarrow> only_password_of em b c \<Longrightarrow> only_password_of em a c"
  by (simp add: only_password_of_def)

named_theorems reading \<open>statements and operations that only read, but for tokens\<close>

lemma sql_reading [reading]:
  "sql_query f db = (r, db') \<Longrightarrow> settled db' = settled db"
  "sql_query_row g db = (r', db') \<Longrightarrow> settled db' = settled db"
  by (auto simp: sql_query_def sql_query_row_def db_call_def split: if_splits)

lemma token_reading [reading]:
  "token_get_by_hash h db = (r, db') \<Longrightarrow> settled db' = settled db"
  by (auto simp: token_get_by_hash_def dest!: reading)

lemma settled_token_update [simp]: "settled (snd (token_update P f db)) = settled db"
  by (simp add: token_update_def sql_exec_def db_call_def)

lemma settled_logout [simp]: "settled (http_logout sha now raw cl db) = settled db"
  by (simp add: http_logout_def revoke_token_def revoke_all_for_email_def revoke_by_hash_def revoke_email_def Let_def)

lemma validate_reading [reading]:
  "validate_access_token sha now raw db = (r, db') \<Longrightarrow> settled db' = settled db"
  by (auto simp: validate_access_token_def update_last_used_def
      split: if_splits prod.splits sum.splits dest!: token_reading)

lemma authorize_reading [reading]: "authorize sha now rt hdr p db = (r, db') \<Longrightarrow> settled db' = settled db"
  by (auto simp: authorize_def mw_authenticate_def split: if_splits prod.splits sum.splits outcome.splits
      dest!: validate_reading)

lemma repo_reading [reading]:
  "domain_repo_list db = (r1, db') \<Longrightarrow> settled db' = settled db"
  "domain_get_by_name n db = (r2, db') \<Longrightarrow> settled db' = settled db"
  "smtp_repo_list i db = (r3, db') \<Longrightarrow> settled db' = settled db"
  "list_dkim_keys_by_domain i db = (r4, db') \<Longrightarrow> settled db' = settled db"
  "repo_get_policy i db = (r5, db') \<Longrightarrow> settled db' = settled db"
  "repo_list_audit_logs l db = (r6, db') \<Longrightarrow> settled db' = settled db"
  "mailbox_repo_list db = (r7, db') \<Longrightarrow> settled db' = settled db"
  "mailbox_get_by_email n db = (r8, db') \<Longrightarrow> settled db' = settled db"
  "list_aliases_by_destination n db = (r9, db') \<Longrightarrow> settled db' = settled db"
  by (auto simp: domain_repo_list_def domain_get_by_name_def smtp_repo_list_def list_dkim_keys_by_domain_def
      repo_get_policy_def repo_list_audit_logs_def mailbox_repo_list_def mailbox_get_by_email_def
      list_aliases_by_destination_def Let_def split: if_splits prod.splits sum.splits dest!: sql_reading)

lemma service_reading [reading]:
  "domain_svc_get_by_name n db = (r2, db') \<Longrightarrow> settled db' = settled db"
  "smtp_list n db = (r3, db') \<Longrightarrow> settled db' = settled db"
  "dkim_list_keys n db = (r4, db') \<Longrightarrow> settled db' = settled db"
  "dkim_get_policy ge n db = (r5, db') \<Longrightarrow> settled db' = settled db"
  "mailbox_svc_get n db = (r8, db') \<Longrightarrow> settled db' = settled db"
  "get_quota n db = (r9, db') \<Longrightarrow> settled db' = settled db"
  by (auto simp: domain_svc_get_by_name_def smtp_list_def smtp_get_domain_def dkim_list_keys_def dkim_get_policy_def
      mailbox_svc_get_def get_quota_def Let_def split: if_splits prod.splits sum.splits dest!: repo_reading)

lemma handler_reading:
  "h_list_domains db = (r1, db') \<Longrightarrow> settled db' = settled db"
  "h_get_domain n db = (r2, db') \<Longrightarrow> settled db' = settled db"
  "h_list_smtp_keys b n db = (r3, db') \<Longrightarrow> settled db' = settled db"
  "h_list_dkim n db = (r4, db') \<Longrightarrow> settled db' = settled db"
  "h_get_policy e n db = (r5, db') \<Longrightarrow> settled db' = settled db"
  "h_list_audit l db = (r6, db') \<Longrightarrow> settled db' = settled db"
  "h_list_mailboxes db = (r7, db') \<Longrightarrow> settled db' = settled db"
  "h_get_mailbox n db = (r8, db') \<Longrightarrow> settled db' = settled db"
  "h_list_aliases n db = (r9, db') \<Longrightarrow> settled db' = settled db"
  "h_get_quota n db = (r10, db') \<Longrightarrow> settled db' = settled db"
  by (auto simp: h_list_domains_def h_get_domain_def h_list_smtp_keys_def h_list_dkim_def h_get_policy_def
      h_list_audit_def h_list_mailboxes_def h_get_mailbox_def h_list_aliases_def h_get_quota_def domain_list_def
      list_audit_logs_def split: if_splits prod.splits sum.splits dest!: repo_reading service_reading)

section \<open>The own password\<close>

lemma lower_percent: "CHR ''%'' \<in> set (to_lower s) \<longleftrightarrow> CHR ''%'' \<in> set s"
proof -
  have "\<not> is_upper CHR ''%''" "\<not> is_lower CHR ''%''" by code_simp+
  then have "lower_char c = CHR ''%'' \<longleftrightarrow> c = CHR ''%''" for c by (rule lower_char_eq_iff)
  then have "CHR ''%'' = lower_char c \<longleftrightarrow> CHR ''%'' = c" for c by (simp only: eq_commute [of "CHR ''%''"])
  then show ?thesis by (induction s) (simp_all only: to_lower_def list.map list.set insert_iff)
qed

lemma url_unescape_plain: "CHR ''%'' \<notin> set s \<Longrightarrow> url_unescape False s = Some s"
  by (induction s) auto

text \<open>
  The middleware compares the parameter as it stands, the handler unescapes it once more: on
  addresses without a percent sign both mean the same account.
\<close>

lemma own_param:
  assumes "equal_fold (cl_email cl) raw" and "CHR ''%'' \<notin> set (cl_email cl)"
  shows "parse_email_param raw = canon (cl_email cl)"
proof -
  have l: "to_lower raw = to_lower (cl_email cl)" using assms(1) by (simp add: equal_fold_def)
  then have "CHR ''%'' \<notin> set raw" using assms(2) lower_percent by metis
  with l show ?thesis by (simp add: parse_email_param_def url_unescape_plain canon_def)
qed

text \<open>With a percent sign they do not: this account passes as itself and acts on another one.\<close>

lemma percent_param:
  "require_mailbox_ownership ''a%62@example.org'' \<lparr>cl_token_id = 1, cl_user_id = None,
      cl_email = ''a%62@example.org'', cl_role = ''user''\<rparr> = Passed () \<and>
   parse_email_param ''a%62@example.org'' = ''ab@example.org''"
  by code_simp

lemma note_audit_settled: "(settled (note_audit e a kind i meta db))\<lparr>audit_logs := []\<rparr> = (settled db)\<lparr>audit_logs := []\<rparr>"
  by (auto simp: note_audit_def record_audit_def create_audit_log_def Let_def sql_insert_def sql_exec_def db_call_def
      settled_def tick_def split: option.splits prod.splits sum.splits)

lemma note_audit_mailboxes: "mailboxes (note_audit e a kind i meta db) = mailboxes db"
  by (auto simp: note_audit_def record_audit_def create_audit_log_def Let_def sql_insert_def sql_exec_def db_call_def
      split: option.splits prod.splits sum.splits if_splits)

lemma clear_both: "(x :: db)\<lparr>mailboxes := a, audit_logs := b\<rparr> = x\<lparr>audit_logs := b, mailboxes := a\<rparr>"
  by (cases x) simp

lemma update_own_row:
  assumes "distinct (map mb_id ms)" and "m \<in> set ms" and "mb_email m = em" and "mb_id m = i"
    and "\<And>x. mb_email (f x) = mb_email x" and "\<And>x. without_secret (f x) = without_secret x"
  shows "filter (\<lambda>m. mb_email m \<noteq> em) (update_where (\<lambda>m. mb_id m = i) f ms) = filter (\<lambda>m. mb_email m \<noteq> em) ms"
    and "map without_secret (update_where (\<lambda>m. mb_id m = i) f ms) = map without_secret ms"
proof -
  have own: "x \<in> set ms \<Longrightarrow> mb_id x = i \<Longrightarrow> x = m" for x
    using assms(1,2,4) by (auto simp: distinct_map inj_on_def)
  have "filter (\<lambda>m. mb_email m \<noteq> em) (map (\<lambda>x. if mb_id x = i then f x else x) xs) = filter (\<lambda>m. mb_email m \<noteq> em) xs"
    if "set xs \<subseteq> set ms" for xs
    using that own assms(3) by (induction xs) (auto simp: assms(5))
  then show "filter (\<lambda>m. mb_email m \<noteq> em) (update_where (\<lambda>m. mb_id m = i) f ms) = filter (\<lambda>m. mb_email m \<noteq> em) ms"
    by (simp add: update_where_def)
  show "map without_secret (update_where (\<lambda>m. mb_id m = i) f ms) = map without_secret ms"
    by (simp add: update_where_def assms(6) if_distrib [of without_secret] cong: if_cong)
qed

lemma update_hash_own:
  assumes "wf_mailboxes db" and "mailbox_get_by_email em db0 = (Inr mb, db)" and "settled db = settled db0"
  shows "only_password_of em db (snd (update_password_hash now (mb_id mb) h db))"
proof -
  from assms(2) have "mb \<in> set (mailbox_rows db0) \<and> mb_email mb = em"
    by (auto simp: sql_simps dest: find_SomeD split: if_splits option.splits)
  moreover have "mailboxes db0 = mailboxes db" using settled_tables [OF assms(3)] by simp
  ultimately obtain m where m: "m \<in> set (mailboxes db)" "mb_email m = em" "mb_id m = mb_id mb"
    by (auto simp: mailbox_rows_def List.map_filter_def join_domain_def)
  let ?f = "\<lambda>x. x\<lparr>mb_password_hash := h, mb_updated_at := now\<rparr>"
  have d: "distinct (map mb_id (mailboxes db))" using assms(1) by (simp add: wf_mailboxes_def)
  note own = update_own_row [OF d m(1,2) m(3), of ?f]
  show ?thesis
    by (simp add: update_password_hash_def mailbox_update_db only_password_of_def settled_def own without_secret_def tick_def)
qed

lemma set_password_own:
  assumes "wf_mailboxes db"
  shows "only_password_of (canon em) db (snd (mailbox_set_password env now rnd em pw db))"
proof -
  let ?em = "trim_space (to_lower em)"
  obtain r db1 where 1: "mailbox_get_by_email ?em db = (r, db1)" by fastforce
  have s: "settled db1 = settled db" using repo_reading(8) [OF 1] .
  have wf: "wf_mailboxes db1" using settled_tables [OF s] assms by (simp add: wf_mailboxes_def)
  have keep: "only_password_of ?em db db" "only_password_of ?em db db1"
    by (rule settled_only_password, simp add: s)+
  have "only_password_of ?em db (snd (update_password_hash now (mb_id mb) h db1))" if "r = Inr mb" for mb h
    using only_password_trans [OF keep(2) update_hash_own [OF wf 1 [unfolded that] s]] .
  then show ?thesis
    using keep 1 unfolding canon_def
    by (auto simp: mailbox_set_password_def Let_def split: sum.splits err.splits)
qed

lemma h_set_password_own:
  assumes "wf_mailboxes db"
  shows "only_password_of (canon (parse_email_param raw)) db (snd (h_set_password e env rnd raw body db))"
proof -
  let ?em = "parse_email_param raw"
  have logged: "only_password_of em d (note_audit e a kd i meta d)" for em d a kd i meta
    using arg_cong [OF note_audit_settled [of e a kd i meta d], of "\<lambda>x. x\<lparr>mailboxes := []\<rparr>"]
    by (simp add: only_password_of_def note_audit_mailboxes clear_both)
  have "only_password_of (canon ?em) db (snd (mailbox_set_password env (ae_now e) rnd ?em pw db))" for pw
    using set_password_own [OF assms] .
  then have own: "mailbox_set_password env (ae_now e) rnd ?em pw db = (r, d) \<Longrightarrow> only_password_of (canon ?em) db d" for pw r d
    by (metis snd_conv)
  have "only_password_of (canon ?em) db db" by (rule settled_only_password) simp
  then show ?thesis
    by (auto simp: h_set_password_def Let_def split: sum.splits prod.splits dest!: own intro: only_password_trans [OF _ logged])
qed

text \<open>Without a parameter nothing is changed, because the empty address is not valid.\<close>

lemma h_set_password_empty: "h_set_password e env rnd '''' body db = (r, db') \<Longrightarrow> db' = db"
proof -
  have "parse_email_param '''' = ''''" by code_simp
  moreover have "mailbox_set_password env now rnd '''' pw db = (Inl err_invalid_email, db)" for now pw
    by (simp add: mailbox_set_password_def is_valid_email_def trim_space_def trim_left_def trim_right_def)
  moreover assume "h_set_password e env rnd '''' body db = (r, db')"
  ultimately show "db' = db" by (auto simp: h_set_password_def Let_def split: sum.splits if_splits)
qed

section \<open>Reading the rest\<close>

lemma more_reading [reading]:
  "get_active_dkim_key i db = (r1, db') \<Longrightarrow> settled db' = settled db"
  "settings_get_all st db = (r2, db') \<Longrightarrow> settled db' = settled db"
  "local_lookup u db = (r3, db') \<Longrightarrow> settled db' = settled db"
  by (auto simp: get_active_dkim_key_def dkim_query_def settings_get_all_def local_lookup_def Let_def
      split: if_splits prod.splits sum.splits dest!: sql_reading repo_reading)

lemma active_key_reading [reading]: "dkim_get_active_key dn db = (r, db') \<Longrightarrow> settled db' = settled db"
  by (auto simp: dkim_get_active_key_def split: prod.splits sum.splits dest!: repo_reading more_reading)

lemma doctor_reading [reading]:
  "domain_status_check b dn rep db = (r1, db') \<Longrightarrow> settled db' = settled db"
  "txt_policy p ts f ge b dn db = (r2, db') \<Longrightarrow> settled db' = settled db"
  "first_selector b dn db = (r3, db') \<Longrightarrow> settled db' = settled db"
  by (auto simp: domain_status_check_def txt_policy_def first_selector_def
      split: if_splits prod.splits sum.splits option.splits list.splits dest!: service_reading)

lemma h_domain_doctor_reading: "settled (snd (h_domain_doctor e raw db)) = settled db"
proof -
  obtain rep1 db1 where 1: "domain_status_check True (to_lower (trim_space raw)) new_report db = (rep1, db1)" by fastforce
  obtain spf db2 where 2: "txt_policy ''v=spf1'' (dn_txt e (to_lower (trim_space raw))) pol_spf (dn_getenv e) True
      (to_lower (trim_space raw)) db1 = (spf, db2)" by fastforce
  obtain sel db3 where 3: "first_selector True (to_lower (trim_space raw)) db2 = (sel, db3)" by fastforce
  obtain dm db4 where 4: "txt_policy ''v=DMARC1'' (dn_txt e (''_dmarc.'' @ to_lower (trim_space raw))) pol_dmarc (dn_getenv e) True
      (to_lower (trim_space raw)) db3 = (dm, db4)" by fastforce
  have "snd (h_domain_doctor e raw db) = db4"
    by (simp add: h_domain_doctor_def run_domain_doctor_def 1 2 3 4 [simplified] Let_def)
  then show ?thesis using doctor_reading(1) [OF 1] doctor_reading(2) [OF 2] doctor_reading(3) [OF 3]
    doctor_reading(2) [OF 4] by simp
qed

text \<open>Reading the disk: the files stay.\<close>

lemma read_files: "os_read_file p k = (r1, k') \<Longrightarrow> files k' = files k" "os_stat p k = (r2, k') \<Longrightarrow> files k' = files k"
  using snd_os_reads(1,2) by (metis files_dtick(1) snd_conv)+

lemma fs_get_files: "ks_get (fs_keystore base) dn sel k = (r, k') \<Longrightarrow> files k' = files k"
  by (auto simp: fs_keystore_def fs_get_key_def Let_def split: sum.splits prod.splits dest: read_files)

lemma dkim_record_files:
  assumes "dkim_record_of cod (fs_keystore base) dn db k = (r, db', k')"
  shows "settled db' = settled db \<and> files k' = files k"
proof -
  have rec: "dkim_get_dns_record cod (fs_keystore base) dn s k0 = (x, k1) \<Longrightarrow> files k1 = files k0" for s k0 x k1
    by (auto simp: dkim_get_dns_record_def split: sum.splits prod.splits dest!: fs_get_files)
  show ?thesis
    using assms by (auto simp: dkim_record_of_def Let_def split: sum.splits prod.splits dest!: rec active_key_reading)
qed

lemma h_domain_dns_reading:
  assumes "h_domain_dns e cod (fs_keystore base) fetch out raw db k ip = (r, db', k', ip')"
  shows "settled db' = settled db \<and> files k' = files k"
  using assms
  by (auto simp: h_domain_dns_def Let_def split: prod.splits dest!: dkim_record_files service_reading(4))

lemma h_get_tls_files: "files (snd (h_get_tls e x base raw k)) = files k"
proof -
  obtain r1 k1 where 1: "os_read_file (tls_cert_path base raw) k = (r1, k1)" by fastforce
  obtain r2 k2 where 2: "os_read_file (tls_key_path base raw) k1 = (r2, k2)" by fastforce
  have "snd (h_get_tls e x base raw k) \<in> {k1, k2}"
    by (simp add: h_get_tls_def tls_validate_def Let_def 1 2 split: sum.split prod.split option.split)
  then show ?thesis using read_files(1) [OF 1] read_files(1) [OF 2] by auto
qed

lemma h_ready_files: "files (snd (h_ready he k)) = files k"
  by (auto simp: h_ready_def ready_def Let_def split: sum.splits prod.splits option.splits dest!: read_files(2))

lemma h_system_doctor_files: "files (snd (h_system_doctor he count q2 k)) = files k"
proof -
  have "snd (run_system_doctor he count q2 k) = k \<or>
      (\<exists>p. snd (run_system_doctor he count q2 k) = snd (os_stat p k))"
    unfolding run_system_doctor_def Let_def
    by (cases "he_vmail he") (simp_all add: split_beta sum.case_eq_if exI)
  then have "files (snd (run_system_doctor he count q2 k)) = files k" by auto
  then show ?thesis by (simp add: h_system_doctor_def split_beta)
qed

lemma h_me_reading:
  assumes "h_me (deps_identities a) cl db d = (r, db', d')"
  shows "settled db' = settled db"
proof -
  have "id_lookup (deps_identities a) u db d = (x, db1, d1) \<Longrightarrow> settled db1 = settled db" for u x db1 d1
    by (auto simp: id_lookup_def get_provider_def deps_identities_def new_identity_service_def mail_providers_def
        local_provider_def ldap_provider_def Let_def split: if_splits sum.splits option.splits prod.splits
        dest!: more_reading(3))
  with assms show ?thesis by (auto simp: h_me_def split: sum.splits prod.splits)
qed

section \<open>Asking the queue\<close>

text \<open>The commands that only show the queue or a message of it, here or in the container.\<close>

definition only_shows :: "string \<Rightarrow> string list \<Rightarrow> bool" where
  "only_shows container args \<longleftrightarrow>
     (let cmd = (if take 3 args = [''docker'', ''exec'', container] then drop 3 args else args)
      in cmd = [''postqueue'', ''-p''] \<or> (length cmd = 3 \<and> take 2 cmd = [''postcat'', ''-q'']))"

inductive asked :: "'q mail_system \<Rightarrow> string \<Rightarrow> 'q \<Rightarrow> 'q \<Rightarrow> bool" for sys container where
  asked_refl: "asked sys container q q"
| asked_step: "asked sys container q q1 \<Longrightarrow> only_shows container args \<Longrightarrow>
    asked sys container q (snd (sys_exec sys args q1))"

lemma asked_command:
  assumes "run_command sys container name args q = (r, q')" and "only_shows container (name # args)"
    and "only_shows container (''docker'' # ''exec'' # container # name # args)" and "asked sys container q0 q"
  shows "asked sys container q0 q'"
proof -
  have one: "asked sys container q0 q2 \<Longrightarrow> only_shows container c \<Longrightarrow> sys_exec sys c q2 = (x, q3) \<Longrightarrow> asked sys container q0 q3"
    for c q2 x q3
    using asked_step [of sys container q0 q2 c] by simp
  show ?thesis
    using assms by (auto simp: run_command_def Let_def split: if_splits prod.splits option.splits intro: one)
qed

lemma shows_list: "only_shows c [''postqueue'', ''-p'']" "only_shows c [''docker'', ''exec'', c, ''postqueue'', ''-p'']"
  "only_shows c [''postcat'', ''-q'', i]" "only_shows c [''docker'', ''exec'', c, ''postcat'', ''-q'', i]"
  by (simp_all add: only_shows_def Let_def)

lemma queue_raw_asked:
  "queue_raw sys c q = (r, q') \<Longrightarrow> asked sys c q0 q \<Longrightarrow> asked sys c q0 q'"
  by (auto simp: queue_raw_def list_queue_raw_def split: prod.splits option.splits if_splits
      dest!: asked_command [OF _ shows_list(1,2)])

lemma queue_asked:
  "queue_get_status jd now sys c q = (r1, q') \<Longrightarrow> asked sys c q0 q \<Longrightarrow> asked sys c q0 q'"
  "queue_list jd now sys c st q = (r2, q') \<Longrightarrow> asked sys c q0 q \<Longrightarrow> asked sys c q0 q'"
  "queue_inspect sys c i q = (r3, q') \<Longrightarrow> asked sys c q0 q \<Longrightarrow> asked sys c q0 q'"
  by (auto simp: queue_get_status_def queue_list_def queue_inspect_def drv_inspect_def Let_def
      split: prod.splits sum.splits option.splits intro: queue_raw_asked asked_command [OF _ shows_list(3,4)])
section \<open>What a call does\<close>

text \<open>
  The files of an account: the Maildir of its address, and of what \<open>net/mail\<close> makes of the address
  when a sent message is saved. Everything else on the disk stays.
\<close>

definition mail_kept :: "('d, 'q, 'n) api_deps \<Rightarrow> claims \<Rightarrow> disk \<Rightarrow> disk \<Rightarrow> bool" where
  "mail_kept a cl k k' \<longleftrightarrow>
     (\<forall>x. \<not> reach_of (ad_webmail a) {cl_email cl, clean_email_address (ad_compose a) (cl_email cl)} x \<longrightarrow>
        fbytes k' x = fbytes k x)"

definition only_reads :: "('d, 'q, 'n) api_deps \<Rightarrow> claims \<Rightarrow> api_call \<Rightarrow> ('d, 'q, 'n) host \<Rightarrow> ('d, 'q, 'n) host \<Rightarrow> bool" where
  "only_reads a cl c s s' \<longleftrightarrow>
     settled (host_db s') = settled (host_db s) \<and>
     mail_kept a cl (host_disk s) (host_disk s') \<and>
     asked (ad_system a) (ad_container a) (host_queue s) (host_queue s') \<and>
     (host_dir s' = host_dir s \<or> c = Me) \<and>
     host_net s' = host_net s \<and> host_settings s' = host_settings s"

definition changes_own :: "('d, 'q, 'n) api_deps \<Rightarrow> claims \<Rightarrow> api_call \<Rightarrow> ('d, 'q, 'n) host \<Rightarrow> ('d, 'q, 'n) host \<Rightarrow> bool" where
  "changes_own a cl c s s' \<longleftrightarrow>
     only_password_of (canon (cl_email cl)) (host_db s) (host_db s') \<and>
     mail_kept a cl (host_disk s) (host_disk s') \<and>
     (host_disk s' = host_disk s \<or> (\<exists>w. c = Web_Call w)) \<and>
     (host_dir s' = host_dir s \<or> c = Me) \<and>
     (host_net s' = host_net s \<or> (\<exists>dr b. c = Web_Call (Send_Message dr b))) \<and>
     host_queue s' = host_queue s \<and> host_settings s' = host_settings s \<and> host_ip s' = host_ip s"

lemma mail_kept_files: "files k' = files k \<Longrightarrow> mail_kept a cl k k'"
  by (simp add: mail_kept_def fbytes_def)

lemma mail_kept_refl [simp]: "mail_kept a cl k k"
  by (simp add: mail_kept_def)

lemma answer_disk [simp]: "snd (answer f g r) = snd r"
  by (simp add: answer_def split: prod.split sum.split)

lemma for_email_disk [simp]: "snd (for_email em f k) = (if em = '''' then k else snd (f em k))"
  by (simp add: for_email_def)

text \<open>A call of the webmail is one of its steps, for the address of the claims.\<close>

lemma run_web_disk:
  fixes a :: "('d, 'q, 'n) api_deps"
  assumes "run_web a em w s = (st, s')"
  shows "host_disk s' = host_disk s \<or>
    acts (ad_webmail a) {em, clean_email_address (ad_compose a) em} (host_disk s) (host_disk s')"
proof (cases "\<exists>dr b. w = Send_Message dr b")
  case True
  then obtain dr b where w: "w = Send_Message dr b" by blast
  let ?out = "\<lambda>req. send_message (ad_compose a) (ad_smtp a) dr (ad_webmail a) em req (host_disk s) (host_net s)"
  have "host_disk s' = host_disk s \<or> (\<exists>req. host_disk s' = fst (snd (?out req)))"
    using assms by (auto simp: w h_send_message_def split: if_splits sum.splits prod.splits) (metis fst_conv snd_conv)+
  moreover have "fst (snd (?out req)) = host_disk s \<or>
      (\<exists>raw. fst (snd (?out req)) = save_sent (ad_webmail a) dr (clean_email_address (ad_compose a) em) raw (host_disk s))" for req
    by (rule send_message_disk)
  ultimately have "host_disk s' = host_disk s \<or>
      (\<exists>raw. host_disk s' = save_sent (ad_webmail a) dr (clean_email_address (ad_compose a) em) raw (host_disk s))"
    by metis
  then show ?thesis unfolding acts_def by (auto intro: webmail_step.sent)
next
  case False
  have "host_disk s' = host_disk s \<or> webmail_step (ad_webmail a) em (host_disk s) (host_disk s')"
    using assms False
    by (cases w) (auto simp: in_disk_def h_list_folders_def h_list_messages_def h_get_message_def h_mark_read_def
        h_move_message_def h_delete_message_def h_get_attachment_def Let_def split: if_splits sum.splits
        intro: webmail_step.intros)
  then show ?thesis unfolding acts_def by blast
qed

lemma run_web_rest:
  assumes "run_web a em w s = (st, s')"
  shows "host_db s' = host_db s" and "host_dir s' = host_dir s" and "host_queue s' = host_queue s"
    and "host_settings s' = host_settings s" and "host_ip s' = host_ip s"
    and "host_net s' = host_net s \<or> (\<exists>dr b. w = Send_Message dr b)"
  using assms by (cases w; auto simp: in_disk_def split: prod.splits)+

lemma run_web_kept:
  assumes "run_web a (cl_email cl) w s = (st, s')" and "list_all plain (vmail_root (ad_webmail a))"
    and "plain_names (files (host_disk s))"
  shows "mail_kept a cl (host_disk s) (host_disk s')"
  using run_web_disk [OF assms(1)]
proof
  assume "acts (ad_webmail a) {cl_email cl, clean_email_address (ad_compose a) (cl_email cl)} (host_disk s) (host_disk s')"
  from acts_outside [OF r_into_rtranclp [of "acts _ _", OF this] assms(2,3)] show ?thesis by (simp add: mail_kept_def)
qed simp

lemma auditor_domain:
  assumes "''auditor'' \<in> set (the (rt_roles (domain_route d)))" and "run_domain a d s = (st, s')"
  shows "only_reads a cl c s s'"
  using assms
  by (cases d) (auto simp: role_route_def only_reads_def in_db_def in_disk_def asked_refl h_domain_doctor_reading
      handler_reading [OF surjective_pairing] mail_kept_files h_get_tls_files split: prod.splits dest!: h_domain_dns_reading)

lemma auditor_mailbox:
  assumes "''auditor'' \<in> set (the (rt_roles (mailbox_route m)))" and "run_mailbox a m s = (st, s')"
  shows "only_reads a cl c s s'"
  using assms
  by (cases m) (auto simp: role_route_def owner_route_def only_reads_def in_db_def asked_refl
      handler_reading [OF surjective_pairing])

lemma h_queue_asked:
  "h_queue_status_or_list e jd sys c summary st q = (r1, q') \<Longrightarrow> asked sys c q q'"
  "asked sys c q (snd (h_queue_inspect sys c i q))"
  using queue_asked [OF _ asked_refl]
  by (auto simp: h_queue_status_or_list_def h_queue_status_def h_queue_list_def h_queue_inspect_def map_prod_def
      split: if_splits sum.splits prod.splits)

lemma auditor_queue:
  assumes "''auditor'' \<in> set (the (rt_roles (queue_route qc)))" and "run_queue a qc s = (st, s')"
  shows "only_reads a cl c s s'"
  using assms
  by (cases qc) (auto simp: role_route_def only_reads_def in_queue_def h_queue_asked split: prod.splits sum.splits
      dest: h_queue_asked(1))

lemma auditor_doctor:
  assumes "run_doctor_call a s = (st, s')"
  shows "only_reads a cl c s s'"
proof -
  let ?ask = "queue_get_status (ad_json a) (ae_now (ad_env a)) (ad_system a) (ad_container a)"
  obtain r1 q1 where 1: "?ask (host_queue s) = (r1, q1)" by fastforce
  obtain r2 q2 where 2: "?ask q1 = (r2, q2)" by fastforce
  have "asked (ad_system a) (ad_container a) (host_queue s) q2"
    by (rule queue_asked(1) [OF 2 queue_asked(1) [OF 1 asked_refl]])
  then show ?thesis
    using assms by (auto simp: run_doctor_call_def Let_def 1 2 in_disk_def only_reads_def mail_kept_files h_system_doctor_files)
qed

lemma auditor_call:
  assumes "rt_roles (call_route c) = None \<or> ''auditor'' \<in> set (the (rt_roles (call_route c)))"
    and run: "run_call a cl c s = (st, s')"
    and plain: "list_all plain (vmail_root (ad_webmail a))" "plain_names (files (host_disk s))"
  shows "only_reads a cl c s s'"
proof (cases c)
  case (Domain_Call d)
  have "rt_roles (domain_route d) \<noteq> None" by (cases d) (simp_all add: role_route_def)
  then have "''auditor'' \<in> set (the (rt_roles (domain_route d)))" using assms(1) Domain_Call by auto
  moreover have "run_domain a d s = (st, s')" using run Domain_Call by simp
  ultimately show ?thesis by (rule auditor_domain)
next
  case (Mailbox_Call m)
  have "rt_roles (mailbox_route m) \<noteq> None" by (cases m) (simp_all add: role_route_def owner_route_def)
  then have "''auditor'' \<in> set (the (rt_roles (mailbox_route m)))" using assms(1) Mailbox_Call by auto
  moreover have "run_mailbox a m s = (st, s')" using run Mailbox_Call by simp
  ultimately show ?thesis by (rule auditor_mailbox)
next
  case (Queue_Call q)
  have "rt_roles (queue_route q) \<noteq> None" by (cases q) (simp_all add: role_route_def)
  then have "''auditor'' \<in> set (the (rt_roles (queue_route q)))" using assms(1) Queue_Call by auto
  moreover have "run_queue a q s = (st, s')" using run Queue_Call by simp
  ultimately show ?thesis by (rule auditor_queue)
next
  case (Web_Call w)
  have "''auditor'' \<in> set (the (rt_roles (web_route w))) \<Longrightarrow> \<not> (\<exists>dr b. w = Send_Message dr b)"
    by (auto simp: role_route_def)
  moreover have "rt_roles (web_route w) \<noteq> None" by (cases w) (simp_all add: role_route_def)
  moreover have r: "run_web a (cl_email cl) w s = (st, s')" using run Web_Call by simp
  ultimately show ?thesis
    using assms(1) run_web_rest [OF r] run_web_kept [OF r plain] Web_Call by (auto simp: only_reads_def asked_refl)
next
  case System_Doctor
  then show ?thesis using run auditor_doctor by simp
qed (use assms in \<open>auto simp: role_route_def only_reads_def asked_refl in_db_def in_disk_def mail_kept_files h_ready_files
    h_get_config_def handler_reading [OF surjective_pairing] settled_logout split: prod.splits sum.splits
    dest!: h_me_reading more_reading(2)\<close>)

section \<open>What an account can change\<close>

lemma passed_roles:
  assumes "pass_route rt p cl = Passed ()" and "rt \<in> set (api_routes True)"
    and "to_lower (cl_role cl) = role" and "role \<noteq> ''admin''"
  shows "rt_roles rt = None \<or> role \<in> set (the (rt_roles rt))"
  using pass_route_roles [OF assms(1) api_routes_lower [OF assms(2)]] assms(3,4) by (cases "rt_roles rt") auto

text \<open>The calls that pass a user: the session, its mailbox, and the webmail.\<close>

lemma user_calls:
  assumes "rt_roles (call_route c) = None \<or> ''user'' \<in> set (the (rt_roles (call_route c)))"
  obtains (logout) r where "c = Logout r" | (me) "c = Me" | (mailbox) em where "c = Mailbox_Call (Get_Mailbox em)"
    | (aliases) em where "c = Mailbox_Call (List_Aliases em)" | (quota) em where "c = Mailbox_Call (Get_Quota em)"
    | (password) r em b where "c = Mailbox_Call (Set_Password r em b)" | (web) w where "c = Web_Call w"
proof (cases c)
  case (Domain_Call d)
  then show thesis using assms by (cases d) (simp_all add: role_route_def)
next
  case (Mailbox_Call m)
  then show thesis using assms that(3-6) by (cases m) (simp_all add: role_route_def owner_route_def)
next
  case (Queue_Call q)
  then show thesis using assms by (cases q) (simp_all add: role_route_def)
qed (use assms that in \<open>simp_all add: role_route_def\<close>)

lemma own_password_effect:
  assumes "wf_db db" and "settled db1 = settled db"
    and "pass_route (mailbox_route (Set_Password rnd em b)) em cl = Passed ()"
    and "to_lower (cl_role cl) = ''user''" and "CHR ''%'' \<notin> set (cl_email cl)"
  shows "only_password_of (canon (cl_email cl)) db (snd (h_set_password e env rnd em b db1))"
proof -
  have keep: "only_password_of (canon (cl_email cl)) db db1" by (rule settled_only_password) (rule assms(2))
  have wf: "wf_mailboxes db1"
    using assms(1) settled_tables [OF assms(2)] by (simp add: wf_db_def wf_mailboxes_def)
  have "em = '''' \<or> equal_fold (cl_email cl) em"
    using pass_route_owner [OF assms(3)] assms(4) by (simp add: owner_route_def)
  then show ?thesis
  proof
    assume "em = ''''"
    then show ?thesis using h_set_password_empty [OF surjective_pairing] keep by simp
  next
    assume "equal_fold (cl_email cl) em"
    then have "canon (parse_email_param em) = canon (cl_email cl)"
      using own_param [OF _ assms(5)] by simp
    then show ?thesis using only_password_trans [OF keep] h_set_password_own [OF wf, of em e env rnd b] by simp
  qed
qed

lemma changes_own_settled:
  assumes "settled (host_db s') = settled (host_db s)" and "host_disk s' = host_disk s" and "host_dir s' = host_dir s \<or> c = Me"
    and "host_net s' = host_net s" and "host_queue s' = host_queue s" and "host_settings s' = host_settings s"
    and "host_ip s' = host_ip s"
  shows "changes_own a cl c s s'"
  using assms settled_only_password by (simp add: changes_own_def)

lemma user_call:
  assumes pass: "pass_route (call_route c) (email_param c) cl = Passed ()" and role: "to_lower (cl_role cl) = ''user''"
    and pc: "CHR ''%'' \<notin> set (cl_email cl)" and wf: "wf_db (host_db s)" and db1: "settled db1 = settled (host_db s)"
    and run: "run_call a cl c (s\<lparr>host_db := db1\<rparr>) = (st, s')"
    and plain: "list_all plain (vmail_root (ad_webmail a))" "plain_names (files (host_disk s))"
  shows "changes_own a cl c s s'"
proof -
  have "rt_roles (call_route c) = None \<or> ''user'' \<in> set (the (rt_roles (call_route c)))"
    using passed_roles [OF pass call_route_known role] by simp
  then show ?thesis
  proof (cases rule: user_calls)
    case (password r em b)
    then have p: "pass_route (mailbox_route (Set_Password r em b)) em cl = Passed ()"
      using pass by (simp add: email_param_def)
    from own_password_effect [OF wf db1 p role pc, of "ad_env a" "ad_mail a"] show ?thesis
      using run password by (auto simp: in_db_def changes_own_def)
  next
    case (web w)
    then have r: "run_web a (cl_email cl) w (s\<lparr>host_db := db1\<rparr>) = (st, s')" using run by simp
    have "mail_kept a cl (host_disk s) (host_disk s')" using run_web_kept [OF r] plain by simp
    then show ?thesis
      using run_web_rest [OF r] settled_only_password [OF db1] web by (auto simp: changes_own_def)
  next
    case me
    then show ?thesis using run db1 by (intro changes_own_settled) (auto split: prod.splits dest!: h_me_reading)
  qed (use run db1 in \<open>auto intro!: changes_own_settled simp: in_db_def handler_reading [OF surjective_pairing]\<close>)
qed


text \<open>A host with two accounts and the mail of a third; the first account holds an access token.\<close>

definition example_deps :: "(unit, unit, string list) api_deps" where
  "example_deps =
     \<lparr>ad_env = \<lparr>ae_now = 7, ae_json = (\<lambda>m. Inr ''{}''), ae_text = (\<lambda>e. ''''), ae_getenv = (\<lambda>n. ''''), ae_audit = Some 9\<rparr>,
      ad_digest = id, ad_kdf = example_kdf, ad_mail = example_env, ad_prov = None,
      ad_codec = example_codec, ad_keys = [''dkim''], ad_x509 = toy_x509, ad_certs = [''tls''],
      ad_dns = \<lparr>dn_host = (\<lambda>n. Inl Fault), dn_mx = (\<lambda>n. Inl Fault), dn_txt = (\<lambda>n. Inl Fault),
        dn_dial = (\<lambda>p. False), dn_tls_dial = (\<lambda>p. False), dn_getenv = (\<lambda>n. '''')\<rparr>,
      ad_fetch = (\<lambda>u. None), ad_outbound = None, ad_json = (\<lambda>l. None),
      ad_system = \<lparr>sys_look_path = (\<lambda>n. True), sys_exec = (\<lambda>c q. ((''Mail queue is empty'', True), q))\<rparr>,
      ad_container = ''mailopen_postfix'', ad_default = ''local'', ad_ldap = example_ldap, ad_client = example_client,
      ad_salt = Inl Fault,
      ad_health = \<lparr>he_ping = Some None, he_queue = None, he_vmail = None, he_tls = None, he_dkim = None,
        he_dial = (\<lambda>h p. None), he_getenv = (\<lambda>n. ''''), he_text = (\<lambda>e. '''')\<rparr>,
      ad_count = Inr 0, ad_webmail = Webmail_Props.example_webmail, ad_mime = example_mime, ad_sort = id,
      ad_compose = \<lparr>lib_address = Some, lib_b_encode = id, lib_qp_encode = id, lib_map_order = id\<rparr>, ad_smtp = quit_fails\<rparr>"

definition stored_account :: "uuid \<Rightarrow> string \<Rightarrow> mailbox" where
  "stored_account i em =
     \<lparr>mb_id = i, mb_domain_id = 1, mb_email = em, mb_password_hash = ''x'', mb_quota_bytes = 1, mb_used_bytes = 0,
      mb_status = ''active'', mb_provisioning_status = ''ready'', mb_identity_provider = ''local'',
      mb_created_at = 0, mb_updated_at = 0, mb_domain_name = ''''\<rparr>"

definition example_host :: "(unit, unit, string list) host" where
  "example_host =
     \<lparr>host_db = (example_token_db ''mo_at_00'' ''access'')\<lparr>domains := [example_domain],
        mailboxes := [stored_account 2 ''user@example.org'', stored_account 3 ''ann@example.org'']\<rparr>,
      host_settings = [], host_disk = example_mail_disk, host_dir = (), host_queue = (), host_net = [], host_ip = ('''', 0)\<rparr>"

lemma example_host_facts:
  "wf_db (host_db example_host)" "host_disk example_host = example_mail_disk"
  "list_all plain (vmail_root (ad_webmail example_deps))" "plain_names (files (host_disk example_host))"
  "ad_digest example_deps = id" "ae_now (ad_env example_deps) = 7"
  by (simp_all add: example_host_def example_token_db_def empty_db_def stored_account_def example_domain_def wf_db_def
      wf_defs ref_def to_lower_def example_deps_def example_mail_plain)

lemma example_host_auth:
  "fst (mw_authenticate id 7 ''Bearer mo_at_00'' (host_db example_host)) =
     Passed \<lparr>cl_token_id = 1, cl_user_id = None, cl_email = ''user@example.org'', cl_role = ''user''\<rparr>"
  by code_simp

lemma example_host_reach:
  "\<not> reach_of (ad_webmail example_deps) {''user@example.org'', clean_email_address (ad_compose example_deps) ''user@example.org''}
     [''var'', ''vmail'', ''x.org'', ''bob'', ''Maildir'', ''cur'', ''m1'']"
proof -
  have "clean_email_address (ad_compose example_deps) ''user@example.org'' = ''user@example.org''"
    "get_maildir_path (ad_webmail example_deps) ''user@example.org'' = Inr [''var'', ''vmail'', ''example.org'', ''user'', ''Maildir'']"
    by code_simp+
  then show ?thesis by (simp add: reach_of_def below_iff)
qed


end
