(* ===== verification/Spec2Isabelle.thy ===== *)
theory Spec2Isabelle
  imports Webmail_Props Messages Quota Dkim_Config Smtp_Keys Identity_Sync Http_Sessions Mail_Policy_Props Mail_Queue_Props Bounce Abuse Audit_Log Mta_Service Backup Settings Api
begin

text \<open>
  OpenMail, the control plane of a mail server.

  The program keeps domains, mailboxes, aliases, messages, keys, tokens and limits in PostgreSQL;
  keeps Maildirs, message contents, DKIM keys, certificates and configuration files on disk; and
  steers Postfix, Dovecot, OpenDKIM and a directory server. Its packages are under
  \<open>internal/\<close>. The HTTP API (\<open>internal/api\<close>) passes a request through middlewares to a handler;
  the handler calls a service; the service calls its repository (SQL), the disk, or a command of
  the mail servers. The same services run under the commands of \<open>internal/cli\<close>. Postfix and
  Dovecot read the same tables through queries that the program writes into their configuration.

  Conventions. A Go struct is a record, an enumeration or a sum of cases a datatype, a fallible
  function returns a \<open>result\<close>, the error value or the value. State is passed explicitly: the
  database \<open>db\<close> (theory Database), the disk (theory Disk), and for some components a third state
  of what they call. A Go interface is a record of operations, and the laws its clients rely on
  are a locale with an interpretation on the code's implementation: the blob store, the Maildir
  provisioner, the key store, the identity provider, the rate limiter. Whatever the program reads
  from outside is an input: the clock, fresh identifiers, random bytes, and one list of faults for
  the statements of the database and one for the calls of the disk, so that a theorem holds for
  every pattern of failures unless it asks for a reliable run. A statement that fails has no effect.
  A call of the disk that fails has none either, except that writing a file may leave it truncated
  or with a part of the bytes. Third-party and cryptographic code
  (SHA-256, Argon2, RSA, PEM, X.509, AES-GCM, tar, gzip, JSON, MIME readers, the LDAP and SMTP
  clients, DNS) is a parameter; a property that needs a law of such code names it, and its
  witness uses functions that satisfy it.

  Shared theories.
  Prelude: types, collections of facts, lists and finite tables.
  Go_Strings, Go_Text, Go_Numbers (wrap-around and \<open>float64\<close>), Go_Regexp (patterns and the
  derivatives that decide them), Go_Paths, Go_Files, Go_Base64, Go_Uuid, Go_Time, Go_Net
  (addresses, networks, 32-bit words): the parts of Go's library that the source uses.
  Database: the rows of \<open>migrations/\<close> with their constraints and the SQL statements over them.
  Disk: the calls of package \<open>os\<close>.

  Components, each with the package it models.
  Domains (\<open>internal/domain\<close>): the service and its repository; the cascade of a deletion.
  Passwords, Mailboxes, Mailbox_Laws, Mailbox_Props (\<open>internal/mailbox\<close>): hashes, mailboxes and
  aliases; a created mailbox authenticates, a changed password is the only one, what a deletion
  removes, and that a mailbox marked ready has its Maildir.
  Provisioning (\<open>internal/provisioning\<close>): Maildirs stay below the root, apart from each other.
  Blob_Store (\<open>internal/storage\<close>) and Messages (\<open>internal/message\<close>): contents by digest, the
  garbage collector; what is stored is read back, a collection keeps what is referenced, a shared
  blob is lost with the first of its messages, and a collection can race with a store.
  Quota (\<open>internal/quota\<close>): the walk over a Maildir, the classification, the admission check.
  Dkim, Dkim_Props, Dkim_Config (\<open>internal/dkim\<close>): keys, policies, records, the files of OpenDKIM
  and the doctor.
  Tokens (\<open>internal/api/token\<close>), Smtp_Keys (\<open>internal/smtpkey\<close>): issue, check, rotation,
  revocation.
  Identity, Ldap, Identity_Props, Identity_Sync (\<open>internal/identity\<close>): logins, the directory and
  its filters, the synchronisation.
  Rate_Limits (the limiters of \<open>internal/api/middleware\<close> and \<open>internal/inbound\<close>): both refine a
  limiter with the complete history.
  Mail_Policy, Mail_Policy_Props (\<open>internal/dns\<close>, \<open>internal/inbound\<close>): SPF, DMARC, the verdict on
  an incoming message.
  Mail_Queue, Mail_Queue_Props (\<open>internal/queue\<close>), Bounce (\<open>internal/bounce\<close>), Abuse
  (\<open>internal/abuse\<close>), Audit_Log (\<open>internal/audit\<close>).
  Webmail_Store, Webmail_Mime, Webmail_Send, Webmail_Confined, Webmail_Props (\<open>internal/webmail\<close>):
  folders, reading and sending; requests stay in the Maildirs of those who make them.
  Control_Plane: the statements of all repositories as one step relation; what the columns hold in
  every reachable state, however requests interleave.
  Delivery (\<open>internal/postfix\<close>, \<open>internal/dovecot\<close>: the lookups): the maps of Postfix and Dovecot,
  the Go lookups and the provisioner agree on recipients and Maildirs; on senders, where exactly
  the maps and the Go check differ.
  Mta_Config, Mta_Service (the same packages: files, commands, doctors).
  Backup (\<open>internal/backup\<close>): what is archived verifies and is restored.
  Health (\<open>internal/health\<close> and the reports of \<open>internal/system\<close>), Settings (\<open>internal/config\<close>
  and \<open>system/setting.go\<close>), Tls (\<open>internal/tls\<close>), Domain_Doctor (\<open>internal/dns/doctor.go\<close>).
  Http_Access, Http_Sessions (\<open>internal/api/middleware\<close>, \<open>router.go\<close>, logins), Api_Accounts,
  Api_Mail (\<open>internal/api/handler\<close>) and Api (the authenticated scope as a whole, a call for every
  route of it): the middlewares of each route, every handler, and what a request of an
  unauthenticated client, a user and an auditor can change on the host.
  Properties that span components stand where their last component is: the readiness of a mailbox
  in Mailbox_Props, the contents of messages in Messages, sessions in Http_Sessions, the agreement
  of the mail servers in Delivery, the columns of the database in Control_Plane, the roles of the
  API in Api.

  Bounds and fuel. The walks of Quota and Backup over a directory carry the depth of the file tree
  as fuel, and the depth is a bound on the length of every path, so the walk reaches every file.
  The descent into nested parts of a mail has the length of the body plus one, and a part is
  shorter than its body (\<open>parse_multipart_terminates\<close>). The reader of PEM blocks has the length of
  the text plus one, and a block consumes some of it. Other loops are structural recursion. Sums
  of sizes are \<open>int64\<close> with its wrap-around where the code compares them; \<open>float64\<close> values are
  rational numbers rounded to 53 bits.

  Not modelled. Network connections and the clients of third-party libraries, the parsing of JSON
  requests and the matching of paths to routes (inputs of the API), the request identifiers in
  error bodies, the concurrency inside one statement or under one mutex, symbolic links, and the
  parts of a Unicode string that are neither ASCII nor opaque. The command line
  (\<open>internal/cli\<close>) reads its arguments, calls the operations above and prints their results; the
  logger, the metrics and the connection to the database do input and output only. Code for tests
  is left aside. The listing of the queue is read back with the last recipient of each entry only,
  and a login whose lookup of the mailbox fails is answered by the default provider: both are
  what the code does.
\<close>

end
